(* ===== verification/Prelude.thy ===== *)
theory Prelude
  imports Complex_Main "HOL-Library.Char_ord" "HOL-Library.List_Lexorder"
    "HOL-Library.Product_Lexorder" "HOL-Library.Sublist"
begin

text \<open>
  Shared vocabulary of the development: the Python string operations the code uses
  (restricted to ASCII text), JSON values, the result type of fallible code, the SQL
  statements on tables seen as lists of rows, and chains of parent pointers.
  A TEXT or REAL column that may be NULL is an \<open>option\<close>; seconds are exact rationals.
\<close>

type_synonym seconds = rat

named_theorems text_simps \<open>normalisation of text\<close>
named_theorems table_simps \<open>rows of tables after a statement\<close>

section \<open>Text\<close>

definition is_ws :: "char \<Rightarrow> bool" where
  "is_ws c = (let n = (of_char c :: nat) in n = 32 \<or> (9 \<le> n \<and> n \<le> 13) \<or> (28 \<le> n \<and> n \<le> 31))"

definition lstrip :: "string \<Rightarrow> string" where
  "lstrip s = dropWhile is_ws s"

definition strip :: "string \<Rightarrow> string" where
  "strip s = rev (lstrip (rev (lstrip s)))"

definition lower_char :: "char \<Rightarrow> char" where
  "lower_char c =
     (let n = (of_char c :: nat) in if 65 \<le> n \<and> n \<le> 90 then char_of (n + 32) else c)"

definition lower :: "string \<Rightarrow> string" where
  "lower s = map lower_char s"

definition upper_char :: "char \<Rightarrow> char" where
  "upper_char c =
     (let n = (of_char c :: nat) in if 97 \<le> n \<and> n \<le> 122 then char_of (n - 32) else c)"

definition upper :: "string \<Rightarrow> string" where
  "upper s = map upper_char s"

text \<open>\<open>str(x or "")\<close>, \<open>str(x or "").strip()\<close> and \<open>str(x or "").strip().lower()\<close>.\<close>

definition otext :: "string option \<Rightarrow> string" where
  "otext x = (case x of None \<Rightarrow> [] | Some s \<Rightarrow> s)"

definition clean :: "string option \<Rightarrow> string" where
  "clean x = strip (otext x)"

definition norm :: "string option \<Rightarrow> string" where
  "norm x = lower (clean x)"

text \<open>\<open>x or None\<close> for a string, and SQL's \<open>NULLIF(x, '')\<close>.\<close>

definition opt_text :: "string \<Rightarrow> string option" where
  "opt_text s = (if s = [] then None else Some s)"

text \<open>SQL's \<open>COALESCE(x, y)\<close>.\<close>

definition coalesce :: "'a option \<Rightarrow> 'a option \<Rightarrow> 'a option" where
  "coalesce x y = (case x of None \<Rightarrow> y | Some v \<Rightarrow> Some v)"

lemma otext_simps [simp]: "otext None = []" "otext (Some s) = s"
  by (simp_all add: otext_def)

lemma coalesce_simps [simp]: "coalesce None y = y" "coalesce (Some v) y = Some v"
  by (simp_all add: coalesce_def)

lemma opt_text_simps [simp]: "opt_text [] = None" "s \<noteq> [] \<Longrightarrow> opt_text s = Some s"
  by (simp_all add: opt_text_def)

lemma is_ws_lower_char [text_simps]: "is_ws (lower_char c) = is_ws c"
  by (auto simp: is_ws_def lower_char_def Let_def)

lemma lower_char_idem [text_simps]: "lower_char (lower_char c) = lower_char c"
  by (auto simp: lower_char_def Let_def)

lemma lower_idem [text_simps]: "lower (lower s) = lower s"
  by (simp add: lower_def text_simps)

lemma lower_Nil_iff [simp]: "lower s = [] \<longleftrightarrow> s = []"
  by (simp add: lower_def)

lemma lower_append [simp]: "lower (s @ t) = lower s @ lower t"
  by (simp add: lower_def)

lemma lower_Nil [simp]: "lower [] = []"
  by (simp add: lower_def)

lemma dropWhile_map_ws: "dropWhile is_ws (map lower_char s) = map lower_char (dropWhile is_ws s)"
  by (induction s) (auto simp: text_simps)

lemma strip_lower [text_simps]: "strip (lower s) = lower (strip s)"
  by (simp add: strip_def lstrip_def lower_def dropWhile_map_ws rev_map)

lemma dropWhile_idem: "dropWhile P (dropWhile P s) = dropWhile P s"
  by (induction s) auto

lemma lstrip_Nil_iff: "lstrip s = [] \<longleftrightarrow> (\<forall>c \<in> set s. is_ws c)"
  by (simp add: lstrip_def)

lemma lstrip_hd: "lstrip s \<noteq> [] \<Longrightarrow> \<not> is_ws (hd (lstrip s))"
  by (simp add: lstrip_def hd_dropWhile)

lemma lstrip_id: "s = [] \<or> \<not> is_ws (hd s) \<Longrightarrow> lstrip s = s"
  by (cases s) (auto simp: lstrip_def)

lemma rstrip_keeps_head:
  assumes "\<not> is_ws c"
  shows "\<exists>t. rev (lstrip (rev (c # s))) = c # t"
proof -
  have "lstrip (rev s @ [c]) = lstrip (rev s) @ [c]"
    using assms by (auto simp: lstrip_def dropWhile_append)
  then show ?thesis by simp
qed

lemma strip_idem [text_simps]: "strip (strip s) = strip s"
proof (cases "lstrip s")
  case Nil
  have "strip s = []" by (simp only: strip_def Nil rev.simps) (simp add: lstrip_def)
  moreover have "strip [] = []" by (simp add: strip_def lstrip_def)
  ultimately show ?thesis by (simp only:)
next
  case (Cons c t)
  then have c: "\<not> is_ws c"
    using lstrip_hd [of s] by simp
  obtain u where u: "rev (lstrip (rev (c # t))) = c # u"
    using rstrip_keeps_head [OF c] by blast
  have s: "strip s = c # u" using Cons u by (simp add: strip_def)
  have "lstrip (c # u) = c # u" using c by (simp add: lstrip_def)
  moreover have "lstrip (rev (c # u)) = rev (c # u)"
    using arg_cong [OF u, of rev] by (metis dropWhile_idem lstrip_def rev_rev_ident)
  ultimately show ?thesis unfolding s by (simp only: strip_def rev_rev_ident)
qed

lemma strip_Nil [simp]: "strip [] = []"
  by (simp add: strip_def lstrip_def)

lemma norm_idem [text_simps]: "norm (Some (norm x)) = norm x"
  by (simp add: norm_def clean_def text_simps)

lemma clean_idem [text_simps]: "clean (Some (clean x)) = clean x"
  by (simp add: clean_def text_simps)

text \<open>Decimal text of a natural number and its reading, as \<open>str(n)\<close> and \<open>int(s)\<close>.\<close>

fun digits_of :: "nat \<Rightarrow> string" where
  "digits_of n = (if n < 10 then [char_of (48 + n)] else digits_of (n div 10) @ [char_of (48 + n mod 10)])"

declare digits_of.simps [simp del]

definition is_digit :: "char \<Rightarrow> bool" where
  "is_digit c = (let n = (of_char c :: nat) in 48 \<le> n \<and> n \<le> 57)"

definition digit_value :: "char \<Rightarrow> nat" where
  "digit_value c = of_char c - 48"

definition nat_of_digits :: "string \<Rightarrow> nat" where
  "nat_of_digits s = foldl (\<lambda>n c. 10 * n + digit_value c) 0 s"

lemma digit_value_char_of: "d < 10 \<Longrightarrow> digit_value (char_of (48 + d)) = d"
  by (simp add: digit_value_def)

lemma nat_of_digits_of: "nat_of_digits (digits_of n) = n"
proof (induction n rule: digits_of.induct)
  case (1 n)
  show ?case
  proof (cases "n < 10")
    case True
    then show ?thesis
      by (subst digits_of.simps) (simp add: nat_of_digits_def digit_value_char_of)
  next
    case False
    with 1 have "nat_of_digits (digits_of (n div 10)) = n div 10" by simp
    with False show ?thesis
      by (subst digits_of.simps) (simp add: nat_of_digits_def digit_value_char_of)
  qed
qed

lemma digits_of_digits: "\<forall>c \<in> set (digits_of n). is_digit c"
proof (induction n rule: digits_of.induct)
  case (1 n)
  then show ?case
    by (subst digits_of.simps) (auto simp: is_digit_def Let_def)
qed

lemma digits_of_not_Nil [simp]: "digits_of n \<noteq> []"
  by (subst digits_of.simps) simp

text \<open>\<open>s.split(c)\<close> and \<open>c.join(parts)\<close> for a one-character separator.\<close>

fun split_on :: "char \<Rightarrow> string \<Rightarrow> string list" where
  "split_on c [] = [[]]"
| "split_on c (x # xs) =
     (if x = c then [] # split_on c xs
      else case split_on c xs of [] \<Rightarrow> [[x]] | y # ys \<Rightarrow> (x # y) # ys)"

fun join_with :: "string \<Rightarrow> string list \<Rightarrow> string" where
  "join_with sep [] = []"
| "join_with sep [x] = x"
| "join_with sep (x # y # ys) = x @ sep @ join_with sep (y # ys)"

lemma split_on_not_Nil [simp]: "split_on c s \<noteq> []"
  by (induction s) (auto split: list.splits)

lemma join_split_on: "join_with [c] (split_on c s) = s"
proof (induction s)
  case Nil
  then show ?case by simp
next
  case (Cons x xs)
  obtain y ys where s: "split_on c xs = y # ys" by (cases "split_on c xs") auto
  then show ?case using Cons.IH by (cases ys) auto
qed

lemma split_on_no_sep: "p \<in> set (split_on c s) \<Longrightarrow> c \<notin> set p"
  by (induction s arbitrary: p) (auto split: list.splits if_splits)

section \<open>JSON values\<close>

text \<open>
  A column holding JSON text is represented by the value it parses to; \<open>JRaw\<close> holds
  text that \<open>json.loads\<close> rejects.
\<close>

datatype json =
    JNull
  | JBool bool
  | JInt int
  | JFloat rat
  | JStr string
  | JList "json list"
  | JObj "(string \<times> json) list"
  | JRaw string

fun jget :: "json \<Rightarrow> string \<Rightarrow> json" where
  "jget (JObj kvs) k = (case map_of kvs k of None \<Rightarrow> JNull | Some v \<Rightarrow> v)"
| "jget _ k = JNull"

definition jhas :: "json \<Rightarrow> string \<Rightarrow> bool" where
  "jhas j k = (case j of JObj kvs \<Rightarrow> k \<in> set (map fst kvs) | _ \<Rightarrow> False)"

definition is_jobj :: "json \<Rightarrow> bool" where
  "is_jobj j = (case j of JObj _ \<Rightarrow> True | _ \<Rightarrow> False)"

text \<open>\<open>str(j or "")\<close> where the value is expected to be text.\<close>

fun jtext :: "json \<Rightarrow> string" where
  "jtext (JStr s) = s"
| "jtext _ = []"

text \<open>
  The library functions the code rests on: JSON printing (\<open>json.dumps\<close> with sorted keys),
  JSON parsing (None where \<open>json.loads\<close> raises), \<open>str\<close> of a parsed value that is not
  text, and SHA-256 in hexadecimal.
\<close>

record lib =
  dumps :: "json \<Rightarrow> string"
  loads :: "string \<Rightarrow> json option"
  py_str :: "json \<Rightarrow> string"
  sha256 :: "string \<Rightarrow> string"

fun truthy :: "json \<Rightarrow> bool" where
  "truthy JNull = False"
| "truthy (JBool b) = b"
| "truthy (JInt n) = (n \<noteq> 0)"
| "truthy (JFloat q) = (q \<noteq> 0)"
| "truthy (JStr s) = (s \<noteq> [])"
| "truthy (JList xs) = (xs \<noteq> [])"
| "truthy (JObj kvs) = (kvs \<noteq> [])"
| "truthy (JRaw s) = (s \<noteq> [])"

text \<open>\<open>str(j or "")\<close> for any parsed value.\<close>

definition str_or_empty :: "lib \<Rightarrow> json \<Rightarrow> string" where
  "str_or_empty L j = (if \<not> truthy j then [] else case j of JStr s \<Rightarrow> s | JRaw s \<Rightarrow> s | _ \<Rightarrow> py_str L j)"

definition digest :: "lib \<Rightarrow> json \<Rightarrow> string" where
  "digest L j = sha256 L (dumps L j)"

section \<open>Results of fallible code\<close>

fun bindE :: "'e + 'a \<Rightarrow> ('a \<Rightarrow> 'e + 'b) \<Rightarrow> 'e + 'b" where
  "bindE (Inl e) f = Inl e"
| "bindE (Inr x) f = f x"

lemma bindE_Inr_iff: "bindE m f = Inr y \<longleftrightarrow> (\<exists>x. m = Inr x \<and> f x = Inr y)"
  by (cases m) auto

lemma bindE_split:
  "P (bindE m f) \<longleftrightarrow> (\<forall>e. m = Inl e \<longrightarrow> P (Inl e)) \<and> (\<forall>x. m = Inr x \<longrightarrow> P (f x))"
  by (cases m) auto

lemma Inr_fst_snd: "map_sum (\<lambda>_. ()) snd m = Inr y \<Longrightarrow> \<exists>x. m = Inr (x, y)"
  by (cases m) auto

lemma not_isl_Inr: "\<not> isl m \<Longrightarrow> \<exists>x. m = Inr x"
  by (cases m) auto

section \<open>Tables\<close>

text \<open>\<open>UPDATE t SET f WHERE p\<close>, its row count, and \<open>SELECT\<close> with an order and a limit of one.\<close>

definition upd_where :: "('a \<Rightarrow> bool) \<Rightarrow> ('a \<Rightarrow> 'a) \<Rightarrow> 'a list \<Rightarrow> 'a list" where
  "upd_where p f xs = map (\<lambda>x. if p x then f x else x) xs"

definition row_count :: "('a \<Rightarrow> bool) \<Rightarrow> 'a list \<Rightarrow> nat" where
  "row_count p xs = length (filter p xs)"

definition first_row :: "'a list \<Rightarrow> 'a option" where
  "first_row xs = (case xs of [] \<Rightarrow> None | x # _ \<Rightarrow> Some x)"

definition last_row :: "'a list \<Rightarrow> 'a option" where
  "last_row xs = first_row (rev xs)"

text \<open>\<open>SELECT \<dots> WHERE p ORDER BY k LIMIT 1\<close> and the same with \<open>ORDER BY k DESC\<close>.\<close>

definition select_min :: "('a \<Rightarrow> 'k::linorder) \<Rightarrow> ('a \<Rightarrow> bool) \<Rightarrow> 'a list \<Rightarrow> 'a option" where
  "select_min k p xs = first_row (sort_key k (filter p xs))"

definition select_max :: "('a \<Rightarrow> 'k::linorder) \<Rightarrow> ('a \<Rightarrow> bool) \<Rightarrow> 'a list \<Rightarrow> 'a option" where
  "select_max k p xs = last_row (sort_key k (filter p xs))"

lemma set_upd_where [table_simps]:
  "set (upd_where p f xs) = {f x | x. x \<in> set xs \<and> p x} \<union> {x \<in> set xs. \<not> p x}"
  by (auto simp: upd_where_def)

lemma in_upd_whereD: "y \<in> set (upd_where p f xs) \<Longrightarrow> \<exists>x \<in> set xs. y = (if p x then f x else x)"
  by (auto simp: upd_where_def)

lemma upd_where_Nil [simp]: "upd_where p f [] = []"
  by (simp add: upd_where_def)

lemma upd_where_Cons [simp]:
  "upd_where p f (x # xs) = (if p x then f x else x) # upd_where p f xs"
  by (simp add: upd_where_def)

lemma upd_where_append [simp]: "upd_where p f (xs @ ys) = upd_where p f xs @ upd_where p f ys"
  by (simp add: upd_where_def)

lemma length_upd_where [simp]: "length (upd_where p f xs) = length xs"
  by (simp add: upd_where_def)

lemma map_key_upd_where:
  "(\<And>x. p x \<Longrightarrow> k (f x) = k x) \<Longrightarrow> map k (upd_where p f xs) = map k xs"
  by (induction xs) auto

lemma upd_where_id: "(\<And>x. x \<in> set xs \<Longrightarrow> p x \<Longrightarrow> f x = x) \<Longrightarrow> upd_where p f xs = xs"
  by (induction xs) auto

lemma upd_where_none: "(\<And>x. x \<in> set xs \<Longrightarrow> \<not> p x) \<Longrightarrow> upd_where p f xs = xs"
  by (induction xs) auto

lemma upd_where_twice:
  "(\<And>x. p x \<Longrightarrow> \<not> q (f x)) \<Longrightarrow> upd_where q f (upd_where p f xs) = upd_where (\<lambda>x. p x \<or> q x) f xs"
  by (induction xs) auto

lemma upd_where_cong:
  "(\<And>x. x \<in> set xs \<Longrightarrow> p x = q x) \<Longrightarrow> upd_where p f xs = upd_where q f xs"
  by (auto simp: upd_where_def)

lemma list_all2_upd_where:
  "(\<And>x. R x x) \<Longrightarrow> (\<And>x. p x \<Longrightarrow> R x (f x)) \<Longrightarrow> list_all2 R xs (upd_where p f xs)"
  by (induction xs) auto

lemma list_all2_same_refl: "(\<And>x. R x x) \<Longrightarrow> list_all2 R xs xs"
  by (induction xs) auto

lemma list_all2_find:
  assumes "list_all2 R xs ys" "\<And>x y. R x y \<Longrightarrow> k y = k x"
  shows "rel_option R (find (\<lambda>x. k x = a) xs) (find (\<lambda>x. k x = a) ys)"
  using assms by (induction xs ys rule: list_all2_induct) auto

lemma find_upd_where:
  "(\<And>x. p x \<Longrightarrow> k (f x) = k x) \<Longrightarrow>
   find (\<lambda>x. k x = a) (upd_where p f xs) =
     map_option (\<lambda>x. if p x then f x else x) (find (\<lambda>x. k x = a) xs)"
  by (induction xs) auto

lemma find_SomeD: "find p xs = Some x \<Longrightarrow> x \<in> set xs \<and> p x"
  by (induction xs) (auto split: if_splits)

lemma find_distinct:
  "distinct (map k xs) \<Longrightarrow> x \<in> set xs \<Longrightarrow> find (\<lambda>y. k y = k x) xs = Some x"
  by (induction xs) (auto simp: rev_image_eqI)

lemma find_append: "find p (xs @ ys) = (case find p xs of Some x \<Rightarrow> Some x | None \<Rightarrow> find p ys)"
  by (induction xs) auto

lemma first_row_SomeD: "first_row xs = Some x \<Longrightarrow> x \<in> set xs"
  by (auto simp: first_row_def split: list.splits)

lemma first_row_None [simp]: "first_row xs = None \<longleftrightarrow> xs = []"
  by (simp add: first_row_def split: list.splits)

lemma last_row_SomeD: "last_row xs = Some x \<Longrightarrow> x \<in> set xs"
  by (auto simp: last_row_def dest: first_row_SomeD)

lemma select_min_SomeD: "select_min k p xs = Some x \<Longrightarrow> x \<in> set xs \<and> p x"
  by (auto simp: select_min_def dest!: first_row_SomeD)

lemma select_max_SomeD: "select_max k p xs = Some x \<Longrightarrow> x \<in> set xs \<and> p x"
  by (auto simp: select_max_def dest!: last_row_SomeD)

lemma length_sort_key_Nil [simp]: "sort_key k xs = [] \<longleftrightarrow> xs = []"
  by (metis length_0_conv length_sort)

lemma select_min_None: "select_min k p xs = None \<longleftrightarrow> (\<forall>x \<in> set xs. \<not> p x)"
  by (simp add: select_min_def filter_empty_conv)

lemma select_max_None: "select_max k p xs = None \<longleftrightarrow> (\<forall>x \<in> set xs. \<not> p x)"
  by (simp add: select_max_def last_row_def filter_empty_conv)

lemma first_row_sorted_le:
  "sorted (map k xs) \<Longrightarrow> first_row xs = Some x \<Longrightarrow> y \<in> set xs \<Longrightarrow> k x \<le> k y"
  by (cases xs) (auto simp: first_row_def)

lemma select_min_le: "select_min k p xs = Some x \<Longrightarrow> y \<in> set xs \<Longrightarrow> p y \<Longrightarrow> k x \<le> k y"
  unfolding select_min_def by (rule first_row_sorted_le [of k "sort_key k (filter p xs)"]) auto

lemma last_row_sorted_ge:
  "sorted (map k xs) \<Longrightarrow> last_row xs = Some x \<Longrightarrow> y \<in> set xs \<Longrightarrow> k y \<le> k x"
  by (induction xs rule: rev_induct) (auto simp: last_row_def first_row_def sorted_append)

lemma select_max_ge: "select_max k p xs = Some x \<Longrightarrow> y \<in> set xs \<Longrightarrow> p y \<Longrightarrow> k y \<le> k x"
  unfolding select_max_def by (rule last_row_sorted_ge [of k "sort_key k (filter p xs)"]) auto

text \<open>A partial unique index: the indexed keys of the rows that satisfy \<open>h\<close> are distinct.\<close>

definition unique_where :: "('a \<Rightarrow> bool) \<Rightarrow> ('a \<Rightarrow> 'k) \<Rightarrow> 'a list \<Rightarrow> bool" where
  "unique_where h k xs = distinct (map k (filter h xs))"

lemma unique_where_upd:
  assumes "unique_where h k xs"
    and "\<And>x. p x \<Longrightarrow> h (f x) \<Longrightarrow> h x" and "\<And>x. p x \<Longrightarrow> k (f x) = k x"
  shows "unique_where h k (upd_where p f xs)"
proof -
  have sub: "set (map k (filter h (upd_where p f ys))) \<subseteq> set (map k (filter h ys))" for ys
    using assms(2,3) by (induction ys) (auto split: if_splits)
  show ?thesis
    using assms(1)
  proof (induction xs)
    case Nil
    then show ?case by (simp add: unique_where_def)
  next
    case (Cons x xs)
    then show ?case
      using sub [of xs] assms(2,3) by (auto simp: unique_where_def split: if_splits)
  qed
qed

lemma unique_where_append:
  "unique_where h k (xs @ [y]) \<longleftrightarrow>
     unique_where h k xs \<and> (h y \<longrightarrow> (\<forall>x \<in> set xs. h x \<longrightarrow> k x \<noteq> k y))"
  by (auto simp: unique_where_def image_iff)

lemma unique_whereD:
  assumes "unique_where h k xs" "x \<in> set xs" "y \<in> set xs" "h x" "h y" "k x = k y"
  shows "x = y"
proof -
  have "inj_on k (set (filter h xs))"
    using assms(1) by (simp add: unique_where_def distinct_map)
  then show ?thesis using assms(2-6) by (auto dest: inj_onD)
qed

section \<open>Chains of parent pointers\<close>

text \<open>\<open>hop p n x\<close> follows the pointer \<open>n\<close> times.\<close>

fun hop :: "('k \<Rightarrow> 'k option) \<Rightarrow> nat \<Rightarrow> 'k \<Rightarrow> 'k option" where
  "hop p 0 x = Some x"
| "hop p (Suc n) x = (case p x of None \<Rightarrow> None | Some y \<Rightarrow> hop p n y)"

lemma hop_add: "hop p (m + n) x = (case hop p m x of None \<Rightarrow> None | Some y \<Rightarrow> hop p n y)"
  by (induction m arbitrary: x) (auto split: option.splits)

lemma hop_Suc_right: "hop p (Suc n) x = (case hop p n x of None \<Rightarrow> None | Some y \<Rightarrow> p y)"
  using hop_add [of p n 1 x] by (auto split: option.splits)

lemma hop_prefix_defined: "hop p n x = Some y \<Longrightarrow> m \<le> n \<Longrightarrow> \<exists>z. hop p m x = Some z"
  using hop_add [of p m "n - m" x] by (auto split: option.splits)

lemma hop_upd:
  "(\<And>i. i < n \<Longrightarrow> hop p i x \<noteq> Some a) \<Longrightarrow> hop (p(a := v)) n x = hop p n x"
proof (induction n)
  case 0
  then show ?case by simp
next
  case (Suc n)
  have "hop (p(a := v)) n x = hop p n x" by (rule Suc.IH) (use Suc.prems in simp)
  moreover have "hop p n x \<noteq> Some a" using Suc.prems by simp
  ultimately show ?case
    by (cases "hop p n x") (simp_all add: hop_Suc_right del: hop.simps(2) fun_upd_apply, simp add: fun_upd_apply)
qed

definition no_cycle :: "('k \<Rightarrow> 'k option) \<Rightarrow> bool" where
  "no_cycle p \<longleftrightarrow> (\<forall>x n. 0 < n \<longrightarrow> hop p n x \<noteq> Some x)"

text \<open>Pointing \<open>a\<close> at \<open>b\<close> closes no cycle if \<open>a\<close> is not on the chain that starts at \<open>b\<close>.\<close>

lemma no_cycle_upd:
  assumes "no_cycle p" and free: "\<And>m. hop p m b \<noteq> Some a"
  shows "no_cycle (p(a := Some b))"
  unfolding no_cycle_def
proof (intro allI impI notI)
  fix x n
  let ?q = "p(a := Some b)"
  assume n: "0 < n" and cyc: "hop ?q n x = Some x"
  have undo: "p = ?q(a := p a)" by auto
  have bwd: "(\<And>i. i < m \<Longrightarrow> hop ?q i y \<noteq> Some a) \<Longrightarrow> hop p m y = hop ?q m y" for m y
    using hop_upd [of m ?q y a "p a"] undo by simp
  show False
  proof (cases "\<exists>i < n. hop ?q i x = Some a")
    case False
    then have "hop p n x = Some x" using bwd [of n x] cyc by auto
    with assms(1) n show False by (auto simp: no_cycle_def)
  next
    case True
    then obtain i where i: "hop ?q i x = Some a" by blast
    have "hop ?q n a = hop ?q (i + n) x" using hop_add [of ?q i n x] i by simp
    also have "\<dots> = hop ?q i x" using hop_add [of ?q n i x] cyc by (simp add: add.commute)
    finally have "hop ?q n a = Some a" using i by simp
    then have "hop ?q (n - 1) b = Some a" using n by (cases n) auto
    then obtain m where m: "hop ?q m b = Some a" "\<And>i. i < m \<Longrightarrow> hop ?q i b \<noteq> Some a"
      using exists_least_iff [of "\<lambda>m. hop ?q m b = Some a"] by blast
    with bwd [of m b] free [of m] show False by simp
  qed
qed

text \<open>A chain that comes back to a node it has visited only ever visits the nodes seen so far.\<close>

lemma hop_revisit:
  assumes "hop p i x = Some z" "hop p j x = Some z" "i < j" "hop p n x = Some y"
  shows "\<exists>m < j. hop p m x = Some y"
  using assms(4)
proof (induction n rule: less_induct)
  case (less n)
  show ?case
  proof (cases "n < j")
    case True
    with less.prems show ?thesis by blast
  next
    case False
    then have j: "j + (n - j) = n" by simp
    have "hop p (n - j) z = Some y"
      using hop_add [of p j "n - j" x] assms(2) less.prems j by simp
    then have "hop p (i + (n - j)) x = Some y"
      using hop_add [of p i "n - j" x] assms(1) by simp
    moreover have "i + (n - j) < n" using assms(3) False by linarith
    ultimately show ?thesis using less.IH by blast
  qed
qed

lemma find_upd_key:
  assumes "\<And>x. k x = i \<Longrightarrow> k (f x) = k x"
  shows "find (\<lambda>x. k x = a) (upd_where (\<lambda>x. k x = i) f xs) =
    (if a = i then map_option f (find (\<lambda>x. k x = a) xs) else find (\<lambda>x. k x = a) xs)"
  using assms by (induction xs) auto


lemma drop_filter_sorted:
  fixes k :: "'a \<Rightarrow> 'b :: linorder"
  assumes "sorted_wrt (<) (map k xs)" "n < length xs"
  shows "drop (Suc n) xs = filter (\<lambda>x. k (xs ! n) < k x) xs"
  using assms
proof (induction xs arbitrary: n)
  case Nil
  then show ?case by simp
next
  case (Cons x xs)
  show ?case
  proof (cases n)
    case 0
    then show ?thesis using Cons.prems(1) by (auto simp: filter_id_conv)
  next
    case (Suc m)
    then have m: "m < length xs" "sorted_wrt (<) (map k xs)" using Cons.prems by auto
    have "k x < k (xs ! m)" using Cons.prems(1) m(1) by simp
    then show ?thesis using Suc Cons.IH [OF m(2,1)] by auto
  qed
qed

lemma hop_to_root_distinct:
  assumes "hop f n x = Some r" "f r = None" "j < k" "k \<le> n"
  shows "hop f j x \<noteq> hop f k x"
proof
  assume same: "hop f j x = hop f k x"
  obtain y where y: "hop f k x = Some y" using hop_add [of f k "n - k" x] assms(1,4) by (cases "hop f k x") auto
  have "hop f (n - k) y = Some r" using hop_add [of f k "n - k" x] assms(1,4) y by simp
  then have "hop f (j + (n - k)) x = Some r" using hop_add [of f j "n - k" x] same y by simp
  moreover have "hop f ((j + (n - k)) + Suc (k - j - 1)) x = Some r" using assms(1,3,4) by simp
  ultimately have "hop f (Suc (k - j - 1)) r = Some r" using hop_add [of f "j + (n - k)" "Suc (k - j - 1)" x] by simp
  then show False using assms(2) by simp
qed

end
