(* ===== verification/Regex.thy ===== *)
theory Regex
  imports Prelude
begin

text \<open>
  The part of Python's \<open>re\<close> that the policy code uses: a pattern is a value of \<open>rx\<close>, a
  position is the previous character with the text that is left, and \<open>ends\<close> lists the
  positions where a match may end, in the order the backtracking engine tries them. The
  matcher is shown equivalent to a declarative matching relation.
  A pattern compiled with \<open>re.I\<close> is written in lower case and run on lowered text.
\<close>

section \<open>Patterns\<close>

type_synonym pos = "char option \<times> string"

datatype rx =
    REps
  | RClass "char \<Rightarrow> bool"
  | RSpan "char \<Rightarrow> bool" nat "nat option"
  | RSeq rx rx
  | RAlt rx rx
  | RBound
  | RStart
  | REnd
  | RNot rx

definition is_word :: "char \<Rightarrow> bool" where
  "is_word c = (let n = (of_char c :: nat) in
     (48 \<le> n \<and> n \<le> 57) \<or> (65 \<le> n \<and> n \<le> 90) \<or> (97 \<le> n \<and> n \<le> 122) \<or> n = 95)"

definition newline :: char where
  "newline = CHR 0x0A"

definition not_newline :: "char \<Rightarrow> bool" where
  "not_newline c \<longleftrightarrow> c \<noteq> newline"

fun rlit :: "string \<Rightarrow> rx" where
  "rlit [] = REps"
| "rlit (c # cs) = RSeq (RClass (\<lambda>x. x = c)) (rlit cs)"

fun rseq :: "rx list \<Rightarrow> rx" where
  "rseq [] = REps"
| "rseq [r] = r"
| "rseq (r # rs) = RSeq r (rseq rs)"

fun ralts :: "rx list \<Rightarrow> rx" where
  "ralts [] = RClass (\<lambda>_. False)"
| "ralts [r] = r"
| "ralts (r # rs) = RAlt r (ralts rs)"

definition ropt :: "rx \<Rightarrow> rx" where
  "ropt r = RAlt r REps"

definition rwords :: "string list \<Rightarrow> rx" where
  "rwords ws = ralts (map rlit ws)"

definition rany :: "string \<Rightarrow> rx" where
  "rany cs = RClass (\<lambda>c. c \<in> set cs)"

definition rgap :: "nat \<Rightarrow> rx" where
  "rgap n = RSpan not_newline 0 (Some n)"

definition rspaces :: rx where
  "rspaces = RSpan is_ws 1 None"

definition rspaces0 :: rx where
  "rspaces0 = RSpan is_ws 0 None"

section \<open>The matcher\<close>

definition word_at :: "char option \<Rightarrow> bool" where
  "word_at c = (case c of None \<Rightarrow> False | Some x \<Rightarrow> is_word x)"

definition next_char :: "string \<Rightarrow> char option" where
  "next_char s = (case s of [] \<Rightarrow> None | c # _ \<Rightarrow> Some c)"

definition at_end :: "string \<Rightarrow> bool" where
  "at_end s \<longleftrightarrow> s = [] \<or> s = [newline]"

text \<open>Where at most \<open>n\<close> more characters of the class are read, the longest run first.\<close>

fun span_ends :: "(char \<Rightarrow> bool) \<Rightarrow> nat \<Rightarrow> nat option \<Rightarrow> pos \<Rightarrow> pos list" where
  "span_ends p lo hi (prev, []) = (if lo = 0 then [(prev, [])] else [])"
| "span_ends p lo hi (prev, c # cs) =
     (if p c \<and> hi \<noteq> Some 0 then span_ends p (lo - 1) (map_option (\<lambda>n. n - 1) hi) (Some c, cs) else []) @
     (if lo = 0 then [(prev, c # cs)] else [])"

fun ends :: "rx \<Rightarrow> pos \<Rightarrow> pos list" where
  "ends REps q = [q]"
| "ends (RClass p) q = (case snd q of [] \<Rightarrow> [] | c # cs \<Rightarrow> if p c then [(Some c, cs)] else [])"
| "ends (RSpan p lo hi) q = span_ends p lo hi q"
| "ends (RSeq a b) q = concat (map (ends b) (ends a q))"
| "ends (RAlt a b) q = ends a q @ ends b q"
| "ends RBound q = (if word_at (fst q) \<noteq> word_at (next_char (snd q)) then [q] else [])"
| "ends RStart q = (if fst q = None then [q] else [])"
| "ends REnd q = (if at_end (snd q) then [q] else [])"
| "ends (RNot r) q = (if ends r q = [] then [q] else [])"

definition rx_match :: "rx \<Rightarrow> string \<Rightarrow> bool" where
  "rx_match r s \<longleftrightarrow> ends r (None, s) \<noteq> []"

definition rx_fullmatch :: "rx \<Rightarrow> string \<Rightarrow> bool" where
  "rx_fullmatch r s \<longleftrightarrow> (\<exists>q \<in> set (ends r (None, s)). snd q = [])"

text \<open>\<open>search\<close>: the text in front of the match, the match and the text after it.\<close>

fun rx_search_from :: "rx \<Rightarrow> string \<Rightarrow> pos \<Rightarrow> (string \<times> string \<times> string) option" where
  "rx_search_from r bef (prev, []) =
     (case ends r (prev, []) of [] \<Rightarrow> None | q # _ \<Rightarrow> Some (bef, [], snd q))"
| "rx_search_from r bef (prev, c # cs) =
     (case ends r (prev, c # cs) of
        [] \<Rightarrow> rx_search_from r (bef @ [c]) (Some c, cs)
      | q # _ \<Rightarrow> Some (bef, take (length (c # cs) - length (snd q)) (c # cs), snd q))"

definition rx_search :: "rx \<Rightarrow> string \<Rightarrow> (string \<times> string \<times> string) option" where
  "rx_search r s = rx_search_from r [] (None, s)"

definition rx_found :: "rx \<Rightarrow> string \<Rightarrow> bool" where
  "rx_found r s \<longleftrightarrow> rx_search r s \<noteq> None"

text \<open>The matched texts of \<open>finditer\<close> for a pattern that never matches the empty text.\<close>

fun rx_all_from :: "nat \<Rightarrow> rx \<Rightarrow> pos \<Rightarrow> string list" where
  "rx_all_from 0 r q = []"
| "rx_all_from (Suc n) r (prev, []) = []"
| "rx_all_from (Suc n) r (prev, c # cs) =
     (case ends r (prev, c # cs) of
        [] \<Rightarrow> rx_all_from n r (Some c, cs)
      | q # _ \<Rightarrow>
          take (length (c # cs) - length (snd q)) (c # cs) #
          (if length (snd q) < length (c # cs) then rx_all_from n r q else rx_all_from n r (Some c, cs)))"

definition rx_all :: "rx \<Rightarrow> string \<Rightarrow> string list" where
  "rx_all r s = rx_all_from (length s + 1) r (None, s)"

section \<open>What a match is\<close>

text \<open>The position after reading a text.\<close>

definition after :: "char option \<Rightarrow> string \<Rightarrow> char option" where
  "after prev u = (if u = [] then prev else Some (last u))"

text \<open>
  \<open>reads r prev u rest\<close>: after the character \<open>prev\<close>, the pattern may consume exactly \<open>u\<close>
  when \<open>rest\<close> follows.
\<close>

fun reads :: "rx \<Rightarrow> char option \<Rightarrow> string \<Rightarrow> string \<Rightarrow> bool" where
  "reads REps prev u rest \<longleftrightarrow> u = []"
| "reads (RClass p) prev u rest \<longleftrightarrow> (\<exists>c. u = [c] \<and> p c)"
| "reads (RSpan p lo hi) prev u rest \<longleftrightarrow>
     lo \<le> length u \<and> (case hi of None \<Rightarrow> True | Some n \<Rightarrow> length u \<le> n) \<and> (\<forall>c \<in> set u. p c)"
| "reads (RSeq a b) prev u rest \<longleftrightarrow>
     (\<exists>v w. u = v @ w \<and> reads a prev v (w @ rest) \<and> reads b (after prev v) w rest)"
| "reads (RAlt a b) prev u rest \<longleftrightarrow> reads a prev u rest \<or> reads b prev u rest"
| "reads RBound prev u rest \<longleftrightarrow> u = [] \<and> word_at prev \<noteq> word_at (next_char rest)"
| "reads RStart prev u rest \<longleftrightarrow> u = [] \<and> prev = None"
| "reads REnd prev u rest \<longleftrightarrow> u = [] \<and> at_end rest"
| "reads (RNot r) prev u rest \<longleftrightarrow> u = [] \<and> \<not> (\<exists>v w. rest = v @ w \<and> reads r prev v w)"

lemma after_simps [simp]: "after prev [] = prev" "after prev (c # u) = after (Some c) u"
  by (simp_all add: after_def)

lemma after_append: "after prev (u @ v) = after (after prev u) v"
  by (induction u arbitrary: prev) auto

lemma span_ends_reads:
  "(x, t) \<in> set (span_ends p lo hi (prev, s)) \<longleftrightarrow>
     (\<exists>u. s = u @ t \<and> x = after prev u \<and> reads (RSpan p lo hi) prev u t)"
proof (induction p lo hi "(prev, s)" arbitrary: prev s rule: span_ends.induct)
  case (1 p lo hi prev)
  then show ?case by (auto split: option.splits)
next
  case (2 p lo hi prev c cs)
  have step: "(\<exists>u. c # cs = u @ t \<and> x = after prev u \<and> reads (RSpan p lo hi) prev u t) \<longleftrightarrow>
      (lo = 0 \<and> t = c # cs \<and> x = prev) \<or>
      (p c \<and> hi \<noteq> Some 0 \<and> (\<exists>u. cs = u @ t \<and> x = after (Some c) u \<and>
         reads (RSpan p (lo - 1) (map_option (\<lambda>n. n - 1) hi)) (Some c) u t))" (is "?l \<longleftrightarrow> ?r")
  proof
    assume ?l
    then obtain u where u: "c # cs = u @ t" "x = after prev u" "reads (RSpan p lo hi) prev u t" by blast
    show ?r
    proof (cases u)
      case Nil
      with u show ?thesis by (cases hi) auto
    next
      case (Cons a v)
      with u show ?thesis by (auto split: option.splits intro!: exI [of _ v])
    qed
  next
    assume ?r
    then show ?l
    proof
      assume "lo = 0 \<and> t = c # cs \<and> x = prev"
      then show ?l by (intro exI [of _ "[]"]) (auto split: option.splits)
    next
      assume "p c \<and> hi \<noteq> Some 0 \<and> (\<exists>u. cs = u @ t \<and> x = after (Some c) u \<and>
         reads (RSpan p (lo - 1) (map_option (\<lambda>n. n - 1) hi)) (Some c) u t)"
      then obtain u where "p c" "hi \<noteq> Some 0" "cs = u @ t" "x = after (Some c) u"
         "reads (RSpan p (lo - 1) (map_option (\<lambda>n. n - 1) hi)) (Some c) u t" by blast
      then show ?l by (intro exI [of _ "c # u"]) (auto split: option.splits)
    qed
  qed
  show ?case unfolding step using 2 by auto
qed

text \<open>The matcher finds exactly the matches of the declarative relation.\<close>

lemma ends_reads:
  "(x, t) \<in> set (ends r (prev, s)) \<longleftrightarrow> (\<exists>u. s = u @ t \<and> x = after prev u \<and> reads r prev u t)"
proof (induction r arbitrary: x t prev s)
  case REps
  then show ?case by auto
next
  case (RClass p)
  show ?case by (cases s) auto
next
  case (RSpan p lo hi)
  show ?case by (simp only: ends.simps span_ends_reads)
next
  case (RSeq a b)
  have "(x, t) \<in> set (ends (RSeq a b) (prev, s)) \<longleftrightarrow>
      (\<exists>y m. (y, m) \<in> set (ends a (prev, s)) \<and> (x, t) \<in> set (ends b (y, m)))"
    by auto
  also have "\<dots> \<longleftrightarrow> (\<exists>v w. s = v @ w @ t \<and> reads a prev v (w @ t) \<and> x = after (after prev v) w \<and>
      reads b (after prev v) w t)"
    unfolding RSeq.IH by auto
  also have "\<dots> \<longleftrightarrow> (\<exists>u. s = u @ t \<and> x = after prev u \<and> reads (RSeq a b) prev u t)"
  proof
    assume "\<exists>v w. s = v @ w @ t \<and> reads a prev v (w @ t) \<and> x = after (after prev v) w \<and> reads b (after prev v) w t"
    then obtain v w where vw: "s = v @ w @ t" "reads a prev v (w @ t)" "x = after (after prev v) w" "reads b (after prev v) w t"
      by blast
    then have "reads (RSeq a b) prev (v @ w) t" unfolding reads.simps by blast
    with vw(1,3) show "\<exists>u. s = u @ t \<and> x = after prev u \<and> reads (RSeq a b) prev u t"
      by (intro exI [of _ "v @ w"]) (simp add: after_append del: reads.simps)
  next
    assume "\<exists>u. s = u @ t \<and> x = after prev u \<and> reads (RSeq a b) prev u t"
    then obtain v w where vw: "s = (v @ w) @ t" "x = after prev (v @ w)" "reads a prev v (w @ t)"
        "reads b (after prev v) w t"
      unfolding reads.simps by blast
    then show "\<exists>v w. s = v @ w @ t \<and> reads a prev v (w @ t) \<and> x = after (after prev v) w \<and> reads b (after prev v) w t"
      by (intro exI [of _ v] exI [of _ w]) (simp add: after_append)
  qed
  finally show ?case .
next
  case (RAlt a b)
  then show ?case by auto
next
  case (RNot r)
  have "ends r (prev, s) = [] \<longleftrightarrow> \<not> (\<exists>x t. (x, t) \<in> set (ends r (prev, s)))"
    by (cases "ends r (prev, s)") auto
  also have "\<dots> \<longleftrightarrow> \<not> (\<exists>v w. s = v @ w \<and> reads r prev v w)"
    unfolding RNot.IH by auto
  finally show ?case by auto
qed auto

lemma ends_suffix: "q' \<in> set (ends r q) \<Longrightarrow> suffix (snd q') (snd q)"
  using ends_reads [of "fst q'" "snd q'" r "fst q" "snd q"] by (auto simp: suffix_def)

lemma ends_nonempty: "ends r (prev, s) \<noteq> [] \<longleftrightarrow> (\<exists>u t. s = u @ t \<and> reads r prev u t)"
proof -
  have "ends r (prev, s) \<noteq> [] \<longleftrightarrow> (\<exists>x t. (x, t) \<in> set (ends r (prev, s)))"
    by (cases "ends r (prev, s)") auto
  also have "\<dots> \<longleftrightarrow> (\<exists>u t. s = u @ t \<and> reads r prev u t)"
    unfolding ends_reads by auto
  finally show ?thesis .
qed

lemma rx_search_from_None:
  "rx_search_from r b (prev, s) = None \<longleftrightarrow>
     (\<forall>v u t. s = v @ u @ t \<longrightarrow> \<not> reads r (after prev v) u t)"
proof (induction s arbitrary: b prev)
  case Nil
  then show ?case using ends_nonempty [of r prev "[]"] by (auto split: list.splits)
next
  case (Cons c cs)
  have "(\<forall>v u t. c # cs = v @ u @ t \<longrightarrow> \<not> reads r (after prev v) u t) \<longleftrightarrow>
      ends r (prev, c # cs) = [] \<and> (\<forall>v u t. cs = v @ u @ t \<longrightarrow> \<not> reads r (after (Some c) v) u t)"
    (is "?l \<longleftrightarrow> ?e \<and> ?r")
  proof
    assume l: ?l
    have ?e using l ends_nonempty [of r prev "c # cs"] by (metis after_simps(1) append_Nil)
    moreover have ?r
    proof (intro allI impI)
      fix v u t
      assume "cs = v @ u @ t"
      then have "c # cs = (c # v) @ u @ t" by simp
      with l have "\<not> reads r (after prev (c # v)) u t" by blast
      then show "\<not> reads r (after (Some c) v) u t" by simp
    qed
    ultimately show "?e \<and> ?r" ..
  next
    assume er: "?e \<and> ?r"
    show ?l
    proof (intro allI impI)
      fix v u t
      assume eq: "c # cs = v @ u @ t"
      show "\<not> reads r (after prev v) u t"
      proof (cases v)
        case Nil
        then show ?thesis using er eq ends_nonempty [of r prev "c # cs"] by auto
      next
        case (Cons a w)
        with eq er show ?thesis by auto
      qed
    qed
  qed
  then show ?case using Cons.IH [of "b @ [c]" "Some c"] by (auto split: list.splits)
qed

lemma rx_found_iff:
  "rx_found r s \<longleftrightarrow> (\<exists>v u t. s = v @ u @ t \<and> reads r (after None v) u t)"
  using rx_search_from_None [of r "[]" None s] by (auto simp: rx_found_def rx_search_def)

lemma rx_search_from_parts:
  "rx_search_from r b (prev, s) = Some (x, m, z) \<Longrightarrow>
     \<exists>v. x = b @ v \<and> s = v @ m @ z \<and> reads r (after prev v) m z"
proof (induction s arbitrary: b prev)
  case Nil
  then obtain q qs where "ends r (prev, []) = q # qs" "x = b" "m = []" "z = snd q"
    by (auto split: list.splits)
  then show ?case using ends_reads [of "fst q" "snd q" r prev "[]"] by auto
next
  case (Cons c cs)
  show ?case
  proof (cases "ends r (prev, c # cs)")
    case Nil
    with Cons.prems have "rx_search_from r (b @ [c]) (Some c, cs) = Some (x, m, z)" by simp
    from Cons.IH [OF this] obtain v where "x = (b @ [c]) @ v" "cs = v @ m @ z" "reads r (after (Some c) v) m z"
      by blast
    then show ?thesis by (intro exI [of _ "c # v"]) simp
  next
    case (Cons q qs)
    with Cons.prems have x: "x = b" "z = snd q"
      "m = take (length (c # cs) - length (snd q)) (c # cs)" by auto
    obtain u where u: "c # cs = u @ snd q" "reads r prev u (snd q)"
      using ends_reads [of "fst q" "snd q" r prev "c # cs"] Cons by auto
    then have "m = u" unfolding x by (metis append_eq_conv_conj diff_add_inverse2 length_append)
    with u x show ?thesis by (intro exI [of _ "[]"]) simp
  qed
qed

lemma rx_search_parts:
  "rx_search r s = Some (x, m, z) \<Longrightarrow> s = x @ m @ z \<and> reads r (after None x) m z"
  unfolding rx_search_def by (drule rx_search_from_parts) auto

end
