(* ===== verification/Lanes.thy ===== *)
theory Lanes
  imports Prelude
begin

text \<open>
  The lane vocabulary: \<open>actor_name\<close> of src/src/coordharness/config.py and
  \<open>configured_lanes\<close>, \<open>lane_set\<close>, \<open>lanes_display\<close> and \<open>counterpart_lane\<close> of
  src/src/coordharness/coord/config.py. The environment variable is an argument.
\<close>

datatype lane_error = BadActorName string | NoLaneNamed

definition is_lower_letter :: "char \<Rightarrow> bool" where
  "is_lower_letter c = (let n = (of_char c :: nat) in 97 \<le> n \<and> n \<le> 122)"

definition is_actor_char :: "char \<Rightarrow> bool" where
  "is_actor_char c = (is_lower_letter c \<or> is_digit c \<or> c \<in> set ''_.-'')"

text \<open>The regular expression for a safe actor name, matched against the whole text.\<close>

definition safe_actor :: "string \<Rightarrow> bool" where
  "safe_actor s =
     (case s of [] \<Rightarrow> False
      | c # cs \<Rightarrow> is_lower_letter c \<and> length cs \<le> 63 \<and> list_all is_actor_char cs)"

definition actor_name :: "string \<Rightarrow> lane_error + string" where
  "actor_name raw =
     (let c = lower (strip raw) in if safe_actor c then Inr c else Inl (BadActorName c))"

definition default_lanes :: "string list" where
  "default_lanes = [''claude'', ''codex'']"

fun collect_lanes :: "string list \<Rightarrow> string list \<Rightarrow> lane_error + string list" where
  "collect_lanes [] lanes = Inr lanes"
| "collect_lanes (token # tokens) lanes =
     (let c = lower (strip token) in
      if c = [] then collect_lanes tokens lanes
      else case actor_name c of
        Inl e \<Rightarrow> Inl e
      | Inr _ \<Rightarrow> collect_lanes tokens (if c \<in> set lanes then lanes else lanes @ [c]))"

definition configured_lanes :: "string option \<Rightarrow> lane_error + string list" where
  "configured_lanes raw =
     (case raw of
        None \<Rightarrow> Inr default_lanes
      | Some text \<Rightarrow>
          (case collect_lanes (split_on CHR '','' text) [] of
             Inl e \<Rightarrow> Inl e
           | Inr lanes \<Rightarrow> if lanes = [] then Inl NoLaneNamed else Inr lanes))"

definition lanes_display :: "string list \<Rightarrow> string" where
  "lanes_display lanes = join_with ''|'' lanes"

definition counterpart_lane :: "string list \<Rightarrow> string option \<Rightarrow> string option" where
  "counterpart_lane lanes actor = find (\<lambda>lane. lane \<noteq> norm actor) lanes"

section \<open>What a configured lane set satisfies\<close>

definition lane_ok :: "string \<Rightarrow> bool" where
  "lane_ok l \<longleftrightarrow> safe_actor l \<and> norm (Some l) = l"

lemma clean_token_lane_ok: "safe_actor (lower (strip t)) \<Longrightarrow> lane_ok (lower (strip t))"
  by (simp add: lane_ok_def norm_def clean_def text_simps)

lemma actor_name_Inr: "actor_name raw = Inr a \<Longrightarrow> a = lower (strip raw) \<and> lane_ok a"
  by (auto simp: actor_name_def Let_def clean_token_lane_ok split: if_splits)

lemma collect_lanes_ok:
  assumes "collect_lanes tokens acc = Inr lanes" "distinct acc" "\<forall>l \<in> set acc. lane_ok l"
  shows "distinct lanes \<and> (\<forall>l \<in> set lanes. lane_ok l)"
  using assms
proof (induction tokens acc rule: collect_lanes.induct)
  case (1 acc)
  then show ?case by simp
next
  case (2 token tokens acc)
  show ?case
  proof (cases "lower (strip token) = []")
    case True
    with 2 show ?thesis by (simp add: Let_def)
  next
    case False
    with "2.prems"(1) obtain a where a: "actor_name (lower (strip token)) = Inr a"
      by (auto simp: Let_def split: sum.splits)
    have ok: "lane_ok (lower (strip token))"
      using actor_name_Inr [OF a] by (auto simp: text_simps)
    let ?acc = "if lower (strip token) \<in> set acc then acc else acc @ [lower (strip token)]"
    have "collect_lanes tokens ?acc = Inr lanes"
      using "2.prems"(1) False a by (simp add: Let_def)
    moreover have "distinct ?acc" "\<forall>l \<in> set ?acc. lane_ok l"
      using "2.prems"(2,3) ok by auto
    ultimately show ?thesis
      using "2.IH"(2) [OF refl False a] by blast
  qed
qed

lemma collect_lanes_members:
  "collect_lanes tokens acc = Inr lanes \<Longrightarrow>
   set lanes = set acc \<union> {lower (strip t) | t. t \<in> set tokens \<and> lower (strip t) \<noteq> []}"
proof (induction tokens acc rule: collect_lanes.induct)
  case (1 acc)
  then show ?case by simp
next
  case (2 token tokens acc)
  then show ?case by (fastforce simp: Let_def split: if_splits sum.splits)
qed

lemma default_lanes_ok: "distinct default_lanes \<and> (\<forall>l \<in> set default_lanes. lane_ok l)"
  by code_simp

lemma configured_lanes_ok:
  assumes "configured_lanes raw = Inr lanes"
  shows "lanes \<noteq> [] \<and> distinct lanes \<and> (\<forall>l \<in> set lanes. lane_ok l)"
proof (cases raw)
  case None
  with assms show ?thesis
    using default_lanes_ok by (auto simp: configured_lanes_def default_lanes_def)
next
  case (Some v)
  with assms have "collect_lanes (split_on CHR '','' v) [] = Inr lanes" and "lanes \<noteq> []"
    by (auto simp: configured_lanes_def split: sum.splits if_splits)
  then show ?thesis using collect_lanes_ok [of _ "[]" lanes] by simp
qed

lemma counterpart_lane_Some:
  "counterpart_lane lanes actor = Some l \<Longrightarrow> l \<in> set lanes \<and> l \<noteq> norm actor"
  unfolding counterpart_lane_def by (drule find_SomeD) simp

lemma counterpart_lane_None:
  "counterpart_lane lanes actor = None \<longleftrightarrow> (\<forall>l \<in> set lanes. l = norm actor)"
  by (auto simp: counterpart_lane_def find_None_iff)

section \<open>The interface the review and claim rules rely on\<close>

text \<open>
  Whoever judges independence works with a list of lanes in normal form, without repetition.
\<close>

locale lane_vocabulary =
  fixes lanes :: "string list"
  assumes lanes_distinct: "distinct lanes"
    and lanes_normal: "l \<in> set lanes \<Longrightarrow> norm (Some l) = l"
    and lanes_nonempty_names: "l \<in> set lanes \<Longrightarrow> l \<noteq> []"
begin

lemma counterpart_normal: "counterpart_lane lanes a = Some l \<Longrightarrow> norm (Some l) = l"
  using counterpart_lane_Some lanes_normal by blast

lemma counterpart_differs: "counterpart_lane lanes a = Some l \<Longrightarrow> l \<noteq> norm a"
  using counterpart_lane_Some by blast

lemma counterpart_exists: "2 \<le> length lanes \<Longrightarrow> \<exists>l. counterpart_lane lanes a = Some l"
proof (rule ccontr)
  assume "2 \<le> length lanes" and "\<nexists>l. counterpart_lane lanes a = Some l"
  then have "set lanes \<subseteq> {norm a}"
    using counterpart_lane_None [of lanes a] by auto
  then have "card (set lanes) \<le> 1" using card_mono [of "{norm a}"] by simp
  with lanes_distinct \<open>2 \<le> length lanes\<close> show False by (simp add: distinct_card)
qed

lemma counterpart_two: "lanes = [x, y] \<Longrightarrow> counterpart_lane lanes (Some x) = Some y"
  using lanes_distinct lanes_normal by (auto simp: counterpart_lane_def)

end

lemma lane_ok_nonempty: "lane_ok l \<Longrightarrow> l \<noteq> []"
  by (auto simp: lane_ok_def safe_actor_def)

lemma configured_lane_vocabulary: "configured_lanes raw = Inr lanes \<Longrightarrow> lane_vocabulary lanes"
  using configured_lanes_ok [of raw lanes] lane_ok_nonempty
  by unfold_locales (auto simp: lane_ok_def)

interpretation default_lanes: lane_vocabulary default_lanes
  by (rule configured_lane_vocabulary [of None]) (simp add: configured_lanes_def)

section \<open>The lane a session identifier names\<close>

definition expected_actor_for_session_id :: "string \<Rightarrow> string option" where
  "expected_actor_for_session_id session_id =
     (let sid = lower (strip session_id) in
      if CHR '':'' \<notin> set sid then None
      else case actor_name (takeWhile (\<lambda>c. c \<noteq> CHR '':'') sid) of
        Inl _ \<Rightarrow> None
      | Inr a \<Rightarrow> Some a)"

lemma expected_actor_ok: "expected_actor_for_session_id s = Some a \<Longrightarrow> lane_ok a"
  by (auto simp: expected_actor_for_session_id_def Let_def dest: actor_name_Inr
           split: if_splits sum.splits)

text \<open>\<open>_validate_session_actor\<close>: the check, True when it does not raise.\<close>

definition session_actor_ok :: "string \<Rightarrow> string \<Rightarrow> bool" where
  "session_actor_ok session_id actor =
     (case expected_actor_for_session_id session_id of
        None \<Rightarrow> True
      | Some expected \<Rightarrow> lower (strip actor) = expected)"

definition session_family_suffix :: "string list \<Rightarrow> string \<Rightarrow> string \<Rightarrow> string" where
  "session_family_suffix lanes session_id actor =
     (let sid = strip session_id; a = lower (strip actor) in
      if sid = [] \<or> a \<notin> set lanes then []
      else let pre = a @ '':'' in
        if prefix pre sid then strip (drop (length pre) sid)
        else if CHR '':'' \<notin> set sid then sid
        else [])"

end
