(* ===== verification/Store.thy ===== *)
theory Store
  imports Lanes
begin

text \<open>
  The coordination database of src/src/coordharness/coord/schema.sql as the Python code
  sees it: one record per table row, the tables as lists in row order, the inserts with
  the constraints SQLite enforces (primary keys, the partial unique index of held claims,
  foreign keys, the unique idempotency key of events), and the transaction wrapper \<open>tx\<close>
  of coord_db.py. Columns no modelled operation reads are kept in \<open>w_other\<close>.
\<close>

section \<open>Rows\<close>

record session_row =
  s_id :: string
  s_actor :: string
  s_actor_id :: "string option"
  s_parent :: "string option"
  s_runner_type :: "string option"
  s_human_label :: "string option"
  s_thread :: "string option"
  s_title :: "string option"
  s_worktree :: "string option"
  s_label_source :: "string option"
  s_label_updated :: "seconds option"
  s_cwd :: "string option"
  s_pid :: "int option"
  s_pid_started :: "seconds option"
  s_host :: "string option"
  s_started :: seconds
  s_heartbeat :: seconds
  s_lease :: seconds
  s_pause :: "seconds option"
  s_state :: string
  s_ended :: "seconds option"
  s_version :: int

datatype cell = CNull | CInt int | CReal rat | CText string

record work_row =
  w_id :: string
  w_parent :: "string option"
  w_title :: string
  w_display :: "string option"
  w_assignee :: "string option"
  w_module :: "string option"
  w_sublane :: "string option"
  w_kind :: "string option"
  w_tier :: "string option"
  w_intent :: string
  w_reason :: "string option"
  w_next_step :: "string option"
  w_resume_when :: "string option"
  w_resume_pred :: "string option"
  w_ready_at :: "seconds option"
  w_op_ok :: "int option"
  w_tier_corr :: "int option"
  w_done_signal :: "string option"
  w_acceptance :: string
  w_rubric :: "string option"
  w_priority :: int
  w_context :: "string option"
  w_note :: "string option"
  w_depends :: "string option"
  w_created_by :: "string option"
  w_other :: "(string \<times> cell) list"
  w_version :: int
  w_archived :: "seconds option"
  w_created :: seconds
  w_updated :: seconds

record claim_row =
  c_id :: string
  c_work :: string
  c_session :: string
  c_token :: "string option"
  c_status :: string
  c_step :: "string option"
  c_acquired :: seconds
  c_heartbeat :: seconds
  c_expires :: seconds
  c_reason :: "string option"
  c_version :: int

record run_row =
  r_id :: string
  r_work :: "string option"
  r_session :: "string option"
  r_parent :: "string option"
  r_kind :: string
  r_model :: "string option"
  r_progress :: string
  r_sidecar :: "string option"
  r_pid :: "int option"
  r_pid_started :: "seconds option"
  r_pgid :: "int option"
  r_resource :: "string option"
  r_host :: "string option"
  r_started :: seconds
  r_heartbeat :: "seconds option"
  r_finished :: "seconds option"
  r_state :: string
  r_version :: int

record event_row =
  e_id :: int
  e_ts :: seconds
  e_kind :: string
  e_actor :: "string option"
  e_session :: "string option"
  e_to :: "string option"
  e_work :: "string option"
  e_verdict :: "string option"
  e_trust :: string
  e_title :: "string option"
  e_body :: "string option"
  e_refs :: json
  e_payload :: json
  e_key :: "string option"

record artifact_row =
  a_id :: string
  a_work :: "string option"
  a_run :: "string option"
  a_path :: string
  a_kind :: "string option"
  a_sha :: "string option"
  a_created :: seconds

record cursor_row =
  u_recipient :: string
  u_session :: string
  u_seen :: int
  u_updated :: seconds

record consumption_row =
  q_lane :: string
  q_work :: string
  q_request :: int
  q_event :: "int option"
  q_at :: "seconds option"

record db =
  d_sessions :: "session_row list"
  d_works :: "work_row list"
  d_claims :: "claim_row list"
  d_runs :: "run_row list"
  d_events :: "event_row list"
  d_next_event :: int
  d_artifacts :: "artifact_row list"
  d_cursors :: "cursor_row list"
  d_consumption :: "consumption_row list"
  d_titles :: "(string \<times> string \<times> seconds) list"

definition empty_db :: db where
  "empty_db = \<lparr>d_sessions = [], d_works = [], d_claims = [], d_runs = [], d_events = [],
     d_next_event = 1, d_artifacts = [], d_cursors = [], d_consumption = [], d_titles = []\<rparr>"

section \<open>Errors: one constructor per refusal of the code\<close>

datatype err =
    IntegrityHeldClaim string
  | IntegrityForeignKey
  | IntegrityPrimaryKey
  | IntegrityIdempotencyKey string
  | ValueErr string
  | UnknownWork string
  | UnknownSession string
  | MissingClaim string
  | ActorMismatch string string
  | AssignedElsewhere string string
  | TerminalWork string
  | ParkedWork string
  | OrphanedBlock string
  | HeldWork string
  | NotHolder string
  | ClaimStatus string string
  | ClaimExpired string
  | SelfParent string
  | ParentCycle string
  | SelfDependency string
  | WorkIdCollision string
  | ParkContract "string list"
  | ResumeContract string
  | CasFailed string
  | HeldClaimRefused string
  | ActiveRunRefused string
  | ReviewBlocked string
  | ProofRefused string
  | ReviewPolicy string
  | CreationLint string

section \<open>Reading rows\<close>

definition sess :: "db \<Rightarrow> string \<Rightarrow> session_row option" where
  "sess d i = find (\<lambda>s. s_id s = i) (d_sessions d)"

definition workd :: "db \<Rightarrow> string \<Rightarrow> work_row option" where
  "workd d i = find (\<lambda>w. w_id w = i) (d_works d)"

definition claimd :: "db \<Rightarrow> string \<Rightarrow> claim_row option" where
  "claimd d i = find (\<lambda>c. c_id c = i) (d_claims d)"

definition rund :: "db \<Rightarrow> string \<Rightarrow> run_row option" where
  "rund d i = find (\<lambda>r. r_id r = i) (d_runs d)"

definition eventd :: "db \<Rightarrow> int \<Rightarrow> event_row option" where
  "eventd d i = find (\<lambda>e. e_id e = i) (d_events d)"

definition event_by_key :: "db \<Rightarrow> string \<Rightarrow> event_row option" where
  "event_by_key d k = find (\<lambda>e. e_key e = Some k) (d_events d)"

definition held_statuses :: "string list" where
  "held_statuses = [''running'', ''paused'', ''blocked'']"

definition held :: "claim_row \<Rightarrow> bool" where
  "held c \<longleftrightarrow> c_status c \<in> set held_statuses"

definition terminal_work_states :: "string list" where
  "terminal_work_states =
     [''done'', ''complete'', ''completed'', ''finished'', ''success'', ''succeeded'', ''skipped'',
      ''failed'', ''archived'', ''superseded'', ''cancelled'', ''canceled'', ''closed'']"

definition terminal :: "string \<Rightarrow> bool" where
  "terminal s \<longleftrightarrow> s \<in> set terminal_work_states"

section \<open>Statements\<close>

definition upd_sessions :: "(session_row \<Rightarrow> bool) \<Rightarrow> (session_row \<Rightarrow> session_row) \<Rightarrow> db \<Rightarrow> db" where
  "upd_sessions p f d = d\<lparr>d_sessions := upd_where p f (d_sessions d)\<rparr>"

definition upd_works :: "(work_row \<Rightarrow> bool) \<Rightarrow> (work_row \<Rightarrow> work_row) \<Rightarrow> db \<Rightarrow> db" where
  "upd_works p f d = d\<lparr>d_works := upd_where p f (d_works d)\<rparr>"

definition upd_claims :: "(claim_row \<Rightarrow> bool) \<Rightarrow> (claim_row \<Rightarrow> claim_row) \<Rightarrow> db \<Rightarrow> db" where
  "upd_claims p f d = d\<lparr>d_claims := upd_where p f (d_claims d)\<rparr>"

definition upd_runs :: "(run_row \<Rightarrow> bool) \<Rightarrow> (run_row \<Rightarrow> run_row) \<Rightarrow> db \<Rightarrow> db" where
  "upd_runs p f d = d\<lparr>d_runs := upd_where p f (d_runs d)\<rparr>"

definition insert_session :: "session_row \<Rightarrow> db \<Rightarrow> err + db" where
  "insert_session s d =
     (if sess d (s_id s) \<noteq> None then Inl IntegrityPrimaryKey
      else Inr (d\<lparr>d_sessions := d_sessions d @ [s]\<rparr>))"

text \<open>Inserting a claim checks the primary key, both foreign keys and the held-claim index.\<close>

definition insert_claim :: "claim_row \<Rightarrow> db \<Rightarrow> err + db" where
  "insert_claim c d =
     (if claimd d (c_id c) \<noteq> None then Inl IntegrityPrimaryKey
      else if held c \<and> (\<exists>c' \<in> set (d_claims d). held c' \<and> c_work c' = c_work c)
        then Inl (IntegrityHeldClaim (c_work c))
      else if workd d (c_work c) = None \<or> sess d (c_session c) = None then Inl IntegrityForeignKey
      else Inr (d\<lparr>d_claims := d_claims d @ [c]\<rparr>))"

text \<open>Appending an event: the row gets the next AUTOINCREMENT id, which is returned.\<close>

definition insert_event :: "event_row \<Rightarrow> db \<Rightarrow> err + (db \<times> int)" where
  "insert_event e d =
     (case e_key e of
        Some k \<Rightarrow>
          if event_by_key d k \<noteq> None then Inl (IntegrityIdempotencyKey k)
          else Inr (d\<lparr>d_events := d_events d @ [e\<lparr>e_id := d_next_event d\<rparr>],
                      d_next_event := d_next_event d + 1\<rparr>, d_next_event d)
      | None \<Rightarrow> Inr (d\<lparr>d_events := d_events d @ [e\<lparr>e_id := d_next_event d\<rparr>],
                      d_next_event := d_next_event d + 1\<rparr>, d_next_event d))"

definition blank_event :: event_row where
  "blank_event = \<lparr>e_id = 0, e_ts = 0, e_kind = [], e_actor = None, e_session = None, e_to = None,
     e_work = None, e_verdict = None, e_trust = ''agent'', e_title = None, e_body = None,
     e_refs = JList [], e_payload = JObj [], e_key = None\<rparr>"

section \<open>Transactions\<close>

text \<open>
  \<open>tx\<close>: \<open>BEGIN IMMEDIATE\<close> is tried up to four times while the database is locked or busy
  (\<open>Busy\<close>), any other failure is raised at once; the body runs, and an exception in it
  rolls every change back.
\<close>

datatype begin_try = Began | Busy string | Failed string

datatype tx_error = BeginFailed string | BodyFailed err

fun tx_begin :: "nat \<Rightarrow> begin_try list \<Rightarrow> string option \<Rightarrow> string option" where
  "tx_begin 0 tries prev = prev"
| "tx_begin (Suc n) [] prev = prev"
| "tx_begin (Suc n) (t # ts) prev =
     (case t of Began \<Rightarrow> None | Failed m \<Rightarrow> Some m | Busy m \<Rightarrow> tx_begin n ts (Some m))"

definition tx :: "begin_try list \<Rightarrow> (db \<Rightarrow> err + (db \<times> 'a)) \<Rightarrow> db \<Rightarrow> db \<times> (tx_error + 'a)" where
  "tx tries body d =
     (case tx_begin 4 tries None of
        Some m \<Rightarrow> (d, Inl (BeginFailed m))
      | None \<Rightarrow> (case body d of Inl e \<Rightarrow> (d, Inl (BodyFailed e)) | Inr (d', x) \<Rightarrow> (d', Inr x)))"

lemma tx_rolls_back: "tx tries body d = (d', Inl e) \<Longrightarrow> d' = d"
  by (auto simp: tx_def split: option.splits sum.splits prod.splits)

lemma tx_commits:
  "tx_begin 4 tries None = None \<Longrightarrow> body d = Inr (d', x) \<Longrightarrow> tx tries body d = (d', Inr x)"
  by (simp add: tx_def)

lemma tx_begin_busy: "tx_begin n (replicate n (Busy m) @ ts) prev = (if n = 0 then prev else Some m)"
  by (induction n arbitrary: prev) auto

section \<open>The constraints SQLite keeps\<close>

definition one_held :: "db \<Rightarrow> bool" where
  "one_held d \<longleftrightarrow> unique_where held c_work (d_claims d)"

definition keys_ok :: "db \<Rightarrow> bool" where
  "keys_ok d \<longleftrightarrow> distinct (map s_id (d_sessions d)) \<and> distinct (map w_id (d_works d)) \<and>
     distinct (map c_id (d_claims d)) \<and> distinct (map r_id (d_runs d))"

definition refs_ok :: "db \<Rightarrow> bool" where
  "refs_ok d \<longleftrightarrow> (\<forall>c \<in> set (d_claims d). c_work c \<in> w_id ` set (d_works d) \<and>
     c_session c \<in> s_id ` set (d_sessions d))"

definition event_log_ok :: "event_row list \<Rightarrow> int \<Rightarrow> bool" where
  "event_log_ok es n \<longleftrightarrow> sorted_wrt (<) (map e_id es) \<and> (\<forall>e \<in> set es. 0 < e_id e \<and> e_id e < n) \<and>
     0 < n \<and> unique_where (\<lambda>e. e_key e \<noteq> None) e_key es"

definition events_ok :: "db \<Rightarrow> bool" where
  "events_ok d \<longleftrightarrow> event_log_ok (d_events d) (d_next_event d)"

definition wf_db :: "db \<Rightarrow> bool" where
  "wf_db d \<longleftrightarrow> one_held d \<and> keys_ok d \<and> refs_ok d \<and> events_ok d"

lemma wf_empty_db: "wf_db empty_db"
  by (simp add: wf_db_def empty_db_def one_held_def keys_ok_def refs_ok_def events_ok_def
      event_log_ok_def unique_where_def)


lemmas wf_db_defs = wf_db_def one_held_def keys_ok_def refs_ok_def events_ok_def

section \<open>Statements keep the constraints\<close>

text \<open>
  The contract every \<open>UPDATE claims\<close> of the code satisfies: it leaves the identity columns
  alone and never turns a claim that is not held into a held one.
\<close>

locale claim_update =
  fixes p :: "claim_row \<Rightarrow> bool" and f :: "claim_row \<Rightarrow> claim_row"
  assumes keeps_id: "p c \<Longrightarrow> c_id (f c) = c_id c"
    and keeps_work: "p c \<Longrightarrow> c_work (f c) = c_work c"
    and keeps_session: "p c \<Longrightarrow> c_session (f c) = c_session c"
    and never_takes: "p c \<Longrightarrow> held (f c) \<Longrightarrow> held c"
begin

lemma one_held: "one_held d \<Longrightarrow> one_held (upd_claims p f d)"
  using keeps_work never_takes by (simp add: one_held_def upd_claims_def unique_where_upd)

lemma keys_ok: "keys_ok d \<Longrightarrow> keys_ok (upd_claims p f d)"
  using keeps_id by (simp add: keys_ok_def upd_claims_def map_key_upd_where)

lemma refs_ok: "refs_ok d \<Longrightarrow> refs_ok (upd_claims p f d)"
  using keeps_work keeps_session
  by (fastforce simp: refs_ok_def upd_claims_def dest!: in_upd_whereD)

lemma wf: "wf_db d \<Longrightarrow> wf_db (upd_claims p f d)"
  using one_held keys_ok refs_ok by (simp add: wf_db_def events_ok_def upd_claims_def)

lemma lookup:
  "claimd (upd_claims p f d) i = map_option (\<lambda>c. if p c then f c else c) (claimd d i)"
  using keeps_id by (simp add: claimd_def upd_claims_def find_upd_where)

end

lemma wf_upd_works:
  "(\<And>w. p w \<Longrightarrow> w_id (f w) = w_id w) \<Longrightarrow> wf_db d \<Longrightarrow> wf_db (upd_works p f d)"
  using map_key_upd_where [of p w_id f "d_works d"]
  by (simp add: wf_db_defs upd_works_def flip: set_map)

lemma wf_upd_sessions:
  "(\<And>s. p s \<Longrightarrow> s_id (f s) = s_id s) \<Longrightarrow> wf_db d \<Longrightarrow> wf_db (upd_sessions p f d)"
  using map_key_upd_where [of p s_id f "d_sessions d"]
  by (simp add: wf_db_defs upd_sessions_def flip: set_map)

lemma wf_upd_runs:
  "(\<And>r. p r \<Longrightarrow> r_id (f r) = r_id r) \<Longrightarrow> wf_db d \<Longrightarrow> wf_db (upd_runs p f d)"
  using map_key_upd_where [of p r_id f "d_runs d"]
  by (simp add: wf_db_defs upd_runs_def)

text \<open>
  How the operations that free a claim may change a work row: a terminal row is left alone,
  any other may go back to \<open>queued\<close>.
\<close>

definition lapse :: "work_row \<Rightarrow> work_row \<Rightarrow> bool" where
  "lapse w w' \<longleftrightarrow> w_id w' = w_id w \<and> (terminal (w_intent w) \<longrightarrow> w' = w) \<and>
     (w' = w \<or> w_intent w' = ''queued'')"

lemma lapse_refl [simp]: "lapse w w"
  by (simp add: lapse_def)

lemma not_terminal_simps [simp]:
  "\<not> terminal ''queued''" "\<not> terminal ''running''" "\<not> terminal ''blocked''"
  "\<not> terminal ''paused''" "\<not> terminal ''planned''" "terminal ''done''" "terminal ''closed''"
  by (simp_all add: terminal_def terminal_work_states_def)

lemma lapse_trans: "lapse u v \<Longrightarrow> lapse v w \<Longrightarrow> lapse u w"
  by (auto simp: lapse_def)

definition works_lapse :: "db \<Rightarrow> db \<Rightarrow> bool" where
  "works_lapse d d' \<longleftrightarrow> list_all2 lapse (d_works d) (d_works d')"

lemma works_lapse_refl [simp]: "works_lapse d d"
  by (simp add: works_lapse_def list_all2_same_refl)

lemma works_lapse_trans: "works_lapse d d1 \<Longrightarrow> works_lapse d1 d2 \<Longrightarrow> works_lapse d d2"
  unfolding works_lapse_def by (rule list_all2_trans [of lapse lapse lapse]) (auto intro: lapse_trans)

lemma works_lapse_upd: "(\<And>w. p w \<Longrightarrow> lapse w (f w)) \<Longrightarrow> works_lapse d (upd_works p f d)"
  by (simp add: works_lapse_def upd_works_def list_all2_upd_where)

lemma works_lapse_same: "d_works d' = d_works d \<Longrightarrow> works_lapse d d'"
  by (simp add: works_lapse_def list_all2_same_refl)

lemma works_lapse_terminal:
  assumes "works_lapse d d'" "workd d i = Some w" "terminal (w_intent w)"
  shows "workd d' i = Some w"
proof -
  have "rel_option lapse (workd d i) (workd d' i)"
    using assms(1) unfolding works_lapse_def workd_def
    by (rule list_all2_find) (simp add: lapse_def)
  with assms(2,3) show ?thesis by (auto simp: lapse_def option_rel_Some1)
qed

lemma upd_frames [table_simps]:
  "d_works (upd_claims p f d) = d_works d" "d_works (upd_runs q g d) = d_works d"
  "d_works (upd_sessions r h d) = d_works d" "d_claims (upd_works u k d) = d_claims d"
  "d_claims (upd_runs q g d) = d_claims d" "d_claims (upd_sessions r h d) = d_claims d"
  "d_sessions (upd_claims p f d) = d_sessions d" "d_sessions (upd_works u k d) = d_sessions d"
  "d_sessions (upd_runs q g d) = d_sessions d" "d_runs (upd_claims p f d) = d_runs d"
  "d_runs (upd_works u k d) = d_runs d" "d_runs (upd_sessions r h d) = d_runs d"
  "d_events (upd_claims p f d) = d_events d" "d_events (upd_works u k d) = d_events d"
  "d_events (upd_sessions r h d) = d_events d" "d_events (upd_runs q g d) = d_events d"
  by (simp_all add: upd_claims_def upd_works_def upd_runs_def upd_sessions_def)

lemma upd_tables [table_simps]:
  "d_claims (upd_claims p f d) = upd_where p f (d_claims d)"
  "d_works (upd_works u k d) = upd_where u k (d_works d)"
  "d_sessions (upd_sessions r h d) = upd_where r h (d_sessions d)"
  "d_runs (upd_runs q g d) = upd_where q g (d_runs d)"
  by (simp_all add: upd_claims_def upd_works_def upd_runs_def upd_sessions_def)

lemma workd_None_iff: "workd d i = None \<longleftrightarrow> i \<notin> w_id ` set (d_works d)"
  by (auto simp: workd_def find_None_iff)

lemma sess_None_iff: "sess d i = None \<longleftrightarrow> i \<notin> s_id ` set (d_sessions d)"
  by (auto simp: sess_def find_None_iff)

lemma claimd_None_iff: "claimd d i = None \<longleftrightarrow> i \<notin> c_id ` set (d_claims d)"
  by (auto simp: claimd_def find_None_iff)

lemma claimd_SomeD: "claimd d i = Some c \<Longrightarrow> c \<in> set (d_claims d) \<and> c_id c = i"
  by (auto simp: claimd_def dest: find_SomeD)

lemma workd_SomeD: "workd d i = Some w \<Longrightarrow> w \<in> set (d_works d) \<and> w_id w = i"
  by (auto simp: workd_def dest: find_SomeD)

lemma claimd_unique: "keys_ok d \<Longrightarrow> c \<in> set (d_claims d) \<Longrightarrow> claimd d (c_id c) = Some c"
  by (simp add: keys_ok_def claimd_def find_distinct)

lemma workd_upd_works:
  "(\<And>w. p w \<Longrightarrow> w_id (f w) = w_id w) \<Longrightarrow>
   workd (upd_works p f d) i = map_option (\<lambda>w. if p w then f w else w) (workd d i)"
  by (simp add: workd_def upd_works_def find_upd_where)

lemma wf_insert_session: "wf_db d \<Longrightarrow> insert_session s d = Inr d' \<Longrightarrow> wf_db d'"
  by (auto simp: insert_session_def wf_db_defs sess_None_iff image_iff split: if_splits)

lemma wf_insert_claim: "wf_db d \<Longrightarrow> insert_claim c d = Inr d' \<Longrightarrow> wf_db d'"
  by (auto simp: insert_claim_def wf_db_defs claimd_None_iff workd_None_iff sess_None_iff
      unique_where_append split: if_splits)

lemma insert_claim_Inr:
  "insert_claim c d = Inr d' \<Longrightarrow> d' = d\<lparr>d_claims := d_claims d @ [c]\<rparr>"
  by (auto simp: insert_claim_def split: if_splits)

lemma insert_event_Inr:
  "insert_event e d = Inr (d', i) \<Longrightarrow>
     i = d_next_event d \<and>
     d' = d\<lparr>d_events := d_events d @ [e\<lparr>e_id := i\<rparr>], d_next_event := i + 1\<rparr>"
  by (auto simp: insert_event_def split: option.splits if_splits)

lemma events_ok_insert:
  assumes "events_ok d" "insert_event e d = Inr (d', i)"
  shows "events_ok d'"
proof -
  have d': "d_events d' = d_events d @ [e\<lparr>e_id := i\<rparr>]" "d_next_event d' = i + 1"
    and i: "i = d_next_event d"
    using insert_event_Inr [OF assms(2)] by auto
  have "unique_where (\<lambda>e. e_key e \<noteq> None) e_key (d_events d')"
    using assms by (auto simp: d' events_ok_def event_log_ok_def unique_where_append
      insert_event_def event_by_key_def find_None_iff split: option.splits if_splits)
  moreover have "\<forall>x \<in> set (d_events d). 0 < e_id x \<and> e_id x < i" "0 < i"
    "sorted_wrt (<) (map e_id (d_events d))"
    using assms(1) i by (auto simp: events_ok_def event_log_ok_def)
  ultimately show ?thesis
    by (force simp: events_ok_def event_log_ok_def d' sorted_wrt_append)
qed

lemma wf_insert_event: "wf_db d \<Longrightarrow> insert_event e d = Inr (d', i) \<Longrightarrow> wf_db d'"
  using events_ok_insert [of d e d' i] insert_event_Inr [of e d d' i]
  by (auto simp: wf_db_def one_held_def keys_ok_def refs_ok_def)

section \<open>The receipt interface\<close>

text \<open>
  What the writers of receipts rely on: a keyed append-only log in which a key is found
  under the identifier it was first stored with, for ever.
\<close>

locale receipt_log =
  fixes append :: "'r \<Rightarrow> 'd \<Rightarrow> 'e + ('d \<times> 'i)"
    and lookup :: "'d \<Rightarrow> 'k \<Rightarrow> 'r option"
    and key :: "'r \<Rightarrow> 'k option"
    and ident :: "'r \<Rightarrow> 'i"
  assumes append_finds:
      "key r = Some k \<Longrightarrow> append r d = Inr (d', i) \<Longrightarrow> \<exists>r'. lookup d' k = Some r' \<and> ident r' = i"
    and append_keeps: "lookup d k = Some r' \<Longrightarrow> append r d = Inr (d', i) \<Longrightarrow> lookup d' k = Some r'"
    and append_refuses: "key r = Some k \<Longrightarrow> lookup d k \<noteq> None \<Longrightarrow> \<exists>e. append r d = Inl e"
begin

fun append_all :: "'r list \<Rightarrow> 'd \<Rightarrow> 'd" where
  "append_all [] d = d"
| "append_all (r # rs) d = (case append r d of Inl _ \<Rightarrow> append_all rs d | Inr (d', _) \<Rightarrow> append_all rs d')"

lemma append_all_keeps: "lookup d k = Some r' \<Longrightarrow> lookup (append_all rs d) k = Some r'"
  by (induction rs arbitrary: d) (auto dest: append_keeps split: sum.splits)

lemma receipt_permanent:
  assumes "key r = Some k" "append r d = Inr (d', i)"
  shows "\<exists>r'. lookup (append_all rs d') k = Some r' \<and> ident r' = i"
  using append_finds [OF assms] append_all_keeps by blast

lemma receipt_once:
  assumes "key r = Some k" "append r d = Inr (d', i)" "key r2 = Some k"
  shows "\<exists>e. append r2 (append_all rs d') = Inl e"
  using receipt_permanent [OF assms(1,2), of rs] append_refuses [OF assms(3)] by blast

end

interpretation event_log: receipt_log insert_event event_by_key
  "e_key :: event_row \<Rightarrow> string option" "e_id :: event_row \<Rightarrow> int"
proof unfold_locales
  fix r :: event_row and k d d' i
  assume k: "e_key r = Some k" and ins: "insert_event r d = Inr (d', i)"
  have "event_by_key d k = None" using k ins by (auto simp: insert_event_def split: if_splits)
  then show "\<exists>r'. event_by_key d' k = Some r' \<and> e_id r' = i"
    using insert_event_Inr [OF ins] k by (simp add: event_by_key_def find_append)
next
  fix d k and r r' :: event_row and d' i
  assume "event_by_key d k = Some r'" "insert_event r d = Inr (d', i)"
  then show "event_by_key d' k = Some r'"
    using insert_event_Inr [of r d d' i] by (simp add: event_by_key_def find_append)
next
  fix r :: event_row and k d
  assume "e_key r = Some k" "event_by_key d k \<noteq> None"
  then show "\<exists>e. insert_event r d = Inl e" by (simp add: insert_event_def)
qed

end
