(* ===== verification/ReviewTier.thy ===== *)
theory ReviewTier
  imports Regex Store
begin

text \<open>
  Review tiers (src/src/coordharness/coord/review_tier.py): the text of a row, the effect
  floor that makes a row T0, the effective tier, references to events and the grammar of
  done signals. A row is a Python dictionary from column names to values.
\<close>

section \<open>Rows as dictionaries\<close>

lemma size_json_item: "(k, v) \<in> set kvs \<Longrightarrow> size v < size (JObj kvs)"
  by (induction kvs) auto

lemma size_json_elem: "x \<in> set xs \<Longrightarrow> size x < size (JList xs)"
  by (induction xs) auto

type_synonym pyrow = "(string \<times> json) list"

definition field :: "pyrow \<Rightarrow> string \<Rightarrow> json" where
  "field row k = jget (JObj row) k"

text \<open>\<open>_text\<close>.\<close>

definition text_of :: "lib \<Rightarrow> json \<Rightarrow> string" where
  "text_of L j = strip (str_or_empty L j)"

text \<open>
  \<open>_flatten_text\<close>: the texts in a value; a text that is itself JSON is parsed in turn. The
  number bounds the nesting of JSON inside JSON text.
\<close>

function flatten_text :: "lib \<Rightarrow> nat \<Rightarrow> json \<Rightarrow> string list" where
  "flatten_text L n JNull = []"
| "flatten_text L n (JStr s) =
     (let raw = strip s in
      if raw = [] then []
      else raw # (case n of 0 \<Rightarrow> []
        | Suc k \<Rightarrow> (case loads L raw of None \<Rightarrow> []
            | Some parsed \<Rightarrow> if parsed = JStr raw then [] else flatten_text L k parsed)))"
| "flatten_text L n (JObj kvs) = concat (map (\<lambda>kv. fst kv # flatten_text L n (snd kv)) kvs)"
| "flatten_text L n (JList xs) = concat (map (flatten_text L n) xs)"
| "flatten_text L n (JBool b) = [py_str L (JBool b)]"
| "flatten_text L n (JInt i) = [py_str L (JInt i)]"
| "flatten_text L n (JFloat q) = [py_str L (JFloat q)]"
| "flatten_text L n (JRaw s) = [s]"
  by pat_completeness auto
termination
  by (relation "measures [\<lambda>(L, n, j). n, \<lambda>(L, n, j). size j]") (auto dest: size_json_item size_json_elem)

section \<open>The effect floor\<close>

definition normalize_declared_tier :: "lib \<Rightarrow> json \<Rightarrow> string option" where
  "normalize_declared_tier L v =
     (let raw = upper (text_of L v) in
      if raw \<in> {''T0'', ''T1'', ''T2''} then Some raw else None)"

definition rdelim :: rx where
  "rdelim = ralts [RStart, rany ''/_.-'']"

definition rdelim_end :: rx where
  "rdelim_end = ralts [rany ''/_.-'', REnd]"

definition rsep :: rx where
  "rsep = rany ''-_ ''"

definition rword :: "rx list \<Rightarrow> rx" where
  "rword rs = rseq ([RBound] @ rs @ [RBound])"

definition t0_patterns :: "(string \<times> rx) list" where
  "t0_patterns =
    [(''verified_output'', rseq [rdelim, rlit ''verified'', ropt (rany ''_-''), rlit ''output'', rdelim_end]),
     (''served_number'', rword [rlit ''served '',
        rwords [''number'', ''metric'', ''score'', ''probability'', ''value''], ropt (rlit ''s'')]),
     (''served_config'', rword [rlit ''served'', rsep, rlit ''config'', ropt (rlit ''uration'')]),
     (''serving_query'', rword [rlit ''serving'', rsep, rlit ''quer'', rwords [''y'', ''ies'']]),
     (''activation'', rword [ralts [rlit ''activate'', rlit ''activation'', rlit ''cutover'',
        rseq [rlit ''go'', rsep, rlit ''live'']]]),
     (''model_promotion'', rword [ralts [rseq [rlit ''model'', rsep, rlit ''promotion''],
        rlit ''promote model'', rlit ''promotion receipt'']]),
     (''render_authority'', rword [ralts [rseq [rlit ''render'', rsep, rlit ''authority''],
        rseq [rlit ''external'', rsep, rlit ''render'']]]),
     (''ground_truth'', rword [rlit ''ground'', rsep, rlit ''truth'']),
     (''label_authority'', rword [ralts [rseq [rlit ''label'', rsep, rlit ''registry''],
        rseq [rlit ''label'', rsep, rlit ''authority''],
        rseq [rlit ''canonical label'', ropt (rlit ''s'')]]]),
     (''external_publication'', rword [rwords [''external publication'', ''publish externally'', ''public release'']]),
     (''irreversible'', rword [rlit ''irreversible'']),
     (''cross_lane_config'', rword [rlit ''cross'', rsep, rlit ''lane '', rwords [''config'', ''configuration'']])]"

definition rslash :: rx where
  "rslash = ralts [RStart, rlit ''/'']"

definition rslash_end :: rx where
  "rslash_end = ralts [rlit ''/'', REnd]"

definition not_slash :: "char \<Rightarrow> bool" where
  "not_slash c \<longleftrightarrow> c \<noteq> CHR ''/''"

definition t0_path_patterns :: "(string \<times> rx) list" where
  "t0_path_patterns =
    [(''verified_output_path'', rseq [rslash, rlit ''verified_output'', rslash_end]),
     (''served_config_path'', rseq [rslash, rwords [''served_config'', ''serving_queries''], rslash_end]),
     (''promotion_path'', rseq [rslash,
        ralts [rlit ''model_promotion'', rseq [rlit ''promotion_receipt'', ropt (rlit ''s'')]], rslash_end]),
     (''activation_path'', rseq [rslash, RSpan not_slash 0 None, rwords [''activation'', ''cutover''],
        RSpan not_slash 0 None, rslash_end]),
     (''ground_truth_path'', rseq [rslash, rwords [''ground_truth'', ''label_registry''], rslash_end]),
     (''external_publish_path'', rseq [rslash, rwords [''external_publish'', ''publication''], rslash_end])]"

text \<open>The nesting bound used for a value: the longest text in it.\<close>

fun text_bound :: "json \<Rightarrow> nat" where
  "text_bound (JStr s) = length s"
| "text_bound (JObj kvs) = foldr max (map (\<lambda>kv. text_bound (snd kv)) kvs) 0"
| "text_bound (JList xs) = foldr max (map text_bound xs) 0"
| "text_bound _ = 0"

definition flat :: "lib \<Rightarrow> json \<Rightarrow> string list" where
  "flat L j = flatten_text L (text_bound j) j"

definition flat_fields :: "lib \<Rightarrow> pyrow \<Rightarrow> string list \<Rightarrow> string list" where
  "flat_fields L row ks = concat (map (\<lambda>k. flat L (field row k)) ks)"

definition nonblank :: "string list \<Rightarrow> string list" where
  "nonblank refs = filter (\<lambda>r. strip r \<noteq> []) refs"

definition prose_parts :: "lib \<Rightarrow> pyrow \<Rightarrow> string list \<Rightarrow> string list" where
  "prose_parts L row refs =
     flat_fields L row [''title'', ''acceptance_json'', ''acceptance'', ''kind'', ''module'', ''sublane''] @
     nonblank refs @ flat_fields L row [''context_pack_ref'', ''depends_on'', ''done_signal'']"

definition path_parts :: "lib \<Rightarrow> pyrow \<Rightarrow> string list \<Rightarrow> string list" where
  "path_parts L row refs =
     flat_fields L row [''done_signal'', ''context_pack_ref'', ''depends_on''] @ nonblank refs"

definition normal_path :: "string \<Rightarrow> string" where
  "normal_path p = lower (map (\<lambda>c. if c = CHR 0x5C then CHR ''/'' else c) p)"

fun add_path_reasons :: "string list \<Rightarrow> string list \<Rightarrow> string list" where
  "add_path_reasons reasons [] = reasons"
| "add_path_reasons reasons (p # ps) =
     add_path_reasons
       (foldl (\<lambda>rs (code, pat). if rx_found pat (normal_path p) \<and> code \<notin> set rs then rs @ [code] else rs)
          reasons t0_path_patterns) ps"

definition t0_predicate_reasons :: "lib \<Rightarrow> pyrow \<Rightarrow> string list \<Rightarrow> string list" where
  "t0_predicate_reasons L row refs =
     (let subject = lower (join_with [newline] (prose_parts L row refs)) in
      add_path_reasons (map fst (filter (\<lambda>cp. rx_found (snd cp) subject) t0_patterns))
        (path_parts L row refs))"

definition effective_review_tier :: "lib \<Rightarrow> pyrow \<Rightarrow> string list \<Rightarrow> bool \<Rightarrow> string" where
  "effective_review_tier L row refs authorized =
     (let declared = normalize_declared_tier L (field row ''tier'') in
      if t0_predicate_reasons L row refs \<noteq> [] then
        (if declared \<in> {Some ''T1'', Some ''T2''} \<and> authorized then the declared else ''T0'')
      else case declared of None \<Rightarrow> ''T1'' | Some d \<Rightarrow> d)"

definition validate_tier_declaration :: "lib \<Rightarrow> pyrow \<Rightarrow> string list \<Rightarrow> bool \<Rightarrow> err + string" where
  "validate_tier_declaration L row refs authorized =
     (let declared = normalize_declared_tier L (field row ''tier'') in
      if text_of L (field row ''tier'') \<noteq> [] \<and> declared = None then Inl (ReviewPolicy ''review tier'')
      else if t0_predicate_reasons L row refs \<noteq> [] \<and> declared \<in> {Some ''T1'', Some ''T2''} \<and> \<not> authorized
        then Inl (ReviewPolicy ''below the T0 effect floor'')
      else Inr (effective_review_tier L row refs authorized))"

section \<open>Review rows and references to events\<close>

definition review_id_pattern :: rx where
  "review_id_pattern = rseq [rlit ''-review'', ropt (rseq [rlit ''-r'', RSpan is_digit 1 None]), REnd]"

definition is_review_row :: "lib \<Rightarrow> json \<Rightarrow> pyrow \<Rightarrow> bool" where
  "is_review_row L work_id row \<longleftrightarrow>
     rx_found review_id_pattern (lower (text_of L work_id)) \<or>
     lower (text_of L (field row ''kind'')) \<in> {''review'', ''review_row'', ''audit_review''}"

definition is_nonzero_digit :: "char \<Rightarrow> bool" where
  "is_nonzero_digit c \<longleftrightarrow> is_digit c \<and> c \<noteq> CHR ''0''"

definition ident_number :: rx where
  "ident_number = RSeq (RClass is_nonzero_digit) (RSpan is_digit 0 None)"

definition event_ref_pattern :: rx where
  "event_ref_pattern = rseq [ralts [RStart, RClass (\<lambda>c. \<not> is_word c)], ropt (rlit ''coord:''),
     rlit ''event:'', ident_number]"

text \<open>Group 1 of the pattern: the digits the match ends with.\<close>

definition trailing_number :: "string \<Rightarrow> int" where
  "trailing_number s = int (nat_of_digits (rev (takeWhile is_digit (rev s))))"

definition event_ref_ids :: "lib \<Rightarrow> json list \<Rightarrow> int list" where
  "event_ref_ids L vals =
     foldl (\<lambda>found i. if i \<in> set found then found else found @ [i]) []
       (map trailing_number (concat (map (rx_all event_ref_pattern) (concat (map (flat L) vals)))))"

definition done_signal_event_pattern :: rx where
  "done_signal_event_pattern = rseq [RStart, rlit ''coord:event:'', ident_number, REnd]"

definition coord_event_done_signal_id :: "string \<Rightarrow> int option" where
  "coord_event_done_signal_id v =
     (let signal = strip v in
      if rx_fullmatch done_signal_event_pattern signal then Some (trailing_number signal) else None)"

section \<open>Done signals\<close>

definition pointer_schemes :: "string list" where
  "pointer_schemes = [''coord:'', ''file:'', ''http:'', ''https:'', ''memory:'', ''kfts:'', ''git:'', ''sha256:'']"

text \<open>\<open>PurePosixPath(p).parts\<close> without the root: the empty and \<open>.\<close> components vanish.\<close>

definition path_components :: "string \<Rightarrow> string list" where
  "path_components p = filter (\<lambda>c. c \<noteq> [] \<and> c \<noteq> ''.'') (split_on CHR ''/'' p)"

definition validate_done_signal_grammar :: "string \<Rightarrow> err + string" where
  "validate_done_signal_grammar v =
     (let signal = strip v;
          path = map (\<lambda>c. if c = CHR 0x5C then CHR ''/'' else c) signal
      in if signal = [] then Inl (ReviewPolicy ''done_signal is required'')
         else if coord_event_done_signal_id signal \<noteq> None then Inr signal
         else if list_ex (\<lambda>p. prefix p signal) pointer_schemes then Inl (ReviewPolicy ''pointer scheme'')
         else if prefix ''/'' path \<or> prefix ''~'' signal \<or> prefix [CHR 0x5C] signal \<or>
                 ''..'' \<in> set (path_components path)
           then Inl (ReviewPolicy ''must be repo-relative'')
         else Inr signal)"

section \<open>The nesting bound is enough\<close>

text \<open>
  What JSON parsing guarantees: a text in the parsed value is shorter than the text it was
  parsed from, which encloses it in quotes. Under it, any bound that covers the longest
  text gives the same result.
\<close>

definition json_shrinks :: "lib \<Rightarrow> bool" where
  "json_shrinks L \<longleftrightarrow> (\<forall>s j. loads L s = Some j \<longrightarrow> text_bound j < length s)"

lemma foldr_max_le: "x \<in> set xs \<Longrightarrow> x \<le> foldr max xs (0 :: nat)"
  by (induction xs) auto

lemma length_lstrip: "length (lstrip s) \<le> length s"
  by (simp add: lstrip_def length_dropWhile_le)

lemma length_strip: "length (strip s) \<le> length s"
  using length_lstrip [of s] length_lstrip [of "rev (lstrip s)"] by (simp add: strip_def)

lemma flatten_enough:
  assumes "json_shrinks L"
  shows "text_bound j \<le> n \<Longrightarrow> text_bound j \<le> m \<Longrightarrow> flatten_text L n j = flatten_text L m j"
  using assms
proof (induction L n j arbitrary: m rule: flatten_text.induct)
  case (2 L n s)
  show ?case
  proof (cases "strip s = []")
    case False
    then have s: "length s \<noteq> 0" by auto
    obtain k l where k: "n = Suc k" and l: "m = Suc l"
      using 2(2,3) s by (cases n; cases m) auto
    have "flatten_text L k j = flatten_text L l j" if j: "loads L (strip s) = Some j" "j \<noteq> JStr (strip s)" for j
    proof -
      have "text_bound j < length (strip s)" using 2(4) j(1) by (simp add: json_shrinks_def)
      then have "text_bound j \<le> k" "text_bound j \<le> l"
        using length_strip [of s] 2(2,3) k l by auto
      then show ?thesis using 2(1) [OF refl False k j(1) j(2)] 2(4) by blast
    qed
    then show ?thesis using k l by (auto simp: Let_def split: option.splits)
  qed simp
next
  case (3 L n kvs)
  have "flatten_text L n (snd kv) = flatten_text L m (snd kv)" if "kv \<in> set kvs" for kv
  proof -
    have "text_bound (snd kv) \<le> text_bound (JObj kvs)" using that by (auto intro: foldr_max_le)
    then show ?thesis using 3 that by (meson le_trans)
  qed
  then show ?case by (auto intro!: arg_cong [of _ _ concat])
next
  case (4 L n xs)
  have "flatten_text L n x = flatten_text L m x" if "x \<in> set xs" for x
  proof -
    have "text_bound x \<le> text_bound (JList xs)" using that by (auto intro: foldr_max_le)
    then show ?thesis using 4 that by (meson le_trans)
  qed
  then show ?case by (auto intro!: arg_cong [of _ _ concat])
qed simp_all

section \<open>The floor holds\<close>

lemma validate_tier_Inr:
  assumes "validate_tier_declaration L row refs authorized = Inr tier"
  shows "tier = effective_review_tier L row refs authorized \<and>
    (t0_predicate_reasons L row refs \<noteq> [] \<longrightarrow> tier = ''T0'' \<or> authorized)"
  using assms
  by (auto simp: validate_tier_declaration_def effective_review_tier_def Let_def split: if_split_asm)

lemma normalize_declared_tier_values:
  "normalize_declared_tier L v = Some t \<Longrightarrow> t \<in> {''T0'', ''T1'', ''T2''}"
  by (auto simp: normalize_declared_tier_def Let_def split: if_split_asm)

lemma effective_tier_values: "effective_review_tier L row refs authorized \<in> {''T0'', ''T1'', ''T2''}"
  using normalize_declared_tier_values [of L "field row ''tier''"]
  by (auto simp: effective_review_tier_def Let_def split: option.splits)

lemma done_signal_Inr:
  assumes "validate_done_signal_grammar v = Inr s"
  shows "s = strip v \<and> s \<noteq> [] \<and> (coord_event_done_signal_id s \<noteq> None \<or>
     (let path = map (\<lambda>c. if c = CHR 0x5C then CHR ''/'' else c) s in
      \<not> prefix ''/'' path \<and> ''..'' \<notin> set (split_on CHR ''/'' path)))"
  using assms
  by (auto simp: validate_done_signal_grammar_def Let_def path_components_def split: if_split_asm)

end
