(* ===== verification/CreationLint.thy ===== *)
theory CreationLint
  imports ReviewTier
begin

text \<open>
  The creation lint (src/src/coordharness/coord/creation_lint.py): labels, durable
  identifiers, acceptance criteria that would make a lane pass its own work, and the fields
  a row must carry. \<open>normalize_creation_fields\<close> and the hand-off capsule warnings are not
  modelled. Text is ASCII, so the dash normalisation of labels is the identity.
\<close>

section \<open>Text helpers\<close>

fun replace_runs :: "(char \<Rightarrow> bool) \<Rightarrow> string \<Rightarrow> bool \<Rightarrow> string \<Rightarrow> string" where
  "replace_runs p r inside [] = []"
| "replace_runs p r inside (c # cs) =
     (if p c then (if inside then [] else r) @ replace_runs p r True cs
      else c # replace_runs p r False cs)"

text \<open>\<open>re.split\<close> on runs of separator characters.\<close>

fun split_runs :: "(char \<Rightarrow> bool) \<Rightarrow> bool \<Rightarrow> string \<Rightarrow> string \<Rightarrow> string list" where
  "split_runs p inside cur [] = [cur]"
| "split_runs p inside cur (c # cs) =
     (if p c then (if inside then split_runs p True [] cs else cur # split_runs p True [] cs)
      else split_runs p False (cur @ [c]) cs)"

fun contains :: "string \<Rightarrow> string \<Rightarrow> bool" where
  "contains t [] = (t = [])"
| "contains t (c # s) = (prefix t (c # s) \<or> contains t s)"

text \<open>Python's \<open>a or b\<close>.\<close>

definition jor :: "json \<Rightarrow> json \<Rightarrow> json" where
  "jor a b = (if truthy a then a else b)"

definition text_field :: "lib \<Rightarrow> pyrow \<Rightarrow> string \<Rightarrow> string" where
  "text_field L row k = text_of L (field row k)"

definition text_either :: "lib \<Rightarrow> pyrow \<Rightarrow> string \<Rightarrow> string \<Rightarrow> string" where
  "text_either L row k1 k2 = text_of L (jor (field row k1) (field row k2))"

section \<open>Labels\<close>

definition generic_labels :: "string list" where
  "generic_labels = [''job'', ''task'', ''work'', ''todo'', ''tbd'', ''untitled'', ''session'',
     ''live session'', ''claude'', ''claude live session'', ''claude - live session'',
     ''codex'', ''codex live session'', ''codex - live session'']"

definition is_lower_hex :: "char \<Rightarrow> bool" where
  "is_lower_hex c \<longleftrightarrow> is_digit c \<or> c \<in> set ''abcdef''"

definition glue :: rx where
  "glue = RSpan (\<lambda>c. c = CHR ''-'' \<or> c = CHR ''_'' \<or> is_ws c) 0 None"

definition session_label_pattern :: rx where
  "session_label_pattern = rseq [RStart, rwords [''claude'', ''codex''], glue, rlit ''live'', glue,
     ropt (RSeq (rlit ''session'') glue), RSpan is_lower_hex 6 (Some 16), REnd]"

definition agent_label_pattern :: rx where
  "agent_label_pattern = rseq [RStart, rwords [''claude'', ''codex''], rspaces,
     RSpan is_lower_hex 6 (Some 16), REnd]"

definition is_descriptive_label :: "string \<Rightarrow> string \<Rightarrow> bool" where
  "is_descriptive_label v work_id =
     (let label = strip v; normalized = strip (replace_runs is_ws '' '' False label) in
      label \<noteq> [] \<and> \<not> (work_id \<noteq> [] \<and> lower label = lower (strip work_id)) \<and>
      lower normalized \<notin> set generic_labels \<and>
      \<not> rx_match session_label_pattern (lower normalized) \<and>
      \<not> rx_match agent_label_pattern (lower normalized))"

section \<open>Acceptance criteria\<close>

fun is_filled_collection :: "json \<Rightarrow> bool" where
  "is_filled_collection (JList xs) = (xs \<noteq> [])"
| "is_filled_collection (JObj kvs) = (kvs \<noteq> [])"
| "is_filled_collection _ = False"

definition json_present :: "lib \<Rightarrow> json \<Rightarrow> bool" where
  "json_present L v = (case v of
       JStr s \<Rightarrow> strip s \<noteq> [] \<and>
         (case loads L (strip s) of None \<Rightarrow> False | Some j \<Rightarrow> is_filled_collection j)
     | _ \<Rightarrow> is_filled_collection v)"

definition acceptance_waived :: "lib \<Rightarrow> pyrow \<Rightarrow> bool" where
  "acceptance_waived L row \<longleftrightarrow>
     text_either L row ''acceptance_waiver'' ''acceptance_waiver_reason'' \<noteq> [] \<or>
     field row ''acceptance_waived'' = JBool True \<or>
     field row ''acceptance_required'' = JBool False \<or>
     lower (text_field L row ''acceptance_required'') \<in> {''0'', ''false'', ''no'', ''off''}"

definition acceptance_present :: "lib \<Rightarrow> pyrow \<Rightarrow> bool" where
  "acceptance_present L row \<longleftrightarrow> json_present L (field row ''acceptance_json'') \<or>
     json_present L (field row ''acceptance'') \<or> acceptance_waived L row"

text \<open>\<open>_acceptance_text_fragments\<close>; \<open>0\<close> equals \<open>False\<close> in Python, so its key is dropped.\<close>

definition counts_as_empty :: "json \<Rightarrow> bool" where
  "counts_as_empty j \<longleftrightarrow> \<not> truthy j \<and> (case j of JRaw _ \<Rightarrow> False | _ \<Rightarrow> True)"

definition spaced :: "string \<Rightarrow> string" where
  "spaced k = map (\<lambda>c. if c = CHR ''_'' \<or> c = CHR ''-'' then CHR '' '' else c) k"

function fragments :: "lib \<Rightarrow> nat \<Rightarrow> json \<Rightarrow> string list" where
  "fragments L n JNull = []"
| "fragments L n (JBool b) = (if b then [py_str L (JBool True)] else [])"
| "fragments L n (JStr s) =
     (let raw = strip s in
      if raw = [] then []
      else case loads L raw of
          None \<Rightarrow> [raw]
        | Some parsed \<Rightarrow>
            if parsed = JStr raw then [raw]
            else (case n of 0 \<Rightarrow> [] | Suc k \<Rightarrow> fragments L k parsed))"
| "fragments L n (JObj kvs) =
     concat (map (\<lambda>kv. (if counts_as_empty (snd kv) then [] else [spaced (fst kv)]) @
                       fragments L n (snd kv)) kvs)"
| "fragments L n (JList xs) = concat (map (fragments L n) xs)"
| "fragments L n (JInt i) = [py_str L (JInt i)]"
| "fragments L n (JFloat q) = [py_str L (JFloat q)]"
| "fragments L n (JRaw s) = [s]"
  by pat_completeness auto
termination
  by (relation "measures [\<lambda>(L, n, j). n, \<lambda>(L, n, j). size j]") (auto dest: size_json_item size_json_elem)

definition acceptance_fragments :: "lib \<Rightarrow> json \<Rightarrow> string list" where
  "acceptance_fragments L j = fragments L (text_bound j) j"

section \<open>Criteria that make a lane pass its own work\<close>

definition rw :: "string list \<Rightarrow> rx" where
  "rw ws = rseq [RBound, rwords ws, RBound]"

text \<open>Words separated by runs of white space.\<close>

fun phrase :: "string list \<Rightarrow> rx" where
  "phrase [] = REps"
| "phrase [w] = rlit w"
| "phrase (w # ws) = RSeq (rlit w) (RSeq rspaces (phrase ws))"

definition pass_token :: rx where
  "pass_token = rseq [ropt (RSeq (phrase [''audit'', ''verdict'']) rspaces), rlit ''pass'']"

definition pass_not_a_test :: rx where
  "pass_not_a_test = rseq [pass_token, RBound,
     RNot (rseq [rspaces, rwords [''tests'', ''test'', ''checks'', ''check'', ''suite'', ''lint'',
        ''verification'', ''gate''], RBound])]"

definition pass_producer :: rx where
  "pass_producer = rwords [''issue'', ''post'', ''provide'', ''return'', ''record'', ''write'',
     ''submit'', ''render'', ''give'']"

definition pass_producer_noun :: rx where
  "pass_producer_noun = rwords [''issue'', ''issuing'', ''posting'', ''post'', ''provide'', ''providing'',
     ''returning'', ''return'', ''recording'', ''record'', ''write'', ''writing'', ''submitting'', ''submit'',
     ''rendering'', ''render'', ''give'', ''giving'']"

definition requirement :: rx where
  "requirement = ralts [rlit ''must'', rlit ''shall'', phrase [''has'', ''to''],
     phrase [''is'', ''required'', ''to''], rseq [rlit ''need'', ropt (rlit ''s''), rspaces, rlit ''to''], rlit ''to'']"

definition obligation :: rx where
  "obligation = ralts [
     rseq [ropt (RSeq (rlit ''is'') rspaces), rwords [''responsible'', ''accountable''], rspaces, rlit ''for''],
     rseq [ropt (RSeq (rlit ''is'') rspaces), rwords [''tasked'', ''charged''], rspaces, rlit ''with'']]"

definition role :: rx where
  "role = RSeq (rwords [''assignee'', ''assigned'', ''owner'', ''author'']) (ropt (RSeq rspaces (rlit ''lane'')))"

definition opt_producer :: rx where
  "opt_producer = ropt (RSeq pass_producer rspaces)"

definition self_or_same_lane :: rx where
  "self_or_same_lane = ralts [rlit ''self'', phrase [''same'', ''lane'']]"

definition must_shall_required :: rx where
  "must_shall_required = ralts [rlit ''must'', rlit ''shall'', phrase [''is'', ''required'', ''to'']]"

definition by_or_from :: "rx \<Rightarrow> rx" where
  "by_or_from who = rseq [RBound, rwords [''by'', ''from''], rspaces, ropt (RSeq (rlit ''the'') rspaces), who, RBound]"

definition requires_needs :: rx where
  "requires_needs = ralts [rseq [rlit ''require'', ropt (rlit ''s'')], rseq [rlit ''need'', ropt (rlit ''s'')]]"

definition required_pass_patterns :: "string \<Rightarrow> rx list" where
  "required_pass_patterns lane =
     (let lane_token = rlit lane;
          lane_reviewer = rseq [RBound, lane_token, RBound,
            ropt (RSeq rspaces (rwords [''lane'', ''reviewer'']))];
          opt_lane = ropt (RSeq rspaces (rlit ''lane''));
          needed = rw [''required'', ''needed'', ''mandatory'']
      in [rseq [RBound, self_or_same_lane, rspaces, pass_token, RBound, rgap 60, needed],
          rseq [RBound, ralts [requires_needs, phrase [''must'', ''have'']], RBound, rgap 60,
            RBound, self_or_same_lane, rspaces, pass_token, RBound],
          rseq [RBound, phrase [''same'', ''lane''], RBound, rgap 40, RBound, must_shall_required, rspaces,
            pass_not_a_test],
          rseq [RBound, pass_token, RBound, rgap 40, by_or_from (phrase [''same'', ''lane''])],
          rseq [RBound, role, RBound, rgap 45, RBound, requirement, rspaces, opt_producer, pass_not_a_test],
          rseq [RBound, role, RBound, rgap 35, RBound, obligation, rspaces, pass_producer_noun, rspaces,
            pass_not_a_test],
          rseq [RBound, requires_needs, RBound, rgap 45, RBound, role, RBound, rgap 20,
            ropt (RSeq (rlit ''to'') rspaces), opt_producer, pass_not_a_test],
          rseq [RBound, pass_token, RBound, rgap 40, by_or_from role],
          rseq [lane_reviewer, rgap 35, RBound, must_shall_required, rspaces, opt_producer, pass_not_a_test],
          rseq [lane_reviewer, rgap 35, RBound, obligation, rspaces, pass_producer_noun, rspaces, pass_not_a_test],
          rseq [RBound, lane_token, opt_lane, rspaces, pass_token, RBound, rgap 45, needed],
          rseq [RBound, requires_needs, RBound, rgap 45, RBound, lane_token, opt_lane, rspaces, pass_token, RBound],
          rseq [RBound, pass_token, RBound, rgap 40, by_or_from (RSeq lane_token opt_lane)],
          rseq [RBound, lane_token, rany ''- '', rlit ''authored'', rspaces,
            ropt (RSeq (rlit ''audit'') (ropt (rany ''_ -''))), rlit ''verdict'', RBound, rgap 160,
            RBound, pass_token, RBound]])"

definition negated_inside :: rx where
  "negated_inside = rseq [RBound, ralts [phrase [''must'', ''not''], phrase [''not'', ''allowed'', ''to'']], RBound]"

definition negated_prefix :: rx where
  "negated_prefix = rseq [RBound,
     ralts [rseq [rlit ''forbid'', ropt (rlit ''s'')], rseq [rlit ''prohibit'', ropt (rlit ''s'')],
            rseq [rlit ''reject'', ropt (rlit ''s'')], rseq [rlit ''disallow'', ropt (rlit ''s'')]],
     RBound, rgap 45, REnd]"

definition negated_suffix :: rx where
  "negated_suffix = rseq [RStart, rspaces0, ralts [rlit ''is'', rlit ''are'', phrase [''must'', ''be'']], rspaces,
     ralts [rlit ''forbidden'', rlit ''prohibited'', rlit ''rejected'', rlit ''disallowed'',
       rseq [rlit ''not'', rspaces, rwords [''allowed'', ''accepted'', ''required'']]], RBound]"

definition pass_rule_negated :: "string \<times> string \<times> string \<Rightarrow> bool" where
  "pass_rule_negated m = (case m of (bef, matched, aft) \<Rightarrow>
     rx_found negated_inside matched \<or>
     rx_found negated_prefix (drop (length bef - 55) bef) \<or>
     rx_found negated_suffix (take 45 aft))"

definition clause_requires_pass :: "string \<Rightarrow> string \<Rightarrow> bool" where
  "clause_requires_pass lane clause \<longleftrightarrow>
     list_ex (\<lambda>p. case rx_search p (lower clause) of None \<Rightarrow> False | Some m \<Rightarrow> \<not> pass_rule_negated m)
       (required_pass_patterns lane)"

definition is_clause_end :: "char \<Rightarrow> bool" where
  "is_clause_end c \<longleftrightarrow> c = newline \<or> c = CHR ''.'' \<or> c = CHR '';''"

definition clauses :: "string \<Rightarrow> string list" where
  "clauses fragment =
     split_runs is_clause_end False []
       (replace_runs (\<lambda>c. c = CHR ''_'' \<or> c = CHR ''-'') '' '' False fragment)"

definition acceptance_requires_assignee_pass :: "lib \<Rightarrow> string list \<Rightarrow> json \<Rightarrow> string \<Rightarrow> bool" where
  "acceptance_requires_assignee_pass L lanes acceptance assignee =
     (let lane = lower (strip assignee) in
      lane \<in> set lanes \<and>
      list_ex (\<lambda>f. list_ex (clause_requires_pass lane) (clauses f)) (acceptance_fragments L acceptance))"

section \<open>Durable identifiers\<close>

definition expected_owner_prefix :: "string \<Rightarrow> string option" where
  "expected_owner_prefix assignee =
     (let lane = lower (strip assignee) in
      if contains ''codex'' lane \<or> lane = ''cdx'' then Some ''CDX''
      else if contains ''claude'' lane \<or> lane = ''cla'' then Some ''CLA''
      else if lane \<in> {''operator'', ''human'', ''user''} then Some ''OP''
      else None)"

definition is_upper :: "char \<Rightarrow> bool" where
  "is_upper c = (let n = (of_char c :: nat) in 65 \<le> n \<and> n \<le> 90)"

definition owner_codes :: "string list" where
  "owner_codes = [''CLA'', ''CDX'', ''OP'', ''FABLE'']"

definition durable_id_pattern :: rx where
  "durable_id_pattern = rseq [RStart, RClass is_upper, RSpan (\<lambda>c. is_upper c \<or> is_digit c) 0 None,
     rlit ''-'', rwords owner_codes, rlit ''-'', RClass (\<lambda>c. is_upper c \<or> is_digit c),
     RSpan (\<lambda>c. is_upper c \<or> is_digit c \<or> c = CHR ''-'') 0 None, REnd]"

text \<open>Group 1: the prefix holds no hyphen, so the owner code is the second segment.\<close>

definition durable_id_actor :: "string \<Rightarrow> string option" where
  "durable_id_actor work_id =
     (let wid = upper (strip work_id) in
      if rx_match durable_id_pattern wid
      then Some (takeWhile (\<lambda>c. c \<noteq> CHR ''-'') (tl (dropWhile (\<lambda>c. c \<noteq> CHR ''-'') wid))) else None)"

definition chat_numbered_owner_pattern :: rx where
  "chat_numbered_owner_pattern = rseq [rlit ''-'', rwords [''cla'', ''cdx'', ''op'', ''fable''], rlit ''-'',
     RSpan is_digit 1 None, rlit ''-'']"

definition durable_id_policy_issues :: "string \<Rightarrow> bool \<Rightarrow> string list" where
  "durable_id_policy_issues work_id require_policy_id =
     (let wid = upper (strip work_id) in
      if wid = [] then [''id/work_id'']
      else (if rx_found chat_numbered_owner_pattern (lower wid)
            then [''no chat-number owner in durable ID''] else []) @
           (if require_policy_id \<and> durable_id_actor wid = None
            then [''durable ID shape PREFIX-CLA|CDX|OP|FABLE-SLUG''] else []))"

section \<open>What a row must carry\<close>

definition lint_terminal_states :: "string list" where
  "lint_terminal_states = [''done'', ''complete'', ''completed'', ''cleared'', ''superseded'',
     ''archived'', ''cancelled'', ''canceled'', ''failed'']"

definition followup_states :: "string list" where
  "followup_states = [''demoted'', ''followup'', ''follow-up'']"

definition is_operator_visible_active :: "lib \<Rightarrow> pyrow \<Rightarrow> bool" where
  "is_operator_visible_active L row =
     (let visibility = lower (text_of L (jor (field row ''visibility'') (JStr ''operator'')));
          surface = lower (text_field L row ''surface'');
          state = lower (text_either L row ''status'' ''intent_state'');
          operator_state = lower (text_field L row ''operator_state'');
          tier = lower (text_field L row ''tier'')
      in visibility \<notin> {''hidden'', ''diagnostic'', ''internal'', ''session''} \<and>
         surface \<notin> {''epic'', ''container''} \<and>
         state \<notin> set lint_terminal_states \<and> operator_state \<notin> set lint_terminal_states \<and>
         operator_state \<notin> set followup_states \<and> tier \<notin> set followup_states)"

definition generic_modules :: "string list" where
  "generic_modules = [''data'', ''platform'', ''data-platform'', ''data_platform'', ''data platform'']"

definition row_context_id :: "lib \<Rightarrow> pyrow \<Rightarrow> string" where
  "row_context_id L row =
     text_of L (jor (field row ''_row_context_id'') (jor (field row ''id'') (field row ''work_id'')))"

definition needs :: "bool \<Rightarrow> string \<Rightarrow> string list" where
  "needs missing what = (if missing then [what] else [])"

definition acceptance_missing :: "lib \<Rightarrow> pyrow \<Rightarrow> bool" where
  "acceptance_missing L row \<longleftrightarrow>
     effective_review_tier L row [] False \<in> {''T0'', ''T1''} \<and> \<not> acceptance_present L row"

definition row_quality_missing_fields :: "lib \<Rightarrow> pyrow \<Rightarrow> bool \<Rightarrow> string list" where
  "row_quality_missing_fields L row require_policy_id =
     (let rid = row_context_id L row;
          title = text_either L row ''title'' ''name'';
          display = text_either L row ''display'' ''display_title'';
          module = text_field L row ''module'';
          sublane = text_either L row ''sublane'' ''sub'';
          surface = lower (text_field L row ''surface'');
          note = text_either L row ''note'' ''why'';
          context_ref = text_field L row ''context_pack_ref'';
          parent = text_either L row ''parent_id'' ''parent'';
          status = lower (text_either L row ''status'' ''intent_state'');
          done_signal = text_field L row ''done_signal''
      in durable_id_policy_issues rid require_policy_id @
         needs (\<not> is_descriptive_label title rid) ''descriptive title'' @
         needs (\<not> is_descriptive_label display rid) ''descriptive display'' @
         needs (text_field L row ''assignee'' = []) ''assignee'' @
         needs (module = [] \<or> (lower module \<in> set generic_modules \<and> sublane = [])) ''specific module'' @
         needs (surface \<notin> {''epic'', ''job'', ''task''}) ''surface=epic|job|task'' @
         needs (surface = ''task'' \<and> \<not> (parent \<noteq> [] \<or> truthy (field row ''depends_on'')))
           ''task parent_id/depends_on'' @
         (if done_signal = [] then [''done_signal'']
          else needs (isl (validate_done_signal_grammar done_signal)) ''valid done_signal grammar'') @
         needs (acceptance_missing L row) ''acceptance_json/acceptance or waiver'' @
         needs (note = [] \<and> context_ref = []) ''note/why or context_pack_ref'' @
         needs (status = ''blocked'' \<and> \<not> (truthy (field row ''blocked_reason_class'') \<or> note \<noteq> []))
           ''blocked_reason_class or blocker note'')"

definition claim_rubric_missing_fields :: "lib \<Rightarrow> pyrow \<Rightarrow> string list" where
  "claim_rubric_missing_fields L row =
     needs (\<not> is_descriptive_label (text_either L row ''title'' ''name'') (row_context_id L row))
       ''descriptive title'' @
     needs (text_field L row ''done_signal'' = []) ''done_signal'' @
     needs (acceptance_missing L row) ''acceptance_json/acceptance''"

definition is_alnum :: "char \<Rightarrow> bool" where
  "is_alnum c \<longleftrightarrow> is_word c \<and> c \<noteq> CHR ''_''"

definition title_prefix_tokens :: "string \<Rightarrow> nat \<Rightarrow> string list" where
  "title_prefix_tokens v count = take count (rx_all (RSpan is_alnum 1 None) (upper v))"

text \<open>The number of near-identical rows and their shared prefix, where the code warns.\<close>

definition sibling_atomization_warning ::
  "string \<Rightarrow> string list \<Rightarrow> nat \<Rightarrow> nat \<Rightarrow> (nat \<times> string) option" where
  "sibling_atomization_warning new_title sibling_titles prefix_tokens min_similar =
     (let pre = title_prefix_tokens new_title prefix_tokens in
      if length pre < prefix_tokens then None
      else let similar = length (filter (\<lambda>t. title_prefix_tokens t prefix_tokens = pre) sibling_titles) in
        if similar < min_similar then None else Some (similar + 1, join_with '' '' pre))"

section \<open>Creation policy\<close>

definition lift_lint :: "err + 'a \<Rightarrow> err + 'a" where
  "lift_lint r = (case r of Inl (ReviewPolicy m) \<Rightarrow> Inl (CreationLint m) | _ \<Rightarrow> r)"

definition validate_creation_policy ::
  "lib \<Rightarrow> string list \<Rightarrow> string \<Rightarrow> pyrow \<Rightarrow> string list \<Rightarrow> bool \<Rightarrow> err + string" where
  "validate_creation_policy L lanes work_id row refs authorized =
     (let refs_list = map strip (nonblank refs);
          assignee = lower (text_field L row ''assignee'')
      in bindE (lift_lint (validate_done_signal_grammar (str_or_empty L (field row ''done_signal'')))) (\<lambda>_.
         bindE (lift_lint (validate_tier_declaration L row refs_list authorized)) (\<lambda>tier.
           if acceptance_requires_assignee_pass L lanes (field row ''acceptance_json'') assignee
             then Inl (CreationLint ''acceptance_requires_same_lane_pass'')
           else if is_review_row L (JStr work_id) row \<and> tier \<noteq> ''T0''
             then Inl (CreationLint ''review-row creation is T0-only'')
           else if is_review_row L (JStr work_id) row \<and>
               event_ref_ids L (map JStr refs_list @ [field row ''context_pack_ref'', field row ''depends_on'']) = []
             then Inl (CreationLint ''cross-lane audit_request required'')
           else Inr tier)))"

lemma creation_policy_Inr:
  assumes "validate_creation_policy L lanes work_id row refs authorized = Inr tier"
  shows "validate_tier_declaration L row (map strip (nonblank refs)) authorized = Inr tier \<and>
    \<not> isl (validate_done_signal_grammar (str_or_empty L (field row ''done_signal''))) \<and>
    \<not> acceptance_requires_assignee_pass L lanes (field row ''acceptance_json'')
        (lower (text_field L row ''assignee'')) \<and>
    (is_review_row L (JStr work_id) row \<longrightarrow> tier = ''T0'')"
  using assms
  by (auto simp: validate_creation_policy_def Let_def bindE_Inr_iff lift_lint_def
      split: if_split_asm sum.splits err.splits)

lemma unknown_lane_free: "lower (strip a) \<notin> set lanes \<Longrightarrow> \<not> acceptance_requires_assignee_pass L lanes acc a"
  by (simp add: acceptance_requires_assignee_pass_def Let_def)

end
