(* ===== verification/Sessions.thy ===== *)
theory Sessions
  imports Store
begin

text \<open>
  Agent sessions (coord_db.py, \<open>_related_session_ids_unlocked\<close> to \<open>reap_zombie_sessions\<close>):
  which session identifiers are one owner, registration and lease renewal, ending a session
  and reaping the ones whose lease lapsed. The lane set, the clock and the probe for a
  process start time are arguments.
\<close>

section \<open>Session families\<close>

text \<open>The lane under which the family of a session is looked up.\<close>

definition family_actor :: "db \<Rightarrow> string \<Rightarrow> string option \<Rightarrow> string" where
  "family_actor d sid actor =
     (let row_actor = (case sess d sid of None \<Rightarrow> [] | Some r \<Rightarrow> s_actor r);
          a = lower (strip (if otext actor = [] then row_actor else otext actor))
      in if a = [] then otext (expected_actor_for_session_id sid) else a)"

definition thread_of :: "db \<Rightarrow> string \<Rightarrow> string" where
  "thread_of d sid = (case sess d sid of None \<Rightarrow> [] | Some r \<Rightarrow> clean (s_thread r))"

definition alias_of :: "string \<Rightarrow> string \<Rightarrow> string \<Rightarrow> string \<Rightarrow> session_row \<Rightarrow> bool" where
  "alias_of sid act suf thread s \<longleftrightarrow>
     (let cand = strip (s_id s) in
      cand \<in> set [sid, suf, act @ '':'' @ suf] \<or>
      (suf \<noteq> [] \<and> suffix ('':'' @ suf) cand) \<or>
      (thread \<noteq> [] \<and> clean (s_thread s) = thread))"

definition related_session_ids :: "string list \<Rightarrow> db \<Rightarrow> string \<Rightarrow> string option \<Rightarrow> string list" where
  "related_session_ids lanes d session_id actor =
     (let sid = strip session_id in
      if sid = [] then []
      else let act = family_actor d sid actor;
               suf = session_family_suffix lanes sid act;
               thread = thread_of d sid
        in if suf = [] \<and> thread = [] then [sid]
           else let related = map (\<lambda>s. strip (s_id s))
                      (filter (\<lambda>s. s_actor s = act \<and> alias_of sid act suf thread s) (d_sessions d))
             in sort (remdups (if sid \<in> set related then related else related @ [sid])))"

definition renew_session :: "seconds \<Rightarrow> seconds \<Rightarrow> session_row \<Rightarrow> session_row" where
  "renew_session t lease s = s\<lparr>s_heartbeat := t, s_lease := t + lease\<rparr>"

definition renew_claim :: "seconds \<Rightarrow> seconds \<Rightarrow> claim_row \<Rightarrow> claim_row" where
  "renew_claim t lease c = c\<lparr>c_heartbeat := t, c_expires := t + lease\<rparr>"

definition renew_sessions_and_claims :: "string list \<Rightarrow> seconds \<Rightarrow> seconds \<Rightarrow> db \<Rightarrow> db" where
  "renew_sessions_and_claims session_ids t lease d =
     (let ids = filter (\<lambda>i. i \<noteq> []) (map strip session_ids) in
      if ids = [] then d
      else upd_claims (\<lambda>c. c_session c \<in> set ids \<and> held c) (renew_claim t lease)
             (upd_sessions (\<lambda>s. s_id s \<in> set ids) (renew_session t lease) d))"

section \<open>Registration\<close>

record register_args =
  g_session :: string
  g_actor :: "string option"
  g_actor_id :: "string option"
  g_parent :: "string option"
  g_runner_type :: "string option"
  g_cwd :: "string option"
  g_pid :: "int option"
  g_pid_started :: "seconds option"
  g_human_label :: "string option"
  g_thread :: "string option"
  g_title :: "string option"
  g_worktree :: "string option"
  g_label_source :: "string option"
  g_lease :: seconds

definition label_stamp :: "register_args \<Rightarrow> seconds \<Rightarrow> seconds option" where
  "label_stamp g t =
     (if list_ex (\<lambda>v. v \<noteq> None)
           [g_human_label g, g_thread g, g_title g, g_worktree g, g_label_source g]
      then Some t else None)"

definition new_session_row :: "register_args \<Rightarrow> string \<Rightarrow> seconds option \<Rightarrow> string \<Rightarrow> seconds \<Rightarrow> session_row" where
  "new_session_row g actor pid_started host t =
     \<lparr>s_id = g_session g, s_actor = actor,
      s_actor_id = Some (if otext (g_actor_id g) = [] then actor else otext (g_actor_id g)),
      s_parent = g_parent g, s_runner_type = g_runner_type g, s_human_label = g_human_label g,
      s_thread = g_thread g, s_title = g_title g, s_worktree = g_worktree g,
      s_label_source = g_label_source g, s_label_updated = label_stamp g t, s_cwd = g_cwd g,
      s_pid = g_pid g, s_pid_started = pid_started, s_host = Some host, s_started = t,
      s_heartbeat = t, s_lease = t + g_lease g, s_pause = None, s_state = ''active'',
      s_ended = None, s_version = 0\<rparr>"

definition refreshed_session_row ::
  "register_args \<Rightarrow> string \<Rightarrow> seconds option \<Rightarrow> seconds \<Rightarrow> session_row \<Rightarrow> session_row" where
  "refreshed_session_row g actor pid_started t s =
     s\<lparr>s_actor := actor, s_actor_id := coalesce (g_actor_id g) (s_actor_id s),
       s_parent := coalesce (g_parent g) (s_parent s),
       s_runner_type := coalesce (g_runner_type g) (s_runner_type s),
       s_human_label := coalesce (g_human_label g) (s_human_label s),
       s_thread := coalesce (g_thread g) (s_thread s), s_title := coalesce (g_title g) (s_title s),
       s_worktree := coalesce (g_worktree g) (s_worktree s),
       s_label_source := coalesce (g_label_source g) (s_label_source s),
       s_label_updated := coalesce (label_stamp g t) (s_label_updated s),
       s_cwd := coalesce (g_cwd g) (s_cwd s), s_pid := coalesce (g_pid g) (s_pid s),
       s_pid_started := coalesce pid_started (s_pid_started s), s_heartbeat := t,
       s_lease := t + g_lease g, s_state := ''active'', s_ended := None,
       s_version := s_version s + 1\<rparr>"

definition register_session ::
  "string list \<Rightarrow> (int \<Rightarrow> seconds option) \<Rightarrow> string \<Rightarrow> register_args \<Rightarrow> seconds \<Rightarrow> db \<Rightarrow> err + (db \<times> string)"
  where
  "register_session lanes pid_start_time host g t d =
     (let actor = norm (g_actor g) in
      if g_session g = [] then Inl (ValueErr ''session_id'')
      else if actor = [] then Inl (ValueErr ''actor'')
      else if \<not> session_actor_ok (g_session g) actor then Inl (ActorMismatch (g_session g) actor)
      else let started = (case (g_pid g, g_pid_started g) of
                            (Some pid, None) \<Rightarrow> pid_start_time pid
                          | _ \<Rightarrow> g_pid_started g);
               stored = (case sess d (g_session g) of
                   None \<Rightarrow> insert_session (new_session_row g actor started host t) d
                 | Some s \<Rightarrow>
                     if strip (s_actor s) \<noteq> [] \<and> strip (s_actor s) \<noteq> actor
                     then Inl (ActorMismatch (g_session g) actor)
                     else Inr (upd_sessions (\<lambda>s. s_id s = g_session g)
                                 (refreshed_session_row g actor started t) d))
        in bindE stored (\<lambda>d'.
             Inr (renew_sessions_and_claims
                    (related_session_ids lanes d' (g_session g) (Some actor)) t (g_lease g) d',
                  g_session g)))"

definition renew_lease :: "string list \<Rightarrow> string \<Rightarrow> seconds \<Rightarrow> seconds \<Rightarrow> db \<Rightarrow> db" where
  "renew_lease lanes session_id lease t d =
     renew_sessions_and_claims (related_session_ids lanes d session_id None) t lease d"

section \<open>Ending and reaping\<close>

definition orphan_run :: "seconds \<Rightarrow> run_row \<Rightarrow> run_row" where
  "orphan_run t r = r\<lparr>r_state := ''orphaned'', r_finished := Some t, r_version := r_version r + 1\<rparr>"

definition runs_of_session :: "string \<Rightarrow> run_row \<Rightarrow> bool" where
  "runs_of_session sid r \<longleftrightarrow>
     (r_session r = Some sid \<or> r_parent r = Some sid) \<and> r_state r = ''live''"

definition end_session :: "string \<Rightarrow> seconds \<Rightarrow> db \<Rightarrow> db" where
  "end_session sid t d =
     upd_runs (runs_of_session sid) (orphan_run t)
       (upd_sessions (\<lambda>s. s_id s = sid \<and> s_state s = ''active'')
          (\<lambda>s. s\<lparr>s_state := ''ended'', s_ended := Some t\<rparr>) d)"

definition reap_claim :: "claim_row \<Rightarrow> claim_row" where
  "reap_claim c = c\<lparr>c_status := ''unclaimed'', c_reason := Some ''reaped'', c_version := c_version c + 1\<rparr>"

definition requeue :: "seconds \<Rightarrow> work_row \<Rightarrow> work_row" where
  "requeue t w = w\<lparr>w_intent := ''queued'', w_updated := t, w_version := w_version w + 1\<rparr>"

fun reap_claims :: "seconds \<Rightarrow> claim_row list \<Rightarrow> db \<Rightarrow> db" where
  "reap_claims t [] d = d"
| "reap_claims t (c # cs) d =
     reap_claims t cs
       (upd_works (\<lambda>w. w_id w = c_work c \<and> \<not> terminal (w_intent w)) (requeue t)
          (upd_claims (\<lambda>x. c_id x = c_id c) reap_claim d))"

definition reap_one :: "seconds \<Rightarrow> string \<Rightarrow> db \<Rightarrow> db \<times> nat" where
  "reap_one t sid d =
     (let cs = filter (\<lambda>c. c_session c = sid \<and> held c) (d_claims d);
          d1 = reap_claims t cs d;
          d2 = upd_runs (runs_of_session sid) (orphan_run t) d1
      in (upd_sessions (\<lambda>s. s_id s = sid) (\<lambda>s. s\<lparr>s_state := ''reaped'', s_ended := Some t\<rparr>) d2,
          length cs))"

definition reapable ::
  "seconds \<Rightarrow> int list option \<Rightarrow> string list option \<Rightarrow> session_row \<Rightarrow> bool" where
  "reapable cutoff dead_pids dead_sessions s \<longleftrightarrow>
     s_state s = ''active'' \<and> s_pause s = None \<and> s_lease s < cutoff \<and>
     (case dead_sessions of
        Some ds \<Rightarrow> s_id s \<in> set ds
      | None \<Rightarrow> (case (dead_pids, s_pid s) of (Some dp, Some pid) \<Rightarrow> pid \<in> set dp | _ \<Rightarrow> True))"

fun reap_all :: "seconds \<Rightarrow> string list \<Rightarrow> db \<Rightarrow> db \<times> nat" where
  "reap_all t [] d = (d, 0)"
| "reap_all t (sid # sids) d =
     (let (d1, n) = reap_one t sid d; (d2, m) = reap_all t sids d1 in (d2, n + m))"

definition reap_zombie_sessions ::
  "seconds \<Rightarrow> seconds \<Rightarrow> int list option \<Rightarrow> string list option \<Rightarrow> db \<Rightarrow> db \<times> string list \<times> nat" where
  "reap_zombie_sessions t grace dead_pids dead_sessions d =
     (let sids = map s_id (filter (reapable (t - grace) dead_pids dead_sessions) (d_sessions d));
          (d', n) = reap_all t sids d
      in (d', sids, n))"

section \<open>Families\<close>

lemma related_contains_self:
  "strip sid \<noteq> [] \<Longrightarrow> strip sid \<in> set (related_session_ids lanes d sid actor)"
  by (simp add: related_session_ids_def Let_def)

lemma related_stripped: "i \<in> set (related_session_ids lanes d sid actor) \<Longrightarrow> strip i = i"
  by (auto simp: related_session_ids_def Let_def text_simps split: if_splits)

lemma related_Nil: "strip sid = [] \<Longrightarrow> related_session_ids lanes d sid actor = []"
  by (simp add: related_session_ids_def)

lemma related_same_lane:
  assumes "i \<in> set (related_session_ids lanes d sid actor)" "i \<noteq> strip sid"
  shows "\<exists>s \<in> set (d_sessions d). strip (s_id s) = i \<and> s_actor s = family_actor d (strip sid) actor"
  using assms by (auto simp: related_session_ids_def Let_def split: if_splits)

text \<open>The columns a family is read from: identifier, lane and external thread.\<close>

definition identity_view :: "db \<Rightarrow> (string \<times> string \<times> string option) list" where
  "identity_view d = map (\<lambda>s. (s_id s, s_actor s, s_thread s)) (d_sessions d)"

lemma find_view:
  "map (\<lambda>s. (s_id s, s_actor s, s_thread s)) xs = map (\<lambda>s. (s_id s, s_actor s, s_thread s)) ys \<Longrightarrow>
   rel_option (\<lambda>a b. s_actor a = s_actor b \<and> s_thread a = s_thread b)
     (find (\<lambda>s. s_id s = i) xs) (find (\<lambda>s. s_id s = i) ys)"
proof (induction xs arbitrary: ys)
  case Nil
  then show ?case by simp
next
  case (Cons x xs)
  then show ?case by (cases ys) auto
qed

lemma filter_map_view:
  "map v xs = map v ys \<Longrightarrow> map (\<lambda>x. g (v x)) (filter (\<lambda>x. q (v x)) xs) = map (\<lambda>x. g (v x)) (filter (\<lambda>x. q (v x)) ys)"
proof (induction xs arbitrary: ys)
  case Nil
  then show ?case by simp
next
  case (Cons x xs)
  then show ?case by (cases ys) auto
qed

lemma related_view_only:
  assumes "identity_view d = identity_view d'"
  shows "related_session_ids lanes d sid actor = related_session_ids lanes d' sid actor"
proof -
  let ?i = "strip sid"
  have r: "rel_option (\<lambda>a b. s_actor a = s_actor b \<and> s_thread a = s_thread b) (sess d ?i) (sess d' ?i)"
    using assms unfolding identity_view_def sess_def by (rule find_view)
  then have act: "family_actor d ?i actor = family_actor d' ?i actor"
    by (cases "sess d ?i"; cases "sess d' ?i") (auto simp: family_actor_def)
  have thr: "thread_of d ?i = thread_of d' ?i"
    using r by (cases "sess d ?i"; cases "sess d' ?i") (auto simp: thread_of_def)
  have "map (\<lambda>s. strip (s_id s)) (filter (\<lambda>s. s_actor s = a \<and> alias_of ?i a suf th s) (d_sessions d)) =
        map (\<lambda>s. strip (s_id s)) (filter (\<lambda>s. s_actor s = a \<and> alias_of ?i a suf th s) (d_sessions d'))"
    for a suf th
    using filter_map_view [of "\<lambda>s. (s_id s, s_actor s, s_thread s)" "d_sessions d" "d_sessions d'"
        "\<lambda>(i, _, _). strip i"
        "\<lambda>(i, b, t). b = a \<and> (strip i \<in> set [?i, suf, a @ '':'' @ suf] \<or>
            (suf \<noteq> [] \<and> suffix ('':'' @ suf) (strip i)) \<or> (th \<noteq> [] \<and> clean t = th))"]
      assms by (simp add: identity_view_def alias_of_def Let_def case_prod_beta)
  then show ?thesis
    by (simp add: related_session_ids_def Let_def act thr)
qed

text \<open>What the claim operations rely on when they ask who owns a claim.\<close>

locale session_family =
  fixes family :: "'d \<Rightarrow> string \<Rightarrow> string option \<Rightarrow> string list"
  assumes family_self: "strip sid \<noteq> [] \<Longrightarrow> strip sid \<in> set (family d sid a)"
    and family_clean: "i \<in> set (family d sid a) \<Longrightarrow> strip i = i"
begin

definition holds :: "'d \<Rightarrow> string \<Rightarrow> string option \<Rightarrow> string \<Rightarrow> bool" where
  "holds d caller a holder \<longleftrightarrow> holder = caller \<or> holder \<in> set (family d caller a)"

lemma holder_acts: "holds d sid a sid"
  by (simp add: holds_def)

lemma stranger_refused: "holder \<noteq> caller \<Longrightarrow> strip holder \<noteq> holder \<Longrightarrow> \<not> holds d caller a holder"
  using family_clean by (auto simp: holds_def)

end

interpretation related: session_family "related_session_ids lanes" for lanes
  by unfold_locales (simp_all add: related_contains_self related_stripped)

section \<open>Renewal, registration and ending keep the constraints\<close>

interpretation renew_update: claim_update p "renew_claim t lease" for p t lease
  by unfold_locales (auto simp: renew_claim_def held_def)

interpretation reap_update: claim_update p reap_claim for p
  by unfold_locales (auto simp: reap_claim_def held_def held_statuses_def)

lemma wf_renew: "wf_db d \<Longrightarrow> wf_db (renew_sessions_and_claims ids t lease d)"
  by (simp add: renew_sessions_and_claims_def Let_def renew_session_def renew_update.wf wf_upd_sessions)

lemma wf_register_session:
  assumes "wf_db d" "register_session lanes probe host g t d = Inr (d', x)"
  shows "wf_db d'"
proof -
  have refreshed: "wf_db (upd_sessions (\<lambda>s. s_id s = g_session g) (refreshed_session_row g a ps t) d)" for a ps
    using assms(1) by (intro wf_upd_sessions) (auto simp: refreshed_session_row_def)
  show ?thesis
    using assms refreshed
    by (auto simp: register_session_def Let_def bindE_Inr_iff split: if_splits option.splits
        intro!: wf_renew dest: wf_insert_session)
qed

lemma wf_end_session: "wf_db d \<Longrightarrow> wf_db (end_session sid t d)"
  by (simp add: end_session_def orphan_run_def wf_upd_runs wf_upd_sessions)

lemma renew_works [table_simps]: "d_works (renew_sessions_and_claims ids t lease d) = d_works d"
  by (simp add: renew_sessions_and_claims_def Let_def table_simps)

lemma renew_claims:
  "d_claims (renew_sessions_and_claims ids t lease d) =
     upd_where (\<lambda>c. c_session c \<in> set (filter (\<lambda>i. i \<noteq> []) (map strip ids)) \<and> held c)
       (renew_claim t lease) (d_claims d)"
proof (cases "filter (\<lambda>i. i \<noteq> []) (map strip ids) = []")
  case True
  then show ?thesis
    by (simp add: renew_sessions_and_claims_def Let_def upd_where_none)
next
  case False
  then show ?thesis
    by (simp add: renew_sessions_and_claims_def Let_def table_simps)
qed

section \<open>Reaping\<close>

lemma reap_claims_wf: "wf_db d \<Longrightarrow> wf_db (reap_claims t cs d)"
  by (induction cs arbitrary: d) (simp_all add: requeue_def wf_upd_works reap_update.wf)

lemma reap_claims_works: "works_lapse d (reap_claims t cs d)"
proof (induction cs arbitrary: d)
  case Nil
  then show ?case by simp
next
  case (Cons c cs)
  let ?d = "upd_works (\<lambda>w. w_id w = c_work c \<and> \<not> terminal (w_intent w)) (requeue t)
              (upd_claims (\<lambda>x. c_id x = c_id c) reap_claim d)"
  have "works_lapse d (upd_claims (\<lambda>x. c_id x = c_id c) reap_claim d)"
    by (simp add: works_lapse_same table_simps)
  moreover have "works_lapse \<dots> ?d"
    by (rule works_lapse_upd) (auto simp: lapse_def requeue_def)
  ultimately have "works_lapse d ?d" by (rule works_lapse_trans)
  from works_lapse_trans [OF this Cons.IH] show ?case by simp
qed

lemma reap_claims_claims:
  "distinct (map c_id cs) \<Longrightarrow>
   d_claims (reap_claims t cs d) = upd_where (\<lambda>c. c_id c \<in> c_id ` set cs) reap_claim (d_claims d)"
proof (induction cs arbitrary: d)
  case Nil
  then show ?case by (simp add: upd_where_none)
next
  case (Cons c cs)
  have "upd_where (\<lambda>x. c_id x \<in> c_id ` set cs) reap_claim
          (upd_where (\<lambda>x. c_id x = c_id c) reap_claim (d_claims d)) =
        upd_where (\<lambda>x. c_id x = c_id c \<or> c_id x \<in> c_id ` set cs) reap_claim (d_claims d)"
    using Cons.prems by (intro upd_where_twice) (auto simp: reap_claim_def)
  then show ?case using Cons by (simp add: table_simps)
qed

lemma reap_claims_sessions [table_simps]: "d_sessions (reap_claims t cs d) = d_sessions d"
  by (induction cs arbitrary: d) (auto simp: table_simps)

lemma ids_of_filter:
  assumes "distinct (map c_id xs)" "c \<in> set xs"
  shows "c_id c \<in> c_id ` set (filter p xs) \<longleftrightarrow> p c"
  using assms by (auto simp: distinct_map inj_on_def)

lemma reap_one_claims:
  assumes "keys_ok d"
  shows "d_claims (fst (reap_one t sid d)) =
           upd_where (\<lambda>c. c_session c = sid \<and> held c) reap_claim (d_claims d)"
proof -
  have d: "distinct (map c_id (d_claims d))" using assms by (simp add: keys_ok_def)
  then have "distinct (map c_id (filter (\<lambda>c. c_session c = sid \<and> held c) (d_claims d)))"
    by (simp add: distinct_map_filter)
  then show ?thesis
    using ids_of_filter [OF d]
    by (simp add: reap_one_def Let_def table_simps reap_claims_claims cong: upd_where_cong)
qed

lemma wf_reap_one: "wf_db d \<Longrightarrow> wf_db (fst (reap_one t sid d))"
  by (simp add: reap_one_def Let_def orphan_run_def wf_upd_sessions wf_upd_runs reap_claims_wf)

lemma wf_keys: "wf_db d \<Longrightarrow> keys_ok d"
  by (simp add: wf_db_def)

lemma reap_all_wf: "wf_db d \<Longrightarrow> wf_db (fst (reap_all t sids d))"
  by (induction sids arbitrary: d) (auto simp: Let_def case_prod_beta intro: wf_reap_one)

lemma reap_all_claims:
  "wf_db d \<Longrightarrow> d_claims (fst (reap_all t sids d)) =
     upd_where (\<lambda>c. c_session c \<in> set sids \<and> held c) reap_claim (d_claims d)"
proof (induction sids arbitrary: d)
  case Nil
  then show ?case by (simp add: upd_where_none)
next
  case (Cons sid sids)
  have "upd_where (\<lambda>c. c_session c \<in> set sids \<and> held c) reap_claim
          (upd_where (\<lambda>c. c_session c = sid \<and> held c) reap_claim (d_claims d)) =
        upd_where (\<lambda>c. (c_session c = sid \<and> held c) \<or> (c_session c \<in> set sids \<and> held c)) reap_claim (d_claims d)"
    by (rule upd_where_twice) (auto simp: reap_claim_def held_def held_statuses_def)
  also have "\<dots> = upd_where (\<lambda>c. c_session c \<in> set (sid # sids) \<and> held c) reap_claim (d_claims d)"
    by (rule upd_where_cong) auto
  finally show ?case
    using Cons.IH [OF wf_reap_one [OF Cons.prems]] reap_one_claims [OF wf_keys [OF Cons.prems]]
    by (simp add: Let_def case_prod_beta)
qed

lemma reap_all_works: "works_lapse d (fst (reap_all t sids d))"
proof (induction sids arbitrary: d)
  case Nil
  then show ?case by simp
next
  case (Cons sid sids)
  have "works_lapse (reap_claims t (filter (\<lambda>c. c_session c = sid \<and> held c) (d_claims d)) d) (fst (reap_one t sid d))"
    by (simp add: reap_one_def Let_def works_lapse_same table_simps)
  then have "works_lapse d (fst (reap_one t sid d))"
    using reap_claims_works works_lapse_trans by blast
  with Cons.IH show ?case
    by (auto simp: Let_def case_prod_beta intro: works_lapse_trans)
qed

lemma reap_one_sessions:
  "d_sessions (fst (reap_one t sid d)) =
     upd_where (\<lambda>s. s_id s = sid) (\<lambda>s. s\<lparr>s_state := ''reaped'', s_ended := Some t\<rparr>) (d_sessions d)"
  by (simp add: reap_one_def Let_def table_simps)

lemma reap_all_sessions:
  "d_sessions (fst (reap_all t sids d)) =
     upd_where (\<lambda>s. s_id s \<in> set sids) (\<lambda>s. s\<lparr>s_state := ''reaped'', s_ended := Some t\<rparr>) (d_sessions d)"
proof (induction sids arbitrary: d)
  case Nil
  then show ?case by (simp add: upd_where_none)
next
  case (Cons sid sids)
  let ?f = "\<lambda>s. s\<lparr>s_state := ''reaped'', s_ended := Some t\<rparr>"
  have "upd_where (\<lambda>s. s_id s \<in> set sids) ?f (upd_where (\<lambda>s. s_id s = sid) ?f xs) =
        upd_where (\<lambda>s. s_id s \<in> set (sid # sids)) ?f xs" for xs
    by (induction xs) auto
  with Cons show ?case by (simp add: Let_def case_prod_beta reap_one_sessions)
qed

section \<open>The row a registration leaves\<close>

lemma sess_renew_one:
  assumes "sess d i = Some s" "s_lease s = t + lease"
  shows "\<exists>s'. sess (renew_sessions_and_claims ids t lease d) i = Some s' \<and>
           s_actor s' = s_actor s \<and> s_state s' = s_state s \<and> s_lease s' = t + lease"
proof -
  have "sess (upd_claims p f (upd_sessions q (renew_session t lease) d)) i =
      Some (if q s then renew_session t lease s else s)" for p f q
    using assms(1) find_upd_where [of q s_id "renew_session t lease" i "d_sessions d"]
    by (simp add: sess_def table_simps renew_session_def)
  then show ?thesis
    using assms by (auto simp: renew_sessions_and_claims_def Let_def renew_session_def)
qed

lemma register_session_row:
  assumes "register_session lanes probe host g t d = Inr (d', sid)"
  shows "sid = g_session g \<and> session_actor_ok sid (norm (g_actor g)) \<and>
    (\<forall>s. sess d sid = Some s \<and> strip (s_actor s) \<noteq> [] \<longrightarrow> strip (s_actor s) = norm (g_actor g)) \<and>
    (\<exists>s. sess d' sid = Some s \<and> s_actor s = norm (g_actor g) \<and> s_state s = ''active'' \<and> s_lease s = t + g_lease g)"
proof -
  let ?a = "norm (g_actor g)" and ?i = "g_session g"
  have ok: "sid = ?i" "session_actor_ok ?i ?a"
    using assms by (auto simp: register_session_def Let_def bindE_Inr_iff split: if_split_asm)
  have same: "strip (s_actor s) \<noteq> [] \<longrightarrow> strip (s_actor s) = ?a" if "sess d ?i = Some s" for s
    using assms that by (auto simp: register_session_def Let_def split: if_split_asm)
  obtain ps d1 where d1: "d' = renew_sessions_and_claims (related_session_ids lanes d1 ?i (Some ?a)) t (g_lease g) d1"
    "(case sess d ?i of
        None \<Rightarrow> insert_session (new_session_row g ?a ps host t) d = Inr d1
      | Some s \<Rightarrow> d1 = upd_sessions (\<lambda>s. s_id s = ?i) (refreshed_session_row g ?a ps t) d)"
    using assms by (auto simp: register_session_def Let_def bindE_Inr_iff split: if_split_asm option.splits)
  have "\<exists>s. sess d1 ?i = Some s \<and> s_actor s = ?a \<and> s_state s = ''active'' \<and> s_lease s = t + g_lease g"
  proof (cases "sess d ?i")
    case None
    then have "d1 = d\<lparr>d_sessions := d_sessions d @ [new_session_row g ?a ps host t]\<rparr>"
      using d1(2) by (simp add: insert_session_def new_session_row_def split: if_split_asm)
    with None show ?thesis by (simp add: sess_def find_append new_session_row_def)
  next
    case (Some s)
    then have "d1 = upd_sessions (\<lambda>s. s_id s = ?i) (refreshed_session_row g ?a ps t) d" using d1(2) by simp
    moreover have "s_id s = ?i" using Some find_SomeD unfolding sess_def by fastforce
    ultimately show ?thesis
      using Some find_upd_where [of "\<lambda>s. s_id s = ?i" s_id "refreshed_session_row g ?a ps t" ?i "d_sessions d"]
      by (simp add: sess_def table_simps refreshed_session_row_def)
  qed
  then show ?thesis
    using sess_renew_one [of d1 ?i _ t "g_lease g"] ok same d1(1) by metis
qed

end
