(* ===== verification/Leases.thy ===== *)
theory Leases
  imports Sessions
begin

text \<open>
  Leases on claims (coord_db.py): releasing the expired ones, singly and as a batch with a
  receipt event, renewing a claim from its job sidecar or from live fleets, and finding the
  claim a job or a session family is bound to.
\<close>

section \<open>Releasing expired claims\<close>

record released_row =
  l_claim :: string
  l_work :: string
  l_session :: string
  l_prior_status :: string
  l_expires :: seconds
  l_prior_state :: string
  l_result_state :: string
  l_requeued :: bool
  l_other_live :: bool
  l_sticky :: bool

definition expired_at :: "seconds \<Rightarrow> string option \<Rightarrow> claim_row \<Rightarrow> bool" where
  "expired_at t work c \<longleftrightarrow> held c \<and> c_expires c < t \<and>
     (case work of None \<Rightarrow> True | Some w \<Rightarrow> w = [] \<or> c_work c = w)"

definition expire_claim :: "claim_row \<Rightarrow> claim_row" where
  "expire_claim c = c\<lparr>c_status := ''unclaimed'', c_reason := Some ''expired'', c_version := c_version c + 1\<rparr>"

definition sticky :: "work_row option \<Rightarrow> bool" where
  "sticky w = (case w of None \<Rightarrow> False
     | Some r \<Rightarrow> lower (strip (w_intent r)) \<in> set [''blocked'', ''paused''] \<or> clean (w_reason r) \<noteq> [])"

definition other_live :: "seconds \<Rightarrow> claim_row \<Rightarrow> db \<Rightarrow> bool" where
  "other_live t c d \<longleftrightarrow>
     (\<exists>x \<in> set (d_claims d). c_work x = c_work c \<and> c_id x \<noteq> c_id c \<and> held x \<and> t \<le> c_expires x)"

definition intent_of :: "db \<Rightarrow> string \<Rightarrow> string" where
  "intent_of d i = (case workd d i of None \<Rightarrow> [] | Some w \<Rightarrow> w_intent w)"

definition requeueable :: "string \<Rightarrow> work_row \<Rightarrow> bool" where
  "requeueable i w \<longleftrightarrow> w_id w = i \<and> w_intent w \<noteq> ''queued'' \<and> \<not> terminal (w_intent w)"

text \<open>The body of the loop for one row of the SELECT.\<close>

definition release_one :: "seconds \<Rightarrow> claim_row \<Rightarrow> db \<Rightarrow> db \<times> released_row option" where
  "release_one t row d =
     (let same = (\<lambda>c. c_id c = c_id row \<and> c_version c = c_version row \<and>
                    c_status c = c_status row \<and> c_expires c = c_expires row \<and> c_expires c < t)
      in if row_count same (d_claims d) \<noteq> 1 then (d, None)
         else let d1 = upd_claims same expire_claim d;
                  live = other_live t row d1;
                  before = workd d1 (c_work row);
                  stick = sticky before;
                  go = (\<not> live \<and> \<not> stick);
                  d2 = (if go then upd_works (requeueable (c_work row)) (requeue t) d1 else d1);
                  requeued = (go \<and> row_count (requeueable (c_work row)) (d_works d1) = 1)
              in (d2, Some \<lparr>l_claim = c_id row, l_work = c_work row, l_session = c_session row,
                    l_prior_status = c_status row, l_expires = c_expires row,
                    l_prior_state = intent_of d1 (c_work row), l_result_state = intent_of d2 (c_work row),
                    l_requeued = requeued, l_other_live = live, l_sticky = stick\<rparr>))"

fun release_rows :: "seconds \<Rightarrow> claim_row list \<Rightarrow> db \<Rightarrow> db \<times> released_row list" where
  "release_rows t [] d = (d, [])"
| "release_rows t (row # rows) d =
     (let (d1, out) = release_one t row d; (d2, outs) = release_rows t rows d1
      in (d2, (case out of None \<Rightarrow> outs | Some r \<Rightarrow> r # outs)))"

definition expired_rows :: "seconds \<Rightarrow> string option \<Rightarrow> db \<Rightarrow> claim_row list" where
  "expired_rows t work d =
     sort_key (\<lambda>c. (c_expires c, c_id c)) (filter (expired_at t work) (d_claims d))"

definition release_expired_claims_unlocked ::
  "seconds \<Rightarrow> string option \<Rightarrow> db \<Rightarrow> db \<times> released_row list" where
  "release_expired_claims_unlocked t work d = release_rows t (expired_rows t work d) d"

definition release_expired_claims :: "seconds \<Rightarrow> string option \<Rightarrow> db \<Rightarrow> db \<times> nat" where
  "release_expired_claims t work d =
     (let (d', out) = release_expired_claims_unlocked t work d in (d', length out))"

definition released_json :: "released_row \<Rightarrow> json" where
  "released_json r = JObj [
     (''claim_id'', JStr (l_claim r)), (''expires_at'', JFloat (l_expires r)),
     (''other_live_claim_preserved'', JBool (l_other_live r)),
     (''prior_claim_status'', JStr (l_prior_status r)), (''prior_work_state'', JStr (l_prior_state r)),
     (''result_work_state'', JStr (l_result_state r)), (''session_id'', JStr (l_session r)),
     (''sticky_disposition_preserved'', JBool (l_sticky r)), (''work_id'', JStr (l_work r)),
     (''work_requeued'', JBool (l_requeued r))]"

definition batch_payload :: "lib \<Rightarrow> seconds \<Rightarrow> released_row list \<Rightarrow> json" where
  "batch_payload L t rows = JObj [
     (''observed_at'', JFloat t),
     (''other_live_claim_preserved_count'', JInt (int (row_count l_other_live rows))),
     (''released_count'', JInt (int (length rows))),
     (''released_rows_sha256'', JStr (digest L (JList (map released_json rows)))),
     (''sample_work_ids'', JList (map JStr (take 20 (sort (remdups (map l_work rows)))))),
     (''schema'', JStr ''coordharness.stale-claim-auto-release.v1''),
     (''sticky_disposition_preserved_count'', JInt (int (row_count l_sticky rows))),
     (''terminal_or_queued_preserved_count'',
        JInt (int (row_count (\<lambda>r. \<not> l_requeued r \<and> \<not> l_other_live r) rows))),
     (''work_requeued_count'', JInt (int (row_count l_requeued rows)))]"

definition release_expired_claims_batch ::
  "lib \<Rightarrow> seconds \<Rightarrow> db \<Rightarrow> err + (db \<times> released_row list \<times> int option)" where
  "release_expired_claims_batch L t d =
     (let (d1, rows) = release_expired_claims_unlocked t None d in
      if rows = [] then Inr (d1, rows, None)
      else bindE (insert_event (blank_event\<lparr>e_ts := t, e_kind := ''stale_claim_batch_release'',
                    e_actor := Some ''coord'',
                    e_body := Some (''released '' @ digits_of (length rows) @ '' expired held claim(s)''),
                    e_payload := batch_payload L t rows,
                    e_key := Some (''stale-claim-batch:'' @ digest L (JList (map released_json rows)))\<rparr>) d1)
             (\<lambda>(d2, i). Inr (d2, rows, Some i)))"

section \<open>Renewal by evidence of work\<close>

definition renew_claim_from_sidecar ::
  "string \<Rightarrow> string \<Rightarrow> string \<Rightarrow> seconds \<Rightarrow> seconds \<Rightarrow> db \<Rightarrow> err + (db \<times> bool)" where
  "renew_claim_from_sidecar claim work session lease t d =
     (let cid = strip claim; wid = strip work; sid = strip session in
      if cid = [] \<or> wid = [] \<or> sid = [] then Inl (ValueErr ''sidecar renewal needs ids'')
      else if lease \<le> 0 then Inl (ValueErr ''lease must be positive'')
      else let p = (\<lambda>c. c_id c = cid \<and> c_work c = wid \<and> c_session c = sid \<and>
                     c_status c = ''running'' \<and> t < c_expires c)
        in Inr (upd_claims p (renew_claim t lease) d, row_count p (d_claims d) = 1))"

text \<open>The two most recent live claims are fetched, and a binding exists only if there is one.\<close>

definition running_claim_binding :: "string \<Rightarrow> seconds \<Rightarrow> db \<Rightarrow> err + claim_row option" where
  "running_claim_binding work t d =
     (let wid = strip work in
      if wid = [] then Inl (ValueErr ''binding needs work_id'')
      else let rows = take 2 (rev (sort_key c_acquired
                 (filter (\<lambda>c. c_work c = wid \<and> c_status c = ''running'' \<and> t < c_expires c) (d_claims d))))
        in Inr (case rows of [c] \<Rightarrow> Some c | _ \<Rightarrow> None))"

definition held_claim_id_for_session_family ::
  "string list \<Rightarrow> string \<Rightarrow> string option \<Rightarrow> string option \<Rightarrow> db \<Rightarrow> string option" where
  "held_claim_id_for_session_family lanes work session actor d =
     (let wid = strip work; sid = clean session in
      if wid = [] then None
      else let related = related_session_ids lanes d sid actor;
               mine = (\<lambda>c. sid = [] \<or> c_session c \<in> set (if related = [] then [sid] else related))
        in map_option c_id (select_max c_heartbeat (\<lambda>c. c_work c = wid \<and> held c \<and> mine c) (d_claims d)))"

definition fleet_live :: "db \<Rightarrow> string \<Rightarrow> bool" where
  "fleet_live d w \<longleftrightarrow> (\<exists>r \<in> set (d_runs d). r_work r = Some w \<and> r_state r = ''live'' \<and>
     r_kind r \<in> set [''subagent'', ''workflow''])"

fun renew_fleet_rows :: "seconds \<Rightarrow> seconds \<Rightarrow> claim_row list \<Rightarrow> db \<Rightarrow> db \<times> claim_row list" where
  "renew_fleet_rows t lease [] d = (d, [])"
| "renew_fleet_rows t lease (row # rows) d =
     (let p = (\<lambda>c. c_id c = c_id row \<and> c_status c = ''running'' \<and> fleet_live d (c_work c)) in
      if row_count p (d_claims d) \<noteq> 1 then renew_fleet_rows t lease rows d
      else let (d', out) = renew_fleet_rows t lease rows (upd_claims p (renew_claim t lease) d)
           in (d', row # out))"

definition fleet_row_json :: "seconds \<Rightarrow> claim_row \<Rightarrow> json" where
  "fleet_row_json expires c = JObj [(''claim_id'', JStr (c_id c)), (''expires_at'', JFloat expires),
     (''prior_expires_at'', JFloat (c_expires c)), (''session_id'', JStr (c_session c)),
     (''work_id'', JStr (c_work c))]"

definition renew_claims_from_live_fleets ::
  "lib \<Rightarrow> seconds \<Rightarrow> seconds \<Rightarrow> db \<Rightarrow> err + (db \<times> claim_row list \<times> int option)" where
  "renew_claims_from_live_fleets L t lease d =
     (if lease \<le> 0 then Inl (ValueErr ''lease_s must be positive'')
      else let cands = sort_key (\<lambda>c. (c_expires c, c_id c))
                 (filter (\<lambda>c. c_status c = ''running'' \<and> c_expires c < t + lease / 2 \<and>
                    fleet_live d (c_work c)) (d_claims d));
               (d1, rows) = renew_fleet_rows t lease cands d;
               sha = digest L (JList (map (fleet_row_json (t + lease)) rows))
        in if rows = [] then Inr (d1, rows, None)
           else bindE (insert_event (blank_event\<lparr>e_ts := t, e_kind := ''fleet_claim_lease_renewal'',
                    e_actor := Some ''coord'',
                    e_body := Some (''renewed '' @ digits_of (length rows) @ '' fleet-backed claim lease(s)''),
                    e_payload := JObj [(''lease_s'', JFloat lease), (''observed_at'', JFloat t),
                      (''renewed_count'', JInt (int (length rows))), (''renewed_rows_sha256'', JStr sha),
                      (''sample_work_ids'', JList (map JStr (take 20 (sort (remdups (map c_work rows)))))),
                      (''schema'', JStr ''coordharness.fleet-backed-claim-renewal.v1'')],
                    e_key := Some (''fleet-claim-renewal:'' @ sha)\<rparr>) d1)
                (\<lambda>(d2, i). Inr (d2, rows, Some i)))"

section \<open>The release keeps the constraints\<close>

interpretation expire_update: claim_update p expire_claim for p
  by unfold_locales (auto simp: expire_claim_def held_def held_statuses_def)

lemma requeue_lapse: "requeueable i w \<Longrightarrow> lapse w (requeue t w)"
  by (simp add: requeueable_def lapse_def requeue_def)

lemma requeue_id [simp]: "w_id (requeue t w) = w_id w"
  by (simp add: requeue_def)

lemma wf_release_one: "wf_db d \<Longrightarrow> wf_db (fst (release_one t row d))"
  by (simp add: release_one_def Let_def expire_update.wf wf_upd_works)

lemma wf_release_rows: "wf_db d \<Longrightarrow> wf_db (fst (release_rows t rows d))"
  by (induction rows arbitrary: d) (simp_all add: Let_def case_prod_beta wf_release_one)

lemma wf_release_expired: "wf_db d \<Longrightarrow> wf_db (fst (release_expired_claims_unlocked t work d))"
  by (simp add: release_expired_claims_unlocked_def wf_release_rows)

lemma release_one_lapse: "works_lapse d (fst (release_one t row d))"
proof -
  have "works_lapse d1 (upd_works (requeueable i) (requeue t) d1)" for d1 i
    by (rule works_lapse_upd) (rule requeue_lapse)
  moreover have "works_lapse d (upd_claims p expire_claim d)" for p
    by (rule works_lapse_same) (simp add: table_simps)
  ultimately have "works_lapse d (upd_works (requeueable i) (requeue t) (upd_claims p expire_claim d))" for p i
    using works_lapse_trans by blast
  then show ?thesis
    using \<open>\<And>p. works_lapse d (upd_claims p expire_claim d)\<close>
    by (simp add: release_one_def Let_def)
qed

lemma release_rows_lapse: "works_lapse d (fst (release_rows t rows d))"
proof (induction rows arbitrary: d)
  case Nil
  then show ?case by simp
next
  case (Cons row rows)
  from works_lapse_trans [OF release_one_lapse Cons.IH]
  show ?case by (simp add: Let_def case_prod_beta)
qed

lemma release_expired_lapse: "works_lapse d (fst (release_expired_claims_unlocked t work d))"
  by (simp add: release_expired_claims_unlocked_def release_rows_lapse)

lemma row_count_one:
  assumes "distinct (map k xs)" "x \<in> set xs" "p x" "\<And>y. p y \<Longrightarrow> k y = k x"
  shows "row_count p xs = 1"
proof -
  have none: "filter p ys = []" if "k x \<notin> k ` set ys" for ys
    using that assms(4) by (auto simp: filter_empty_conv image_iff)
  have "filter p xs = [x]"
    using assms(1,2)
  proof (induction xs)
    case Nil
    then show ?case by simp
  next
    case (Cons y ys)
    show ?case
    proof (cases "y = x")
      case True
      with Cons.prems assms(3) none [of ys] show ?thesis by simp
    next
      case False
      with Cons.prems have "x \<in> set ys" by simp
      moreover from this have "\<not> p y" using Cons.prems(1) assms(4) [of y] by auto
      ultimately show ?thesis using Cons by simp
    qed
  qed
  then show ?thesis by (simp add: row_count_def)
qed

text \<open>One row of the loop: the row is expired in place.\<close>

lemma release_one_claims:
  assumes "keys_ok d" "row \<in> set (d_claims d)" "c_expires row < t"
  shows "d_claims (fst (release_one t row d)) =
           upd_where (\<lambda>c. c_id c = c_id row) expire_claim (d_claims d)"
    and "\<exists>r. snd (release_one t row d) = Some r \<and> l_claim r = c_id row"
proof -
  let ?same = "\<lambda>c. c_id c = c_id row \<and> c_version c = c_version row \<and>
      c_status c = c_status row \<and> c_expires c = c_expires row \<and> c_expires c < t"
  have d: "distinct (map c_id (d_claims d))" using assms(1) by (simp add: keys_ok_def)
  have n: "row_count ?same (d_claims d) = 1"
    using d assms(2,3) by (intro row_count_one [of c_id _ row]) auto
  have "\<And>c. c \<in> set (d_claims d) \<Longrightarrow> c_id c = c_id row \<Longrightarrow> c = row"
    using d assms(2) by (auto simp: distinct_map dest: inj_onD)
  then have "upd_where ?same expire_claim (d_claims d) =
      upd_where (\<lambda>c. c_id c = c_id row) expire_claim (d_claims d)"
    using assms(3) by (intro upd_where_cong) auto
  then show "d_claims (fst (release_one t row d)) =
      upd_where (\<lambda>c. c_id c = c_id row) expire_claim (d_claims d)"
    using n by (simp add: release_one_def Let_def table_simps)
  show "\<exists>r. snd (release_one t row d) = Some r \<and> l_claim r = c_id row"
    using n by (simp add: release_one_def Let_def)
qed

lemma release_rows_claims:
  assumes "wf_db d" "distinct (map c_id rows)" "\<forall>r \<in> set rows. r \<in> set (d_claims d) \<and> c_expires r < t"
  shows "d_claims (fst (release_rows t rows d)) =
           upd_where (\<lambda>c. c_id c \<in> c_id ` set rows) expire_claim (d_claims d) \<and>
         map l_claim (snd (release_rows t rows d)) = map c_id rows"
  using assms
proof (induction rows arbitrary: d)
  case Nil
  then show ?case by (simp add: upd_where_none)
next
  case (Cons row rows)
  let ?d = "fst (release_one t row d)"
  have k: "keys_ok d" using Cons.prems(1) by (rule wf_keys)
  have row: "row \<in> set (d_claims d)" "c_expires row < t" using Cons.prems(3) by auto
  note one = release_one_claims [OF k row]
  have mem: "\<forall>r \<in> set rows. r \<in> set (d_claims ?d) \<and> c_expires r < t"
  proof
    fix r
    assume r: "r \<in> set rows"
    then have "c_id r \<noteq> c_id row" using Cons.prems(2) by (metis distinct.simps(2) image_eqI list.simps(9) set_map)
    with r Cons.prems(3) show "r \<in> set (d_claims ?d) \<and> c_expires r < t"
      by (auto simp: one(1) table_simps)
  qed
  have "upd_where (\<lambda>c. c_id c \<in> c_id ` set rows) expire_claim
          (upd_where (\<lambda>c. c_id c = c_id row) expire_claim (d_claims d)) =
        upd_where (\<lambda>c. c_id c = c_id row \<or> c_id c \<in> c_id ` set rows) expire_claim (d_claims d)"
    using Cons.prems(2) by (intro upd_where_twice) (auto simp: expire_claim_def)
  with Cons.IH [OF wf_release_one [OF Cons.prems(1)] _ mem] Cons.prems(2) one show ?case
    by (auto simp: Let_def case_prod_beta)
qed

lemma expired_rows_facts:
  assumes "keys_ok d"
  shows "distinct (map c_id (expired_rows t work d))"
    and "set (expired_rows t work d) = {c \<in> set (d_claims d). expired_at t work c}"
proof -
  have "distinct (map c_id (filter (expired_at t work) (d_claims d)))"
    using assms by (simp add: keys_ok_def distinct_map_filter)
  then show "distinct (map c_id (expired_rows t work d))"
    by (simp add: expired_rows_def distinct_map)
  show "set (expired_rows t work d) = {c \<in> set (d_claims d). expired_at t work c}"
    by (auto simp: expired_rows_def)
qed

text \<open>The whole loop is one update of the claims table.\<close>

lemma release_expired_claims_table:
  assumes "wf_db d"
  shows "d_claims (fst (release_expired_claims_unlocked t work d)) =
           upd_where (expired_at t work) expire_claim (d_claims d)"
    and "map l_claim (snd (release_expired_claims_unlocked t work d)) = map c_id (expired_rows t work d)"
proof -
  have k: "keys_ok d" using assms by (rule wf_keys)
  note f = expired_rows_facts [OF k, of t work]
  have "\<forall>r \<in> set (expired_rows t work d). r \<in> set (d_claims d) \<and> c_expires r < t"
    using f(2) by (auto simp: expired_at_def)
  note r = release_rows_claims [OF assms f(1) this]
  have "\<And>c. c \<in> set (d_claims d) \<Longrightarrow> c_id c \<in> c_id ` set (expired_rows t work d) \<longleftrightarrow> expired_at t work c"
    using k unfolding f(2) by (auto simp: keys_ok_def distinct_map dest: inj_onD)
  then show "d_claims (fst (release_expired_claims_unlocked t work d)) =
      upd_where (expired_at t work) expire_claim (d_claims d)"
    using r by (simp add: release_expired_claims_unlocked_def cong: upd_where_cong)
  show "map l_claim (snd (release_expired_claims_unlocked t work d)) = map c_id (expired_rows t work d)"
    using r by (simp add: release_expired_claims_unlocked_def)
qed

lemma expire_claim_not_held [simp]: "\<not> held (expire_claim c)"
  by (simp add: expire_claim_def held_def held_statuses_def)

lemma release_expired_none_left:
  assumes "wf_db d" "c \<in> set (d_claims (fst (release_expired_claims_unlocked t work d)))"
  shows "\<not> expired_at t work c"
  using assms(2) unfolding release_expired_claims_table(1) [OF assms(1)]
  by (auto simp: expired_at_def dest!: in_upd_whereD split: if_splits)

lemma release_one_frames:
  "d_sessions (fst (release_one t row d)) = d_sessions d"
  "d_runs (fst (release_one t row d)) = d_runs d"
  "d_events (fst (release_one t row d)) = d_events d"
  "d_next_event (fst (release_one t row d)) = d_next_event d"
  by (simp_all add: release_one_def Let_def table_simps) (simp add: upd_works_def upd_claims_def)

lemma release_rows_frames:
  "d_sessions (fst (release_rows t rows d)) = d_sessions d \<and>
   d_runs (fst (release_rows t rows d)) = d_runs d \<and>
   d_events (fst (release_rows t rows d)) = d_events d \<and>
   d_next_event (fst (release_rows t rows d)) = d_next_event d"
  by (induction rows arbitrary: d) (simp_all add: Let_def case_prod_beta release_one_frames)

lemma release_expired_frames [table_simps]:
  "d_sessions (fst (release_expired_claims_unlocked t work d)) = d_sessions d"
  "d_runs (fst (release_expired_claims_unlocked t work d)) = d_runs d"
  "d_events (fst (release_expired_claims_unlocked t work d)) = d_events d"
  "d_next_event (fst (release_expired_claims_unlocked t work d)) = d_next_event d"
  using release_rows_frames by (simp_all add: release_expired_claims_unlocked_def)

end
