(* ===== verification/Relations.thy ===== *)
theory Relations
  imports Store
begin

text \<open>
  Writing work rows (coord_db.py, \<open>_depends_on_ids\<close> to \<open>_upsert_work_unlocked\<close>): the parent
  and dependency invariants and the insert-or-amend of a row. A keyword dictionary is a
  list of fields with distinct names.
\<close>

section \<open>Fields\<close>

datatype work_field =
    F_parent "string option" | F_title string | F_display "string option"
  | F_assignee "string option" | F_module "string option" | F_sublane "string option"
  | F_kind "string option" | F_tier "string option" | F_intent string
  | F_reason "string option" | F_next_step "string option" | F_resume_when "string option"
  | F_resume_pred "string option" | F_ready_at "seconds option" | F_op_ok "int option"
  | F_tier_corr "int option" | F_done_signal "string option" | F_acceptance string
  | F_rubric "string option" | F_priority int | F_context "string option"
  | F_note "string option" | F_depends "string option" | F_created_by "string option"
  | F_other string cell

fun apply_field :: "work_field \<Rightarrow> work_row \<Rightarrow> work_row" where
  "apply_field (F_parent v) w = w\<lparr>w_parent := v\<rparr>"
| "apply_field (F_title v) w = w\<lparr>w_title := v\<rparr>"
| "apply_field (F_display v) w = w\<lparr>w_display := v\<rparr>"
| "apply_field (F_assignee v) w = w\<lparr>w_assignee := v\<rparr>"
| "apply_field (F_module v) w = w\<lparr>w_module := v\<rparr>"
| "apply_field (F_sublane v) w = w\<lparr>w_sublane := v\<rparr>"
| "apply_field (F_kind v) w = w\<lparr>w_kind := v\<rparr>"
| "apply_field (F_tier v) w = w\<lparr>w_tier := v\<rparr>"
| "apply_field (F_intent v) w = w\<lparr>w_intent := v\<rparr>"
| "apply_field (F_reason v) w = w\<lparr>w_reason := v\<rparr>"
| "apply_field (F_next_step v) w = w\<lparr>w_next_step := v\<rparr>"
| "apply_field (F_resume_when v) w = w\<lparr>w_resume_when := v\<rparr>"
| "apply_field (F_resume_pred v) w = w\<lparr>w_resume_pred := v\<rparr>"
| "apply_field (F_ready_at v) w = w\<lparr>w_ready_at := v\<rparr>"
| "apply_field (F_op_ok v) w = w\<lparr>w_op_ok := v\<rparr>"
| "apply_field (F_tier_corr v) w = w\<lparr>w_tier_corr := v\<rparr>"
| "apply_field (F_done_signal v) w = w\<lparr>w_done_signal := v\<rparr>"
| "apply_field (F_acceptance v) w = w\<lparr>w_acceptance := v\<rparr>"
| "apply_field (F_rubric v) w = w\<lparr>w_rubric := v\<rparr>"
| "apply_field (F_priority v) w = w\<lparr>w_priority := v\<rparr>"
| "apply_field (F_context v) w = w\<lparr>w_context := v\<rparr>"
| "apply_field (F_note v) w = w\<lparr>w_note := v\<rparr>"
| "apply_field (F_depends v) w = w\<lparr>w_depends := v\<rparr>"
| "apply_field (F_created_by v) w = w\<lparr>w_created_by := v\<rparr>"
| "apply_field (F_other k v) w = w\<lparr>w_other := (k, v) # filter (\<lambda>kv. fst kv \<noteq> k) (w_other w)\<rparr>"

fun apply_fields :: "work_field list \<Rightarrow> work_row \<Rightarrow> work_row" where
  "apply_fields [] w = w"
| "apply_fields (f # fs) w = apply_fields fs (apply_field f w)"

fun field_name :: "work_field \<Rightarrow> string" where
  "field_name (F_parent v) = ''parent_id''"
| "field_name (F_title v) = ''title''"
| "field_name (F_display v) = ''display''"
| "field_name (F_assignee v) = ''assignee''"
| "field_name (F_module v) = ''module''"
| "field_name (F_sublane v) = ''sublane''"
| "field_name (F_kind v) = ''kind''"
| "field_name (F_tier v) = ''tier''"
| "field_name (F_intent v) = ''intent_state''"
| "field_name (F_reason v) = ''blocked_reason_class''"
| "field_name (F_next_step v) = ''next_step''"
| "field_name (F_resume_when v) = ''resume_when''"
| "field_name (F_resume_pred v) = ''resume_predicate_json''"
| "field_name (F_ready_at v) = ''continuation_ready_at''"
| "field_name (F_op_ok v) = ''operator_ok_event_id''"
| "field_name (F_tier_corr v) = ''tier_correction_event_id''"
| "field_name (F_done_signal v) = ''done_signal''"
| "field_name (F_acceptance v) = ''acceptance_json''"
| "field_name (F_rubric v) = ''rubric_verdict''"
| "field_name (F_priority v) = ''priority''"
| "field_name (F_context v) = ''context_pack_ref''"
| "field_name (F_note v) = ''note''"
| "field_name (F_depends v) = ''depends_on''"
| "field_name (F_created_by v) = ''created_by_session_id''"
| "field_name (F_other k v) = k"

text \<open>The keywords of a call are distinct.\<close>

definition kwargs_ok :: "work_field list \<Rightarrow> bool" where
  "kwargs_ok fs \<longleftrightarrow> distinct (map field_name fs) \<and>
     (\<forall>f \<in> set fs. case f of F_other k v \<Rightarrow> k \<noteq> ''parent_id'' | _ \<Rightarrow> True)"

text \<open>\<open>existing[key] != value\<close>.\<close>

definition differs :: "work_row \<Rightarrow> work_field \<Rightarrow> bool" where
  "differs w f = (case f of
       F_other k v \<Rightarrow> (case map_of (w_other w) k of None \<Rightarrow> v \<noteq> CNull | Some u \<Rightarrow> u \<noteq> v)
     | _ \<Rightarrow> apply_field f w \<noteq> w)"

definition parent_field :: "work_field list \<Rightarrow> string option option" where
  "parent_field fs = first_row (List.map_filter (\<lambda>f. case f of F_parent v \<Rightarrow> Some v | _ \<Rightarrow> None) fs)"

definition depends_field :: "work_field list \<Rightarrow> string option option" where
  "depends_field fs = first_row (List.map_filter (\<lambda>f. case f of F_depends v \<Rightarrow> Some v | _ \<Rightarrow> None) fs)"

definition display_field :: "work_field list \<Rightarrow> string option" where
  "display_field fs = (case first_row (List.map_filter (\<lambda>f. case f of F_display v \<Rightarrow> Some v | _ \<Rightarrow> None) fs) of
     None \<Rightarrow> None | Some v \<Rightarrow> v)"

section \<open>Relation invariants\<close>

text \<open>\<open>_depends_on_ids\<close>: the text is JSON, or else a comma-separated list.\<close>

fun depends_value_ids :: "lib \<Rightarrow> json \<Rightarrow> string list" where
  "depends_value_ids L (JObj kvs) = filter (\<lambda>p. p \<noteq> []) (map (\<lambda>kv. strip (fst kv)) kvs)"
| "depends_value_ids L (JList xs) =
     map (\<lambda>j. strip (str_or_empty L j)) (filter (\<lambda>j. strip (str_or_empty L j) \<noteq> []) xs)"
| "depends_value_ids L j =
     (let s = strip (case j of JStr s \<Rightarrow> s | _ \<Rightarrow> py_str L j) in if s = [] then [] else [s])"

definition depends_on_ids :: "lib \<Rightarrow> string option \<Rightarrow> string list" where
  "depends_on_ids L raw =
     (if otext raw = [] then []
      else case loads L (otext raw) of
          None \<Rightarrow> filter (\<lambda>p. p \<noteq> []) (map strip (split_on CHR '','' (otext raw)))
        | Some j \<Rightarrow> depends_value_ids L j)"

definition parent_step :: "db \<Rightarrow> string \<Rightarrow> string option" where
  "parent_step d x = (case workd d x of None \<Rightarrow> None | Some w \<Rightarrow> opt_text (clean (w_parent w)))"

definition parent_cycle_walk_max_depth :: nat where
  "parent_cycle_walk_max_depth = 200"

text \<open>The walk up the parent chain; True where the code raises \<open>ParentCycleError\<close>.\<close>

fun walk_parents :: "(string \<Rightarrow> string option) \<Rightarrow> string \<Rightarrow> nat \<Rightarrow> string list \<Rightarrow> string option \<Rightarrow> bool" where
  "walk_parents step work_id n seen None = False"
| "walk_parents step work_id 0 seen (Some cur) = (cur = work_id)"
| "walk_parents step work_id (Suc n) seen (Some cur) =
     (if cur = work_id then True
      else if cur \<in> set seen then False
      else walk_parents step work_id n (cur # seen) (step cur))"

definition validate_relation_invariants :: "lib \<Rightarrow> db \<Rightarrow> string \<Rightarrow> work_field list \<Rightarrow> err option" where
  "validate_relation_invariants L d work_id changed =
     (let parent_error = (case parent_field changed of
            None \<Rightarrow> None
          | Some v \<Rightarrow>
              let parent = clean v in
              if parent = [] then None
              else if parent = work_id then Some (SelfParent work_id)
              else if walk_parents (parent_step d) work_id parent_cycle_walk_max_depth [] (Some parent)
                then Some (ParentCycle work_id)
              else None)
      in case parent_error of
           Some e \<Rightarrow> Some e
         | None \<Rightarrow> (case depends_field changed of
               None \<Rightarrow> None
             | Some v \<Rightarrow> if work_id \<in> set (depends_on_ids L v) then Some (SelfDependency work_id) else None))"

section \<open>Insert or amend\<close>

definition new_work_row :: "string \<Rightarrow> seconds \<Rightarrow> work_row" where
  "new_work_row work_id t =
     \<lparr>w_id = work_id, w_parent = None, w_title = work_id, w_display = None, w_assignee = None,
      w_module = None, w_sublane = None, w_kind = None, w_tier = None, w_intent = ''planned'',
      w_reason = None, w_next_step = None, w_resume_when = None, w_resume_pred = None,
      w_ready_at = None, w_op_ok = None, w_tier_corr = None, w_done_signal = None,
      w_acceptance = ''[]'', w_rubric = None, w_priority = 0, w_context = None, w_note = None,
      w_depends = None, w_created_by = None, w_other = [(''surface'', CText ''job''), (''visibility'', CText ''operator'')],
      w_version = 0, w_archived = None,
      w_created = t, w_updated = t\<rparr>"

definition parent_exists :: "db \<Rightarrow> work_field list \<Rightarrow> bool" where
  "parent_exists d fs = (case parent_field fs of Some (Some p) \<Rightarrow> workd d p \<noteq> None | _ \<Rightarrow> True)"

definition set_title :: "string \<Rightarrow> string \<Rightarrow> seconds \<Rightarrow> (string \<times> string \<times> seconds) list \<Rightarrow> (string \<times> string \<times> seconds) list" where
  "set_title k display t ts =
     (if k \<in> fst ` set ts
      then upd_where (\<lambda>r. fst r = k \<and> fst (snd r) \<noteq> display) (\<lambda>r. (k, display, t)) ts
      else ts @ [(k, display, t)])"

definition upsert_work_unlocked ::
  "lib \<Rightarrow> bool \<Rightarrow> string \<Rightarrow> work_field list \<Rightarrow> seconds \<Rightarrow> db \<Rightarrow> err + (db \<times> bool)" where
  "upsert_work_unlocked L require_new work_id flds t d =
     (let existing = workd d work_id;
          written =
            (case existing of
               Some w \<Rightarrow>
                 if require_new then Inl (WorkIdCollision work_id)
                 else let changed = filter (differs w) flds in
                   if flds = [] then Inr d
                   else case validate_relation_invariants L d work_id changed of
                     Some e \<Rightarrow> Inl e
                   | None \<Rightarrow>
                       if changed = [] then Inr d
                       else if \<not> parent_exists d changed then Inl IntegrityForeignKey
                       else Inr (upd_works (\<lambda>w. w_id w = work_id)
                              (\<lambda>w. (apply_fields changed w)\<lparr>w_updated := t, w_version := w_version w + 1\<rparr>) d)
             | None \<Rightarrow>
                 (case validate_relation_invariants L d work_id flds of
                    Some e \<Rightarrow> Inl e
                  | None \<Rightarrow>
                      if \<not> parent_exists d flds then Inl IntegrityForeignKey
                      else Inr (d\<lparr>d_works := d_works d @ [apply_fields flds (new_work_row work_id t)]\<rparr>)));
          display = clean (display_field flds)
      in bindE written (\<lambda>d'.
           Inr (if display = [] then d' else d'\<lparr>d_titles := set_title work_id display t (d_titles d')\<rparr>,
                existing = None)))"

section \<open>The cycle check\<close>

lemma walk_parents_iff:
  assumes "hop step k x0 = cur" "set seen = {y. \<exists>i < k. hop step i x0 = Some y}" "work_id \<notin> set seen"
  shows "walk_parents step work_id n seen cur \<longleftrightarrow>
           (\<exists>c. cur = Some c \<and> (\<exists>m \<le> n. hop step m c = Some work_id))"
  using assms
proof (induction step work_id n seen cur arbitrary: k rule: walk_parents.induct)
  case (1 step work_id n seen)
  then show ?case by simp
next
  case (2 step work_id seen cur)
  then show ?case by simp
next
  case (3 step work_id n seen cur)
  consider "cur = work_id" | "cur \<noteq> work_id" "cur \<in> set seen" | "cur \<noteq> work_id" "cur \<notin> set seen" by blast
  then show ?case
  proof cases
    case 1
    then show ?thesis by (auto intro: exI [of _ 0])
  next
    case 2
    then obtain i where i: "i < k" "hop step i x0 = Some cur" using "3.prems"(2) by auto
    have "hop step m cur \<noteq> Some work_id" for m
    proof
      assume "hop step m cur = Some work_id"
      then have "hop step (k + m) x0 = Some work_id" using hop_add [of step k m x0] "3.prems"(1) by simp
      then have "\<exists>j < k. hop step j x0 = Some work_id"
        using hop_revisit [OF i(2) "3.prems"(1) i(1)] by blast
      with "3.prems"(2,3) show False by simp
    qed
    with 2 show ?thesis by simp
  next
    case 3
    have k: "hop step (Suc k) x0 = step cur" using "3.prems"(1) by (simp add: hop_Suc_right del: hop.simps(2))
    have s: "set (cur # seen) = {y. \<exists>i < Suc k. hop step i x0 = Some y}"
      using "3.prems"(1,2) by (auto simp: less_Suc_eq)
    have "walk_parents step work_id (Suc n) seen (Some cur) = walk_parents step work_id n (cur # seen) (step cur)"
      using 3 by simp
    also have "\<dots> \<longleftrightarrow> (\<exists>c. step cur = Some c \<and> (\<exists>m \<le> n. hop step m c = Some work_id))"
      using "3.IH" [OF 3 k s] "3.prems"(3) 3(1) by auto
    also have "\<dots> \<longleftrightarrow> (\<exists>m \<le> Suc n. hop step m cur = Some work_id)"
    proof
      assume "\<exists>c. step cur = Some c \<and> (\<exists>m \<le> n. hop step m c = Some work_id)"
      then obtain c m where "step cur = Some c" "m \<le> n" "hop step m c = Some work_id" by blast
      then show "\<exists>m \<le> Suc n. hop step m cur = Some work_id" by (intro exI [of _ "Suc m"]) simp
    next
      assume "\<exists>m \<le> Suc n. hop step m cur = Some work_id"
      then obtain m where m: "m \<le> Suc n" "hop step m cur = Some work_id" by blast
      then show "\<exists>c. step cur = Some c \<and> (\<exists>m \<le> n. hop step m c = Some work_id)"
        using 3(1) by (cases m) (auto split: option.splits)
    qed
    finally show ?thesis by simp
  qed
qed

lemma walk_parents_bounded:
  "walk_parents step work_id n [] (Some p) \<longleftrightarrow> (\<exists>m \<le> n. hop step m p = Some work_id)"
  using walk_parents_iff [of step 0 p "Some p" "[]" work_id n] by simp

lemma clean_parent_step: "parent_step d x = Some y \<Longrightarrow> y \<noteq> []"
  by (auto simp: parent_step_def opt_text_def split: option.splits if_splits)

lemma apply_field_id [simp]: "w_id (apply_field f w) = w_id w"
  by (cases f) simp_all

lemma apply_fields_id [simp]: "w_id (apply_fields fs w) = w_id w"
  by (induction fs arbitrary: w) simp_all

lemma new_work_row_id [simp]: "w_id (new_work_row i t) = i"
  by (simp add: new_work_row_def)

lemma wf_titles: "wf_db d \<Longrightarrow> wf_db (d\<lparr>d_titles := ts\<rparr>)"
  by (simp add: wf_db_defs)

lemma wf_append_work: "wf_db d \<Longrightarrow> workd d (w_id w) = None \<Longrightarrow> wf_db (d\<lparr>d_works := d_works d @ [w]\<rparr>)"
  by (auto simp: wf_db_defs workd_None_iff)

lemma wf_upsert_work:
  assumes "wf_db d" "upsert_work_unlocked L rn i fs t d = Inr (d', b)"
  shows "wf_db d'"
proof -
  have "wf_db (upd_works (\<lambda>w. w_id w = i) (\<lambda>w. (apply_fields ch w)\<lparr>w_updated := t, w_version := w_version w + 1\<rparr>) d)" for ch
    using assms(1) by (rule wf_upd_works [rotated]) simp
  moreover have "workd d i = None \<Longrightarrow> wf_db (d\<lparr>d_works := d_works d @ [apply_fields fs (new_work_row i t)]\<rparr>)"
    using assms(1) by (simp add: wf_append_work)
  ultimately show ?thesis
    using assms by (auto simp: upsert_work_unlocked_def Let_def bindE_Inr_iff wf_titles
        split: option.splits if_splits)
qed

section \<open>Acyclicity\<close>

lemma parent_field_Cons:
  "parent_field (f # fs) = (case f of F_parent v \<Rightarrow> Some v | _ \<Rightarrow> parent_field fs)"
  by (cases f) (simp_all add: parent_field_def map_filter_def first_row_def)

lemma parent_field_Nil [simp]: "parent_field [] = None"
  by (simp add: parent_field_def first_row_def map_filter_def)

lemma parent_field_None: "''parent_id'' \<notin> field_name ` set fs \<Longrightarrow> parent_field fs = None"
  by (induction fs) (auto simp: parent_field_Cons split: work_field.splits)

lemma w_parent_apply_field:
  "w_parent (apply_field f w) = (case f of F_parent v \<Rightarrow> v | _ \<Rightarrow> w_parent w)"
  by (cases f) simp_all

lemma w_parent_apply_fields:
  "kwargs_ok fs \<Longrightarrow>
   w_parent (apply_fields fs w) = (case parent_field fs of None \<Rightarrow> w_parent w | Some v \<Rightarrow> v)"
proof (induction fs arbitrary: w)
  case Nil
  then show ?case by simp
next
  case (Cons f fs)
  then have k: "kwargs_ok fs" by (simp add: kwargs_ok_def)
  show ?case
  proof (cases "\<exists>v. f = F_parent v")
    case True
    then obtain v where v: "f = F_parent v" by blast
    with Cons.prems have "''parent_id'' \<notin> field_name ` set fs" by (simp add: kwargs_ok_def)
    then have "parent_field fs = None" by (rule parent_field_None)
    with Cons.IH [OF k] v show ?thesis by (simp add: parent_field_Cons)
  next
    case False
    then have "parent_field (f # fs) = parent_field fs" by (cases f) (simp_all add: parent_field_Cons)
    moreover have "w_parent (apply_field f w) = w_parent w" using False by (cases f) simp_all
    ultimately show ?thesis using Cons.IH [OF k] by (simp split: option.split)
  qed
qed

lemma kwargs_ok_filter: "kwargs_ok fs \<Longrightarrow> kwargs_ok (filter p fs)"
  by (auto simp: kwargs_ok_def distinct_map_filter)

text \<open>The parent pointers after a write of the fields \<open>fs\<close> to the row \<open>i\<close>.\<close>

definition repointed :: "db \<Rightarrow> string \<Rightarrow> work_field list \<Rightarrow> string \<Rightarrow> string option" where
  "repointed d i fs = (case parent_field fs of
       None \<Rightarrow> parent_step d | Some v \<Rightarrow> (parent_step d)(i := opt_text (clean v)))"

lemma parent_step_amend:
  assumes "workd d i = Some w" "kwargs_ok fs"
  shows "parent_step (upd_works (\<lambda>w. w_id w = i)
           (\<lambda>w. (apply_fields fs w)\<lparr>w_updated := t, w_version := w_version w + 1\<rparr>) d) = repointed d i fs"
proof
  fix x
  let ?f = "\<lambda>w. (apply_fields fs w)\<lparr>w_updated := t, w_version := w_version w + 1\<rparr>"
  have row: "workd (upd_works (\<lambda>w. w_id w = i) ?f d) x = map_option (\<lambda>w. if w_id w = i then ?f w else w) (workd d x)"
    by (rule workd_upd_works) simp
  show "parent_step (upd_works (\<lambda>w. w_id w = i) ?f d) x = repointed d i fs x"
  proof (cases "x = i")
    case True
    have "w_id w = i" using workd_SomeD [OF assms(1)] by simp
    with True assms(1) row have "parent_step (upd_works (\<lambda>w. w_id w = i) ?f d) x =
        opt_text (clean (w_parent (apply_fields fs w)))" by (simp add: parent_step_def)
    also have "\<dots> = repointed d i fs x"
      using True assms(1) w_parent_apply_fields [OF assms(2), of w]
      by (cases "parent_field fs") (simp_all add: repointed_def parent_step_def)
    finally show ?thesis .
  next
    case False
    have "workd (upd_works (\<lambda>w. w_id w = i) ?f d) x = workd d x"
      using row False by (cases "workd d x") (auto dest: workd_SomeD)
    then have "parent_step (upd_works (\<lambda>w. w_id w = i) ?f d) x = parent_step d x"
      by (simp only: parent_step_def)
    with False show ?thesis by (cases "parent_field fs") (simp_all add: repointed_def)
  qed
qed

lemma parent_step_insert:
  assumes "workd d i = None" "kwargs_ok fs"
  shows "parent_step (d\<lparr>d_works := d_works d @ [apply_fields fs (new_work_row i t)]\<rparr>) = repointed d i fs"
proof
  fix x
  have "workd (d\<lparr>d_works := d_works d @ [apply_fields fs (new_work_row i t)]\<rparr>) x =
      (case workd d x of Some w \<Rightarrow> Some w | None \<Rightarrow> if i = x then Some (apply_fields fs (new_work_row i t)) else None)"
    by (simp add: workd_def find_append split: option.split)
  moreover have "w_parent (new_work_row i t) = None" by (simp add: new_work_row_def)
  ultimately show "parent_step (d\<lparr>d_works := d_works d @ [apply_fields fs (new_work_row i t)]\<rparr>) x = repointed d i fs x"
    using assms w_parent_apply_fields [OF assms(2), of "new_work_row i t"]
    by (cases "workd d x") (auto simp: parent_step_def repointed_def clean_def split: option.splits)
qed

lemma repointed_no_cycle:
  assumes "no_cycle (parent_step d)" "validate_relation_invariants L d i fs = None"
    and short: "\<And>v. parent_field fs = Some v \<Longrightarrow> hop (parent_step d) (Suc parent_cycle_walk_max_depth) (clean v) = None"
  shows "no_cycle (repointed d i fs)"
proof (cases "\<exists>v. parent_field fs = Some v \<and> clean v \<noteq> []")
  case True
  then obtain v where v: "parent_field fs = Some v" "clean v \<noteq> []" by blast
  have walk: "\<not> walk_parents (parent_step d) i parent_cycle_walk_max_depth [] (Some (clean v))"
    using assms(2) v by (auto simp: validate_relation_invariants_def Let_def split: if_split_asm)
  have "hop (parent_step d) m (clean v) \<noteq> Some i" for m
  proof (cases "m \<le> parent_cycle_walk_max_depth")
    case True
    with walk show ?thesis unfolding walk_parents_bounded by blast
  next
    case False
    then have "Suc parent_cycle_walk_max_depth \<le> m" by simp
    with short [OF v(1)] show ?thesis
      using hop_prefix_defined [of "parent_step d" m "clean v" i] by fastforce
  qed
  then show ?thesis using v by (simp add: repointed_def no_cycle_upd assms(1))
next
  case False
  have "no_cycle ((parent_step d)(i := None))"
    unfolding no_cycle_def
  proof (intro allI impI)
    fix x n
    assume n: "0 < (n :: nat)"
    have shrink: "hop ((parent_step d)(i := None)) k y = Some z \<Longrightarrow> hop (parent_step d) k y = Some z" for k y z
      by (induction k arbitrary: y) (auto split: option.splits if_split_asm)
    show "hop ((parent_step d)(i := None)) n x \<noteq> Some x"
      using shrink [of n x x] assms(1) n by (auto simp: no_cycle_def)
  qed
  with False assms(1) show ?thesis by (auto simp: repointed_def split: option.splits)
qed

lemma parent_step_titles [simp]: "parent_step (d\<lparr>d_titles := ts\<rparr>) = parent_step d"
  by (rule ext) (simp add: parent_step_def workd_def)

lemma upsert_keeps_acyclic:
  assumes "no_cycle (parent_step d)" "kwargs_ok fs" "upsert_work_unlocked L rn i fs t d = Inr (d', b)"
    and short: "\<And>v. parent_field fs = Some v \<Longrightarrow> hop (parent_step d) (Suc parent_cycle_walk_max_depth) (clean v) = None"
  shows "no_cycle (parent_step d')"
proof (cases "workd d i")
  case None
  with assms(3) have "validate_relation_invariants L d i fs = None"
      "parent_step d' = parent_step (d\<lparr>d_works := d_works d @ [apply_fields fs (new_work_row i t)]\<rparr>)"
    by (auto simp: upsert_work_unlocked_def Let_def bindE_Inr_iff split: option.splits if_split_asm)
  then show ?thesis
    using parent_step_insert [OF None assms(2)] repointed_no_cycle [OF assms(1) _ short] by simp
next
  case (Some w)
  let ?ch = "filter (differs w) fs"
  have sub: "parent_field ?ch = Some v \<Longrightarrow> parent_field fs = Some v" for v
    using assms(2)
  proof (induction fs)
    case (Cons f fs)
    then have "kwargs_ok fs" by (simp add: kwargs_ok_def)
    with Cons show ?case
    proof (cases "\<exists>u. f = F_parent u")
      case True
      then have "''parent_id'' \<notin> field_name ` set (filter (differs w) fs)"
        using Cons.prems(2) by (auto simp: kwargs_ok_def)
      then have "parent_field (filter (differs w) fs) = None" by (rule parent_field_None)
      with True Cons.prems show ?thesis by (auto simp: parent_field_Cons split: if_split_asm)
    next
      case False
      then have skip: "parent_field (f # gs) = parent_field gs" for gs
        by (cases f) (simp_all add: parent_field_Cons)
      from Cons \<open>kwargs_ok fs\<close> show ?thesis
        by (cases "differs w f") (simp_all add: skip)
    qed
  qed simp
  have short': "\<And>v. parent_field ?ch = Some v \<Longrightarrow> hop (parent_step d) (Suc parent_cycle_walk_max_depth) (clean v) = None"
    using sub short by blast
  from assms(3) Some consider "parent_step d' = parent_step d"
    | "validate_relation_invariants L d i ?ch = None"
      "parent_step d' = parent_step (upd_works (\<lambda>w. w_id w = i)
         (\<lambda>w. (apply_fields ?ch w)\<lparr>w_updated := t, w_version := w_version w + 1\<rparr>) d)"
    by (auto simp: upsert_work_unlocked_def Let_def bindE_Inr_iff split: option.splits if_split_asm)
  then show ?thesis
  proof cases
    case 1
    with assms(1) show ?thesis by simp
  next
    case 2
    then show ?thesis
      using parent_step_amend [OF Some kwargs_ok_filter [OF assms(2)], of t "differs w"]
        repointed_no_cycle [OF assms(1) 2(1) short'] by simp
  qed
qed

end
