(* ===== verification/Resume.thy ===== *)
theory Resume
  imports Store
begin

text \<open>
  The contracts for parking and resuming work of src/src/coordharness/coord/continuation_contract.py:
  the grammar of typed resume predicates, its normalisation, and the two fields a parked row needs.
\<close>

definition supported_predicates :: "string list" where
  "supported_predicates = [''event_exists'', ''artifact_exists'', ''artifact_readable'',
     ''sha_matches'', ''verdict_posted'', ''dark_hold_exit'', ''all_of'', ''any_of'']"

definition sqlite_max_int :: int where
  "sqlite_max_int = 2 ^ 63 - 1"

definition is_hex :: "char \<Rightarrow> bool" where
  "is_hex c = (let n = (of_char c :: nat) in
     (48 \<le> n \<and> n \<le> 57) \<or> (97 \<le> n \<and> n \<le> 102) \<or> (65 \<le> n \<and> n \<le> 70))"

definition is_sha256 :: "string \<Rightarrow> bool" where
  "is_sha256 s \<longleftrightarrow> length s = 64 \<and> list_all is_hex s"

text \<open>\<open>_require_nonempty_string\<close>: True when the field is a string with some visible text.\<close>

definition has_text :: "json \<Rightarrow> string \<Rightarrow> bool" where
  "has_text j field = (case jget j field of JStr s \<Rightarrow> strip s \<noteq> [] | _ \<Rightarrow> False)"

lemma size_map_of: "map_of kvs k = Some v \<Longrightarrow> size v < size (JObj kvs)"
  by (induction kvs) (auto split: if_splits)

lemma size_jget: "jget j k = JList cs \<Longrightarrow> size_list size cs < size j"
proof (induction j k rule: jget.induct)
  case (1 kvs k)
  then obtain v where "map_of kvs k = Some v" "v = JList cs" by (auto split: option.splits)
  with size_map_of [of kvs k v] show ?case by simp
qed simp_all

text \<open>\<open>_validate_typed_predicate\<close>: None if it returns, the detail of the error if it raises.\<close>

function validate_predicate :: "json \<Rightarrow> string option"
  and validate_predicates :: "json list \<Rightarrow> string option" where
  "validate_predicate j =
     (let ty = strip (jtext (jget j ''type'')) in
      if \<not> is_jobj j then Some ''resume predicate must be a JSON object''
      else if ty \<notin> set supported_predicates then Some ''unsupported resume predicate type''
      else if ty = ''event_exists'' then
        (if \<not> has_text j ''work_id'' then Some ''event_exists requires work_id''
         else case jget j ''after_event_id'' of
             JInt n \<Rightarrow> if 0 \<le> n \<and> n \<le> sqlite_max_int then None else Some ''after_event_id''
           | _ \<Rightarrow> Some ''after_event_id'')
      else if ty \<in> set [''artifact_exists'', ''artifact_readable''] then
        (if has_text j ''path'' then None else Some ''path'')
      else if ty = ''sha_matches'' then
        (if \<not> (has_text j ''path'' \<or> has_text j ''ref'') then Some ''path or ref''
         else case jget j ''sha256'' of
             JStr s \<Rightarrow> if is_sha256 s then None else Some ''sha256''
           | _ \<Rightarrow> Some ''sha256'')
      else if ty = ''verdict_posted'' then
        (if list_all (has_text j) [''work_id'', ''verdict'', ''from_lane''] then None
         else Some ''verdict_posted fields'')
      else if ty = ''dark_hold_exit'' then
        (if list_all (has_text j) [''hold_id'', ''work_id''] then None else Some ''dark_hold_exit fields'')
      else case jget j ''predicates'' of
          JList cs \<Rightarrow> if cs = [] then Some ''predicates'' else validate_predicates cs
        | _ \<Rightarrow> Some ''predicates'')"
| "validate_predicates [] = None"
| "validate_predicates (c # cs) =
     (case validate_predicate c of Some e \<Rightarrow> Some e | None \<Rightarrow> validate_predicates cs)"
  by pat_completeness auto
termination
  by (relation "measure (\<lambda>x. case x of Inl j \<Rightarrow> 2 * size j | Inr js \<Rightarrow> 2 * size_list size js + 1)")
     (auto dest: size_jget)

declare validate_predicate.simps [simp del]

definition manual_predicate :: json where
  "manual_predicate = JObj [(''type'', JStr ''manual'')]"

definition normalize_resume_trigger_contract ::
  "lib \<Rightarrow> string option \<Rightarrow> string option \<Rightarrow> bool \<Rightarrow> err + string option" where
  "normalize_resume_trigger_contract L resume_when resume_predicate resume_manual =
     (let when_text = clean resume_when; pred = clean resume_predicate in
      if pred \<noteq> [] \<and> resume_manual then Inl (ResumeContract ''mutually exclusive'')
      else if when_text = [] then
        (if pred \<noteq> [] \<or> resume_manual then Inl (ResumeContract ''resume_when is required'') else Inr None)
      else if resume_manual then Inr (Some (dumps L manual_predicate))
      else if pred = [] then Inl (ResumeContract ''predicate or manual required'')
      else case loads L pred of
          None \<Rightarrow> Inl (ResumeContract ''invalid JSON'')
        | Some j \<Rightarrow> (case validate_predicate j of
              Some e \<Rightarrow> Inl (ResumeContract e)
            | None \<Rightarrow> Inr (Some (dumps L j))))"

definition require_park_resume_contract ::
  "string option \<Rightarrow> string option \<Rightarrow> err + (string \<times> string)" where
  "require_park_resume_contract next_step resume_when =
     (let n = clean next_step; r = clean resume_when;
          missing = (if n = [] then [''next_step''] else []) @ (if r = [] then [''resume_when''] else [])
      in if missing \<noteq> [] then Inl (ParkContract missing) else Inr (n, r))"

section \<open>What the validator accepts\<close>

text \<open>The grammar of resume predicates, stated as a predicate of its own.\<close>

inductive resume_predicate :: "json \<Rightarrow> bool" where
  event: "is_jobj j \<Longrightarrow> strip (jtext (jget j ''type'')) = ''event_exists'' \<Longrightarrow> has_text j ''work_id'' \<Longrightarrow>
    jget j ''after_event_id'' = JInt n \<Longrightarrow> 0 \<le> n \<Longrightarrow> n \<le> sqlite_max_int \<Longrightarrow> resume_predicate j"
| artifact: "is_jobj j \<Longrightarrow> strip (jtext (jget j ''type'')) \<in> {''artifact_exists'', ''artifact_readable''} \<Longrightarrow>
    has_text j ''path'' \<Longrightarrow> resume_predicate j"
| sha: "is_jobj j \<Longrightarrow> strip (jtext (jget j ''type'')) = ''sha_matches'' \<Longrightarrow>
    has_text j ''path'' \<or> has_text j ''ref'' \<Longrightarrow> jget j ''sha256'' = JStr s \<Longrightarrow> is_sha256 s \<Longrightarrow>
    resume_predicate j"
| verdict: "is_jobj j \<Longrightarrow> strip (jtext (jget j ''type'')) = ''verdict_posted'' \<Longrightarrow> has_text j ''work_id'' \<Longrightarrow>
    has_text j ''verdict'' \<Longrightarrow> has_text j ''from_lane'' \<Longrightarrow> resume_predicate j"
| hold: "is_jobj j \<Longrightarrow> strip (jtext (jget j ''type'')) = ''dark_hold_exit'' \<Longrightarrow> has_text j ''hold_id'' \<Longrightarrow>
    has_text j ''work_id'' \<Longrightarrow> resume_predicate j"
| composite: "is_jobj j \<Longrightarrow> strip (jtext (jget j ''type'')) \<in> {''all_of'', ''any_of''} \<Longrightarrow>
    jget j ''predicates'' = JList cs \<Longrightarrow> cs \<noteq> [] \<Longrightarrow> (\<And>c. c \<in> set cs \<Longrightarrow> resume_predicate c) \<Longrightarrow>
    resume_predicate j"

lemma validate_predicates_None: "validate_predicates cs = None \<longleftrightarrow> (\<forall>c \<in> set cs. validate_predicate c = None)"
  by (induction cs) (auto split: option.splits)

lemma validate_sound:
  "validate_predicate j = None \<Longrightarrow> resume_predicate j"
  "validate_predicates cs = None \<Longrightarrow> \<forall>c \<in> set cs. resume_predicate c"
proof (induction j and cs rule: validate_predicate_validate_predicates.induct)
  case (1 j)
  let ?ty = "strip (jtext (jget j ''type''))"
  have obj: "is_jobj j" and ty: "?ty \<in> set supported_predicates"
    using "1.prems" by (auto simp: validate_predicate.simps [of j] Let_def split: if_splits)
  from ty consider "?ty = ''event_exists''" | "?ty \<in> {''artifact_exists'', ''artifact_readable''}"
    | "?ty = ''sha_matches''" | "?ty = ''verdict_posted''" | "?ty = ''dark_hold_exit''"
    | "?ty \<in> {''all_of'', ''any_of''}"
    by (auto simp: supported_predicates_def)
  then show ?case
  proof cases
    case 1
    with "1.prems" obj show ?thesis
      by (auto simp: validate_predicate.simps [of j] Let_def intro: resume_predicate.event
          split: if_splits json.splits)
  next
    case 2
    with "1.prems" obj show ?thesis
      by (auto simp: validate_predicate.simps [of j] Let_def intro: resume_predicate.artifact split: if_splits)
  next
    case 3
    with "1.prems" obj show ?thesis
      by (auto simp: validate_predicate.simps [of j] Let_def intro: resume_predicate.sha
          split: if_splits json.splits)
  next
    case 4
    with "1.prems" obj show ?thesis
      by (auto simp: validate_predicate.simps [of j] Let_def intro: resume_predicate.verdict split: if_splits)
  next
    case 5
    with "1.prems" obj show ?thesis
      by (auto simp: validate_predicate.simps [of j] Let_def intro: resume_predicate.hold split: if_splits)
  next
    case 6
    with "1.prems" obj obtain cs where cs: "jget j ''predicates'' = JList cs" "cs \<noteq> []"
        "validate_predicates cs = None"
      by (auto simp: validate_predicate.simps [of j] Let_def split: if_splits json.splits)
    have "\<forall>c \<in> set cs. resume_predicate c"
      using "1.IH" [OF refl _ _ _ _ _ _ _ cs(1) cs(2) cs(3)] obj ty 6 by auto
    with 6 obj cs show ?thesis by (auto intro: resume_predicate.composite)
  qed
next
  case 2
  then show ?case by simp
next
  case (3 c cs)
  then show ?case by (auto split: option.splits)
qed

lemma validate_complete: "resume_predicate j \<Longrightarrow> validate_predicate j = None"
proof (induction rule: resume_predicate.induct)
  case (composite j cs)
  then have "validate_predicates cs = None" by (simp add: validate_predicates_None)
  with composite show ?case
    by (auto simp: validate_predicate.simps [of j] Let_def supported_predicates_def)
qed (auto simp: validate_predicate.simps Let_def supported_predicates_def)

lemma validate_iff: "validate_predicate j = None \<longleftrightarrow> resume_predicate j"
  using validate_sound(1) validate_complete by blast

end
