(* ===== verification/Claims.thy ===== *)
theory Claims
  imports Leases Relations Resume
begin

text \<open>
  Claiming work and acting on a held claim (coord_db.py, \<open>claim_work\<close> and
  \<open>_assert_claim_holder_unlocked\<close> to \<open>release_claim\<close>). The fresh claim identifier, the
  lease token and the clock readings are arguments; every refusal of the code is an error
  value. A claim attempt that loses the race for the row ends in the unique index of held
  claims (\<open>IntegrityHeldClaim\<close>).
\<close>

section \<open>Claiming\<close>

definition session_actor_of :: "db \<Rightarrow> string \<Rightarrow> string" where
  "session_actor_of d sid = norm (map_option s_actor (sess d sid))"

definition public_assignees :: "string list" where
  "public_assignees = [''shared'', ''operator'', ''any'', ''unassigned'']"

definition assigned_elsewhere :: "string \<Rightarrow> work_row \<Rightarrow> bool" where
  "assigned_elsewhere session_actor w \<longleftrightarrow>
     (let a = norm (w_assignee w) in
      session_actor \<noteq> [] \<and> a \<noteq> [] \<and> a \<notin> set public_assignees \<and> session_actor \<noteq> a)"

definition claim_family :: "string list \<Rightarrow> db \<Rightarrow> string \<Rightarrow> string list" where
  "claim_family lanes d sid = sid # related_session_ids lanes d sid (Some (session_actor_of d sid))"

definition live_running :: "seconds \<Rightarrow> string \<Rightarrow> claim_row \<Rightarrow> bool" where
  "live_running t work c \<longleftrightarrow> c_work c = work \<and> c_status c = ''running'' \<and> t < c_expires c"

definition live_parked :: "seconds \<Rightarrow> string \<Rightarrow> claim_row \<Rightarrow> bool" where
  "live_parked t work c \<longleftrightarrow>
     c_work c = work \<and> c_status c \<in> set [''paused'', ''blocked''] \<and> t < c_expires c"

definition live_held :: "seconds \<Rightarrow> string \<Rightarrow> claim_row \<Rightarrow> bool" where
  "live_held t work c \<longleftrightarrow> c_work c = work \<and> held c \<and> t < c_expires c"

definition set_running :: "seconds \<Rightarrow> work_row \<Rightarrow> work_row" where
  "set_running t w = w\<lparr>w_intent := ''running'', w_updated := t, w_version := w_version w + 1\<rparr>"

definition reclaim :: "string option \<Rightarrow> seconds \<Rightarrow> seconds \<Rightarrow> claim_row \<Rightarrow> claim_row" where
  "reclaim step t lease c =
     c\<lparr>c_step := coalesce step (c_step c), c_heartbeat := t, c_expires := t + lease,
       c_version := c_version c + 1\<rparr>"

definition resume_claim :: "string option \<Rightarrow> seconds \<Rightarrow> seconds \<Rightarrow> claim_row \<Rightarrow> claim_row" where
  "resume_claim step t lease c =
     c\<lparr>c_status := ''running'', c_step := coalesce step (c_step c), c_heartbeat := t,
       c_expires := t + lease, c_reason := None, c_version := c_version c + 1\<rparr>"

definition mark_running :: "seconds \<Rightarrow> string \<Rightarrow> db \<Rightarrow> db" where
  "mark_running t work d = upd_works (\<lambda>w. w_id w = work) (set_running t) d"

text \<open>The claim the caller's own family already runs on this work.\<close>

definition own_running_claim :: "string list \<Rightarrow> string \<Rightarrow> string \<Rightarrow> seconds \<Rightarrow> db \<Rightarrow> claim_row option" where
  "own_running_claim lanes sid work t d =
     (case select_max c_acquired (live_running t work) (d_claims d) of
        None \<Rightarrow> None
      | Some c \<Rightarrow> if strip (c_session c) \<in> set (claim_family lanes d sid) then Some c else None)"

definition own_parked_claim :: "string list \<Rightarrow> string \<Rightarrow> string \<Rightarrow> seconds \<Rightarrow> db \<Rightarrow> claim_row option" where
  "own_parked_claim lanes sid work t d =
     (case select_max (\<lambda>c. (c_heartbeat c, c_acquired c, c_id c)) (live_parked t work) (d_claims d) of
        None \<Rightarrow> None
      | Some c \<Rightarrow>
          let holder = strip (c_session c) in
          if holder = sid \<or> (holder \<noteq> [] \<and> holder \<in> set (claim_family lanes d sid))
          then Some c else None)"

text \<open>The branch for a row in \<open>blocked\<close>, \<open>paused\<close>, \<open>held\<close> or \<open>hold\<close>.\<close>

definition claim_held_row ::
  "string list \<Rightarrow> string \<Rightarrow> work_row \<Rightarrow> string option \<Rightarrow> seconds \<Rightarrow> seconds \<Rightarrow> db \<Rightarrow> err + (db \<times> string)" where
  "claim_held_row lanes sid w step lease t d =
     (let intent = lower (strip (w_intent w));
          own = (if intent \<in> set [''blocked'', ''paused'']
                 then own_parked_claim lanes sid (w_id w) t d else None)
      in case own of
           None \<Rightarrow>
             if intent = ''blocked'' \<and> clean (w_reason w) = [] \<and>
                \<not> (\<exists>c \<in> set (d_claims d). live_held t (w_id w) c)
             then Inl (OrphanedBlock (w_id w)) else Inl (HeldWork (w_id w))
         | Some c \<Rightarrow>
             Inr (mark_running t (w_id w)
                    (upd_claims (\<lambda>x. c_id x = c_id c) (resume_claim step t lease) d), c_id c))"

definition fresh_claim ::
  "string \<Rightarrow> string \<Rightarrow> string \<Rightarrow> string \<Rightarrow> string option \<Rightarrow> seconds \<Rightarrow> seconds \<Rightarrow> claim_row" where
  "fresh_claim claim_id token sid work step lease t =
     \<lparr>c_id = claim_id, c_work = work, c_session = sid, c_token = Some token,
      c_status = ''running'', c_step = step, c_acquired = t, c_heartbeat = t,
      c_expires = t + lease, c_reason = None, c_version = 0\<rparr>"

definition conditionally_parked :: "work_row \<Rightarrow> bool" where
  "conditionally_parked w \<longleftrightarrow>
     lower (strip (w_intent w)) \<in> set [''queued'', ''planned''] \<and>
     clean (w_resume_pred w) \<noteq> [] \<and> w_ready_at w = None"

definition closed_row :: "work_row \<Rightarrow> bool" where
  "closed_row w \<longleftrightarrow> w_archived w \<noteq> None \<or> terminal (lower (strip (w_intent w)))"

definition held_intents :: "string list" where
  "held_intents = [''blocked'', ''paused'', ''held'', ''hold'']"

text \<open>The transaction of \<open>claim_work\<close> after the optional amendment of the row.\<close>

definition claim_unlocked ::
  "string list \<Rightarrow> string \<Rightarrow> string \<Rightarrow> string \<Rightarrow> string \<Rightarrow> string option \<Rightarrow> seconds \<Rightarrow> seconds \<Rightarrow> db
     \<Rightarrow> err + (db \<times> string)" where
  "claim_unlocked lanes claim_id token sid work step lease t d0 =
     (let d = fst (release_expired_claims_unlocked t (Some work) d0) in
      case workd d work of
        None \<Rightarrow> Inl (UnknownWork work)
      | Some w \<Rightarrow>
          if assigned_elsewhere (session_actor_of d sid) w
          then Inl (AssignedElsewhere work (norm (w_assignee w)))
          else case own_running_claim lanes sid work t d of
            Some c \<Rightarrow>
              Inr (mark_running t work
                     (upd_claims (\<lambda>x. c_id x = c_id c \<and> c_status x = ''running'')
                        (reclaim step t lease) d), c_id c)
          | None \<Rightarrow>
              if closed_row w then Inl (TerminalWork work)
              else if conditionally_parked w then Inl (ParkedWork work)
              else if lower (strip (w_intent w)) \<in> set held_intents
                then claim_held_row lanes sid w step lease t d
              else bindE (insert_claim (fresh_claim claim_id token sid work step lease t) d)
                     (\<lambda>d'. Inr (mark_running t work d', claim_id)))"

section \<open>Who may act on a claim\<close>

definition claim_mutation_system_callers :: "string list" where
  "claim_mutation_system_callers =
     [''reaper:expired_lease'', ''reaper:zombie_session'', ''handoff:ownership_transfer'']"

definition actor_or_expected :: "string option \<Rightarrow> string \<Rightarrow> string" where
  "actor_or_expected actor sid =
     (if norm actor \<noteq> [] then norm actor else otext (expected_actor_for_session_id sid))"

definition assert_claim_holder ::
  "string list \<Rightarrow> db \<Rightarrow> string \<Rightarrow> string option \<Rightarrow> string option \<Rightarrow> string option
     \<Rightarrow> err + claim_row option" where
  "assert_claim_holder lanes d claim_id session_id actor system_caller =
     (let sys = clean system_caller in
      if sys \<noteq> [] \<and> sys \<notin> set claim_mutation_system_callers then Inl (ValueErr ''system_caller'')
      else case claimd d claim_id of
        None \<Rightarrow> Inr None
      | Some c \<Rightarrow>
          if sys \<noteq> [] then Inr (Some c)
          else let holder = strip (c_session c);
                   caller = clean session_id;
                   caller_actor = actor_or_expected actor caller
            in if caller = [] then Inl (ValueErr ''session identity required'')
               else if caller_actor \<noteq> [] \<and> \<not> session_actor_ok caller caller_actor
                 then Inl (ActorMismatch caller caller_actor)
               else if caller = holder then Inr (Some c)
               else if holder \<noteq> [] \<and>
                       holder \<in> set (related_session_ids lanes d caller (opt_text caller_actor))
                 then Inr (Some c)
               else Inl (NotHolder claim_id))"

section \<open>Heartbeat and release\<close>

text \<open>The unique index of held claims is checked by the UPDATE of the status (\<open>one_held\<close>).\<close>

definition heartbeat_row :: "seconds \<Rightarrow> seconds \<Rightarrow> string option \<Rightarrow> claim_row \<Rightarrow> claim_row" where
  "heartbeat_row t lease step c =
     c\<lparr>c_heartbeat := t, c_expires := t + lease, c_step := coalesce step (c_step c)\<rparr>"

definition heartbeat_claim ::
  "string list \<Rightarrow> string \<Rightarrow> seconds \<Rightarrow> string option \<Rightarrow> string option \<Rightarrow> string option
     \<Rightarrow> string option \<Rightarrow> seconds \<Rightarrow> db \<Rightarrow> err + db" where
  "heartbeat_claim lanes claim_id lease step session_id actor system_caller t d =
     bindE (assert_claim_holder lanes d claim_id session_id actor system_caller) (\<lambda>_.
       case claimd d claim_id of
         None \<Rightarrow> Inl (MissingClaim claim_id)
       | Some c \<Rightarrow>
           if lower (strip (c_status c)) \<noteq> ''running'' then Inl (ClaimStatus claim_id (c_status c))
           else if c_expires c \<le> t then Inl (ClaimExpired claim_id)
           else let d' = upd_claims (\<lambda>x. c_id x = claim_id) (heartbeat_row t lease step) d in
             Inr (if c_session c = [] then d'
                  else renew_sessions_and_claims
                         (related_session_ids lanes d' (c_session c) (map_option s_actor (sess d (c_session c))))
                         t lease d'))"

definition releasable_claim_statuses :: "string list" where
  "releasable_claim_statuses = [''released'', ''unclaimed'', ''paused'', ''blocked'']"

definition set_disposition ::
  "string \<Rightarrow> string \<Rightarrow> string \<Rightarrow> string \<Rightarrow> seconds \<Rightarrow> work_row \<Rightarrow> work_row" where
  "set_disposition status next_step resume_when predicate t w =
     w\<lparr>w_intent := status,
       w_reason := (if status = ''blocked''
                    then coalesce (opt_text (otext (w_reason w))) (Some ''blocked'') else w_reason w),
       w_next_step := coalesce (opt_text next_step) (w_next_step w),
       w_resume_when := coalesce (opt_text resume_when) (w_resume_when w),
       w_resume_pred := coalesce (opt_text predicate) (w_resume_pred w),
       w_ready_at := (if predicate \<noteq> [] then None else w_ready_at w),
       w_updated := t, w_version := w_version w + 1\<rparr>"

definition release_status :: "string \<Rightarrow> string option \<Rightarrow> claim_row \<Rightarrow> claim_row" where
  "release_status status reason c =
     c\<lparr>c_status := status, c_reason := reason, c_version := c_version c + 1\<rparr>"

definition park_texts :: "string \<Rightarrow> string option \<Rightarrow> string option \<Rightarrow> err + (string \<times> string)" where
  "park_texts status next_step resume_when =
     (if status = ''paused'' then require_park_resume_contract next_step resume_when
      else Inr (clean next_step, clean resume_when))"

definition release_predicate ::
  "lib \<Rightarrow> string \<Rightarrow> string \<Rightarrow> string option \<Rightarrow> bool \<Rightarrow> err + string option" where
  "release_predicate L status resume_when predicate manual =
     (if status \<in> set [''paused'', ''blocked'']
      then normalize_resume_trigger_contract L (Some resume_when) predicate manual else Inr None)"

definition release_writes ::
  "string \<Rightarrow> string option \<Rightarrow> string \<Rightarrow> string \<Rightarrow> string \<Rightarrow> claim_row \<Rightarrow> seconds \<Rightarrow> db \<Rightarrow> err + db" where
  "release_writes status reason next_step resume_when predicate c t d =
     (let d1 = upd_claims (\<lambda>x. c_id x = c_id c) (release_status status reason) d;
          open_row = (\<lambda>w. w_id w = c_work c \<and> \<not> terminal (w_intent w))
      in if \<not> one_held d1 then Inl (IntegrityHeldClaim (c_work c))
         else if status \<in> set [''released'', ''unclaimed''] then Inr (upd_works open_row (requeue t) d1)
         else Inr (upd_works open_row (set_disposition status next_step resume_when predicate t) d1))"

definition release_claim ::
  "lib \<Rightarrow> string list \<Rightarrow> string \<Rightarrow> string \<Rightarrow> string option \<Rightarrow> string option \<Rightarrow> string option
     \<Rightarrow> string option \<Rightarrow> bool \<Rightarrow> string option \<Rightarrow> string option \<Rightarrow> string option
     \<Rightarrow> seconds \<Rightarrow> db \<Rightarrow> err + db" where
  "release_claim L lanes claim_id status reason next_step resume_when predicate manual
     session_id actor system_caller t d =
     (if status \<notin> set releasable_claim_statuses then Inl (ValueErr ''release status'')
      else if status = ''blocked'' \<and> clean reason = [] then Inl (ValueErr ''blocked needs a reason'')
      else bindE (assert_claim_holder lanes d claim_id session_id actor system_caller) (\<lambda>_.
        bindE (park_texts status next_step resume_when) (\<lambda>(parked_next, parked_when).
        bindE (release_predicate L status parked_when predicate manual) (\<lambda>canonical.
          case claimd d claim_id of
            None \<Rightarrow> Inl (MissingClaim claim_id)
          | Some c \<Rightarrow>
              if lower (strip (c_status c)) \<notin> set held_statuses
              then Inl (ClaimStatus claim_id (c_status c))
              else if c_expires c \<le> t then Inl (ClaimExpired claim_id)
              else release_writes status reason parked_next parked_when (otext canonical) c t d))))"

section \<open>Claiming keeps the constraints and grants one claim\<close>

lemma claim_update_one:
  assumes "wf_db d" "claimd d i = Some c" "held c"
    and keep: "\<And>x. c_id (f x) = c_id x \<and> c_work (f x) = c_work x \<and> c_session (f x) = c_session x"
  shows "wf_db (upd_claims (\<lambda>x. c_id x = i \<and> q x) f d)"
proof -
  have same: "x = c" if "x \<in> set (d_claims d)" "c_id x = i" for x
    using that assms(2) claimd_unique [OF wf_keys [OF assms(1)], of x] by simp
  have "claim_update (\<lambda>x. c_id x = i \<and> q x \<and> held x) f"
    by unfold_locales (simp_all add: keep)
  then have "wf_db (upd_claims (\<lambda>x. c_id x = i \<and> q x \<and> held x) f d)"
    by (rule claim_update.wf) (rule assms(1))
  moreover have "upd_claims (\<lambda>x. c_id x = i \<and> q x \<and> held x) f d = upd_claims (\<lambda>x. c_id x = i \<and> q x) f d"
    unfolding upd_claims_def
    by (rule arg_cong [of _ _ "\<lambda>cs. d\<lparr>d_claims := cs\<rparr>"], rule upd_where_cong) (use same assms(3) in blast)
  ultimately show ?thesis by simp
qed

lemma claimd_upd_id:
  "(\<And>x. c_id (f x) = c_id x) \<Longrightarrow>
   claimd (upd_claims p f d) i = map_option (\<lambda>c. if p c then f c else c) (claimd d i)"
  by (simp add: claimd_def upd_claims_def find_upd_where)

lemma held_running [simp]: "c_status c = ''running'' \<Longrightarrow> held c"
  by (simp add: held_def held_statuses_def)

lemma set_running_simps [simp]:
  "w_id (set_running t w) = w_id w" "w_intent (set_running t w) = ''running''"
  by (simp_all add: set_running_def)

lemma wf_mark_running: "wf_db d \<Longrightarrow> wf_db (mark_running t work d)"
  by (simp add: mark_running_def wf_upd_works)

lemma mark_running_frames [table_simps]:
  "d_claims (mark_running t work d) = d_claims d" "claimd (mark_running t work d) i = claimd d i"
  "d_sessions (mark_running t work d) = d_sessions d" "d_events (mark_running t work d) = d_events d"
  "d_runs (mark_running t work d) = d_runs d"
  by (simp_all add: mark_running_def claimd_def table_simps)

lemma workd_mark_running:
  "workd (mark_running t work d) i = map_option (\<lambda>w. if w_id w = work then set_running t w else w) (workd d i)"
  by (simp add: mark_running_def workd_upd_works)

lemma workd_upd_claims [table_simps]: "workd (upd_claims p f d) i = workd d i"
  by (simp add: workd_def table_simps)

lemma own_running_claim_SomeD:
  "own_running_claim lanes sid work t d = Some c \<Longrightarrow>
   c \<in> set (d_claims d) \<and> live_running t work c \<and> strip (c_session c) \<in> set (claim_family lanes d sid)"
  by (auto simp: own_running_claim_def dest!: select_max_SomeD split: option.splits if_splits)

lemma own_parked_claim_SomeD:
  "own_parked_claim lanes sid work t d = Some c \<Longrightarrow>
   c \<in> set (d_claims d) \<and> live_parked t work c \<and> strip (c_session c) \<in> set (claim_family lanes d sid)"
  by (auto simp: own_parked_claim_def Let_def claim_family_def dest!: select_max_SomeD
      split: option.splits if_splits)

lemma claim_family_same:
  assumes "d_sessions d = d_sessions d'"
  shows "claim_family lanes d sid = claim_family lanes d' sid"
  using assms related_view_only [of d d']
  by (simp add: claim_family_def session_actor_of_def sess_def identity_view_def)

text \<open>The three ways a claim is granted.\<close>

definition granted ::
  "db \<Rightarrow> db \<Rightarrow> string list \<Rightarrow> string \<Rightarrow> string \<Rightarrow> seconds \<Rightarrow> seconds \<Rightarrow> claim_row \<Rightarrow> bool" where
  "granted d d' fam i work lease t c \<longleftrightarrow>
     claimd d' i = Some c \<and> c_work c = work \<and> c_status c = ''running'' \<and> c_expires c = t + lease \<and>
     c_heartbeat c = t \<and> (c_session c \<in> set fam \<or> strip (c_session c) \<in> set fam) \<and>
     (\<exists>w. workd d' work = Some w \<and> w_intent w = ''running'')"

lemma reclaim_grants:
  assumes "wf_db d" "workd d work = Some w" "own_running_claim lanes sid work t d = Some c"
  shows "let d' = mark_running t work
                    (upd_claims (\<lambda>x. c_id x = c_id c \<and> c_status x = ''running'') (reclaim step t lease) d)
         in wf_db d' \<and> granted d d' (claim_family lanes d sid) (c_id c) work lease t (reclaim step t lease c)"
proof -
  note own = own_running_claim_SomeD [OF assms(3)]
  have c: "claimd d (c_id c) = Some c" using own wf_keys [OF assms(1)] by (simp add: claimd_unique)
  have r: "c_status c = ''running''" "c_work c = work" using own by (auto simp: live_running_def)
  have "wf_db (upd_claims (\<lambda>x. c_id x = c_id c \<and> c_status x = ''running'') (reclaim step t lease) d)"
    using c r by (intro claim_update_one [OF assms(1)]) (auto simp: reclaim_def)
  then show ?thesis
    using c r own assms(2)
    by (simp add: Let_def granted_def wf_mark_running table_simps claimd_upd_id reclaim_def
        workd_mark_running workd_SomeD)
qed

lemma resume_grants:
  assumes "wf_db d" "workd d work = Some w" "own_parked_claim lanes sid work t d = Some c"
  shows "let d' = mark_running t work
                    (upd_claims (\<lambda>x. c_id x = c_id c) (resume_claim step t lease) d)
         in wf_db d' \<and> granted d d' (claim_family lanes d sid) (c_id c) work lease t (resume_claim step t lease c)"
proof -
  note own = own_parked_claim_SomeD [OF assms(3)]
  have c: "claimd d (c_id c) = Some c" using own wf_keys [OF assms(1)] by (simp add: claimd_unique)
  have h: "held c" "c_work c = work" using own by (auto simp: live_parked_def held_def held_statuses_def)
  have "wf_db (upd_claims (\<lambda>x. c_id x = c_id c \<and> True) (resume_claim step t lease) d)"
    using c h by (intro claim_update_one [OF assms(1)]) (auto simp: resume_claim_def)
  then show ?thesis
    using c h own assms(2)
    by (simp add: Let_def granted_def wf_mark_running table_simps claimd_upd_id resume_claim_def
        workd_mark_running workd_SomeD)
qed

lemma fresh_grants:
  assumes "wf_db d" "workd d work = Some w"
    and "insert_claim (fresh_claim i token sid work step lease t) d = Inr d'"
  shows "wf_db (mark_running t work d') \<and>
         granted d (mark_running t work d') (claim_family lanes d sid) i work lease t
           (fresh_claim i token sid work step lease t)"
proof -
  let ?c = "fresh_claim i token sid work step lease t"
  have d': "d' = d\<lparr>d_claims := d_claims d @ [?c]\<rparr>" using insert_claim_Inr [OF assms(3)] .
  have "claimd d i = None" using assms(3) by (auto simp: insert_claim_def fresh_claim_def split: if_splits)
  then have "claimd d' i = Some ?c"
    by (simp add: d' claimd_def find_append fresh_claim_def)
  moreover have "workd d' work = Some w" using assms(2) by (simp add: d' workd_def)
  ultimately show ?thesis
    using wf_insert_claim [OF assms(1,3)] workd_SomeD [OF assms(2)]
    by (simp add: granted_def wf_mark_running table_simps fresh_claim_def workd_mark_running claim_family_def)
qed

lemma claim_held_row_grants:
  assumes "wf_db d" "workd d work = Some w" "claim_held_row lanes sid w step lease t d = Inr (d', i)"
  shows "wf_db d' \<and> (\<exists>c. granted d d' (claim_family lanes d sid) i work lease t c)"
proof -
  have w: "w_id w = work" using workd_SomeD [OF assms(2)] by simp
  have "\<exists>c. own_parked_claim lanes sid work t d = Some c \<and> i = c_id c \<and>
          d' = mark_running t work (upd_claims (\<lambda>x. c_id x = c_id c) (resume_claim step t lease) d)"
    using assms(3) unfolding claim_held_row_def Let_def w
    by (cases "own_parked_claim lanes sid work t d") (auto split: if_split_asm)
  then obtain c where c: "own_parked_claim lanes sid work t d = Some c" "i = c_id c"
      "d' = mark_running t work (upd_claims (\<lambda>x. c_id x = c_id c) (resume_claim step t lease) d)"
    by blast
  show ?thesis
    using resume_grants [OF assms(1,2) c(1), of step lease] unfolding Let_def c(2,3) by blast
qed

lemma claim_unlocked_grants:
  assumes wf: "wf_db d0" and got: "claim_unlocked lanes i0 token sid work step lease t d0 = Inr (d', i)"
  shows "wf_db d' \<and> (\<exists>c. granted d0 d' (claim_family lanes d0 sid) i work lease t c)"
proof -
  define d where "d = fst (release_expired_claims_unlocked t (Some work) d0)"
  have wfd: "wf_db d" using wf by (simp add: d_def wf_release_expired)
  have fam: "claim_family lanes d sid = claim_family lanes d0 sid"
    by (rule claim_family_same) (simp add: d_def table_simps)
  obtain w where w: "workd d work = Some w"
    using got by (cases "workd d work") (simp_all add: claim_unlocked_def Let_def flip: d_def)
  have "wf_db d' \<and> (\<exists>c. granted d d' (claim_family lanes d sid) i work lease t c)"
  proof (cases "own_running_claim lanes sid work t d")
    case (Some c)
    then have "d' = mark_running t work (upd_claims (\<lambda>x. c_id x = c_id c \<and> c_status x = ''running'')
        (reclaim step t lease) d)" "i = c_id c"
      using got unfolding claim_unlocked_def Let_def d_def [symmetric] w
      by (auto simp: Some split: if_split_asm)
    then show ?thesis using reclaim_grants [OF wfd w Some, of step lease] unfolding Let_def by blast
  next
    case None
    then consider
        (resume) "claim_held_row lanes sid w step lease t d = Inr (d', i)"
      | (fresh) d1 where "insert_claim (fresh_claim i0 token sid work step lease t) d = Inr d1"
          "d' = mark_running t work d1" "i = i0"
      using got unfolding claim_unlocked_def Let_def d_def [symmetric] w
      by (simp add: None bindE_Inr_iff split: if_split_asm) blast
    then show ?thesis
    proof cases
      case resume
      from claim_held_row_grants [OF wfd w this] show ?thesis .
    next
      case fresh
      from fresh_grants [OF wfd w fresh(1)] fresh(2,3) show ?thesis by blast
    qed
  qed
  then show ?thesis by (simp add: granted_def fam)
qed

text \<open>The claim granted is the only held claim of the row.\<close>

lemma held_claim_unique:
  assumes "wf_db d" "claimd d i = Some c" "held c" "x \<in> set (d_claims d)" "held x" "c_work x = c_work c"
  shows "x = c"
  using unique_whereD [of held c_work "d_claims d" x c] assms claimd_SomeD [OF assms(2)]
  by (simp add: wf_db_def one_held_def)

section \<open>The holder check\<close>

lemma assert_claim_holder_Some:
  assumes "assert_claim_holder lanes d i sid actor sys = Inr (Some c)"
  shows "claimd d i = Some c \<and>
    (clean sys \<in> set claim_mutation_system_callers \<or>
     clean sid \<noteq> [] \<and>
     related.holds lanes d (clean sid) (opt_text (actor_or_expected actor (clean sid))) (strip (c_session c)))"
  using assms
  by (auto simp: assert_claim_holder_def Let_def related.holds_def split: option.splits if_split_asm)

lemma assert_claim_holder_None:
  "assert_claim_holder lanes d i sid actor sys = Inr None \<Longrightarrow> claimd d i = None"
  by (auto simp: assert_claim_holder_def Let_def split: option.splits if_split_asm)

lemma assert_claim_holder_self:
  assumes "claimd d i = Some c" "clean sys = []" "strip (c_session c) = clean sid" "clean sid \<noteq> []"
    and "actor_or_expected actor (clean sid) = [] \<or> session_actor_ok (clean sid) (actor_or_expected actor (clean sid))"
  shows "assert_claim_holder lanes d i sid actor sys = Inr (Some c)"
  using assms by (auto simp: assert_claim_holder_def Let_def)

section \<open>Heartbeat and release keep the constraints\<close>

lemma heartbeat_claim_Inr:
  assumes "heartbeat_claim lanes i lease step sid actor sys t d = Inr d'"
  shows "\<exists>c. claimd d i = Some c \<and> assert_claim_holder lanes d i sid actor sys = Inr (Some c) \<and>
     lower (strip (c_status c)) = ''running'' \<and> t < c_expires c \<and>
     d' = (let d1 = upd_claims (\<lambda>x. c_id x = i) (heartbeat_row t lease step) d in
           if c_session c = [] then d1
           else renew_sessions_and_claims
                  (related_session_ids lanes d1 (c_session c) (map_option s_actor (sess d (c_session c))))
                  t lease d1)"
proof -
  obtain x where x: "assert_claim_holder lanes d i sid actor sys = Inr x"
    using assms by (auto simp: heartbeat_claim_def bindE_Inr_iff)
  obtain c where c: "claimd d i = Some c"
    using assms by (cases "claimd d i") (auto simp: heartbeat_claim_def bindE_Inr_iff)
  have "x = Some c"
    using x c assert_claim_holder_None [of lanes d i sid actor sys] assert_claim_holder_Some [of lanes d i sid actor sys]
    by (cases x) auto
  then show ?thesis
    using assms x c by (auto simp: heartbeat_claim_def Let_def split: if_split_asm)
qed

interpretation heartbeat_update: claim_update p "heartbeat_row t lease step" for p t lease step
  by unfold_locales (auto simp: heartbeat_row_def held_def)

lemma wf_heartbeat_claim:
  assumes "wf_db d" "heartbeat_claim lanes i lease step sid actor sys t d = Inr d'"
  shows "wf_db d'"
  using heartbeat_claim_Inr [OF assms(2)] heartbeat_update.wf [OF assms(1)]
  by (auto simp: Let_def wf_renew)

lemma release_claim_Inr:
  assumes "release_claim L lanes i status reason next_step resume_when predicate manual sid actor sys t d = Inr d'"
  shows "\<exists>c pn pw pj. claimd d i = Some c \<and> status \<in> set releasable_claim_statuses \<and>
     assert_claim_holder lanes d i sid actor sys = Inr (Some c) \<and>
     lower (strip (c_status c)) \<in> set held_statuses \<and> t < c_expires c \<and>
     park_texts status next_step resume_when = Inr (pn, pw) \<and>
     release_predicate L status pw predicate manual = Inr pj \<and>
     release_writes status reason pn pw (otext pj) c t d = Inr d'"
proof -
  obtain x pn pw pj where x: "assert_claim_holder lanes d i sid actor sys = Inr x"
    "park_texts status next_step resume_when = Inr (pn, pw)"
    "release_predicate L status pw predicate manual = Inr pj"
    using assms by (auto simp: release_claim_def bindE_Inr_iff split: if_split_asm)
  obtain c where c: "claimd d i = Some c"
    using assms by (cases "claimd d i") (auto simp: release_claim_def bindE_Inr_iff split: if_split_asm)
  have "x = Some c"
    using x(1) c assert_claim_holder_None [of lanes d i sid actor sys] assert_claim_holder_Some [of lanes d i sid actor sys]
    by (cases x) auto
  moreover have "t < c_expires c" "lower (strip (c_status c)) \<in> set held_statuses"
      "status \<in> set releasable_claim_statuses"
    using assms x c by (auto simp: release_claim_def Let_def split: if_split_asm)
  moreover have "release_writes status reason pn pw (otext pj) c t d = Inr d'"
    using assms x c by (auto simp: release_claim_def split: if_split_asm)
  ultimately show ?thesis using x c by blast
qed

lemma upd_claims_checked:
  assumes "wf_db d" "one_held (upd_claims p f d)"
    and "\<And>c. c_id (f c) = c_id c \<and> c_work (f c) = c_work c \<and> c_session (f c) = c_session c"
  shows "wf_db (upd_claims p f d)"
proof -
  have "map c_id (upd_where p f (d_claims d)) = map c_id (d_claims d)"
    using assms(3) by (intro map_key_upd_where) simp
  moreover have "refs_ok (upd_claims p f d)"
    using assms(1,3) by (fastforce simp: wf_db_def refs_ok_def upd_claims_def dest!: in_upd_whereD)
  ultimately show ?thesis
    using assms(1,2) by (simp add: wf_db_def keys_ok_def events_ok_def upd_claims_def)
qed

lemma set_disposition_simps [simp]:
  "w_id (set_disposition status n r p t w) = w_id w" "w_intent (set_disposition status n r p t w) = status"
  by (simp_all add: set_disposition_def)

lemma wf_release_writes:
  assumes "wf_db d" "release_writes status reason n r p c t d = Inr d'"
  shows "wf_db d'"
proof -
  have "wf_db (upd_claims (\<lambda>x. c_id x = c_id c) (release_status status reason) d)"
    using assms(2) by (intro upd_claims_checked [OF assms(1)])
      (auto simp: release_writes_def Let_def release_status_def split: if_split_asm)
  then show ?thesis
    using assms(2) by (auto simp: release_writes_def Let_def wf_upd_works split: if_split_asm)
qed

lemma wf_release_claim:
  "wf_db d \<Longrightarrow>
   release_claim L lanes i status reason next_step resume_when predicate manual sid actor sys t d = Inr d' \<Longrightarrow>
   wf_db d'"
  by (drule release_claim_Inr, elim exE conjE, rule wf_release_writes)

text \<open>Releasing never reopens a closed row.\<close>

lemma release_writes_terminal:
  assumes "release_writes status reason n r p c t d = Inr d'" "workd d wid = Some w" "terminal (w_intent w)"
  shows "workd d' wid = Some w"
proof -
  have "workd (upd_works (\<lambda>w. w_id w = k \<and> \<not> terminal (w_intent w)) f (upd_claims q g d)) wid = Some w"
    if "\<And>w. w_id (f w) = w_id w" for f k q g
    using assms(2,3) that by (simp add: workd_upd_works table_simps)
  with assms(1) show ?thesis by (auto simp: release_writes_def Let_def split: if_split_asm)
qed

section \<open>What a claim leaves alone\<close>

lemma filter_upd_where_other:
  "(\<And>x. x \<in> set xs \<Longrightarrow> p x \<Longrightarrow> \<not> q x \<and> \<not> q (f x)) \<Longrightarrow> filter q (upd_where p f xs) = filter q xs"
  by (induction xs) auto

lemma workd_upd_other:
  assumes "\<And>w. p w \<Longrightarrow> w_id w \<noteq> j" "\<And>w. w_id (f w) = w_id w"
  shows "workd (upd_works p f d) j = workd d j"
  using assms by (cases "workd d j") (auto simp: workd_upd_works dest: workd_SomeD)

lemma release_one_other:
  assumes other: "c_work row \<noteq> j"
  shows "workd (fst (release_one t row d)) j = workd d j"
proof -
  have "workd (upd_works (requeueable (c_work row)) (requeue t) (upd_claims p f d)) j = workd d j" for p f
    using other workd_upd_other [of "requeueable (c_work row)" j "requeue t" "upd_claims p f d"]
    by (simp add: requeueable_def table_simps)
  then show ?thesis by (simp add: release_one_def Let_def table_simps)
qed

lemma release_rows_other:
  "(\<And>r. r \<in> set rows \<Longrightarrow> c_work r \<noteq> j) \<Longrightarrow> workd (fst (release_rows t rows d)) j = workd d j"
  by (induction rows arbitrary: d) (simp_all add: Let_def case_prod_beta release_one_other)

lemma release_expired_other:
  assumes "wf_db d" "work \<noteq> []"
  shows "filter (\<lambda>c. c_work c \<noteq> work) (d_claims (fst (release_expired_claims_unlocked t (Some work) d))) =
           filter (\<lambda>c. c_work c \<noteq> work) (d_claims d)"
    and "j \<noteq> work \<Longrightarrow> workd (fst (release_expired_claims_unlocked t (Some work) d)) j = workd d j"
proof -
  show "filter (\<lambda>c. c_work c \<noteq> work) (d_claims (fst (release_expired_claims_unlocked t (Some work) d))) =
      filter (\<lambda>c. c_work c \<noteq> work) (d_claims d)"
    unfolding release_expired_claims_table(1) [OF assms(1)] using assms(2)
    by (intro filter_upd_where_other) (auto simp: expired_at_def expire_claim_def)
  show "j \<noteq> work \<Longrightarrow> workd (fst (release_expired_claims_unlocked t (Some work) d)) j = workd d j"
    using assms(2) unfolding release_expired_claims_unlocked_def
    by (intro release_rows_other) (auto simp: expired_rows_def expired_at_def)
qed

definition same_elsewhere :: "string \<Rightarrow> db \<Rightarrow> db \<Rightarrow> bool" where
  "same_elsewhere work d d' \<longleftrightarrow>
     filter (\<lambda>c. c_work c \<noteq> work) (d_claims d') = filter (\<lambda>c. c_work c \<noteq> work) (d_claims d) \<and>
     (\<forall>j. j \<noteq> work \<longrightarrow> workd d' j = workd d j) \<and>
     d_sessions d' = d_sessions d \<and> d_runs d' = d_runs d \<and> d_events d' = d_events d"

lemma same_elsewhere_refl [simp]: "same_elsewhere work d d"
  by (simp add: same_elsewhere_def)

lemma same_elsewhere_trans:
  "same_elsewhere work d d1 \<Longrightarrow> same_elsewhere work d1 d2 \<Longrightarrow> same_elsewhere work d d2"
  by (simp add: same_elsewhere_def)

lemma same_elsewhere_mark: "same_elsewhere work d (mark_running t work d)"
proof -
  have "workd (mark_running t work d) j = workd d j" if "j \<noteq> work" for j
    unfolding mark_running_def using that by (intro workd_upd_other) auto
  then show ?thesis by (simp add: same_elsewhere_def table_simps)
qed

lemma same_elsewhere_upd_claim:
  assumes "wf_db d" "claimd d i = Some c" "c_work c = work" "\<And>x. c_work (f x) = c_work x"
  shows "same_elsewhere work d (upd_claims (\<lambda>x. c_id x = i \<and> q x) f d)"
proof -
  have "x = c" if "x \<in> set (d_claims d)" "c_id x = i" for x
    using that assms(2) claimd_unique [OF wf_keys [OF assms(1)], of x] by simp
  then have "filter (\<lambda>c. c_work c \<noteq> work) (upd_where (\<lambda>x. c_id x = i \<and> q x) f (d_claims d)) =
      filter (\<lambda>c. c_work c \<noteq> work) (d_claims d)"
    using assms(3,4) by (intro filter_upd_where_other) auto
  then show ?thesis by (simp add: same_elsewhere_def table_simps)
qed

lemma same_elsewhere_insert:
  "insert_claim c d = Inr d' \<Longrightarrow> c_work c = work \<Longrightarrow> same_elsewhere work d d'"
  by (auto dest!: insert_claim_Inr simp: same_elsewhere_def workd_def)

lemma claim_held_row_other:
  assumes "wf_db d" "w_id w = work" "claim_held_row lanes sid w step lease t d = Inr (d', i)"
  shows "same_elsewhere work d d'"
proof -
  obtain c where c: "own_parked_claim lanes sid work t d = Some c"
      "d' = mark_running t work (upd_claims (\<lambda>x. c_id x = c_id c \<and> True) (resume_claim step t lease) d)"
    using assms(3) unfolding claim_held_row_def Let_def assms(2)
    by (cases "own_parked_claim lanes sid work t d") (auto split: if_split_asm)
  then have "claimd d (c_id c) = Some c" "c_work c = work"
    using own_parked_claim_SomeD [OF c(1)] wf_keys [OF assms(1)] by (auto simp: claimd_unique live_parked_def)
  then have "same_elsewhere work d
      (upd_claims (\<lambda>x. c_id x = c_id c \<and> True) (resume_claim step t lease) d)"
    by (rule same_elsewhere_upd_claim [OF assms(1)]) (simp add: resume_claim_def)
  then show ?thesis unfolding c(2) using same_elsewhere_mark by (rule same_elsewhere_trans)
qed

lemma claim_unlocked_other:
  assumes wf: "wf_db d0" and "work \<noteq> []"
    and got: "claim_unlocked lanes i0 token sid work step lease t d0 = Inr (d', i)"
  shows "same_elsewhere work d0 d'"
proof -
  define d where "d = fst (release_expired_claims_unlocked t (Some work) d0)"
  have wfd: "wf_db d" using wf by (simp add: d_def wf_release_expired)
  have rel: "same_elsewhere work d0 d"
    using release_expired_other [OF wf assms(2)] by (simp add: same_elsewhere_def d_def table_simps)
  obtain w where w: "workd d work = Some w"
    using got by (cases "workd d work") (simp_all add: claim_unlocked_def Let_def flip: d_def)
  have "same_elsewhere work d d'"
  proof (cases "own_running_claim lanes sid work t d")
    case (Some c)
    then have d': "d' = mark_running t work (upd_claims (\<lambda>x. c_id x = c_id c \<and> c_status x = ''running'')
        (reclaim step t lease) d)"
      using got unfolding claim_unlocked_def Let_def d_def [symmetric] w
      by (auto split: if_split_asm)
    have "claimd d (c_id c) = Some c" "c_work c = work"
      using own_running_claim_SomeD [OF Some] wf_keys [OF wfd] by (auto simp: claimd_unique live_running_def)
    then have "same_elsewhere work d (upd_claims (\<lambda>x. c_id x = c_id c \<and> c_status x = ''running'')
        (reclaim step t lease) d)"
      by (rule same_elsewhere_upd_claim [OF wfd]) (simp add: reclaim_def)
    then show ?thesis unfolding d' using same_elsewhere_mark by (rule same_elsewhere_trans)
  next
    case None
    then consider
        (resume) "claim_held_row lanes sid w step lease t d = Inr (d', i)"
      | (fresh) d1 where "insert_claim (fresh_claim i0 token sid work step lease t) d = Inr d1"
          "d' = mark_running t work d1"
      using got unfolding claim_unlocked_def Let_def d_def [symmetric] w
      by (simp add: None bindE_Inr_iff split: if_split_asm) blast
    then show ?thesis
    proof cases
      case resume
      with claim_held_row_other [OF wfd] workd_SomeD [OF w] show ?thesis by blast
    next
      case fresh
      have "same_elsewhere work d d1"
        by (rule same_elsewhere_insert [OF fresh(1)]) (simp add: fresh_claim_def)
      then show ?thesis unfolding fresh(2) using same_elsewhere_mark by (rule same_elsewhere_trans)
    qed
  qed
  with rel show ?thesis by (rule same_elsewhere_trans)
qed

lemma claimd_renew:
  "claimd (renew_sessions_and_claims ids t lease d) i =
     map_option (\<lambda>c. if c_session c \<in> set (filter (\<lambda>i. i \<noteq> []) (map strip ids)) \<and> held c
                     then renew_claim t lease c else c) (claimd d i)"
  by (simp add: claimd_def renew_claims find_upd_where renew_claim_def)

lemma release_writes_claim:
  assumes "release_writes status reason n r p c t d = Inr d'"
  shows "claimd d' i = map_option (\<lambda>x. if c_id x = c_id c then release_status status reason x else x) (claimd d i)
    \<and> c_status (release_status status reason c) = status"
proof -
  have "claimd (upd_works q f (upd_claims (\<lambda>x. c_id x = c_id c) (release_status status reason) d)) i =
      map_option (\<lambda>x. if c_id x = c_id c then release_status status reason x else x) (claimd d i)" for q f
    using claimd_upd_id [of "release_status status reason" "\<lambda>x. c_id x = c_id c" d i]
    by (simp add: claimd_def table_simps release_status_def)
  moreover have "\<exists>q f. d' = upd_works q f (upd_claims (\<lambda>x. c_id x = c_id c) (release_status status reason) d)"
    using assms unfolding release_writes_def Let_def by (simp split: if_split_asm) blast+
  ultimately show ?thesis by (auto simp: release_status_def)
qed

lemma release_writes_work:
  assumes "release_writes status reason n r p c t d = Inr d'" "status \<in> set releasable_claim_statuses"
    and "workd d (c_work c) = Some w" "\<not> terminal (w_intent w)"
  shows "map_option w_intent (workd d' (c_work c)) =
    Some (if status \<in> {''paused'', ''blocked''} then status else ''queued'')"
proof -
  have w: "w_id w = c_work c" using workd_SomeD [OF assms(3)] by simp
  let ?upd = "\<lambda>f. upd_works (\<lambda>w. w_id w = c_work c \<and> \<not> terminal (w_intent w)) f
      (upd_claims (\<lambda>x. c_id x = c_id c) (release_status status reason) d)"
  have q: "workd (?upd (requeue t)) (c_work c) = Some (requeue t w)"
    using assms(3,4) w by (simp add: workd_upd_works table_simps)
  have s: "workd (?upd (set_disposition status n r p t)) (c_work c) = Some (set_disposition status n r p t w)"
    using assms(3,4) w by (simp add: workd_upd_works table_simps)
  show ?thesis
  proof (cases "status \<in> {''paused'', ''blocked''}")
    case True
    then have "d' = ?upd (set_disposition status n r p t)"
      using assms(1) unfolding release_writes_def Let_def by (auto split: if_split_asm)
    then show ?thesis using s True by simp
  next
    case False
    then have "d' = ?upd (requeue t)"
      using assms(1,2) unfolding release_writes_def Let_def releasable_claim_statuses_def
      by (simp split: if_split_asm)
    then show ?thesis using q False by (simp add: requeue_def)
  qed
qed

end
