(* ===== verification/WorkPolicy.thy ===== *)
theory WorkPolicy
  imports CreationLint Claims
begin

text \<open>
  The policy every write of a work row passes (coord_db.py, \<open>_public_writer_creation\<close> to
  \<open>create_work\<close>), the operator's approval events it consults, and \<open>claim_work\<close> with the
  amendment it may carry. Where the code would raise an AttributeError on JSON that is not
  an object, the model returns an error.
\<close>

section \<open>Rows as dictionaries\<close>

definition jopt :: "string option \<Rightarrow> json" where
  "jopt x = (case x of None \<Rightarrow> JNull | Some s \<Rightarrow> JStr s)"

definition jint :: "int option \<Rightarrow> json" where
  "jint x = (case x of None \<Rightarrow> JNull | Some i \<Rightarrow> JInt i)"

definition jsec :: "seconds option \<Rightarrow> json" where
  "jsec x = (case x of None \<Rightarrow> JNull | Some q \<Rightarrow> JFloat q)"

fun jcell :: "cell \<Rightarrow> json" where
  "jcell CNull = JNull"
| "jcell (CInt i) = JInt i"
| "jcell (CReal q) = JFloat q"
| "jcell (CText s) = JStr s"

definition row_dict :: "work_row \<Rightarrow> pyrow" where
  "row_dict w =
     [(''work_id'', JStr (w_id w)), (''parent_id'', jopt (w_parent w)), (''title'', JStr (w_title w)),
      (''display'', jopt (w_display w)), (''assignee'', jopt (w_assignee w)), (''module'', jopt (w_module w)),
      (''sublane'', jopt (w_sublane w)), (''kind'', jopt (w_kind w)), (''tier'', jopt (w_tier w)),
      (''intent_state'', JStr (w_intent w)), (''blocked_reason_class'', jopt (w_reason w)),
      (''next_step'', jopt (w_next_step w)), (''resume_when'', jopt (w_resume_when w)),
      (''resume_predicate_json'', jopt (w_resume_pred w)), (''continuation_ready_at'', jsec (w_ready_at w)),
      (''operator_ok_event_id'', jint (w_op_ok w)), (''tier_correction_event_id'', jint (w_tier_corr w)),
      (''done_signal'', jopt (w_done_signal w)), (''acceptance_json'', JStr (w_acceptance w)),
      (''rubric_verdict'', jopt (w_rubric w)), (''priority'', JInt (w_priority w)),
      (''context_pack_ref'', jopt (w_context w)), (''note'', jopt (w_note w)),
      (''depends_on'', jopt (w_depends w)), (''created_by_session_id'', jopt (w_created_by w)),
      (''version'', JInt (w_version w)), (''archived_at'', jsec (w_archived w)),
      (''created_at'', JFloat (w_created w)), (''updated_at'', JFloat (w_updated w))] @
     map (\<lambda>kv. (fst kv, jcell (snd kv))) (w_other w)"

fun field_value :: "work_field \<Rightarrow> json" where
  "field_value (F_parent v) = jopt v"
| "field_value (F_title v) = JStr v"
| "field_value (F_display v) = jopt v"
| "field_value (F_assignee v) = jopt v"
| "field_value (F_module v) = jopt v"
| "field_value (F_sublane v) = jopt v"
| "field_value (F_kind v) = jopt v"
| "field_value (F_tier v) = jopt v"
| "field_value (F_intent v) = JStr v"
| "field_value (F_reason v) = jopt v"
| "field_value (F_next_step v) = jopt v"
| "field_value (F_resume_when v) = jopt v"
| "field_value (F_resume_pred v) = jopt v"
| "field_value (F_ready_at v) = jsec v"
| "field_value (F_op_ok v) = jint v"
| "field_value (F_tier_corr v) = jint v"
| "field_value (F_done_signal v) = jopt v"
| "field_value (F_acceptance v) = JStr v"
| "field_value (F_rubric v) = jopt v"
| "field_value (F_priority v) = JInt v"
| "field_value (F_context v) = jopt v"
| "field_value (F_note v) = jopt v"
| "field_value (F_depends v) = jopt v"
| "field_value (F_created_by v) = jopt v"
| "field_value (F_other k v) = jcell v"

definition fields_dict :: "work_field list \<Rightarrow> pyrow" where
  "fields_dict fs = map (\<lambda>f. (field_name f, field_value f)) fs"

definition has_key :: "pyrow \<Rightarrow> string \<Rightarrow> bool" where
  "has_key row k \<longleftrightarrow> k \<in> fst ` set row"

text \<open>\<open>dict(existing)\<close> updated with the fields; the fields shadow the row.\<close>

definition merged_row :: "string \<Rightarrow> work_row option \<Rightarrow> work_field list \<Rightarrow> pyrow" where
  "merged_row work_id existing fs =
     fields_dict fs @ (case existing of None \<Rightarrow> [(''work_id'', JStr work_id)] | Some w \<Rightarrow> row_dict w)"

definition jopt_text :: "json \<Rightarrow> string option" where
  "jopt_text j = (case j of JStr s \<Rightarrow> Some s | _ \<Rightarrow> None)"

text \<open>\<open>int(x or 0)\<close> of an INTEGER column.\<close>

definition int_or_zero :: "json \<Rightarrow> int" where
  "int_or_zero j = (case j of JInt i \<Rightarrow> i | _ \<Rightarrow> 0)"

text \<open>\<open>j == n\<close>, where Python compares numbers and booleans by value.\<close>

fun json_eq_int :: "json \<Rightarrow> int \<Rightarrow> bool" where
  "json_eq_int (JInt i) n = (i = n)"
| "json_eq_int (JFloat q) n = (q = of_int n)"
| "json_eq_int (JBool b) n = ((if b then 1 else 0) = n)"
| "json_eq_int _ n = False"

text \<open>The text a JSON column is stored as.\<close>

definition column_text :: "lib \<Rightarrow> json \<Rightarrow> string" where
  "column_text L j = (case j of JRaw s \<Rightarrow> s | _ \<Rightarrow> dumps L j)"

section \<open>Operator approval\<close>

definition operator_authority_work_fields :: "string list" where
  "operator_authority_work_fields =
     [''work_id'', ''title'', ''assignee'', ''tier'', ''kind'', ''module'', ''sublane'', ''parent_id'',
      ''acceptance_json'', ''done_signal'', ''context_pack_ref'', ''depends_on'']"

definition operator_authority_contract_sha256 :: "lib \<Rightarrow> pyrow \<Rightarrow> string" where
  "operator_authority_contract_sha256 L row =
     digest L (JObj (map (\<lambda>k. (k, field row k)) operator_authority_work_fields))"

definition is_sha_text :: "string \<Rightarrow> bool" where
  "is_sha_text s \<longleftrightarrow> length s = 64 \<and> list_all is_lower_hex s"

definition is_int_value :: "json \<Rightarrow> bool" where
  "is_int_value j \<longleftrightarrow> (case j of JInt _ \<Rightarrow> True | JBool _ \<Rightarrow> True | _ \<Rightarrow> False)"

definition operator_ok_event_is_valid :: "lib \<Rightarrow> event_row \<Rightarrow> string \<Rightarrow> pyrow \<Rightarrow> err + bool" where
  "operator_ok_event_is_valid L e work_id row =
     (if lower (strip (e_kind e)) \<noteq> ''operator_ok'' \<or> norm (e_actor e) \<noteq> ''operator'' \<or>
         clean (e_work e) \<noteq> work_id \<or> lower (strip (e_trust e)) \<noteq> ''system''
      then Inr False
      else case e_payload e of
          JRaw _ \<Rightarrow> Inr False
        | JObj p \<Rightarrow> Inr (
            json_eq_int (field p ''schema_version'') 1 \<and>
            field p ''writer_contract'' = JStr ''operator_ok.v1'' \<and>
            field p ''authority_channel'' = JStr ''authenticated_resident_controller'' \<and>
            field p ''work_id'' = JStr work_id \<and>
            is_int_value (field p ''expected_work_version'') \<and>
            field p ''work_contract_sha256'' = JStr (operator_authority_contract_sha256 L row) \<and>
            is_sha_text (str_or_empty L (field p ''refs_sha256'')))
        | _ \<Rightarrow> Inl (ValueErr ''payload is not an object''))"

definition has_valid_operator_ok ::
  "lib \<Rightarrow> db \<Rightarrow> string \<Rightarrow> int option \<Rightarrow> work_row option \<Rightarrow> err + bool" where
  "has_valid_operator_ok L d work_id event_id work_row =
     (case (case work_row of None \<Rightarrow> workd d work_id | Some w \<Rightarrow> Some w) of
        None \<Rightarrow> Inr False
      | Some w \<Rightarrow>
          let row_bound = (case w_op_ok w of None \<Rightarrow> 0 | Some i \<Rightarrow> i);
              bound = (case event_id of Some i \<Rightarrow> if i \<noteq> 0 then i else row_bound | None \<Rightarrow> row_bound)
          in if (case event_id of Some i \<Rightarrow> i \<noteq> row_bound | None \<Rightarrow> False) then Inr False
             else if bound \<le> 0 then Inr False
             else case eventd d bound of
                 None \<Rightarrow> Inr False
               | Some e \<Rightarrow> operator_ok_event_is_valid L e work_id (row_dict w))"

section \<open>Lowering the tier\<close>

definition referenced_event_rows :: "lib \<Rightarrow> db \<Rightarrow> pyrow \<Rightarrow> event_row list" where
  "referenced_event_rows L d row =
     (let ids = event_ref_ids L [field row ''context_pack_ref'', field row ''depends_on'', field row ''note''] in
      sort_key e_id (filter (\<lambda>e. e_id e \<in> set ids) (d_events d)))"

fun tier_rank :: "string \<Rightarrow> nat option" where
  "tier_rank t = (if t = ''T0'' then Some 0 else if t = ''T1'' then Some 1
     else if t = ''T2'' then Some 2 else None)"

definition tier_correction_event_authorizes ::
  "lib \<Rightarrow> string list \<Rightarrow> event_row \<Rightarrow> string \<Rightarrow> pyrow \<Rightarrow> bool" where
  "tier_correction_event_authorizes L lanes e work_id row =
     (case (e_payload e, e_refs e) of
        (JObj p, JList refs) \<Rightarrow>
          let actor = norm (e_actor e);
              session = clean (e_session e);
              current = lower (text_field L row ''assignee'');
              noted = lower (text_field L p ''assignee_at_correction'');
              corrected = (if noted \<noteq> [] then noted else current);
              from_tier = upper (text_field L p ''from_tier'');
              to_tier = upper (text_field L p ''to_tier'');
              reason = text_field L p ''reason'';
              key = clean (e_key e);
              pre = ''tier-correction:'' @ actor @ '':''
          in refs \<noteq> [] \<and> lower (strip (e_kind e)) = ''tier_corrected'' \<and>
             lower (strip (e_trust e)) = ''agent'' \<and> clean (e_work e) = work_id \<and>
             actor \<in> set lanes \<and> expected_actor_for_session_id session = Some actor \<and>
             corrected \<in> set lanes \<and> current = corrected \<and> actor \<noteq> corrected \<and>
             norm (e_to e) = ''actor:'' @ corrected \<and>
             json_eq_int (field p ''schema_version'') 1 \<and>
             field p ''review_intensity_lowered'' = JBool True \<and>
             (case (tier_rank from_tier, tier_rank to_tier) of
                (Some a, Some b) \<Rightarrow> a < b | _ \<Rightarrow> False) \<and>
             to_tier = upper (text_field L row ''tier'') \<and>
             (case field p ''expected_version'' of
                JInt v \<Rightarrow> 0 \<le> v \<and> v + 1 \<le> int_or_zero (field row ''version'')
              | _ \<Rightarrow> False) \<and>
             reason \<noteq> [] \<and> clean (e_body e) = reason \<and>
             clean (e_title e) = ''Review tier corrected '' @ from_tier @ '' -> '' @ to_tier \<and>
             prefix pre key \<and> length pre < length key
      | _ \<Rightarrow> False)"

definition opposite_lane :: "string list \<Rightarrow> string \<Rightarrow> string \<Rightarrow> bool" where
  "opposite_lane lanes assignee actor \<longleftrightarrow> assignee \<in> set lanes \<and> actor \<in> set lanes \<and> actor \<noteq> assignee"

definition acknowledges :: "lib \<Rightarrow> string list \<Rightarrow> string \<Rightarrow> string \<Rightarrow> event_row \<Rightarrow> bool" where
  "acknowledges L lanes work_id assignee e \<longleftrightarrow>
     opposite_lane lanes assignee (norm (e_actor e)) \<and>
     (lower (strip (e_kind e)) = ''tier_ack'' \<or>
      (lower (strip (e_kind e)) = ''audit_verdict'' \<and> upper (clean (e_verdict e)) = ''PASS'')) \<and>
     (clean (e_work e) = work_id \<or> contains work_id (column_text L (e_payload e)) \<or>
      contains work_id (column_text L (e_refs e)))"

fun any_event_authorizes ::
  "lib \<Rightarrow> string list \<Rightarrow> string \<Rightarrow> pyrow \<Rightarrow> event_row list \<Rightarrow> err + bool" where
  "any_event_authorizes L lanes work_id row [] = Inr False"
| "any_event_authorizes L lanes work_id row (e # es) =
     bindE (if lower (strip (e_kind e)) = ''operator_ok'' \<and> int_or_zero (field row ''operator_ok_event_id'') = e_id e
            then operator_ok_event_is_valid L e work_id row else Inr False)
       (\<lambda>ok. if ok \<or> acknowledges L lanes work_id (lower (text_field L row ''assignee'')) e then Inr True
             else any_event_authorizes L lanes work_id row es)"

definition bound_correction_id :: "db \<Rightarrow> string \<Rightarrow> pyrow \<Rightarrow> int" where
  "bound_correction_id d work_id row =
     (if has_key row ''tier_correction_event_id'' then int_or_zero (field row ''tier_correction_event_id'')
      else case workd d work_id of None \<Rightarrow> 0 | Some w \<Rightarrow> (case w_tier_corr w of None \<Rightarrow> 0 | Some i \<Rightarrow> i))"

definition tier_down_authorized :: "lib \<Rightarrow> string list \<Rightarrow> db \<Rightarrow> string \<Rightarrow> pyrow \<Rightarrow> err + bool" where
  "tier_down_authorized L lanes d work_id row =
     (let bound = bound_correction_id d work_id row in
      if 0 < bound \<and> (case eventd d bound of None \<Rightarrow> False
            | Some e \<Rightarrow> tier_correction_event_authorizes L lanes e work_id row)
      then Inr True
      else any_event_authorizes L lanes work_id row (referenced_event_rows L d row))"

definition valid_cross_lane_audit_request_ref :: "lib \<Rightarrow> string list \<Rightarrow> db \<Rightarrow> pyrow \<Rightarrow> bool" where
  "valid_cross_lane_audit_request_ref L lanes d row =
     (let assignee = lower (text_field L row ''assignee'') in
      assignee \<in> set lanes \<and>
      list_ex (\<lambda>e. lower (strip (e_kind e)) = ''audit_request'' \<and> norm (e_actor e) \<in> set lanes \<and>
                 norm (e_actor e) \<noteq> assignee \<and> norm (e_to e) = ''actor:'' @ assignee)
        (referenced_event_rows L d row))"

section \<open>The policy of a write\<close>

definition work_cols :: "string list" where
  "work_cols =
     [''parent_id'', ''surface'', ''domain'', ''module'', ''lane'', ''sublane'', ''title'', ''display'',
      ''assignee'', ''assigned_by'', ''intent_state'', ''blocked_reason_class'', ''completion_requested_at'',
      ''next_step'', ''resume_when'', ''resume_predicate_json'', ''continuation_ready_at'',
      ''operator_ok_event_id'', ''tier_correction_event_id'', ''done_signal'', ''acceptance_json'',
      ''rubric_verdict'', ''resource_class'', ''token_budget'', ''priority'', ''visibility'',
      ''context_pack_ref'', ''due_date'', ''created_by_session_id'', ''note'', ''depends_on'', ''kind'',
      ''tier'', ''operator_state'', ''authority_declaration_json'']"

definition bad_columns :: "work_field list \<Rightarrow> bool" where
  "bad_columns fs \<longleftrightarrow> \<not> set (map field_name fs) \<subseteq> set work_cols"

definition public_writer_creation :: "lib \<Rightarrow> pyrow \<Rightarrow> err + bool" where
  "public_writer_creation L row =
     (let raw = str_or_empty L (field row ''authority_declaration_json'') in
      if raw = [] then Inr False
      else case loads L raw of
          None \<Rightarrow> Inr False
        | Some (JObj p) \<Rightarrow> Inr (text_field L p ''writer'' = ''coord_db.public_writer_doorway'')
        | Some _ \<Rightarrow> Inl (ValueErr ''declaration is not an object''))"

definition lintE :: "bool \<Rightarrow> err \<Rightarrow> err + unit" where
  "lintE bad e = (if bad then Inl e else Inr ())"

definition park_policy :: "lib \<Rightarrow> work_row option \<Rightarrow> work_field list \<Rightarrow> err + unit" where
  "park_policy L existing fs =
     (let row = fields_dict fs;
          merged = merged_row [] existing fs;
          current = (case existing of None \<Rightarrow> [] | Some w \<Rightarrow> lower (strip (w_intent w)));
          proposed = lower (text_field L row ''intent_state'')
      in if proposed = ''paused'' \<and> current \<noteq> ''paused'' then
           bindE (require_park_resume_contract (jopt_text (field row ''next_step''))
                    (jopt_text (field row ''resume_when''))) (\<lambda>_. Inr ())
         else if current = ''paused'' \<and> (has_key row ''next_step'' \<or> has_key row ''resume_when'') then
           bindE (require_park_resume_contract (jopt_text (field merged ''next_step''))
                    (jopt_text (field merged ''resume_when''))) (\<lambda>_. Inr ())
         else Inr ())"

definition receipt_fields :: "string list" where
  "receipt_fields = [''rubric_verdict'', ''operator_ok_event_id'', ''tier_correction_event_id'']"

definition writes_receipt :: "work_row option \<Rightarrow> work_field list \<Rightarrow> bool" where
  "writes_receipt existing fs \<longleftrightarrow>
     list_ex (\<lambda>f. field_name f \<in> set receipt_fields \<and> field_value f \<notin> {JNull, JStr []} \<and>
       (case existing of None \<Rightarrow> True | Some w \<Rightarrow> field (row_dict w) (field_name f) \<noteq> field_value f)) fs"

definition cleanup_terminal :: "string list" where
  "cleanup_terminal = [''closed'', ''superseded'', ''archived'', ''canceled'', ''cancelled'']"

definition policy_keys :: "string list" where
  "policy_keys = [''tier'', ''title'', ''acceptance_json'', ''done_signal'', ''context_pack_ref'',
     ''depends_on'', ''kind'', ''module'', ''sublane'', ''assignee'']"

definition creation_checks ::
  "lib \<Rightarrow> string list \<Rightarrow> db \<Rightarrow> string \<Rightarrow> pyrow \<Rightarrow> err + unit" where
  "creation_checks L lanes d work_id merged =
     bindE (tier_down_authorized L lanes d work_id merged) (\<lambda>authorized.
     bindE (case validate_creation_policy L lanes work_id merged [] authorized of
              Inl (CreationLint m) \<Rightarrow> Inl (ReviewPolicy m) | r \<Rightarrow> r) (\<lambda>review_tier.
       lintE (is_review_row L (JStr work_id) merged \<and>
              (review_tier \<noteq> ''T0'' \<or> \<not> valid_cross_lane_audit_request_ref L lanes d merged))
         (ReviewPolicy ''review-row creation is T0-only'')))"

definition validate_work_policy ::
  "lib \<Rightarrow> string list \<Rightarrow> db \<Rightarrow> string \<Rightarrow> work_row option \<Rightarrow> work_field list \<Rightarrow> err + unit" where
  "validate_work_policy L lanes d work_id existing fs =
     (let row = fields_dict fs;
          merged = merged_row work_id existing fs;
          cleanup = (lower (text_field L merged ''intent_state'') \<in> set cleanup_terminal)
      in bindE (park_policy L existing fs) (\<lambda>_.
         bindE (public_writer_creation L row) (\<lambda>by_fields.
         bindE (if by_fields then Inr True else (case existing of None \<Rightarrow> Inr False
                  | Some w \<Rightarrow> public_writer_creation L (row_dict w))) (\<lambda>public_row.
         bindE (lintE (writes_receipt existing fs) (ReviewPolicy ''typed receipt fields'')) (\<lambda>_.
         bindE (if has_key row ''done_signal'' \<and> public_row \<and> \<not> cleanup \<and>
                   (case existing of None \<Rightarrow> True
                      | Some w \<Rightarrow> text_field L row ''done_signal'' \<noteq> clean (w_done_signal w))
                then bindE (validate_done_signal_grammar (str_or_empty L (field row ''done_signal''))) (\<lambda>_. Inr ())
                else Inr ()) (\<lambda>_.
         bindE (lintE ((has_key row ''acceptance_json'' \<or> has_key row ''assignee'') \<and> \<not> cleanup \<and>
                  acceptance_requires_assignee_pass L lanes (field merged ''acceptance_json'')
                    (text_field L merged ''assignee'')) (ReviewPolicy ''same-lane PASS is forbidden'')) (\<lambda>_.
         bindE (if existing = None \<or> list_ex (has_key row) policy_keys
                then bindE (tier_down_authorized L lanes d work_id merged) (\<lambda>authorized.
                       bindE (validate_tier_declaration L merged [] authorized) (\<lambda>_. Inr ()))
                else Inr ()) (\<lambda>_.
         if existing = None \<and> by_fields then creation_checks L lanes d work_id merged else Inr ()))))))))"

section \<open>The public writers\<close>

definition upsert_work ::
  "lib \<Rightarrow> string list \<Rightarrow> string \<Rightarrow> work_field list \<Rightarrow> seconds \<Rightarrow> db \<Rightarrow> err + (db \<times> string)" where
  "upsert_work L lanes work_id fs t d =
     (if bad_columns fs then Inl (ValueErr ''unknown work_items columns'')
      else bindE (validate_work_policy L lanes d work_id (workd d work_id) fs) (\<lambda>_.
           bindE (upsert_work_unlocked L False work_id fs t d) (\<lambda>(d', _). Inr (d', work_id))))"

definition create_work ::
  "lib \<Rightarrow> string list \<Rightarrow> string \<Rightarrow> work_field list \<Rightarrow> seconds \<Rightarrow> db \<Rightarrow> err + (db \<times> bool)" where
  "create_work L lanes work_id fs t d =
     (if bad_columns fs then Inl (ValueErr ''unknown work_items columns'')
      else if workd d work_id \<noteq> None then Inl (WorkIdCollision work_id)
      else bindE (validate_work_policy L lanes d work_id None fs) (\<lambda>_.
           upsert_work_unlocked L True work_id fs t d))"

text \<open>
  \<open>claim_work\<close>: \<open>t0\<close> is the clock read by the amendment, \<open>t\<close> the one the claim is stamped with;
  \<open>fs\<close> is empty when no fields are passed.
\<close>

definition claim_work ::
  "lib \<Rightarrow> string list \<Rightarrow> string \<Rightarrow> string \<Rightarrow> string \<Rightarrow> string \<Rightarrow> string option \<Rightarrow> seconds \<Rightarrow> work_field list
     \<Rightarrow> seconds \<Rightarrow> seconds \<Rightarrow> db \<Rightarrow> err + (db \<times> string)" where
  "claim_work L lanes claim_id token session_id work_id step lease fs t0 t d =
     (if session_id = [] then Inl (ValueErr ''claim_work requires a session_id'')
      else bindE
        (if fs = [] then Inr d
         else if bad_columns fs then Inl (ValueErr ''unknown work_items columns'')
         else bindE (validate_work_policy L lanes d work_id (workd d work_id) fs) (\<lambda>_.
              bindE (upsert_work_unlocked L False work_id fs t0 d) (\<lambda>(d', _). Inr d')))
        (claim_unlocked lanes claim_id token session_id work_id step lease t))"

section \<open>Readiness\<close>

definition claim_readiness :: "lib \<Rightarrow> string \<Rightarrow> pyrow \<Rightarrow> string option \<Rightarrow> string list" where
  "claim_readiness L work_id row actor =
     (let kept = filter (\<lambda>kv. snd kv \<notin> {JNull, JStr []}) row;
          set_default = (\<lambda>k v r. if has_key r k then r else r @ [(k, v)]);
          flds = set_default ''work_id'' (JStr work_id) (set_default ''id'' (JStr work_id) kept);
          stated = [(''status'', JStr ''running''), (''intent_state'', JStr ''running'')] @ flds
      in claim_rubric_missing_fields L
           (if otext actor = [] then stated else set_default ''assignee'' (JStr (otext actor)) stated))"

definition claim_readiness_enforcement :: "string \<Rightarrow> string option \<Rightarrow> err + string" where
  "claim_readiness_enforcement deflt env =
     (let raw = norm env in
      if deflt \<notin> {''refuse'', ''warn''} then Inl (ValueErr ''unknown claim readiness default'')
      else if raw \<in> {''1'', ''true'', ''yes'', ''on''} then Inr ''refuse''
      else if raw \<in> {''0'', ''false'', ''no'', ''off''} then Inr ''warn''
      else Inr deflt)"

section \<open>What the writers guarantee\<close>

lemma upsert_work_Inr:
  "upsert_work L lanes i fs t d = Inr (d', j) \<Longrightarrow>
   \<exists>b. upsert_work_unlocked L False i fs t d = Inr (d', b) \<and>
       validate_work_policy L lanes d i (workd d i) fs = Inr ()"
  by (auto simp: upsert_work_def bindE_Inr_iff split: if_split_asm)

lemma create_work_Inr:
  "create_work L lanes i fs t d = Inr (d', b) \<Longrightarrow>
   workd d i = None \<and> upsert_work_unlocked L True i fs t d = Inr (d', b) \<and>
   validate_work_policy L lanes d i None fs = Inr ()"
  by (auto simp: create_work_def bindE_Inr_iff split: if_split_asm)

lemma wf_upsert: "wf_db d \<Longrightarrow> upsert_work L lanes i fs t d = Inr (d', j) \<Longrightarrow> wf_db d'"
  by (auto dest!: upsert_work_Inr intro: wf_upsert_work)

lemma wf_create_work: "wf_db d \<Longrightarrow> create_work L lanes i fs t d = Inr (d', b) \<Longrightarrow> wf_db d'"
  by (auto dest!: create_work_Inr intro: wf_upsert_work)

lemma claim_work_Inr:
  assumes "claim_work L lanes i0 token sid work step lease fs t0 t d = Inr (d', i)"
  shows "\<exists>d1. claim_unlocked lanes i0 token sid work step lease t d1 = Inr (d', i) \<and>
     (d1 = d \<or> (\<exists>b. upsert_work_unlocked L False work fs t0 d = Inr (d1, b)))"
  using assms by (auto simp: claim_work_def bindE_Inr_iff split: if_split_asm)

lemma upsert_sessions: "upsert_work_unlocked L rn i fs t d = Inr (d', b) \<Longrightarrow> d_sessions d' = d_sessions d"
  by (auto simp: upsert_work_unlocked_def Let_def bindE_Inr_iff table_simps split: option.splits if_split_asm)

lemma claim_work_grants:
  assumes "wf_db d" "claim_work L lanes i0 token sid work step lease fs t0 t d = Inr (d', i)"
  shows "wf_db d' \<and> (\<exists>c. granted d d' (claim_family lanes d sid) i work lease t c)"
proof -
  obtain d1 where d1: "claim_unlocked lanes i0 token sid work step lease t d1 = Inr (d', i)"
    "d1 = d \<or> (\<exists>b. upsert_work_unlocked L False work fs t0 d = Inr (d1, b))"
    using claim_work_Inr [OF assms(2)] by blast
  have "wf_db d1" using d1(2) assms(1) wf_upsert_work by blast
  moreover have "claim_family lanes d1 sid = claim_family lanes d sid"
    using d1(2) upsert_sessions by (intro claim_family_same) metis
  ultimately show ?thesis
    using claim_unlocked_grants [OF _ d1(1)] by (simp add: granted_def)
qed

section \<open>Who may lower a tier\<close>

lemma any_event_authorizes_True:
  "any_event_authorizes L lanes work_id row es = Inr True \<Longrightarrow>
   \<exists>e \<in> set es. operator_ok_event_is_valid L e work_id row = Inr True \<or>
     acknowledges L lanes work_id (lower (text_field L row ''assignee'')) e"
  by (induction es) (auto simp: bindE_Inr_iff split: if_split_asm)

lemma tier_down_authorized_True:
  assumes "tier_down_authorized L lanes d work_id row = Inr True"
  shows "\<exists>e \<in> set (d_events d). tier_correction_event_authorizes L lanes e work_id row \<or>
     operator_ok_event_is_valid L e work_id row = Inr True \<or>
     acknowledges L lanes work_id (lower (text_field L row ''assignee'')) e"
proof (cases "eventd d (bound_correction_id d work_id row)")
  case None
  then show ?thesis
    using assms any_event_authorizes_True [of L lanes work_id row "referenced_event_rows L d row"]
    by (auto simp: tier_down_authorized_def Let_def referenced_event_rows_def)
next
  case (Some e)
  then have "e \<in> set (d_events d)" by (auto simp: eventd_def dest: find_SomeD)
  then show ?thesis
    using Some assms any_event_authorizes_True [of L lanes work_id row "referenced_event_rows L d row"]
    by (auto simp: tier_down_authorized_def Let_def referenced_event_rows_def split: if_split_asm)
qed

section \<open>What a write has passed\<close>

lemma policy_Inr:
  assumes "validate_work_policy L lanes d i existing fs = Inr u"
  shows "park_policy L existing fs = Inr ()" and "\<not> writes_receipt existing fs"
    and "has_key (fields_dict fs) ''acceptance_json'' \<or> has_key (fields_dict fs) ''assignee'' \<Longrightarrow>
      lower (text_field L (merged_row i existing fs) ''intent_state'') \<notin> set cleanup_terminal \<Longrightarrow>
      \<not> acceptance_requires_assignee_pass L lanes (field (merged_row i existing fs) ''acceptance_json'')
          (text_field L (merged_row i existing fs) ''assignee'')"
    and "existing = None \<or> list_ex (has_key (fields_dict fs)) policy_keys \<Longrightarrow>
      \<exists>authorized tier. tier_down_authorized L lanes d i (merged_row i existing fs) = Inr authorized \<and>
        validate_tier_declaration L (merged_row i existing fs) [] authorized = Inr tier"
  using assms by (auto simp: validate_work_policy_def Let_def bindE_Inr_iff lintE_def split: if_split_asm)

lemma park_policy_Inr:
  assumes "park_policy L existing fs = Inr u" "lower (text_field L (fields_dict fs) ''intent_state'') = ''paused''"
    and "(case existing of None \<Rightarrow> [] | Some w \<Rightarrow> lower (strip (w_intent w))) \<noteq> ''paused''"
  shows "clean (jopt_text (field (fields_dict fs) ''next_step'')) \<noteq> [] \<and>
     clean (jopt_text (field (fields_dict fs) ''resume_when'')) \<noteq> []"
  using assms by (auto simp: park_policy_def require_park_resume_contract_def Let_def bindE_Inr_iff split: if_split_asm)

text \<open>Typed receipts: an ordinary write keeps them or clears them.\<close>

definition receipts_kept :: "work_row \<Rightarrow> work_row \<Rightarrow> bool" where
  "receipts_kept w v \<longleftrightarrow> w_rubric v \<in> {w_rubric w, None, Some []} \<and>
     w_op_ok v \<in> {w_op_ok w, None} \<and> w_tier_corr v \<in> {w_tier_corr w, None}"

definition keeps_receipts :: "work_row \<Rightarrow> work_field \<Rightarrow> bool" where
  "keeps_receipts w f = (case f of
       F_rubric v \<Rightarrow> v \<in> {w_rubric w, None, Some []} | F_op_ok v \<Rightarrow> v \<in> {w_op_ok w, None}
     | F_tier_corr v \<Rightarrow> v \<in> {w_tier_corr w, None} | _ \<Rightarrow> True)"

lemma apply_field_receipts: "keeps_receipts w f \<Longrightarrow> receipts_kept w v \<Longrightarrow> receipts_kept w (apply_field f v)"
  by (cases f) (auto simp: keeps_receipts_def receipts_kept_def)

lemma apply_fields_receipts:
  "(\<And>f. f \<in> set fs \<Longrightarrow> keeps_receipts w f) \<Longrightarrow> receipts_kept w v \<Longrightarrow> receipts_kept w (apply_fields fs v)"
  by (induction fs arbitrary: v) (simp_all add: apply_field_receipts)

lemma receipt_columns:
  "field (row_dict w) ''rubric_verdict'' = jopt (w_rubric w)"
  "field (row_dict w) ''operator_ok_event_id'' = jint (w_op_ok w)"
  "field (row_dict w) ''tier_correction_event_id'' = jint (w_tier_corr w)"
  by (simp_all add: field_def row_dict_def)

lemma jopt_inject [simp]: "jopt x = jopt y \<longleftrightarrow> x = y" "jopt x = JNull \<longleftrightarrow> x = None" "jopt x = JStr s \<longleftrightarrow> x = Some s"
  by (auto simp: jopt_def split: option.splits)

lemma jint_inject [simp]: "jint x = jint y \<longleftrightarrow> x = y" "jint x = JNull \<longleftrightarrow> x = None" "jint x \<noteq> JStr s"
  by (auto simp: jint_def split: option.splits)

lemma no_receipt_field:
  assumes "\<not> writes_receipt (Some w) fs" "f \<in> set fs"
  shows "keeps_receipts w f"
proof -
  have "\<not> (field_name f \<in> set receipt_fields \<and> field_value f \<notin> {JNull, JStr []} \<and>
      field (row_dict w) (field_name f) \<noteq> field_value f)"
    using assms by (auto simp: writes_receipt_def list_ex_iff)
  then show ?thesis by (cases f) (auto simp: keeps_receipts_def receipt_fields_def receipt_columns)
qed

lemma upsert_row:
  assumes "upsert_work_unlocked L False i fs t d = Inr (d', b)" "workd d i = Some w"
  shows "workd d' i = Some w \<or> workd d' i =
    Some ((apply_fields (filter (differs w) fs) w)\<lparr>w_updated := t, w_version := w_version w + 1\<rparr>)"
  using assms workd_SomeD [OF assms(2)]
  by (auto simp: upsert_work_unlocked_def Let_def bindE_Inr_iff workd_def upd_works_def find_upd_where
      split: option.splits if_split_asm)

lemma upsert_receipts:
  assumes "upsert_work L lanes i fs t d = Inr (d', j)" "workd d i = Some w"
  shows "\<exists>v. workd d' i = Some v \<and> receipts_kept w v"
proof -
  obtain b where b: "upsert_work_unlocked L False i fs t d = Inr (d', b)"
      "validate_work_policy L lanes d i (Some w) fs = Inr ()"
    using upsert_work_Inr [OF assms(1)] assms(2) by auto
  have refl: "receipts_kept w w" by (simp add: receipts_kept_def)
  have "receipts_kept w (apply_fields (filter (differs w) fs) w)"
    by (rule apply_fields_receipts [OF _ refl]) (auto intro: no_receipt_field [OF policy_Inr(2) [OF b(2)]])
  then have "receipts_kept w ((apply_fields (filter (differs w) fs) w)\<lparr>w_updated := t, w_version := w_version w + 1\<rparr>)"
    by (simp add: receipts_kept_def)
  with refl upsert_row [OF b(1) assms(2)] show ?thesis by blast
qed

end
