(* ===== verification/Panel.thy ===== *)
theory Panel
  imports WorkPolicy
begin

text \<open>
  Review panels (src/src/coordharness/coord/panel_quorum.py): the declared quorum, the
  verdicts that count and the panel's outcome. A panel's contract error is an error value;
  the outcome is a record.
\<close>

section \<open>The declared quorum\<close>

text \<open>\<open>int(s)\<close> of a text: an optional sign and digit groups joined by single underscores.\<close>

definition digits_only :: "string \<Rightarrow> bool" where
  "digits_only s \<longleftrightarrow> s \<noteq> [] \<and> list_all is_digit s"

definition parse_int :: "string \<Rightarrow> int option" where
  "parse_int v =
     (let s = strip v;
          neg = (case s of c # _ \<Rightarrow> c = CHR ''-'' | [] \<Rightarrow> False);
          body = (case s of c # cs \<Rightarrow> if c = CHR ''-'' \<or> c = CHR ''+'' then cs else s | [] \<Rightarrow> []);
          groups = split_on CHR ''_'' body
      in if list_all digits_only groups
         then Some ((if neg then -1 else 1) * int (nat_of_digits (concat groups))) else None)"

definition panel_error :: "string \<Rightarrow> err" where
  "panel_error m = ReviewBlocked m"

definition quorum_int :: "json \<Rightarrow> int option" where
  "quorum_int j = (case j of
       JInt i \<Rightarrow> Some i | JFloat q \<Rightarrow> Some \<lfloor>q\<rfloor> | JStr s \<Rightarrow> parse_int s | _ \<Rightarrow> None)"

definition normalize_quorum :: "lib \<Rightarrow> json \<Rightarrow> err + int option" where
  "normalize_quorum L v =
     (if v = JNull \<or> text_of L v = [] then Inr None
      else case v of
          JBool _ \<Rightarrow> Inl (panel_error ''boolean quorum'')
        | _ \<Rightarrow>
          if (case v of JFloat q \<Rightarrow> q \<noteq> of_int \<lfloor>q\<rfloor> | _ \<Rightarrow> False) then Inl (panel_error ''quorum not an integer'')
          else (case quorum_int v of
              None \<Rightarrow> Inl (panel_error ''quorum not an integer'')
            | Some q \<Rightarrow>
                if q < 2 then Inl (panel_error ''quorum below 2'')
                else if 8 < q then Inl (panel_error ''quorum above 8'')
                else Inr (Some q)))"

definition quorum_from_acceptance :: "lib \<Rightarrow> string \<Rightarrow> err + int option" where
  "quorum_from_acceptance L acceptance =
     (let raw = strip acceptance in
      if raw = [] then Inr None
      else case loads L raw of
          Some (JObj p) \<Rightarrow> normalize_quorum L (field p ''panel_quorum'')
        | _ \<Rightarrow> Inr None)"

section \<open>Verdicts that count\<close>

record assessment =
  y_event :: int
  y_actor :: string
  y_session :: string
  y_verdict :: string

definition review_verdicts :: "string list" where
  "review_verdicts = [''PASS'', ''FLAG'', ''BLOCKED'']"

definition verdict_of :: "event_row \<Rightarrow> string" where
  "verdict_of e = upper (clean (e_verdict e))"

definition assessment_of :: "event_row \<Rightarrow> assessment" where
  "assessment_of e = \<lparr>y_event = e_id e, y_actor = norm (e_actor e), y_session = norm (e_session e),
     y_verdict = verdict_of e\<rparr>"

definition counts_for_panel :: "string \<Rightarrow> string \<Rightarrow> int \<Rightarrow> event_row \<Rightarrow> bool" where
  "counts_for_panel lane author_session barrier e \<longleftrightarrow>
     lower (strip (e_kind e)) = ''audit_verdict'' \<and> verdict_of e \<in> set review_verdicts \<and>
     barrier < e_id e \<and> \<not> (norm (e_actor e) = lane \<and> norm (e_session e) = author_session)"

definition same_assessor :: "assessment \<Rightarrow> assessment \<Rightarrow> bool" where
  "same_assessor x y \<longleftrightarrow> y_actor x = y_actor y \<and> y_session x = y_session y"

text \<open>The dictionary of the newest assessment per assessor.\<close>

fun latest_per_assessor :: "assessment list \<Rightarrow> assessment list \<Rightarrow> assessment list" where
  "latest_per_assessor acc [] = acc"
| "latest_per_assessor acc (x # xs) =
     latest_per_assessor
       (case find (same_assessor x) acc of
          None \<Rightarrow> acc @ [x]
        | Some prior \<Rightarrow> if y_event prior < y_event x then upd_where (same_assessor x) (\<lambda>_. x) acc else acc) xs"

definition qualifying_verdicts :: "event_row list \<Rightarrow> string \<Rightarrow> string \<Rightarrow> int \<Rightarrow> assessment list" where
  "qualifying_verdicts es lane author_session barrier =
     sort_key y_event (latest_per_assessor []
       (map assessment_of (filter (counts_for_panel lane author_session barrier) es)))"

section \<open>The outcome\<close>

record panel_status =
  p_passed :: bool
  p_reason :: string
  p_quorum :: "int option"
  p_assessors :: "assessment list"
  p_dissenters :: "assessment list"
  p_lanes :: "string list"

definition panel_lanes :: "string list" where
  "panel_lanes = [''claude'', ''codex'']"

definition classify_panel_status ::
  "lib \<Rightarrow> event_row list \<Rightarrow> string \<Rightarrow> json \<Rightarrow> int \<Rightarrow> string \<Rightarrow> err + panel_status" where
  "classify_panel_status L es author_lane quorum barrier author_session_id =
     bindE (normalize_quorum L quorum) (\<lambda>checked. case checked of
         None \<Rightarrow> Inr \<lparr>p_passed = False, p_reason = ''not_a_panel'', p_quorum = None,
                    p_assessors = [], p_dissenters = [], p_lanes = []\<rparr>
       | Some q \<Rightarrow>
           let lane = lower (strip author_lane);
               author_session = lower (strip author_session_id)
           in if lane \<notin> set panel_lanes then Inl (panel_error ''panel author_lane'')
              else if author_session = [] \<or> takeWhile (\<lambda>c. c \<noteq> CHR '':'') author_session \<noteq> lane
                then Inl (panel_error ''panel author_session_id'')
              else if barrier < 0 then Inl (panel_error ''panel barrier'')
              else
                let assessors = qualifying_verdicts es lane author_session barrier;
                    dissenters = filter (\<lambda>x. y_verdict x \<noteq> ''PASS'') assessors;
                    lanes = sort (remdups (filter (\<lambda>a. a \<in> set panel_lanes \<and> a \<noteq> lane) (map y_actor assessors)));
                    result = (\<lambda>ok why. \<lparr>p_passed = ok, p_reason = why, p_quorum = Some q,
                       p_assessors = assessors, p_dissenters = dissenters, p_lanes = lanes\<rparr>)
                in Inr (if dissenters \<noteq> [] then result False ''panel_dissent''
                   else if int (length assessors) < q then result False ''panel_quorum_unmet''
                   else if lanes = [] then result False ''panel_lacks_opposite_lane''
                   else result True ''panel_unanimous''))"

definition classify_panel_status_for_work ::
  "lib \<Rightarrow> db \<Rightarrow> string \<Rightarrow> string \<Rightarrow> json \<Rightarrow> int \<Rightarrow> string \<Rightarrow> err + panel_status" where
  "classify_panel_status_for_work L d work_id author_lane quorum barrier author_session_id =
     classify_panel_status L
       (sort_key e_id (filter (\<lambda>e. e_work e = Some work_id \<and> e_kind e = ''audit_verdict'') (d_events d)))
       author_lane quorum barrier author_session_id"

section \<open>What counts, counts once and by its newest verdict\<close>

definition distinct_assessors :: "assessment list \<Rightarrow> bool" where
  "distinct_assessors xs \<longleftrightarrow> distinct (map (\<lambda>x. (y_actor x, y_session x)) xs)"

lemma distinct_assessors_upd:
  "distinct_assessors acc \<Longrightarrow> distinct_assessors (upd_where (same_assessor x) (\<lambda>_. x) acc)"
proof -
  have "map (\<lambda>x. (y_actor x, y_session x)) (upd_where (same_assessor x) (\<lambda>_. x) acc) =
      map (\<lambda>x. (y_actor x, y_session x)) acc"
    by (rule map_key_upd_where) (simp add: same_assessor_def)
  then show "distinct_assessors acc \<Longrightarrow> ?thesis" by (simp add: distinct_assessors_def)
qed

lemma latest_distinct: "distinct_assessors acc \<Longrightarrow> distinct_assessors (latest_per_assessor acc xs)"
proof (induction acc xs rule: latest_per_assessor.induct)
  case (1 acc)
  then show ?case by simp
next
  case (2 acc x xs)
  have "distinct_assessors (acc @ [x])" if "find (same_assessor x) acc = None"
    using that 2(2) by (auto simp: distinct_assessors_def find_None_iff same_assessor_def)
  then show ?case using 2 distinct_assessors_upd by (auto split: option.splits)
qed

lemma latest_subset: "set (latest_per_assessor acc xs) \<subseteq> set acc \<union> set xs"
proof (induction acc xs rule: latest_per_assessor.induct)
  case (1 acc)
  then show ?case by simp
next
  case (2 acc x xs)
  have "set (upd_where (same_assessor x) (\<lambda>_. x) acc) \<subseteq> insert x (set acc)" by (auto simp: upd_where_def)
  with 2 show ?case by (auto split: option.splits if_splits)
qed

lemma distinct_assessors_unique:
  "distinct_assessors acc \<Longrightarrow> x \<in> set acc \<Longrightarrow> y \<in> set acc \<Longrightarrow> same_assessor x y \<Longrightarrow> x = y"
  unfolding distinct_assessors_def distinct_map same_assessor_def
  by (auto dest: inj_onD)

definition absorb :: "assessment \<Rightarrow> assessment list \<Rightarrow> assessment list" where
  "absorb x acc = (case find (same_assessor x) acc of
      None \<Rightarrow> acc @ [x]
    | Some prior \<Rightarrow> if y_event prior < y_event x then upd_where (same_assessor x) (\<lambda>_. x) acc else acc)"

lemma latest_absorb: "latest_per_assessor acc (x # xs) = latest_per_assessor (absorb x acc) xs"
  by (simp add: absorb_def)

lemma absorb_distinct: "distinct_assessors acc \<Longrightarrow> distinct_assessors (absorb x acc)"
  using latest_distinct [of acc "[x]"] by (simp add: absorb_def)

lemma absorb_covers:
  assumes d: "distinct_assessors acc" and y: "y \<in> insert x (set acc)"
  shows "\<exists>z \<in> set (absorb x acc). same_assessor y z \<and> y_event y \<le> y_event z"
proof (cases "find (same_assessor x) acc")
  case None
  with y show ?thesis by (auto simp: absorb_def same_assessor_def)
next
  case (Some prior)
  then have p: "prior \<in> set acc" "same_assessor x prior" using find_SomeD by metis+
  show ?thesis
  proof (cases "y_event prior < y_event x")
    case True
    then have a: "absorb x acc = upd_where (same_assessor x) (\<lambda>_. x) acc" using Some by (simp add: absorb_def)
    have x: "x \<in> set (absorb x acc)" unfolding a set_upd_where using p by blast
    show ?thesis
    proof (cases "same_assessor x y")
      case True
      then have "y = x \<or> y = prior"
        using y p distinct_assessors_unique [OF d, of y prior] by (auto simp: same_assessor_def)
      then show ?thesis
        using p \<open>y_event prior < y_event x\<close> by (intro bexI [OF _ x]) (auto simp: same_assessor_def)
    next
      case False
      then have "y \<in> set (absorb x acc)" unfolding a set_upd_where using y by (auto simp: same_assessor_def)
      then show ?thesis by (auto simp: same_assessor_def)
    qed
  next
    case False
    then have "absorb x acc = acc" using Some by (simp add: absorb_def)
    with p y False show ?thesis by (auto simp: same_assessor_def)
  qed
qed

lemma latest_covers:
  "distinct_assessors acc \<Longrightarrow> y \<in> set acc \<union> set xs \<Longrightarrow>
   \<exists>z \<in> set (latest_per_assessor acc xs). same_assessor y z \<and> y_event y \<le> y_event z"
proof (induction xs arbitrary: acc y)
  case Nil
  then show ?case by (auto simp: same_assessor_def)
next
  case (Cons x xs)
  obtain z where z: "z \<in> set (absorb x acc) \<union> set xs" "same_assessor y z" "y_event y \<le> y_event z"
    using absorb_covers [OF Cons.prems(1), of y x] Cons.prems(2)
    by (auto simp: same_assessor_def)
  obtain u where "u \<in> set (latest_per_assessor (absorb x acc) xs)" "same_assessor z u" "y_event z \<le> y_event u"
    using Cons.IH [OF absorb_distinct [OF Cons.prems(1)] z(1)] by blast
  with z(2,3) show ?case unfolding latest_absorb by (fastforce simp: same_assessor_def)
qed

lemma qualifying_facts:
  shows "distinct_assessors (qualifying_verdicts es lane s b)"
    and "x \<in> set (qualifying_verdicts es lane s b) \<Longrightarrow>
      \<exists>e \<in> set es. counts_for_panel lane s b e \<and> x = assessment_of e"
    and "e \<in> set es \<Longrightarrow> counts_for_panel lane s b e \<Longrightarrow>
      \<exists>z \<in> set (qualifying_verdicts es lane s b). same_assessor (assessment_of e) z \<and> e_id e \<le> y_event z"
proof -
  let ?xs = "map assessment_of (filter (counts_for_panel lane s b) es)"
  have nil: "distinct_assessors []" by (simp add: distinct_assessors_def)
  have set: "set (qualifying_verdicts es lane s b) = set (latest_per_assessor [] ?xs)"
    by (simp add: qualifying_verdicts_def)
  have "distinct (map (\<lambda>x. (y_actor x, y_session x)) (latest_per_assessor [] ?xs))"
    using latest_distinct [OF nil, of ?xs] by (simp add: distinct_assessors_def)
  then show "distinct_assessors (qualifying_verdicts es lane s b)"
    unfolding distinct_assessors_def distinct_map set
    by (simp add: qualifying_verdicts_def)
  show "x \<in> set (qualifying_verdicts es lane s b) \<Longrightarrow>
      \<exists>e \<in> set es. counts_for_panel lane s b e \<and> x = assessment_of e"
    unfolding set using latest_subset [of "[]" ?xs] by auto
  assume "e \<in> set es" "counts_for_panel lane s b e"
  then have "assessment_of e \<in> set [] \<union> set ?xs" by auto
  from latest_covers [OF nil this]
  show "\<exists>z \<in> set (qualifying_verdicts es lane s b). same_assessor (assessment_of e) z \<and> e_id e \<le> y_event z"
    unfolding set by (auto simp: assessment_of_def)
qed

lemma panel_passed:
  assumes "classify_panel_status L es lane quorum b s = Inr r" "p_passed r"
  shows "\<exists>q. normalize_quorum L quorum = Inr (Some q) \<and> 2 \<le> q \<and> q \<le> 8 \<and>
     p_assessors r = qualifying_verdicts es (lower (strip lane)) (lower (strip s)) b \<and>
     q \<le> int (length (p_assessors r)) \<and>
     (\<forall>x \<in> set (p_assessors r). y_verdict x = ''PASS'') \<and>
     (\<exists>x \<in> set (p_assessors r). y_actor x \<in> set panel_lanes \<and> y_actor x \<noteq> lower (strip lane))"
proof -
  obtain q where q: "normalize_quorum L quorum = Inr (Some q)"
    using assms by (auto simp: classify_panel_status_def bindE_Inr_iff split: option.splits)
  then have "2 \<le> q \<and> q \<le> 8"
    by (auto simp: normalize_quorum_def split: if_split_asm json.splits option.splits)
  moreover have
    "p_assessors r = qualifying_verdicts es (lower (strip lane)) (lower (strip s)) b \<and>
     q \<le> int (length (p_assessors r)) \<and> filter (\<lambda>x. y_verdict x \<noteq> ''PASS'') (p_assessors r) = [] \<and>
     sort (remdups (filter (\<lambda>a. a \<in> set panel_lanes \<and> a \<noteq> lower (strip lane))
       (map y_actor (p_assessors r)))) \<noteq> []"
    using assms q by (auto simp: classify_panel_status_def Let_def split: if_split_asm)
  ultimately show ?thesis
    using q by (auto simp: filter_empty_conv)
qed

lemma panel_dissent:
  assumes "classify_panel_status L es lane quorum b s = Inr r"
    and "e \<in> set es" "counts_for_panel (lower (strip lane)) (lower (strip s)) b e"
    and "\<And>e'. e' \<in> set es \<Longrightarrow> counts_for_panel (lower (strip lane)) (lower (strip s)) b e' \<Longrightarrow>
      same_assessor (assessment_of e) (assessment_of e') \<Longrightarrow> e_id e \<le> e_id e' \<Longrightarrow> verdict_of e' \<noteq> ''PASS''"
  shows "\<not> p_passed r"
proof
  assume "p_passed r"
  note p = panel_passed [OF assms(1) this]
  obtain z where z: "z \<in> set (p_assessors r)" "same_assessor (assessment_of e) z" "e_id e \<le> y_event z"
    using qualifying_facts(3) [OF assms(2,3)] p by auto
  then obtain e' where e': "e' \<in> set es" "counts_for_panel (lower (strip lane)) (lower (strip s)) b e'" "z = assessment_of e'"
    using qualifying_facts(2) p by metis
  have "verdict_of e' = ''PASS''" using p z(1) e'(3) by (auto simp: assessment_of_def)
  moreover have "e_id e \<le> e_id e'" using z(3) e'(3) by (simp add: assessment_of_def)
  ultimately show False using assms(4) e' z(2) by blast
qed

end
