(* ===== verification/Review.thy ===== *)
theory Review
  imports Panel
begin

text \<open>
  Independent review (src/src/coordharness/coord/review_integrity.py and the review part of
  coord_db.py): which lane wrote a row, whether an independent verdict stands after the
  latest review barrier, and the review state that gates completion. Files and the git
  index are seen through the record \<open>proofs\<close>.
\<close>

section \<open>What is read outside the database\<close>

text \<open>
  \<open>custodied\<close>: the declared proof is admissible and carried by the git index
  (\<open>done_signal_custodied\<close>). \<open>admissible\<close>: it exists and is admissible (\<open>done_signal_exists\<close>).
  \<open>on_disk\<close>: the path exists. \<open>file_text\<close>: the first 65,536 characters of a file, None when it
  cannot be read. \<open>real_path\<close>: \<open>os.path.realpath\<close> of a declared path under the proof root.
  \<open>relative\<close>: the pointer under the root, None when the path escapes it. \<open>absolute\<close> and
  \<open>path_text\<close>: whether the path is absolute once the home directory is expanded, and its text.
\<close>

record proofs =
  custodied :: "string \<Rightarrow> bool"
  admissible :: "string \<Rightarrow> bool"
  on_disk :: "string \<Rightarrow> bool"
  file_text :: "string \<Rightarrow> string option"
  real_path :: "string \<Rightarrow> string"
  relative :: "string \<Rightarrow> string option"
  absolute :: "string \<Rightarrow> bool"
  path_text :: "string \<Rightarrow> string"

definition done_signal_satisfied :: "proofs \<Rightarrow> db \<Rightarrow> string \<Rightarrow> bool" where
  "done_signal_satisfied W d signal =
     (case coord_event_done_signal_id signal of
        Some i \<Rightarrow> eventd d i \<noteq> None
      | None \<Rightarrow> custodied W signal)"

section \<open>SQL patterns\<close>

text \<open>\<open>LIKE\<close>: letters compare without case, \<open>%\<close> is any text and \<open>_\<close> any one character.\<close>

fun like :: "string \<Rightarrow> string \<Rightarrow> bool" where
  "like [] s = (s = [])"
| "like (c # p) [] = (c = CHR ''%'' \<and> like p [])"
| "like (c # p) (x # s) =
     (if c = CHR ''%'' then like p (x # s) \<or> like (c # p) s
      else (c = CHR ''_'' \<or> lower_char c = lower_char x) \<and> like p s)"

definition events_of :: "db \<Rightarrow> string \<Rightarrow> event_row list" where
  "events_of d work_id = sort_key e_id (filter (\<lambda>e. e_work e = Some work_id) (d_events d))"

section \<open>Who wrote the row\<close>

definition lane_or_empty :: "string list \<Rightarrow> string \<Rightarrow> string" where
  "lane_or_empty lanes a = (if a \<in> set lanes then a else [])"

definition claim_author_lane :: "string list \<Rightarrow> db \<Rightarrow> claim_row \<Rightarrow> string option" where
  "claim_author_lane lanes d c =
     (let session_lane = otext (expected_actor_for_session_id (c_session c));
          registered = lane_or_empty lanes (norm (map_option s_actor (sess d (c_session c))))
      in if session_lane \<noteq> [] \<and> registered \<noteq> [] \<and> session_lane \<noteq> registered then None
         else opt_text (if session_lane \<noteq> [] then session_lane else registered))"

definition claim_kinds :: "string list \<Rightarrow> string list" where
  "claim_kinds lanes = map (\<lambda>l. l @ ''_claim'') lanes"

definition event_author_lane :: "lib \<Rightarrow> string list \<Rightarrow> event_row \<Rightarrow> err + string option" where
  "event_author_lane L lanes e = (case e_payload e of
       JRaw _ \<Rightarrow> Inr None
     | JObj p \<Rightarrow>
         if lower (text_field L p ''status'') \<noteq> ''applied'' then Inr None
         else let kind_lane = lower (strip (takeWhile (\<lambda>c. c \<noteq> CHR ''_'') (e_kind e)));
                  found = remdups (filter (\<lambda>l. l \<noteq> [])
                    [kind_lane, norm (e_actor e), otext (expected_actor_for_session_id (otext (e_session e)))])
           in Inr (case found of [l] \<Rightarrow> if l \<in> set lanes then Some l else None | _ \<Rightarrow> None)
     | _ \<Rightarrow> Inl (ValueErr ''payload is not an object''))"

definition legacy_author_lane :: "string list \<Rightarrow> db \<Rightarrow> string \<Rightarrow> string option" where
  "legacy_author_lane lanes d work_id =
     (let es = filter (\<lambda>e. e_kind e \<in> {''handoff'', ''audit_request''}) (events_of d work_id);
          assignee = (case workd d work_id of None \<Rightarrow> [] | Some w \<Rightarrow> norm (w_assignee w));
          stated = concat (map (\<lambda>e. [norm (e_actor e), otext (expected_actor_for_session_id (otext (e_session e)))]) es);
          found = remdups ((if assignee = [] then [] else [assignee]) @ stated)
      in if set (map e_kind es) \<noteq> {''handoff'', ''audit_request''} then None
         else if [] \<in> set stated then None
         else (case found of [l] \<Rightarrow> if l \<in> set lanes then Some l else None | _ \<Rightarrow> None))"

definition latest_claim_author_lane :: "lib \<Rightarrow> string list \<Rightarrow> db \<Rightarrow> string \<Rightarrow> err + string option" where
  "latest_claim_author_lane L lanes d work_id =
     (case select_max (\<lambda>c. (c_acquired c, c_id c)) (\<lambda>c. c_work c = work_id) (d_claims d) of
        Some c \<Rightarrow> Inr (claim_author_lane lanes d c)
      | None \<Rightarrow>
          (case last_row (filter (\<lambda>e. e_kind e \<in> set (claim_kinds lanes)) (events_of d work_id)) of
             Some e \<Rightarrow> event_author_lane L lanes e
           | None \<Rightarrow> Inr (legacy_author_lane lanes d work_id)))"

section \<open>The verdict status\<close>

record verdict_status =
  v_reviewed :: bool
  v_reason :: string
  v_event :: "int option"
  v_verdict :: "string option"
  v_actor :: "string option"
  v_request :: "int option"
  v_repair :: "int option"
  v_barrier :: "int option"

definition plain_status :: "bool \<Rightarrow> string \<Rightarrow> verdict_status" where
  "plain_status ok why = \<lparr>v_reviewed = ok, v_reason = why, v_event = None, v_verdict = None,
     v_actor = None, v_request = None, v_repair = None, v_barrier = None\<rparr>"

definition latest_of_kind :: "db \<Rightarrow> string \<Rightarrow> string \<Rightarrow> int" where
  "latest_of_kind d work_id kind =
     (case last_row (filter (\<lambda>e. e_kind e = kind) (events_of d work_id)) of None \<Rightarrow> 0 | Some e \<Rightarrow> e_id e)"

definition own_verdicts :: "db \<Rightarrow> string \<Rightarrow> int \<Rightarrow> event_row list" where
  "own_verdicts d work_id barrier =
     filter (\<lambda>e. e_kind e = ''audit_verdict'' \<and> barrier < e_id e \<and> verdict_of e \<in> set review_verdicts)
       (events_of d work_id)"

definition independent_verdict :: "string list \<Rightarrow> string option \<Rightarrow> event_row \<Rightarrow> bool" where
  "independent_verdict lanes author e \<longleftrightarrow> norm (e_actor e) \<in> set lanes \<and> Some (norm (e_actor e)) \<noteq> author"

definition cross_row_reference :: "lib \<Rightarrow> db \<Rightarrow> string \<Rightarrow> int \<Rightarrow> event_row option" where
  "cross_row_reference L d work_id barrier =
     (let pat = ''%'' @ work_id @ ''%'' in
      select_min e_id (\<lambda>e. e_kind e = ''audit_verdict'' \<and> upper (otext (e_verdict e)) \<in> set review_verdicts \<and>
         barrier < e_id e \<and> (case e_work e of None \<Rightarrow> False | Some w \<Rightarrow> w \<noteq> work_id) \<and>
         (like pat (column_text L (e_refs e)) \<or> like pat (column_text L (e_payload e)) \<or>
          like pat (otext (e_title e)) \<or> like pat (otext (e_body e)))) (d_events d))"

definition moot_close_kinds :: "string list" where
  "moot_close_kinds = [''board_hygiene_policy_moot_closed'', ''moot_close'', ''moot_closed'']"

definition never_claimed_superseded ::
  "lib \<Rightarrow> proofs \<Rightarrow> string list \<Rightarrow> db \<Rightarrow> string \<Rightarrow> pyrow \<Rightarrow> bool" where
  "never_claimed_superseded L W lanes d work_id row \<longleftrightarrow>
     lower (text_field L row ''intent_state'') = ''superseded'' \<and>
     \<not> list_ex (\<lambda>c. c_work c = work_id) (d_claims d) \<and>
     \<not> list_ex (\<lambda>e. e_kind e \<in> set (claim_kinds lanes)) (events_of d work_id) \<and>
     \<not> done_signal_satisfied W d (str_or_empty L (field row ''done_signal'')) \<and>
     list_ex (\<lambda>e. like ''%superseded by%'' (lower (otext (e_body e))) \<or>
                 like ''%superseded by%'' (lower (otext (e_title e))) \<or>
                 like ''%superseded_by%'' (lower (column_text L (e_payload e)))) (events_of d work_id)"

definition some_if_positive :: "int \<Rightarrow> int option" where
  "some_if_positive i = (if i = 0 then None else Some i)"

definition classify_verdict_status ::
  "lib \<Rightarrow> proofs \<Rightarrow> string list \<Rightarrow> db \<Rightarrow> string \<Rightarrow> pyrow \<Rightarrow> err + verdict_status" where
  "classify_verdict_status L W lanes d work_id row =
     (if never_claimed_superseded L W lanes d work_id row
      then Inr (plain_status True ''never_claimed_superseded_no_artifact'')
      else bindE (latest_claim_author_lane L lanes d work_id) (\<lambda>author.
        let request = latest_of_kind d work_id ''audit_request'';
            repair = latest_of_kind d work_id ''acceptance_contract_repaired'';
            barrier = max request repair;
            verdicts = own_verdicts d work_id barrier;
            status = (\<lambda>ok why e v a. \<lparr>v_reviewed = ok, v_reason = why, v_event = e, v_verdict = v, v_actor = a,
               v_request = some_if_positive request, v_repair = some_if_positive repair,
               v_barrier = some_if_positive barrier\<rparr>);
            judged = (\<lambda>ok why e. status ok why (Some (e_id e)) (Some (verdict_of e)) (Some (norm (e_actor e))))
        in bindE (if barrier = 0 then has_valid_operator_ok L d work_id None None else Inr False) (\<lambda>ok.
          Inr (if ok then plain_status True ''operator_ok''
            else case find (independent_verdict lanes author) verdicts of
                Some e \<Rightarrow> judged True ''independent_verdict'' e
              | None \<Rightarrow>
                  (case last_row verdicts of
                     Some e \<Rightarrow> judged False ''self_verdict'' e
                   | None \<Rightarrow>
                       if cross_row_reference L d work_id barrier \<noteq> None
                         then status False ''cross_row_verdict'' None None None
                       else if list_ex (\<lambda>e. e_kind e \<in> set moot_close_kinds) (events_of d work_id)
                         then status False ''moot_closed_without_verdict'' None None None
                       else status False ''verdict_absent'' None None None)))))"

section \<open>What a verdict status says\<close>

definition review_barrier :: "db \<Rightarrow> string \<Rightarrow> int" where
  "review_barrier d work = max (latest_of_kind d work ''audit_request'') (latest_of_kind d work ''acceptance_contract_repaired'')"

lemma classify_verdict_cases:
  assumes "classify_verdict_status L W lanes d work row = Inr v"
  obtains (plain) why where "v = plain_status True why" "why \<in> {''never_claimed_superseded_no_artifact'', ''operator_ok''}"
  | (judged) author e where "latest_claim_author_lane L lanes d work = Inr author"
      "find (independent_verdict lanes author) (own_verdicts d work (review_barrier d work)) = Some e"
      "v_reviewed v" "v_reason v = ''independent_verdict''" "v_verdict v = Some (verdict_of e)"
      "v_event v = Some (e_id e)" "v_barrier v = some_if_positive (review_barrier d work)"
  | (open_) "\<not> v_reviewed v" "v_reason v \<noteq> ''independent_verdict''"
proof (cases "never_claimed_superseded L W lanes d work row")
  case True
  with assms have "v = plain_status True ''never_claimed_superseded_no_artifact''"
    by (simp add: classify_verdict_status_def)
  then show ?thesis by (rule plain) simp
next
  case False
  obtain author ok where a: "latest_claim_author_lane L lanes d work = Inr author"
    "(if review_barrier d work = 0 then has_valid_operator_ok L d work None None else Inr False) = Inr ok"
    using assms False unfolding classify_verdict_status_def Let_def review_barrier_def
    by (simp only: if_False bindE_Inr_iff) blast
  note run = assms [unfolded classify_verdict_status_def Let_def, folded review_barrier_def, simplified False a if_False bindE.simps]
  show ?thesis
  proof (cases ok)
    case True
    with run have "v = plain_status True ''operator_ok''" by simp
    then show ?thesis by (rule plain) simp
  next
    case nok: False
    show ?thesis
    proof (cases "find (independent_verdict lanes author) (own_verdicts d work (review_barrier d work))")
      case (Some e)
      with run nok have "v_reviewed v" "v_reason v = ''independent_verdict''" "v_verdict v = Some (verdict_of e)"
        "v_event v = Some (e_id e)" "v_barrier v = some_if_positive (review_barrier d work)" by auto
      with a(1) Some show ?thesis by (rule judged)
    next
      case None
      with run nok have "\<not> v_reviewed v \<and> v_reason v \<noteq> ''independent_verdict''"
        by (cases "last_row (own_verdicts d work (review_barrier d work))") (auto split: if_split_asm)
      then show ?thesis using open_ by blast
    qed
  qed
qed

lemma verdict_independent:
  assumes "classify_verdict_status L W lanes d work row = Inr v" "v_reason v = ''independent_verdict''"
  shows "\<exists>author e. latest_claim_author_lane L lanes d work = Inr author \<and> e \<in> set (d_events d) \<and>
     e_work e = Some work \<and> e_kind e = ''audit_verdict'' \<and> verdict_of e \<in> set review_verdicts \<and>
     independent_verdict lanes author e \<and> v_verdict v = Some (verdict_of e) \<and> (\<forall>b. v_barrier v = Some b \<longrightarrow> b < e_id e)"
  using assms(1)
proof (cases rule: classify_verdict_cases)
  case (judged author e)
  have "e \<in> set (own_verdicts d work (review_barrier d work))" "independent_verdict lanes author e"
    using find_SomeD [OF judged(2)] by auto
  with judged show ?thesis
    by (auto simp: own_verdicts_def events_of_def some_if_positive_def split: if_split_asm)
qed (use assms(2) in \<open>auto simp: plain_status_def\<close>)

lemma reviewed_reasons:
  assumes "classify_verdict_status L W lanes d work row = Inr v" "v_reviewed v"
  shows "v_reason v \<in> {''never_claimed_superseded_no_artifact'', ''operator_ok'', ''independent_verdict''}"
  using assms(1) by (cases rule: classify_verdict_cases) (use assms(2) in \<open>auto simp: plain_status_def\<close>)

end
