(* ===== verification/ReviewState.thy ===== *)
theory ReviewState
  imports Review
begin

text \<open>
  The review state that gates completion (coord_db.py,
  \<open>_flag_repair_request_event_is_valid_unlocked\<close> to \<open>effective_review_tier_for_work\<close>): the
  repair request after a negative verdict, the panel a row may declare, the verdict in
  force and whether the row still needs review.
\<close>

section \<open>The repair request\<close>

definition strict_positive_event_id :: "json \<Rightarrow> int option" where
  "strict_positive_event_id j = (case j of JInt i \<Rightarrow> if 0 < i then Some i else None | _ \<Rightarrow> None)"

definition flag_repair_ref_pattern :: rx where
  "flag_repair_ref_pattern = rseq [ropt (rlit ''coord:''), rlit ''event:'', ident_number]"

definition flag_repair_event_ref_id :: "lib \<Rightarrow> json \<Rightarrow> int option" where
  "flag_repair_event_ref_id L j =
     (let s = str_or_empty L j in
      if rx_fullmatch flag_repair_ref_pattern s then Some (trailing_number s) else None)"

definition flag_repair_negative_verdicts :: "string list" where
  "flag_repair_negative_verdicts = [''FLAG'', ''BLOCKED'']"

definition flag_repair_payload_keys :: "string list" where
  "flag_repair_payload_keys =
     [''schema_version'', ''writer_contract'', ''request_kind'', ''event_only'', ''source'', ''task'',
      ''why'', ''acceptance'', ''negative_verdict_event_id'', ''negative_verdict'',
      ''remediation_event_ids'', ''author_lane'', ''review_lane'', ''effective_tier'']"

definition positive_ids :: "json \<Rightarrow> int list option" where
  "positive_ids j = (case j of
       JList xs \<Rightarrow>
         if xs \<noteq> [] \<and> list_all (\<lambda>x. strict_positive_event_id x \<noteq> None) xs
         then Some (map (\<lambda>x. the (strict_positive_event_id x)) xs) else None
     | _ \<Rightarrow> None)"

definition parsed_ref_ids :: "lib \<Rightarrow> json list \<Rightarrow> int list option" where
  "parsed_ref_ids L refs =
     (if refs \<noteq> [] \<and> length refs \<le> 32 \<and> list_all (\<lambda>r. flag_repair_event_ref_id L r \<noteq> None) refs \<and> distinct refs
      then Some (map (\<lambda>r. the (flag_repair_event_ref_id L r)) refs) else None)"

definition flag_repair_request_event_is_valid :: "lib \<Rightarrow> string list \<Rightarrow> event_row \<Rightarrow> string \<Rightarrow> bool" where
  "flag_repair_request_event_is_valid L lanes e work_id \<longleftrightarrow>
     (let actor = norm (e_actor e);
          session = clean (e_session e);
          target = norm (e_to e);
          event_work = clean (e_work e)
      in lower (strip (e_kind e)) = ''audit_request'' \<and> event_work = work_id \<and> actor \<in> set lanes \<and>
         expected_actor_for_session_id session = Some actor \<and>
         target \<in> set (map (\<lambda>l. ''actor:'' @ l) (filter (\<lambda>l. l \<noteq> actor) lanes)) \<and>
         lower (strip (e_trust e)) = ''agent'' \<and>
         (case (e_payload e, e_refs e) of
            (JObj p, JList refs) \<Rightarrow>
              (case (strict_positive_event_id (field p ''negative_verdict_event_id''),
                     positive_ids (field p ''remediation_event_ids''), parsed_ref_ids L refs) of
                 (Some negative, Some remediation, Some ref_ids) \<Rightarrow>
                   set (map fst p) = set flag_repair_payload_keys \<and>
                   json_eq_int (field p ''schema_version'') 1 \<and>
                   field p ''writer_contract'' = JStr ''flag_repair_audit_request.v1'' \<and>
                   field p ''request_kind'' = JStr ''flag_repair'' \<and>
                   field p ''event_only'' = JBool True \<and>
                   (case field p ''source'' of JStr _ \<Rightarrow> True | _ \<Rightarrow> False) \<and>
                   text_field L p ''task'' \<noteq> [] \<and> text_field L p ''why'' \<noteq> [] \<and>
                   (case field p ''acceptance'' of JNull \<Rightarrow> True | JStr _ \<Rightarrow> True | _ \<Rightarrow> False) \<and>
                   field p ''negative_verdict'' \<in> set (map JStr flag_repair_negative_verdicts) \<and>
                   remediation = sort (remdups remediation) \<and>
                   list_all (\<lambda>i. negative < i) remediation \<and>
                   field p ''author_lane'' = JStr actor \<and>
                   field p ''review_lane'' = JStr (drop (length ''actor:'') target) \<and>
                   field p ''effective_tier'' = JStr ''T1'' \<and>
                   set ref_ids = insert negative (set remediation) \<and>
                   list_all (\<lambda>i. i < e_id e) ref_ids \<and>
                   otext (e_key e) = ''flag-repair-audit-request:'' @ actor @ '':'' @
                     digest L (JObj [(''work_id'', JStr event_work), (''actor'', JStr actor),
                       (''session_id'', JStr session), (''to_selector'', JStr target), (''refs'', JList refs),
                       (''payload'', JObj (filter (\<lambda>kv. fst kv \<noteq> ''source'') p))])
               | _ \<Rightarrow> False)
          | _ \<Rightarrow> False))"

section \<open>The review state\<close>

record review_state =
  rs_tier :: string
  rs_reasons :: "string list"
  rs_rubric :: "string option"
  rs_effective :: "string option"
  rs_operator_ok :: bool
  rs_operator_satisfies :: bool
  rs_request :: "int option"
  rs_repair :: "int option"
  rs_barrier :: "int option"
  rs_resolution :: "int option"
  rs_reopened :: bool
  rs_flag_cycle :: bool
  rs_repair_latest :: bool
  rs_negative :: bool
  rs_panel :: "panel_status option"
  rs_needs_review :: bool
  rs_satisfied :: bool

definition live_claim_session_id :: "db \<Rightarrow> string \<Rightarrow> string" where
  "live_claim_session_id d work_id =
     (case select_max c_acquired (\<lambda>c. c_work c = work_id \<and> c_status c = ''running'') (d_claims d) of
        None \<Rightarrow> [] | Some c \<Rightarrow> c_session c)"

definition effective_review_tier_for_work :: "lib \<Rightarrow> string list \<Rightarrow> db \<Rightarrow> string \<Rightarrow> pyrow \<Rightarrow> err + string" where
  "effective_review_tier_for_work L lanes d work_id work =
     bindE (tier_down_authorized L lanes d work_id work) (\<lambda>authorized.
       Inr (effective_review_tier L work [] authorized))"

definition negative_rubrics :: "string list" where
  "negative_rubrics = [''flag'', ''blocked'', ''block'', ''fail'', ''failed'', ''red'', ''reject'', ''rejected'']"

definition panel_uncomputable :: "int \<Rightarrow> panel_status" where
  "panel_uncomputable q = \<lparr>p_passed = False, p_reason = ''panel_uncomputable'', p_quorum = Some q,
     p_assessors = [], p_dissenters = [], p_lanes = []\<rparr>"

text \<open>A declared panel that cannot be evaluated has not passed.\<close>

definition panel_of :: "lib \<Rightarrow> db \<Rightarrow> string \<Rightarrow> pyrow \<Rightarrow> int option \<Rightarrow> int option \<Rightarrow> panel_status option" where
  "panel_of L d work_id work barrier declared =
     (case declared of None \<Rightarrow> None
      | Some q \<Rightarrow>
          let owner = str_or_empty L (field work ''owner_session_id'');
              author_session = strip (if owner \<noteq> [] then owner else live_claim_session_id d work_id)
          in Some (case classify_panel_status_for_work L d work_id (lower (text_field L work ''assignee''))
                     (JInt q) (case barrier of None \<Rightarrow> 0 | Some b \<Rightarrow> b) author_session of
               Inl _ \<Rightarrow> panel_uncomputable q | Inr p \<Rightarrow> p))"

definition ordered_verdict_of :: "verdict_status \<Rightarrow> string" where
  "ordered_verdict_of v =
     (if v_reason v = ''independent_verdict'' then norm (v_verdict v) else [])"

definition flag_cycle_of :: "lib \<Rightarrow> string list \<Rightarrow> db \<Rightarrow> string \<Rightarrow> verdict_status \<Rightarrow> bool" where
  "flag_cycle_of L lanes d work_id v =
     (case v_request v of None \<Rightarrow> False
      | Some i \<Rightarrow> (case find (\<lambda>e. e_id e = i \<and> e_work e = Some work_id \<and> e_kind e = ''audit_request'') (d_events d) of
          None \<Rightarrow> False | Some e \<Rightarrow> flag_repair_request_event_is_valid L lanes e work_id))"

text \<open>The verdict in force: after a barrier the stored rubric counts only in a repair cycle.\<close>

definition effective_rubric_of :: "verdict_status \<Rightarrow> bool \<Rightarrow> bool \<Rightarrow> string \<Rightarrow> string" where
  "effective_rubric_of v flag_cycle repair_latest stored =
     (if v_barrier v = None then stored
      else if ordered_verdict_of v \<noteq> [] then ordered_verdict_of v
      else if flag_cycle \<or> (repair_latest \<and> stored \<in> set negative_rubrics) then stored
      else [])"

definition review_state_of ::
  "lib \<Rightarrow> pyrow \<Rightarrow> string \<Rightarrow> bool \<Rightarrow> verdict_status \<Rightarrow> panel_status option \<Rightarrow> bool \<Rightarrow> review_state" where
  "review_state_of L work tier operator_ok v panel flag_cycle =
     (let stored = lower (text_field L work ''rubric_verdict'');
          repair_latest = (v_repair v \<noteq> None \<and> v_repair v = v_barrier v);
          effective = effective_rubric_of v flag_cycle repair_latest stored;
          operator_satisfies = (v_barrier v = None \<and> operator_ok);
          negative = (effective \<in> set negative_rubrics);
          panel_unmet = (case panel of None \<Rightarrow> False | Some p \<Rightarrow> \<not> p_passed p);
          owed = (tier = ''T0'' \<or> flag_cycle);
          settled = (effective = ''pass'' \<or> operator_satisfies)
      in \<lparr>rs_tier = tier, rs_reasons = t0_predicate_reasons L work [], rs_rubric = opt_text stored,
          rs_effective = opt_text effective, rs_operator_ok = operator_ok,
          rs_operator_satisfies = operator_satisfies, rs_request = v_request v, rs_repair = v_repair v,
          rs_barrier = v_barrier v, rs_resolution = v_event v,
          rs_reopened = (v_barrier v \<noteq> None \<and> ordered_verdict_of v = []), rs_flag_cycle = flag_cycle,
          rs_repair_latest = repair_latest, rs_negative = negative, rs_panel = panel,
          rs_needs_review = ((owed \<and> \<not> settled) \<or> panel_unmet),
          rs_satisfied = (\<not> negative \<and> (\<not> owed \<or> settled))\<rparr>)"

definition completion_review_state ::
  "lib \<Rightarrow> proofs \<Rightarrow> string list \<Rightarrow> db \<Rightarrow> string \<Rightarrow> pyrow option \<Rightarrow> err + review_state" where
  "completion_review_state L W lanes d work_id row =
     (case (case row of Some r \<Rightarrow> Some r | None \<Rightarrow> map_option row_dict (workd d work_id)) of
        None \<Rightarrow> Inl (UnknownWork work_id)
      | Some work \<Rightarrow>
          bindE (effective_review_tier_for_work L lanes d work_id work) (\<lambda>tier.
          bindE (has_valid_operator_ok L d work_id None None) (\<lambda>operator_ok.
          bindE (classify_verdict_status L W lanes d work_id work) (\<lambda>v.
          bindE (quorum_from_acceptance L (jtext (field work ''acceptance_json''))) (\<lambda>declared.
            Inr (review_state_of L work tier operator_ok v
                   (panel_of L d work_id work (v_barrier v) declared)
                   (flag_cycle_of L lanes d work_id v)))))))"

end
