(* ===== verification/Blocked.thy ===== *)
theory Blocked
  imports Claims
begin

text \<open>
  Operations on blocked rows (coord_db.py, \<open>classify_blocked_work\<close> to \<open>recover_orphaned_block\<close>):
  each checks its caller, compares the row with what the caller expects and writes one event
  under a key derived from the request, so that a repeated request is replayed. The locale
  \<open>keyed_request\<close> states that contract.
\<close>

section \<open>Requests with a key\<close>

record receipt =
  k_event :: int
  k_replayed :: bool
  k_released :: "string list"

locale keyed_request =
  fixes run :: "db \<Rightarrow> err + (db \<times> receipt)" and key :: string
  assumes stores: "run d = Inr (d', r) \<Longrightarrow> \<exists>e. event_by_key d' key = Some e \<and> e_id e = k_event r"
    and replays: "event_by_key d key \<noteq> None \<Longrightarrow> run d = Inr (d', r) \<Longrightarrow> d' = d \<and> k_replayed r"
    and fresh: "event_by_key d key = None \<Longrightarrow> run d = Inr (d', r) \<Longrightarrow> \<not> k_replayed r"
begin

lemma again:
  assumes "run d = Inr (d1, r1)" "run d1 = Inr (d2, r2)"
  shows "d2 = d1 \<and> k_replayed r2 \<and> k_event r2 = k_event r1"
proof -
  obtain e where e: "event_by_key d1 key = Some e" "e_id e = k_event r1" using stores [OF assms(1)] by blast
  then have d: "d2 = d1" "k_replayed r2" using replays [OF _ assms(2)] by auto
  obtain e2 where "event_by_key d2 key = Some e2" "e_id e2 = k_event r2" using stores [OF assms(2)] by blast
  with e d show ?thesis by simp
qed

text \<open>The events appended in between do not matter: a request is carried out once.\<close>

lemma once_for_all:
  assumes "run d = Inr (d1, r1)" "run (event_log.append_all es d1) = Inr (d2, r2)"
  shows "d2 = event_log.append_all es d1 \<and> k_event r2 = k_event r1"
proof -
  obtain e where e: "event_by_key d1 key = Some e" "e_id e = k_event r1" using stores [OF assms(1)] by blast
  have k: "event_by_key (event_log.append_all es d1) key = Some e"
    using e(1) by (rule event_log.append_all_keeps)
  then have d: "d2 = event_log.append_all es d1" using replays [OF _ assms(2)] by auto
  obtain e2 where "event_by_key d2 key = Some e2" "e_id e2 = k_event r2" using stores [OF assms(2)] by blast
  with e k d show ?thesis by simp
qed

end

definition replay_of :: "event_row \<Rightarrow> receipt" where
  "replay_of e = \<lparr>k_event = e_id e, k_replayed = True, k_released = []\<rparr>"

text \<open>\<open>INSERT INTO events\<close> of a receipt; the row's identifier is returned.\<close>

definition post_receipt ::
  "seconds \<Rightarrow> string \<Rightarrow> string \<Rightarrow> string \<Rightarrow> string \<Rightarrow> string option \<Rightarrow> string option \<Rightarrow> json \<Rightarrow> json
     \<Rightarrow> string \<Rightarrow> string list \<Rightarrow> db \<Rightarrow> err + (db \<times> receipt)" where
  "post_receipt t kind actor session work title body refs payload key released d =
     bindE (insert_event (blank_event\<lparr>e_ts := t, e_kind := kind, e_actor := Some actor, e_session := Some session,
         e_work := Some work, e_title := title, e_body := body, e_refs := refs, e_payload := payload,
         e_key := Some key\<rparr>) d)
       (\<lambda>(d', i). Inr (d', \<lparr>k_event = i, k_replayed = False, k_released = released\<rparr>))"

lemma post_receipt_Inr:
  assumes "post_receipt t kind actor session work title body refs payload key released d = Inr (d', r)"
  shows "\<exists>e. event_by_key d' key = Some e \<and> e_id e = k_event r \<and> e_kind e = kind \<and> e_work e = Some work \<and>
     e_actor e = Some actor"
    and "\<not> k_replayed r" "k_released r = released" "event_by_key d key = None" "k_event r = d_next_event d"
    and "d_works d' = d_works d" "d_claims d' = d_claims d" "d_sessions d' = d_sessions d" "d_runs d' = d_runs d"
proof -
  define ev where "ev = blank_event\<lparr>e_ts := t, e_kind := kind, e_actor := Some actor, e_session := Some session,
         e_work := Some work, e_title := title, e_body := body, e_refs := refs, e_payload := payload,
         e_key := Some key\<rparr>"
  obtain i where i: "insert_event ev d = Inr (d', i)" "r = \<lparr>k_event = i, k_replayed = False, k_released = released\<rparr>"
    using assms by (auto simp: post_receipt_def ev_def bindE_Inr_iff)
  have new: "event_by_key d key = None"
    using i(1) by (auto simp: insert_event_def ev_def split: if_split_asm)
  note ins = insert_event_Inr [OF i(1)]
  show "\<exists>e. event_by_key d' key = Some e \<and> e_id e = k_event r \<and> e_kind e = kind \<and> e_work e = Some work \<and>
     e_actor e = Some actor"
    using ins new i(2) by (simp add: event_by_key_def find_append ev_def)
  show "\<not> k_replayed r" "k_released r = released" "event_by_key d key = None" "k_event r = d_next_event d"
     "d_works d' = d_works d" "d_claims d' = d_claims d" "d_sessions d' = d_sessions d" "d_runs d' = d_runs d"
    using ins new i(2) by auto
qed

lemma wf_post_receipt:
  "wf_db d \<Longrightarrow> post_receipt t kind actor session work title body refs payload key released d = Inr (d', r) \<Longrightarrow> wf_db d'"
  by (auto simp: post_receipt_def bindE_Inr_iff intro: wf_insert_event)

section \<open>The caller\<close>

definition caller_checks :: "string list \<Rightarrow> string \<Rightarrow> string \<Rightarrow> err + unit" where
  "caller_checks lanes actor session =
     (if actor \<notin> set lanes then Inl (ValueErr ''actor is not a lane'')
      else if session = [] then Inl (ValueErr ''session_id is required'')
      else if \<not> session_actor_ok session actor then Inl (ActorMismatch session actor)
      else Inr ())"

definition registered_as :: "db \<Rightarrow> string \<Rightarrow> string \<Rightarrow> err + unit" where
  "registered_as d session actor =
     (case sess d session of
        None \<Rightarrow> Inl (UnknownSession session)
      | Some s \<Rightarrow> if lower (strip (s_actor s)) \<noteq> actor then Inl (ActorMismatch session actor) else Inr ())"

definition request_key :: "lib \<Rightarrow> string \<Rightarrow> string \<Rightarrow> json \<Rightarrow> string" where
  "request_key L pre work request = pre @ '':'' @ work @ '':'' @ take 24 (digest L request)"

definition opt_json :: "string \<Rightarrow> json" where
  "opt_json s = (if s = [] then JNull else JStr s)"

definition jopt_json :: "string option \<Rightarrow> json" where
  "jopt_json x = (case x of None \<Rightarrow> JNull | Some s \<Rightarrow> JStr s)"

definition active_run :: "string \<Rightarrow> run_row \<Rightarrow> bool" where
  "active_run work r \<longleftrightarrow> r_work r = Some work \<and> r_state r \<in> {''live'', ''running'', ''waiting''}"

section \<open>Classifying a block\<close>

definition blocked_reason_classes :: "string list" where
  "blocked_reason_classes =
     [''awaiting_author_claim'', ''awaiting_independent_reviewer'', ''awaiting_operator_or_t0_review'',
      ''awaiting_reverification'', ''awaiting_review'', ''awaiting_t0_review'', ''blocked'',
      ''concurrent_foreign_work'', ''contract_mismatch_requires_successor'', ''custody_tracking_resolved'',
      ''dependency_missing_predicate'', ''external_dependency'',
      ''external_reviews_and_deploy_architecture'', ''independent_reviewer_capacity'',
      ''interactive_auth'', ''numeric_acceptance_failed'', ''operator_decision'',
      ''ready_for_owner_resume'', ''scope_split_partially_done'', ''source_contract_invalid'',
      ''source_missing_legal_designations'', ''source_unpublished_or_inadequate'',
      ''specification_mismatch'', ''specification_missing'', ''stale_resolved_upstream'',
      ''stale_state_needs_mapping'', ''stale_terminal_sidecar_incomplete'',
      ''superseding_epistemic_blocker'', ''terminal_artifact_unbindable_missing_acceptance'',
      ''upstream_artifact_not_ready'']"

definition reclassify :: "string \<Rightarrow> string \<Rightarrow> seconds \<Rightarrow> work_row \<Rightarrow> work_row" where
  "reclassify reason note t w =
     w\<lparr>w_reason := Some reason, w_note := coalesce (opt_text note) (w_note w), w_updated := t,
       w_version := w_version w + 1\<rparr>"

definition classification_request ::
  "string \<Rightarrow> string \<Rightarrow> int \<Rightarrow> string \<Rightarrow> string \<Rightarrow> string \<Rightarrow> string \<Rightarrow> (string \<times> json) list" where
  "classification_request work reason version expected actor session note =
     [(''schema_version'', JInt 1), (''work_id'', JStr work), (''reason_class'', JStr reason),
      (''expected_version'', JInt version), (''expected_reason_class'', opt_json expected),
      (''actor'', JStr actor), (''session_id'', JStr session), (''note'', opt_json note)]"

definition classify_row ::
  "lib \<Rightarrow> string \<Rightarrow> string \<Rightarrow> int \<Rightarrow> string \<Rightarrow> string \<Rightarrow> string \<Rightarrow> string \<Rightarrow> work_row \<Rightarrow> seconds \<Rightarrow> db
     \<Rightarrow> err + (db \<times> receipt)" where
  "classify_row L work reason version expected actor session note w t d =
     (let prior = opt_text (clean (w_reason w));
          request = classification_request work reason version expected actor session note
      in if w_version w \<noteq> version then Inl (CasFailed ''version'')
         else if prior \<noteq> opt_text expected then Inl (CasFailed ''reason'')
         else if row_count (\<lambda>x. w_id x = work \<and> w_version x = version) (d_works d) \<noteq> 1
           then Inl (CasFailed ''version lost'')
         else post_receipt t ''blocked_reason_classified'' actor session work None None (JList [])
           (JObj (request @ [(''request_sha256'', JStr (digest L (JObj request))),
              (''prior_reason_class'', jopt_json prior), (''version_before'', JInt version),
              (''version_after'', JInt (version + 1)), (''lifecycle_mutation'', JBool False),
              (''claim_mutation'', JBool False)]))
           (request_key L ''blocked-reason'' work (JObj request)) []
           (upd_works (\<lambda>x. w_id x = work \<and> w_version x = version) (reclassify reason note t) d))"

definition classify_blocked_work ::
  "lib \<Rightarrow> string list \<Rightarrow> string \<Rightarrow> string \<Rightarrow> int \<Rightarrow> string option \<Rightarrow> string \<Rightarrow> string \<Rightarrow> string option
     \<Rightarrow> seconds \<Rightarrow> db \<Rightarrow> err + (db \<times> receipt)" where
  "classify_blocked_work L lanes work_id reason_class version expected_class actor session_id note t d =
     (let work = strip work_id; reason = lower (strip reason_class); who = lower (strip actor);
          session = strip session_id; expected = norm expected_class; text = clean note;
          key = request_key L ''blocked-reason'' work
            (JObj (classification_request work reason version expected who session text))
      in if work = [] then Inl (ValueErr ''work_id is required'')
         else bindE (caller_checks lanes who session) (\<lambda>_.
           if reason \<notin> set blocked_reason_classes then Inl (ValueErr ''reason class'')
           else if version < 0 then Inl (ValueErr ''expected_version'')
           else bindE (registered_as d session who) (\<lambda>_.
             case workd d work of
               None \<Rightarrow> Inl (UnknownWork work)
             | Some w \<Rightarrow>
                 if lower (strip (w_intent w)) \<noteq> ''blocked'' then Inl (ValueErr ''row is not blocked'')
                 else (case event_by_key d key of
                     Some e \<Rightarrow> Inr (d, replay_of e)
                   | None \<Rightarrow> classify_row L work reason version expected who session text w t d))))"

section \<open>A typed predicate for a blocked row\<close>

definition migration_request ::
  "string \<Rightarrow> int \<Rightarrow> string \<Rightarrow> string option \<Rightarrow> string \<Rightarrow> json \<Rightarrow> string \<Rightarrow> string list \<Rightarrow> string \<Rightarrow> string \<Rightarrow> string
     \<Rightarrow> (string \<times> json) list" where
  "migration_request work version reason expected_when resume_when predicate operation refs note actor session =
     [(''schema_version'', JInt 1), (''work_id'', JStr work), (''expected_version'', JInt version),
      (''expected_reason_class'', JStr reason), (''expected_resume_when'', jopt_json expected_when),
      (''resume_when'', JStr resume_when), (''resume_predicate'', predicate),
      (''operation_id'', JStr operation), (''refs'', JList (map JStr refs)), (''note'', JStr note),
      (''actor'', JStr actor), (''session_id'', JStr session)]"

definition migrates :: "string \<Rightarrow> string \<Rightarrow> string \<Rightarrow> int \<Rightarrow> string option \<Rightarrow> work_row \<Rightarrow> bool" where
  "migrates work actor reason version raw_when w \<longleftrightarrow>
     w_id w = work \<and> w_assignee w = Some actor \<and> w_intent w = ''blocked'' \<and> w_reason w = Some reason \<and>
     w_version w = version \<and> w_resume_when w = raw_when \<and> w_resume_pred w = None \<and> w_ready_at w = None"

definition set_predicate :: "string \<Rightarrow> string \<Rightarrow> seconds \<Rightarrow> work_row \<Rightarrow> work_row" where
  "set_predicate resume_when predicate t w =
     w\<lparr>w_resume_when := Some resume_when, w_resume_pred := Some predicate, w_ready_at := None,
       w_updated := t, w_version := w_version w + 1\<rparr>"

definition migration_checks ::
  "string \<Rightarrow> string \<Rightarrow> int \<Rightarrow> string option \<Rightarrow> work_row \<Rightarrow> db \<Rightarrow> err + unit" where
  "migration_checks work reason version expected_when w d =
     (if lower (strip (w_intent w)) \<noteq> ''blocked'' then Inl (ValueErr ''row is not blocked'')
      else if norm (w_reason w) \<noteq> reason then Inl (CasFailed ''reason'')
      else if w_version w \<noteq> version then Inl (CasFailed ''version'')
      else if map_option strip (w_resume_when w) \<noteq> expected_when then Inl (CasFailed ''resume_when'')
      else if w_resume_pred w \<noteq> None then Inl (ValueErr ''resume_predicate_json is set'')
      else if w_ready_at w \<noteq> None then Inl (ValueErr ''continuation_ready_at is set'')
      else if list_ex (\<lambda>c. c_work c = work \<and> held c) (d_claims d) then Inl (HeldClaimRefused work)
      else if list_ex (active_run work) (d_runs d) then Inl (ActiveRunRefused work)
      else Inr ())"

definition migrate_row ::
  "lib \<Rightarrow> string \<Rightarrow> string \<Rightarrow> int \<Rightarrow> string option \<Rightarrow> string \<Rightarrow> string \<Rightarrow> string list \<Rightarrow> string \<Rightarrow> string
     \<Rightarrow> string \<Rightarrow> json \<Rightarrow> (string \<times> json) list \<Rightarrow> work_row \<Rightarrow> seconds \<Rightarrow> db \<Rightarrow> err + (db \<times> receipt)" where
  "migrate_row L work reason version expected_when resume_when canonical refs note actor session predicate
     request w t d =
     bindE (migration_checks work reason version expected_when w d) (\<lambda>_.
       if row_count (migrates work actor reason version (w_resume_when w)) (d_works d) \<noteq> 1
       then Inl (CasFailed ''lost'')
       else post_receipt t ''resume_predicate_migrated'' actor session work
         (Some ''Typed blocked-row predicate migrated'') (Some note) (JList (map JStr refs))
         (JObj (request @ [(''request_sha256'', JStr (digest L (JObj request))),
            (''predicate_type'', jget predicate ''type''), (''from_predicate'', JNull),
            (''to_predicate'', predicate), (''version_before'', JInt version),
            (''version_after'', JInt (version + 1)), (''lifecycle_mutation'', JBool False),
            (''claim_mutation'', JBool False), (''predicate_evaluated'', JBool False),
            (''readiness_reset'', JBool False)]))
         (request_key L ''resume-predicate-migration'' work (JObj request)) []
         (upd_works (migrates work actor reason version (w_resume_when w)) (set_predicate resume_when canonical t) d))"

definition typed_predicate :: "lib \<Rightarrow> string \<Rightarrow> string \<Rightarrow> err + (string \<times> json)" where
  "typed_predicate L resume_when predicate =
     bindE (normalize_resume_trigger_contract L (Some resume_when) (Some predicate) False) (\<lambda>canonical.
       case canonical of
         None \<Rightarrow> Inl (ValueErr ''a typed predicate is required'')
       | Some c \<Rightarrow> (case loads L c of
             Some (JObj p) \<Rightarrow>
               if jget (JObj p) ''type'' = JStr ''manual'' then Inl (ValueErr ''manual marker refused'') else Inr (c, JObj p)
           | _ \<Rightarrow> Inl (ValueErr ''predicate is not an object'')))"

definition migration_arguments ::
  "string list \<Rightarrow> string \<Rightarrow> string \<Rightarrow> string \<Rightarrow> string \<Rightarrow> int \<Rightarrow> string \<Rightarrow> string \<Rightarrow> string list \<Rightarrow> string
     \<Rightarrow> err + unit" where
  "migration_arguments lanes work who session reason version resume_when operation refs note =
     (if work = [] then Inl (ValueErr ''work_id is required'')
      else bindE (caller_checks lanes who session) (\<lambda>_.
        if reason \<notin> set blocked_reason_classes then Inl (ValueErr ''reason class'')
        else if version < 0 then Inl (ValueErr ''expected_version'')
        else if resume_when = [] then Inl (ValueErr ''resume_when'')
        else if operation = [] then Inl (ValueErr ''operation_id'')
        else if refs = [] then Inl (ValueErr ''refs'')
        else if note = [] then Inl (ValueErr ''note'')
        else Inr ()))"

definition migrate_blocked_resume_predicate ::
  "lib \<Rightarrow> string list \<Rightarrow> string \<Rightarrow> int \<Rightarrow> string \<Rightarrow> string option \<Rightarrow> string \<Rightarrow> string \<Rightarrow> string
     \<Rightarrow> string list \<Rightarrow> string \<Rightarrow> string \<Rightarrow> string \<Rightarrow> seconds \<Rightarrow> db \<Rightarrow> err + (db \<times> receipt)" where
  "migrate_blocked_resume_predicate L lanes work_id version expected_class expected_when resume_when
     predicate operation_id refs note actor session_id t d =
     (let work = strip work_id; who = lower (strip actor); session = strip session_id;
          reason = lower (strip expected_class); stated = strip resume_when; operation = strip operation_id;
          body = strip note; clean_refs = filter (\<lambda>r. r \<noteq> []) (map strip refs);
          want = map_option strip expected_when
      in bindE (migration_arguments lanes work who session reason version stated operation clean_refs body) (\<lambda>_.
         bindE (typed_predicate L stated predicate) (\<lambda>(canonical, parsed).
         bindE (registered_as d session who) (\<lambda>_.
           let request = migration_request work version reason want stated parsed operation clean_refs body who session;
               key = request_key L ''resume-predicate-migration'' work (JObj request)
           in case workd d work of
             None \<Rightarrow> Inl (UnknownWork work)
           | Some w \<Rightarrow>
               if norm (w_assignee w) \<noteq> who then Inl (AssignedElsewhere work (norm (w_assignee w)))
               else (case event_by_key d key of
                   Some e \<Rightarrow> Inr (d, replay_of e)
                 | None \<Rightarrow> migrate_row L work reason version want stated canonical clean_refs body who session
                     parsed request w t d)))))"

section \<open>Releasing a classified block\<close>

definition releasable_classes :: "string list" where
  "releasable_classes = [''ready_for_owner_resume'', ''custody_tracking_resolved'']"

definition release_request :: "string \<Rightarrow> string \<Rightarrow> string \<Rightarrow> string \<Rightarrow> string \<Rightarrow> (string \<times> json) list" where
  "release_request work reason actor session note =
     [(''schema_version'', JInt 1), (''work_id'', JStr work), (''expected_reason_class'', JStr reason),
      (''actor'', JStr actor), (''session_id'', JStr session), (''note'', opt_json note)]"

definition unblock :: "seconds \<Rightarrow> work_row \<Rightarrow> work_row" where
  "unblock t w = w\<lparr>w_intent := ''queued'', w_reason := None, w_updated := t, w_version := w_version w + 1\<rparr>"

definition release_block_row ::
  "lib \<Rightarrow> string \<Rightarrow> string \<Rightarrow> string \<Rightarrow> string \<Rightarrow> string \<Rightarrow> work_row \<Rightarrow> seconds \<Rightarrow> db \<Rightarrow> err + (db \<times> receipt)" where
  "release_block_row L work reason actor session note w t d =
     (let request = release_request work reason actor session note;
          held_ids = map c_id (filter (\<lambda>c. c_work c = work \<and> held c) (d_claims d));
          d1 = upd_claims (\<lambda>c. c_id c \<in> set held_ids)
                 (release_status ''released'' (Some ''classified block released for owner resume'')) d
      in if lower (strip (w_intent w)) \<noteq> ''blocked'' then Inl (ValueErr ''row is not blocked'')
         else if norm (w_reason w) \<noteq> reason then Inl (CasFailed ''reason'')
         else if list_ex (active_run work) (d_runs d) then Inl (ActiveRunRefused work)
         else post_receipt t ''classified_block_released'' actor session work None None (JList [])
           (JObj (request @ [(''request_sha256'', JStr (digest L (JObj request))),
              (''released_claim_ids'', JList (map JStr held_ids)),
              (''lifecycle_transition'', JStr ''blocked_to_queued''), (''completion_bypass'', JBool False)]))
           (request_key L ''blocked-release'' work (JObj request)) held_ids
           (upd_works (\<lambda>x. w_id x = work) (unblock t) d1))"

definition release_classified_block ::
  "lib \<Rightarrow> string list \<Rightarrow> string \<Rightarrow> string \<Rightarrow> string \<Rightarrow> string \<Rightarrow> string option \<Rightarrow> seconds \<Rightarrow> db
     \<Rightarrow> err + (db \<times> receipt)" where
  "release_classified_block L lanes work_id expected_class actor session_id note t d =
     (let work = strip work_id; reason = lower (strip expected_class); who = lower (strip actor);
          session = strip session_id; text = clean note;
          key = request_key L ''blocked-release'' work (JObj (release_request work reason who session text))
      in if reason \<notin> set releasable_classes then Inl (ValueErr ''release class'')
         else bindE (caller_checks lanes who session) (\<lambda>_.
           case event_by_key d key of
             Some e \<Rightarrow> Inr (d, replay_of e)
           | None \<Rightarrow>
               bindE (registered_as d session who) (\<lambda>_.
                 case workd d work of
                   None \<Rightarrow> Inl (UnknownWork work)
                 | Some w \<Rightarrow> release_block_row L work reason who session text w t d)))"

section \<open>Recovering an orphaned block\<close>

definition recovery_request :: "string \<Rightarrow> string \<Rightarrow> string \<Rightarrow> string \<Rightarrow> (string \<times> json) list" where
  "recovery_request work actor session note =
     [(''schema_version'', JInt 1), (''work_id'', JStr work), (''actor'', JStr actor),
      (''session_id'', JStr session), (''note'', JStr note),
      (''expected_state'', JStr ''blocked_no_claim_no_reason'')]"

definition recover_row ::
  "lib \<Rightarrow> string \<Rightarrow> string \<Rightarrow> string \<Rightarrow> string \<Rightarrow> seconds \<Rightarrow> db \<Rightarrow> err + (db \<times> receipt)" where
  "recover_row L work actor session note t d =
     (let request = recovery_request work actor session note
      in case workd d work of
           None \<Rightarrow> Inl (UnknownWork work)
         | Some w \<Rightarrow>
             if lower (strip (w_intent w)) \<noteq> ''blocked'' \<or> clean (w_reason w) \<noteq> [] then Inl (OrphanedBlock work)
             else if list_ex (live_held t work) (d_claims d) then Inl (HeldClaimRefused work)
             else if list_ex (active_run work) (d_runs d) then Inl (ActiveRunRefused work)
             else post_receipt t ''orphaned_block_recovered'' actor session work None None (JList [])
               (JObj (request @ [(''request_sha256'', JStr (digest L (JObj request))),
                  (''prior_state'', JStr ''blocked_no_claim_no_reason''),
                  (''lifecycle_transition'', JStr ''orphaned_block_to_queued''), (''completion_bypass'', JBool False)]))
               (request_key L ''orphaned-block-recovery'' work (JObj request)) []
               (upd_works (\<lambda>x. w_id x = work) (\<lambda>x. (unblock t x)\<lparr>w_note := Some note\<rparr>) d))"

definition recover_orphaned_block ::
  "lib \<Rightarrow> string list \<Rightarrow> string \<Rightarrow> string \<Rightarrow> string \<Rightarrow> string \<Rightarrow> seconds \<Rightarrow> db \<Rightarrow> err + (db \<times> receipt)" where
  "recover_orphaned_block L lanes work_id actor session_id note t d =
     (let work = strip work_id; who = lower (strip actor); session = strip session_id; text = strip note;
          key = request_key L ''orphaned-block-recovery'' work (JObj (recovery_request work who session text))
      in if work = [] then Inl (ValueErr ''work_id is required'')
         else bindE (caller_checks lanes who session) (\<lambda>_.
           if text = [] then Inl (ValueErr ''note is required'')
           else bindE (registered_as d session who) (\<lambda>_.
             case event_by_key d key of
               Some e \<Rightarrow> Inr (d, replay_of e)
             | None \<Rightarrow>
                 recover_row L work who session text t (fst (release_expired_claims_unlocked t (Some work) d)))))"

section \<open>The contract holds\<close>

definition posted :: "string \<Rightarrow> db \<Rightarrow> receipt \<Rightarrow> bool" where
  "posted key d r \<longleftrightarrow> (\<exists>e. event_by_key d key = Some e \<and> e_id e = k_event r) \<and> \<not> k_replayed r"

lemma post_receipt_posted:
  "post_receipt t kind actor session work title body refs payload key released d = Inr (d', r) \<Longrightarrow> posted key d' r"
  using post_receipt_Inr(1,2) [of t kind actor session work title body refs payload key released d d' r]
  by (auto simp: posted_def)

text \<open>The two ways a keyed operation returns.\<close>

definition outcome :: "string \<Rightarrow> db \<Rightarrow> db \<Rightarrow> receipt \<Rightarrow> (db \<Rightarrow> db \<Rightarrow> receipt \<Rightarrow> bool) \<Rightarrow> bool" where
  "outcome key d d' r writes \<longleftrightarrow>
     (case event_by_key d key of Some e \<Rightarrow> d' = d \<and> r = replay_of e | None \<Rightarrow> writes d d' r)"

lemma keyed_requestI:
  assumes "\<And>d d' r. run d = Inr (d', r) \<Longrightarrow> outcome key d d' r (\<lambda>d d' r. posted key d' r)"
  shows "keyed_request run key"
proof
  fix d d' and r :: receipt
  assume run: "run d = Inr (d', r)"
  show "\<exists>e. event_by_key d' key = Some e \<and> e_id e = k_event r"
    using assms [OF run] by (auto simp: outcome_def posted_def replay_of_def split: option.splits)
next
  fix d d' and r :: receipt
  assume "event_by_key d key \<noteq> None" "run d = Inr (d', r)"
  with assms show "d' = d \<and> k_replayed r" by (fastforce simp: outcome_def replay_of_def split: option.splits)
next
  fix d d' and r :: receipt
  assume "event_by_key d key = None" "run d = Inr (d', r)"
  with assms show "\<not> k_replayed r" by (fastforce simp: outcome_def posted_def split: option.splits)
qed

lemma classify_outcome:
  assumes "classify_blocked_work L lanes work_id reason_class version expected_class actor session_id note t d = Inr (d', r)"
  shows "outcome (request_key L ''blocked-reason'' (strip work_id)
      (JObj (classification_request (strip work_id) (lower (strip reason_class)) version (norm expected_class)
        (lower (strip actor)) (strip session_id) (clean note)))) d d' r
    (\<lambda>d d' r. \<exists>w. workd d (strip work_id) = Some w \<and>
      classify_row L (strip work_id) (lower (strip reason_class)) version (norm expected_class)
        (lower (strip actor)) (strip session_id) (clean note) w t d = Inr (d', r))"
  using assms unfolding classify_blocked_work_def Let_def outcome_def
  by (simp add: bindE_Inr_iff split: if_split_asm option.splits)

lemma outcome_mono: "outcome key d d' r P \<Longrightarrow> (P d d' r \<Longrightarrow> Q d d' r) \<Longrightarrow> outcome key d d' r Q"
  by (auto simp: outcome_def split: option.splits)

lemma classify_row_posted:
  assumes "classify_row L work reason version expected actor session note w t d = Inr (d', r)"
  shows "posted (request_key L ''blocked-reason'' work
      (JObj (classification_request work reason version expected actor session note))) d' r"
  using assms unfolding classify_row_def Let_def by (auto split: if_split_asm dest: post_receipt_posted)

interpretation classification: keyed_request
  "classify_blocked_work L lanes work_id reason_class version expected_class actor session_id nt t"
  "request_key L ''blocked-reason'' (strip work_id)
      (JObj (classification_request (strip work_id) (lower (strip reason_class)) version (norm expected_class)
        (lower (strip actor)) (strip session_id) (clean nt)))"
  for L lanes work_id reason_class version expected_class actor session_id nt t
  by (rule keyed_requestI, rule outcome_mono [OF classify_outcome])
    (auto dest: classify_row_posted)

lemma migrate_outcome:
  assumes "migrate_blocked_resume_predicate L lanes work_id version expected_class expected_when resume_when
     predicate operation_id refs note actor session_id t d = Inr (d', r)"
    and "typed_predicate L (strip resume_when) predicate = Inr (canonical, parsed)"
  shows "outcome (request_key L ''resume-predicate-migration'' (strip work_id)
      (JObj (migration_request (strip work_id) version (lower (strip expected_class)) (map_option strip expected_when)
         (strip resume_when) parsed (strip operation_id) (filter (\<lambda>r. r \<noteq> []) (map strip refs)) (strip note)
         (lower (strip actor)) (strip session_id)))) d d' r
    (\<lambda>d d' r. \<exists>w. workd d (strip work_id) = Some w \<and> norm (w_assignee w) = lower (strip actor) \<and>
      migrate_row L (strip work_id) (lower (strip expected_class)) version (map_option strip expected_when)
        (strip resume_when) canonical (filter (\<lambda>r. r \<noteq> []) (map strip refs)) (strip note) (lower (strip actor))
        (strip session_id) parsed
        (migration_request (strip work_id) version (lower (strip expected_class)) (map_option strip expected_when)
         (strip resume_when) parsed (strip operation_id) (filter (\<lambda>r. r \<noteq> []) (map strip refs)) (strip note)
         (lower (strip actor)) (strip session_id)) w t d = Inr (d', r))"
  using assms unfolding migrate_blocked_resume_predicate_def Let_def outcome_def
  by (simp add: bindE_Inr_iff split: if_split_asm option.splits)

lemma release_outcome:
  assumes "release_classified_block L lanes work_id expected_class actor session_id note t d = Inr (d', r)"
  shows "outcome (request_key L ''blocked-release'' (strip work_id)
      (JObj (release_request (strip work_id) (lower (strip expected_class)) (lower (strip actor)) (strip session_id)
        (clean note)))) d d' r
    (\<lambda>d d' r. \<exists>w. workd d (strip work_id) = Some w \<and>
      release_block_row L (strip work_id) (lower (strip expected_class)) (lower (strip actor)) (strip session_id)
        (clean note) w t d = Inr (d', r))"
  using assms unfolding release_classified_block_def Let_def outcome_def
  by (simp add: bindE_Inr_iff split: if_split_asm option.splits)

lemma release_block_row_posted:
  assumes "release_block_row L work reason actor session note w t d = Inr (d', r)"
  shows "posted (request_key L ''blocked-release'' work (JObj (release_request work reason actor session note))) d' r"
  using assms unfolding release_block_row_def Let_def by (auto split: if_split_asm dest: post_receipt_posted)

interpretation classified_release: keyed_request
  "release_classified_block L lanes work_id expected_class actor session_id nt t"
  "request_key L ''blocked-release'' (strip work_id)
      (JObj (release_request (strip work_id) (lower (strip expected_class)) (lower (strip actor)) (strip session_id)
        (clean nt)))"
  for L lanes work_id expected_class actor session_id nt t
  by (rule keyed_requestI, rule outcome_mono [OF release_outcome])
    (auto dest: release_block_row_posted)

lemma recover_outcome:
  assumes "recover_orphaned_block L lanes work_id actor session_id note t d = Inr (d', r)"
  shows "outcome (request_key L ''orphaned-block-recovery'' (strip work_id)
      (JObj (recovery_request (strip work_id) (lower (strip actor)) (strip session_id) (strip note)))) d d' r
    (\<lambda>d d' r. recover_row L (strip work_id) (lower (strip actor)) (strip session_id) (strip note) t
        (fst (release_expired_claims_unlocked t (Some (strip work_id)) d)) = Inr (d', r))"
  using assms unfolding recover_orphaned_block_def Let_def outcome_def
  by (simp add: bindE_Inr_iff split: if_split_asm option.splits)

lemma recover_row_posted:
  assumes "recover_row L work actor session note t d = Inr (d', r)"
  shows "posted (request_key L ''orphaned-block-recovery'' work (JObj (recovery_request work actor session note))) d' r"
  using assms unfolding recover_row_def Let_def
  by (auto split: if_split_asm option.splits dest: post_receipt_posted)

interpretation recovery: keyed_request
  "recover_orphaned_block L lanes work_id actor session_id nt t"
  "request_key L ''orphaned-block-recovery'' (strip work_id)
      (JObj (recovery_request (strip work_id) (lower (strip actor)) (strip session_id) (strip nt)))"
  for L lanes work_id actor session_id nt t
  by (rule keyed_requestI, rule outcome_mono [OF recover_outcome])
    (auto dest: recover_row_posted)

section \<open>What the operations keep\<close>

interpretation release_update: claim_update p "release_status ''released'' reason" for p reason
  by unfold_locales (auto simp: release_status_def held_def held_statuses_def)

lemma blocked_row_ids [simp]:
  "w_id (reclassify reason note t w) = w_id w" "w_id (set_predicate resume_when p t w) = w_id w"
  "w_id (unblock t w) = w_id w" "w_version (reclassify reason note t w) = w_version w + 1"
  by (simp_all add: reclassify_def set_predicate_def unblock_def)

lemma wf_classify_row:
  assumes "wf_db d" "classify_row L work reason version expected actor session note w t d = Inr (d', r)"
  shows "wf_db d'"
  using assms(2) unfolding classify_row_def Let_def
  by (auto split: if_split_asm elim!: wf_post_receipt [OF wf_upd_works [OF _ assms(1)], rotated])

lemma wf_migrate_row:
  assumes "wf_db d" "migrate_row L work reason version ew rw canonical refs note actor session p request w t d = Inr (d', r)"
  shows "wf_db d'"
  using assms(2) unfolding migrate_row_def
  by (auto simp: bindE_Inr_iff split: if_split_asm elim!: wf_post_receipt [OF wf_upd_works [OF _ assms(1)], rotated])

lemma wf_release_block_row:
  assumes "wf_db d" "release_block_row L work reason actor session note w t d = Inr (d', r)"
  shows "wf_db d'"
  using assms(2) unfolding release_block_row_def Let_def
  by (auto split: if_split_asm
      elim!: wf_post_receipt [OF wf_upd_works [OF _ release_update.wf [OF assms(1)]], rotated])

lemma wf_recover_row:
  assumes "wf_db d" "recover_row L work actor session note t d = Inr (d', r)"
  shows "wf_db d'"
  using assms(2) unfolding recover_row_def Let_def
  by (auto split: if_split_asm option.splits elim!: wf_post_receipt [OF wf_upd_works [OF _ assms(1)], rotated])

lemma wf_classify:
  assumes "wf_db d"
    and "classify_blocked_work L lanes work_id reason_class version expected_class actor session_id note t d = Inr (d', r)"
  shows "wf_db d'"
  using classify_outcome [OF assms(2)] assms(1)
  by (auto simp: outcome_def intro: wf_classify_row split: option.splits)

lemma wf_release_block:
  assumes "wf_db d"
    and "release_classified_block L lanes work_id expected_class actor session_id note t d = Inr (d', r)"
  shows "wf_db d'"
  using release_outcome [OF assms(2)] assms(1)
  by (auto simp: outcome_def intro: wf_release_block_row split: option.splits)

lemma wf_recover:
  assumes "wf_db d" "recover_orphaned_block L lanes work_id actor session_id note t d = Inr (d', r)"
  shows "wf_db d'"
  using recover_outcome [OF assms(2)] assms(1)
  by (auto simp: outcome_def intro: wf_recover_row [OF wf_release_expired] split: option.splits)

lemma wf_migrate:
  assumes "wf_db d" and run: "migrate_blocked_resume_predicate L lanes work_id version expected_class expected_when
     resume_when predicate operation_id refs note actor session_id t d = Inr (d', r)"
  shows "wf_db d'"
proof -
  obtain canonical parsed where p: "typed_predicate L (strip resume_when) predicate = Inr (canonical, parsed)"
    using run by (auto simp: migrate_blocked_resume_predicate_def Let_def bindE_Inr_iff)
  show ?thesis
    using migrate_outcome [OF run p] assms(1)
    by (auto simp: outcome_def intro: wf_migrate_row split: option.splits)
qed

text \<open>A classification is a compare-and-swap on the version of the row.\<close>

lemma classify_row_swaps:
  assumes "classify_row L work reason version expected actor session note w t d = Inr (d', r)"
    and "workd d work = Some w"
  shows "w_version w = version" "workd d' work = Some (reclassify reason note t w)"
    and "d_claims d' = d_claims d"
proof -
  show v: "w_version w = version"
    using assms(1) by (auto simp: classify_row_def Let_def split: if_split_asm)
  obtain k sha payload rel where pr: "post_receipt t ''blocked_reason_classified'' actor session work None None (JList [])
      payload k rel (upd_works (\<lambda>x. w_id x = work \<and> w_version x = version) (reclassify reason note t) d) = Inr (d', r)"
    using assms(1) unfolding classify_row_def Let_def by (auto split: if_split_asm)
  note f = post_receipt_Inr [OF pr]
  show "workd d' work = Some (reclassify reason note t w)"
    using f(6) assms(2) v workd_SomeD [OF assms(2)]
    by (simp add: workd_def upd_works_def find_upd_where)
  show "d_claims d' = d_claims d" using f(7) by (simp add: table_simps)
qed

lemma version_refused:
  assumes "workd d (strip work_id) = Some w" "w_version w \<noteq> version"
    and "classify_blocked_work L lanes work_id reason_class version expected_class actor session_id note t d = Inr (d', r)"
  shows "k_replayed r"
  using classify_outcome [OF assms(3)] assms(1,2)
  by (auto simp: outcome_def classify_row_def Let_def replay_of_def split: option.splits)

lemma release_status_simps [simp]: "c_work (release_status s r c) = c_work c" "c_id (release_status s r c) = c_id c"
   "c_status (release_status s r c) = s"
  by (simp_all add: release_status_def)

lemma block_release_row_effect:
  assumes wf: "wf_db d" and "release_classified_block L lanes work expected actor sid nt t d = Inr (d', r)" "\<not> k_replayed r"
  shows "(\<exists>w. workd d (strip work) = Some w \<and> lower (strip (w_intent w)) = ''blocked'' \<and>
       lower (strip expected) \<in> set releasable_classes \<and> norm (w_reason w) = lower (strip expected)) \<and>
     (\<forall>w. workd d' (strip work) = Some w \<longrightarrow> w_intent w = ''queued'' \<and> w_reason w = None) \<and>
     (\<forall>j. j \<noteq> strip work \<longrightarrow> workd d' j = workd d j) \<and>
     (\<forall>c \<in> set (d_claims d'). held c \<longrightarrow> c_work c \<noteq> strip work) \<and>
     filter (\<lambda>c. c_work c \<noteq> strip work) (d_claims d') = filter (\<lambda>c. c_work c \<noteq> strip work) (d_claims d)"
proof -
  let ?w = "strip work" and ?reason = "''classified block released for owner resume''"
  have cls: "lower (strip expected) \<in> set releasable_classes"
    using assms(2) by (auto simp: release_classified_block_def Let_def split: if_split_asm)
  obtain w where w: "workd d ?w = Some w"
    "release_block_row L ?w (lower (strip expected)) (lower (strip actor)) (strip sid) (clean nt) w t d = Inr (d', r)"
    using release_outcome [OF assms(2)] assms(3) by (auto simp: outcome_def replay_of_def split: option.splits)
  let ?ids = "map c_id (filter (\<lambda>c. c_work c = ?w \<and> held c) (d_claims d))"
  have ok: "lower (strip (w_intent w)) = ''blocked''" "norm (w_reason w) = lower (strip expected)"
    using w(2) by (auto simp: release_block_row_def Let_def split: if_split_asm)
  obtain k payload sha where pr: "post_receipt t ''classified_block_released'' (lower (strip actor)) (strip sid) ?w None None (JList [])
      payload k ?ids (upd_works (\<lambda>x. w_id x = ?w) (unblock t)
        (upd_claims (\<lambda>c. c_id c \<in> set ?ids) (release_status ''released'' (Some ?reason)) d)) = Inr (d', r)"
    using w(2) unfolding release_block_row_def Let_def by (auto split: if_split_asm)
  note f = post_receipt_Inr [OF pr]
  have cl: "d_claims d' = upd_where (\<lambda>c. c_id c \<in> set ?ids) (release_status ''released'' (Some ?reason)) (d_claims d)"
    using f(7) by (simp add: table_simps)
  have wk: "d_works d' = upd_where (\<lambda>x. w_id x = ?w) (unblock t) (d_works d)"
    using f(6) by (simp add: table_simps)
  have inj: "inj_on c_id (set (d_claims d))" using wf by (simp add: wf_db_defs distinct_map)
  have sel: "c_id c \<in> set ?ids \<longleftrightarrow> c_work c = ?w \<and> held c" if "c \<in> set (d_claims d)" for c
    using that inj by (auto dest: inj_onD)
  have cl2: "d_claims d' = upd_where (\<lambda>c. c_work c = ?w \<and> held c) (release_status ''released'' (Some ?reason)) (d_claims d)"
    unfolding cl by (rule upd_where_cong) (rule sel)
  have "\<not> held (release_status ''released'' x c)" for x c
    by (simp add: held_def held_statuses_def)
  then have "\<forall>c \<in> set (d_claims d'). held c \<longrightarrow> c_work c \<noteq> ?w"
    unfolding cl2 by (auto dest!: in_upd_whereD split: if_splits)
  moreover have "filter (\<lambda>c. c_work c \<noteq> ?w) (upd_where (\<lambda>c. c_work c = ?w \<and> held c) (release_status s x) cs) =
      filter (\<lambda>c. c_work c \<noteq> ?w) cs" for s x cs
    by (induction cs) auto
  moreover have "workd d' j = (if j = ?w then map_option (unblock t) (workd d j) else workd d j)" for j
    unfolding workd_def wk by (rule find_upd_key) (simp add: unblock_def)
  ultimately show ?thesis using w(1) ok cls unfolding cl2 by (auto simp: unblock_def)
qed

end
