(* ===== verification/Heads.thy ===== *)
theory Heads
  imports ReviewState Blocked
begin

text \<open>
  The assignment heads of a row (coord_db.py, \<open>_strict_json_mapping\<close> to
  \<open>reconcile_audit_verdict_request_heads\<close>): hand-offs and review requests are heads until a
  \<open>handoff_superseded\<close> event says otherwise, and such an event is believed only if it carries the
  signature of one of the writers allowed to write it; any other is quarantined.
\<close>

section \<open>Comparing parsed values\<close>

fun jnum :: "json \<Rightarrow> rat option" where
  "jnum (JInt i) = Some (of_int i)"
| "jnum (JFloat q) = Some q"
| "jnum (JBool b) = Some (if b then 1 else 0)"
| "jnum _ = None"

text \<open>\<open>a == b\<close> of Python on values that \<open>json.loads\<close> returns.\<close>

fun jeq :: "json \<Rightarrow> json \<Rightarrow> bool" and jeq_list :: "json list \<Rightarrow> json list \<Rightarrow> bool"
  and jeq_items :: "(string \<times> json) list \<Rightarrow> (string \<times> json) list \<Rightarrow> bool" where
  "jeq (JList xs) y = (case y of JList ys \<Rightarrow> jeq_list xs ys | _ \<Rightarrow> False)"
| "jeq (JObj kvs) y = (case y of JObj ls \<Rightarrow> length kvs = length ls \<and> jeq_items kvs ls | _ \<Rightarrow> False)"
| "jeq (JStr s) y = (y = JStr s)"
| "jeq (JRaw s) y = (y = JRaw s)"
| "jeq JNull y = (y = JNull)"
| "jeq (JInt i) y = (jnum y = Some (of_int i))"
| "jeq (JFloat q) y = (jnum y = Some q)"
| "jeq (JBool b) y = (jnum y = Some (if b then 1 else 0))"
| "jeq_list [] ys = (ys = [])"
| "jeq_list (x # xs) ys = (case ys of [] \<Rightarrow> False | y # ys' \<Rightarrow> jeq x y \<and> jeq_list xs ys')"
| "jeq_items [] ls = True"
| "jeq_items ((k, v) # kvs) ls = (case map_of ls k of None \<Rightarrow> False | Some w \<Rightarrow> jeq v w \<and> jeq_items kvs ls)"

definition strict_json_mapping :: "json \<Rightarrow> pyrow option" where
  "strict_json_mapping j = (case j of JObj p \<Rightarrow> Some p | _ \<Rightarrow> None)"

definition strict_json_list :: "json \<Rightarrow> json list option" where
  "strict_json_list j = (case j of JList xs \<Rightarrow> Some xs | _ \<Rightarrow> None)"

definition strict_event_reference :: "json \<Rightarrow> int option" where
  "strict_event_reference j =
     (case strict_positive_event_id j of
        Some i \<Rightarrow> Some i
      | None \<Rightarrow> (case j of
            JStr s \<Rightarrow>
              if s = strip s \<and> s \<noteq> [] \<and> list_all is_digit s
              then let n = int (nat_of_digits s) in if 0 < n then Some n else None
              else None
          | _ \<Rightarrow> None))"

definition int_text :: "int \<Rightarrow> string" where
  "int_text i = (if i < 0 then ''-'' @ digits_of (nat (- i)) else digits_of (nat i))"

definition key_of_pair :: "string \<Rightarrow> int \<Rightarrow> int \<Rightarrow> string" where
  "key_of_pair pre by_id prior_id = pre @ '':'' @ int_text by_id @ '':'' @ int_text prior_id"

definition event_ref :: "int \<Rightarrow> json" where
  "event_ref i = JStr (''event:'' @ int_text i)"

text \<open>The text of an f-string field.\<close>

definition fstr :: "lib \<Rightarrow> json \<Rightarrow> string" where
  "fstr L j = (case j of JStr s \<Rightarrow> s | JRaw s \<Rightarrow> s | _ \<Rightarrow> py_str L j)"

definition id_char :: "char \<Rightarrow> bool" where
  "id_char c \<longleftrightarrow> is_alnum c \<or> c \<in> set ''_.:-''"

text \<open>\<open>[A-Za-z0-9][A-Za-z0-9_.:-]{7,199}\<close>.\<close>

definition safe_operation_id :: "string \<Rightarrow> bool" where
  "safe_operation_id s \<longleftrightarrow> 8 \<le> length s \<and> length s \<le> 200 \<and> is_alnum (hd s) \<and> list_all id_char (tl s)"

definition positive_schema :: "pyrow option \<Rightarrow> bool" where
  "positive_schema p \<longleftrightarrow> (case p of None \<Rightarrow> False | Some kvs \<Rightarrow> strict_positive_event_id (field kvs ''schema_version'') \<noteq> None)"

section \<open>The one-off rollback receipts\<close>

definition g3_tombstones :: "(int \<times> int \<times> string \<times> string \<times> string) list" where
  "g3_tombstones =
     [(64901, 64902, ''g3-live-canary-1783883088361304000'',
       ''9f352175a04059d8e34ca00a344096d1ff0954f074aa51b7d7de2b6c74c1dd06'',
       ''a08f4f6e96edcc71bdbb9a0fb323705cd6da264fd3bbc1c776055219701e5b25''),
      (64989, 64990, ''g3-live-canary-1783886466636480000'',
       ''9f352175a04059d8e34ca00a344096d1ff0954f074aa51b7d7de2b6c74c1dd06'',
       ''baafc69855763f1cf3d55bc955aa081eeca7b8fd5f8c471c12b03a67dd67694e''),
      (65295, 65296, ''g3-live-canary-1783889933278186000'',
       ''9f352175a04059d8e34ca00a344096d1ff0954f074aa51b7d7de2b6c74c1dd06'',
       ''4c8a4940efb57f6010fb24c5e1d53b04608891da3ef865765b4f4affcfe2fe2d''),
      (65297, 65298, ''g3-live-canary-1783889954173065000'',
       ''9f352175a04059d8e34ca00a344096d1ff0954f074aa51b7d7de2b6c74c1dd06'',
       ''9b61ce81001f97405b32e2840b5af2bfa3b7d2d91211beab09622bdb16222343''),
      (65857, 65858, ''g3-live-canary-1783910309154423000'',
       ''9f352175a04059d8e34ca00a344096d1ff0954f074aa51b7d7de2b6c74c1dd06'',
       ''f6e57c1951ae1eddfb470124c4a38a34d5a5b7cba9dd061567effe0b71502fd9''),
      (66011, 66012, ''g3-live-canary-1783914915930075000'',
       ''9f352175a04059d8e34ca00a344096d1ff0954f074aa51b7d7de2b6c74c1dd06'',
       ''9ddf95489c8d1ffd39b0fe684597fd3777b0ab5c702e28a3436e4e7e649fc89e''),
      (66087, 66088, ''g3-live-canary-1783915915683554000'',
       ''9f352175a04059d8e34ca00a344096d1ff0954f074aa51b7d7de2b6c74c1dd06'',
       ''221d49732ddcdba58575a7e5ba108c7ca9d39d3fc5151a92048869c3af073a9c'')]"

definition canary_session :: string where
  "canary_session = ''codex:thread:g3-live-canary''"

definition legacy_g3_tombstone_is_valid ::
  "event_row \<Rightarrow> pyrow option \<Rightarrow> int option \<Rightarrow> int option \<Rightarrow> event_row option \<Rightarrow> bool" where
  "legacy_g3_tombstone_is_valid row payload prior_id by_id succ =
     (case (prior_id, by_id, succ, payload, find (\<lambda>r. Some (fst r) = prior_id \<and> fst (snd r) = e_id row) g3_tombstones) of
        (Some prior, Some b, Some s, Some p, Some (_, _, op, pre_sha, req_sha)) \<Rightarrow>
          prior = b \<and> prior < e_id row \<and>
          otext (e_work row) = ''CANARY-CDX-G3-LIVE-HANDOFF'' \<and> e_trust row = ''system'' \<and>
          otext (e_actor row) = ''codex'' \<and> otext (e_session row) = canary_session \<and>
          otext (e_to row) = ''actor:codex'' \<and>
          otext (e_key row) = key_of_pair ''typed-handoff-supersede'' prior prior \<and>
          set (map fst p) = {''schema_version'', ''supersedes'', ''by_event_id'', ''reason'', ''preimage_slice_sha256''} \<and>
          json_eq_int (field p ''schema_version'') 1 \<and>
          field p ''reason'' = JStr ''G3 controlled live canary exact lifecycle rollback'' \<and>
          field p ''preimage_slice_sha256'' = JStr pre_sha \<and>
          strict_json_list (e_refs row) = Some [event_ref prior] \<and>
          e_kind s = ''handoff'' \<and> otext (e_work s) = otext (e_work row) \<and> e_trust s = ''agent'' \<and>
          otext (e_actor s) = ''codex'' \<and> otext (e_session s) = canary_session \<and>
          otext (e_to s) = ''actor:claude'' \<and>
          otext (e_key s) = ''typed-handoff:codex:'' @ op \<and>
          strict_json_list (e_refs s) = Some [JStr ''artifact://g3-live-canary''] \<and>
          (case strict_json_mapping (e_payload s) of
             None \<Rightarrow> False
           | Some sp \<Rightarrow>
               field sp ''operation_id'' = JStr op \<and>
               json_eq_int (field sp ''schema_version'') 2 \<and>
               field sp ''writer_contract'' = JStr ''existing_work_handoff.v2'' \<and>
               field sp ''task'' = JStr ''G3 controlled existing non-product live writer canary'' \<and>
               field sp ''why'' = JStr ''Prove current-build profile-attested MCP handoff and exact rollback.'' \<and>
               field sp ''acceptance'' = JStr ''One immutable handoff event, exact replay, then lifecycle/head restoration.'' \<and>
               field sp ''constraints'' = JList [JStr ''existing non-product row'', JStr ''exact rollback required''] \<and>
               field sp ''refs'' = JList [JStr ''artifact://g3-live-canary''] \<and>
               field sp ''done_signal_source'' = JStr ''existing_coord_work_row'' \<and>
               jeq (field sp ''preconditions'') (JObj [(''expected_version'', JInt 0),
                 (''expected_assignee'', JStr ''codex''), (''expected_head_event_ids'', JList [])]) \<and>
               is_jobj (field sp ''operation_receipt'') \<and>
               field sp ''operation_request_sha256'' = JStr req_sha \<and>
               jget (field sp ''operation_receipt'') ''request_sha256'' = JStr req_sha \<and>
               jget (field sp ''operation_receipt'') ''superseded_event_ids'' = JList [])
      | _ \<Rightarrow> False)"

definition canary_rollback_request ::
  "string \<Rightarrow> int \<Rightarrow> int \<Rightarrow> string \<Rightarrow> string \<Rightarrow> string \<Rightarrow> string \<Rightarrow> string \<Rightarrow> err + (string \<times> json) list" where
  "canary_rollback_request work_id canary rollback operation_id request_sha preimage_sha payload_sha postimage_sha =
     (let work = strip work_id; op = strip operation_id;
          hashes = map strip [request_sha, preimage_sha, payload_sha, postimage_sha]
      in if work = [] then Inl (ValueErr ''work_id'')
         else if canary \<le> 0 \<or> rollback \<le> 0 \<or> rollback \<le> canary then Inl (ValueErr ''event ids'')
         else if \<not> safe_operation_id op then Inl (ValueErr ''operation_id'')
         else if \<not> list_all is_sha_text hashes then Inl (ValueErr ''sha256'')
         else Inr [(''schema_version'', JInt 1), (''writer_contract'', JStr ''typed_handoff_canary_rollback.v1''),
           (''work_id'', JStr work), (''canary_event_id'', JInt canary), (''rollback_event_id'', JInt rollback),
           (''expected_active_head_event_ids'', JList [JInt canary]), (''operation_id'', JStr op),
           (''operation_request_sha256'', JStr (strip request_sha)), (''preimage_slice_sha256'', JStr (strip preimage_sha)),
           (''canary_event_payload_sha256'', JStr (strip payload_sha)),
           (''canary_work_postimage_sha256'', JStr (strip postimage_sha)), (''actor'', JStr ''codex''),
           (''session_id'', JStr canary_session), (''to_selector'', JStr ''actor:codex''), (''trust'', JStr ''system'')])"

definition rollback_receipt :: "string \<Rightarrow> int \<Rightarrow> int \<Rightarrow> (string \<times> json) list \<Rightarrow> json" where
  "rollback_receipt request_sha prior rollback request =
     JObj [(''schema_version'', JInt 1), (''writer_contract'', JStr ''typed_handoff_canary_rollback_receipt.v1''),
       (''rollback_request_sha256'', JStr request_sha), (''work_id'', field request ''work_id''),
       (''canary_event_id'', JInt prior), (''rollback_event_id'', JInt rollback),
       (''expected_active_head_event_ids'', JList [JInt prior]), (''operation_id'', field request ''operation_id''),
       (''operation_request_sha256'', field request ''operation_request_sha256''),
       (''preimage_slice_sha256'', field request ''preimage_slice_sha256''),
       (''canary_event_payload_sha256'', field request ''canary_event_payload_sha256''),
       (''canary_work_postimage_sha256'', field request ''canary_work_postimage_sha256'')]"

definition rollback_payload_keys :: "string list" where
  "rollback_payload_keys = [''schema_version'', ''writer_contract'', ''supersedes'', ''by_event_id'',
     ''expected_active_head_event_ids'', ''operation_id'', ''operation_request_sha256'', ''preimage_slice_sha256'',
     ''canary_event_payload_sha256'', ''canary_work_postimage_sha256'', ''rollback_request_sha256'', ''rollback_receipt'']"

definition canary_rollback_is_valid ::
  "lib \<Rightarrow> event_row \<Rightarrow> pyrow option \<Rightarrow> int option \<Rightarrow> int option \<Rightarrow> event_row option \<Rightarrow> bool" where
  "canary_rollback_is_valid L row payload prior_id by_id canary =
     (case (payload, canary, prior_id, by_id) of
        (Some p, Some c, Some prior, Some b) \<Rightarrow>
          b = e_id row \<and> prior < b \<and>
          (case strict_json_mapping (e_payload c) of
             None \<Rightarrow> False
           | Some cp \<Rightarrow>
               let receipt = field cp ''operation_receipt''; ps = (\<lambda>k. str_or_empty L (field p k)) in
               is_jobj receipt \<and>
               (case canary_rollback_request (otext (e_work row)) prior (e_id row) (ps ''operation_id'')
                   (ps ''operation_request_sha256'') (ps ''preimage_slice_sha256'') (ps ''canary_event_payload_sha256'')
                   (ps ''canary_work_postimage_sha256'') of
                  Inl _ \<Rightarrow> False
                | Inr request \<Rightarrow>
                    let sha = digest L (JObj request) in
                    set (map fst p) = set rollback_payload_keys \<and>
                    json_eq_int (field p ''schema_version'') 1 \<and>
                    field p ''writer_contract'' = JStr ''typed_handoff_canary_rollback.v1'' \<and>
                    json_eq_int (field p ''supersedes'') prior \<and> json_eq_int (field p ''by_event_id'') (e_id row) \<and>
                    jeq (field p ''expected_active_head_event_ids'') (JList [JInt prior]) \<and>
                    field p ''rollback_request_sha256'' = JStr sha \<and>
                    jeq (field p ''rollback_receipt'') (rollback_receipt sha prior (e_id row) request) \<and>
                    e_kind row = ''handoff_superseded'' \<and> otext (e_actor row) = ''codex'' \<and>
                    otext (e_session row) = canary_session \<and> otext (e_to row) = ''actor:codex'' \<and>
                    e_trust row = ''system'' \<and>
                    otext (e_key row) = ''typed-handoff-canary-rollback:'' @ jtext (field request ''operation_id'') @ '':'' @ sha \<and>
                    strict_json_list (e_refs row) = Some [event_ref prior] \<and>
                    e_kind c = ''handoff'' \<and> otext (e_work c) = jtext (field request ''work_id'') \<and>
                    otext (e_actor c) = ''codex'' \<and> otext (e_session c) = canary_session \<and>
                    otext (e_to c) = ''actor:claude'' \<and> e_trust c = ''agent'' \<and>
                    json_eq_int (field cp ''schema_version'') 2 \<and>
                    field cp ''writer_contract'' = JStr ''existing_work_handoff.v2'' \<and>
                    field cp ''operation_id'' = field request ''operation_id'' \<and>
                    field cp ''operation_request_sha256'' = field request ''operation_request_sha256'' \<and>
                    jget receipt ''request_sha256'' = field request ''operation_request_sha256'' \<and>
                    jget receipt ''work_postimage_sha256'' = field request ''canary_work_postimage_sha256'' \<and>
                    JStr (sha256 L (column_text L (e_payload c))) = field request ''canary_event_payload_sha256''))
      | _ \<Rightarrow> False)"

section \<open>Retired review requests\<close>

definition same_sender :: "event_row \<Rightarrow> event_row \<Rightarrow> bool" where
  "same_sender a b \<longleftrightarrow> otext (e_actor a) = otext (e_actor b) \<and> otext (e_session a) = otext (e_session b)"

definition policy_moot_keys :: "string list" where
  "policy_moot_keys = [''schema_version'', ''writer_contract'', ''work_id'', ''expected_version'',
     ''expected_assignee'', ''expected_intent_state'', ''expected_last_event_id'', ''expected_last_event_at'',
     ''skip_if_events_after'', ''packet_sha256'']"

definition sorted_ids :: "json \<Rightarrow> int list option" where
  "sorted_ids j = (case j of
       JList xs \<Rightarrow>
         let ids = map strict_positive_event_id xs in
         if None \<notin> set ids \<and> map the ids = sort (remdups (map the ids)) then Some (map the ids) else None
     | _ \<Rightarrow> None)"

definition policy_moot_retirement_is_valid ::
  "lib \<Rightarrow> event_row \<Rightarrow> pyrow option \<Rightarrow> int option \<Rightarrow> int option \<Rightarrow> event_row option \<Rightarrow> event_row option
     \<Rightarrow> pyrow option \<Rightarrow> bool" where
  "policy_moot_retirement_is_valid L row payload prior_id by_id prior succ succ_payload =
     (case (payload, prior, succ, succ_payload, prior_id, by_id) of
        (Some p, Some pr, Some s, Some sp, Some i, Some b) \<Rightarrow>
          i < b \<and>
          json_eq_int (field p ''schema_version'') 1 \<and> json_eq_int (field p ''supersedes'') i \<and>
          json_eq_int (field p ''by_event_id'') b \<and>
          (case sorted_ids (field sp ''retired_audit_request_event_ids'') of None \<Rightarrow> False | Some ids \<Rightarrow> i \<in> set ids) \<and>
          e_kind pr = ''audit_request'' \<and> e_kind s = ''board_hygiene_policy_moot_closed'' \<and> e_trust s = ''system'' \<and>
          json_eq_int (field sp ''schema_version'') 1 \<and>
          field sp ''writer_contract'' = JStr ''board_hygiene_policy_moot_close.v1'' \<and>
          field sp ''operation_request_sha256'' = JStr (digest L (JObj (map (\<lambda>k. (k, field sp k)) policy_moot_keys))) \<and>
          field sp ''closed_to_intent_state'' = JStr ''closed'' \<and>
          field sp ''no_claim_mutation'' = JBool True \<and> field sp ''no_rubric_mutation'' = JBool True \<and>
          field sp ''no_artifact_mutation'' = JBool True \<and>
          otext (e_key s) = ''board-hygiene-policy-moot:'' @ fstr L (field sp ''packet_sha256'') @ '':'' @
            fstr L (field sp ''work_id'') \<and>
          otext (e_key row) = key_of_pair ''policy-moot-supersede'' b i \<and>
          same_sender row s \<and> otext (e_to row) = otext (e_to s) \<and> e_trust row = ''system'' \<and>
          strict_json_list (e_refs row) = Some [event_ref i]
      | _ \<Rightarrow> False)"

definition retirement_reasons :: "string list" where
  "retirement_reasons = [''answered_by_legacy_verdict'', ''withdrawn_by_requester_note'', ''terminal_work_state'']"

definition retirement_is_valid ::
  "lib \<Rightarrow> event_row \<Rightarrow> pyrow option \<Rightarrow> int option \<Rightarrow> int option \<Rightarrow> event_row option \<Rightarrow> event_row option
     \<Rightarrow> pyrow option \<Rightarrow> bool" where
  "retirement_is_valid L row payload prior_id by_id prior succ succ_payload =
     (case (payload, prior, succ, succ_payload, prior_id, by_id) of
        (Some p, Some pr, Some s, Some sp, Some i, Some b) \<Rightarrow>
          let op = str_or_empty L (field sp ''operation_id''); man = str_or_empty L (field sp ''manifest_sha256'');
              req = str_or_empty L (field sp ''operation_request_sha256'') in
          i < b \<and>
          json_eq_int (field p ''schema_version'') 1 \<and>
          field p ''writer_contract'' = JStr ''audit_request_retirement_supersession.v1'' \<and>
          json_eq_int (field p ''supersedes'') i \<and> json_eq_int (field p ''by_event_id'') b \<and>
          field p ''operation_id'' = JStr op \<and> field p ''manifest_sha256'' = JStr man \<and>
          field p ''operation_request_sha256'' = JStr req \<and>
          e_kind pr = ''audit_request'' \<and> e_kind s = ''audit_request_retired'' \<and>
          otext (e_work s) = otext (e_work pr) \<and> e_trust s = ''system'' \<and>
          json_eq_int (field sp ''schema_version'') 1 \<and>
          field sp ''writer_contract'' = JStr ''audit_request_zombie_retirement.v1'' \<and>
          json_eq_int (field sp ''request_event_id'') i \<and>
          str_or_empty L (field sp ''reason_class'') \<in> set retirement_reasons \<and>
          is_sha_text man \<and> is_sha_text req \<and>
          otext (e_key s) = ''audit-request-retired:'' @ op @ '':'' @ int_text i \<and>
          otext (e_key row) = key_of_pair ''audit-request-retirement-supersede'' b i \<and>
          same_sender row s \<and> otext (e_to row) = otext (e_to s) \<and> e_trust row = ''system'' \<and>
          strict_json_list (e_refs row) = Some [event_ref i, event_ref b]
      | _ \<Rightarrow> False)"

section \<open>Who may supersede a head\<close>

definition head_kinds :: "string list" where
  "head_kinds = [''handoff'', ''audit_request'']"

definition head_event_kinds :: "string list" where
  "head_event_kinds = [''handoff'', ''audit_request'', ''audit_verdict'', ''handoff_superseded'',
     ''board_hygiene_policy_moot_closed'', ''audit_request_retired'']"

definition head_rows :: "db \<Rightarrow> string \<Rightarrow> event_row list" where
  "head_rows d work_id =
     sort_key e_id (filter (\<lambda>e. e_work e = Some work_id \<and> e_kind e \<in> set head_event_kinds) (d_events d))"

definition is_head :: "event_row \<Rightarrow> bool" where
  "is_head e \<longleftrightarrow> e_kind e \<in> set head_kinds \<and> positive_schema (strict_json_mapping (e_payload e))"

definition row_of :: "event_row list \<Rightarrow> int \<Rightarrow> event_row option" where
  "row_of rows i = find (\<lambda>e. e_id e = i) rows"

definition candidate :: "event_row list \<Rightarrow> int \<Rightarrow> bool" where
  "candidate rows i \<longleftrightarrow> (\<exists>e \<in> set rows. e_id e = i \<and> is_head e)"

definition typed_trusted :: "event_row list \<Rightarrow> event_row \<Rightarrow> pyrow \<Rightarrow> int \<Rightarrow> int \<Rightarrow> event_row \<Rightarrow> bool" where
  "typed_trusted rows row p i b s \<longleftrightarrow>
     json_eq_int (field p ''schema_version'') 1 \<and> candidate rows i \<and> candidate rows b \<and>
     (i < b \<or> legacy_g3_tombstone_is_valid row (Some p) (Some i) (Some b) (Some s)) \<and>
     e_kind s = ''handoff'' \<and> otext (e_key row) = key_of_pair ''typed-handoff-supersede'' b i \<and>
     prefix ''typed-handoff:'' (otext (e_key s)) \<and>
     (case strict_json_mapping (e_payload s) of None \<Rightarrow> False
      | Some sp \<Rightarrow> field sp ''writer_contract'' = JStr ''existing_work_handoff.v2'') \<and>
     same_sender row s"

definition operator_authority_channel :: string where
  "operator_authority_channel = ''authenticated_resident_controller''"

definition operator_contract :: string where
  "operator_contract = ''operator_reassignment.v1''"

definition operator_trusted :: "event_row list \<Rightarrow> event_row \<Rightarrow> pyrow \<Rightarrow> int \<Rightarrow> int \<Rightarrow> event_row \<Rightarrow> bool" where
  "operator_trusted rows row p i b s \<longleftrightarrow>
     json_eq_int (field p ''schema_version'') 1 \<and> candidate rows i \<and> candidate rows b \<and> i < b \<and>
     e_kind s = ''handoff'' \<and>
     (case strict_json_mapping (e_payload s) of None \<Rightarrow> False
      | Some sp \<Rightarrow> json_eq_int (field sp ''schema_version'') 1 \<and>
          field sp ''writer_contract'' = JStr operator_contract \<and>
          field sp ''authority_channel'' = JStr operator_authority_channel) \<and>
     otext (e_actor s) = ''operator'' \<and> otext (e_session s) = [] \<and> e_trust s = ''system'' \<and>
     prefix ''operator-reassignment:'' (otext (e_key s)) \<and>
     otext (e_key row) = key_of_pair ''operator-reassignment-supersede'' b i \<and>
     field p ''writer_contract'' = JStr ''operator_reassignment_supersession.v1'' \<and>
     otext (e_actor row) = ''operator'' \<and> otext (e_session row) = [] \<and> e_trust row = ''system'' \<and>
     otext (e_to row) = otext (e_to s)"

definition legacy_trusted :: "event_row list \<Rightarrow> event_row \<Rightarrow> pyrow \<Rightarrow> int \<Rightarrow> int \<Rightarrow> event_row \<Rightarrow> bool" where
  "legacy_trusted rows row p i b s \<longleftrightarrow>
     json_eq_int (field p ''schema_version'') 1 \<and> candidate rows i \<and> candidate rows b \<and> i < b \<and>
     e_kind s \<in> set head_kinds \<and> positive_schema (strict_json_mapping (e_payload s)) \<and>
     jget (e_payload s) ''writer_contract'' \<noteq> JStr operator_contract \<and>
     same_sender row s \<and> otext (e_to row) = otext (e_to s)"

definition verdict_trusted :: "event_row list \<Rightarrow> event_row \<Rightarrow> pyrow \<Rightarrow> int \<Rightarrow> int \<Rightarrow> event_row \<Rightarrow> bool" where
  "verdict_trusted rows row p i b s \<longleftrightarrow>
     json_eq_int (field p ''schema_version'') 1 \<and> candidate rows i \<and> i < b \<and>
     (case row_of rows i of None \<Rightarrow> False | Some prior \<Rightarrow> e_kind prior = ''audit_request'') \<and>
     e_kind s = ''audit_verdict'' \<and> upper (otext (e_verdict s)) \<in> {''PASS'', ''FLAG'', ''BLOCKED''} \<and>
     prefix ''mcp-audit-verdict:'' (otext (e_key s)) \<and>
     otext (e_key row) = key_of_pair ''audit-verdict-supersede'' b i \<and>
     same_sender row s \<and> otext (e_to row) = otext (e_to s)"

text \<open>The supersession a \<open>handoff_superseded\<close> row proves: which head, by which event.\<close>

definition trusted_link :: "lib \<Rightarrow> event_row list \<Rightarrow> event_row \<Rightarrow> (int \<times> int) option" where
  "trusted_link L rows row =
     (case strict_json_mapping (e_payload row) of
        None \<Rightarrow> None
      | Some p \<Rightarrow>
          (case (strict_event_reference (field p ''supersedes''), strict_event_reference (field p ''by_event_id'')) of
             (Some i, Some b) \<Rightarrow>
               let prior = row_of rows i; succ = row_of rows b;
                   succ_payload = (case succ of None \<Rightarrow> None | Some s \<Rightarrow> strict_json_mapping (e_payload s))
               in if (case succ of None \<Rightarrow> False
                      | Some s \<Rightarrow> typed_trusted rows row p i b s \<or> operator_trusted rows row p i b s \<or>
                          legacy_trusted rows row p i b s \<or> verdict_trusted rows row p i b s) \<or>
                     policy_moot_retirement_is_valid L row (Some p) (Some i) (Some b) prior succ succ_payload \<or>
                     retirement_is_valid L row (Some p) (Some i) (Some b) prior succ succ_payload \<or>
                     canary_rollback_is_valid L row (Some p) (Some i) (Some b) prior
                  then Some (i, b) else None
           | _ \<Rightarrow> None))"

record head_state =
  hs_active :: "int list"
  hs_links :: "(int \<times> int) list"
  hs_quarantined :: "int list"

definition links_of :: "lib \<Rightarrow> event_row list \<Rightarrow> (int \<times> int) list" where
  "links_of L rows = List.map_filter (trusted_link L rows) (filter (\<lambda>e. e_kind e = ''handoff_superseded'') rows)"

text \<open>\<open>superseded_by\<close>: the newest event that supersedes a head.\<close>

definition superseded_by :: "(int \<times> int) list \<Rightarrow> int \<Rightarrow> int option" where
  "superseded_by links i =
     (case map snd (filter (\<lambda>l. fst l = i) links) of [] \<Rightarrow> None | b # bs \<Rightarrow> Some (fold max bs b))"

definition typed_handoff_head_state :: "lib \<Rightarrow> db \<Rightarrow> string \<Rightarrow> head_state" where
  "typed_handoff_head_state L d work_id =
     (let rows = head_rows d work_id; links = links_of L rows in
      \<lparr>hs_active = filter (\<lambda>i. i \<notin> fst ` set links) (map e_id (filter is_head rows)),
       hs_links = links,
       hs_quarantined = map e_id (filter (\<lambda>e. (e_kind e \<in> set head_kinds \<and> \<not> is_head e) \<or>
          (e_kind e = ''handoff_superseded'' \<and> trusted_link L rows e = None)) rows)\<rparr>)"

section \<open>Superseding the active heads\<close>

definition supersession_prefix :: "string \<Rightarrow> string" where
  "supersession_prefix kind =
     (if kind = ''audit_verdict'' then ''audit-verdict-supersede''
      else if kind = ''audit_request'' then ''audit-request-supersede'' else ''policy-moot-supersede'')"

definition supersession_reason :: "string \<Rightarrow> string" where
  "supersession_reason kind =
     (if kind = ''audit_verdict'' then ''audit verdict resolved active audit request''
      else if kind = ''board_hygiene_policy_moot_closed'' then ''typed policy-moot close retired active audit request''
      else ''completion review request replaced prior active head'')"

definition supersession_row :: "event_row \<Rightarrow> string \<Rightarrow> int \<Rightarrow> seconds \<Rightarrow> event_row" where
  "supersession_row s work_id i t =
     blank_event\<lparr>e_ts := t, e_kind := ''handoff_superseded'', e_actor := e_actor s, e_session := e_session s,
       e_to := e_to s, e_work := Some work_id, e_trust := (if e_trust s = [] then ''agent'' else e_trust s),
       e_refs := JList [event_ref i],
       e_payload := JObj [(''by_event_id'', JInt (e_id s)), (''reason'', JStr (supersession_reason (e_kind s))),
         (''schema_version'', JInt 1), (''supersedes'', JInt i)],
       e_key := Some (key_of_pair (supersession_prefix (e_kind s)) (e_id s) i)\<rparr>"

text \<open>\<open>INSERT OR IGNORE\<close> for each head; a key that exists is skipped.\<close>

fun supersede_each :: "event_row \<Rightarrow> string \<Rightarrow> seconds \<Rightarrow> int list \<Rightarrow> db \<Rightarrow> db \<times> int list" where
  "supersede_each s work_id t [] d = (d, [])"
| "supersede_each s work_id t (i # is) d =
     (case insert_event (supersession_row s work_id i t) d of
        Inl _ \<Rightarrow> supersede_each s work_id t is d
      | Inr (d1, _) \<Rightarrow> (let (d2, out) = supersede_each s work_id t is d1 in (d2, i # out)))"

definition supersede_active_heads ::
  "lib \<Rightarrow> string \<Rightarrow> int \<Rightarrow> string list \<Rightarrow> seconds \<Rightarrow> db \<Rightarrow> err + (db \<times> int list)" where
  "supersede_active_heads L work_id by_id prior_kinds t d =
     (case eventd d by_id of
        None \<Rightarrow> Inl (ValueErr ''successor is not bound to the row'')
      | Some s \<Rightarrow>
          if otext (e_work s) \<noteq> work_id then Inl (ValueErr ''successor is not bound to the row'')
          else if e_kind s \<notin> {''audit_request'', ''audit_verdict'', ''board_hygiene_policy_moot_closed''}
            then Inl (ValueErr ''successor kind'')
          else
            let active = filter (\<lambda>i. i < by_id) (hs_active (typed_handoff_head_state L d work_id));
                prior = filter (\<lambda>i. case eventd d i of None \<Rightarrow> False | Some e \<Rightarrow> e_kind e \<in> set prior_kinds) active;
                (d', out) = supersede_each s work_id t prior d
            in Inr (d', sort out))"

definition reconcile_audit_verdict_request_heads ::
  "lib \<Rightarrow> string \<Rightarrow> int \<Rightarrow> seconds \<Rightarrow> db \<Rightarrow> err + (db \<times> int list \<times> head_state)" where
  "reconcile_audit_verdict_request_heads L work_id verdict_id t d =
     bindE (supersede_active_heads L (strip work_id) verdict_id [''audit_request''] t d)
       (\<lambda>(d', out). Inr (d', out, typed_handoff_head_state L d' (strip work_id)))"

section \<open>Facts about heads\<close>

definition active_heads :: "lib \<Rightarrow> event_row list \<Rightarrow> int list" where
  "active_heads L rows = filter (\<lambda>i. i \<notin> fst ` set (links_of L rows)) (map e_id (filter is_head rows))"

lemma head_state_active: "hs_active (typed_handoff_head_state L d w) = active_heads L (head_rows d w)"
  by (simp add: typed_handoff_head_state_def active_heads_def Let_def)

lemma sort_filter_ids:
  "sorted_wrt (<) (map e_id es) \<Longrightarrow> sort_key e_id (filter p es) = filter p es"
  by (intro sort_key_id_if_sorted sorted_filter) (simp add: strict_sorted_iff)

lemma head_rows_eq:
  "events_ok d \<Longrightarrow> head_rows d w = filter (\<lambda>e. e_work e = Some w \<and> e_kind e \<in> set head_event_kinds) (d_events d)"
  by (simp add: head_rows_def sort_filter_ids events_ok_def event_log_ok_def)

lemma row_of_SomeD: "row_of rows i = Some e \<Longrightarrow> e \<in> set rows \<and> e_id e = i"
  by (auto simp: row_of_def dest: find_SomeD)

lemma row_of_eq: "distinct (map e_id rows) \<Longrightarrow> e \<in> set rows \<Longrightarrow> row_of rows (e_id e) = Some e"
  by (simp add: row_of_def find_distinct)

lemma candidate_row: "candidate rows i \<Longrightarrow> distinct (map e_id rows) \<Longrightarrow> \<exists>e. row_of rows i = Some e \<and> is_head e"
  by (auto simp: candidate_def row_of_eq)

lemma typed_mono:
  "(\<And>j. candidate rows j \<Longrightarrow> candidate rows' j) \<Longrightarrow> typed_trusted rows row p i b s \<Longrightarrow> typed_trusted rows' row p i b s"
  unfolding typed_trusted_def by blast

lemma operator_mono:
  "(\<And>j. candidate rows j \<Longrightarrow> candidate rows' j) \<Longrightarrow> operator_trusted rows row p i b s \<Longrightarrow> operator_trusted rows' row p i b s"
  unfolding operator_trusted_def by blast

lemma legacy_mono:
  "(\<And>j. candidate rows j \<Longrightarrow> candidate rows' j) \<Longrightarrow> legacy_trusted rows row p i b s \<Longrightarrow> legacy_trusted rows' row p i b s"
  unfolding legacy_trusted_def by blast

lemma verdict_mono:
  assumes "\<And>j. candidate rows j \<Longrightarrow> candidate rows' j" "\<And>e. row_of rows i = Some e \<Longrightarrow> row_of rows' i = Some e"
    and "verdict_trusted rows row p i b s"
  shows "verdict_trusted rows' row p i b s"
  using assms(3) assms(1) [of i] assms(2) unfolding verdict_trusted_def by (cases "row_of rows i") simp_all

lemma trusted_link_mono:
  assumes up: "\<And>i e. row_of rows i = Some e \<Longrightarrow> row_of rows' i = Some e"
    and sub: "\<And>i. candidate rows i \<Longrightarrow> candidate rows' i"
    and link: "trusted_link L rows row = Some l"
  shows "trusted_link L rows' row = Some l"
proof -
  obtain p i b where p: "strict_json_mapping (e_payload row) = Some p" "strict_event_reference (field p ''supersedes'') = Some i"
    "strict_event_reference (field p ''by_event_id'') = Some b" "l = (i, b)"
    using link by (auto simp: trusted_link_def Let_def split: option.splits if_split_asm)
  let ?sp = "\<lambda>succ. case succ of None \<Rightarrow> None | Some s \<Rightarrow> strict_json_mapping (e_payload s)"
  consider s where "row_of rows b = Some s" "typed_trusted rows row p i b s \<or> operator_trusted rows row p i b s \<or>
       legacy_trusted rows row p i b s \<or> verdict_trusted rows row p i b s"
    | "policy_moot_retirement_is_valid L row (Some p) (Some i) (Some b) (row_of rows i) (row_of rows b) (?sp (row_of rows b))"
    | "retirement_is_valid L row (Some p) (Some i) (Some b) (row_of rows i) (row_of rows b) (?sp (row_of rows b))"
    | "canary_rollback_is_valid L row (Some p) (Some i) (Some b) (row_of rows i)"
    using link p by (auto simp: trusted_link_def Let_def split: option.splits if_split_asm)
  then show ?thesis
  proof cases
    case 1
    have v: "row_of rows i = Some e \<Longrightarrow> row_of rows' i = Some e" for e by (rule up)
    have "typed_trusted rows' row p i b s \<or> operator_trusted rows' row p i b s \<or>
       legacy_trusted rows' row p i b s \<or> verdict_trusted rows' row p i b s"
      using 1(2) typed_mono [of rows rows', OF sub] operator_mono [of rows rows', OF sub] legacy_mono [of rows rows', OF sub]
        verdict_mono [of rows rows', OF sub v] by blast
    with p up [OF 1(1)] show ?thesis by (simp add: trusted_link_def Let_def)
  next
    case 2
    then obtain pr s where "row_of rows i = Some pr" "row_of rows b = Some s"
      by (auto simp: policy_moot_retirement_is_valid_def split: option.splits)
    with 2 p up [of i pr] up [of b s] show ?thesis by (simp add: trusted_link_def Let_def)
  next
    case 3
    then obtain pr s where "row_of rows i = Some pr" "row_of rows b = Some s"
      by (auto simp: retirement_is_valid_def split: option.splits)
    with 3 p up [of i pr] up [of b s] show ?thesis by (simp add: trusted_link_def Let_def)
  next
    case 4
    then obtain pr where "row_of rows i = Some pr"
      by (auto simp: canary_rollback_is_valid_def split: option.splits)
    with 4 p up [of i pr] show ?thesis by (simp add: trusted_link_def Let_def)
  qed
qed

lemma legacy_g3_order:
  "legacy_g3_tombstone_is_valid row payload (Some i) (Some b) (Some s) \<Longrightarrow> i = b \<and> i < e_id row"
  by (auto simp: legacy_g3_tombstone_is_valid_def split: option.splits prod.splits)

lemma trusted_link_order:
  assumes "trusted_link L rows row = Some (i, b)"
  shows "i < e_id row \<and> (i = b \<or> i < b \<and> b = e_id row) \<or>
    i < b \<and> (\<exists>s \<in> set rows. e_id s = b \<and> e_kind s \<noteq> ''handoff_superseded'')"
proof -
  obtain p where p: "strict_json_mapping (e_payload row) = Some p"
    using assms by (auto simp: trusted_link_def split: option.splits)
  let ?sp = "\<lambda>succ. case succ of None \<Rightarrow> None | Some s \<Rightarrow> strict_json_mapping (e_payload s)"
  consider s where "row_of rows b = Some s" "typed_trusted rows row p i b s \<or> operator_trusted rows row p i b s \<or>
       legacy_trusted rows row p i b s \<or> verdict_trusted rows row p i b s"
    | "policy_moot_retirement_is_valid L row (Some p) (Some i) (Some b) (row_of rows i) (row_of rows b) (?sp (row_of rows b))"
    | "retirement_is_valid L row (Some p) (Some i) (Some b) (row_of rows i) (row_of rows b) (?sp (row_of rows b))"
    | "canary_rollback_is_valid L row (Some p) (Some i) (Some b) (row_of rows i)"
    using assms p by (auto simp: trusted_link_def Let_def split: option.splits if_split_asm)
  then show ?thesis
  proof cases
    case 1
    have s: "s \<in> set rows" "e_id s = b" using row_of_SomeD [OF 1(1)] by auto
    have "i < b \<or> i = b \<and> i < e_id row" "e_kind s \<noteq> ''handoff_superseded''"
      using 1(2) legacy_g3_order
      by (auto simp: typed_trusted_def operator_trusted_def legacy_trusted_def verdict_trusted_def head_kinds_def)
    with s show ?thesis by blast
  next
    case 2
    then show ?thesis using row_of_SomeD [of rows b]
      by (auto simp: policy_moot_retirement_is_valid_def split: option.splits)
  next
    case 3
    then show ?thesis using row_of_SomeD [of rows b]
      by (auto simp: retirement_is_valid_def Let_def split: option.splits)
  next
    case 4
    then show ?thesis by (auto simp: canary_rollback_is_valid_def split: option.splits)
  qed
qed

text \<open>A head followed only by supersessions can only be superseded by a later row.\<close>

lemma newest_head_stands:
  assumes "\<forall>e \<in> set rows. n < e_id e \<longrightarrow> e_kind e = ''handoff_superseded''" "trusted_link L rows row = Some (n, b)"
  shows "n < e_id row"
  using trusted_link_order [OF assms(2)] assms(1) by auto

lemma row_of_append: "row_of rows i = Some e \<Longrightarrow> row_of (rows @ new) i = Some e"
  by (simp add: row_of_def find_append)

lemma candidate_append: "candidate rows i \<Longrightarrow> candidate (rows @ new) i"
  by (auto simp: candidate_def)

lemma set_links_of:
  "set (links_of L rows) = {l. \<exists>e \<in> set rows. e_kind e = ''handoff_superseded'' \<and> trusted_link L rows e = Some l}"
  by (auto simp: links_of_def map_filter_def) force

lemma links_append: "l \<in> set (links_of L rows) \<Longrightarrow> l \<in> set (links_of L (rows @ new))"
proof -
  assume "l \<in> set (links_of L rows)"
  then obtain e where e: "e \<in> set rows" "e_kind e = ''handoff_superseded''" "trusted_link L rows e = Some l"
    by (auto simp: set_links_of)
  have "trusted_link L (rows @ new) e = Some l"
    by (rule trusted_link_mono [OF _ _ e(3)]) (auto intro: row_of_append candidate_append)
  with e(1,2) show ?thesis by (auto simp: set_links_of)
qed

lemma superseded_not_head: "e_kind e = ''handoff_superseded'' \<Longrightarrow> \<not> is_head e"
  by (simp add: is_head_def head_kinds_def)

lemma heads_settle:
  assumes sorted: "sorted_wrt (<) (map e_id (rows @ h # sups))" and head: "is_head h"
    and sups: "\<And>s. s \<in> set sups \<Longrightarrow> e_kind s = ''handoff_superseded'' \<and>
      (\<exists>i \<in> set (active_heads L rows). trusted_link L (rows @ h # sups) s = Some (i, e_id h))"
    and all: "\<And>i. i \<in> set (active_heads L rows) \<Longrightarrow>
      \<exists>s \<in> set sups. trusted_link L (rows @ h # sups) s = Some (i, e_id h)"
  shows "active_heads L (rows @ h # sups) = [e_id h]"
proof -
  let ?rows = "rows @ h # sups" and ?n = "e_id h"
  have below: "e_id e < ?n" if "e \<in> set rows" for e using sorted that by (auto simp: sorted_wrt_append)
  have ids: "map e_id (filter is_head ?rows) = map e_id (filter is_head rows) @ [?n]"
    using head superseded_not_head sups by (auto simp: filter_empty_conv)
  have old: "i \<in> fst ` set (links_of L ?rows)" if "i \<in> set (map e_id (filter is_head rows))" for i
  proof (cases "i \<in> fst ` set (links_of L rows)")
    case True
    then show ?thesis using links_append [of _ L rows "h # sups"] by auto
  next
    case False
    then have "i \<in> set (active_heads L rows)" using that by (auto simp: active_heads_def)
    then obtain s where "s \<in> set sups" "trusted_link L ?rows s = Some (i, ?n)" using all by blast
    then have "(i, ?n) \<in> set (links_of L ?rows)" using sups by (auto simp: set_links_of)
    then show ?thesis by force
  qed
  have new: "?n \<notin> fst ` set (links_of L ?rows)"
  proof
    assume "?n \<in> fst ` set (links_of L ?rows)"
    then have "\<exists>row \<in> set ?rows. \<exists>b. trusted_link L ?rows row = Some (?n, b)" unfolding set_links_of by force
    then obtain row b where r: "row \<in> set ?rows" "trusted_link L ?rows row = Some (?n, b)" by blast
    have "\<forall>e \<in> set ?rows. ?n < e_id e \<longrightarrow> e_kind e = ''handoff_superseded''" using below sups by fastforce
    from newest_head_stands [OF this r(2)] have "row \<in> set sups" using r(1) below [of row] by auto
    then obtain i where "i \<in> set (active_heads L rows)" "trusted_link L ?rows row = Some (i, ?n)" using sups by blast
    then obtain x where "x \<in> set rows" "e_id x = ?n" using r(2) by (auto simp: active_heads_def)
    with below [of x] show False by simp
  qed
  have "filter (\<lambda>i. i \<notin> fst ` set (links_of L ?rows)) (map e_id (filter is_head rows)) = []"
    using old by (simp add: filter_empty_conv)
  with ids new show ?thesis unfolding active_heads_def by simp
qed

end
