(* ===== verification/Events.thy ===== *)
theory Events
  imports Heads
begin

text \<open>
  Writing events (coord_db.py): the public writer \<open>post_event\<close> with its reserved namespaces and the
  consumption of requests, \<open>supersede_prior_handoffs\<close>, the notice of a claim conflict and
  \<open>post_audit_verdict\<close>, which decides a review. The columns \<open>run_id\<close>, \<open>thread_id\<close> and \<open>severity\<close>
  are not kept; a payload that is not JSON is \<open>JRaw\<close>.
\<close>

section \<open>Payloads that repeat their row\<close>

definition acceptance_from_work_row :: "lib \<Rightarrow> pyrow \<Rightarrow> json" where
  "acceptance_from_work_row L work =
     (let raw = field work ''acceptance_json''; s = jtext raw in
      case loads L (if s = [] then ''null'' else s) of
        None \<Rightarrow> raw
      | Some (JObj kvs) \<Rightarrow> if set (map fst kvs) = {''acceptance''} then field kvs ''acceptance'' else JObj kvs
      | Some j \<Rightarrow> j)"

fun set_key :: "string \<Rightarrow> json \<Rightarrow> pyrow \<Rightarrow> pyrow" where
  "set_key k v [] = [(k, v)]"
| "set_key k v (kv # kvs) = (if fst kv = k then (k, v) # kvs else kv # set_key k v kvs)"

definition drop_key :: "string \<Rightarrow> pyrow \<Rightarrow> pyrow" where
  "drop_key k kvs = filter (\<lambda>kv. fst kv \<noteq> k) kvs"

fun compact_keys :: "(string \<times> string \<times> json) list \<Rightarrow> pyrow \<times> pyrow \<Rightarrow> pyrow \<times> pyrow" where
  "compact_keys [] st = st"
| "compact_keys ((k, row_field, v) # ks) (out, same) =
     compact_keys ks
       (if has_key out k \<and> jeq (field out k) v then (drop_key k out, set_key k (JStr row_field) same) else (out, same))"

definition compact_event_payload :: "lib \<Rightarrow> pyrow \<Rightarrow> pyrow option \<Rightarrow> err + pyrow" where
  "compact_event_payload L payload work =
     (case work of
        None \<Rightarrow> Inr payload
      | Some w \<Rightarrow>
          (let prior = field payload ''same_as_row'' in
           if truthy prior \<and> \<not> is_jobj prior then Inl (ValueErr ''same_as_row is not an object'')
           else let (out, same) = compact_keys
                  [(''task'', ''title'', field w ''title''), (''why'', ''note'', field w ''note''),
                   (''acceptance'', ''acceptance_json'', acceptance_from_work_row L w)]
                  (payload, case prior of JObj s \<Rightarrow> s | _ \<Rightarrow> [])
                in Inr (if same = [] then out else set_key ''same_as_row'' (JObj same) out)))"

definition expand_event_payload :: "lib \<Rightarrow> pyrow \<Rightarrow> pyrow option \<Rightarrow> pyrow" where
  "expand_event_payload L payload work =
     (case (field payload ''same_as_row'', work) of
        (JObj same, Some w) \<Rightarrow>
          fold (\<lambda>kv out. if has_key out (fst kv) then out
                 else if snd kv = JStr ''title'' then set_key (fst kv) (field w ''title'') out
                 else if snd kv = JStr ''note'' then set_key (fst kv) (field w ''note'') out
                 else if snd kv = JStr ''acceptance_json'' then set_key (fst kv) (acceptance_from_work_row L w) out
                 else out) same payload
      | _ \<Rightarrow> payload)"

section \<open>The public writer\<close>

record event_args =
  pe_kind :: string
  pe_actor :: "string option"
  pe_session :: "string option"
  pe_to :: "string option"
  pe_work :: "string option"
  pe_verdict :: "string option"
  pe_trust :: string
  pe_title :: "string option"
  pe_body :: "string option"
  pe_refs :: json
  pe_payload :: json
  pe_key :: "string option"

definition event_body_cap :: nat where
  "event_body_cap = 2048"

definition capped :: "string option \<Rightarrow> string option" where
  "capped b = map_option (take event_body_cap) b"

definition reserved_key_prefixes :: "string list" where
  "reserved_key_prefixes = [''flag-repair-audit-request:'', ''typed-handoff-canary-rollback:'', ''operator-ok:'',
     ''operator-reassignment:'']"

definition public_trust :: "event_args \<Rightarrow> string" where
  "public_trust a = (if pe_actor a = Some ''operator'' \<and> pe_trust a = ''operator'' then ''external'' else pe_trust a)"

definition public_event_checks :: "event_args \<Rightarrow> err + unit" where
  "public_event_checks a =
     (if list_ex (\<lambda>p. prefix p (otext (pe_key a))) reserved_key_prefixes then Inl (ValueErr ''reserved key namespace'')
      else if lower (strip (pe_kind a)) = ''operator_ok'' then Inl (ValueErr ''operator_ok'')
      else if public_trust a \<notin> {''agent'', ''external''} then Inl (ValueErr ''trust'')
      else Inr ())"

definition request_kind :: "event_args \<Rightarrow> bool" where
  "request_kind a \<longleftrightarrow> lower (strip (pe_kind a)) \<in> set head_kinds"

definition request_work :: "event_args \<Rightarrow> db \<Rightarrow> work_row option" where
  "request_work a d = (if request_kind a \<and> otext (pe_work a) \<noteq> [] then workd d (otext (pe_work a)) else None)"

text \<open>Hand-offs and review requests get a deadline and are compacted against their row.\<close>

definition request_payload :: "lib \<Rightarrow> event_args \<Rightarrow> db \<Rightarrow> err + json" where
  "request_payload L a d =
     (if \<not> request_kind a then Inr (pe_payload a)
      else case (case pe_payload a of JRaw _ \<Rightarrow> JObj [] | j \<Rightarrow> j) of
          JObj p \<Rightarrow>
            (let sla = (if lower (strip (pe_kind a)) = ''audit_request'' then 1800 else 3600);
                 p' = (if has_key p ''sla_s'' then p else p @ [(''sla_s'', JInt sla)])
             in bindE (compact_event_payload L p' (map_option row_dict (request_work a d))) (\<lambda>out. Inr (JObj out)))
        | _ \<Rightarrow> Inr (pe_payload a))"

definition audit_request_gate :: "lib \<Rightarrow> string list \<Rightarrow> event_args \<Rightarrow> db \<Rightarrow> err + unit" where
  "audit_request_gate L lanes a d =
     (if lower (strip (pe_kind a)) \<noteq> ''audit_request'' then Inr ()
      else if clean (pe_work a) = [] then Inl (ValueErr ''audit_request requires a work_id'')
      else case request_work a d of
          None \<Rightarrow> Inl (UnknownWork (otext (pe_work a)))
        | Some w \<Rightarrow>
            bindE (tier_down_authorized L lanes d (otext (pe_work a)) (row_dict w)) (\<lambda>ok.
              if effective_review_tier L (row_dict w) [] ok \<noteq> ''T0'' then Inl (ReviewPolicy ''audit_request is T0 only'')
              else Inr ()))"

definition event_of_args :: "event_args \<Rightarrow> json \<Rightarrow> seconds \<Rightarrow> event_row" where
  "event_of_args a payload t =
     blank_event\<lparr>e_ts := t, e_kind := pe_kind a, e_actor := pe_actor a, e_session := pe_session a, e_to := pe_to a,
       e_work := pe_work a, e_verdict := pe_verdict a, e_trust := public_trust a, e_title := pe_title a,
       e_body := capped (pe_body a), e_refs := pe_refs a, e_payload := payload, e_key := pe_key a\<rparr>"

definition consume_requests :: "string \<Rightarrow> string \<Rightarrow> int \<Rightarrow> seconds \<Rightarrow> db \<Rightarrow> db" where
  "consume_requests lane work event t d =
     d\<lparr>d_consumption := upd_where
        (\<lambda>q. q_lane q = lane \<and> q_work q = work \<and> q_at q = None \<and> q_request q < event)
        (\<lambda>q. q\<lparr>q_event := Some event, q_at := Some t\<rparr>) (d_consumption d)\<rparr>"

definition open_request :: "string \<Rightarrow> string \<Rightarrow> int \<Rightarrow> db \<Rightarrow> db" where
  "open_request lane work event d =
     (if list_ex (\<lambda>q. q_lane q = lane \<and> q_work q = work \<and> q_request q = event) (d_consumption d) then d
      else d\<lparr>d_consumption := d_consumption d @
        [\<lparr>q_lane = lane, q_work = work, q_request = event, q_event = None, q_at = None\<rparr>]\<rparr>)"

definition track_requests :: "string list \<Rightarrow> event_args \<Rightarrow> int \<Rightarrow> seconds \<Rightarrow> db \<Rightarrow> db" where
  "track_requests lanes a i t d =
     (let actor = norm (pe_actor a); work = clean (pe_work a); selector = norm (pe_to a);
          d1 = (if actor \<in> set lanes \<and> work \<noteq> [] then consume_requests actor work i t d else d);
          recipient = drop 6 selector
      in if request_kind a \<and> selector \<in> set (map (\<lambda>l. ''actor:'' @ l) lanes) \<and> work \<noteq> [] \<and> actor \<noteq> recipient
         then open_request recipient work i d1 else d1)"

text \<open>\<open>Inr (d, None)\<close>: the key is taken and nothing is written.\<close>

definition post_event :: "lib \<Rightarrow> string list \<Rightarrow> event_args \<Rightarrow> seconds \<Rightarrow> db \<Rightarrow> err + (db \<times> int option)" where
  "post_event L lanes a t d =
     bindE (public_event_checks a) (\<lambda>_.
     bindE (request_payload L a d) (\<lambda>payload.
     bindE (audit_request_gate L lanes a d) (\<lambda>_.
       case insert_event (event_of_args a payload t) d of
         Inl _ \<Rightarrow> Inr (d, None)
       | Inr (d1, i) \<Rightarrow>
           let d2 = track_requests lanes a i t d1 in
           if lower (strip (pe_kind a)) = ''audit_request'' \<and> clean (pe_work a) \<noteq> []
           then bindE (supersede_active_heads L (clean (pe_work a)) i head_kinds t d2) (\<lambda>(d3, _). Inr (d3, Some i))
           else Inr (d2, Some i))))"

section \<open>Superseding by name, conflicts\<close>

definition blank_args :: "string \<Rightarrow> event_args" where
  "blank_args kind = \<lparr>pe_kind = kind, pe_actor = None, pe_session = None, pe_to = None, pe_work = None,
     pe_verdict = None, pe_trust = ''agent'', pe_title = None, pe_body = None, pe_refs = JList [],
     pe_payload = JObj [], pe_key = None\<rparr>"

definition named_supersessions :: "lib \<Rightarrow> db \<Rightarrow> string list" where
  "named_supersessions L d =
     filter (\<lambda>s. s \<noteq> []) (map (\<lambda>e. strip (str_or_empty L (jget (e_payload e) ''supersedes'')))
       (filter (\<lambda>e. e_kind e = ''handoff_superseded'') (d_events d)))"

definition legacy_supersession_args ::
  "string option \<Rightarrow> string option \<Rightarrow> string option \<Rightarrow> string \<Rightarrow> json \<Rightarrow> string \<Rightarrow> event_args" where
  "legacy_supersession_args actor session owner work_id new_event prior =
     (blank_args ''handoff_superseded'')\<lparr>pe_actor := actor, pe_session := session,
       pe_to := (case owner of None \<Rightarrow> None | Some l \<Rightarrow> if l = [] then None else Some (''actor:'' @ l)),
       pe_work := Some work_id, pe_refs := JList [JStr (''event:'' @ prior)],
       pe_payload := JObj [(''supersedes'', JStr prior), (''by_event_id'', new_event), (''schema_version'', JInt 1)]\<rparr>"

fun post_all :: "lib \<Rightarrow> string list \<Rightarrow> event_args list \<Rightarrow> seconds \<Rightarrow> db \<Rightarrow> err + (db \<times> int option list)" where
  "post_all L lanes [] t d = Inr (d, [])"
| "post_all L lanes (a # as) t d =
     bindE (post_event L lanes a t d) (\<lambda>(d1, i). bindE (post_all L lanes as t d1) (\<lambda>(d2, is). Inr (d2, i # is)))"

definition supersede_prior_handoffs ::
  "lib \<Rightarrow> string list \<Rightarrow> string \<Rightarrow> json \<Rightarrow> string option \<Rightarrow> string option \<Rightarrow> string option \<Rightarrow> seconds \<Rightarrow> db
     \<Rightarrow> err + (db \<times> string list)" where
  "supersede_prior_handoffs L lanes work_id new_event actor session owner t d =
     (let rows = sort_key e_id (filter (\<lambda>e. e_kind e \<in> set head_kinds \<and> e_work e = Some work_id) (d_events d));
          already = named_supersessions L d;
          priors = filter (\<lambda>p. p \<noteq> fstr L new_event \<and> p \<notin> set already)
            (map (\<lambda>e. int_text (e_id e)) (filter (\<lambda>e. jget (e_payload e) ''schema_version'' \<noteq> JNull) rows))
      in bindE (post_all L lanes (map (legacy_supersession_args actor session owner work_id new_event) priors) t d)
           (\<lambda>(d', _). Inr (d', priors)))"

record conflict_holder =
  ch_claim :: string
  ch_session :: string
  ch_status :: string
  ch_step :: "string option"
  ch_actor :: "string option"

definition held_claim_for_conflict :: "string \<Rightarrow> string option \<Rightarrow> seconds \<Rightarrow> seconds \<Rightarrow> db \<Rightarrow> db \<times> conflict_holder option" where
  "held_claim_for_conflict work_id requester t0 t d0 =
     (let d = fst (release_expired_claims t0 (Some work_id) d0);
          other = (\<lambda>c. case requester of None \<Rightarrow> True | Some r \<Rightarrow> r = [] \<or> c_session c \<noteq> r)
      in (d, map_option (\<lambda>c. \<lparr>ch_claim = c_id c, ch_session = c_session c, ch_status = c_status c, ch_step = c_step c,
               ch_actor = map_option s_actor (sess d (c_session c))\<rparr>)
             (select_max c_acquired (\<lambda>c. c_work c = work_id \<and> other c \<and> held c \<and> t < c_expires c) (d_claims d))))"

definition conflict_args ::
  "string \<Rightarrow> string option \<Rightarrow> string \<Rightarrow> string option \<Rightarrow> string \<Rightarrow> conflict_holder option \<Rightarrow> event_args list" where
  "conflict_args work_id requester session step verb holder =
     (let who = (if otext requester = [] then ''agent'' else otext requester);
          part = (\<lambda>f. case holder of None \<Rightarrow> JNull | Some h \<Rightarrow> f h);
          holder_actor = otext (case holder of None \<Rightarrow> None | Some h \<Rightarrow> ch_actor h);
          holder_session = otext (map_option ch_session holder);
          or_unknown = (\<lambda>s. if s = [] then ''unknown'' else s);
          selectors = (''actor:'' @ who) #
            (if holder_actor \<noteq> [] \<and> holder_actor \<noteq> who then [''actor:'' @ holder_actor] else []);
          payload = JObj [(''schema_version'', JInt 1), (''reason'', JStr ''held_by_other''), (''verb'', JStr verb),
            (''work_id'', JStr work_id), (''requester_actor'', JStr who), (''requester_session_id'', JStr session),
            (''requester_step'', jopt step), (''holder_claim_id'', part (\<lambda>h. JStr (ch_claim h))),
            (''holder_actor'', part (\<lambda>h. jopt (ch_actor h))), (''holder_session_id'', part (\<lambda>h. JStr (ch_session h))),
            (''holder_status'', part (\<lambda>h. JStr (ch_status h))), (''holder_step'', part (\<lambda>h. jopt (ch_step h)))]
      in map (\<lambda>s. (blank_args ''claim_conflict'')\<lparr>pe_actor := Some who, pe_session := Some session, pe_to := Some s,
           pe_work := Some work_id, pe_title := Some (''Claim conflict: '' @ work_id),
           pe_body := Some (who @ '':'' @ session @ '' could not '' @ verb @ '' '' @ work_id @ ''; held by '' @
             or_unknown holder_actor @ '':'' @ or_unknown holder_session),
           pe_payload := payload\<rparr>) selectors)"

definition post_claim_conflict ::
  "lib \<Rightarrow> string list \<Rightarrow> string \<Rightarrow> string option \<Rightarrow> string \<Rightarrow> string option \<Rightarrow> string \<Rightarrow> conflict_holder option
     \<Rightarrow> seconds \<Rightarrow> seconds \<Rightarrow> db \<Rightarrow> err + (db \<times> int option list)" where
  "post_claim_conflict L lanes work_id requester session step verb holder t0 t d =
     (let (d1, h) = (case holder of Some h \<Rightarrow> (d, Some h)
            | None \<Rightarrow> held_claim_for_conflict work_id (Some session) t0 t d)
      in post_all L lanes (conflict_args work_id requester session step verb h) t d1)"

section \<open>Deciding a review\<close>

definition audit_verdict_evidence_refs :: "json \<Rightarrow> err + string list" where
  "audit_verdict_evidence_refs refs =
     (case refs of
        JList xs \<Rightarrow>
          (let texts = filter (\<lambda>s. s \<noteq> []) (map (\<lambda>x. case x of JStr s \<Rightarrow> strip s | _ \<Rightarrow> []) xs) in
           if texts = [] then Inl (ValueErr ''evidence ref'') else Inr texts)
      | _ \<Rightarrow> Inl (ValueErr ''refs_json''))"

record verdict_args =
  va_work :: string
  va_verdict :: string
  va_actor :: "string option"
  va_session :: "string option"
  va_to :: "string option"
  va_trust :: string
  va_title :: "string option"
  va_body :: "string option"
  va_refs :: json
  va_payload :: json
  va_operation :: string
  va_sha :: string

definition verdict_words :: "string list" where
  "verdict_words = [''PASS'', ''FLAG'', ''BLOCKED'']"

definition verdict_key :: "verdict_args \<Rightarrow> string" where
  "verdict_key a = ''mcp-audit-verdict:'' @ (case va_actor a of None \<Rightarrow> ''None'' | Some s \<Rightarrow> s) @ '':'' @ strip (va_operation a)"

definition verdict_checks :: "verdict_args \<Rightarrow> err + string list" where
  "verdict_checks a =
     (if upper (strip (va_verdict a)) \<notin> set verdict_words then Inl (ValueErr ''verdict'')
      else if strip (va_work a) = [] then Inl (ValueErr ''work_id'')
      else if \<not> safe_operation_id (strip (va_operation a)) then Inl (ValueErr ''operation_id'')
      else if \<not> is_sha_text (lower (strip (va_sha a))) then Inl (ValueErr ''request_sha256'')
      else audit_verdict_evidence_refs (va_refs a))"

text \<open>A PASS that answers a repair request must bring evidence the negative verdict did not have.\<close>

definition repair_pass_gate :: "db \<Rightarrow> string \<Rightarrow> review_state \<Rightarrow> string list \<Rightarrow> err + unit" where
  "repair_pass_gate d work_id rs evidence =
     (if \<not> (rs_flag_cycle rs \<and> rs_reopened rs) then Inr ()
      else case rs_request rs of
          None \<Rightarrow> Inl (ValueErr ''latest_audit_request_event_id'')
        | Some request \<Rightarrow>
            (let payload = (case find (\<lambda>e. e_id e = request \<and> e_work e = Some work_id \<and> e_kind e = ''audit_request'') (d_events d) of
                   None \<Rightarrow> JObj [] | Some e \<Rightarrow> e_payload e)
             in case strict_positive_event_id (jget payload ''negative_verdict_event_id'') of
                  None \<Rightarrow> Inl (ReviewPolicy ''flag_repair PASS needs a negative verdict'')
                | Some n \<Rightarrow>
                    (case find (\<lambda>e. e_id e = n \<and> e_work e = Some work_id \<and> e_kind e = ''audit_verdict'') (d_events d) of
                       None \<Rightarrow> Inl (ReviewPolicy ''negative verdict binding'')
                     | Some e \<Rightarrow>
                         if upper (strip (otext (e_verdict e))) \<notin> set flag_repair_negative_verdicts
                         then Inl (ReviewPolicy ''negative verdict binding'')
                         else bindE (audit_verdict_evidence_refs (e_refs e)) (\<lambda>old.
                           if set evidence \<subseteq> set old then Inl (ReviewPolicy ''no new evidence'') else Inr ()))))"

definition pass_gate ::
  "lib \<Rightarrow> proofs \<Rightarrow> string list \<Rightarrow> verdict_args \<Rightarrow> string option \<Rightarrow> string list \<Rightarrow> db \<Rightarrow> err + unit" where
  "pass_gate L W lanes a author evidence d =
     (let lane = norm (va_actor a); session_lane = expected_actor_for_session_id (otext (va_session a)) in
      if lane \<notin> set lanes \<or> (session_lane \<noteq> None \<and> session_lane \<noteq> Some lane)
      then Inl (ReviewPolicy ''reviewer lane'')
      else if author = None then Inl (ReviewPolicy ''author lane'')
      else if author = Some lane then Inl (ReviewPolicy ''same-lane PASS'')
      else bindE (completion_review_state L W lanes d (strip (va_work a)) None) (\<lambda>rs.
             repair_pass_gate d (strip (va_work a)) rs evidence))"

definition apply_verdict :: "string \<Rightarrow> seconds \<Rightarrow> work_row \<Rightarrow> work_row" where
  "apply_verdict verdict t w =
     (if verdict = ''PASS''
      then w\<lparr>w_rubric := Some ''pass'', w_reason := (if w_reason w = Some ''awaiting_review'' then None else w_reason w),
             w_updated := t, w_version := w_version w + 1\<rparr>
      else w\<lparr>w_rubric := Some (lower verdict), w_intent := (if verdict = ''BLOCKED'' then ''blocked'' else ''queued''),
             w_updated := t, w_version := w_version w + 1\<rparr>)"

record verdict_result =
  vr_event :: int
  vr_work :: "work_row option"
  vr_superseded :: "int list"
  vr_replayed :: bool

definition verdict_event :: "verdict_args \<Rightarrow> string option \<Rightarrow> seconds \<Rightarrow> event_row" where
  "verdict_event a selector t =
     blank_event\<lparr>e_ts := t, e_kind := ''audit_verdict'', e_actor := va_actor a, e_session := va_session a,
       e_to := selector, e_work := Some (strip (va_work a)), e_verdict := Some (upper (strip (va_verdict a))),
       e_trust := va_trust a, e_title := va_title a, e_body := capped (va_body a), e_refs := va_refs a,
       e_payload := va_payload a, e_key := Some (verdict_key a)\<rparr>"

definition verdict_replay :: "lib \<Rightarrow> verdict_args \<Rightarrow> event_row \<Rightarrow> db \<Rightarrow> err + (db \<times> verdict_result)" where
  "verdict_replay L a e d =
     (if otext (e_work e) \<noteq> strip (va_work a) \<or> upper (otext (e_verdict e)) \<noteq> upper (strip (va_verdict a)) \<or>
         lower (str_or_empty L (jget (e_payload e) ''operation_request_sha256'')) \<noteq> lower (strip (va_sha a))
      then Inl (ValueErr ''operation_id was used for a different request'')
      else Inr (d, \<lparr>vr_event = e_id e, vr_work = workd d (strip (va_work a)), vr_superseded = [], vr_replayed = True\<rparr>))"

definition verdict_writes :: "lib \<Rightarrow> verdict_args \<Rightarrow> string option \<Rightarrow> seconds \<Rightarrow> db \<Rightarrow> err + (db \<times> verdict_result)" where
  "verdict_writes L a selector t d =
     (let work_id = strip (va_work a); verdict = upper (strip (va_verdict a)) in
      bindE (insert_event (verdict_event a selector t) d) (\<lambda>(d1, i).
      bindE (supersede_active_heads L work_id i [''audit_request''] t d1) (\<lambda>(d2, out).
        let d3 = upd_works (\<lambda>w. w_id w = work_id) (apply_verdict verdict t) d2 in
        Inr (d3, \<lparr>vr_event = i, vr_work = workd d3 work_id, vr_superseded = out, vr_replayed = False\<rparr>))))"

definition post_audit_verdict ::
  "lib \<Rightarrow> proofs \<Rightarrow> string list \<Rightarrow> verdict_args \<Rightarrow> seconds \<Rightarrow> db \<Rightarrow> err + (db \<times> verdict_result)" where
  "post_audit_verdict L W lanes a t d =
     bindE (verdict_checks a) (\<lambda>evidence.
       if workd d (strip (va_work a)) = None then Inl (UnknownWork (strip (va_work a)))
       else bindE (latest_claim_author_lane L lanes d (strip (va_work a))) (\<lambda>author.
         let selector = (case author of Some l \<Rightarrow> if l \<in> set lanes then Some (''actor:'' @ l) else va_to a
                          | None \<Rightarrow> va_to a)
         in bindE (if upper (strip (va_verdict a)) = ''PASS'' then pass_gate L W lanes a author evidence d else Inr ())
              (\<lambda>_. case event_by_key d (verdict_key a) of
                     Some e \<Rightarrow> verdict_replay L a e d
                   | None \<Rightarrow> verdict_writes L a selector t d)))"

end
