(* ===== verification/Completion.thy ===== *)
theory Completion
  imports ReviewState
begin

text \<open>
  Completing a claim (coord_db.py, \<open>complete_claim\<close>, \<open>done_signal_blocking_declaration\<close> and
  the receipts they write; loop_contracts.py, \<open>done_terminal_block_reason\<close>). The checks are
  \<open>completion_gate\<close>, the statements \<open>completion_writes\<close>.
\<close>

section \<open>Loop contracts: may the row be marked done\<close>

definition terminal_state_fields :: "string list" where
  "terminal_state_fields = [''loop_terminal_state'', ''terminal_state'', ''stop_state'']"

definition allowed_terminal_states :: "string list" where
  "allowed_terminal_states =
     [''success'', ''clean_noop'', ''blocked'', ''approval_required'', ''exhausted'', ''stagnated'', ''failed'']"

definition done_allowed_terminal_states :: "string list" where
  "done_allowed_terminal_states = [''success'', ''clean_noop'']"

definition acceptance_from_row :: "lib \<Rightarrow> pyrow \<Rightarrow> pyrow" where
  "acceptance_from_row L row = (case field row ''acceptance_json'' of
       JObj p \<Rightarrow> p
     | JStr s \<Rightarrow> (if strip s = [] then [] else case loads L (strip s) of Some (JObj p) \<Rightarrow> p | _ \<Rightarrow> [])
     | _ \<Rightarrow> [])"

fun first_state :: "lib \<Rightarrow> pyrow \<Rightarrow> string list \<Rightarrow> string option" where
  "first_state L row [] = None"
| "first_state L row (k # ks) =
     (let s = lower (text_field L row k) in if s \<noteq> [] then Some s else first_state L row ks)"

definition done_terminal_state :: "lib \<Rightarrow> pyrow \<Rightarrow> string option" where
  "done_terminal_state L row =
     coalesce (first_state L row terminal_state_fields)
       (first_state L (acceptance_from_row L row) terminal_state_fields)"

definition done_terminal_block_reason :: "lib \<Rightarrow> pyrow \<Rightarrow> string option" where
  "done_terminal_block_reason L row =
     (case done_terminal_state L row of
        None \<Rightarrow> None
      | Some s \<Rightarrow>
          if s \<notin> set allowed_terminal_states then Some (''invalid loop terminal state '' @ s)
          else if s \<notin> set done_allowed_terminal_states
            then Some (''loop terminal state '' @ s @ '' cannot mark work done'')
          else None)"

section \<open>A proof that declares itself not ready\<close>

definition line_break :: "char \<Rightarrow> bool" where
  "line_break c = (let n = (of_char c :: nat) in (10 \<le> n \<and> n \<le> 13) \<or> (28 \<le> n \<and> n \<le> 30))"

function split_lines :: "string \<Rightarrow> string list" where
  "split_lines s =
     (if s = [] then []
      else takeWhile (\<lambda>c. \<not> line_break c) s #
        (case dropWhile (\<lambda>c. \<not> line_break c) s of
           [] \<Rightarrow> []
         | b # r \<Rightarrow> split_lines (if b = CHR 0x0D \<and> next_char r = Some newline then tl r else r)))"
  by pat_completeness auto
termination
proof (relation "measure length", goal_cases)
  case (2 s b r)
  then have "length (b # r) \<le> length s" by (metis length_dropWhile_le)
  then show ?case by (cases r) auto
qed simp

declare split_lines.simps [simp del]

definition path_suffix :: "string \<Rightarrow> string" where
  "path_suffix p =
     (let name = (case rev (path_components p) of [] \<Rightarrow> [] | n # _ \<Rightarrow> n);
          ext = rev (takeWhile (\<lambda>c. c \<noteq> CHR ''.'') (rev name))
      in if CHR ''.'' \<in> set name \<and> ext \<noteq> [] \<and> length ext + 1 < length name then CHR ''.'' # ext else [])"

definition alnum :: "char \<Rightarrow> bool" where
  "alnum c \<longleftrightarrow> is_word c \<and> c \<noteq> CHR ''_''"

definition state_words :: rx where
  "state_words = rseq
     [ralts [rseq [rlit ''not'', ropt (RClass (\<lambda>c. is_ws c \<or> c = CHR ''_'' \<or> c = CHR ''-'')), rlit ''ready''],
        rlit ''failed'', rlit ''blocked'', rlit ''incomplete''], RNot (RClass alnum)]"

definition state_search :: rx where
  "state_search = RSeq (RAlt RStart (RClass (\<lambda>c. \<not> alnum c))) state_words"

text \<open>The state as it is reported: upper case, blanks and dashes as underscores.\<close>

definition state_name :: "string \<Rightarrow> string" where
  "state_name m = map (\<lambda>c. if is_ws c \<or> c = CHR ''-'' then CHR ''_'' else c)
     (upper (dropWhile (\<lambda>c. \<not> alnum c) m))"

definition find_state :: "string \<Rightarrow> string option" where
  "find_state s = map_option (\<lambda>(b, m, a). state_name m) (rx_search state_search (lower s))"

definition leading_state :: "string \<Rightarrow> string option" where
  "leading_state s = (case ends state_words (None, lower s) of
       [] \<Rightarrow> None | q # _ \<Rightarrow> Some (state_name (take (length s - length (snd q)) s)))"

definition status_key :: rx where
  "status_key = rseq [RBound, rlit ''status'', rspaces0, rlit '':'']"

definition leading_key :: rx where
  "leading_key = rseq [RStart, rspaces0,
     ropt (RSeq (RSpan (\<lambda>c. c = CHR ''*'' \<or> c = CHR ''_'') 1 None) rspaces0),
     rwords [''verdict'', ''decision'', ''status''], rspaces0, rlit '':'']"

definition comment_status :: "string \<Rightarrow> string option" where
  "comment_status s =
     (case rx_search status_key (lower s) of
        None \<Rightarrow> None
      | Some (bef, m, aft) \<Rightarrow>
          let rest = drop (length bef + length m) s in
          (case rx_search (rlit ''-->'') rest of None \<Rightarrow> None | Some (v, _, _) \<Rightarrow> Some (strip v)))"

definition leading_status :: "string \<Rightarrow> string option" where
  "leading_status s =
     (case ends leading_key (None, lower s) of
        [] \<Rightarrow> None
      | q # _ \<Rightarrow> opt_text (strip (drop (length s - length (snd q)) s)))"

definition undecorate :: "string \<Rightarrow> string" where
  "undecorate s = dropWhile (\<lambda>c. c \<in> set ''*_` '') s"

definition line_declares :: "string \<Rightarrow> string option" where
  "line_declares line =
     (let s = strip line;
          canonical = (if contains ''<!--'' s \<and> contains ''canonical:'' (lower s) then comment_status s else None);
          of_comment = (case canonical of None \<Rightarrow> None
            | Some v \<Rightarrow> find_state (takeWhile (\<lambda>c. \<not> is_ws c \<and> c \<noteq> CHR '';'') (undecorate v)))
      in coalesce of_comment
           (case leading_status s of None \<Rightarrow> None | Some v \<Rightarrow> leading_state (undecorate v)))"

fun first_declaration :: "nat \<Rightarrow> string list \<Rightarrow> (string \<times> nat) option" where
  "first_declaration n [] = None"
| "first_declaration n (l # ls) =
     (case line_declares l of Some s \<Rightarrow> Some (s, n) | None \<Rightarrow> first_declaration (n + 1) ls)"

definition done_signal_blocking_declaration :: "proofs \<Rightarrow> string \<Rightarrow> (string \<times> nat) option" where
  "done_signal_blocking_declaration W signal =
     (let raw = strip signal in
      if raw = [] \<or> prefix ''coord:event:'' raw then None
      else if lower (path_suffix raw) \<notin> {''.md'', ''.txt'', ''.rst''} then None
      else case file_text W raw of
          None \<Rightarrow> None
        | Some body \<Rightarrow> first_declaration 1 (take 12 (split_lines body)))"

section \<open>The checks\<close>

definition completion_row :: "claim_row \<Rightarrow> work_row \<Rightarrow> pyrow" where
  "completion_row c w =
     [(''work_id'', JStr (c_work c)), (''session_id'', JStr (c_session c)), (''status'', JStr (c_status c)),
      (''expires_at'', JFloat (c_expires c)), (''done_signal'', jopt (w_done_signal w)),
      (''acceptance_json'', JStr (w_acceptance w)), (''rubric_verdict'', jopt (w_rubric w)),
      (''title'', JStr (w_title w)), (''tier'', jopt (w_tier w)), (''kind'', jopt (w_kind w)),
      (''module'', jopt (w_module w)), (''sublane'', jopt (w_sublane w)),
      (''context_pack_ref'', jopt (w_context w)), (''depends_on'', jopt (w_depends w)),
      (''assignee'', jopt (w_assignee w)), (''version'', JInt (w_version w)),
      (''operator_ok_event_id'', jint (w_op_ok w)), (''tier_correction_event_id'', jint (w_tier_corr w))]"

definition live_local_run :: "string \<Rightarrow> run_row \<Rightarrow> bool" where
  "live_local_run work r \<longleftrightarrow> r_work r = Some work \<and> r_state r \<in> {''live'', ''running'', ''waiting''} \<and>
     r_kind r \<in> {''local_cpu'', ''local_gpu''} \<and> otext (r_sidecar r) \<noteq> []"

definition non_proof_artifact_kinds :: "string list" where
  "non_proof_artifact_kinds = [''context_pack'']"

definition artifact_kind_of :: "string option \<Rightarrow> string" where
  "artifact_kind_of k = (let s = clean k in if s = [] then ''done_signal'' else s)"

text \<open>The text in front of the first \<open>::\<close>.\<close>

fun path_part :: "string \<Rightarrow> string" where
  "path_part [] = []"
| "path_part (c # s) = (if prefix ''::'' (c # s) then [] else c # path_part s)"

definition proof_matches :: "proofs \<Rightarrow> string \<Rightarrow> string \<Rightarrow> bool" where
  "proof_matches W declared explicit \<longleftrightarrow>
     (if explicit = [] then True
      else if coord_event_done_signal_id declared \<noteq> None then explicit = declared
      else real_path W declared = real_path W explicit)"

definition stored_proof :: "proofs \<Rightarrow> string \<Rightarrow> string" where
  "stored_proof W declared =
     (if coord_event_done_signal_id declared = None \<and> absolute W declared
      then (case relative W declared of Some p \<Rightarrow> p | None \<Rightarrow> path_text W declared) else declared)"

definition proof_gate :: "proofs \<Rightarrow> db \<Rightarrow> string \<Rightarrow> string option \<Rightarrow> string option \<Rightarrow> err + string" where
  "proof_gate W d declared artifact_path kind =
     (if artifact_kind_of kind \<in> set non_proof_artifact_kinds then Inl (ProofRefused ''artifact kind'')
      else if declared = [] then Inl (ProofRefused ''done_signal is not declared'')
      else if \<not> proof_matches W declared (clean artifact_path) then Inl (ProofRefused ''artifact_path differs'')
      else if \<not> done_signal_satisfied W d declared then
        Inl (ProofRefused (if admissible W declared then ''not carried by the index''
          else if on_disk W (path_part declared) then ''not an admissible completion proof''
          else ''does not exist''))
      else case done_signal_blocking_declaration W declared of
          Some (s, _) \<Rightarrow> Inl (ProofRefused (''done_signal self-declares '' @ s))
        | None \<Rightarrow> Inr (stored_proof W declared))"

text \<open>
  The claim and its row, once every check up to the proof has passed; \<open>enforce\<close> is
  \<open>enforce_terminal_status\<close>.
\<close>

definition review_gate ::
  "lib \<Rightarrow> proofs \<Rightarrow> string list \<Rightarrow> db \<Rightarrow> string \<Rightarrow> pyrow \<Rightarrow> err + unit" where
  "review_gate L W lanes d work row =
     bindE (completion_review_state L W lanes d work (Some row)) (\<lambda>rs.
       if rs_negative rs then Inl (ReviewBlocked ''negative audit verdict is unresolved'')
       else if rs_needs_review rs then Inl (ReviewBlocked ''review has not passed'')
       else Inr ())"

definition terminal_gate :: "lib \<Rightarrow> db \<Rightarrow> claim_row \<Rightarrow> work_row \<Rightarrow> err + unit" where
  "terminal_gate L d c w =
     (case done_terminal_block_reason L (completion_row c w) of
        Some m \<Rightarrow> Inl (TerminalWork m)
      | None \<Rightarrow> if list_ex (live_local_run (c_work c)) (d_runs d) then Inl (ActiveRunRefused (c_id c)) else Inr ())"

definition completion_gate ::
  "lib \<Rightarrow> proofs \<Rightarrow> string list \<Rightarrow> string \<Rightarrow> string option \<Rightarrow> string option \<Rightarrow> bool \<Rightarrow> string option
     \<Rightarrow> string option \<Rightarrow> string option \<Rightarrow> seconds \<Rightarrow> db \<Rightarrow> err + (claim_row \<times> string)" where
  "completion_gate L W lanes claim_id artifact_path kind enforce session_id actor system_caller t d =
     bindE (assert_claim_holder lanes d claim_id session_id actor system_caller) (\<lambda>_.
       case claimd d claim_id of
         None \<Rightarrow> Inl (MissingClaim claim_id)
       | Some c \<Rightarrow>
           (case workd d (c_work c) of
              None \<Rightarrow> Inl (MissingClaim claim_id)
            | Some w \<Rightarrow>
                if lower (strip (c_status c)) \<noteq> ''running'' then Inl (ClaimStatus claim_id (c_status c))
                else if c_expires c \<le> t then Inl (ClaimExpired claim_id)
                else bindE (if enforce then terminal_gate L d c w else Inr ()) (\<lambda>_.
                     bindE (review_gate L W lanes d (c_work c) (completion_row c w)) (\<lambda>_.
                     bindE (proof_gate W d (clean (w_done_signal w)) artifact_path kind) (\<lambda>stored.
                       Inr (c, stored))))))"

section \<open>The statements\<close>

definition insert_artifact :: "string \<Rightarrow> string \<Rightarrow> string \<Rightarrow> string \<Rightarrow> seconds \<Rightarrow> db \<Rightarrow> err + db" where
  "insert_artifact art work path kind t d =
     (if list_ex (\<lambda>a. a_work a = Some work \<and> a_path a = path \<and> otext (a_kind a) = kind) (d_artifacts d)
      then Inr d
      else if list_ex (\<lambda>a. a_id a = art) (d_artifacts d) then Inl IntegrityPrimaryKey
      else Inr (d\<lparr>d_artifacts := d_artifacts d @ [\<lparr>a_id = art, a_work = Some work, a_run = None,
             a_path = path, a_kind = Some kind, a_sha = None, a_created = t\<rparr>]\<rparr>))"

definition parent_complete_agent_runner_kinds :: "string list" where
  "parent_complete_agent_runner_kinds = [''subagent'', ''workflow'', ''background'', ''claude'', ''codex'']"

definition end_child :: "seconds \<Rightarrow> session_row \<Rightarrow> session_row" where
  "end_child t s = s\<lparr>s_state := ''ended'', s_ended := Some t, s_version := s_version s + 1\<rparr>"

definition terminalize_children :: "string \<Rightarrow> string \<Rightarrow> seconds \<Rightarrow> db \<Rightarrow> db" where
  "terminalize_children parent_session work t d =
     (let parent = strip parent_session in
      if parent = [] then d
      else let kids = filter (\<lambda>i. i \<noteq> []) (map s_id (filter (\<lambda>s. s_parent s = Some parent \<and> s_state s = ''active'')
                 (d_sessions d)));
               d1 = upd_sessions (\<lambda>s. s_id s \<in> set kids \<and> s_state s = ''active'') (end_child t) d
           in upd_runs (\<lambda>r. r_state r = ''live'' \<and> r_kind r \<in> set parent_complete_agent_runner_kinds \<and>
                (r_parent r = Some parent \<or> r_session r \<in> Some ` set (parent # kids) \<or> r_work r = Some work))
                (orphan_run t) d1)"

definition receipt_actor :: "string list \<Rightarrow> db \<Rightarrow> string \<Rightarrow> string" where
  "receipt_actor lanes d session_id =
     (let a = norm (map_option s_actor (sess d session_id)) in
      if a \<in> set lanes then a
      else let e = otext (expected_actor_for_session_id session_id) in if e = [] then ''coord'' else e)"

definition body_cap :: nat where
  "body_cap = 2048"

definition completion_receipt ::
  "string list \<Rightarrow> string \<Rightarrow> string \<Rightarrow> string \<Rightarrow> string \<Rightarrow> string \<Rightarrow> string option \<Rightarrow> string \<Rightarrow> seconds \<Rightarrow> db
     \<Rightarrow> event_row" where
  "completion_receipt lanes claim_id work session_id path kind body source t d =
     (let actor = receipt_actor lanes d session_id in
      blank_event\<lparr>e_ts := t, e_kind := (if actor \<in> set lanes then actor @ ''_done'' else ''coord_done''),
        e_actor := Some actor, e_session := Some session_id, e_work := Some work,
        e_body := opt_text (take body_cap (otext body)),
        e_payload := JObj [(''action'', JStr ''done''), (''artifact_kind'', JStr kind),
          (''artifact_path'', JStr path), (''canonical_lifecycle_event'', JBool True),
          (''claim_id'', JStr claim_id), (''schema_version'', JInt 1),
          (''source'', JStr (if source = [] then ''coord_db.complete_claim'' else source)),
          (''status'', JStr ''applied''), (''verb'', JStr ''done'')],
        e_key := Some (''coord-complete:'' @ claim_id)\<rparr>)"

definition insert_completion_receipt ::
  "string list \<Rightarrow> string \<Rightarrow> string \<Rightarrow> string \<Rightarrow> string \<Rightarrow> string \<Rightarrow> string option \<Rightarrow> string \<Rightarrow> seconds \<Rightarrow> db
     \<Rightarrow> err + (db \<times> int)" where
  "insert_completion_receipt lanes claim_id work session_id path kind body source t d =
     (case insert_event (completion_receipt lanes claim_id work session_id path kind body source t d) d of
        Inl _ \<Rightarrow> Inl (ValueErr ''canonical completion receipt key collision'')
      | Inr r \<Rightarrow> Inr r)"

definition complete_status :: "claim_row \<Rightarrow> claim_row" where
  "complete_status c = c\<lparr>c_status := ''completed'', c_version := c_version c + 1\<rparr>"

definition close_work :: "seconds \<Rightarrow> work_row \<Rightarrow> work_row" where
  "close_work t w = w\<lparr>w_intent := ''done'', w_updated := t, w_version := w_version w + 1\<rparr>"

definition completion_writes ::
  "string list \<Rightarrow> string \<Rightarrow> string \<Rightarrow> string option \<Rightarrow> string \<Rightarrow> string option \<Rightarrow> claim_row \<Rightarrow> seconds
     \<Rightarrow> db \<Rightarrow> err + db" where
  "completion_writes lanes art stored kind source body c t d =
     bindE (insert_artifact art (c_work c) stored (artifact_kind_of kind) t d) (\<lambda>d1.
       let d2 = upd_claims (\<lambda>x. c_id x = c_id c) complete_status d1;
           d3 = upd_works (\<lambda>w. w_id w = c_work c) (close_work t) d2;
           d4 = terminalize_children (c_session c) (c_work c) t d3
       in bindE (insert_completion_receipt lanes (c_id c) (c_work c) (c_session c) stored
                   (artifact_kind_of kind) body source t d4) (\<lambda>(d5, _). Inr d5))"

definition complete_claim ::
  "lib \<Rightarrow> proofs \<Rightarrow> string list \<Rightarrow> string \<Rightarrow> string \<Rightarrow> string option \<Rightarrow> string option \<Rightarrow> bool
     \<Rightarrow> string option \<Rightarrow> string \<Rightarrow> string option \<Rightarrow> string option \<Rightarrow> string option \<Rightarrow> seconds \<Rightarrow> db
     \<Rightarrow> err + (db \<times> string)" where
  "complete_claim L W lanes art claim_id artifact_path kind enforce body source session_id actor
     system_caller t d =
     bindE (completion_gate L W lanes claim_id artifact_path kind enforce session_id actor system_caller t d)
       (\<lambda>(c, stored).
         bindE (completion_writes lanes art stored kind source body c t d) (\<lambda>d'. Inr (d', stored)))"

section \<open>What a completion has established\<close>

lemma proof_gate_Inr:
  assumes "proof_gate W d declared path kind = Inr stored"
  shows "declared \<noteq> [] \<and> stored = stored_proof W declared \<and> done_signal_satisfied W d declared \<and>
    proof_matches W declared (clean path) \<and> done_signal_blocking_declaration W declared = None \<and>
    artifact_kind_of kind \<noteq> ''context_pack''"
  using assms
  by (auto simp: proof_gate_def non_proof_artifact_kinds_def split: if_split_asm option.splits)

lemma review_gate_Inr:
  "review_gate L W lanes d work row = Inr u \<Longrightarrow>
   \<exists>rs. completion_review_state L W lanes d work (Some row) = Inr rs \<and> \<not> rs_negative rs \<and> \<not> rs_needs_review rs"
  by (auto simp: review_gate_def bindE_Inr_iff split: if_split_asm)

lemma terminal_gate_Inr:
  "terminal_gate L d c w = Inr u \<Longrightarrow>
   done_terminal_block_reason L (completion_row c w) = None \<and> (\<forall>r \<in> set (d_runs d). \<not> live_local_run (c_work c) r)"
  by (auto simp: terminal_gate_def list_ex_iff split: option.splits if_split_asm)

lemma completion_gate_Inr:
  assumes "completion_gate L W lanes claim_id path kind enforce sid actor sys t d = Inr (c, stored)"
  shows "\<exists>w rs. claimd d claim_id = Some c \<and> workd d (c_work c) = Some w \<and>
     assert_claim_holder lanes d claim_id sid actor sys = Inr (Some c) \<and>
     lower (strip (c_status c)) = ''running'' \<and> t < c_expires c \<and>
     (enforce \<longrightarrow> terminal_gate L d c w = Inr ()) \<and>
     completion_review_state L W lanes d (c_work c) (Some (completion_row c w)) = Inr rs \<and>
     \<not> rs_negative rs \<and> \<not> rs_needs_review rs \<and>
     proof_gate W d (clean (w_done_signal w)) path kind = Inr stored"
proof -
  obtain x where x: "assert_claim_holder lanes d claim_id sid actor sys = Inr x"
    using assms by (auto simp: completion_gate_def bindE_Inr_iff)
  obtain c' where c': "claimd d claim_id = Some c'"
    using assms x by (cases "claimd d claim_id") (auto simp: completion_gate_def)
  obtain w where w: "workd d (c_work c') = Some w"
    using assms x c' by (cases "workd d (c_work c')") (auto simp: completion_gate_def)
  have xc: "x = Some c'"
    using x c' assert_claim_holder_None [of lanes d claim_id sid actor sys]
      assert_claim_holder_Some [of lanes d claim_id sid actor sys]
    by (cases x) auto
  have run: "lower (strip (c_status c')) = ''running''" "t < c_expires c'"
    using assms x c' w by (auto simp: completion_gate_def split: if_split_asm)
  have gates: "c = c'" "(if enforce then terminal_gate L d c' w else Inr ()) = Inr ()"
      "review_gate L W lanes d (c_work c') (completion_row c' w) = Inr ()"
      "proof_gate W d (clean (w_done_signal w)) path kind = Inr stored"
    using assms x c' w run by (auto simp: completion_gate_def bindE_Inr_iff)
  then show ?thesis
    using review_gate_Inr [OF gates(3)] x xc c' w run by auto
qed

lemma complete_claim_Inr:
  assumes "complete_claim L W lanes art i path kind enforce body source sid actor sys t d = Inr (d', stored)"
  shows "\<exists>c. completion_gate L W lanes i path kind enforce sid actor sys t d = Inr (c, stored) \<and>
     completion_writes lanes art stored kind source body c t d = Inr d'"
  using assms by (auto simp: complete_claim_def bindE_Inr_iff)

section \<open>What a completion writes\<close>

interpretation complete_update: claim_update p complete_status for p
  by unfold_locales (auto simp: complete_status_def held_def held_statuses_def)

lemma insert_artifact_Inr:
  assumes "insert_artifact art work path kind t d = Inr d'"
  shows "(\<exists>as. d' = d\<lparr>d_artifacts := d_artifacts d @ as\<rparr>) \<and>
    (\<exists>a \<in> set (d_artifacts d'). a_work a = Some work \<and> a_path a = path \<and> otext (a_kind a) = kind)"
proof (cases "list_ex (\<lambda>a. a_work a = Some work \<and> a_path a = path \<and> otext (a_kind a) = kind) (d_artifacts d)")
  case True
  with assms have d': "d' = d" by (simp add: insert_artifact_def)
  moreover have "d = d\<lparr>d_artifacts := d_artifacts d @ []\<rparr>" by simp
  moreover have "\<exists>a \<in> set (d_artifacts d). a_work a = Some work \<and> a_path a = path \<and> otext (a_kind a) = kind"
    using True unfolding list_ex_iff .
  ultimately show ?thesis by blast
next
  case False
  with assms show ?thesis by (auto simp: insert_artifact_def split: if_split_asm)
qed

lemma terminalize_children_frame [table_simps]:
  "d_works (terminalize_children p w t d) = d_works d" "d_claims (terminalize_children p w t d) = d_claims d"
  "d_events (terminalize_children p w t d) = d_events d"
  "d_next_event (terminalize_children p w t d) = d_next_event d"
  "d_artifacts (terminalize_children p w t d) = d_artifacts d"
  by (simp_all add: terminalize_children_def Let_def table_simps upd_runs_def upd_sessions_def)

lemma wf_terminalize_children: "wf_db d \<Longrightarrow> wf_db (terminalize_children p w t d)"
  unfolding terminalize_children_def Let_def
  by (auto intro!: wf_upd_runs wf_upd_sessions simp: end_child_def orphan_run_def)

lemma insert_completion_receipt_Inr:
  assumes "insert_completion_receipt lanes i work sid path kind body source t d = Inr (d', n)"
  shows "insert_event (completion_receipt lanes i work sid path kind body source t d) d = Inr (d', n)"
  using assms by (auto simp: insert_completion_receipt_def split: sum.splits)

text \<open>The five statements, with the row each leaves behind.\<close>

lemma completion_writes_steps:
  assumes "completion_writes lanes art stored kind source body c t d = Inr d'"
  shows "\<exists>d1 d4 n.
     insert_artifact art (c_work c) stored (artifact_kind_of kind) t d = Inr d1 \<and>
     d4 = terminalize_children (c_session c) (c_work c) t
       (upd_works (\<lambda>w. w_id w = c_work c) (close_work t) (upd_claims (\<lambda>x. c_id x = c_id c) complete_status d1)) \<and>
     insert_event (completion_receipt lanes (c_id c) (c_work c) (c_session c) stored
       (artifact_kind_of kind) body source t d4) d4 = Inr (d', n)"
  using assms unfolding completion_writes_def Let_def
  by (auto simp: bindE_Inr_iff split: prod.splits dest!: insert_completion_receipt_Inr)

lemma wf_artifacts: "wf_db (d\<lparr>d_artifacts := as\<rparr>) = wf_db d"
  by (simp add: wf_db_defs)

lemma wf_completion_writes:
  assumes "wf_db d" "completion_writes lanes art stored kind source body c t d = Inr d'"
  shows "wf_db d'"
proof -
  obtain d1 d4 n where s: "insert_artifact art (c_work c) stored (artifact_kind_of kind) t d = Inr d1"
     "d4 = terminalize_children (c_session c) (c_work c) t
       (upd_works (\<lambda>w. w_id w = c_work c) (close_work t) (upd_claims (\<lambda>x. c_id x = c_id c) complete_status d1))"
     "insert_event (completion_receipt lanes (c_id c) (c_work c) (c_session c) stored
       (artifact_kind_of kind) body source t d4) d4 = Inr (d', n)"
    using completion_writes_steps [OF assms(2)] by blast
  have "wf_db d1" using insert_artifact_Inr [OF s(1)] assms(1) wf_artifacts by auto
  then have "wf_db d4"
    unfolding s(2) by (intro wf_terminalize_children wf_upd_works complete_update.wf) (simp_all add: close_work_def)
  then show ?thesis using s(3) by (rule wf_insert_event)
qed

lemma wf_complete_claim:
  assumes "wf_db d"
    and "complete_claim L W lanes art i path kind enforce body source sid actor sys t d = Inr (d', stored)"
  shows "wf_db d'"
  using complete_claim_Inr [OF assms(2)] wf_completion_writes [OF assms(1)] by blast

lemma completion_writes_result:
  assumes "completion_writes lanes art stored kind source body c t d = Inr d'"
  shows "d_claims d' = upd_where (\<lambda>x. c_id x = c_id c) complete_status (d_claims d)"
    and "d_works d' = upd_where (\<lambda>w. w_id w = c_work c) (close_work t) (d_works d)"
    and "\<exists>a \<in> set (d_artifacts d'). a_work a = Some (c_work c) \<and> a_path a = stored"
    and "\<exists>e. event_by_key d' (''coord-complete:'' @ c_id c) = Some e \<and> e_id e = d_next_event d \<and>
       e_work e = Some (c_work c) \<and> event_by_key d (''coord-complete:'' @ c_id c) = None"
proof -
  obtain d1 d4 n where s: "insert_artifact art (c_work c) stored (artifact_kind_of kind) t d = Inr d1"
     "d4 = terminalize_children (c_session c) (c_work c) t
       (upd_works (\<lambda>w. w_id w = c_work c) (close_work t) (upd_claims (\<lambda>x. c_id x = c_id c) complete_status d1))"
     "insert_event (completion_receipt lanes (c_id c) (c_work c) (c_session c) stored
       (artifact_kind_of kind) body source t d4) d4 = Inr (d', n)"
    using completion_writes_steps [OF assms] by blast
  note e = insert_event_Inr [OF s(3)]
  obtain as where d1: "d1 = d\<lparr>d_artifacts := d_artifacts d @ as\<rparr>" using insert_artifact_Inr [OF s(1)] by blast
  show "d_claims d' = upd_where (\<lambda>x. c_id x = c_id c) complete_status (d_claims d)"
    "d_works d' = upd_where (\<lambda>w. w_id w = c_work c) (close_work t) (d_works d)"
    using e by (simp_all add: s(2) d1 table_simps)
  have "d_artifacts d' = d_artifacts d1"
    using e by (simp add: s(2) table_simps) (simp add: upd_works_def upd_claims_def)
  then show "\<exists>a \<in> set (d_artifacts d'). a_work a = Some (c_work c) \<and> a_path a = stored"
    using insert_artifact_Inr [OF s(1)] by auto
  have d4: "d_events d4 = d_events d" "d_next_event d4 = d_next_event d"
    by (simp_all add: s(2) d1 table_simps) (simp add: upd_works_def upd_claims_def)
  have "event_by_key d4 (''coord-complete:'' @ c_id c) = None"
    using s(3) by (auto simp: insert_event_def completion_receipt_def Let_def split: if_split_asm)
  then show "\<exists>e. event_by_key d' (''coord-complete:'' @ c_id c) = Some e \<and> e_id e = d_next_event d \<and>
       e_work e = Some (c_work c) \<and> event_by_key d (''coord-complete:'' @ c_id c) = None"
    using e d4 by (simp add: event_by_key_def find_append completion_receipt_def Let_def)
qed

section \<open>What the review state says\<close>

lemma completion_review_state_Inr:
  assumes "completion_review_state L W lanes d work (Some row) = Inr rs"
  shows "\<exists>tier ok v declared. effective_review_tier_for_work L lanes d work row = Inr tier \<and>
     has_valid_operator_ok L d work None None = Inr ok \<and>
     classify_verdict_status L W lanes d work row = Inr v \<and>
     quorum_from_acceptance L (jtext (field row ''acceptance_json'')) = Inr declared \<and>
     rs = review_state_of L row tier ok v (panel_of L d work row (v_barrier v) declared)
       (flag_cycle_of L lanes d work v)"
  using assms by (simp add: completion_review_state_def bindE_Inr_iff) metis

lemma review_state_of_simps:
  "rs_tier (review_state_of L row tier ok v panel cycle) = tier"
  "rs_operator_ok (review_state_of L row tier ok v panel cycle) = ok"
  "rs_barrier (review_state_of L row tier ok v panel cycle) = v_barrier v"
  "rs_flag_cycle (review_state_of L row tier ok v panel cycle) = cycle"
  "rs_panel (review_state_of L row tier ok v panel cycle) = panel"
  "rs_effective (review_state_of L row tier ok v panel cycle) =
     opt_text (effective_rubric_of v cycle (v_repair v \<noteq> None \<and> v_repair v = v_barrier v)
       (lower (text_field L row ''rubric_verdict'')))"
  by (simp_all add: review_state_of_def Let_def)

lemma review_state_of_settled:
  assumes "\<not> rs_needs_review (review_state_of L row tier ok v panel cycle)"
  shows "tier = ''T0'' \<or> cycle \<Longrightarrow>
      rs_effective (review_state_of L row tier ok v panel cycle) = Some ''pass'' \<or> (v_barrier v = None \<and> ok)"
    and "panel = Some p \<Longrightarrow> p_passed p"
  using assms by (auto simp: review_state_of_def Let_def)

lemma effective_pass_after_barrier:
  assumes "v_barrier v \<noteq> None" "\<not> cycle" "opt_text (effective_rubric_of v cycle repair stored) = Some ''pass''"
  shows "v_reason v = ''independent_verdict'' \<and> norm (v_verdict v) = ''pass''"
proof -
  have "effective_rubric_of v cycle repair stored = ''pass''"
    using assms(3) by (simp add: opt_text_def split: if_split_asm)
  then have "ordered_verdict_of v = ''pass''"
    using assms(1,2) by (auto simp: effective_rubric_of_def negative_rubrics_def split: if_split_asm)
  then show ?thesis by (simp add: ordered_verdict_of_def split: if_split_asm)
qed

lemma review_state_settled:
  assumes "completion_review_state L W lanes d work (Some row) = Inr rs" "\<not> rs_needs_review rs"
  shows "rs_tier rs = ''T0'' \<Longrightarrow> rs_effective rs = Some ''pass'' \<or> (rs_barrier rs = None \<and> rs_operator_ok rs)"
    and "rs_panel rs = Some p \<Longrightarrow> p_passed p"
  using completion_review_state_Inr [OF assms(1)] assms(2) review_state_of_settled
  by (metis review_state_of_simps)+

lemma effective_pass_is_judged:
  assumes "completion_review_state L W lanes d work (Some row) = Inr rs"
    and "rs_barrier rs \<noteq> None" "rs_effective rs = Some ''pass''" "\<not> rs_flag_cycle rs"
  shows "\<exists>v. classify_verdict_status L W lanes d work row = Inr v \<and> v_reason v = ''independent_verdict'' \<and>
     norm (v_verdict v) = ''pass''"
  using completion_review_state_Inr [OF assms(1)] assms(2-4) effective_pass_after_barrier
  by (metis review_state_of_simps)

section \<open>A claim is completed once\<close>

lemma complete_once:
  assumes "complete_claim L W lanes art i path kind enforce body source sid actor sys t d = Inr (d', stored)"
  shows "\<exists>e. complete_claim L2 W2 lanes2 art2 i path2 kind2 enforce2 body2 source2 sid2 actor2 sys2 t2 d' = Inl e"
proof (cases "complete_claim L2 W2 lanes2 art2 i path2 kind2 enforce2 body2 source2 sid2 actor2 sys2 t2 d'")
  case (Inr r)
  obtain c where c: "completion_gate L W lanes i path kind enforce sid actor sys t d = Inr (c, stored)"
    "completion_writes lanes art stored kind source body c t d = Inr d'"
    using complete_claim_Inr [OF assms] by blast
  have ci: "claimd d i = Some c" using completion_gate_Inr [OF c(1)] by blast
  then have id: "c_id c = i" using claimd_SomeD by blast
  have "claimd d' i = Some (complete_status c)"
    using completion_writes_result(1) [OF c(2)] ci id by (simp add: claimd_def find_upd_where complete_status_def)
  moreover obtain c2 s2 d2 where "completion_gate L2 W2 lanes2 i path2 kind2 enforce2 sid2 actor2 sys2 t2 d' = Inr (c2, s2)"
    using complete_claim_Inr [of L2 W2 lanes2 art2 i path2 kind2 enforce2 body2 source2 sid2 actor2 sys2 t2 d' "fst r" "snd r"] Inr
    by auto
  ultimately have "lower (strip (c_status (complete_status c))) = ''running''"
    using completion_gate_Inr by fastforce
  moreover have "lower (strip ''completed'') = ''completed''" by code_simp
  ultimately show ?thesis by (simp add: complete_status_def)
qed simp

end
