(* ===== verification/Runs.thy ===== *)
theory Runs
  imports Claims
begin

text \<open>
  Runs and housekeeping (coord_db.py, \<open>prune_terminal\<close> to \<open>finalize_run\<close>): a run appears, is
  refreshed while it is not terminal, is finalised once; old terminal rows are archived.
  Pruning reads its candidates before its transaction opens, so its two halves are separate
  definitions.
\<close>

section \<open>The root of a session\<close>

definition parent_of :: "db \<Rightarrow> string \<Rightarrow> string option" where
  "parent_of d i = (case sess d i of None \<Rightarrow> None | Some s \<Rightarrow> opt_text (otext (s_parent s)))"

fun resolve_root :: "nat \<Rightarrow> db \<Rightarrow> string list \<Rightarrow> string \<Rightarrow> string" where
  "resolve_root 0 d seen cur = cur"
| "resolve_root (Suc n) d seen cur =
     (if cur \<in> set seen then cur
      else case parent_of d cur of None \<Rightarrow> cur | Some p \<Rightarrow> resolve_root n d (cur # seen) p)"

definition resolve_root_session :: "db \<Rightarrow> string \<Rightarrow> string" where
  "resolve_root_session d i = resolve_root 16 d [] i"

section \<open>A run appears\<close>

definition terminal_run_states :: "string list" where
  "terminal_run_states = [''done'', ''failed'', ''error'', ''cancelled'', ''canceled'', ''exhausted'',
     ''success'', ''stale'', ''orphaned'']"

definition run_over :: "run_row \<Rightarrow> bool" where
  "run_over r \<longleftrightarrow> r_state r \<in> set terminal_run_states"

record run_args =
  ra_work :: "string option"
  ra_session :: "string option"
  ra_parent :: "string option"
  ra_kind :: string
  ra_model :: "string option"
  ra_progress :: string
  ra_sidecar :: "string option"
  ra_pid :: "int option"
  ra_pgid :: "int option"
  ra_resource :: "string option"
  ra_pid_started :: "seconds option"
  ra_heartbeat :: "seconds option"
  ra_state :: "string option"

definition observed_state :: "string option \<Rightarrow> string" where
  "observed_state s = (let x = norm s in if x = [] then ''live'' else x)"

text \<open>The arguments once the parent is resolved and the process start time is probed.\<close>

definition resolved_args :: "(int \<Rightarrow> seconds option) \<Rightarrow> db \<Rightarrow> run_args \<Rightarrow> run_args" where
  "resolved_args probe d a =
     a\<lparr>ra_parent := map_option (resolve_root_session d) (ra_parent a),
       ra_pid_started := (case ra_pid_started a of Some q \<Rightarrow> Some q
          | None \<Rightarrow> (case ra_pid a of None \<Rightarrow> None | Some p \<Rightarrow> probe p))\<rparr>"

definition new_run_row :: "string \<Rightarrow> string option \<Rightarrow> run_args \<Rightarrow> seconds \<Rightarrow> run_row" where
  "new_run_row i host a t =
     \<lparr>r_id = i, r_work = ra_work a, r_session = ra_session a, r_parent = ra_parent a, r_kind = ra_kind a,
      r_model = ra_model a, r_progress = ra_progress a, r_sidecar = ra_sidecar a, r_pid = ra_pid a,
      r_pid_started = ra_pid_started a, r_pgid = ra_pgid a, r_resource = ra_resource a, r_host = host,
      r_started = t, r_heartbeat = Some (case ra_heartbeat a of None \<Rightarrow> t | Some h \<Rightarrow> h), r_finished = None,
      r_state = observed_state (ra_state a), r_version = 0\<rparr>"

definition run_refs_ok :: "db \<Rightarrow> run_row \<Rightarrow> bool" where
  "run_refs_ok d r \<longleftrightarrow> (case r_work r of None \<Rightarrow> True | Some w \<Rightarrow> workd d w \<noteq> None) \<and>
     (case r_session r of None \<Rightarrow> True | Some s \<Rightarrow> sess d s \<noteq> None)"

text \<open>With \<open>OR IGNORE\<close> an existing identifier is left alone; a foreign key still fails.\<close>

definition insert_run :: "bool \<Rightarrow> run_row \<Rightarrow> db \<Rightarrow> err + db" where
  "insert_run or_ignore r d =
     (if rund d (r_id r) \<noteq> None then (if or_ignore then Inr d else Inl IntegrityPrimaryKey)
      else if \<not> run_refs_ok d r then Inl IntegrityForeignKey
      else Inr (d\<lparr>d_runs := d_runs d @ [r]\<rparr>))"

definition later_heartbeat :: "seconds option \<Rightarrow> seconds \<Rightarrow> seconds option" where
  "later_heartbeat old h = (case old of Some x \<Rightarrow> if h \<le> x then Some x else Some h | None \<Rightarrow> Some h)"

definition desired_run :: "run_args \<Rightarrow> seconds \<Rightarrow> run_row \<Rightarrow> run_row" where
  "desired_run a t r =
     r\<lparr>r_kind := ra_kind a, r_progress := ra_progress a,
       r_heartbeat := later_heartbeat (r_heartbeat r) (case ra_heartbeat a of None \<Rightarrow> t | Some h \<Rightarrow> h),
       r_finished := None, r_state := observed_state (ra_state a),
       r_work := coalesce (ra_work a) (r_work r), r_session := coalesce (ra_session a) (r_session r),
       r_parent := coalesce (ra_parent a) (r_parent r), r_model := coalesce (ra_model a) (r_model r),
       r_sidecar := (if otext (r_sidecar r) = [] then coalesce (ra_sidecar a) (r_sidecar r) else r_sidecar r),
       r_pid := coalesce (ra_pid a) (r_pid r), r_pid_started := coalesce (ra_pid_started a) (r_pid_started r),
       r_pgid := coalesce (ra_pgid a) (r_pgid r), r_resource := coalesce (ra_resource a) (r_resource r)\<rparr>"

definition refresh_run :: "run_args \<Rightarrow> seconds \<Rightarrow> run_row \<Rightarrow> run_row" where
  "refresh_run a t r =
     (let r' = desired_run a t r in
      if run_over r \<or> r' = r then r else r'\<lparr>r_version := r_version r + 1\<rparr>)"

definition refresh_runs :: "string \<Rightarrow> run_args \<Rightarrow> seconds \<Rightarrow> db \<Rightarrow> err + db" where
  "refresh_runs i a t d =
     (let d' = upd_runs (\<lambda>r. r_id r = i) (refresh_run a t) d in
      if list_all (run_refs_ok d) (filter (\<lambda>r. r_id r = i) (d_runs d')) then Inr d' else Inl IntegrityForeignKey)"

definition appear_run ::
  "(int \<Rightarrow> seconds option) \<Rightarrow> string option \<Rightarrow> string \<Rightarrow> string option \<Rightarrow> run_args \<Rightarrow> seconds \<Rightarrow> db
     \<Rightarrow> err + (db \<times> string)" where
  "appear_run probe host new_id run_id args t d =
     (let i = (case run_id of None \<Rightarrow> new_id | Some r \<Rightarrow> if r = [] then new_id else r);
          a = resolved_args probe d args
      in bindE (insert_run (run_id \<noteq> None) (new_run_row i host a t) d) (\<lambda>d1.
         bindE (if run_id \<noteq> None then refresh_runs i a t d1 else Inr d1) (\<lambda>d2. Inr (d2, i))))"

section \<open>A run ends\<close>

definition finalize_row :: "string \<Rightarrow> seconds \<Rightarrow> run_row \<Rightarrow> run_row" where
  "finalize_row state t r =
     r\<lparr>r_state := (if run_over r then r_state r else state),
       r_finished := (if run_over r \<and> r_finished r \<noteq> None then r_finished r else Some t),
       r_version := (if run_over r \<and> r_finished r \<noteq> None then r_version r else r_version r + 1)\<rparr>"

definition finalize_run :: "string \<Rightarrow> string \<Rightarrow> seconds \<Rightarrow> db \<Rightarrow> db" where
  "finalize_run run_id state t d =
     upd_runs (\<lambda>r. r_id r = run_id \<and> (\<not> run_over r \<or> r_finished r = None)) (finalize_row state t) d"

section \<open>Pruning\<close>

definition prunable :: "seconds \<Rightarrow> work_row \<Rightarrow> bool" where
  "prunable cutoff w \<longleftrightarrow> terminal (w_intent w) \<and> w_archived w = None \<and> w_updated w < cutoff"

definition prune_read :: "seconds \<Rightarrow> seconds \<Rightarrow> db \<Rightarrow> work_row list" where
  "prune_read older_than t d = filter (prunable (t - older_than)) (d_works d)"

definition has_proof :: "db \<Rightarrow> work_row \<Rightarrow> bool" where
  "has_proof d w \<longleftrightarrow> clean (w_done_signal w) \<noteq> [] \<or> clean (w_rubric w) \<noteq> [] \<or>
     list_ex (\<lambda>a. a_work a = Some (w_id w)) (d_artifacts d)"

definition archive_row :: "seconds \<Rightarrow> work_row \<Rightarrow> work_row" where
  "archive_row t w = w\<lparr>w_archived := Some t, w_updated := t, w_version := w_version w + 1\<rparr>"

definition prune_write :: "work_row list \<Rightarrow> seconds \<Rightarrow> db \<Rightarrow> db" where
  "prune_write rows t d = upd_works (\<lambda>w. w_id w \<in> set (map w_id rows) \<and> w_archived w = None) (archive_row t) d"

record prune_report =
  pr_dry :: bool
  pr_scanned :: nat
  pr_archived :: nat
  pr_retained :: nat
  pr_proofless :: nat
  pr_by_state :: "(string \<times> nat) list"

definition count_states :: "work_row list \<Rightarrow> (string \<times> nat) list" where
  "count_states rows = map (\<lambda>s. (s, length (filter (\<lambda>w. w_intent w = s) rows)))
     (rev (remdups (rev (map w_intent rows))))"

definition prune_report_of :: "bool \<Rightarrow> db \<Rightarrow> work_row list \<Rightarrow> prune_report" where
  "prune_report_of dry d rows =
     \<lparr>pr_dry = dry, pr_scanned = length rows, pr_archived = (if dry then 0 else length rows),
      pr_retained = length (filter (has_proof d) rows),
      pr_proofless = length (filter (\<lambda>w. \<not> has_proof d w) rows), pr_by_state = count_states rows\<rparr>"

definition prune_terminal :: "seconds \<Rightarrow> bool \<Rightarrow> seconds \<Rightarrow> seconds \<Rightarrow> db \<Rightarrow> db \<times> prune_report" where
  "prune_terminal older_than dry t t_write d =
     (let rows = prune_read older_than t d in
      (if rows \<noteq> [] \<and> \<not> dry then prune_write rows t_write d else d, prune_report_of dry d rows))"

section \<open>Facts\<close>

lemma resolve_root_hops:
  assumes "hop (parent_of d) n cur = Some r" "parent_of d r = None" "n < m"
    and "\<And>k x. k \<le> n \<Longrightarrow> hop (parent_of d) k cur = Some x \<Longrightarrow> x \<notin> set seen"
    and "\<And>j k. j < k \<Longrightarrow> k \<le> n \<Longrightarrow> hop (parent_of d) j cur \<noteq> hop (parent_of d) k cur"
  shows "resolve_root m d seen cur = r"
  using assms
proof (induction m d seen cur arbitrary: n rule: resolve_root.induct)
  case (1 d seen cur)
  then show ?case by simp
next
  case (2 m d seen cur)
  have cur: "cur \<notin> set seen" using "2.prems"(4) [of 0 cur] by simp
  show ?case
  proof (cases n)
    case 0
    then show ?thesis using "2.prems"(1,2) cur by simp
  next
    case (Suc k)
    then obtain p where p: "parent_of d cur = Some p" "hop (parent_of d) k p = Some r"
      using "2.prems"(1) by (cases "parent_of d cur") auto
    have hp: "hop (parent_of d) (Suc j) cur = hop (parent_of d) j p" for j using p(1) by simp
    have "resolve_root m d (cur # seen) p = r"
    proof (rule "2.IH" [OF cur p(1) p(2) "2.prems"(2)])
      show "k < m" using Suc "2.prems"(3) by simp
      fix j x assume j: "j \<le> k" "hop (parent_of d) j p = Some x"
      have "x \<notin> set seen" using "2.prems"(4) [of "Suc j" x] j Suc hp by simp
      moreover have "x \<noteq> cur" using "2.prems"(5) [of 0 "Suc j"] j Suc hp by auto
      ultimately show "x \<notin> set (cur # seen)" by simp
    next
      fix i j assume "i < j" "j \<le> k"
      then show "hop (parent_of d) i p \<noteq> hop (parent_of d) j p"
        using "2.prems"(5) [of "Suc i" "Suc j"] Suc hp by simp
    qed
    then show ?thesis using cur p(1) by simp
  qed
qed

lemma run_over_simps [simp]: "run_over (finalize_row s t r) = (run_over r \<or> s \<in> set terminal_run_states)"
  by (auto simp: run_over_def finalize_row_def)

lemma refresh_run_simps [simp]: "r_id (refresh_run a t r) = r_id r" "run_over r \<Longrightarrow> refresh_run a t r = r"
  by (simp_all add: refresh_run_def desired_run_def Let_def)

lemma insert_run_Inr:
  "insert_run b r d = Inr d' \<Longrightarrow> d' = d \<and> rund d (r_id r) \<noteq> None \<or>
     (rund d (r_id r) = None \<and> d' = d\<lparr>d_runs := d_runs d @ [r]\<rparr>)"
  by (auto simp: insert_run_def split: if_split_asm)

lemma rund_None_iff: "rund d i = None \<longleftrightarrow> i \<notin> r_id ` set (d_runs d)"
  by (auto simp: rund_def find_None_iff)

lemma wf_insert_run: "wf_db d \<Longrightarrow> insert_run b r d = Inr d' \<Longrightarrow> wf_db d'"
  using insert_run_Inr [of b r d d'] by (auto simp: wf_db_defs rund_None_iff)

lemma refresh_runs_Inr:
  "refresh_runs i a t d = Inr d' \<Longrightarrow> d' = upd_runs (\<lambda>r. r_id r = i) (refresh_run a t) d"
  by (auto simp: refresh_runs_def Let_def split: if_split_asm)

lemma appear_run_Inr:
  assumes "appear_run probe host new_id run_id args t d = Inr (d', i)"
  shows "\<exists>b r d1. insert_run b r d = Inr d1 \<and> (d' = d1 \<or> (\<exists>a. refresh_runs i a t d1 = Inr d'))"
  using assms by (auto simp: appear_run_def Let_def bindE_Inr_iff split: if_split_asm)

lemma wf_appear_run:
  assumes "wf_db d" "appear_run probe host new_id run_id args t d = Inr (d', i)"
  shows "wf_db d'"
proof -
  obtain b r d1 where s: "insert_run b r d = Inr d1" "d' = d1 \<or> (\<exists>a. refresh_runs i a t d1 = Inr d')"
    using appear_run_Inr [OF assms(2)] by blast
  from wf_insert_run [OF assms(1) s(1)] s(2) show ?thesis
    by (auto dest!: refresh_runs_Inr intro: wf_upd_runs)
qed

lemma wf_finalize_run: "wf_db d \<Longrightarrow> wf_db (finalize_run i state t d)"
  by (auto simp: finalize_run_def finalize_row_def intro: wf_upd_runs)

text \<open>A run that is over never changes again once it has an end.\<close>

lemma appear_run_keeps_over:
  assumes "appear_run probe host new_id run_id args t d = Inr (d', i)"
    and "rund d j = Some r" "run_over r"
  shows "rund d' j = Some r"
proof -
  obtain b x d1 where s: "insert_run b x d = Inr d1" "d' = d1 \<or> (\<exists>a. refresh_runs i a t d1 = Inr d')"
    using appear_run_Inr [OF assms(1)] by blast
  have "rund d1 j = Some r"
    using insert_run_Inr [OF s(1)] assms(2) by (auto simp: rund_def find_append)
  then have "rund (upd_runs (\<lambda>r. r_id r = i) (refresh_run a t) d1) j = Some r" for a
    using assms(3) by (simp add: rund_def upd_runs_def find_upd_where)
  with \<open>rund d1 j = Some r\<close> s(2) show ?thesis by (auto dest!: refresh_runs_Inr)
qed

lemma finalize_run_twice:
  assumes "state \<in> set terminal_run_states"
  shows "finalize_run i state' t' (finalize_run i state t d) = finalize_run i state t d"
proof -
  have "upd_where (\<lambda>r. r_id r = i \<and> (\<not> run_over r \<or> r_finished r = None)) (finalize_row state' t')
      (upd_where (\<lambda>r. r_id r = i \<and> (\<not> run_over r \<or> r_finished r = None)) (finalize_row state t) rs) =
    upd_where (\<lambda>r. r_id r = i \<and> (\<not> run_over r \<or> r_finished r = None)) (finalize_row state t) rs" for rs
    using assms by (induction rs) (auto simp: finalize_row_def run_over_def)
  then show ?thesis by (simp add: finalize_run_def upd_runs_def)
qed

lemma archive_row_simps [simp]:
  "w_id (archive_row t w) = w_id w" "w_intent (archive_row t w) = w_intent w"
  "w_done_signal (archive_row t w) = w_done_signal w" "w_rubric (archive_row t w) = w_rubric w"
  by (simp_all add: archive_row_def)

lemma wf_prune: "wf_db d \<Longrightarrow> wf_db (fst (prune_terminal older dry t tw d))"
  by (auto simp: prune_terminal_def prune_write_def Let_def intro: wf_upd_works)

lemma prune_works:
  assumes "keys_ok d"
  shows "d_works (fst (prune_terminal older False t tw d)) =
    upd_where (prunable (t - older)) (archive_row tw) (d_works d)"
proof -
  have same: "w_id w \<in> set (map w_id (prune_read older t d)) \<and> w_archived w = None \<longleftrightarrow> prunable (t - older) w"
    if "w \<in> set (d_works d)" for w
  proof
    assume l: "w_id w \<in> set (map w_id (prune_read older t d)) \<and> w_archived w = None"
    then obtain v where v: "v \<in> set (d_works d)" "prunable (t - older) v" "w_id v = w_id w"
      by (auto simp: prune_read_def)
    have "inj_on w_id (set (d_works d))" using assms by (simp add: keys_ok_def distinct_map)
    then have "v = w" using v(1,3) that by (auto dest: inj_onD)
    with v show "prunable (t - older) w" by simp
  qed (use that in \<open>auto simp: prune_read_def prunable_def\<close>)
  have eq: "upd_where (\<lambda>w. w_id w \<in> set (map w_id (prune_read older t d)) \<and> w_archived w = None) (archive_row tw)
      (d_works d) = upd_where (prunable (t - older)) (archive_row tw) (d_works d)"
    by (rule upd_where_cong) (rule same)
  show ?thesis
  proof (cases "prune_read older t d = []")
    case True
    then have "\<not> prunable (t - older) w" if "w \<in> set (d_works d)" for w
      using that by (simp add: prune_read_def filter_empty_conv)
    then have "upd_where (prunable (t - older)) (archive_row tw) (d_works d) = d_works d"
      by (rule upd_where_none)
    with True show ?thesis by (simp add: prune_terminal_def)
  next
    case False
    then show ?thesis using eq by (simp add: prune_terminal_def prune_write_def Let_def table_simps)
  qed
qed

lemma root_found:
  assumes "hop (parent_of d) n i = Some r" "parent_of d r = None" "n < 16"
  shows "resolve_root_session d i = r"
  unfolding resolve_root_session_def
  by (rule resolve_root_hops [OF assms(1-3)]) (use hop_to_root_distinct [OF assms(1,2)] in auto)

lemma root_within: "\<exists>k \<le> m. hop (parent_of d) k cur = Some (resolve_root m d seen cur)"
proof (induction m d seen cur rule: resolve_root.induct)
  case (2 n d seen cur)
  show ?case
  proof (cases "cur \<in> set seen \<or> parent_of d cur = None")
    case True
    then show ?thesis by (intro exI [of _ 0]) auto
  next
    case False
    then obtain p where p: "cur \<notin> set seen" "parent_of d cur = Some p" by auto
    from "2.IH" [OF p] obtain k where "k \<le> n" "hop (parent_of d) k p = Some (resolve_root n d (cur # seen) p)" by blast
    with p show ?thesis by (intro exI [of _ "Suc k"]) auto
  qed
qed simp

end
