(* ===== verification/Handoff.thy ===== *)
theory Handoff
  imports Events Completion Runs
begin

text \<open>
  Moving a row to another lane (coord_db.py, \<open>_typed_handoff_request\<close> to
  \<open>post_operator_reassignment\<close>): the agent's typed hand-off and the operator's reassignment. Both
  check a bounded request, compare version, assignee and active heads with what the caller
  expects, and write one head that supersedes the heads before it.
\<close>

section \<open>The requests\<close>

record handoff_args =
  ha_work :: string
  ha_actor :: string
  ha_session :: string
  ha_owner :: string
  ha_intent :: string
  ha_task :: string
  ha_why :: string
  ha_acceptance :: string
  ha_refs :: "string list"
  ha_constraints :: "string list"
  ha_operation :: string
  ha_version :: json
  ha_assignee :: string
  ha_heads :: "json list"

definition kept_texts :: "string list \<Rightarrow> string list" where
  "kept_texts xs = filter (\<lambda>s. s \<noteq> []) (map strip xs)"

text \<open>The request as it is checked: every text normalised.\<close>

definition clean_args :: "handoff_args \<Rightarrow> handoff_args" where
  "clean_args a = a\<lparr>ha_work := strip (ha_work a), ha_actor := lower (strip (ha_actor a)),
     ha_session := strip (ha_session a), ha_owner := lower (strip (ha_owner a)),
     ha_intent := lower (strip (ha_intent a)), ha_task := strip (ha_task a), ha_why := strip (ha_why a),
     ha_acceptance := strip (ha_acceptance a), ha_refs := kept_texts (ha_refs a),
     ha_constraints := kept_texts (ha_constraints a), ha_operation := strip (ha_operation a),
     ha_assignee := lower (strip (ha_assignee a))\<rparr>"

definition total_bytes :: "string list \<Rightarrow> nat" where
  "total_bytes xs = sum_list (map length xs)"

definition version_arg :: "json \<Rightarrow> int option" where
  "version_arg j = (case j of JInt v \<Rightarrow> if 0 \<le> v then Some v else None | _ \<Rightarrow> None)"

text \<open>The bounds both requests share.\<close>

definition capsule_checks :: "handoff_args \<Rightarrow> err + (int \<times> int list)" where
  "capsule_checks r =
     (if ha_intent r \<notin> {''queued'', ''blocked''} then Inl (ValueErr ''target_intent'')
      else if \<not> safe_operation_id (ha_operation r) then Inl (ValueErr ''operation_id'')
      else case version_arg (ha_version r) of
          None \<Rightarrow> Inl (ValueErr ''expected_version'')
        | Some v \<Rightarrow>
            (case sorted_ids (JList (ha_heads r)) of
               None \<Rightarrow> Inl (ValueErr ''expected_head_event_ids'')
             | Some heads \<Rightarrow>
                 if 64 < length heads then Inl (ValueErr ''too many heads'')
                 else if ha_task r = [] \<or> ha_why r = [] \<or> ha_acceptance r = [] then Inl (ValueErr ''empty text'')
                 else if 1000 < length (ha_task r) \<or> 2048 < length (ha_why r) \<or> 4096 < length (ha_acceptance r)
                   then Inl (ValueErr ''text too long'')
                 else if 32 < length (ha_refs r) \<or> list_ex (\<lambda>s. 2048 < length s) (ha_refs r) \<or> ha_refs r = [] \<or>
                     4096 < total_bytes (ha_refs r) then Inl (ValueErr ''refs'')
                 else if 16 < length (ha_constraints r) \<or> list_ex (\<lambda>s. 512 < length s) (ha_constraints r) \<or>
                     ha_constraints r = [] \<or> 2048 < total_bytes (ha_constraints r) then Inl (ValueErr ''constraints'')
                 else Inr (v, heads)))"

definition jints :: "int list \<Rightarrow> json" where
  "jints is = JList (map JInt is)"

definition jtexts :: "string list \<Rightarrow> json" where
  "jtexts ss = JList (map JStr ss)"

definition handoff_request :: "handoff_args \<Rightarrow> int \<Rightarrow> int list \<Rightarrow> json" where
  "handoff_request r v heads =
     JObj [(''schema_version'', JInt 2), (''work_id'', JStr (ha_work r)), (''actor'', JStr (ha_actor r)),
       (''session_id'', JStr (ha_session r)), (''owner_lane'', JStr (ha_owner r)),
       (''target_intent'', JStr (ha_intent r)), (''task'', JStr (ha_task r)), (''why'', JStr (ha_why r)),
       (''acceptance'', JStr (ha_acceptance r)), (''refs'', jtexts (ha_refs r)),
       (''constraints'', jtexts (ha_constraints r)), (''operation_id'', JStr (ha_operation r)),
       (''expected_version'', JInt v), (''expected_assignee'', JStr (ha_assignee r)),
       (''expected_head_event_ids'', jints heads)]"

definition typed_handoff_request ::
  "lib \<Rightarrow> string list \<Rightarrow> handoff_args \<Rightarrow> err + (handoff_args \<times> int \<times> int list \<times> string)" where
  "typed_handoff_request L lanes a =
     (let r = clean_args a in
      if ha_work r = [] \<or> 256 < length (ha_work r) then Inl (ValueErr ''work_id'')
      else if ha_actor r \<notin> set lanes \<or> ha_owner r \<notin> set lanes then Inl (ValueErr ''lane'')
      else if ha_actor r = ha_owner r then Inl (ValueErr ''owner_lane must differ'')
      else if ha_session r = [] then Inl (ValueErr ''session_id'')
      else if \<not> session_actor_ok (ha_session r) (ha_actor r) then Inl (ActorMismatch (ha_session r) (ha_actor r))
      else if expected_actor_for_session_id (ha_session r) \<noteq> Some (ha_actor r) then Inl (ValueErr ''session namespace'')
      else if ha_assignee r \<noteq> ha_actor r then Inl (ValueErr ''expected_assignee'')
      else bindE (capsule_checks r) (\<lambda>(v, heads).
        if 12000 < length (dumps L (handoff_request r v heads)) then Inl (ValueErr ''request too long'')
        else Inr (r, v, heads, digest L (handoff_request r v heads))))"

definition reassignment_request :: "handoff_args \<Rightarrow> bool \<Rightarrow> int \<Rightarrow> int list \<Rightarrow> json" where
  "reassignment_request r release v heads =
     JObj [(''schema_version'', JInt 1), (''writer_contract'', JStr ''operator_reassignment_request.v1''),
       (''authority_channel'', JStr operator_authority_channel), (''work_id'', JStr (ha_work r)),
       (''owner_lane'', JStr (ha_owner r)), (''target_intent'', JStr (ha_intent r)), (''task'', JStr (ha_task r)),
       (''why'', JStr (ha_why r)), (''acceptance'', JStr (ha_acceptance r)), (''refs'', jtexts (ha_refs r)),
       (''constraints'', jtexts (ha_constraints r)), (''operation_id'', JStr (ha_operation r)),
       (''expected_version'', JInt v), (''expected_assignee'', JStr (ha_assignee r)),
       (''expected_head_event_ids'', jints heads), (''release_held_claim'', JBool release)]"

definition operator_reassignment_request ::
  "lib \<Rightarrow> string list \<Rightarrow> handoff_args \<Rightarrow> bool \<Rightarrow> err + (handoff_args \<times> int \<times> int list \<times> string)" where
  "operator_reassignment_request L lanes a release =
     (let r = clean_args a in
      if ha_work r = [] \<or> 256 < length (ha_work r) then Inl (ValueErr ''work_id'')
      else if ha_owner r \<notin> set lanes \<or> ha_assignee r \<notin> set lanes then Inl (ValueErr ''lane'')
      else if ha_owner r = ha_assignee r then Inl (ValueErr ''owner_lane must differ'')
      else if release then Inl (ValueErr ''release_held_claim'')
      else bindE (capsule_checks r) (\<lambda>(v, heads).
        if 12000 < length (dumps L (reassignment_request r release v heads)) then Inl (ValueErr ''request too long'')
        else Inr (r, v, heads, digest L (reassignment_request r release v heads))))"

section \<open>The receipt\<close>

definition inline_bytes :: nat where
  "inline_bytes = 512"

definition postimage_row :: "work_row \<Rightarrow> pyrow" where
  "postimage_row w =
     [(''acceptance_json'', JStr (w_acceptance w)), (''assigned_by'', field (row_dict w) ''assigned_by''),
      (''assignee'', jopt (w_assignee w)), (''done_signal'', jopt (w_done_signal w)),
      (''intent_state'', JStr (w_intent w)), (''note'', jopt (w_note w)), (''rubric_verdict'', jopt (w_rubric w)),
      (''title'', JStr (w_title w)), (''updated_at'', JFloat (w_updated w)), (''version'', JInt (w_version w)),
      (''work_id'', JStr (w_id w))]"

definition work_postimage :: "lib \<Rightarrow> pyrow \<Rightarrow> pyrow \<times> pyrow" where
  "work_postimage L work =
     (let items = sort_key fst work; short = (\<lambda>kv. length (dumps L (snd kv)) \<le> inline_bytes) in
      (filter short items,
       [(''work_postimage_sha256'', JStr (digest L (JObj work))),
        (''work_postimage_bytes'', JInt (int (length (dumps L (JObj work))))),
        (''work_postimage_omitted_fields'', JObj (map (\<lambda>kv. (fst kv,
           JObj [(''bytes'', JInt (int (length (dumps L (snd kv))))), (''sha256'', JStr (digest L (snd kv)))]))
           (filter (\<lambda>kv. \<not> short kv) items)))]))"

record handoff_result =
  hr_event :: int
  hr_superseded :: "int list"
  hr_work :: pyrow
  hr_meta :: pyrow
  hr_active :: bool
  hr_superseded_by :: "int option"
  hr_quarantined :: "int list"
  hr_replayed :: bool

definition typed_handoff_key :: "handoff_args \<Rightarrow> string" where
  "typed_handoff_key r = ''typed-handoff:'' @ ha_actor r @ '':'' @ ha_operation r"

definition all_ints :: "json \<Rightarrow> int list option" where
  "all_ints j = (case j of
       JList xs \<Rightarrow> if list_all (\<lambda>x. case x of JInt _ \<Rightarrow> True | _ \<Rightarrow> False) xs then Some (map int_or_zero xs) else None
     | _ \<Rightarrow> None)"

definition receipt_meta_ok :: "json \<Rightarrow> bool" where
  "receipt_meta_ok receipt \<longleftrightarrow>
     (case jget receipt ''work_postimage_sha256'' of JStr _ \<Rightarrow> True | _ \<Rightarrow> False) \<and>
     is_int_value (jget receipt ''work_postimage_bytes'') \<and> is_jobj (jget receipt ''work_postimage_omitted_fields'')"

definition receipt_meta :: "json \<Rightarrow> pyrow" where
  "receipt_meta receipt = map (\<lambda>k. (k, jget receipt k))
     [''work_postimage_sha256'', ''work_postimage_bytes'', ''work_postimage_omitted_fields'']"

text \<open>What a repeated request answers, from the receipt stored in the event it wrote.\<close>

definition replayed_result :: "lib \<Rightarrow> string \<Rightarrow> event_row \<Rightarrow> pyrow \<Rightarrow> pyrow \<Rightarrow> int list \<Rightarrow> db \<Rightarrow> handoff_result" where
  "replayed_result L work_id e work meta superseded d =
     (let st = typed_handoff_head_state L d work_id in
      \<lparr>hr_event = e_id e, hr_superseded = superseded, hr_work = work, hr_meta = meta,
       hr_active = (e_id e \<in> set (hs_active st)), hr_superseded_by = superseded_by (hs_links st) (e_id e),
       hr_quarantined = hs_quarantined st, hr_replayed = True\<rparr>)"

definition typed_handoff_replay ::
  "lib \<Rightarrow> handoff_args \<Rightarrow> string \<Rightarrow> event_row \<Rightarrow> db \<Rightarrow> err + (db \<times> handoff_result)" where
  "typed_handoff_replay L r sha e d =
     (let receipt = jget (e_payload e) ''operation_receipt'' in
      if e_kind e \<noteq> ''handoff'' \<or> otext (e_work e) \<noteq> ha_work r \<or> otext (e_to e) \<noteq> ''actor:'' @ ha_owner r \<or>
         \<not> is_jobj receipt \<or> str_or_empty L (jget receipt ''request_sha256'') \<noteq> sha
      then Inl (ValueErr ''operation_id was used for a different request'')
      else case (jget receipt ''work_postimage'', all_ints (jget receipt ''superseded_event_ids'')) of
          (JObj post, Some superseded) \<Rightarrow>
            (let (work, meta) = (if receipt_meta_ok receipt then (post, receipt_meta receipt) else work_postimage L post)
             in Inr (d, replayed_result L (ha_work r) e work meta superseded d))
        | _ \<Rightarrow> Inl (ValueErr ''receipt is malformed''))"

section \<open>The typed hand-off\<close>

definition proof_artifact :: "string \<Rightarrow> artifact_row \<Rightarrow> bool" where
  "proof_artifact work_id a \<longleftrightarrow> a_work a = Some work_id \<and> otext (a_kind a) \<noteq> ''context_pack''"

definition handoff_guards ::
  "lib \<Rightarrow> proofs \<Rightarrow> handoff_args \<Rightarrow> int \<Rightarrow> int list \<Rightarrow> work_row \<Rightarrow> db \<Rightarrow> err + unit" where
  "handoff_guards L W r v heads w d =
     (let declared = clean (w_done_signal w);
          awaits_t0 = (upper (clean (w_tier w)) = ''T0'' \<and> clean (w_rubric w) = [])
      in if declared = [] then Inl (ValueErr ''done_signal'')
         else if closed_row w then Inl (TerminalWork (ha_work r))
         else if done_signal_satisfied W d declared \<and> \<not> awaits_t0 then Inl (ProofRefused ''proof already resolves'')
         else if list_ex (proof_artifact (ha_work r)) (d_artifacts d) then Inl (ProofRefused ''completion artifact'')
         else if list_ex (active_run (ha_work r)) (d_runs d) then Inl (ActiveRunRefused (ha_work r))
         else if w_version w \<noteq> v then Inl (CasFailed ''version'')
         else if norm (w_assignee w) \<noteq> ha_actor r then Inl (CasFailed ''assignee'')
         else if hs_active (typed_handoff_head_state L d (ha_work r)) \<noteq> heads then Inl (CasFailed ''heads'')
         else Inr ())"

text \<open>The claims of the row still held, in the order they were acquired.\<close>

definition live_claims :: "string \<Rightarrow> seconds \<Rightarrow> db \<Rightarrow> claim_row list" where
  "live_claims work_id t d =
     sort_key (\<lambda>c. (c_acquired c, c_id c)) (filter (live_held t work_id) (d_claims d))"

definition handoff_preconditions :: "handoff_args \<Rightarrow> int \<Rightarrow> int list \<Rightarrow> json" where
  "handoff_preconditions r v heads =
     JObj [(''expected_version'', JInt v), (''expected_assignee'', JStr (ha_assignee r)),
       (''expected_head_event_ids'', jints heads)]"

definition handoff_payload ::
  "lib \<Rightarrow> handoff_args \<Rightarrow> int \<Rightarrow> int list \<Rightarrow> string \<Rightarrow> work_row \<Rightarrow> int list \<Rightarrow> pyrow" where
  "handoff_payload L r v heads sha w superseded =
     (let (work, meta) = work_postimage L (postimage_row w) in
      [(''schema_version'', JInt 2), (''writer_contract'', JStr ''existing_work_handoff.v2''),
       (''task'', JStr (ha_task r)), (''why'', JStr (ha_why r)), (''acceptance'', JStr (ha_acceptance r)),
       (''constraints'', jtexts (ha_constraints r)), (''refs'', jtexts (ha_refs r)),
       (''done_signal_source'', JStr ''existing_coord_work_row''), (''operation_id'', JStr (ha_operation r)),
       (''operation_request_sha256'', JStr sha), (''preconditions'', handoff_preconditions r v heads),
       (''operation_receipt'', JObj ([(''request_sha256'', JStr sha), (''work_postimage'', JObj work)] @ meta @
          [(''superseded_event_ids'', jints superseded)]))])"

definition handoff_event :: "handoff_args \<Rightarrow> pyrow \<Rightarrow> seconds \<Rightarrow> event_row" where
  "handoff_event r payload t =
     blank_event\<lparr>e_ts := t, e_kind := ''handoff'', e_actor := Some (ha_actor r), e_session := Some (ha_session r),
       e_to := Some (''actor:'' @ ha_owner r), e_work := Some (ha_work r), e_trust := ''agent'',
       e_refs := jtexts (ha_refs r), e_payload := JObj payload, e_key := Some (typed_handoff_key r)\<rparr>"

definition handoff_supersession :: "handoff_args \<Rightarrow> int \<Rightarrow> seconds \<Rightarrow> int \<Rightarrow> event_row" where
  "handoff_supersession r by_id t i =
     blank_event\<lparr>e_ts := t, e_kind := ''handoff_superseded'', e_actor := Some (ha_actor r),
       e_session := Some (ha_session r), e_to := Some (''actor:'' @ ha_owner r), e_work := Some (ha_work r),
       e_trust := ''agent'', e_refs := JList [event_ref i],
       e_payload := JObj [(''by_event_id'', JInt by_id), (''reason'', JStr ''new typed global assignment head''),
         (''schema_version'', JInt 1), (''supersedes'', JInt i)],
       e_key := Some (key_of_pair ''typed-handoff-supersede'' by_id i)\<rparr>"

fun insert_events :: "event_row list \<Rightarrow> db \<Rightarrow> err + db" where
  "insert_events [] d = Inr d"
| "insert_events (e # es) d = bindE (insert_event e d) (\<lambda>(d1, _). insert_events es d1)"

definition release_own :: "string list \<Rightarrow> string \<Rightarrow> db \<Rightarrow> db" where
  "release_own ids reason d = upd_claims (\<lambda>c. c_id c \<in> set ids) (release_status ''released'' (Some reason)) d"

definition handoff_writes ::
  "lib \<Rightarrow> string list \<Rightarrow> handoff_args \<Rightarrow> int \<Rightarrow> int list \<Rightarrow> string \<Rightarrow> head_state \<Rightarrow> seconds \<Rightarrow> db
     \<Rightarrow> err + (db \<times> handoff_result)" where
  "handoff_writes L lanes r v heads sha st t d0 =
     (let d = fst (release_expired_claims_unlocked t (Some (ha_work r)) d0);
          held = live_claims (ha_work r) t d;
          family = related_session_ids lanes d (ha_session r) (Some (ha_actor r));
          mine = (\<lambda>c. c_session c \<in> set (if family = [] then [ha_session r] else family))
      in if list_ex (\<lambda>c. \<not> mine c) held then Inl (HeldClaimRefused (ha_work r))
         else bindE (upsert_work_unlocked L False (ha_work r)
                [F_other ''assigned_by'' (CText (ha_actor r)), F_assignee (Some (ha_owner r)), F_intent (ha_intent r)] t
                (release_own (map c_id (filter mine held)) ''typed cross-agent handoff closes caller ownership epoch'' d))
          (\<lambda>(d2, _). case workd d2 (ha_work r) of
             None \<Rightarrow> Inl (UnknownWork (ha_work r))
           | Some w2 \<Rightarrow>
               let superseded = hs_active st; (work, meta) = work_postimage L (postimage_row w2) in
               bindE (compact_event_payload L (handoff_payload L r v heads sha w2 superseded) (Some (postimage_row w2))) (\<lambda>payload.
               bindE (insert_event (handoff_event r payload t) d2) (\<lambda>(d3, i).
               bindE (insert_events (map (handoff_supersession r i t) superseded) d3) (\<lambda>d4.
                 Inr (d4, \<lparr>hr_event = i, hr_superseded = superseded, hr_work = work, hr_meta = meta, hr_active = True,
                   hr_superseded_by = None, hr_quarantined = hs_quarantined st, hr_replayed = False\<rparr>))))))"

definition post_existing_work_handoff ::
  "lib \<Rightarrow> proofs \<Rightarrow> string list \<Rightarrow> handoff_args \<Rightarrow> seconds \<Rightarrow> db \<Rightarrow> err + (db \<times> handoff_result)" where
  "post_existing_work_handoff L W lanes a t d =
     bindE (typed_handoff_request L lanes a) (\<lambda>(r, v, heads, sha).
       case event_by_key d (typed_handoff_key r) of
         Some e \<Rightarrow> typed_handoff_replay L r sha e d
       | None \<Rightarrow>
           (case workd d (ha_work r) of
              None \<Rightarrow> Inl (UnknownWork (ha_work r))
            | Some w \<Rightarrow>
                bindE (handoff_guards L W r v heads w d) (\<lambda>_.
                  handoff_writes L lanes r v heads sha (typed_handoff_head_state L d (ha_work r)) t d)))"

definition lookup_existing_work_handoff_replay ::
  "lib \<Rightarrow> string list \<Rightarrow> handoff_args \<Rightarrow> db \<Rightarrow> err + handoff_result option" where
  "lookup_existing_work_handoff_replay L lanes a d =
     bindE (typed_handoff_request L lanes a) (\<lambda>(r, v, heads, sha).
       case event_by_key d (typed_handoff_key r) of
         None \<Rightarrow> Inr None
       | Some e \<Rightarrow> bindE (typed_handoff_replay L r sha e d) (\<lambda>(_, res). Inr (Some res)))"

section \<open>The operator's reassignment\<close>

definition operator_key :: "handoff_args \<Rightarrow> string" where
  "operator_key r = ''operator-reassignment:'' @ ha_operation r"

definition receipt_contract :: string where
  "receipt_contract = ''operator_reassignment_receipt.v1''"

definition operator_preconditions :: "handoff_args \<Rightarrow> int \<Rightarrow> int list \<Rightarrow> json" where
  "operator_preconditions r v heads =
     JObj [(''expected_version'', JInt v), (''expected_assignee'', JStr (ha_assignee r)),
       (''expected_head_event_ids'', jints heads), (''release_held_claim'', JBool False)]"

definition operator_capsule :: "handoff_args \<Rightarrow> string \<Rightarrow> pyrow" where
  "operator_capsule r sha =
     [(''task'', JStr (ha_task r)), (''why'', JStr (ha_why r)), (''acceptance'', JStr (ha_acceptance r)),
      (''constraints'', jtexts (ha_constraints r)), (''refs'', jtexts (ha_refs r)),
      (''operation_id'', JStr (ha_operation r)), (''operation_request_sha256'', JStr sha)]"

definition same_reassignment :: "handoff_args \<Rightarrow> int \<Rightarrow> int list \<Rightarrow> string \<Rightarrow> event_row \<Rightarrow> bool" where
  "same_reassignment r v heads sha e \<longleftrightarrow>
     e_kind e = ''handoff'' \<and> otext (e_actor e) = ''operator'' \<and> otext (e_session e) = [] \<and>
     otext (e_work e) = ha_work r \<and> otext (e_to e) = ''actor:'' @ ha_owner r \<and> e_trust e = ''system'' \<and>
     strict_json_list (e_refs e) = Some (map JStr (ha_refs r)) \<and>
     (case strict_json_mapping (e_payload e) of
        None \<Rightarrow> False
      | Some p \<Rightarrow>
          json_eq_int (field p ''schema_version'') 1 \<and> field p ''writer_contract'' = JStr operator_contract \<and>
          field p ''authority_channel'' = JStr operator_authority_channel \<and>
          list_all (\<lambda>kv. jeq (field p (fst kv)) (snd kv)) (operator_capsule r sha) \<and>
          jeq (field p ''preconditions'') (operator_preconditions r v heads) \<and>
          is_jobj (field p ''operation_receipt'') \<and>
          json_eq_int (jget (field p ''operation_receipt'') ''schema_version'') 1 \<and>
          jget (field p ''operation_receipt'') ''writer_contract'' = JStr receipt_contract \<and>
          jget (field p ''operation_receipt'') ''authority_channel'' = JStr operator_authority_channel \<and>
          jget (field p ''operation_receipt'') ''request_sha256'' = JStr sha)"

definition released_ids_ok :: "json \<Rightarrow> bool" where
  "released_ids_ok j = (case j of
       JList xs \<Rightarrow> length xs \<le> 1 \<and> list_all (\<lambda>x. case x of JStr s \<Rightarrow> s \<noteq> [] | _ \<Rightarrow> False) xs
     | _ \<Rightarrow> False)"

definition operator_replay ::
  "lib \<Rightarrow> handoff_args \<Rightarrow> int \<Rightarrow> int list \<Rightarrow> string \<Rightarrow> event_row \<Rightarrow> db \<Rightarrow> err + (db \<times> handoff_result)" where
  "operator_replay L r v heads sha e d =
     (let receipt = jget (e_payload e) ''operation_receipt'' in
      if \<not> same_reassignment r v heads sha e then Inl (ValueErr ''operation_id was used for a different request'')
      else case (jget receipt ''work_postimage'', sorted_ids (jget receipt ''superseded_event_ids'')) of
          (JObj post, Some superseded) \<Rightarrow>
            if 64 < length superseded \<or> \<not> released_ids_ok (jget receipt ''released_claim_ids'') \<or>
               \<not> receipt_meta_ok receipt \<or> \<not> is_sha_text (jtext (jget receipt ''work_postimage_sha256''))
            then Inl (ValueErr ''receipt is malformed'')
            else Inr (d, replayed_result L (ha_work r) e post (receipt_meta receipt) superseded d)
        | _ \<Rightarrow> Inl (ValueErr ''receipt is malformed''))"

definition open_run :: "string \<Rightarrow> run_row \<Rightarrow> bool" where
  "open_run work_id x \<longleftrightarrow> r_work x = Some work_id \<and> r_state x \<notin> set terminal_run_states"

definition reassignment_guards ::
  "lib \<Rightarrow> proofs \<Rightarrow> handoff_args \<Rightarrow> int \<Rightarrow> int list \<Rightarrow> work_row \<Rightarrow> db \<Rightarrow> err + unit" where
  "reassignment_guards L W r v heads w d =
     (let declared = clean (w_done_signal w) in
      if declared = [] then Inl (ValueErr ''done_signal'')
      else if closed_row w then Inl (TerminalWork (ha_work r))
      else if done_signal_satisfied W d declared then Inl (ProofRefused ''proof already resolves'')
      else if list_ex (proof_artifact (ha_work r)) (d_artifacts d) then Inl (ProofRefused ''completion artifact'')
      else if list_ex (open_run (ha_work r)) (d_runs d) then Inl (ActiveRunRefused (ha_work r))
      else if w_version w \<noteq> v then Inl (CasFailed ''version'')
      else if norm (w_assignee w) \<noteq> ha_assignee r then Inl (CasFailed ''assignee'')
      else if hs_active (typed_handoff_head_state L d (ha_work r)) \<noteq> heads then Inl (CasFailed ''heads'')
      else Inr ())"

definition reassigned :: "handoff_args \<Rightarrow> seconds \<Rightarrow> work_row \<Rightarrow> work_row" where
  "reassigned r t w =
     (apply_fields [F_other ''assigned_by'' (CText ''operator''), F_assignee (Some (ha_owner r)), F_intent (ha_intent r)] w)
       \<lparr>w_updated := t, w_version := w_version w + 1\<rparr>"

definition reassigns :: "handoff_args \<Rightarrow> int \<Rightarrow> work_row \<Rightarrow> bool" where
  "reassigns r v w \<longleftrightarrow> w_id w = ha_work r \<and> w_version w = v \<and> w_assignee w = Some (ha_assignee r) \<and> w_archived w = None"

definition operator_payload ::
  "lib \<Rightarrow> handoff_args \<Rightarrow> int \<Rightarrow> int list \<Rightarrow> string \<Rightarrow> work_row \<Rightarrow> int list \<Rightarrow> pyrow" where
  "operator_payload L r v heads sha w superseded =
     (let (work, meta) = work_postimage L (postimage_row w) in
      [(''schema_version'', JInt 1), (''writer_contract'', JStr operator_contract),
       (''authority_channel'', JStr operator_authority_channel)] @ operator_capsule r sha @
      [(''done_signal_source'', JStr ''existing_coord_work_row''),
       (''preconditions'', operator_preconditions r v heads),
       (''operation_receipt'', JObj ([(''schema_version'', JInt 1), (''writer_contract'', JStr receipt_contract),
          (''authority_channel'', JStr operator_authority_channel), (''request_sha256'', JStr sha),
          (''work_postimage'', JObj work)] @ meta @
          [(''superseded_event_ids'', jints superseded), (''released_claim_ids'', JList [])]))])"

definition operator_event :: "handoff_args \<Rightarrow> pyrow \<Rightarrow> seconds \<Rightarrow> event_row" where
  "operator_event r payload t =
     blank_event\<lparr>e_ts := t, e_kind := ''handoff'', e_actor := Some ''operator'', e_session := None,
       e_to := Some (''actor:'' @ ha_owner r), e_work := Some (ha_work r), e_trust := ''system'',
       e_title := Some ''Operator reassignment'',
       e_body := Some ''Resident controller reassigned canonical work ownership.'',
       e_refs := jtexts (ha_refs r), e_payload := JObj payload, e_key := Some (operator_key r)\<rparr>"

definition operator_supersession :: "handoff_args \<Rightarrow> int \<Rightarrow> seconds \<Rightarrow> int \<Rightarrow> event_row" where
  "operator_supersession r by_id t i =
     blank_event\<lparr>e_ts := t, e_kind := ''handoff_superseded'', e_actor := Some ''operator'', e_session := None,
       e_to := Some (''actor:'' @ ha_owner r), e_work := Some (ha_work r), e_trust := ''system'',
       e_refs := JList [event_ref i],
       e_payload := JObj [(''by_event_id'', JInt by_id),
         (''reason'', JStr ''operator reassignment replaced the active assignment head''), (''schema_version'', JInt 1),
         (''supersedes'', JInt i), (''writer_contract'', JStr ''operator_reassignment_supersession.v1'')],
       e_key := Some (key_of_pair ''operator-reassignment-supersede'' by_id i)\<rparr>"

definition reassignment_writes ::
  "lib \<Rightarrow> handoff_args \<Rightarrow> int \<Rightarrow> int list \<Rightarrow> string \<Rightarrow> head_state \<Rightarrow> seconds \<Rightarrow> db \<Rightarrow> err + (db \<times> handoff_result)" where
  "reassignment_writes L r v heads sha st t d0 =
     (let d = fst (release_expired_claims_unlocked t (Some (ha_work r)) d0) in
      if live_claims (ha_work r) t d \<noteq> [] then Inl (HeldClaimRefused (ha_work r))
      else if row_count (reassigns r v) (d_works d) \<noteq> 1 then Inl (CasFailed ''work row'')
      else let d2 = upd_works (reassigns r v) (reassigned r t) d in
        case workd d2 (ha_work r) of
          None \<Rightarrow> Inl (UnknownWork (ha_work r))
        | Some w2 \<Rightarrow>
            let superseded = hs_active st; (work, meta) = work_postimage L (postimage_row w2) in
            bindE (insert_event (operator_event r (operator_payload L r v heads sha w2 superseded) t) d2) (\<lambda>(d3, i).
            bindE (insert_events (map (operator_supersession r i t) superseded) d3) (\<lambda>d4.
              let final = typed_handoff_head_state L d4 (ha_work r) in
              if i \<notin> set (hs_active final) \<or> list_ex (\<lambda>p. p \<in> set (hs_active final)) superseded
              then Inl (CasFailed ''head receipt'')
              else Inr (d4, \<lparr>hr_event = i, hr_superseded = superseded, hr_work = work, hr_meta = meta, hr_active = True,
                hr_superseded_by = None, hr_quarantined = hs_quarantined final, hr_replayed = False\<rparr>))))"

definition post_operator_reassignment ::
  "lib \<Rightarrow> proofs \<Rightarrow> string list \<Rightarrow> handoff_args \<Rightarrow> bool \<Rightarrow> bool \<Rightarrow> seconds \<Rightarrow> db \<Rightarrow> err + (db \<times> handoff_result)" where
  "post_operator_reassignment L W lanes a release capability t d =
     (if \<not> capability then Inl (ValueErr ''resident-controller capability'')
      else bindE (operator_reassignment_request L lanes a release) (\<lambda>(r, v, heads, sha).
        case event_by_key d (operator_key r) of
          Some e \<Rightarrow> operator_replay L r v heads sha e d
        | None \<Rightarrow>
            (case workd d (ha_work r) of
               None \<Rightarrow> Inl (UnknownWork (ha_work r))
             | Some w \<Rightarrow>
                 bindE (reassignment_guards L W r v heads w d) (\<lambda>_.
                   reassignment_writes L r v heads sha (typed_handoff_head_state L d (ha_work r)) t d))))"

end
