(* ===== verification/Requests.thy ===== *)
theory Requests
  imports Handoff
begin

text \<open>
  The remaining writers of coord_db.py that move reviews and rows on: the request for a review that a
  completion needs (\<open>request_completion_review_if_needed\<close>), the close of a review nobody needs any
  more (\<open>close_review_as_policy_moot\<close>), the sweep that reopens done rows whose proof says otherwise
  (\<open>reopen_done_signal_status_mismatches\<close>), and the transitions the controller makes
  (\<open>archive_projection_work_if_unowned\<close>, \<open>apply_controller_work_transition\<close>,
  \<open>apply_legacy_handoff_work\<close>, \<open>store_artifact\<close>).
\<close>

section \<open>Asking for a review\<close>

record review_ask =
  rk_event :: int
  rk_work :: string
  rk_author :: string
  rk_lane :: string
  rk_at :: "seconds option"
  rk_superseded :: "int list"
  rk_replayed :: bool

text \<open>The lane of the author: what the session's identifier says and what it is registered as.\<close>

definition ask_author :: "string list \<Rightarrow> db \<Rightarrow> claim_row \<Rightarrow> err + string" where
  "ask_author lanes d c =
     (let named = otext (expected_actor_for_session_id (c_session c));
          registered = lane_or_empty lanes (norm (map_option s_actor (sess d (c_session c))));
          author = (if named \<noteq> [] then named else registered)
      in if named \<noteq> [] \<and> registered \<noteq> [] \<and> named \<noteq> registered then Inl (ReviewPolicy ''contradictory author identity'')
         else if author \<notin> set lanes then Inl (ReviewPolicy ''no unambiguous author lane'')
         else Inr author)"

definition ask_row :: "db \<Rightarrow> claim_row \<Rightarrow> work_row \<Rightarrow> pyrow" where
  "ask_row d c w =
     [(''work_id'', JStr (c_work c)), (''session_id'', JStr (c_session c)), (''status'', JStr (c_status c)),
      (''actor'', jopt (map_option s_actor (sess d (c_session c)))), (''done_signal'', jopt (w_done_signal w)),
      (''acceptance_json'', JStr (w_acceptance w)), (''rubric_verdict'', jopt (w_rubric w)),
      (''completion_requested_at'', (case map_of (w_other w) ''completion_requested_at'' of None \<Rightarrow> JNull | Some v \<Rightarrow> jcell v)),
      (''title'', JStr (w_title w)), (''tier'', jopt (w_tier w)), (''kind'', jopt (w_kind w)),
      (''module'', jopt (w_module w)), (''sublane'', jopt (w_sublane w)),
      (''context_pack_ref'', jopt (w_context w)), (''depends_on'', jopt (w_depends w)),
      (''assignee'', jopt (w_assignee w)), (''version'', JInt (w_version w)),
      (''operator_ok_event_id'', jint (w_op_ok w)), (''tier_correction_event_id'', jint (w_tier_corr w))]"

definition recent_artifacts :: "db \<Rightarrow> string \<Rightarrow> json list" where
  "recent_artifacts d work =
     map (\<lambda>a. JObj [(''path'', JStr (a_path a)), (''kind'', JStr (otext (a_kind a)))])
       (take 20 (rev (sort_key (\<lambda>a. (a_created a, a_id a)) (filter (\<lambda>a. a_work a = Some work) (d_artifacts d)))))"

definition add_ref :: "lib \<Rightarrow> json \<Rightarrow> string list \<Rightarrow> string list" where
  "add_ref L j out = (let r = strip (str_or_empty L j) in if 32 \<le> length out \<or> r = [] \<or> r \<in> set out then out else out @ [r])"

definition recent_refs :: "lib \<Rightarrow> db \<Rightarrow> string \<Rightarrow> string list" where
  "recent_refs L d work =
     fold (add_ref L) (concat (map (\<lambda>e. case e_refs e of JList xs \<Rightarrow> xs | _ \<Rightarrow> [])
       (take 20 (rev (events_of d work))))) []"

definition ask_evidence :: "lib \<Rightarrow> proofs \<Rightarrow> db \<Rightarrow> work_row \<Rightarrow> string \<Rightarrow> json" where
  "ask_evidence L W d w work =
     (let signal = clean (w_done_signal w) in
      JObj [(''done_signal'', opt_json signal),
        (''done_signal_exists'', JBool (signal \<noteq> [] \<and> done_signal_satisfied W d signal)),
        (''artifacts'', JList (recent_artifacts d work)), (''event_refs'', JList (map JStr (recent_refs L d work)))])"

definition ask_payload ::
  "lib \<Rightarrow> proofs \<Rightarrow> db \<Rightarrow> claim_row \<Rightarrow> work_row \<Rightarrow> string \<Rightarrow> string \<Rightarrow> review_state \<Rightarrow> json" where
  "ask_payload L W d c w author lane rs =
     (let raw = strip (w_acceptance w) in
      JObj [(''schema_version'', JInt 1), (''sla_s'', JInt 1800), (''request_kind'', JStr ''completion_review''),
        (''task'', JStr (''Independently review T0 completion for '' @ c_work c @ '': '' @
           strip (if w_title w = [] then c_work c else w_title w))),
        (''why'', JStr ''The T0 effect tier requires an opposite-lane verdict before the author claim may complete.''),
        (''acceptance'', JStr raw),
        (''constraints'', JList [JStr ''Post the verdict on the existing author work row; do not create a sibling review row.'',
           JStr ''Same-lane PASS remains forbidden.'']),
        (''claim_id'', JStr (c_id c)), (''work_id'', JStr (c_work c)), (''author_lane'', JStr author),
        (''review_lane'', JStr lane), (''effective_tier'', JStr (rs_tier rs)),
        (''tier_reasons'', JList (map JStr (rs_reasons rs))),
        (''acceptance_echo'', (case loads L (if raw = [] then ''[]'' else raw) of None \<Rightarrow> JStr raw | Some j \<Rightarrow> j)),
        (''evidence_manifest'', ask_evidence L W d w (c_work c))])"

definition ask_key :: "string \<Rightarrow> string" where
  "ask_key claim_id = ''completion-review:'' @ claim_id"

definition ask_event ::
  "lib \<Rightarrow> proofs \<Rightarrow> db \<Rightarrow> claim_row \<Rightarrow> work_row \<Rightarrow> string \<Rightarrow> string \<Rightarrow> review_state \<Rightarrow> seconds \<Rightarrow> event_row" where
  "ask_event L W d c w author lane rs t =
     (let signal = clean (w_done_signal w) in
      blank_event\<lparr>e_ts := t, e_kind := ''audit_request'', e_actor := Some author, e_session := Some (c_session c),
        e_to := Some (''actor:'' @ lane), e_work := Some (c_work c),
        e_title := Some (''Review completion request for '' @ c_work c),
        e_body := Some ''T0 effect tier requires an opposite-lane verdict before completion.'',
        e_refs := JList (map JStr (take 32 ((if signal = [] then [] else [signal]) @ recent_refs L d (c_work c)))),
        e_payload := ask_payload L W d c w author lane rs, e_key := Some (ask_key (c_id c))\<rparr>)"

definition await_review :: "seconds \<Rightarrow> work_row \<Rightarrow> work_row" where
  "await_review t w =
     (apply_fields [F_reason (Some ''awaiting_review''), F_other ''completion_requested_at'' (CReal t)] w)
       \<lparr>w_updated := t, w_version := w_version w + 1\<rparr>"

definition ask_writes ::
  "lib \<Rightarrow> proofs \<Rightarrow> claim_row \<Rightarrow> work_row \<Rightarrow> string \<Rightarrow> string \<Rightarrow> review_state \<Rightarrow> seconds \<Rightarrow> db \<Rightarrow> err + (db \<times> review_ask)" where
  "ask_writes L W c w author lane rs t d =
     bindE (insert_event (ask_event L W d c w author lane rs t) (upd_works (\<lambda>x. w_id x = c_work c) (await_review t) d)) (\<lambda>(d1, i).
     bindE (supersede_active_heads L (c_work c) i head_kinds t (open_request lane (c_work c) i d1)) (\<lambda>(d2, out).
       Inr (d2, \<lparr>rk_event = i, rk_work = c_work c, rk_author = author, rk_lane = lane, rk_at = Some t,
                 rk_superseded = out, rk_replayed = False\<rparr>)))"

definition ask_replay ::
  "lib \<Rightarrow> claim_row \<Rightarrow> event_row \<Rightarrow> string \<Rightarrow> string \<Rightarrow> seconds \<Rightarrow> db \<Rightarrow> err + (db \<times> review_ask)" where
  "ask_replay L c e author lane t d =
     bindE (supersede_active_heads L (c_work c) (e_id e) head_kinds t d) (\<lambda>(d', out).
       Inr (d', \<lparr>rk_event = e_id e, rk_work = c_work c, rk_author = author, rk_lane = lane, rk_at = None,
                 rk_superseded = [], rk_replayed = True\<rparr>))"

text \<open>\<open>Inr (d, None)\<close>: no review is needed.\<close>

definition request_completion_review_if_needed ::
  "lib \<Rightarrow> proofs \<Rightarrow> string list \<Rightarrow> string \<Rightarrow> seconds \<Rightarrow> db \<Rightarrow> err + (db \<times> review_ask option)" where
  "request_completion_review_if_needed L W lanes claim t d =
     (let claim_id = strip claim in
      if claim_id = [] then Inl (ValueErr ''claim_id'')
      else case claimd d claim_id of
        None \<Rightarrow> Inl (MissingClaim claim_id)
      | Some c \<Rightarrow> (case workd d (c_work c) of
          None \<Rightarrow> Inl (MissingClaim claim_id)
        | Some w \<Rightarrow>
            bindE (completion_review_state L W lanes d (c_work c) (Some (ask_row d c w))) (\<lambda>rs.
              if rs_negative rs then Inl (ReviewBlocked ''negative verdict'')
              else if \<not> rs_needs_review rs then Inr (d, None)
              else if lower (strip (c_status c)) \<noteq> ''running'' then Inl (ClaimStatus claim_id (c_status c))
              else bindE (ask_author lanes d c) (\<lambda>author.
                case counterpart_lane lanes (Some author) of
                  None \<Rightarrow> Inl (ReviewPolicy ''a second lane'')
                | Some lane \<Rightarrow>
                    bindE (case event_by_key d (ask_key claim_id) of
                        Some e \<Rightarrow> ask_replay L c e author lane t d
                      | None \<Rightarrow> ask_writes L W c w author lane rs t d) (\<lambda>(d', r). Inr (d', Some r))))))"

section \<open>Closing a review nobody needs\<close>

record moot_args =
  mo_work :: string
  mo_version :: int
  mo_assignee :: string
  mo_intent :: string
  mo_event :: "int option"
  mo_event_at :: "seconds option"
  mo_watermark :: seconds
  mo_packet :: string
  mo_actor :: string

datatype moot_result = NotApplied string | Closed int "int list" bool

definition moot_checks :: "string list \<Rightarrow> moot_args \<Rightarrow> err + unit" where
  "moot_checks lanes a =
     (if strip (mo_work a) = [] then Inl (ValueErr ''work_id'')
      else if mo_version a < 0 then Inl (ValueErr ''expected_version'')
      else if \<not> is_sha_text (lower (strip (mo_packet a))) then Inl (ValueErr ''packet sha256'')
      else if lower (strip (mo_actor a)) \<notin> set lanes then Inl (ValueErr ''actor'')
      else if (case mo_event a of None \<Rightarrow> False | Some i \<Rightarrow> i \<le> 0) then Inl (ValueErr ''expected_last_event_id'')
      else if (mo_event a = None) \<noteq> (mo_event_at a = None) then Inl (ValueErr ''event head is incomplete'')
      else Inr ())"

definition moot_request :: "moot_args \<Rightarrow> pyrow" where
  "moot_request a =
     [(''schema_version'', JInt 1), (''writer_contract'', JStr ''board_hygiene_policy_moot_close.v1''),
      (''work_id'', JStr (strip (mo_work a))), (''expected_version'', JInt (mo_version a)),
      (''expected_assignee'', JStr (mo_assignee a)), (''expected_intent_state'', JStr (mo_intent a)),
      (''expected_last_event_id'', jint (mo_event a)), (''expected_last_event_at'', jsec (mo_event_at a)),
      (''skip_if_events_after'', JFloat (mo_watermark a)), (''packet_sha256'', JStr (lower (strip (mo_packet a))))]"

definition moot_key :: "moot_args \<Rightarrow> string" where
  "moot_key a = ''board-hygiene-policy-moot:'' @ lower (strip (mo_packet a)) @ '':'' @ strip (mo_work a)"

definition moot_replay :: "lib \<Rightarrow> moot_args \<Rightarrow> event_row \<Rightarrow> err + moot_result" where
  "moot_replay L a e =
     (case e_payload e of
        JObj p \<Rightarrow>
          if field p ''operation_request_sha256'' \<noteq> JStr (digest L (JObj (moot_request a)))
          then Inl (ValueErr ''idempotency key was reused'')
          else (case (if has_key p ''retired_audit_request_event_ids'' then field p ''retired_audit_request_event_ids'' else JList []) of
              JList xs \<Rightarrow>
                if list_ex (\<lambda>x. strict_positive_event_id x = None) xs then Inl (ValueErr ''malformed retirement'')
                else Inr (Closed (e_id e) (sort (remdups (List.map_filter strict_positive_event_id xs))) True)
            | _ \<Rightarrow> Inl (ValueErr ''malformed retirement''))
      | _ \<Rightarrow> Inl (ValueErr ''replay receipt is malformed''))"

definition last_event :: "db \<Rightarrow> string \<Rightarrow> event_row option" where
  "last_event d work = last_row (events_of d work)"

text \<open>Why the row is not closed, if it is not.\<close>

definition moot_refusal :: "lib \<Rightarrow> moot_args \<Rightarrow> seconds \<Rightarrow> work_row \<Rightarrow> db \<Rightarrow> string option" where
  "moot_refusal L a t w d =
     (let work = strip (mo_work a) in
      if w_version w \<noteq> mo_version a then Some ''version_drift''
      else if otext (w_assignee w) \<noteq> mo_assignee a then Some ''assignee_drift''
      else if w_intent w \<noteq> mo_intent a then Some ''intent_state_drift''
      else if terminal (lower (strip (w_intent w))) then Some ''terminal_state''
      else if norm (w_assignee w) = ''operator'' then Some ''operator_owned''
      else if \<not> is_review_row L (JStr work) (row_dict w) then Some ''not_review_row''
      else if list_ex (\<lambda>e. mo_watermark a < e_ts e) (events_of d work) then Some ''newer_event_after_packet''
      else if map_option e_id (last_event d work) \<noteq> mo_event a then Some ''event_head_drift''
      else if (case (last_event d work, mo_event_at a) of
            (None, None) \<Rightarrow> False | (Some e, Some q) \<Rightarrow> 1 / 1000000 < \<bar>e_ts e - q\<bar> | _ \<Rightarrow> True) then Some ''event_watermark_drift''
      else if list_ex (live_held t work) (d_claims d) then Some ''live_lease''
      else None)"

definition active_requests :: "lib \<Rightarrow> db \<Rightarrow> string \<Rightarrow> int list" where
  "active_requests L d work =
     sort (filter (\<lambda>i. case eventd d i of None \<Rightarrow> False | Some e \<Rightarrow> e_kind e = ''audit_request'')
       (hs_active (typed_handoff_head_state L d work)))"

definition moot_event :: "lib \<Rightarrow> moot_args \<Rightarrow> int list \<Rightarrow> seconds \<Rightarrow> event_row" where
  "moot_event L a retired t =
     blank_event\<lparr>e_ts := t, e_kind := ''board_hygiene_policy_moot_closed'', e_actor := Some (lower (strip (mo_actor a))),
       e_work := Some (strip (mo_work a)), e_trust := ''system'',
       e_title := Some (''Policy-moot closure for '' @ strip (mo_work a)),
       e_body := Some ''Dated reversible board-hygiene closure; no deletion or review verdict.'',
       e_payload := JObj (moot_request a @ [(''operation_request_sha256'', JStr (digest L (JObj (moot_request a)))),
         (''closed_from_intent_state'', JStr (mo_intent a)), (''closed_to_intent_state'', JStr ''closed''),
         (''no_claim_mutation'', JBool True), (''no_rubric_mutation'', JBool True), (''no_artifact_mutation'', JBool True),
         (''retired_audit_request_event_ids'', JList (map JInt retired))]),
       e_key := Some (moot_key a)\<rparr>"

definition moot_writes :: "lib \<Rightarrow> moot_args \<Rightarrow> seconds \<Rightarrow> db \<Rightarrow> err + (db \<times> moot_result)" where
  "moot_writes L a t d =
     (let work = strip (mo_work a);
          d1 = upd_works (\<lambda>w. w_id w = work \<and> w_version w = mo_version a)
                 (\<lambda>w. w\<lparr>w_intent := ''closed'', w_updated := t, w_version := w_version w + 1\<rparr>) d
      in bindE (insert_event (moot_event L a (active_requests L d work) t) d1) (\<lambda>(d2, i).
         bindE (supersede_active_heads L work i [''audit_request''] t d2) (\<lambda>(d3, out).
           Inr (d3\<lparr>d_consumption := upd_where (\<lambda>q. q_work q = work \<and> q_at q = None \<and> q_request q \<in> set out)
                  (\<lambda>q. q\<lparr>q_event := Some i, q_at := Some t\<rparr>) (d_consumption d3)\<rparr>, Closed i out False))))"

definition close_review_as_policy_moot ::
  "lib \<Rightarrow> string list \<Rightarrow> moot_args \<Rightarrow> seconds \<Rightarrow> db \<Rightarrow> err + (db \<times> moot_result)" where
  "close_review_as_policy_moot L lanes a t d =
     bindE (moot_checks lanes a) (\<lambda>_.
       case event_by_key d (moot_key a) of
         Some e \<Rightarrow> bindE (moot_replay L a e) (\<lambda>r. Inr (d, r))
       | None \<Rightarrow> (case workd d (strip (mo_work a)) of
             None \<Rightarrow> Inr (d, NotApplied ''work_item_missing'')
           | Some w \<Rightarrow> (case moot_refusal L a t w d of
                 Some why \<Rightarrow> Inr (d, NotApplied why)
               | None \<Rightarrow>
                   bindE (effective_review_tier_for_work L lanes d (strip (mo_work a)) (row_dict w)) (\<lambda>tier.
                     if tier = ''T0'' then Inr (d, NotApplied ''effective_t0'') else moot_writes L a t d))))"

section \<open>Reopening done rows\<close>

record blocked_done =
  bd_work :: string
  bd_assignee :: string
  bd_signal :: string
  bd_version :: int
  bd_state :: string
  bd_line :: nat
  bd_quote :: string

definition sweep_authorized :: "string list \<Rightarrow> string \<Rightarrow> string \<Rightarrow> string \<Rightarrow> db \<Rightarrow> err + unit" where
  "sweep_authorized lanes actor session authority d =
     (if actor \<notin> set lanes then Inl (ValueErr ''actor'')
      else case select_max c_acquired (\<lambda>c. c_work c = authority \<and> c_session c = session \<and> workd d (c_work c) \<noteq> None) (d_claims d) of
          None \<Rightarrow> Inl (MissingClaim authority)
        | Some c \<Rightarrow> (case workd d (c_work c) of
            None \<Rightarrow> Inl (MissingClaim authority)
          | Some w \<Rightarrow>
              if lower (c_status c) \<noteq> ''running'' \<or> lower (otext (w_assignee w)) \<noteq> actor \<or> lower (w_intent w) \<noteq> ''running''
              then Inl (MissingClaim authority) else Inr ()))"

definition declared_quote :: "proofs \<Rightarrow> string \<Rightarrow> nat \<Rightarrow> string" where
  "declared_quote W signal n =
     (case file_text W (strip signal) of None \<Rightarrow> []
      | Some body \<Rightarrow> (case drop (n - 1) (split_lines body) of [] \<Rightarrow> [] | l # _ \<Rightarrow> take 512 (strip l)))"

text \<open>The done rows whose proof declares that it is not ready, failed, blocked or incomplete.\<close>

definition blocked_done_rows :: "proofs \<Rightarrow> db \<Rightarrow> blocked_done list" where
  "blocked_done_rows W d =
     List.map_filter (\<lambda>w. case w_done_signal w of None \<Rightarrow> None
       | Some s \<Rightarrow> (case done_signal_blocking_declaration W (strip s) of None \<Rightarrow> None
           | Some (state, n) \<Rightarrow> Some \<lparr>bd_work = w_id w, bd_assignee = otext (w_assignee w), bd_signal = s, bd_version = w_version w,
               bd_state = state, bd_line = n, bd_quote = declared_quote W s n\<rparr>))
       (sort_key w_id (filter (\<lambda>w. w_intent w = ''done'') (d_works d)))"

definition reopen_key :: "string \<Rightarrow> string" where
  "reopen_key work = ''done-signal-status-reopen:v1:'' @ work"

definition reopen_event :: "string \<Rightarrow> string \<Rightarrow> string \<Rightarrow> seconds \<Rightarrow> blocked_done \<Rightarrow> event_row" where
  "reopen_event actor session authority t f =
     blank_event\<lparr>e_ts := t, e_kind := ''reopen'', e_actor := Some actor, e_session := Some session,
       e_to := Some (''actor:'' @ bd_assignee f), e_work := Some (bd_work f),
       e_title := Some (''Done-signal self-declared '' @ bd_state f), e_body := Some (bd_quote f),
       e_refs := JList [JStr (bd_signal f), JStr authority],
       e_payload := JObj [(''schema_version'', JInt 1), (''writer_contract'', JStr ''done_signal_status_reopen.v1''),
         (''authority_work_id'', JStr authority), (''from_intent_state'', JStr ''done''), (''to_intent_state'', JStr ''blocked''),
         (''state'', JStr (bd_state f)), (''line_number'', JInt (int (bd_line f))), (''quote'', JStr (bd_quote f)),
         (''done_signal'', JStr (bd_signal f))],
       e_key := Some (reopen_key (bd_work f))\<rparr>"

definition reopened :: "seconds \<Rightarrow> work_row \<Rightarrow> work_row" where
  "reopened t w = w\<lparr>w_intent := ''blocked'', w_reason := Some ''done_signal_self_declared_incomplete'', w_updated := t,
     w_version := w_version w + 1\<rparr>"

fun reopen_rows :: "string \<Rightarrow> string \<Rightarrow> string \<Rightarrow> seconds \<Rightarrow> blocked_done list \<Rightarrow> db \<Rightarrow> err + (db \<times> int list)" where
  "reopen_rows actor session authority t [] d = Inr (d, [])"
| "reopen_rows actor session authority t (f # fs) d =
     (let p = (\<lambda>w. w_id w = bd_work f \<and> w_intent w = ''done'' \<and> w_version w = bd_version f) in
      if row_count p (d_works d) \<noteq> 1 then Inl (CasFailed (bd_work f))
      else bindE (insert_event (reopen_event actor session authority t f) (upd_works p (reopened t) d)) (\<lambda>(d1, i).
           bindE (reopen_rows actor session authority t fs d1) (\<lambda>(d2, is). Inr (d2, i # is))))"

text \<open>The board is read before the transaction begins: \<open>d0\<close> is what the sweep saw, \<open>d\<close> what it changes.\<close>

definition reopen_done_signal_status_mismatches ::
  "proofs \<Rightarrow> string list \<Rightarrow> string \<Rightarrow> string \<Rightarrow> string \<Rightarrow> bool \<Rightarrow> seconds \<Rightarrow> db \<Rightarrow> db \<Rightarrow> err + (db \<times> blocked_done list \<times> int list)" where
  "reopen_done_signal_status_mismatches W lanes actor session authority apply_it t d0 d =
     (let act = lower (strip actor); sid = strip session; auth = strip authority in
      bindE (sweep_authorized lanes act sid auth d0) (\<lambda>_.
        let fs = blocked_done_rows W d0 in
        if \<not> apply_it then Inr (d, fs, [])
        else bindE (reopen_rows act sid auth t fs d) (\<lambda>(d', is). Inr (d', fs, is))))"

section \<open>What the controller moves\<close>

definition unowned :: "string list \<Rightarrow> db \<Rightarrow> work_row \<Rightarrow> bool" where
  "unowned kinds d w \<longleftrightarrow>
     lower (strip (w_intent w)) \<in> {''planned'', ''queued''} \<and>
     \<not> list_ex (\<lambda>c. c_work c = w_id w) (d_claims d) \<and>
     \<not> list_ex (\<lambda>r. r_work r = Some (w_id w) \<and> r_state r = ''live'') (d_runs d) \<and>
     \<not> list_ex (\<lambda>a. a_work a = Some (w_id w)) (d_artifacts d) \<and>
     \<not> list_ex (\<lambda>e. e_work e = Some (w_id w) \<and> e_kind e \<in> set (filter (\<lambda>k. k \<noteq> []) kinds)) (d_events d)"

definition archive_projection_work_if_unowned :: "string \<Rightarrow> string list \<Rightarrow> seconds \<Rightarrow> db \<Rightarrow> db \<times> bool" where
  "archive_projection_work_if_unowned work_id kinds t d =
     (case workd d work_id of
        None \<Rightarrow> (d, False)
      | Some w \<Rightarrow>
          if unowned kinds d w
          then (upd_works (\<lambda>x. w_id x = work_id \<and> w_intent x \<noteq> ''archived'')
                  (\<lambda>x. x\<lparr>w_intent := ''archived'', w_updated := t, w_version := w_version x + 1\<rparr>) d, True)
          else (d, False))"

definition held_on :: "db \<Rightarrow> string \<Rightarrow> string list" where
  "held_on d work = map c_id (filter (\<lambda>c. c_work c = work \<and> held c) (d_claims d))"

definition set_intent :: "string \<Rightarrow> work_field list \<Rightarrow> work_field list" where
  "set_intent s fs = filter (\<lambda>f. field_name f \<noteq> ''intent_state'') fs @ [F_intent s]"

definition apply_controller_work_transition ::
  "lib \<Rightarrow> string \<Rightarrow> string \<Rightarrow> string \<Rightarrow> work_field list \<Rightarrow> seconds \<Rightarrow> db \<Rightarrow> err + (db \<times> string list)" where
  "apply_controller_work_transition L work_id intent reason fs t d =
     (let target = lower (strip intent); ids = held_on d work_id in
      if bad_columns fs then Inl (ValueErr ''unknown work_items columns'')
      else if target \<notin> {''blocked'', ''queued''} then Inl (ValueErr ''controller transition'')
      else bindE (upsert_work_unlocked L False work_id (set_intent target fs) t (release_own ids reason d))
             (\<lambda>(d', _). Inr (d', ids)))"

text \<open>What a legacy hand-off would overwrite.\<close>

definition legacy_conflicts :: "lib \<Rightarrow> work_row option \<Rightarrow> work_field list \<Rightarrow> string list" where
  "legacy_conflicts L existing fs =
     (case existing of None \<Rightarrow> []
      | Some w \<Rightarrow>
          let row = fields_dict fs; owner = norm (w_assignee w); acceptance = strip (w_acceptance w);
              filled = (acceptance \<noteq> [] \<and> (case loads L acceptance of None \<Rightarrow> True | Some j \<Rightarrow> truthy j)) in
          (if has_key row ''assignee'' \<and> owner \<noteq> [] \<and> owner \<noteq> lower (text_field L row ''assignee'') then [''assignee''] else []) @
          (if has_key row ''acceptance_json'' \<and> filled \<and> acceptance \<noteq> text_field L row ''acceptance_json''
           then [''acceptance_json''] else []))"

definition apply_legacy_handoff_work ::
  "lib \<Rightarrow> string list \<Rightarrow> string \<Rightarrow> work_field list \<Rightarrow> string option \<Rightarrow> string option \<Rightarrow> seconds \<Rightarrow> db \<Rightarrow> err + (db \<times> string list)" where
  "apply_legacy_handoff_work L lanes work fs intent reason t d =
     (let work_id = strip work; target = lower (clean intent); why = clean reason;
          fs' = (if target = [] then fs else set_intent target fs);
          ids = (if target = [] then [] else held_on d work_id)
      in if work_id = [] then Inl (ValueErr ''work_id'')
         else if bad_columns fs then Inl (ValueErr ''unknown work_items columns'')
         else if target \<noteq> [] \<and> target \<notin> {''blocked'', ''queued''} then Inl (ValueErr ''legacy controller transition'')
         else if target \<noteq> [] \<and> why = [] then Inl (ValueErr ''reason'')
         else if legacy_conflicts L (workd d work_id) fs \<noteq> [] then Inl (ValueErr ''destructive existing-row amendment'')
         else bindE (validate_work_policy L lanes d work_id (workd d work_id) fs') (\<lambda>_.
              bindE (upsert_work_unlocked L False work_id fs' t (release_own ids why d)) (\<lambda>(d', _). Inr (d', ids))))"

definition store_artifact ::
  "string \<Rightarrow> string \<Rightarrow> string option \<Rightarrow> string option \<Rightarrow> string option \<Rightarrow> string option \<Rightarrow> seconds \<Rightarrow> db \<Rightarrow> err + (db \<times> string)" where
  "store_artifact new_id path work run kind sha t d =
     (if list_ex (\<lambda>a. a_id a = new_id) (d_artifacts d) then Inl IntegrityPrimaryKey
      else if (case work of None \<Rightarrow> False | Some i \<Rightarrow> workd d i = None) \<or> (case run of None \<Rightarrow> False | Some i \<Rightarrow> rund d i = None)
        then Inl IntegrityForeignKey
      else Inr (d\<lparr>d_artifacts := d_artifacts d @ [\<lparr>a_id = new_id, a_work = work, a_run = run, a_path = path,
             a_kind = kind, a_sha = sha, a_created = t\<rparr>]\<rparr>, new_id))"

end
