(* ===== verification/Inbox.thy ===== *)
theory Inbox
  imports Store "HOL-Library.Multiset"
begin

text \<open>
  Notes and inboxes (coord_db.py, \<open>resolve_note_session_target\<close> to \<open>advance_cursor\<close>): who a note
  may be addressed to, what is unread past a cursor, in which order and how many, and how a
  cursor moves. A negative SQL limit means no limit.
\<close>

section \<open>Addressing\<close>

definition session_live :: "seconds \<Rightarrow> session_row \<Rightarrow> bool" where
  "session_live t s \<longleftrightarrow> s_state s = ''active'' \<and> t < s_lease s"

definition resolve_note_session_target :: "db \<Rightarrow> string \<Rightarrow> seconds \<Rightarrow> err + string" where
  "resolve_note_session_target d session_id t =
     (let target = strip session_id in
      if target = [] then Inl (ValueErr ''a session note target must name a session_id'')
      else case sess d target of
          None \<Rightarrow> Inl (UnknownSession target)
        | Some s \<Rightarrow> if session_live t s then Inr target else Inl (ValueErr ''session is not live''))"

definition note_payload :: json where
  "note_payload = JObj [(''schema_version'', JInt 1), (''event_only'', JBool True),
     (''lifecycle_mutation'', JBool False), (''neutral_note'', JBool True), (''source'', JStr ''coord.cli.note'')]"

definition note_title :: "string \<Rightarrow> string option \<Rightarrow> string" where
  "note_title work title = (let s = clean title in if s = [] then ''Note: '' @ work else s)"

definition note_selector :: "db \<Rightarrow> string \<Rightarrow> string \<Rightarrow> seconds \<Rightarrow> err + string option" where
  "note_selector d to_session to_actor t =
     (if strip to_session \<noteq> [] then
        bindE (resolve_note_session_target d to_session t) (\<lambda>s. Inr (Some (''session:'' @ s)))
      else if strip to_actor \<noteq> [] then Inr (Some (''actor:'' @ strip to_actor))
      else Inr None)"

definition post_note ::
  "string \<Rightarrow> string \<Rightarrow> string \<Rightarrow> string \<Rightarrow> string \<Rightarrow> string option \<Rightarrow> string \<Rightarrow> string list
     \<Rightarrow> seconds \<Rightarrow> seconds \<Rightarrow> db \<Rightarrow> err + (db \<times> int)" where
  "post_note work_id actor session_id to_actor to_session title body refs t now d =
     (let work = strip work_id; text = strip body; head = note_title work title;
          pointers = filter (\<lambda>r. r \<noteq> []) (map strip refs)
      in if work = [] then Inl (ValueErr ''note requires an existing work_id'')
         else if text = [] then Inl (ValueErr ''note requires a non-empty body'')
         else if 2048 < length text then Inl (ValueErr ''note body exceeds 2048 characters'')
         else if 200 < length head then Inl (ValueErr ''note title exceeds 200 characters'')
         else if 32 < length pointers then Inl (ValueErr ''note refs are bounded'')
         else if workd d work = None then Inl (UnknownWork work)
         else bindE (note_selector d to_session to_actor t) (\<lambda>selector.
           insert_event (blank_event\<lparr>e_ts := now, e_kind := ''note'', e_actor := Some actor,
             e_session := opt_text session_id, e_to := selector, e_work := Some work, e_title := Some head,
             e_body := Some text, e_refs := JList (map JStr pointers), e_payload := note_payload\<rparr>) d))"

section \<open>What is unread\<close>

definition get_cursor :: "db \<Rightarrow> string \<Rightarrow> string \<Rightarrow> int" where
  "get_cursor d recipient session_id =
     (case find (\<lambda>u. u_recipient u = recipient \<and> u_session u = session_id) (d_cursors d) of
        None \<Rightarrow> 0 | Some u \<Rightarrow> u_seen u)"

definition selectors :: "string \<Rightarrow> string \<Rightarrow> string list" where
  "selectors recipient session_id =
     (''actor:'' @ recipient) # (if session_id = [] then [] else [''session:'' @ session_id])"

definition directed_to :: "string list \<Rightarrow> event_row \<Rightarrow> bool" where
  "directed_to sels e \<longleftrightarrow> (case e_to e of None \<Rightarrow> False | Some s \<Rightarrow> s \<in> set sels)"

definition directed_unread :: "db \<Rightarrow> string \<Rightarrow> string \<Rightarrow> event_row list" where
  "directed_unread d recipient session_id =
     filter (\<lambda>e. directed_to (selectors recipient session_id) e \<and> get_cursor d recipient session_id < e_id e)
       (d_events d)"

definition broadcast_unread :: "db \<Rightarrow> string \<Rightarrow> string \<Rightarrow> event_row list" where
  "broadcast_unread d recipient session_id =
     filter (\<lambda>e. e_to e = None \<and> get_cursor d recipient session_id < e_id e) (d_events d)"

definition sql_limit :: "int \<Rightarrow> 'a list \<Rightarrow> 'a list" where
  "sql_limit n xs = (if n < 0 then xs else take (nat n) xs)"

record counts =
  n_directed :: nat
  n_broadcast :: nat
  n_total :: nat

definition unread_inbox_counts :: "db \<Rightarrow> string \<Rightarrow> string \<Rightarrow> counts" where
  "unread_inbox_counts d recipient session_id =
     (let a = length (directed_unread d recipient session_id);
          b = length (broadcast_unread d recipient session_id)
      in \<lparr>n_directed = a, n_broadcast = b, n_total = a + b\<rparr>)"

definition unread_inbox_count :: "db \<Rightarrow> string \<Rightarrow> string \<Rightarrow> nat" where
  "unread_inbox_count d recipient session_id = n_total (unread_inbox_counts d recipient session_id)"

text \<open>A message is an event with its \<open>directed\<close> flag.\<close>

definition read_inbox :: "db \<Rightarrow> string \<Rightarrow> string \<Rightarrow> int \<Rightarrow> bool \<Rightarrow> bool \<Rightarrow> (event_row \<times> bool) list" where
  "read_inbox d recipient session_id limit newest_first directed_only =
     (let rows = sort_key (\<lambda>m. e_id (fst m))
           (map (\<lambda>e. (e, True)) (directed_unread d recipient session_id) @
            (if directed_only then [] else map (\<lambda>e. (e, False)) (broadcast_unread d recipient session_id)))
      in sql_limit limit (if newest_first then rev rows else rows))"

definition inbox_noise_kinds :: "string list" where
  "inbox_noise_kinds = [''telemetry'', ''prompt'', ''activity'', ''beacon'', ''tool'', ''tool_use'', ''pretool'',
     ''posttool'', ''heartbeat'', ''claude_heartbeat'', ''codex_heartbeat'', ''claude_activity'',
     ''codex_activity'', ''subagent_start'', ''subagent_stop'', ''run_start'', ''run_end'', ''run'',
     ''session_start'', ''session_end'']"

definition inbox_recent :: "db \<Rightarrow> string \<Rightarrow> string \<Rightarrow> int \<Rightarrow> string list \<Rightarrow> event_row list" where
  "inbox_recent d recipient session_id limit exclude =
     (let kept = filter (\<lambda>e. e_kind e \<notin> set exclude);
          newest = (\<lambda>es. rev (sort_key e_id es))
      in sql_limit limit (newest (kept (directed_unread d recipient session_id)) @
                          newest (kept (broadcast_unread d recipient session_id))))"

section \<open>Moving the cursor\<close>

definition bump_cursor :: "string \<Rightarrow> string \<Rightarrow> int \<Rightarrow> seconds \<Rightarrow> db \<Rightarrow> db" where
  "bump_cursor recipient session_id seen t d =
     (let mine = (\<lambda>u. u_recipient u = recipient \<and> u_session u = session_id) in
      if list_ex mine (d_cursors d)
      then d\<lparr>d_cursors := upd_where mine (\<lambda>u. u\<lparr>u_seen := max (u_seen u) seen, u_updated := t\<rparr>) (d_cursors d)\<rparr>
      else d\<lparr>d_cursors := d_cursors d @
             [\<lparr>u_recipient = recipient, u_session = session_id, u_seen = seen, u_updated = t\<rparr>]\<rparr>)"

definition advance_cursor :: "string \<Rightarrow> int \<Rightarrow> string \<Rightarrow> seconds \<Rightarrow> db \<Rightarrow> db" where
  "advance_cursor recipient seen session_id t d =
     (let d1 = bump_cursor recipient session_id seen t d in
      d1\<lparr>d_consumption := upd_where
           (\<lambda>q. q_lane q = recipient \<and> q_request q \<le> seen \<and> q_at q = None) (\<lambda>q. q\<lparr>q_at := Some t\<rparr>)
           (d_consumption d1)\<rparr>)"

section \<open>Facts\<close>

lemma bump_cursor_frames [table_simps]:
  "d_events (bump_cursor r s n t d) = d_events d" "d_consumption (bump_cursor r s n t d) = d_consumption d"
  by (simp_all add: bump_cursor_def Let_def)

lemma advance_frames [table_simps]:
  "d_events (advance_cursor r n s t d) = d_events d" "d_works (advance_cursor r n s t d) = d_works d"
  "d_claims (advance_cursor r n s t d) = d_claims d" "d_sessions (advance_cursor r n s t d) = d_sessions d"
  by (simp_all add: advance_cursor_def bump_cursor_def Let_def)

lemma find_upd_first:
  "(\<And>x. P x \<Longrightarrow> P (f x)) \<Longrightarrow> find P (upd_where P f xs) = map_option f (find P xs)"
  by (induction xs) auto

lemma get_cursor_advance:
  "get_cursor (advance_cursor r n s t d) r s = (if list_ex (\<lambda>u. u_recipient u = r \<and> u_session u = s) (d_cursors d)
     then max (get_cursor d r s) n else n)"
proof (cases "list_ex (\<lambda>u. u_recipient u = r \<and> u_session u = s) (d_cursors d)")
  case True
  then obtain u where u: "find (\<lambda>u. u_recipient u = r \<and> u_session u = s) (d_cursors d) = Some u"
    by (cases "find (\<lambda>u. u_recipient u = r \<and> u_session u = s) (d_cursors d)")
      (auto simp: find_None_iff list_ex_iff)
  then show ?thesis
    using True by (simp add: get_cursor_def advance_cursor_def bump_cursor_def Let_def find_upd_first)
next
  case False
  then have "find (\<lambda>u. u_recipient u = r \<and> u_session u = s) (d_cursors d) = None"
    by (simp add: find_None_iff list_ex_iff)
  with False show ?thesis
    by (simp add: get_cursor_def advance_cursor_def bump_cursor_def Let_def find_append)
qed

lemma get_cursor_advance_max: "0 \<le> get_cursor d r s \<Longrightarrow> 0 \<le> n \<Longrightarrow>
    get_cursor (advance_cursor r n s t d) r s = max (get_cursor d r s) n"
proof -
  assume n: "0 \<le> get_cursor d r s" "0 \<le> n"
  have "\<not> list_ex (\<lambda>u. u_recipient u = r \<and> u_session u = s) (d_cursors d) \<Longrightarrow> get_cursor d r s = 0"
    unfolding get_cursor_def by (auto simp: list_ex_iff dest!: find_SomeD split: option.splits)
  with n show ?thesis by (auto simp: get_cursor_advance)
qed

lemma get_cursor_other:
  "(r', s') \<noteq> (r, s) \<Longrightarrow> get_cursor (advance_cursor r n s t d) r' s' = get_cursor d r' s'"
proof -
  assume ne: "(r', s') \<noteq> (r, s)"
  have same: "find (\<lambda>u. u_recipient u = r' \<and> u_session u = s')
      (upd_where (\<lambda>u. u_recipient u = r \<and> u_session u = s) (\<lambda>u. u\<lparr>u_seen := max (u_seen u) n, u_updated := t\<rparr>) us) =
      find (\<lambda>u. u_recipient u = r' \<and> u_session u = s') us" for us
    using ne by (induction us) auto
  have new: "find (\<lambda>u. u_recipient u = r' \<and> u_session u = s')
      (us @ [\<lparr>u_recipient = r, u_session = s, u_seen = n, u_updated = t\<rparr>]) =
      find (\<lambda>u. u_recipient u = r' \<and> u_session u = s') us" for us
    using ne by (induction us) auto
  show ?thesis
    by (cases "list_ex (\<lambda>u. u_recipient u = r \<and> u_session u = s) (d_cursors d)")
      (simp_all add: get_cursor_def advance_cursor_def bump_cursor_def Let_def same new)
qed

text \<open>Both legs in order are one filter of the log, so a read is a window of one list.\<close>

definition unread :: "db \<Rightarrow> string \<Rightarrow> string \<Rightarrow> bool \<Rightarrow> (event_row \<times> bool) list" where
  "unread d recipient session_id directed_only =
     map (\<lambda>e. (e, directed_to (selectors recipient session_id) e))
       (filter (\<lambda>e. get_cursor d recipient session_id < e_id e \<and>
          (directed_to (selectors recipient session_id) e \<or> (\<not> directed_only \<and> e_to e = None))) (d_events d))"

lemma sort_key_merge:
  assumes "sorted_wrt (<) (map k xs)" "\<And>x. x \<in> set xs \<Longrightarrow> \<not> (p x \<and> q x)"
  shows "sort_key (\<lambda>m. k (fst m)) (map (\<lambda>x. (x, True)) (filter p xs) @ map (\<lambda>x. (x, False)) (filter q xs)) =
    map (\<lambda>x. (x, p x)) (filter (\<lambda>x. p x \<or> q x) xs)"
proof (rule properties_for_sort_key)
  show "mset (map (\<lambda>x. (x, p x)) (filter (\<lambda>x. p x \<or> q x) xs)) =
      mset (map (\<lambda>x. (x, True)) (filter p xs) @ map (\<lambda>x. (x, False)) (filter q xs))"
    using assms(2) by (induction xs) auto
next
  fix m assume "m \<in> set (map (\<lambda>x. (x, p x)) (filter (\<lambda>x. p x \<or> q x) xs))"
  then obtain x where x: "x \<in> set xs" "m = (x, p x)" "p x \<or> q x" by auto
  have inj: "inj_on k (set xs)" "distinct xs"
    using assms(1) by (auto simp: strict_sorted_iff distinct_map)
  have one: "filter (\<lambda>y. k y = k x) xs = [x]"
  proof -
    have "filter (\<lambda>y. k y = k x) xs = filter (\<lambda>y. y = x) xs"
      using inj(1) x(1) by (intro filter_cong) (auto dest: inj_onD)
    also have "\<dots> = [x]" using inj(2) x(1) by (induction xs) (auto simp: filter_empty_conv)
    finally show ?thesis .
  qed
  have sub: "filter (\<lambda>y. r y \<and> k y = k x) xs = (if r x then [x] else [])" for r
    using arg_cong [OF one, of "filter r"] by (simp add: conj_commute)
  show "filter (\<lambda>y. k (fst m) = k (fst y)) (map (\<lambda>x. (x, p x)) (filter (\<lambda>x. p x \<or> q x) xs)) =
      filter (\<lambda>y. k (fst m) = k (fst y))
        (map (\<lambda>x. (x, True)) (filter p xs) @ map (\<lambda>x. (x, False)) (filter q xs))"
    using sub [of "\<lambda>x. p x \<or> q x"] sub [of p] sub [of q] x assms(2) [OF x(1)]
    by (auto simp: filter_map comp_def eq_commute [of "k x"])
next
  have "sorted_wrt (<) (map k (filter (\<lambda>x. p x \<or> q x) xs))"
    using assms(1) by (induction xs) auto
  then have "sorted (map k (filter (\<lambda>x. p x \<or> q x) xs))"
    by (simp add: strict_sorted_iff)
  then show "sorted (map (\<lambda>m. k (fst m)) (map (\<lambda>x. (x, p x)) (filter (\<lambda>x. p x \<or> q x) xs)))"
    by (simp add: comp_def)
qed

lemma read_inbox_unread:
  assumes "events_ok d"
  shows "read_inbox d r s limit newest only =
    sql_limit limit (if newest then rev (unread d r s only) else unread d r s only)"
proof -
  have sorted: "sorted_wrt (<) (map e_id (d_events d))"
    using assms by (simp add: events_ok_def event_log_ok_def)
  let ?p = "\<lambda>e. directed_to (selectors r s) e \<and> get_cursor d r s < e_id e"
  let ?q = "\<lambda>e. e_to e = None \<and> get_cursor d r s < e_id e"
  have disj: "\<not> (?p e \<and> ?q e)" for e by (cases "e_to e") (simp_all add: directed_to_def)
  have both: "sort_key (\<lambda>m. e_id (fst m)) (map (\<lambda>e. (e, True)) (filter ?p (d_events d)) @
      map (\<lambda>e. (e, False)) (filter ?q (d_events d))) =
      map (\<lambda>e. (e, ?p e)) (filter (\<lambda>e. ?p e \<or> ?q e) (d_events d))"
    by (rule sort_key_merge [OF sorted]) (rule disj)
  have dir: "sort_key (\<lambda>m. e_id (fst m)) (map (\<lambda>e. (e, True)) (filter ?p (d_events d)) @ []) =
      map (\<lambda>e. (e, ?p e)) (filter (\<lambda>e. ?p e \<or> False) (d_events d))"
    using sort_key_merge [OF sorted, of ?p "\<lambda>_. False"] by simp
  have "sort_key (\<lambda>m. e_id (fst m)) (map (\<lambda>e. (e, True)) (directed_unread d r s) @
      (if only then [] else map (\<lambda>e. (e, False)) (broadcast_unread d r s))) = unread d r s only"
    using both dir unfolding directed_unread_def broadcast_unread_def unread_def
    by (auto intro!: map_cong filter_cong)
  then show ?thesis by (simp add: read_inbox_def)
qed

lemma unread_count:
  assumes "events_ok d"
  shows "unread_inbox_count d r s = length (read_inbox d r s (-1) newest False)"
proof -
  have "length (filter p xs) + length (filter q xs) = length (filter (\<lambda>x. p x \<or> q x) xs)"
    if "\<And>x. \<not> (p x \<and> q x)" for p q and xs :: "event_row list"
    using that by (induction xs) auto
  moreover have "\<not> (directed_to (selectors r s) e \<and> get_cursor d r s < e_id e \<and> e_to e = None \<and> get_cursor d r s < e_id e)" for e
    by (cases "e_to e") (simp_all add: directed_to_def)
  ultimately have "unread_inbox_count d r s = length (unread d r s False)"
    unfolding unread_inbox_count_def unread_inbox_counts_def directed_unread_def broadcast_unread_def unread_def
    by (simp add: Let_def) (metis (mono_tags, lifting))
  then show ?thesis by (simp add: read_inbox_unread [OF assms] sql_limit_def)
qed

lemma unread_after_read:
  assumes ok: "events_ok d" and n: "msgs = take n (unread d r s False)" "msgs \<noteq> []"
  shows "unread (advance_cursor r (e_id (fst (last msgs))) s t d) r s False = drop (length msgs) (unread d r s False)"
proof -
  let ?sel = "selectors r s" and ?cur = "get_cursor d r s"
  let ?p = "\<lambda>e. directed_to ?sel e \<or> e_to e = None"
  let ?es = "filter (\<lambda>e. ?cur < e_id e \<and> ?p e) (d_events d)"
  have U: "unread d r s False = map (\<lambda>e. (e, directed_to ?sel e)) ?es" by (simp add: unread_def)
  have sorted: "sorted_wrt (<) (map e_id (d_events d))" using ok by (simp add: events_ok_def event_log_ok_def)
  then have strict: "sorted_wrt (<) (map e_id ?es)" by (simp add: sorted_wrt_map sorted_wrt_filter)
  let ?m = "length msgs - 1"
  have m2: "length msgs \<le> length ?es" "length msgs \<noteq> 0" using n U by simp_all
  then have m: "?m < length ?es" "length msgs \<le> length ?es" "length msgs \<noteq> 0" by linarith+
  have last: "fst (last msgs) = ?es ! ?m"
  proof -
    have "last msgs = msgs ! ?m" using n(2) by (simp add: last_conv_nth)
    also have "\<dots> = unread d r s False ! ?m"
    proof -
      have "length msgs \<le> n" by (simp add: n(1))
      with m2(2) have "?m < n" by linarith
      then show ?thesis by (subst n(1)) (rule nth_take)
    qed
    finally show ?thesis using U m(1) by simp
  qed
  have mem: "?es ! ?m \<in> set ?es" using m(1) by (rule nth_mem)
  have cur: "get_cursor (advance_cursor r (e_id (fst (last msgs))) s t d) r s = e_id (?es ! ?m)"
    unfolding last using mem by (auto simp: get_cursor_advance)
  have "filter (\<lambda>e. e_id (?es ! ?m) < e_id e \<and> ?p e) (d_events d) = filter (\<lambda>e. e_id (?es ! ?m) < e_id e) ?es"
    using mem by (auto intro: filter_cong)
  also have "\<dots> = drop (Suc ?m) ?es"
    using drop_filter_sorted [OF strict m(1)] by simp
  finally have "filter (\<lambda>e. e_id (?es ! ?m) < e_id e \<and> ?p e) (d_events d) = drop (length msgs) ?es"
    using m(3) by simp
  then show ?thesis by (simp add: unread_def cur advance_frames drop_map)
qed

end
