(* ===== verification/BoardStatus.thy ===== *)
theory BoardStatus
  imports WorkPolicy
begin

text \<open>
  What the board shows (coord_db.py, \<open>active_intent_debt\<close> to \<open>_board_scan_chunks\<close>): stale running
  rows, the status and proof state derived from a row of the ownership view, and the paging of
  the board scan. A row of the view is a dictionary of columns.
\<close>

section \<open>Rows that claim to run\<close>

definition in_debt :: "seconds \<Rightarrow> db \<Rightarrow> work_row \<Rightarrow> bool" where
  "in_debt cutoff d w \<longleftrightarrow> w_intent w = ''running'' \<and> w_archived w = None \<and> w_updated w < cutoff \<and>
     \<not> list_ex (\<lambda>c. c_work c = w_id w \<and> held c) (d_claims d) \<and>
     \<not> list_ex (\<lambda>a. a_work a = Some (w_id w)) (d_artifacts d) \<and>
     \<not> list_ex (\<lambda>r. r_work r = Some (w_id w) \<and> r_state r = ''live'') (d_runs d)"

definition active_intent_debt :: "seconds \<Rightarrow> seconds \<Rightarrow> nat \<Rightarrow> db \<Rightarrow> work_row list" where
  "active_intent_debt t grace limit d =
     take limit (sort_key w_updated (filter (in_debt (t - grace) d) (d_works d)))"

definition normalize_writes :: "string list \<Rightarrow> seconds \<Rightarrow> db \<Rightarrow> db" where
  "normalize_writes ids t d =
     foldl (\<lambda>d wid. upd_works (\<lambda>w. w_id w = wid \<and> w_intent w = ''running'') (requeue t) d) d ids"

definition normalize_stale_active_intents ::
  "seconds \<Rightarrow> seconds \<Rightarrow> nat \<Rightarrow> db \<Rightarrow> db \<times> (nat \<times> string list)" where
  "normalize_stale_active_intents t grace limit d =
     (let ids = map w_id (active_intent_debt t grace limit d) in
      (normalize_writes ids t d, length ids, take 25 ids))"

section \<open>The status of a row\<close>

definition hex_text :: "nat \<Rightarrow> nat option \<Rightarrow> string \<Rightarrow> bool" where
  "hex_text lo hi s \<longleftrightarrow> list_all is_lower_hex s \<and> lo \<le> length s \<and>
     (case hi of None \<Rightarrow> True | Some n \<Rightarrow> length s \<le> n)"

definition uuid_text :: "string \<Rightarrow> bool" where
  "uuid_text s \<longleftrightarrow> (let ps = split_on CHR ''-'' s in map length ps = [8, 4, 4, 4, 12] \<and> list_all (list_all is_lower_hex) ps)"

definition is_observer_work_id :: "string list \<Rightarrow> string \<Rightarrow> bool" where
  "is_observer_work_id lanes work_id \<longleftrightarrow>
     (let s = lower (strip work_id) in
      s \<noteq> [] \<and>
      (list_ex (\<lambda>p. prefix p s) ([''job:obs_'', ''raw:''] @ map (\<lambda>l. l @ '':'') lanes) \<or>
       (prefix ''job:'' s \<and> hex_text 10 (Some 16) (drop 4 s)) \<or>
       (prefix ''019e'' s \<and> list_all (\<lambda>c. is_lower_hex c \<or> c = CHR ''-'') (drop 4 s) \<and> 24 \<le> length s) \<or>
       uuid_text s \<or> hex_text 12 (Some 40) s))"

definition closed_intents :: "string list" where
  "closed_intents = [''archived'', ''superseded'', ''cancelled'', ''canceled'', ''closed'']"

definition row_intent :: "pyrow \<Rightarrow> string" where
  "row_intent row = (if truthy (field row ''intent_state'') then jtext (field row ''intent_state'') else ''planned'')"

definition needs_rubric :: "lib \<Rightarrow> pyrow \<Rightarrow> bool" where
  "needs_rubric L row \<longleftrightarrow>
     (case normalize_declared_tier L (field row ''effective_tier'') of
        Some x \<Rightarrow> x | None \<Rightarrow> effective_review_tier L row [] False) = ''T0'' \<and>
     \<not> truthy (field row ''legacy_pre_review_tier_done'')"

definition local_live :: "pyrow \<Rightarrow> bool" where
  "local_live row \<longleftrightarrow>
     0 < int_or_zero (field row (if has_key row ''live_pid_count'' then ''live_pid_count'' else ''live_run_count''))"

definition expires_after :: "pyrow \<Rightarrow> seconds \<Rightarrow> bool" where
  "expires_after row t \<longleftrightarrow> (case field row ''claim_expires_at'' of
       JFloat q \<Rightarrow> q \<noteq> 0 \<and> t < q | JInt i \<Rightarrow> i \<noteq> 0 \<and> t < of_int i | _ \<Rightarrow> False)"

definition derive_work_status :: "lib \<Rightarrow> string list \<Rightarrow> pyrow \<Rightarrow> seconds \<Rightarrow> string" where
  "derive_work_status L lanes row t =
     (let intent = row_intent row;
          artifact = truthy (field row ''has_artifact'');
          rubric = field row ''rubric_verdict'';
          owned = truthy (field row ''owner_session_id'');
          claim = field row ''claim_status''
      in if truthy (field row ''archived_at'') then ''archived''
         else if intent \<in> set closed_intents then intent
         else if local_live row \<and> \<not> is_observer_work_id lanes (str_or_empty L (field row ''work_id'')) then ''running''
         else if intent = ''failed'' then ''failed''
         else if intent \<noteq> ''done'' \<and> owned \<and> claim = JStr ''running'' then
           (if expires_after row t then ''running'' else ''attention'')
         else if intent \<noteq> ''done'' \<and> owned \<and> claim \<in> {JStr ''paused'', JStr ''blocked''} then
           (if expires_after row t then jtext claim else ''attention'')
         else if intent = ''blocked'' then ''blocked''
         else if intent = ''done'' then
           (if artifact \<and> (\<not> needs_rubric L row \<or> rubric = JStr ''pass'' \<or> truthy (field row ''operator_ok_validated''))
            then ''done'' else ''attention'')
         else if artifact then ''attention''
         else if rubric \<in> {JStr ''flag'', JStr ''blocked''} then ''attention''
         else if intent = ''running'' then ''queued''
         else intent)"

definition derive_proof_state :: "lib \<Rightarrow> string list \<Rightarrow> pyrow \<Rightarrow> seconds \<Rightarrow> string" where
  "derive_proof_state L lanes row t =
     (let status = derive_work_status L lanes row t;
          intent = row_intent row;
          artifact = truthy (field row ''has_artifact'');
          rubric = lower (text_field L row ''rubric_verdict'');
          ok = truthy (field row ''operator_ok_validated'');
          owed = (needs_rubric L row \<and> rubric \<noteq> ''pass'' \<and> \<not> ok)
      in if status \<in> set closed_intents then status
         else if status \<in> {''running'', ''failed'', ''blocked''} then status
         else if status = ''done'' then (if owed then ''legacy_done'' else ''verified_done'')
         else if artifact \<and> intent \<noteq> ''done'' then ''needs_adjudication''
         else if rubric \<in> {''flag'', ''fail'', ''failed'', ''red'', ''reject'', ''rejected''} then ''acceptance_failed''
         else if rubric \<in> {''blocked'', ''block''} then ''acceptance_blocked''
         else if intent = ''done'' \<and> \<not> artifact then ''missing_done_signal''
         else if artifact \<and> owed then ''needs_verification''
         else if artifact then ''artifact_present''
         else if intent \<in> {''queued'', ''planned''} then ''awaiting_artifact''
         else status)"

section \<open>Paging the board\<close>

text \<open>Board order: newest update first, then the identifier.\<close>

definition board_key :: "work_row \<Rightarrow> rat \<times> string" where
  "board_key w = (- w_updated w, w_id w)"

definition past_cursor :: "(seconds \<times> string) option \<Rightarrow> work_row \<Rightarrow> bool" where
  "past_cursor cursor w \<longleftrightarrow> (case cursor of None \<Rightarrow> True
     | Some (u, i) \<Rightarrow> w_updated w < u \<or> (w_updated w = u \<and> i < w_id w))"

definition board_batch :: "nat \<Rightarrow> (seconds \<times> string) option \<Rightarrow> work_row list \<Rightarrow> work_row list" where
  "board_batch n cursor rows = take n (sort_key board_key (filter (past_cursor cursor) rows))"

lemma board_batch_in: "w \<in> set (board_batch n cursor rows) \<Longrightarrow> w \<in> set rows \<and> past_cursor cursor w"
  unfolding board_batch_def by (drule in_set_takeD) simp

function board_scan_chunks :: "nat \<Rightarrow> (seconds \<times> string) option \<Rightarrow> work_row list \<Rightarrow> work_row list list" where
  "board_scan_chunks n cursor rows =
     (let batch = board_batch n cursor rows in
      if batch = [] then []
      else batch # (if length batch < n then []
        else board_scan_chunks n (Some (w_updated (last batch), w_id (last batch))) rows))"
  by pat_completeness auto
termination
proof (relation "measure (\<lambda>(n, cursor, rows). length (filter (past_cursor cursor) rows))", goal_cases)
  case (2 n cursor rows batch)
  let ?w = "last batch" let ?c = "Some (w_updated (last batch), w_id (last batch))"
  have w: "?w \<in> set rows" "past_cursor cursor ?w"
    using 2 board_batch_in [of ?w n cursor rows] by auto
  have sub: "past_cursor cursor v" if "past_cursor ?c v" for v
    using that w(2) by (auto simp: past_cursor_def split: option.splits)
  have "\<not> past_cursor ?c ?w" by (simp add: past_cursor_def)
  then have "filter (past_cursor ?c) rows = filter (past_cursor ?c) (filter (past_cursor cursor) rows)"
    using sub by (simp add: conj_absorb) (metis (no_types, lifting) filter_cong)
  moreover have "length (filter (past_cursor ?c) (filter (past_cursor cursor) rows)) <
      length (filter (past_cursor cursor) rows)"
    using w \<open>\<not> past_cursor ?c ?w\<close> by (intro length_filter_less [of ?w]) auto
  ultimately show ?case by simp
qed simp

declare board_scan_chunks.simps [simp del]

lemma past_cursor_key: "past_cursor (Some (w_updated v, w_id v)) w \<longleftrightarrow> board_key v < board_key w"
  by (auto simp: past_cursor_def board_key_def less_prod_def)

lemma board_sorted:
  assumes "distinct (map w_id rows)"
  shows "sorted_wrt (<) (map board_key (sort_key board_key rows))"
proof -
  have "inj_on board_key (set rows)"
    using assms by (auto simp: distinct_map inj_on_def board_key_def)
  moreover have "distinct rows" using assms by (simp add: distinct_map)
  ultimately have "distinct (map board_key (sort_key board_key rows))"
    by (simp add: distinct_map)
  then show ?thesis by (simp add: strict_sorted_iff)
qed

lemma board_batch_next:
  assumes d: "distinct (map w_id rows)" and b: "batch = board_batch n cursor rows" "batch \<noteq> []" "length batch = n"
  shows "sort_key board_key (filter (past_cursor cursor) rows) =
    batch @ sort_key board_key (filter (past_cursor (Some (w_updated (last batch), w_id (last batch)))) rows)"
proof -
  let ?S = "sort_key board_key (filter (past_cursor cursor) rows)" and ?w = "last batch"
  let ?c = "Some (w_updated ?w, w_id ?w)"
  have strict: "sorted_wrt (<) (map board_key ?S)"
    using d by (intro board_sorted) (simp add: distinct_map_filter)
  have len: "n - 1 < length ?S" "0 < n" using b by (auto simp: board_batch_def)
  have w: "?w = ?S ! (n - 1)" using b len by (simp add: board_batch_def last_conv_nth)
  have in_w: "past_cursor cursor ?w" using b board_batch_in [of ?w n cursor rows] by simp
  have sub: "past_cursor cursor v" if "past_cursor ?c v" for v
    using that in_w by (auto simp: past_cursor_def split: option.splits)
  have "drop n ?S = filter (\<lambda>x. board_key ?w < board_key x) ?S"
    using drop_filter_sorted [OF strict len(1)] len(2) w by simp
  also have "\<dots> = filter (past_cursor ?c) ?S"
    by (intro filter_cong refl) (simp only: past_cursor_key)
  also have "\<dots> = sort_key board_key (filter (past_cursor ?c) (filter (past_cursor cursor) rows))"
    by (simp only: filter_sort)
  also have "filter (past_cursor ?c) (filter (past_cursor cursor) rows) = filter (past_cursor ?c) rows"
    using sub by (simp add: conj_absorb) (metis (no_types, lifting) filter_cong)
  finally have "drop n ?S = sort_key board_key (filter (past_cursor ?c) rows)" .
  moreover have "batch = take n ?S" using b(1) by (simp add: board_batch_def)
  ultimately show ?thesis by (metis append_take_drop_id)
qed

lemma board_scan_from:
  assumes "distinct (map w_id rows)" "0 < n"
  shows "concat (board_scan_chunks n cursor rows) = sort_key board_key (filter (past_cursor cursor) rows)"
  using assms
proof (induction n cursor rows rule: board_scan_chunks.induct)
  case (1 n cursor rows)
  let ?b = "board_batch n cursor rows"
  consider (none) "?b = []" | (short) "?b \<noteq> []" "length ?b < n" | (full) "?b \<noteq> []" "length ?b = n"
    by (metis board_batch_def length_take linorder_neqE_nat min.bounded_iff nat_less_le order_refl)
  then show ?case
  proof cases
    case none
    then have "sort_key board_key (filter (past_cursor cursor) rows) = []"
      using 1(3) by (simp add: board_batch_def)
    then show ?thesis using none by (simp add: board_scan_chunks.simps [of n cursor rows])
  next
    case short
    then have "?b = sort_key board_key (filter (past_cursor cursor) rows)"
      by (simp add: board_batch_def)
    then show ?thesis using short by (simp add: board_scan_chunks.simps [of n cursor rows])
  next
    case full
    then have "concat (board_scan_chunks n cursor rows) =
        ?b @ concat (board_scan_chunks n (Some (w_updated (last ?b), w_id (last ?b))) rows)"
      by (simp add: board_scan_chunks.simps [of n cursor rows] Let_def)
    then show ?thesis using 1(1) [OF refl full(1)] full 1(2,3) board_batch_next [OF 1(2) refl full] by simp
  qed
qed

lemma board_scan_bounded: "b \<in> set (board_scan_chunks n cursor rows) \<Longrightarrow> b \<noteq> [] \<and> length b \<le> n"
proof (induction n cursor rows rule: board_scan_chunks.induct)
  case (1 n cursor rows)
  have "length (board_batch n cursor rows) \<le> n" by (simp add: board_batch_def)
  then show ?case
    using 1(2) 1(1) [OF refl]
    by (subst (asm) board_scan_chunks.simps) (auto simp: Let_def split: if_split_asm)
qed

section \<open>What a status means\<close>

lemma status_done:
  "derive_work_status L lanes row t = ''done'' \<longleftrightarrow>
     \<not> truthy (field row ''archived_at'') \<and> row_intent row = ''done'' \<and>
     \<not> (local_live row \<and> \<not> is_observer_work_id lanes (str_or_empty L (field row ''work_id''))) \<and>
     truthy (field row ''has_artifact'') \<and>
     (\<not> needs_rubric L row \<or> field row ''rubric_verdict'' = JStr ''pass'' \<or> truthy (field row ''operator_ok_validated''))"
proof -
  have claim: "claim \<in> {JStr ''paused'', JStr ''blocked''} \<Longrightarrow> jtext claim \<noteq> ''done''" for claim by auto
  have closed: "''done'' \<notin> set closed_intents" by (simp add: closed_intents_def)
  show ?thesis
    using claim [of "field row ''claim_status''"] closed
    unfolding derive_work_status_def Let_def by (simp split: if_split)
qed

end
