(* ===== verification/Decisions.thy ===== *)
theory Decisions
  imports Panel
begin

text \<open>
  Standing decisions (coord_db.py, \<open>normalize_decision_scope\<close> and
  \<open>_decision_event_payload\<close> to \<open>_decision_immediate_successor_event_id\<close>): which of the decision
  events are in force when decisions supersede each other. The members of closed
  supersession cycles, found by the code in one pass over the pointers, are exactly the
  events that reach themselves.
\<close>

section \<open>Scopes\<close>

definition scope_prefix_ok :: "string \<Rightarrow> string \<Rightarrow> bool" where
  "scope_prefix_ok s p \<longleftrightarrow> prefix p s \<and> strip (drop (length p) s) \<noteq> []"

definition normalize_decision_scope :: "string option \<Rightarrow> err + string" where
  "normalize_decision_scope scope =
     (let s = (if clean scope = [] then ''global'' else clean scope) in
      if s = ''global'' \<or> scope_prefix_ok s ''initiative:'' \<or> scope_prefix_ok s ''module:'' then Inr s
      else Inl (ValueErr ''invalid decision scope''))"

section \<open>Numbers in a payload\<close>

text \<open>\<open>int(x)\<close> and \<open>float(x)\<close> of a parsed value; infinities and NaN are not represented.\<close>

definition to_int :: "json \<Rightarrow> int option" where
  "to_int j = (case j of
       JInt i \<Rightarrow> Some i
     | JBool b \<Rightarrow> Some (if b then 1 else 0)
     | JFloat q \<Rightarrow> Some (if 0 \<le> q then \<lfloor>q\<rfloor> else \<lceil>q\<rceil>)
     | JStr s \<Rightarrow> parse_int s
     | _ \<Rightarrow> None)"

definition digit_group :: "string \<Rightarrow> string option" where
  "digit_group s = (let g = split_on CHR ''_'' s in if list_all digits_only g then Some (concat g) else None)"

definition mantissa :: "string \<Rightarrow> rat option" where
  "mantissa m = (case split_on CHR ''.'' m of
       [a] \<Rightarrow> map_option (\<lambda>d. of_nat (nat_of_digits d)) (digit_group a)
     | [a, b] \<Rightarrow>
         if a = [] \<and> b = [] then None
         else (case (if a = [] then Some [] else digit_group a, if b = [] then Some [] else digit_group b) of
             (Some x, Some y) \<Rightarrow> Some (of_nat (nat_of_digits (x @ y)) / 10 ^ length y)
           | _ \<Rightarrow> None)
     | _ \<Rightarrow> None)"

definition exponent :: "string \<Rightarrow> int option" where
  "exponent rest = (case rest of [] \<Rightarrow> Some 0 | _ # x \<Rightarrow> if list_ex is_ws x then None else parse_int x)"

definition parse_float :: "string \<Rightarrow> rat option" where
  "parse_float v =
     (let s = strip v;
          neg = (case s of c # _ \<Rightarrow> c = CHR ''-'' | [] \<Rightarrow> False);
          body = (case s of c # cs \<Rightarrow> if c = CHR ''-'' \<or> c = CHR ''+'' then cs else s | [] \<Rightarrow> []);
          m = takeWhile (\<lambda>c. c \<noteq> CHR ''e'' \<and> c \<noteq> CHR ''E'') body
      in case (mantissa m, exponent (drop (length m) body)) of
          (Some q, Some e) \<Rightarrow> Some ((if neg then -1 else 1) * q * (if 0 \<le> e then 10 ^ nat e else 1 / 10 ^ nat (- e)))
        | _ \<Rightarrow> None)"

definition to_float :: "json \<Rightarrow> rat option" where
  "to_float j = (case j of
       JInt i \<Rightarrow> Some (of_int i)
     | JBool b \<Rightarrow> Some (if b then 1 else 0)
     | JFloat q \<Rightarrow> Some q
     | JStr s \<Rightarrow> parse_float s
     | _ \<Rightarrow> None)"

section \<open>The decision events\<close>

record version =
  n_id :: int
  n_ts :: seconds
  n_actor :: "string option"
  n_work :: "string option"
  n_refs :: json
  n_payload :: pyrow

definition decision_event_payload :: "event_row \<Rightarrow> pyrow" where
  "decision_event_payload e = (case e_payload e of JObj p \<Rightarrow> p | _ \<Rightarrow> [])"

definition version_of :: "event_row \<Rightarrow> err + version" where
  "version_of e =
     (let v = \<lparr>n_id = e_id e, n_ts = e_ts e, n_actor = e_actor e, n_work = e_work e, n_refs = e_refs e,
               n_payload = decision_event_payload e\<rparr>
      in case e_refs e of
           JRaw s \<Rightarrow> if s = [] then Inr (v\<lparr>n_refs := JList []\<rparr>) else Inl (ValueErr ''refs_json'')
         | _ \<Rightarrow> Inr v)"

fun mapE :: "('a \<Rightarrow> err + 'b) \<Rightarrow> 'a list \<Rightarrow> err + 'b list" where
  "mapE f [] = Inr []"
| "mapE f (x # xs) = bindE (f x) (\<lambda>y. bindE (mapE f xs) (\<lambda>ys. Inr (y # ys)))"

definition versions_of :: "db \<Rightarrow> err + version list" where
  "versions_of d = mapE version_of (sort_key e_id (filter (\<lambda>e. e_kind e = ''decision'') (d_events d)))"

definition supersedes_field :: "version \<Rightarrow> json" where
  "supersedes_field v = field (n_payload v) ''supersedes_event_id''"

text \<open>The pointers to decisions that exist, in the order of the versions.\<close>

definition pointer_of :: "int list \<Rightarrow> version \<Rightarrow> err + (int \<times> int) list" where
  "pointer_of ids v =
     (if supersedes_field v = JNull then Inr []
      else case to_int (supersedes_field v) of
          None \<Rightarrow> Inl (ValueErr ''supersedes_event_id'')
        | Some p \<Rightarrow> Inr (if p \<in> set ids then [(n_id v, p)] else []))"

definition pointers_of :: "version list \<Rightarrow> err + (int \<times> int) list" where
  "pointers_of vs = bindE (mapE (pointer_of (map n_id vs)) vs) (\<lambda>ps. Inr (concat ps))"

section \<open>Closed supersession cycles\<close>

text \<open>
  One walk of the colouring: \<open>visited\<close> are the nodes with a status; the walk returns its path
  and the node it stopped at.
\<close>

function cycle_walk :: "(int \<times> int) list \<Rightarrow> int list \<Rightarrow> int list \<Rightarrow> int \<Rightarrow> int list \<times> int" where
  "cycle_walk ps visited path cursor =
     (case map_of ps cursor of
        None \<Rightarrow> (path, cursor)
      | Some p \<Rightarrow> if cursor \<in> set visited \<union> set path then (path, cursor)
                 else cycle_walk ps visited (path @ [cursor]) p)"
  by pat_completeness auto
termination
proof (relation "measure (\<lambda>(ps, visited, path, cursor).
    length (filter (\<lambda>k. k \<notin> set visited \<union> set path) (map fst ps)))", goal_cases)
  case (2 ps visited path cursor p)
  have "cursor \<in> set (map fst ps)" using 2(1) by (metis domI dom_map_of_conv_image_fst set_map)
  then have "length (filter (\<lambda>k. k \<noteq> cursor) (filter (\<lambda>k. k \<notin> set visited \<union> set path) (map fst ps))) <
      length (filter (\<lambda>k. k \<notin> set visited \<union> set path) (map fst ps))"
    using 2(2) by (intro length_filter_less [of cursor]) auto
  moreover have "filter (\<lambda>k. k \<noteq> cursor) (filter (\<lambda>k. k \<notin> set visited \<union> set path) (map fst ps)) =
      filter (\<lambda>k. k \<notin> set visited \<union> set (path @ [cursor])) (map fst ps)"
    by (auto intro!: filter_cong)
  ultimately have "length (filter (\<lambda>k. k \<notin> set visited \<union> set (path @ [cursor])) (map fst ps)) <
      length (filter (\<lambda>k. k \<notin> set visited \<union> set path) (map fst ps))"
    by (simp only:)
  then show ?case by (simp add: conj_ac comp_def)
qed simp

declare cycle_walk.simps [simp del]

fun cycle_members_from :: "(int \<times> int) list \<Rightarrow> int list \<Rightarrow> int list \<Rightarrow> int list \<Rightarrow> int list" where
  "cycle_members_from ps visited found [] = found"
| "cycle_members_from ps visited found (start # starts) =
     (if start \<in> set visited then cycle_members_from ps visited found starts
      else let (path, cursor) = cycle_walk ps visited [] start
           in cycle_members_from ps (visited @ path)
                (if cursor \<in> set path then found @ dropWhile (\<lambda>x. x \<noteq> cursor) path else found) starts)"

definition decision_supersession_cycle_members :: "(int \<times> int) list \<Rightarrow> int list" where
  "decision_supersession_cycle_members ps = cycle_members_from ps [] [] (map fst ps)"

section \<open>Heads and conflicts\<close>

definition decision_is_valid_at :: "lib \<Rightarrow> pyrow \<Rightarrow> rat \<Rightarrow> string list \<Rightarrow> bool" where
  "decision_is_valid_at L p as_of fences \<longleftrightarrow>
     (case to_float (field p ''valid_from'') of Some q \<Rightarrow> q \<le> as_of | None \<Rightarrow> True) \<and>
     (case field p ''stale_if'' of
        JList xs \<Rightarrow> \<not> list_ex (\<lambda>x. (case x of JStr s \<Rightarrow> s | _ \<Rightarrow> py_str L x) \<in> set fences) xs
      | _ \<Rightarrow> True)"

definition all_terminals :: "version list \<Rightarrow> (int \<times> int) list \<Rightarrow> int list" where
  "all_terminals vs ps = filter (\<lambda>i. i \<notin> snd ` set ps) (map n_id vs)"

definition terminal_winner :: "version list \<Rightarrow> (int \<times> int) list \<Rightarrow> int \<Rightarrow> int option" where
  "terminal_winner vs ps parent =
     (case filter (\<lambda>i. map_of ps i = Some parent) (all_terminals vs ps) of
        [] \<Rightarrow> None | i # is \<Rightarrow> Some (foldl max i is))"

definition loses :: "version list \<Rightarrow> (int \<times> int) list \<Rightarrow> int \<Rightarrow> (int \<times> int \<times> int) option" where
  "loses vs ps i =
     (case map_of ps i of
        None \<Rightarrow> None
      | Some p \<Rightarrow> (case terminal_winner vs ps p of
            Some w \<Rightarrow> if w \<noteq> i then Some (i, p, w) else None
          | None \<Rightarrow> None))"

definition conflicts_of :: "version list \<Rightarrow> (int \<times> int) list \<Rightarrow> (int \<times> int \<times> int) list" where
  "conflicts_of vs ps = List.map_filter (loses vs ps) (all_terminals vs ps)"

definition resolvable_terminals :: "version list \<Rightarrow> (int \<times> int) list \<Rightarrow> int list" where
  "resolvable_terminals vs ps = filter (\<lambda>i. loses vs ps i = None) (all_terminals vs ps)"

definition version_at :: "version list \<Rightarrow> int \<Rightarrow> version option" where
  "version_at vs i = find (\<lambda>v. n_id v = i) vs"

definition decision_chain_walk_max_depth :: nat where
  "decision_chain_walk_max_depth = 200"

fun walk_back ::
  "lib \<Rightarrow> version list \<Rightarrow> (int \<times> int) list \<Rightarrow> rat \<Rightarrow> string list \<Rightarrow> nat \<Rightarrow> int list \<Rightarrow> int \<Rightarrow> version option" where
  "walk_back L vs ps as_of fences 0 seen cursor = None"
| "walk_back L vs ps as_of fences (Suc n) seen cursor =
     (if cursor \<in> set seen then None
      else case version_at vs cursor of
          None \<Rightarrow> None
        | Some v \<Rightarrow>
            if decision_is_valid_at L (n_payload v) as_of fences then Some v
            else (case map_of ps cursor of
                None \<Rightarrow> None
              | Some p \<Rightarrow> walk_back L vs ps as_of fences n (cursor # seen) p))"

definition head_of :: "lib \<Rightarrow> version list \<Rightarrow> (int \<times> int) list \<Rightarrow> rat \<Rightarrow> string list \<Rightarrow> int \<Rightarrow> version option" where
  "head_of L vs ps as_of fences i = walk_back L vs ps as_of fences decision_chain_walk_max_depth [] i"

definition head_wanted :: "lib \<Rightarrow> string \<Rightarrow> string option \<Rightarrow> version \<Rightarrow> bool" where
  "head_wanted L work scope v \<longleftrightarrow>
     (work \<noteq> [] \<longrightarrow> otext (n_work v) = work) \<and>
     (case scope of None \<Rightarrow> True | Some s \<Rightarrow> str_or_empty L (field (n_payload v) ''scope'') = s)"

definition wanted_scope :: "string option \<Rightarrow> err + string option" where
  "wanted_scope scope =
     (if clean scope = [] then Inr None
      else bindE (normalize_decision_scope (Some (clean scope))) (\<lambda>s. Inr (Some s)))"

definition resolve_decision_heads_and_conflicts ::
  "lib \<Rightarrow> db \<Rightarrow> string option \<Rightarrow> string option \<Rightarrow> rat \<Rightarrow> string list
     \<Rightarrow> err + (version list \<times> (int \<times> int \<times> int) list)" where
  "resolve_decision_heads_and_conflicts L d work_id scope as_of fences =
     bindE (wanted_scope scope) (\<lambda>want.
     bindE (versions_of d) (\<lambda>vs.
     bindE (pointers_of vs) (\<lambda>ps.
       let heads = List.map_filter (head_of L vs ps as_of fences) (resolvable_terminals vs ps) in
       Inr (rev (sort_key n_id (filter (head_wanted L (clean work_id) want) heads)), conflicts_of vs ps))))"

definition resolve_decision_heads ::
  "lib \<Rightarrow> db \<Rightarrow> string option \<Rightarrow> string option \<Rightarrow> rat \<Rightarrow> string list \<Rightarrow> err + version list" where
  "resolve_decision_heads L d work_id scope as_of fences =
     bindE (resolve_decision_heads_and_conflicts L d work_id scope as_of fences) (\<lambda>(hs, cs). Inr hs)"

section \<open>The cycle members are the events that reach themselves\<close>

definition on_cycle :: "(int \<Rightarrow> int option) \<Rightarrow> int \<Rightarrow> bool" where
  "on_cycle f x \<longleftrightarrow> (\<exists>n > 0. hop f n x = Some x)"

definition closed_under :: "(int \<Rightarrow> int option) \<Rightarrow> int set \<Rightarrow> bool" where
  "closed_under f S \<longleftrightarrow> (\<forall>x \<in> S. \<forall>p. f x = Some p \<longrightarrow> p \<in> S)"

fun chain :: "(int \<Rightarrow> int option) \<Rightarrow> int list \<Rightarrow> int \<Rightarrow> bool" where
  "chain f [] c = True"
| "chain f (x # xs) c = (f x = Some (case xs of [] \<Rightarrow> c | y # _ \<Rightarrow> y) \<and> chain f xs c)"

lemma chain_snoc: "chain f (xs @ [x]) c \<longleftrightarrow> chain f xs x \<and> f x = Some c"
  by (induction xs) (auto split: list.splits)

lemma chain_hop: "chain f xs c \<Longrightarrow> x \<in> set xs \<Longrightarrow> \<exists>n > 0. hop f n x = Some c"
proof (induction xs arbitrary: x)
  case Nil
  then show ?case by simp
next
  case (Cons y ys)
  show ?case
  proof (cases ys)
    case Nil
    then show ?thesis using Cons.prems by (auto intro!: exI [of _ 1])
  next
    case (Cons z zs)
    then have z: "f y = Some z" "z \<in> set ys" "chain f ys c" using Cons.prems by auto
    obtain n where "hop f n z = Some c" using Cons.IH [OF z(3,2)] by blast
    then have "hop f (Suc n) y = Some c" using z(1) by simp
    then show ?thesis using Cons.IH [OF z(3)] Cons.prems(2) by (metis set_ConsD zero_less_Suc)
  qed
qed

lemma closed_hop: "closed_under f S \<Longrightarrow> x \<in> S \<Longrightarrow> hop f n x = Some y \<Longrightarrow> y \<in> S"
  by (induction n arbitrary: x) (auto simp: closed_under_def split: option.splits)

lemma on_cycle_repeat: "hop f n x = Some x \<Longrightarrow> hop f (m * n) x = Some x"
  by (induction m) (simp_all add: hop_add)

text \<open>A node outside a closed set from which the set is reached is on no cycle.\<close>

lemma leads_away:
  assumes "closed_under f S" "hop f m x = Some s" "s \<in> S" "x \<notin> S"
  shows "\<not> on_cycle f x"
proof
  assume "on_cycle f x"
  then obtain n where n: "0 < n" "hop f n x = Some x" by (auto simp: on_cycle_def)
  have "m \<le> m * n" using n(1) by simp
  moreover have "hop f (m * n) x = Some x" by (rule on_cycle_repeat [OF n(2)])
  ultimately have "hop f (m * n - m) s = Some x"
    using hop_add [of f m "m * n - m" x] assms(2) by simp
  then show False using closed_hop [OF assms(1,3)] assms(4) by blast
qed

lemma cycle_walk_grows: "cycle_walk ps visited path cursor = (path', c) \<Longrightarrow> set path \<subseteq> set path'"
proof (induction ps visited path cursor rule: cycle_walk.induct)
  case (1 ps visited path cursor)
  show ?case
  proof (cases "map_of ps cursor = None \<or> cursor \<in> set visited \<union> set path")
    case True
    then have "path' = path" using 1(2) by (auto simp: cycle_walk.simps [of ps visited path cursor] split: option.splits)
    then show ?thesis by simp
  next
    case False
    then obtain p where p: "map_of ps cursor = Some p" by auto
    then have "cycle_walk ps visited (path @ [cursor]) p = (path', c)"
      using 1(2) False by (simp add: cycle_walk.simps [of ps visited path cursor])
    from 1(1) [OF p _ this] False show ?thesis by simp
  qed
qed

lemma cycle_walk_spec:
  assumes "cycle_walk ps visited path cursor = (path', c)"
    and "chain (map_of ps) path cursor" "distinct path" "set path \<inter> set visited = {}"
  shows "chain (map_of ps) path' c \<and> distinct path' \<and> set path' \<inter> set visited = {} \<and>
    (map_of ps c = None \<or> c \<in> set visited \<union> set path') \<and>
    (map_of ps cursor \<noteq> None \<longrightarrow> cursor \<in> set path' \<union> set visited)"
  using assms
proof (induction ps visited path cursor rule: cycle_walk.induct)
  case (1 ps visited path cursor)
  show ?case
  proof (cases "map_of ps cursor")
    case None
    then have "path' = path" "c = cursor" using 1(2) by (simp_all add: cycle_walk.simps)
    with None 1(3-5) show ?thesis by simp
  next
    case (Some p)
    show ?thesis
    proof (cases "cursor \<in> set visited \<union> set path")
      case True
      then have "path' = path" "c = cursor"
        using 1(2) Some by (simp_all add: cycle_walk.simps split: if_split_asm)
      with True 1(3-5) show ?thesis by auto
    next
      case False
      then have w: "cycle_walk ps visited (path @ [cursor]) p = (path', c)"
        using 1(2) Some by (subst (asm) cycle_walk.simps) (simp split: if_split_asm)
      have step: "chain (map_of ps) (path @ [cursor]) p" "distinct (path @ [cursor])"
          "set (path @ [cursor]) \<inter> set visited = {}"
        using 1(3-5) Some False by (auto simp: chain_snoc)
      note IH = 1(1) [OF Some False w step]
      have "cursor \<in> set path'" using cycle_walk_grows [OF w] by simp
      then show ?thesis using IH by simp
    qed
  qed
qed

lemma chain_reach: "chain f (x # xs) c \<Longrightarrow> y \<in> set (x # xs) \<Longrightarrow> \<exists>m. hop f m x = Some y"
proof (induction xs arbitrary: x)
  case Nil
  then show ?case by (auto intro!: exI [of _ 0])
next
  case (Cons z zs)
  then have z: "f x = Some z" "chain f (z # zs) c" by auto
  show ?case
  proof (cases "y = x")
    case True
    then show ?thesis by (auto intro!: exI [of _ 0])
  next
    case False
    then have "y \<in> set (z # zs)" using Cons.prems(2) by simp
    then obtain m where "hop f m z = Some y" using Cons.IH [OF z(2)] by blast
    then show ?thesis using z(1) by (intro exI [of _ "Suc m"]) simp
  qed
qed

lemma chain_next: "chain f xs c \<Longrightarrow> y \<in> set xs \<Longrightarrow> \<exists>z. f y = Some z \<and> (z = c \<or> z \<in> set xs)"
proof (induction xs)
  case Nil
  then show ?case by simp
next
  case (Cons x xs)
  show ?case
  proof (cases "y = x")
    case True
    then show ?thesis using Cons.prems(1) by (cases xs) simp_all
  next
    case False
    then have "chain f xs c" "y \<in> set xs" using Cons.prems by simp_all
    from Cons.IH [OF this] show ?thesis by auto
  qed
qed

lemma chain_append: "chain f (us @ c # vs) d \<Longrightarrow> chain f us c \<and> chain f (c # vs) d"
proof (induction us)
  case (Cons u us)
  then show ?case by (cases us) simp_all
qed simp

lemma chain_cycle_part:
  assumes "chain f path c" "c \<in> set path" "distinct path" "x \<in> set path"
  shows "on_cycle f x \<longleftrightarrow> x \<in> set (dropWhile (\<lambda>y. y \<noteq> c) path)"
proof -
  obtain us vs where p: "path = us @ c # vs" "c \<notin> set us" using split_list_first [OF assms(2)] by blast
  have dw: "dropWhile (\<lambda>y. y \<noteq> c) path = c # vs"
    unfolding p(1) using p(2) by (subst dropWhile_append2) auto
  have parts: "chain f us c" "chain f (c # vs) c" using chain_append [of f us c vs c] assms(1) p(1) by auto
  have cyc: "on_cycle f y" if y: "y \<in> set (c # vs)" for y
  proof -
    obtain n where n: "0 < n" "hop f n y = Some c" using chain_hop [OF parts(2) y] by blast
    obtain m where "hop f m c = Some y" using chain_reach [OF parts(2) y] by blast
    then have "hop f (n + m) y = Some y" using n(2) by (simp add: hop_add)
    with n(1) show ?thesis by (auto simp: on_cycle_def)
  qed
  have closed: "closed_under f (set (c # vs))"
    using chain_next [OF parts(2)] by (fastforce simp: closed_under_def)
  have "\<not> on_cycle f x" if out: "x \<notin> set (c # vs)"
  proof -
    have "x \<in> set us" using out assms(4) p(1) by auto
    then obtain n where "hop f n x = Some c" using chain_hop [OF parts(1)] by blast
    from leads_away [OF closed this _ out] show ?thesis by simp
  qed
  with cyc dw show ?thesis by auto
qed

definition walked :: "(int \<Rightarrow> int option) \<Rightarrow> int list \<Rightarrow> int list \<Rightarrow> bool" where
  "walked f visited found \<longleftrightarrow> closed_under f (set visited \<union> {x. f x = None}) \<and>
     (\<forall>x \<in> set visited. f x \<noteq> None) \<and> set found = {x \<in> set visited. on_cycle f x}"

lemma walked_step:
  assumes w: "walked f visited found" and c: "chain f path c" "distinct path" "set path \<inter> set visited = {}"
    and stop: "f c = None \<or> c \<in> set visited \<union> set path"
  shows "walked f (visited @ path) (if c \<in> set path then found @ dropWhile (\<lambda>x. x \<noteq> c) path else found)"
proof -
  let ?S = "set visited \<union> {x. f x = None}"
  have def: "f x \<noteq> None" if "x \<in> set path" for x using chain_next [OF c(1) that] by auto
  have closed: "closed_under f (set (visited @ path) \<union> {x. f x = None})"
    unfolding closed_under_def
  proof (intro ballI allI impI)
    fix x p assume x: "x \<in> set (visited @ path) \<union> {x. f x = None}" "f x = Some p"
    show "p \<in> set (visited @ path) \<union> {x. f x = None}"
    proof (cases "x \<in> set path")
      case True
      from chain_next [OF c(1) this] x(2) stop show ?thesis by auto
    next
      case False
      then have "x \<in> ?S" using x by auto
      then have "p \<in> ?S" using w x(2) unfolding walked_def closed_under_def by blast
      then show ?thesis by auto
    qed
  qed
  have cyc: "{x \<in> set path. on_cycle f x} = (if c \<in> set path then set (dropWhile (\<lambda>x. x \<noteq> c) path) else {})"
  proof (cases "c \<in> set path")
    case True
    then show ?thesis using chain_cycle_part [OF c(1) True c(2)] set_dropWhileD by fastforce
  next
    case False
    have "\<not> on_cycle f x" if x: "x \<in> set path" for x
    proof -
      obtain n where n: "hop f n x = Some c" using chain_hop [OF c(1) x] by blast
      have "closed_under f ?S" using w by (simp add: walked_def)
      moreover have "c \<in> ?S" using stop False by auto
      moreover have "x \<notin> ?S" using x def c(3) by auto
      ultimately show ?thesis using leads_away n by blast
    qed
    with False show ?thesis by auto
  qed
  have "{x \<in> set (visited @ path). on_cycle f x} = set found \<union> {x \<in> set path. on_cycle f x}"
    using w by (auto simp: walked_def)
  with closed cyc def w show ?thesis by (auto simp: walked_def)
qed

lemma cycle_members_from_walked:
  assumes "walked (map_of ps) visited found" "set starts \<subseteq> fst ` set ps"
  shows "\<exists>V. set visited \<union> set starts \<subseteq> set V \<and> walked (map_of ps) V (cycle_members_from ps visited found starts)"
  using assms
proof (induction ps visited found starts rule: cycle_members_from.induct)
  case (1 ps visited found)
  then show ?case by auto
next
  case (2 ps visited found start starts)
  show ?case
  proof (cases "start \<in> set visited")
    case True
    then show ?thesis using 2(1) 2(3,4) by auto
  next
    case False
    obtain path c where w: "cycle_walk ps visited [] start = (path, c)" by fastforce
    note spec = cycle_walk_spec [OF w]
    have "map_of ps start \<noteq> None" using 2(4) by (simp add: map_of_eq_None_iff)
    then have s: "start \<in> set path" using spec False by auto
    let ?found = "if c \<in> set path then found @ dropWhile (\<lambda>x. x \<noteq> c) path else found"
    have step: "walked (map_of ps) (visited @ path) ?found"
      using walked_step [OF 2(3)] spec by simp
    have "set starts \<subseteq> fst ` set ps" using 2(4) by simp
    from 2(2) [OF False w [symmetric] refl step this]
    obtain V where "set (visited @ path) \<union> set starts \<subseteq> set V"
        "walked (map_of ps) V (cycle_members_from ps (visited @ path) ?found starts)"
      by blast
    with False w s show ?thesis by (intro exI [of _ V]) auto
  qed
qed

lemma cycle_members_exact: "set (decision_supersession_cycle_members ps) = {x. on_cycle (map_of ps) x}"
proof -
  have "walked (map_of ps) [] []" by (simp add: walked_def closed_under_def)
  from cycle_members_from_walked [OF this, of "map fst ps"]
  obtain V where V: "fst ` set ps \<subseteq> set V" "walked (map_of ps) V (cycle_members_from ps [] [] (map fst ps))"
    by auto
  have "x \<in> fst ` set ps" if x: "on_cycle (map_of ps) x" for x
  proof -
    obtain n where n: "0 < n" "hop (map_of ps) n x = Some x" using x by (auto simp: on_cycle_def)
    then have "map_of ps x \<noteq> None" by (cases n) (auto split: option.splits)
    then show ?thesis by (simp add: map_of_eq_None_iff)
  qed
  with V show ?thesis by (auto simp: walked_def decision_supersession_cycle_members_def)
qed

section \<open>What a head is\<close>

text \<open>\<open>v\<close> is the newest valid version on the chain that starts at a terminal.\<close>

definition newest_valid ::
  "lib \<Rightarrow> version list \<Rightarrow> (int \<times> int) list \<Rightarrow> rat \<Rightarrow> string list \<Rightarrow> int \<Rightarrow> nat \<Rightarrow> version \<Rightarrow> bool" where
  "newest_valid L vs ps as_of fences start k v \<longleftrightarrow>
     decision_is_valid_at L (n_payload v) as_of fences \<and>
     (\<exists>x. hop (map_of ps) k start = Some x \<and> version_at vs x = Some v) \<and>
     (\<forall>j < k. \<exists>x u. hop (map_of ps) j start = Some x \<and> version_at vs x = Some u \<and>
        \<not> decision_is_valid_at L (n_payload u) as_of fences)"

lemma newest_valid_Suc:
  assumes "map_of ps start = Some p" "version_at vs start = Some u"
    "\<not> decision_is_valid_at L (n_payload u) as_of fences"
  shows "newest_valid L vs ps as_of fences start (Suc k) v \<longleftrightarrow> newest_valid L vs ps as_of fences p k v"
proof -
  have "(\<forall>j < Suc k. \<exists>x u. hop (map_of ps) j start = Some x \<and> version_at vs x = Some u \<and>
      \<not> decision_is_valid_at L (n_payload u) as_of fences) \<longleftrightarrow>
    (\<forall>j < k. \<exists>x u. hop (map_of ps) j p = Some x \<and> version_at vs x = Some u \<and>
      \<not> decision_is_valid_at L (n_payload u) as_of fences)"
    using assms by (simp add: All_less_Suc2)
  then show ?thesis using assms(1) by (simp add: newest_valid_def)
qed

lemma walk_back_sound:
  "walk_back L vs ps as_of fences n seen cursor = Some v \<Longrightarrow>
   \<exists>k < n. newest_valid L vs ps as_of fences cursor k v"
proof (induction n arbitrary: seen cursor)
  case 0
  then show ?case by simp
next
  case (Suc n)
  from Suc.prems have "cursor \<notin> set seen" by (auto split: if_split_asm)
  with Suc.prems obtain u where u: "version_at vs cursor = Some u" by (auto split: option.splits)
  show ?case
  proof (cases "decision_is_valid_at L (n_payload u) as_of fences")
    case True
    then have "v = u" using Suc.prems u by (simp split: if_split_asm)
    with True u have "newest_valid L vs ps as_of fences cursor 0 v" by (simp add: newest_valid_def)
    then show ?thesis by blast
  next
    case False
    with Suc.prems u obtain p where p: "map_of ps cursor = Some p"
        "walk_back L vs ps as_of fences n (cursor # seen) p = Some v"
      by (auto split: if_split_asm option.splits)
    from Suc.IH [OF p(2)] obtain k where "k < n" "newest_valid L vs ps as_of fences p k v" by blast
    then show ?thesis using newest_valid_Suc [OF p(1) u False] by (intro exI [of _ "Suc k"]) simp
  qed
qed

lemma walk_back_complete:
  assumes "newest_valid L vs ps as_of fences cursor k v" "k < n"
    and "\<And>j x. j \<le> k \<Longrightarrow> hop (map_of ps) j cursor = Some x \<Longrightarrow> x \<notin> set seen"
    and "\<And>x. \<not> on_cycle (map_of ps) x"
  shows "walk_back L vs ps as_of fences n seen cursor = Some v"
  using assms(1-3)
proof (induction n arbitrary: seen cursor k)
  case 0
  then show ?case by simp
next
  case (Suc n)
  have fresh: "cursor \<notin> set seen" using Suc.prems(3) [of 0 cursor] by simp
  show ?case
  proof (cases k)
    case 0
    then show ?thesis using Suc.prems(1) fresh by (auto simp: newest_valid_def)
  next
    case (Suc m)
    then obtain u where u: "version_at vs cursor = Some u" "\<not> decision_is_valid_at L (n_payload u) as_of fences"
      using Suc.prems(1) by (force simp: newest_valid_def)
    have "hop (map_of ps) (Suc m) cursor \<noteq> None" using Suc.prems(1) Suc by (auto simp: newest_valid_def)
    then obtain p where p: "map_of ps cursor = Some p" by (cases "map_of ps cursor") auto
    have "walk_back L vs ps as_of fences n (cursor # seen) p = Some v"
    proof (rule Suc.IH [of p m])
      show "newest_valid L vs ps as_of fences p m v"
        using Suc.prems(1) Suc newest_valid_Suc [OF p u] by simp
      show "m < n" using Suc.prems(2) Suc by simp
      fix j x assume j: "j \<le> m" "hop (map_of ps) j p = Some x"
      then have "hop (map_of ps) (Suc j) cursor = Some x" using p by simp
      moreover from this have "x \<noteq> cursor" using assms(4) by (auto simp: on_cycle_def simp del: hop.simps(2))
      ultimately show "x \<notin> set (cursor # seen)" using Suc.prems(3) [of "Suc j" x] j Suc by simp
    qed
    then show ?thesis using fresh u p by simp
  qed
qed

lemma backward_no_cycle:
  assumes "\<forall>(c, p) \<in> set ps. p < c"
  shows "\<not> on_cycle (map_of ps) x"
proof
  have step: "map_of ps c = Some p \<Longrightarrow> p < c" for c p using assms by (auto dest: map_of_SomeD)
  have "hop (map_of ps) n y = Some z \<Longrightarrow> z \<le> y" for n y z
    by (induction n arbitrary: y) (auto dest!: step split: option.splits intro: order_trans less_imp_le)
  moreover assume "on_cycle (map_of ps) x"
  then obtain n p where "map_of ps x = Some p" "hop (map_of ps) n p = Some x"
    unfolding on_cycle_def by (metis gr0_implies_Suc hop.simps(2) option.case_eq_if option.collapse option.distinct(1))
  ultimately show False using step by (metis not_less)
qed

lemma foldl_max_ge: "x \<in> set (i # is) \<Longrightarrow> x \<le> foldl max (i :: int) is"
proof (induction "is" arbitrary: i x)
  case (Cons j js)
  have m: "max i j \<le> foldl max (max i j) js" by (rule Cons.IH) simp
  have "y \<le> foldl max (max i j) js" if "y \<in> set js" for y using that Cons.IH [of "max i j"] Cons.IH by auto
  then show ?case using Cons.prems m by auto
qed simp

lemma foldl_max_in: "foldl max (i :: int) is \<in> set (i # is)"
proof (induction "is" arbitrary: i)
  case (Cons j js)
  show ?case using Cons.IH [of "max i j"] by (auto simp: max_def split: if_splits)
qed simp

text \<open>Of the terminals that supersede the same decision exactly the newest is kept.\<close>

lemma terminal_winner_max:
  assumes "i \<in> set (all_terminals vs ps)" "map_of ps i = Some p"
  shows "\<exists>w. terminal_winner vs ps p = Some w \<and> w \<in> set (all_terminals vs ps) \<and> map_of ps w = Some p \<and> i \<le> w"
proof -
  have i: "i \<in> set (filter (\<lambda>i. map_of ps i = Some p) (all_terminals vs ps))" using assms by simp
  then obtain a as where a: "filter (\<lambda>i. map_of ps i = Some p) (all_terminals vs ps) = a # as"
    by (cases "filter (\<lambda>i. map_of ps i = Some p) (all_terminals vs ps)") auto
  have "foldl max a as \<in> set (filter (\<lambda>i. map_of ps i = Some p) (all_terminals vs ps))"
    unfolding a by (rule foldl_max_in)
  moreover have "i \<le> foldl max a as" using foldl_max_ge i unfolding a by blast
  ultimately have "foldl max a as \<in> set (all_terminals vs ps) \<and> map_of ps (foldl max a as) = Some p \<and>
      i \<le> foldl max a as"
    by (simp only: set_filter mem_Collect_eq)
  then show ?thesis by (simp add: terminal_winner_def a)
qed

lemma resolvable_iff:
  "i \<in> set (resolvable_terminals vs ps) \<longleftrightarrow> i \<in> set (all_terminals vs ps) \<and>
     (\<forall>j \<in> set (all_terminals vs ps). map_of ps i \<noteq> None \<longrightarrow> map_of ps j = map_of ps i \<longrightarrow> j \<le> i)"
proof (cases "map_of ps i")
  case None
  then show ?thesis by (simp add: resolvable_terminals_def loses_def)
next
  case (Some p)
  show ?thesis
  proof (cases "i \<in> set (all_terminals vs ps)")
    case True
    obtain w where w: "terminal_winner vs ps p = Some w" "w \<in> set (all_terminals vs ps)" "map_of ps w = Some p" "i \<le> w"
      using terminal_winner_max [OF True Some] by blast
    have "j \<le> w" if "j \<in> set (all_terminals vs ps)" "map_of ps j = Some p" for j
      using terminal_winner_max [OF that] w(1) by auto
    then have "(\<forall>j \<in> set (all_terminals vs ps). map_of ps j = Some p \<longrightarrow> j \<le> i) \<longleftrightarrow> w = i"
      using w by force
    moreover have "loses vs ps i = None \<longleftrightarrow> w = i" using Some w(1) by (simp add: loses_def)
    ultimately show ?thesis using True Some by (simp add: resolvable_terminals_def)
  qed (simp add: resolvable_terminals_def)
qed

lemma heads_Inr:
  assumes "resolve_decision_heads_and_conflicts L d work_id scope as_of fences = Inr (hs, cs)"
  shows "\<exists>want vs ps. wanted_scope scope = Inr want \<and> versions_of d = Inr vs \<and> pointers_of vs = Inr ps \<and>
     cs = conflicts_of vs ps \<and> sorted (rev (map n_id hs)) \<and>
     (\<forall>v. v \<in> set hs \<longleftrightarrow> head_wanted L (clean work_id) want v \<and>
        (\<exists>i \<in> set (resolvable_terminals vs ps). head_of L vs ps as_of fences i = Some v))"
proof -
  obtain want vs ps where s: "wanted_scope scope = Inr want" "versions_of d = Inr vs" "pointers_of vs = Inr ps"
      "hs = rev (sort_key n_id (filter (head_wanted L (clean work_id) want)
        (List.map_filter (head_of L vs ps as_of fences) (resolvable_terminals vs ps))))" "cs = conflicts_of vs ps"
    using assms unfolding resolve_decision_heads_and_conflicts_def Let_def by (auto simp: bindE_Inr_iff)
  have "set (List.map_filter f xs) = {y. \<exists>x \<in> set xs. f x = Some y}" for f :: "int \<Rightarrow> version option" and xs
    by (induction xs) (auto simp: List.map_filter_simps split: option.splits)
  then have "v \<in> set hs \<longleftrightarrow> head_wanted L (clean work_id) want v \<and>
        (\<exists>i \<in> set (resolvable_terminals vs ps). head_of L vs ps as_of fences i = Some v)" for v
    unfolding s(4) by auto
  moreover have "sorted (rev (map n_id hs))" unfolding s(4) by (simp add: rev_map [symmetric])
  ultimately show ?thesis using s by blast
qed

end
