(* ===== verification/Machine.thy ===== *)
theory Machine
  imports Completion Blocked Runs Inbox BoardStatus Decisions
begin

text \<open>
  The coordination database as a state machine: one rule per public operation of coord_db.py,
  each step being the change a committed transaction makes (a refused operation leaves the
  database as it is, see \<open>tx_rolls_back\<close>). Clock readings, fresh identifiers and what the file
  system shows are arbitrary in every step, so the steps cover any interleaving of sessions.
\<close>

section \<open>Steps\<close>

inductive coord_step :: "lib \<Rightarrow> string list \<Rightarrow> db \<Rightarrow> db \<Rightarrow> bool" for L :: lib and lanes :: "string list" where
  register: "register_session lanes probe host g t d = Inr (d', sid) \<Longrightarrow> coord_step L lanes d d'"
| renew: "coord_step L lanes d (renew_lease lanes sid lease t d)"
| end_: "coord_step L lanes d (end_session sid t d)"
| reap: "coord_step L lanes d (fst (reap_zombie_sessions t grace dead_pids dead_sessions d))"
| sweep: "release_expired_claims_batch L t d = Inr (d', rows, ev) \<Longrightarrow> coord_step L lanes d d'"
| sidecar: "renew_claim_from_sidecar i work sid lease t d = Inr (d', b) \<Longrightarrow> coord_step L lanes d d'"
| upsert: "upsert_work L lanes work fs t d = Inr (d', work') \<Longrightarrow> coord_step L lanes d d'"
| create: "create_work L lanes work fs t d = Inr (d', b) \<Longrightarrow> coord_step L lanes d d'"
| claim: "claim_work L lanes i0 token sid work st lease fs t0 t d = Inr (d', i) \<Longrightarrow> coord_step L lanes d d'"
| heartbeat: "heartbeat_claim lanes i lease st sid actor sys t d = Inr d' \<Longrightarrow> coord_step L lanes d d'"
| release: "release_claim L lanes i status reason ns rwh pred manual sid actor sys t d = Inr d' \<Longrightarrow> coord_step L lanes d d'"
| complete: "complete_claim L W lanes art i path kind enforce body source sid actor sys t d = Inr (d', stored) \<Longrightarrow>
    coord_step L lanes d d'"
| classify: "classify_blocked_work L lanes work reason v expected actor sid nt t d = Inr (d', r) \<Longrightarrow> coord_step L lanes d d'"
| migrate: "migrate_blocked_resume_predicate L lanes work v ec ew rwh pred oid refs nt actor sid t d = Inr (d', r) \<Longrightarrow>
    coord_step L lanes d d'"
| unblock: "release_classified_block L lanes work ec actor sid nt t d = Inr (d', r) \<Longrightarrow> coord_step L lanes d d'"
| recover: "recover_orphaned_block L lanes work actor sid nt t d = Inr (d', r) \<Longrightarrow> coord_step L lanes d d'"
| appear: "appear_run run_probe host new_id run_id args t d = Inr (d', i) \<Longrightarrow> coord_step L lanes d d'"
| finalize: "coord_step L lanes d (finalize_run i state t d)"
| prune_half: "coord_step L lanes d (prune_write rows t d)"
| normalize_: "coord_step L lanes d (normalize_writes ids t d)"
| note_: "post_note work actor sid ta ts title body refs t now d = Inr (d', ev) \<Longrightarrow> coord_step L lanes d d'"
| advance: "coord_step L lanes d (advance_cursor recipient seen sid t d)"

inductive coord_reachable :: "lib \<Rightarrow> string list \<Rightarrow> db \<Rightarrow> bool" for L :: lib and lanes :: "string list" where
  init: "coord_reachable L lanes empty_db"
| next_: "coord_reachable L lanes d \<Longrightarrow> coord_step L lanes d d' \<Longrightarrow> coord_reachable L lanes d'"

inductive_cases coord_reachableE: "coord_reachable L lanes d"

section \<open>The constraints hold in every reachable state\<close>

lemma wf_prune_write: "wf_db d \<Longrightarrow> wf_db (prune_write rows t d)"
  by (auto simp: prune_write_def intro: wf_upd_works)

lemma wf_normalize_writes: "wf_db d \<Longrightarrow> wf_db (normalize_writes ids t d)"
  unfolding normalize_writes_def
proof (induction ids arbitrary: d)
  case (Cons i ids)
  have "wf_db (upd_works (\<lambda>w. w_id w = i \<and> w_intent w = ''running'') (requeue t) d)"
    by (rule wf_upd_works [OF _ Cons.prems]) (simp add: requeue_def)
  from Cons.IH [OF this] show ?case by simp
qed simp

lemma wf_reap_zombies: "wf_db d \<Longrightarrow> wf_db (fst (reap_zombie_sessions t grace dead_pids dead_sessions d))"
  by (simp add: reap_zombie_sessions_def Let_def case_prod_beta reap_all_wf)

lemma wf_batch: "wf_db d \<Longrightarrow> release_expired_claims_batch L t d = Inr (d', rows, ev) \<Longrightarrow> wf_db d'"
  using wf_release_expired [of d t None]
  by (auto simp: release_expired_claims_batch_def Let_def bindE_Inr_iff split: prod.splits if_split_asm
      intro: wf_insert_event)

lemma wf_sidecar: "wf_db d \<Longrightarrow> renew_claim_from_sidecar i work sid lease t d = Inr (d', b) \<Longrightarrow> wf_db d'"
  by (auto simp: renew_claim_from_sidecar_def Let_def intro: renew_update.wf split: if_split_asm)

lemma wf_post_note: "wf_db d \<Longrightarrow> post_note work actor sid ta ts title body refs t now d = Inr (d', ev) \<Longrightarrow> wf_db d'"
  by (auto simp: post_note_def Let_def bindE_Inr_iff intro: wf_insert_event split: if_split_asm)

lemma wf_advance: "wf_db d \<Longrightarrow> wf_db (advance_cursor r n s t d)"
  by (simp add: wf_db_defs advance_cursor_def bump_cursor_def Let_def)

lemmas step_wf_facts = wf_end_session wf_reap_zombies wf_finalize_run wf_prune_write wf_normalize_writes wf_advance
  wf_register_session wf_batch wf_sidecar wf_upsert wf_create_work wf_heartbeat_claim wf_release_claim
  wf_complete_claim wf_classify wf_migrate wf_release_block wf_recover wf_appear_run wf_post_note

lemma step_wf: "coord_step L lanes d d' \<Longrightarrow> wf_db d \<Longrightarrow> wf_db d'"
proof (induction rule: coord_step.induct)
  case (renew d sid lease t) then show ?case by (simp add: renew_lease_def wf_renew)
next
  case (claim i0 token sid work st lease fs t0 t d d' i) then show ?case using claim_work_grants by blast
qed (rule step_wf_facts, assumption+)+

lemma reachable_wf: "coord_reachable L lanes d \<Longrightarrow> wf_db d"
  by (induction rule: coord_reachable.induct) (auto intro: wf_empty_db step_wf)

end
