(* ===== verification/History.thy ===== *)
theory History
  imports Machine
begin

text \<open>
  What no operation can undo: the log only grows, no row is ever deleted, an ended claim stays
  ended and a finished run stays as it is. The relation \<open>kept\<close> is proved of every statement and
  composed along the operations of the state machine.
\<close>

section \<open>Tables that only grow\<close>

definition grows :: "('a \<Rightarrow> 'a \<Rightarrow> bool) \<Rightarrow> 'a list \<Rightarrow> 'a list \<Rightarrow> bool" where
  "grows R xs ys \<longleftrightarrow> (\<exists>zs new. ys = zs @ new \<and> list_all2 R xs zs)"

lemma grows_refl: "(\<And>x. R x x) \<Longrightarrow> grows R xs xs"
  unfolding grows_def by (intro exI [of _ xs] exI [of _ "[]"]) (simp add: list.rel_refl)

lemma grows_trans:
  assumes "grows R xs ys" "grows R ys zs" "\<And>x y z. R x y \<Longrightarrow> R y z \<Longrightarrow> R x z"
  shows "grows R xs zs"
proof -
  obtain a b where 1: "ys = a @ b" "list_all2 R xs a" using assms(1) by (auto simp: grows_def)
  obtain c e where 2: "zs = c @ e" "list_all2 R ys c" using assms(2) by (auto simp: grows_def)
  then obtain c1 c2 where 3: "c = c1 @ c2" "list_all2 R a c1" using 1(1) by (auto simp: list_all2_append1)
  have "list_all2 R xs c1" using list_all2_trans [OF _ 1(2) 3(2)] assms(3) by blast
  with 2 3 show ?thesis unfolding grows_def by (intro exI [of _ c1] exI [of _ "c2 @ e"]) simp
qed

lemma grows_append: "(\<And>x. R x x) \<Longrightarrow> grows R xs (xs @ ys)"
  unfolding grows_def by (intro exI [of _ xs] exI [of _ ys]) (simp add: list.rel_refl)

lemma grows_upd_where:
  assumes "\<And>x. R x x" "\<And>x. p x \<Longrightarrow> R x (f x)"
  shows "grows R xs (upd_where p f xs)"
proof -
  have "list_all2 R xs (upd_where p f xs)" using assms by (induction xs) auto
  then show ?thesis unfolding grows_def by (intro exI [of _ "upd_where p f xs"] exI [of _ "[]"]) simp
qed

lemma growsD: "grows R xs ys \<Longrightarrow> x \<in> set xs \<Longrightarrow> \<exists>y \<in> set ys. R x y"
  unfolding grows_def by (metis UnCI in_set_conv_nth list_all2_conv_all_nth set_append)

section \<open>What is kept\<close>

definition known_status :: "string \<Rightarrow> bool" where
  "known_status s \<longleftrightarrow> s \<in> {''running'', ''paused'', ''blocked'', ''released'', ''unclaimed'', ''completed''}"

definition claim_kept :: "claim_row \<Rightarrow> claim_row \<Rightarrow> bool" where
  "claim_kept c c' \<longleftrightarrow> c_id c' = c_id c \<and> c_work c' = c_work c \<and> c_session c' = c_session c \<and>
     (known_status (c_status c) \<longrightarrow> known_status (c_status c') \<and> (held c' \<longrightarrow> held c))"

definition run_kept :: "run_row \<Rightarrow> run_row \<Rightarrow> bool" where
  "run_kept r r' \<longleftrightarrow> r_id r' = r_id r \<and> (run_over r \<and> r_finished r \<noteq> None \<longrightarrow> r' = r)"

definition same_session :: "session_row \<Rightarrow> session_row \<Rightarrow> bool" where
  "same_session s s' \<longleftrightarrow> s_id s' = s_id s"

definition same_work :: "work_row \<Rightarrow> work_row \<Rightarrow> bool" where
  "same_work w w' \<longleftrightarrow> w_id w' = w_id w"

definition statuses_known :: "db \<Rightarrow> bool" where
  "statuses_known d \<longleftrightarrow> (\<forall>c \<in> set (d_claims d). known_status (c_status c))"

definition kept :: "db \<Rightarrow> db \<Rightarrow> bool" where
  "kept d d' \<longleftrightarrow> grows (=) (d_events d) (d_events d') \<and> grows claim_kept (d_claims d) (d_claims d') \<and>
     grows run_kept (d_runs d) (d_runs d') \<and> grows same_session (d_sessions d) (d_sessions d') \<and>
     grows same_work (d_works d) (d_works d') \<and> (statuses_known d \<longrightarrow> statuses_known d')"

lemmas kept_defs = claim_kept_def run_kept_def same_session_def same_work_def

lemma claim_kept_refl [simp]: "claim_kept c c" by (simp add: claim_kept_def)
lemma run_kept_refl [simp]: "run_kept r r" by (simp add: run_kept_def)
lemma same_session_refl [simp]: "same_session s s" by (simp add: same_session_def)
lemma same_work_refl [simp]: "same_work w w" by (simp add: same_work_def)

lemma kept_refl [simp, intro]: "kept d d"
  by (simp add: kept_def grows_refl)

lemma kept_trans [trans]: "kept d1 d2 \<Longrightarrow> kept d2 d3 \<Longrightarrow> kept d1 d3"
  unfolding kept_def
  by (intro conjI; (elim conjE)?) (erule grows_trans, assumption, auto simp: kept_defs)+

lemma kept_same:
  "d_events d' = d_events d \<Longrightarrow> d_claims d' = d_claims d \<Longrightarrow> d_runs d' = d_runs d \<Longrightarrow>
   d_sessions d' = d_sessions d \<Longrightarrow> d_works d' = d_works d \<Longrightarrow> kept d d'"
  by (simp add: kept_def grows_refl statuses_known_def)

section \<open>Statements\<close>

lemma kept_upd_claims:
  assumes "\<And>c. c \<in> set (d_claims d) \<Longrightarrow> p c \<Longrightarrow> claim_kept c (f c)"
  shows "kept d (upd_claims p f d)"
proof -
  have eq: "upd_where p f (d_claims d) = upd_where (\<lambda>c. p c \<and> c \<in> set (d_claims d)) f (d_claims d)"
    by (rule upd_where_cong) simp
  have "grows claim_kept (d_claims d) (upd_where p f (d_claims d))"
    unfolding eq by (rule grows_upd_where) (use assms in auto)
  moreover have "statuses_known (upd_claims p f d)" if "statuses_known d"
    using that assms by (auto simp: statuses_known_def upd_claims_def claim_kept_def dest!: in_upd_whereD split: if_splits)
  ultimately show ?thesis by (simp add: kept_def grows_refl upd_claims_def)
qed

lemma kept_upd_one:
  assumes "wf_db d" "claimd d i = Some c" "claim_kept c (f c)"
  shows "kept d (upd_claims (\<lambda>x. c_id x = i \<and> q x) f d)"
proof (rule kept_upd_claims)
  fix x assume "x \<in> set (d_claims d)" "c_id x = i \<and> q x"
  then have "x = c" using claimd_unique [OF wf_keys [OF assms(1)], of x] assms(2) by simp
  with assms(3) show "claim_kept x (f x)" by simp
qed

lemma kept_upd_works: "(\<And>w. p w \<Longrightarrow> w_id (f w) = w_id w) \<Longrightarrow> kept d (upd_works p f d)"
  by (simp add: kept_def grows_refl upd_works_def grows_upd_where same_work_def statuses_known_def)

lemma kept_upd_sessions: "(\<And>s. p s \<Longrightarrow> s_id (f s) = s_id s) \<Longrightarrow> kept d (upd_sessions p f d)"
  by (simp add: kept_def grows_refl upd_sessions_def grows_upd_where same_session_def statuses_known_def)

lemma kept_upd_runs: "(\<And>r. p r \<Longrightarrow> run_kept r (f r)) \<Longrightarrow> kept d (upd_runs p f d)"
  by (simp add: kept_def grows_refl upd_runs_def grows_upd_where statuses_known_def)

lemma kept_insert_event: "insert_event e d = Inr (d', i) \<Longrightarrow> kept d d'"
  using insert_event_Inr [of e d d' i] by (auto simp: kept_def grows_refl grows_append statuses_known_def)

lemma kept_insert_claim: "insert_claim c d = Inr d' \<Longrightarrow> known_status (c_status c) \<Longrightarrow> kept d d'"
  by (auto simp: insert_claim_def kept_def grows_refl grows_append statuses_known_def split: if_split_asm)

lemma kept_insert_session: "insert_session s d = Inr d' \<Longrightarrow> kept d d'"
  by (auto simp: insert_session_def kept_def grows_refl grows_append statuses_known_def split: if_split_asm)

lemma kept_insert_run: "insert_run b r d = Inr d' \<Longrightarrow> kept d d'"
  using insert_run_Inr [of b r d d'] by (auto simp: kept_def grows_refl grows_append statuses_known_def)

lemma kept_post_receipt:
  "post_receipt t kind actor session work title body refs payload key released d = Inr (d', r) \<Longrightarrow> kept d d'"
  by (auto simp: post_receipt_def bindE_Inr_iff intro: kept_insert_event)

lemma known_values [simp]:
  "known_status ''running''" "known_status ''paused''" "known_status ''blocked''" "known_status ''released''"
  "known_status ''unclaimed''" "known_status ''completed''"
  by (simp_all add: known_status_def)

lemma claim_updates_kept [simp]:
  "claim_kept c (renew_claim t lease c)" "claim_kept c (expire_claim c)" "claim_kept c (reap_claim c)"
  "claim_kept c (complete_status c)" "claim_kept c (heartbeat_row t lease st c)"
  "held c \<Longrightarrow> claim_kept c (reclaim st t lease c)" "held c \<Longrightarrow> claim_kept c (resume_claim st t lease c)"
  by (simp_all add: claim_kept_def renew_claim_def expire_claim_def reap_claim_def complete_status_def heartbeat_row_def
      reclaim_def resume_claim_def held_def held_statuses_def)

text \<open>A held status read leniently is a held status, among the statuses the code writes.\<close>

lemma lenient_held: "known_status s \<Longrightarrow> lower (strip s) \<in> set held_statuses \<Longrightarrow> s \<in> set held_statuses"
proof -
  have "lower (strip ''released'') \<notin> set held_statuses" "lower (strip ''unclaimed'') \<notin> set held_statuses"
    "lower (strip ''completed'') \<notin> set held_statuses"
    by code_simp+
  then show "known_status s \<Longrightarrow> lower (strip s) \<in> set held_statuses \<Longrightarrow> s \<in> set held_statuses"
    by (auto simp: known_status_def held_statuses_def)
qed

lemma release_status_kept:
  assumes "status \<in> set releasable_claim_statuses" "lower (strip (c_status c)) \<in> set held_statuses"
  shows "claim_kept c (release_status status reason c)"
  using assms lenient_held [of "c_status c"]
  by (auto simp: claim_kept_def release_status_def releasable_claim_statuses_def held_def)

section \<open>Operations\<close>

lemma kept_renew: "kept d (renew_sessions_and_claims ids t lease d)"
  unfolding renew_sessions_and_claims_def Let_def
  by (auto intro!: kept_trans [OF kept_upd_sessions kept_upd_claims] simp: renew_session_def)

lemma kept_register:
  assumes "register_session lanes probe host g t d = Inr (d', x)"
  shows "kept d d'"
proof -
  have refreshed: "kept d (upd_sessions (\<lambda>s. s_id s = g_session g) (refreshed_session_row g a ps t) d)" for a ps
    by (rule kept_upd_sessions) (simp add: refreshed_session_row_def)
  obtain d1 ids where "kept d d1" "d' = renew_sessions_and_claims ids t (g_lease g) d1"
    using assms refreshed
    by (auto simp: register_session_def Let_def bindE_Inr_iff split: if_splits option.splits dest: kept_insert_session)
  then show ?thesis using kept_trans [OF _ kept_renew] by blast
qed

lemma orphan_kept [simp]: "r_state r = ''live'' \<Longrightarrow> run_kept r (orphan_run t r)"
  by (simp add: run_kept_def orphan_run_def run_over_def terminal_run_states_def)

lemma kept_end: "kept d (end_session sid t d)"
  unfolding end_session_def
  by (rule kept_trans [OF kept_upd_sessions kept_upd_runs]) (simp_all add: runs_of_session_def)

lemma kept_reap_claims: "kept d (reap_claims t cs d)"
proof (induction cs arbitrary: d)
  case (Cons c cs)
  have "kept d (upd_claims (\<lambda>x. c_id x = c_id c) reap_claim d)" by (rule kept_upd_claims) simp
  also have "kept \<dots> (upd_works (\<lambda>w. w_id w = c_work c \<and> \<not> terminal (w_intent w)) (requeue t)
      (upd_claims (\<lambda>x. c_id x = c_id c) reap_claim d))" by (rule kept_upd_works) simp
  also note Cons.IH
  finally show ?case by simp
qed simp

lemma kept_reap_all: "kept d (fst (reap_all t sids d))"
proof (induction sids arbitrary: d)
  case (Cons sid sids)
  have "kept d (fst (reap_one t sid d))"
    unfolding reap_one_def Let_def fst_conv
    by (rule kept_trans [OF kept_trans [OF kept_reap_claims kept_upd_runs] kept_upd_sessions])
      (simp_all add: runs_of_session_def)
  also note Cons.IH
  finally show ?case by (simp add: Let_def case_prod_beta)
qed simp

lemma kept_release_rows: "kept d (fst (release_rows t rows d))"
proof (induction rows arbitrary: d)
  case (Cons row rows)
  have "kept d (fst (release_one t row d))"
    unfolding release_one_def Let_def
    by (auto intro: kept_upd_claims kept_trans [OF kept_upd_claims kept_upd_works])
  also note Cons.IH
  finally show ?case by (simp add: Let_def case_prod_beta)
qed simp

lemma kept_expired: "kept d (fst (release_expired_claims_unlocked t work d))"
  by (simp add: release_expired_claims_unlocked_def kept_release_rows)

lemma kept_batch: "release_expired_claims_batch L t d = Inr (d', rows, ev) \<Longrightarrow> kept d d'"
  using kept_expired [of d t None]
  by (auto simp: release_expired_claims_batch_def Let_def bindE_Inr_iff split: prod.splits if_split_asm
      intro: kept_trans kept_insert_event)

lemma kept_sidecar: "renew_claim_from_sidecar i work sid lease t d = Inr (d', b) \<Longrightarrow> kept d d'"
  by (auto simp: renew_claim_from_sidecar_def Let_def intro: kept_upd_claims split: if_split_asm)

lemma kept_heartbeat:
  assumes "heartbeat_claim lanes i lease st sid actor sys t d = Inr d'"
  shows "kept d d'"
proof -
  have k: "kept d (upd_claims (\<lambda>x. c_id x = i) (heartbeat_row t lease st) d)"
    by (rule kept_upd_claims) simp
  from heartbeat_claim_Inr [OF assms] show ?thesis
    using k kept_trans [OF k kept_renew] by (auto simp: Let_def split: if_split_asm)
qed

lemma kept_release:
  assumes "release_claim L lanes i status reason ns rwh pred manual sid actor sys t d = Inr d'" "wf_db d"
  shows "kept d d'"
proof -
  obtain c pn pw pj where c: "claimd d i = Some c" "status \<in> set releasable_claim_statuses"
     "lower (strip (c_status c)) \<in> set held_statuses" "release_writes status reason pn pw pj c t d = Inr d'"
    using release_claim_Inr [OF assms(1)] by blast
  have "c_id c = i" using claimd_SomeD [OF c(1)] by simp
  then have "kept d (upd_claims (\<lambda>x. c_id x = c_id c) (release_status status reason) d)"
    using kept_upd_one [OF assms(2) c(1), where f = "release_status status reason" and q = "\<lambda>_. True"]
      release_status_kept [OF c(2,3)] by simp
  moreover have "kept (upd_claims (\<lambda>x. c_id x = c_id c) (release_status status reason) d) d'"
    using c(4) by (auto simp: release_writes_def Let_def intro: kept_upd_works split: if_split_asm)
  ultimately show ?thesis by (rule kept_trans)
qed

lemma kept_mark_running: "kept d (mark_running t work d)"
  by (simp add: mark_running_def kept_upd_works set_running_def)

lemma kept_claim_held_row:
  assumes "wf_db d" "claim_held_row lanes sid w st lease t d = Inr (d', i)"
  shows "kept d d'"
proof -
  obtain c where c: "own_parked_claim lanes sid (w_id w) t d = Some c"
    "d' = mark_running t (w_id w) (upd_claims (\<lambda>x. c_id x = c_id c) (resume_claim st t lease) d)"
    using assms(2) by (auto simp: claim_held_row_def Let_def split: if_split_asm option.splits)
  from own_parked_claim_SomeD [OF c(1)] have h: "c \<in> set (d_claims d)" "held c"
    by (auto simp: live_parked_def held_def held_statuses_def)
  have "claimd d (c_id c) = Some c" using h(1) claimd_unique [OF wf_keys [OF assms(1)]] by blast
  from kept_upd_one [OF assms(1) this, of "resume_claim st t lease" "\<lambda>_. True"] h(2)
  have "kept d (upd_claims (\<lambda>x. c_id x = c_id c) (resume_claim st t lease) d)" by simp
  with c(2) show ?thesis using kept_trans [OF _ kept_mark_running] by blast
qed

lemma kept_claim_unlocked:
  assumes "wf_db d0" "claim_unlocked lanes i0 token sid work st lease t d0 = Inr (d', i)"
  shows "kept d0 d'"
proof -
  define d where "d = fst (release_expired_claims_unlocked t (Some work) d0)"
  have wf: "wf_db d" and k: "kept d0 d" using assms(1) by (simp_all add: d_def wf_release_expired kept_expired)
  obtain w where w: "workd d work = Some w"
    using assms(2) by (cases "workd d work") (simp_all add: claim_unlocked_def Let_def flip: d_def)
  have "kept d d'"
  proof (cases "own_running_claim lanes sid work t d")
    case (Some c)
    then have "d' = mark_running t work (upd_claims (\<lambda>x. c_id x = c_id c \<and> c_status x = ''running'') (reclaim st t lease) d)"
      using assms(2) unfolding claim_unlocked_def Let_def d_def [symmetric] w by (auto split: if_split_asm)
    moreover have "kept d (upd_claims (\<lambda>x. c_id x = c_id c \<and> c_status x = ''running'') (reclaim st t lease) d)"
      by (rule kept_upd_claims) (simp add: held_def held_statuses_def)
    ultimately show ?thesis using kept_trans [OF _ kept_mark_running] by blast
  next
    case None
    then consider "claim_held_row lanes sid w st lease t d = Inr (d', i)"
      | d1 where "insert_claim (fresh_claim i0 token sid work st lease t) d = Inr d1" "d' = mark_running t work d1"
      using assms(2) unfolding claim_unlocked_def Let_def d_def [symmetric] w
      by (simp add: bindE_Inr_iff split: if_split_asm) blast
    then show ?thesis
    proof cases
      case 1
      from kept_claim_held_row [OF wf this] show ?thesis .
    next
      case 2
      have "kept d d1" using 2(1) by (rule kept_insert_claim) (simp add: fresh_claim_def)
      with 2(2) show ?thesis using kept_trans [OF _ kept_mark_running] by blast
    qed
  qed
  with k show ?thesis by (rule kept_trans)
qed

lemma kept_upsert_unlocked:
  assumes "upsert_work_unlocked L rn i fs t d = Inr (d', b)"
  shows "kept d d'"
proof -
  have amend: "kept d (upd_works (\<lambda>w. w_id w = i) (\<lambda>w. (apply_fields g w)\<lparr>w_updated := t, w_version := w_version w + 1\<rparr>) d)" for g
    by (rule kept_upd_works) simp
  have insert: "kept d (d\<lparr>d_works := d_works d @ [w]\<rparr>)" for w
    by (simp add: kept_def grows_refl grows_append statuses_known_def)
  have titles: "kept d1 d2 \<Longrightarrow> kept d1 (d2\<lparr>d_titles := ts\<rparr>)" for d1 d2 ts
    by (simp add: kept_def statuses_known_def)
  from assms show ?thesis
    using amend insert by (auto simp: upsert_work_unlocked_def Let_def bindE_Inr_iff intro: titles split: option.splits if_split_asm)
qed

lemma kept_claim_work:
  assumes "wf_db d" "claim_work L lanes i0 token sid work st lease fs t0 t d = Inr (d', i)"
  shows "kept d d'"
proof -
  obtain d1 where d1: "claim_unlocked lanes i0 token sid work st lease t d1 = Inr (d', i)"
    "d1 = d \<or> (\<exists>b. upsert_work_unlocked L False work fs t0 d = Inr (d1, b))"
    using claim_work_Inr [OF assms(2)] by blast
  then have "wf_db d1" "kept d d1" using assms(1) wf_upsert_work kept_upsert_unlocked by blast+
  with kept_claim_unlocked [OF _ d1(1)] show ?thesis using kept_trans by blast
qed

lemma kept_terminalize: "kept d (terminalize_children p w t d)"
  unfolding terminalize_children_def Let_def
  by (auto intro!: kept_trans [OF kept_upd_sessions kept_upd_runs] simp: end_child_def)

lemma kept_complete:
  assumes "complete_claim L W lanes art i path kind enforce body source sid actor sys t d = Inr (d', stored)"
  shows "kept d d'"
proof -
  obtain c where "completion_writes lanes art stored kind source body c t d = Inr d'"
    using complete_claim_Inr [OF assms] by blast
  then obtain d1 d4 n where s: "insert_artifact art (c_work c) stored (artifact_kind_of kind) t d = Inr d1"
     "d4 = terminalize_children (c_session c) (c_work c) t
       (upd_works (\<lambda>w. w_id w = c_work c) (close_work t) (upd_claims (\<lambda>x. c_id x = c_id c) complete_status d1))"
     "insert_event (completion_receipt lanes (c_id c) (c_work c) (c_session c) stored
       (artifact_kind_of kind) body source t d4) d4 = Inr (d', n)"
    using completion_writes_steps by blast
  have "kept d d1" using insert_artifact_Inr [OF s(1)] by (auto intro: kept_same)
  also have "kept d1 (upd_claims (\<lambda>x. c_id x = c_id c) complete_status d1)" by (rule kept_upd_claims) simp
  also have "kept \<dots> (upd_works (\<lambda>w. w_id w = c_work c) (close_work t) (upd_claims (\<lambda>x. c_id x = c_id c) complete_status d1))"
    by (rule kept_upd_works) (simp add: close_work_def)
  also have "kept \<dots> d4" unfolding s(2) by (rule kept_terminalize)
  also have "kept d4 d'" by (rule kept_insert_event [OF s(3)])
  finally show ?thesis .
qed

lemma kept_outcome:
  assumes "outcome key d d' r (\<lambda>d d' r. P d d' r)" "\<And>d d' r. P d d' r \<Longrightarrow> kept d d'"
  shows "kept d d'"
  using assms by (auto simp: outcome_def split: option.splits)

lemma kept_then_receipt:
  "kept d0 d \<Longrightarrow> post_receipt t kind actor session work title body refs payload key released d = Inr (d', r) \<Longrightarrow> kept d0 d'"
  by (rule kept_trans [OF _ kept_post_receipt])

lemma kept_classify_row:
  assumes "classify_row L work reason version expected actor session nt w t d = Inr (d', r)"
  shows "kept d d'"
  using assms unfolding classify_row_def Let_def
  by (auto split: if_split_asm elim!: kept_then_receipt [OF kept_upd_works, rotated])

lemma kept_migrate_row:
  assumes "migrate_row L work reason version ew rwh canonical refs nt actor session p request w t d = Inr (d', r)"
  shows "kept d d'"
  using assms unfolding migrate_row_def
  by (auto simp: bindE_Inr_iff split: if_split_asm elim!: kept_then_receipt [OF kept_upd_works, rotated])

lemma kept_unclaim: "kept d (upd_claims p (release_status ''released'' reason) d)"
  by (rule kept_upd_claims) (simp add: claim_kept_def release_status_def held_def held_statuses_def)

lemma kept_release_block_row:
  assumes "release_block_row L work reason actor session nt w t d = Inr (d', r)"
  shows "kept d d'"
  using assms unfolding release_block_row_def Let_def
  by (auto split: if_split_asm elim!: kept_then_receipt [OF kept_trans [OF kept_unclaim kept_upd_works], rotated])

lemma kept_recover_row:
  assumes "recover_row L work actor session nt t d = Inr (d', r)"
  shows "kept d d'"
  using assms unfolding recover_row_def Let_def
  by (auto split: if_split_asm option.splits elim!: kept_then_receipt [OF kept_upd_works, rotated])

lemma kept_classify:
  "classify_blocked_work L lanes work_id reason version expected actor sid nt t d = Inr (d', r) \<Longrightarrow> kept d d'"
  by (drule classify_outcome, erule kept_outcome) (auto intro: kept_classify_row)

lemma kept_migrate:
  assumes "migrate_blocked_resume_predicate L lanes work_id version ec ew rwh pred oid refs nt actor sid t d = Inr (d', r)"
  shows "kept d d'"
proof -
  obtain canonical parsed where p: "typed_predicate L (strip rwh) pred = Inr (canonical, parsed)"
    using assms by (auto simp: migrate_blocked_resume_predicate_def Let_def bindE_Inr_iff)
  from migrate_outcome [OF assms p] show ?thesis
    by (rule kept_outcome) (auto intro: kept_migrate_row)
qed

lemma kept_release_block:
  "release_classified_block L lanes work ec actor sid nt t d = Inr (d', r) \<Longrightarrow> kept d d'"
  by (drule release_outcome, erule kept_outcome) (auto intro: kept_release_block_row)

lemma kept_recover:
  "recover_orphaned_block L lanes work actor sid nt t d = Inr (d', r) \<Longrightarrow> kept d d'"
  by (drule recover_outcome, erule kept_outcome) (auto intro: kept_trans [OF kept_expired kept_recover_row])

lemma kept_appear:
  assumes "appear_run run_probe host new_id run_id args t d = Inr (d', i)"
  shows "kept d d'"
proof -
  obtain b x d1 where s: "insert_run b x d = Inr d1" "d' = d1 \<or> (\<exists>a. refresh_runs i a t d1 = Inr d')"
    using appear_run_Inr [OF assms] by blast
  have "kept d1 (upd_runs (\<lambda>r. r_id r = i) (refresh_run a t) d1)" for a
    by (rule kept_upd_runs) (simp add: run_kept_def)
  then have "kept d1 d'" using s(2) by (auto dest!: refresh_runs_Inr)
  with kept_insert_run [OF s(1)] show ?thesis by (rule kept_trans)
qed

lemma kept_finalize: "kept d (finalize_run i state t d)"
  unfolding finalize_run_def by (rule kept_upd_runs) (auto simp: run_kept_def finalize_row_def)

lemma kept_prune: "kept d (prune_write rows t d)"
  unfolding prune_write_def by (rule kept_upd_works) simp

lemma kept_normalize: "kept d (normalize_writes ids t d)"
  unfolding normalize_writes_def
proof (induction ids arbitrary: d)
  case (Cons i ids)
  have "kept d (upd_works (\<lambda>w. w_id w = i \<and> w_intent w = ''running'') (requeue t) d)"
    by (rule kept_upd_works) simp
  also note Cons.IH
  finally show ?case by simp
qed simp

lemma kept_post_note: "post_note work actor sid ta ts title body refs t now d = Inr (d', ev) \<Longrightarrow> kept d d'"
  by (auto simp: post_note_def Let_def bindE_Inr_iff intro: kept_insert_event split: if_split_asm)

lemma kept_advance: "kept d (advance_cursor r n s t d)"
  by (rule kept_same) (simp_all add: advance_cursor_def bump_cursor_def Let_def)

section \<open>Steps and runs\<close>

lemmas kept_facts = kept_register kept_end kept_batch kept_sidecar kept_heartbeat kept_complete kept_classify
  kept_migrate kept_release_block kept_recover kept_appear kept_finalize kept_prune kept_normalize kept_post_note kept_advance

lemma step_kept: "coord_step L lanes d d' \<Longrightarrow> wf_db d \<Longrightarrow> kept d d'"
proof (induction rule: coord_step.induct)
  case (renew d sid lease t) then show ?case by (simp add: renew_lease_def kept_renew)
next
  case (reap d t grace dead_pids dead_sessions) then show ?case by (simp add: reap_zombie_sessions_def Let_def case_prod_beta kept_reap_all)
next
  case (upsert work fs t d d' work') then show ?case using upsert_work_Inr kept_upsert_unlocked by blast
next
  case (create work fs t d d' b) then show ?case using create_work_Inr kept_upsert_unlocked by blast
next
  case (claim i0 token sid work st lease fs t0 t d d' i) then show ?case using kept_claim_work by blast
next
  case (release i status reason ns rwh pred manual sid actor sys t d d') then show ?case using kept_release by blast
qed (rule kept_facts, assumption?)+

inductive coord_steps :: "lib \<Rightarrow> string list \<Rightarrow> db \<Rightarrow> db \<Rightarrow> bool" for L :: lib and lanes :: "string list" where
  none: "coord_steps L lanes d d"
| more: "coord_steps L lanes d1 d2 \<Longrightarrow> coord_step L lanes d2 d3 \<Longrightarrow> coord_steps L lanes d1 d3"

lemma steps_wf: "coord_steps L lanes d d' \<Longrightarrow> wf_db d \<Longrightarrow> wf_db d'"
  by (induction rule: coord_steps.induct) (auto intro: step_wf)

lemma steps_kept: "coord_steps L lanes d d' \<Longrightarrow> wf_db d \<Longrightarrow> kept d d'"
  by (induction rule: coord_steps.induct) (auto intro: kept_trans step_kept dest: steps_wf)

lemma reachable_statuses: "coord_reachable L lanes d \<Longrightarrow> statuses_known d"
proof (induction rule: coord_reachable.induct)
  case init
  then show ?case by (simp add: statuses_known_def empty_db_def)
next
  case (next_ d d')
  with step_kept [OF next_(2) reachable_wf [OF next_(1)]] show ?case by (simp add: kept_def)
qed

end
