(* ===== verification/Ownership.thy ===== *)
theory Ownership
  imports History
begin

text \<open>
  The contract of the claims table, abstractly: a finite map from work to the session that owns
  it and the moment its lease ends. Each operation on claims (coord_db.py, \<open>claim_work\<close>,
  \<open>heartbeat_claim\<close>, \<open>release_claim\<close>, the sweep, the reaper, \<open>complete_claim\<close>) is shown to act on
  that map as a small operation that mentions neither rows nor statuses.
\<close>

section \<open>The abstract lease map\<close>

type_synonym leases = "string \<Rightarrow> (string \<times> seconds) option"

definition spec_lapse :: "(string \<Rightarrow> string \<Rightarrow> seconds \<Rightarrow> bool) \<Rightarrow> leases \<Rightarrow> leases" where
  "spec_lapse gone m = (\<lambda>w. case m w of None \<Rightarrow> None | Some (s, e) \<Rightarrow> if gone w s e then None else Some (s, e))"

definition spec_grant :: "string \<Rightarrow> seconds \<Rightarrow> string \<Rightarrow> leases \<Rightarrow> leases" where
  "spec_grant sid e w m = m(w \<mapsto> (case m w of None \<Rightarrow> sid | Some (s, _) \<Rightarrow> s, e))"

definition spec_renew :: "(string \<Rightarrow> string \<Rightarrow> bool) \<Rightarrow> seconds \<Rightarrow> leases \<Rightarrow> leases" where
  "spec_renew who e m = (\<lambda>w. case m w of None \<Rightarrow> None | Some (s, e') \<Rightarrow> Some (s, if who w s then e else e'))"

section \<open>The map of a database\<close>

definition holder :: "db \<Rightarrow> string \<Rightarrow> claim_row option" where
  "holder d w = find (\<lambda>c. held c \<and> c_work c = w) (d_claims d)"

definition leases_of :: "db \<Rightarrow> leases" where
  "leases_of d w = map_option (\<lambda>c. (c_session c, c_expires c)) (holder d w)"

lemma holder_SomeD: "holder d w = Some c \<Longrightarrow> c \<in> set (d_claims d) \<and> held c \<and> c_work c = w"
  by (auto simp: holder_def dest: find_SomeD)

lemma holder_None_iff: "holder d w = None \<longleftrightarrow> (\<forall>c \<in> set (d_claims d). held c \<longrightarrow> c_work c \<noteq> w)"
  by (auto simp: holder_def find_None_iff)

lemma holder_eq:
  assumes "wf_db d" "c \<in> set (d_claims d)" "held c"
  shows "holder d (c_work c) = Some c"
proof (cases "holder d (c_work c)")
  case None
  then show ?thesis using assms(2,3) by (auto simp: holder_None_iff)
next
  case (Some x)
  from holder_SomeD [OF this] show ?thesis
    using Some unique_whereD [of held c_work "d_claims d" x c] assms by (simp add: wf_db_def one_held_def)
qed

lemma find_held_upd:
  assumes "unique_where held c_work cs"
    and "\<And>c. c \<in> set cs \<Longrightarrow> p c \<Longrightarrow> c_work (f c) = c_work c \<and> (held (f c) \<longrightarrow> held c)"
  shows "find (\<lambda>c. held c \<and> c_work c = w) (upd_where p f cs) =
    (case find (\<lambda>c. held c \<and> c_work c = w) cs of
       None \<Rightarrow> None
     | Some c \<Rightarrow> if p c then if held (f c) then Some (f c) else None else Some c)"
  using assms
proof (induction cs)
  case Nil
  then show ?case by simp
next
  case (Cons c cs)
  have u: "unique_where held c_work cs" using Cons.prems(1) by (simp add: unique_where_def split: if_splits)
  have IH: "find (\<lambda>c. held c \<and> c_work c = w) (upd_where p f cs) =
    (case find (\<lambda>c. held c \<and> c_work c = w) cs of
       None \<Rightarrow> None
     | Some c \<Rightarrow> if p c then if held (f c) then Some (f c) else None else Some c)"
    using Cons.IH [OF u] Cons.prems(2) by simp
  show ?case
  proof (cases "held c \<and> c_work c = w")
    case True
    then have "\<not> held x" if "x \<in> set cs" "c_work x = w" for x
      using Cons.prems(1) that by (auto simp: unique_where_def)
    then have "find (\<lambda>c. held c \<and> c_work c = w) cs = None" by (auto simp: find_None_iff)
    then show ?thesis using True IH Cons.prems(2) [of c] by auto
  next
    case False
    then show ?thesis using IH Cons.prems(2) [of c] by auto
  qed
qed

lemma leases_upd:
  assumes "wf_db d"
    and "\<And>c. c \<in> set (d_claims d) \<Longrightarrow> p c \<Longrightarrow> c_work (f c) = c_work c \<and> (held (f c) \<longrightarrow> held c)"
  shows "holder (upd_claims p f d) w =
    (case holder d w of None \<Rightarrow> None
     | Some c \<Rightarrow> if p c then if held (f c) then Some (f c) else None else Some c)"
  using find_held_upd [OF _ assms(2)] assms(1) by (simp add: holder_def table_simps wf_db_def one_held_def)

lemma leases_same: "d_claims d' = d_claims d \<Longrightarrow> leases_of d' = leases_of d"
  by (rule ext) (simp add: leases_of_def holder_def)

text \<open>An update that touches one held claim changes the map at its row only.\<close>

lemma leases_replace:
  assumes "holder d (c_work c) = Some c"
    and h: "\<And>w. holder d' w = (case holder d w of None \<Rightarrow> None | Some x \<Rightarrow> if x = c then y else Some x)"
  shows "leases_of d' = (leases_of d)(c_work c := map_option (\<lambda>x. (c_session x, c_expires x)) y)"
proof (rule ext)
  fix w
  show "leases_of d' w = ((leases_of d)(c_work c := map_option (\<lambda>x. (c_session x, c_expires x)) y)) w"
  proof (cases "w = c_work c")
    case True
    then show ?thesis using assms(1) by (simp add: leases_of_def h)
  next
    case False
    then have "x \<noteq> c" if "holder d w = Some x" for x using holder_SomeD [OF that] by auto
    with False show ?thesis by (cases "holder d w") (simp_all add: leases_of_def h)
  qed
qed

section \<open>The sweep, the reaper and completion free\<close>

lemma expire_work [simp]: "c_work (expire_claim c) = c_work c"
  by (simp add: expire_claim_def)

lemma sweep_leases:
  assumes "wf_db d"
  shows "leases_of (fst (release_expired_claims_unlocked t scope d)) =
    spec_lapse (\<lambda>w s e. e < t \<and> (case scope of None \<Rightarrow> True | Some v \<Rightarrow> v = [] \<or> w = v)) (leases_of d)"
proof (rule ext)
  fix w
  have "holder (fst (release_expired_claims_unlocked t scope d)) w = holder (upd_claims (expired_at t scope) expire_claim d) w"
    using release_expired_claims_table(1) [OF assms, of t scope] by (simp add: holder_def table_simps)
  also have "\<dots> = (case holder d w of None \<Rightarrow> None | Some c \<Rightarrow> if expired_at t scope c then None else Some c)"
    by (subst leases_upd [OF assms]) (auto split: option.splits)
  finally show "leases_of (fst (release_expired_claims_unlocked t scope d)) w =
      spec_lapse (\<lambda>w s e. e < t \<and> (case scope of None \<Rightarrow> True | Some v \<Rightarrow> v = [] \<or> w = v)) (leases_of d) w"
    by (auto simp: leases_of_def spec_lapse_def expired_at_def split: option.splits dest: holder_SomeD)
qed

lemma reap_leases:
  assumes "wf_db d"
  shows "leases_of (fst (reap_zombie_sessions t grace dead_pids dead_sessions d)) =
    spec_lapse (\<lambda>w s e. s \<in> set (fst (snd (reap_zombie_sessions t grace dead_pids dead_sessions d)))) (leases_of d)"
proof (rule ext)
  fix w
  define sids where "sids = map s_id (filter (reapable (t - grace) dead_pids dead_sessions) (d_sessions d))"
  have "holder (fst (reap_all t sids d)) w = holder (upd_claims (\<lambda>c. c_session c \<in> set sids \<and> held c) reap_claim d) w"
    using reap_all_claims [OF assms, of t sids] by (simp add: holder_def table_simps)
  also have "\<dots> = (case holder d w of None \<Rightarrow> None | Some c \<Rightarrow> if c_session c \<in> set sids then None else Some c)"
    by (subst leases_upd [OF assms])
      (auto simp: reap_claim_def held_def held_statuses_def split: option.splits dest: holder_SomeD)
  finally show "leases_of (fst (reap_zombie_sessions t grace dead_pids dead_sessions d)) w =
     spec_lapse (\<lambda>w s e. s \<in> set (fst (snd (reap_zombie_sessions t grace dead_pids dead_sessions d)))) (leases_of d) w"
    by (auto simp: leases_of_def spec_lapse_def reap_zombie_sessions_def Let_def case_prod_beta sids_def split: option.splits)
qed

lemma claimd_one:
  assumes "wf_db d" "claimd d (c_id c) = Some c" "x \<in> set (d_claims d)" "c_id x = c_id c"
  shows "x = c"
proof -
  have "claimd d (c_id c) = Some x" using claimd_unique [OF wf_keys [OF assms(1)] assms(3)] unfolding assms(4) .
  then show ?thesis using assms(2) by (metis option.inject)
qed

lemma holder_upd_one:
  assumes "wf_db d" "claimd d (c_id c) = Some c" "held c" "q c" "c_work (f c) = c_work c"
  shows "holder (upd_claims (\<lambda>x. c_id x = c_id c \<and> q x) f d) w =
    (case holder d w of None \<Rightarrow> None | Some x \<Rightarrow> if x = c then if held (f c) then Some (f c) else None else Some x)"
proof -
  let ?p = "\<lambda>x. c_id x = c_id c \<and> q x"
  have one: "?p x \<longleftrightarrow> x = c" if "x \<in> set (d_claims d)" for x
    using claimd_one [OF assms(1,2) that] assms(4) by blast
  have "c_work (f x) = c_work x \<and> (held (f x) \<longrightarrow> held x)" if "x \<in> set (d_claims d)" "?p x" for x
  proof -
    have "x = c" using one [OF that(1)] that(2) by blast
    with assms(3,5) show ?thesis by blast
  qed
  from leases_upd [OF assms(1) this, where p = ?p]
  have h: "holder (upd_claims ?p f d) w =
     (case holder d w of None \<Rightarrow> None
      | Some x \<Rightarrow> if ?p x then if held (f x) then Some (f x) else None else Some x)" by blast
  show ?thesis
  proof (cases "holder d w")
    case None
    then show ?thesis unfolding h by simp
  next
    case (Some x)
    then have "?p x \<longleftrightarrow> x = c" using one holder_SomeD by blast
    with Some show ?thesis unfolding h by simp
  qed
qed

lemma leases_upd_one:
  assumes "wf_db d" "claimd d (c_id c) = Some c" "held c" "q c" "c_work (f c) = c_work c"
  shows "leases_of (upd_claims (\<lambda>x. c_id x = c_id c \<and> q x) f d) =
    (leases_of d)(c_work c := if held (f c) then Some (c_session (f c), c_expires (f c)) else None)"
proof -
  have "holder d (c_work c) = Some c"
    using holder_eq [OF assms(1) _ assms(3)] claimd_SomeD [OF assms(2)] by simp
  from leases_replace [OF this, of "upd_claims (\<lambda>x. c_id x = c_id c \<and> q x) f d" "if held (f c) then Some (f c) else None"]
    holder_upd_one [where f = f and q = q, OF assms]
  show ?thesis by simp
qed

lemmas leases_upd_id = leases_upd_one [where q = "\<lambda>_. True", simplified]

lemma completion_leases:
  assumes "wf_db d" "completion_writes lanes art stored kind source body c t d = Inr d'" "claimd d (c_id c) = Some c" "held c"
  shows "leases_of d' = (leases_of d)(c_work c := None)"
proof -
  obtain d1 d4 n where s: "insert_artifact art (c_work c) stored (artifact_kind_of kind) t d = Inr d1"
     "d4 = terminalize_children (c_session c) (c_work c) t
       (upd_works (\<lambda>w. w_id w = c_work c) (close_work t) (upd_claims (\<lambda>x. c_id x = c_id c) complete_status d1))"
     "insert_event (completion_receipt lanes (c_id c) (c_work c) (c_session c) stored
       (artifact_kind_of kind) body source t d4) d4 = Inr (d', n)"
    using completion_writes_steps [OF assms(2)] by blast
  have "d_claims d' = d_claims (upd_claims (\<lambda>x. c_id x = c_id c) complete_status d)"
    using insert_event_Inr [OF s(3)] insert_artifact_Inr [OF s(1)] by (auto simp: s(2) table_simps)
  then have "leases_of d' = leases_of (upd_claims (\<lambda>x. c_id x = c_id c) complete_status d)" by (rule leases_same)
  then show ?thesis
    using leases_upd_id [OF assms(1,3,4), of complete_status] by (simp add: complete_status_def held_def held_statuses_def)
qed

section \<open>Claiming grants\<close>

lemma grant_known: "m w = Some (s, e0) \<Longrightarrow> spec_grant sid e w m = m(w \<mapsto> (s, e))"
  by (simp add: spec_grant_def)

lemma renew_known:
  assumes "m w = Some (s0, e0)"
  shows "spec_renew (\<lambda>v s. s \<in> ids) e (m(w \<mapsto> (s0, e))) = spec_renew (\<lambda>v s. v = w \<or> s \<in> ids) e m"
proof (rule ext)
  fix v
  show "spec_renew (\<lambda>v s. s \<in> ids) e (m(w \<mapsto> (s0, e))) v = spec_renew (\<lambda>v s. v = w \<or> s \<in> ids) e m v"
    using assms by (cases "v = w"; cases "m v") (auto simp: spec_renew_def)
qed

lemma mark_leases [simp]: "leases_of (mark_running t work d) = leases_of d"
  by (rule leases_same) (simp add: table_simps)

lemma claim_leases:
  assumes wf: "wf_db d0" and "work \<noteq> []" and got: "claim_unlocked lanes i0 token sid work st lease t d0 = Inr (d', i)"
  shows "leases_of d' = spec_grant sid (t + lease) work (spec_lapse (\<lambda>w s e. e < t \<and> w = work) (leases_of d0)) \<and>
     (\<forall>s e. leases_of d0 work = Some (s, e) \<and> t \<le> e \<longrightarrow> strip s \<in> set (claim_family lanes d0 sid))"
proof -
  define d where "d = fst (release_expired_claims_unlocked t (Some work) d0)"
  have wfd: "wf_db d" using wf by (simp add: d_def wf_release_expired)
  have fam: "claim_family lanes d sid = claim_family lanes d0 sid"
    by (rule claim_family_same) (simp add: d_def table_simps)
  have ld: "leases_of d = spec_lapse (\<lambda>w s e. e < t \<and> w = work) (leases_of d0)"
    using sweep_leases [OF wf, of t "Some work"] assms(2) by (simp add: d_def)
  obtain w where w: "workd d work = Some w"
    using got by (cases "workd d work") (simp_all add: claim_unlocked_def Let_def flip: d_def)
  have owned: "leases_of d' = spec_grant sid (t + lease) work (leases_of d) \<and>
     (\<forall>s e. leases_of d work = Some (s, e) \<longrightarrow> strip s \<in> set (claim_family lanes d sid))"
    if c: "c \<in> set (d_claims d)" "held c" "c_work c = work" "strip (c_session c) \<in> set (claim_family lanes d sid)" "q c"
      and d': "d' = mark_running t work (upd_claims (\<lambda>x. c_id x = c_id c \<and> q x) f d)"
      and f: "c_work (f c) = c_work c" "held (f c)" "c_session (f c) = c_session c" "c_expires (f c) = t + lease"
    for c q f
  proof -
    have cd: "claimd d (c_id c) = Some c" using claimd_unique [OF wf_keys [OF wfd] c(1)] .
    have h: "holder d work = Some c" using holder_eq [OF wfd c(1,2)] c(3) by simp
    then have l: "leases_of d work = Some (c_session c, c_expires c)" by (simp add: leases_of_def)
    have "leases_of d' = (leases_of d)(work \<mapsto> (c_session c, t + lease))"
      using leases_upd_one [OF wfd cd c(2), of q f] c(3,5) f by (simp add: d')
    with l c(4) show ?thesis by (simp add: grant_known)
  qed
  have "leases_of d' = spec_grant sid (t + lease) work (leases_of d) \<and>
     (\<forall>s e. leases_of d work = Some (s, e) \<longrightarrow> strip s \<in> set (claim_family lanes d sid))"
  proof (cases "own_running_claim lanes sid work t d")
    case (Some c)
    then have d': "d' = mark_running t work (upd_claims (\<lambda>x. c_id x = c_id c \<and> c_status x = ''running'') (reclaim st t lease) d)"
      using got unfolding claim_unlocked_def Let_def d_def [symmetric] w by (auto split: if_split_asm)
    from own_running_claim_SomeD [OF Some] show ?thesis
      by (intro owned [OF _ _ _ _ _ d']) (auto simp: live_running_def reclaim_def held_def held_statuses_def)
  next
    case None
    then consider (resume) "claim_held_row lanes sid w st lease t d = Inr (d', i)"
      | (fresh) d1 where "insert_claim (fresh_claim i0 token sid work st lease t) d = Inr d1" "d' = mark_running t work d1"
      using got unfolding claim_unlocked_def Let_def d_def [symmetric] w
      by (simp add: bindE_Inr_iff split: if_split_asm) blast
    then show ?thesis
    proof cases
      case resume
      have ww: "w_id w = work" using workd_SomeD [OF w] by simp
      obtain c where c: "own_parked_claim lanes sid work t d = Some c"
        "d' = mark_running t work (upd_claims (\<lambda>x. c_id x = c_id c \<and> True) (resume_claim st t lease) d)"
        using resume unfolding ww [symmetric] by (auto simp: claim_held_row_def Let_def split: if_split_asm option.splits)
      from own_parked_claim_SomeD [OF c(1)] show ?thesis
        by (intro owned [OF _ _ _ _ _ c(2)]) (auto simp: live_parked_def resume_claim_def held_def held_statuses_def)
    next
      case fresh
      let ?c = "fresh_claim i0 token sid work st lease t"
      have free: "holder d work = None" and d1: "d_claims d1 = d_claims d @ [?c]"
        using fresh(1) insert_claim_Inr [OF fresh(1)]
        by (auto simp: insert_claim_def holder_None_iff fresh_claim_def split: if_splits)
      have "leases_of d1 = (leases_of d)(work \<mapsto> (sid, t + lease))"
      proof (rule ext)
        fix v
        show "leases_of d1 v = ((leases_of d)(work \<mapsto> (sid, t + lease))) v"
          using free by (cases "v = work") (auto simp: leases_of_def holder_def d1 find_append fresh_claim_def split: option.splits)
      qed
      with free fresh(2) show ?thesis by (simp add: leases_of_def spec_grant_def)
    qed
  qed
  then show ?thesis unfolding ld fam by (auto simp: spec_lapse_def)
qed

section \<open>Heartbeat renews, release frees\<close>

lemma renew_leases:
  assumes "wf_db d"
  shows "leases_of (renew_sessions_and_claims ids t lease d) =
    spec_renew (\<lambda>w s. s \<in> set (filter (\<lambda>i. i \<noteq> []) (map strip ids))) (t + lease) (leases_of d)"
proof (rule ext)
  fix w
  let ?p = "\<lambda>c. c_session c \<in> set (filter (\<lambda>i. i \<noteq> []) (map strip ids)) \<and> held c"
  have "holder (renew_sessions_and_claims ids t lease d) w = holder (upd_claims ?p (renew_claim t lease) d) w"
    by (simp add: holder_def renew_claims table_simps)
  also have "\<dots> = (case holder d w of None \<Rightarrow> None | Some c \<Rightarrow> if ?p c then Some (renew_claim t lease c) else Some c)"
    by (subst leases_upd [OF assms]) (auto simp: renew_claim_def held_def split: option.splits)
  finally show "leases_of (renew_sessions_and_claims ids t lease d) w =
    spec_renew (\<lambda>w s. s \<in> set (filter (\<lambda>i. i \<noteq> []) (map strip ids))) (t + lease) (leases_of d) w"
    by (auto simp: leases_of_def spec_renew_def renew_claim_def split: option.splits dest: holder_SomeD)
qed

lemma known_running: "known_status (c_status c) \<Longrightarrow> lower (strip (c_status c)) \<in> set held_statuses \<Longrightarrow> held c"
  by (simp add: held_def lenient_held)

lemma heartbeat_leases:
  assumes "wf_db d" "statuses_known d" "heartbeat_claim lanes i lease st sid actor sys t d = Inr d'"
  shows "\<exists>c ids. claimd d i = Some c \<and>
     leases_of d' = spec_renew (\<lambda>w s. w = c_work c \<or> s \<in> ids) (t + lease) (leases_of d) \<and>
     (\<forall>s \<in> ids. c_session c \<noteq> [] \<and> s \<in> set (related_session_ids lanes d (c_session c) (map_option s_actor (sess d (c_session c)))))"
proof -
  obtain c where c: "claimd d i = Some c" "lower (strip (c_status c)) = ''running''"
      "d' = (let d1 = upd_claims (\<lambda>x. c_id x = i) (heartbeat_row t lease st) d in
           if c_session c = [] then d1
           else renew_sessions_and_claims
                  (related_session_ids lanes d1 (c_session c) (map_option s_actor (sess d (c_session c))))
                  t lease d1)"
    using heartbeat_claim_Inr [OF assms(3)] by blast
  have i: "i = c_id c" "c \<in> set (d_claims d)" using claimd_SomeD [OF c(1)] by auto
  have held: "held c"
    using known_running [of c] c(2) i(2) assms(2) by (auto simp: statuses_known_def held_statuses_def)
  let ?d1 = "upd_claims (\<lambda>x. c_id x = c_id c) (heartbeat_row t lease st) d"
  have l1: "leases_of ?d1 = (leases_of d)(c_work c \<mapsto> (c_session c, t + lease))"
    using leases_upd_id [OF assms(1) _ held, of "heartbeat_row t lease st"] c(1) i held by (simp add: heartbeat_row_def held_def)
  have lc: "leases_of d (c_work c) = Some (c_session c, c_expires c)"
    using holder_eq [OF assms(1) i(2) held] by (simp add: leases_of_def)
  have wf1: "wf_db ?d1" by (rule heartbeat_update.wf [OF assms(1)])
  have rel: "related_session_ids lanes ?d1 s a = related_session_ids lanes d s a" for s a
    by (rule related_view_only) (simp add: identity_view_def table_simps)
  let ?ids = "related_session_ids lanes d (c_session c) (map_option s_actor (sess d (c_session c)))"
  define ids where "ids = (if c_session c = [] then {} else set (filter (\<lambda>i. i \<noteq> []) (map strip ?ids)))"
  have sub: "s \<in> set ?ids" if "s \<in> ids" for s
    using that related_stripped [of _ lanes d "c_session c"] by (auto simp: ids_def split: if_splits)
  have "leases_of d' = spec_renew (\<lambda>w s. s \<in> ids) (t + lease) (leases_of ?d1)"
  proof (cases "c_session c = []")
    case True
    then have "d' = ?d1" using c(3) i(1) by (simp add: Let_def)
    with True show ?thesis by (auto simp: ids_def spec_renew_def fun_eq_iff split: option.splits)
  next
    case False
    then have "d' = renew_sessions_and_claims ?ids t lease ?d1" using c(3) i(1) by (simp add: Let_def rel)
    with False show ?thesis using renew_leases [OF wf1, of ?ids t lease] by (simp add: ids_def)
  qed
  then have "leases_of d' = spec_renew (\<lambda>w s. w = c_work c \<or> s \<in> ids) (t + lease) (leases_of d)"
    unfolding l1 by (simp add: renew_known [of "leases_of d" "c_work c", OF lc])
  moreover have "c_session c \<noteq> []" if "s \<in> ids" for s using that by (simp add: ids_def split: if_splits)
  ultimately show ?thesis using c(1) sub by blast
qed

lemma release_leases:
  assumes "wf_db d" "statuses_known d"
    and "release_claim L lanes i status reason ns rwh pred manual sid actor sys t d = Inr d'"
  shows "\<exists>c. claimd d i = Some c \<and>
     leases_of d' = (if status \<in> {''released'', ''unclaimed''} then (leases_of d)(c_work c := None) else leases_of d)"
proof -
  obtain c n r p where c: "claimd d i = Some c" "status \<in> set releasable_claim_statuses"
    "lower (strip (c_status c)) \<in> set held_statuses" "release_writes status reason n r p c t d = Inr d'"
    using release_claim_Inr [OF assms(3)] by blast
  have cm: "c \<in> set (d_claims d)" "c_id c = i" using claimd_SomeD [OF c(1)] by auto
  have held: "held c" using known_running [of c] c(3) cm assms(2) by (auto simp: statuses_known_def)
  have "d_claims d' = d_claims (upd_claims (\<lambda>x. c_id x = c_id c) (release_status status reason) d)"
    using c(4) by (auto simp: release_writes_def Let_def table_simps split: if_split_asm)
  then have "leases_of d' = leases_of (upd_claims (\<lambda>x. c_id x = c_id c) (release_status status reason) d)" by (rule leases_same)
  moreover have "held (release_status status reason c) \<longleftrightarrow> status \<notin> {''released'', ''unclaimed''}"
    using c(2) by (auto simp: held_def held_statuses_def releasable_claim_statuses_def)
  moreover have "leases_of d (c_work c) = Some (c_session c, c_expires c)"
    using holder_eq [OF assms(1) cm(1) held] by (simp add: leases_of_def)
  ultimately show ?thesis
    using leases_upd_id [OF assms(1) _ held, of "release_status status reason"] c(1) cm(2)
    by (auto simp: release_status_def fun_upd_idem)
qed

lemma complete_leases:
  assumes "wf_db d" "statuses_known d"
    and "complete_claim L W lanes art i path kind enforce body source sid actor sys t d = Inr (d', stored)"
  shows "\<exists>c. claimd d i = Some c \<and> leases_of d' = (leases_of d)(c_work c := None)"
proof -
  obtain c where c: "claimd d i = Some c" "lower (strip (c_status c)) = ''running''"
    "completion_writes lanes art stored kind source body c t d = Inr d'"
    using complete_claim_Inr [OF assms(3)] completion_gate_Inr by blast
  have cm: "c \<in> set (d_claims d)" "c_id c = i" using claimd_SomeD [OF c(1)] by auto
  have "held c" using known_running [of c] c(2) cm assms(2) by (auto simp: statuses_known_def held_statuses_def)
  with completion_leases [OF assms(1) c(3)] c(1) cm(2) show ?thesis by blast
qed

section \<open>Work whose holder is gone can be claimed\<close>

definition stays :: "work_row \<Rightarrow> work_row \<Rightarrow> bool" where
  "stays w w' \<longleftrightarrow> w_id w' = w_id w \<and> w_assignee w' = w_assignee w \<and> w_archived w' = w_archived w \<and>
     w_resume_pred w' = w_resume_pred w \<and> w_ready_at w' = w_ready_at w \<and> w_reason w' = w_reason w \<and>
     (w_intent w' = w_intent w \<or> w_intent w' = ''queued'')"

lemma stays_trans: "stays u v \<Longrightarrow> stays v w \<Longrightarrow> stays u w"
  by (auto simp: stays_def)

lemma stays_upd:
  assumes "workd d i = Some w" "\<And>w. p w \<Longrightarrow> stays w (f w)"
  shows "\<exists>w'. workd (upd_works p f d) i = Some w' \<and> stays w w'"
proof -
  have "workd (upd_works p f d) i = Some (if p w then f w else w)"
    using assms by (subst workd_upd_works) (auto simp: stays_def)
  then show ?thesis using assms(2) [of w] by (auto simp: stays_def)
qed

lemma stays_release_one:
  assumes "workd d i = Some w"
  shows "\<exists>w'. workd (fst (release_one t row d)) i = Some w' \<and> stays w w'"
proof -
  have u: "workd (upd_claims p f d) i = Some w" for p f using assms by (simp add: table_simps)
  then have "\<exists>w'. workd (upd_works (requeueable k) (requeue t) (upd_claims p f d)) i = Some w' \<and> stays w w'" for p f k
    by (rule stays_upd) (simp add: stays_def requeue_def)
  with assms u show ?thesis by (auto simp: release_one_def Let_def stays_def)
qed

lemma stays_release_rows:
  "workd d i = Some w \<Longrightarrow> \<exists>w'. workd (fst (release_rows t rows d)) i = Some w' \<and> stays w w'"
proof (induction rows arbitrary: d w)
  case Nil
  then show ?case by (simp add: stays_def)
next
  case (Cons row rows)
  obtain w1 where w1: "workd (fst (release_one t row d)) i = Some w1" "stays w w1"
    using stays_release_one [OF Cons.prems] by blast
  obtain w2 where "workd (fst (release_rows t rows (fst (release_one t row d)))) i = Some w2" "stays w1 w2"
    using Cons.IH [OF w1(1)] by blast
  with stays_trans [OF w1(2)] show ?case by (auto simp: Let_def case_prod_beta)
qed

definition available :: "db \<Rightarrow> string \<Rightarrow> work_row \<Rightarrow> bool" where
  "available d sid w \<longleftrightarrow> \<not> closed_row w \<and> \<not> assigned_elsewhere (session_actor_of d sid) w \<and>
     lower (strip (w_intent w)) \<notin> set held_intents \<and> (clean (w_resume_pred w) = [] \<or> w_ready_at w \<noteq> None)"

lemma available_stays: "stays w w' \<Longrightarrow> available d sid w \<Longrightarrow> available d sid w' \<and> \<not> conditionally_parked w'"
proof -
  have "lower (strip ''queued'') = ''queued''" "\<not> terminal ''queued''" "''queued'' \<notin> set held_intents"
    by (simp_all add: strip_def lstrip_def is_ws_def lower_def lower_char_def held_intents_def terminal_def
        terminal_work_states_def)
  then show "stays w w' \<Longrightarrow> available d sid w \<Longrightarrow> available d sid w' \<and> \<not> conditionally_parked w'"
    by (auto simp: stays_def available_def closed_row_def assigned_elsewhere_def conditionally_parked_def)
qed

lemma abandoned_claimable:
  assumes wf: "wf_db d0" and w: "workd d0 work = Some w" "work \<noteq> []" and av: "available d0 sid w"
    and lapsed: "\<And>c. c \<in> set (d_claims d0) \<Longrightarrow> held c \<Longrightarrow> c_work c = work \<Longrightarrow> c_expires c < t"
    and ids: "claimd d0 i = None" "sess d0 sid \<noteq> None"
  shows "\<exists>d'. claim_unlocked lanes i token sid work st lease t d0 = Inr (d', i)"
proof -
  define d where "d = fst (release_expired_claims_unlocked t (Some work) d0)"
  obtain w' where w': "workd d work = Some w'" "stays w w'"
    using stays_release_rows [OF w(1)] by (auto simp: d_def release_expired_claims_unlocked_def)
  have act: "session_actor_of d sid = session_actor_of d0 sid" by (simp add: session_actor_of_def sess_def d_def table_simps)
  note a = available_stays [OF w'(2) av]
  have cl: "d_claims d = upd_where (expired_at t (Some work)) expire_claim (d_claims d0)"
    unfolding d_def by (rule release_expired_claims_table(1) [OF wf])
  have free: "\<not> (held c \<and> c_work c = work)" if "c \<in> set (d_claims d)" for c
    using that lapsed by (auto simp: cl expired_at_def dest!: in_upd_whereD split: if_splits)
  have own: "own_running_claim lanes sid work t d = None"
  proof (rule ccontr)
    assume "own_running_claim lanes sid work t d \<noteq> None"
    then obtain c where "c \<in> set (d_claims d)" "live_running t work c" using own_running_claim_SomeD by blast
    then show False using free [of c] held_running [of c] by (simp add: live_running_def)
  qed
  have fresh: "claimd d i = None" using ids(1)
    by (auto simp: claimd_None_iff cl expire_claim_def dest!: in_upd_whereD split: if_splits)
  have "sess d sid \<noteq> None" using ids(2) by (simp add: sess_def d_def table_simps)
  then have "\<exists>d1. insert_claim (fresh_claim i token sid work st lease t) d = Inr d1"
    using fresh free w'(1) by (auto simp: insert_claim_def fresh_claim_def)
  then show ?thesis
    using a own w'(1) unfolding claim_unlocked_def Let_def d_def [symmetric] by (auto simp: available_def act)
qed

end
