(* ===== verification/HandoffFacts.thy ===== *)
theory HandoffFacts
  imports Handoff Ownership
begin

text \<open>
  What a hand-off and a reassignment leave behind (theory Handoff): one active head, the new
  owner, no live claim, and a receipt that makes a repeated request a replay.
\<close>

section \<open>Batches of events\<close>

fun numbered :: "int \<Rightarrow> event_row list \<Rightarrow> event_row list" where
  "numbered n [] = []"
| "numbered n (e # es) = e\<lparr>e_id := n\<rparr> # numbered (n + 1) es"

lemma numbered_ids: "e \<in> set (numbered n es) \<Longrightarrow> n \<le> e_id e"
  by (induction n es rule: numbered.induct) auto

lemma numbered_of: "e \<in> set (numbered n es) \<Longrightarrow> \<exists>e' \<in> set es. e = e'\<lparr>e_id := e_id e\<rparr>"
  by (induction n es rule: numbered.induct) auto

lemma numbered_has: "e' \<in> set es \<Longrightarrow> \<exists>e \<in> set (numbered n es). e = e'\<lparr>e_id := e_id e\<rparr>"
  by (induction n es rule: numbered.induct) auto

lemma insert_events_Inr:
  "insert_events es d = Inr d' \<Longrightarrow>
     d_events d' = d_events d @ numbered (d_next_event d) es \<and> d_works d' = d_works d \<and> d_claims d' = d_claims d \<and>
     d_sessions d' = d_sessions d \<and> d_runs d' = d_runs d"
proof (induction es arbitrary: d)
  case (Cons e es)
  obtain d1 i where s: "insert_event e d = Inr (d1, i)" "insert_events es d1 = Inr d'"
    using Cons.prems by (auto simp: bindE_Inr_iff)
  from Cons.IH [OF s(2)] insert_event_Inr [OF s(1)] show ?case by simp
qed simp

lemma wf_insert_events: "wf_db d \<Longrightarrow> insert_events es d = Inr d' \<Longrightarrow> wf_db d'"
  by (induction es arbitrary: d) (auto simp: bindE_Inr_iff dest: wf_insert_event)

lemma kept_insert_events: "insert_events es d = Inr d' \<Longrightarrow> kept d d'"
proof (induction es arbitrary: d)
  case (Cons e es)
  obtain d1 i where s: "insert_event e d = Inr (d1, i)" "insert_events es d1 = Inr d'"
    using Cons.prems by (auto simp: bindE_Inr_iff)
  from kept_trans [OF kept_insert_event [OF s(1)] Cons.IH [OF s(2)]] show ?case .
qed simp

section \<open>The row\<close>

lemma upsert_assign:
  assumes "upsert_work_unlocked L False i [F_other k v, F_assignee a, F_intent s] t d = Inr (d', b)" "workd d i = Some w"
  shows "d_events d' = d_events d \<and> d_next_event d' = d_next_event d \<and> d_claims d' = d_claims d \<and>
    d_sessions d' = d_sessions d \<and> d_runs d' = d_runs d \<and>
    (\<exists>w'. workd d' i = Some w' \<and> w_assignee w' = a \<and> w_intent w' = s)"
proof -
  let ?fs = "[F_other k v, F_assignee a, F_intent s]"
  define w' where "w' = apply_fields (filter (differs w) ?fs) w"
  have same: "w\<lparr>w_assignee := a\<rparr> = w \<longleftrightarrow> w_assignee w = a" "w\<lparr>w_intent := s\<rparr> = w \<longleftrightarrow> w_intent w = s"
    by (metis work_row.select_convs(5) work_row.surjective work_row.update_convs(5))
      (metis work_row.select_convs(10) work_row.surjective work_row.update_convs(10))
  have "w_assignee w' = a" "w_intent w' = s"
    unfolding w'_def by (auto simp: differs_def same split: option.splits if_split_asm)
  moreover have "filter (differs w) ?fs = [] \<Longrightarrow> w' = w" by (simp add: w'_def)
  ultimately show ?thesis
    using assms workd_SomeD [OF assms(2)]
    by (auto simp: upsert_work_unlocked_def Let_def bindE_Inr_iff workd_def upd_works_def find_upd_where
        display_field_def w'_def split: option.splits if_split_asm)
qed

section \<open>Heads after a batch\<close>

lemma sorted_wrt_ids_filter: "sorted_wrt (<) (map e_id es) \<Longrightarrow> sorted_wrt (<) (map e_id (filter p es))"
  by (simp add: sorted_wrt_map sorted_wrt_filter)

lemma head_rows_batch:
  assumes "events_ok d" "events_ok d'" "d_events d' = d_events d @ h # numbered n (map tomb A)"
    and "e_work h = Some w" "is_head h"
    and "\<And>i. i \<in> set A \<Longrightarrow> e_work (tomb i) = Some w \<and> e_kind (tomb i) = ''handoff_superseded''"
  shows "head_rows d' w = head_rows d w @ h # numbered n (map tomb A)"
proof -
  let ?p = "\<lambda>e. e_work e = Some w \<and> e_kind e \<in> set head_event_kinds"
  have "?p e" if "e \<in> set (numbered n (map tomb A))" for e
  proof -
    note mem = that
    obtain i where i: "i \<in> set A" "e = (tomb i)\<lparr>e_id := e_id e\<rparr>" using numbered_of [OF mem] by auto
    have "e_work e = e_work (tomb i)" "e_kind e = e_kind (tomb i)" by (subst i(2), simp)+
    with assms(6) [OF i(1)] show ?thesis by (simp add: head_event_kinds_def)
  qed
  then have "filter ?p (numbered n (map tomb A)) = numbered n (map tomb A)" by simp
  moreover have "?p h" using assms(4,5) by (auto simp: is_head_def head_kinds_def head_event_kinds_def)
  ultimately show ?thesis using assms(1-3) by (simp add: head_rows_eq)
qed

lemma heads_after_batch:
  assumes ok: "events_ok d" "events_ok d'" and ev: "d_events d' = d_events d @ h # numbered n (map tomb A)"
    and A: "A = hs_active (typed_handoff_head_state L d w)" and h: "e_work h = Some w" "is_head h"
    and tomb: "\<And>i. i \<in> set A \<Longrightarrow> e_work (tomb i) = Some w \<and> e_kind (tomb i) = ''handoff_superseded''"
    and link: "\<And>i m. i \<in> set A \<Longrightarrow> trusted_link L (head_rows d' w) ((tomb i)\<lparr>e_id := m\<rparr>) = Some (i, e_id h)"
  shows "hs_active (typed_handoff_head_state L d' w) = [e_id h]"
proof -
  have rows: "head_rows d' w = head_rows d w @ h # numbered n (map tomb A)"
    by (rule head_rows_batch [OF ok ev h]) (rule tomb)
  have "sorted_wrt (<) (map e_id (head_rows d' w))"
    using ok(2) by (simp add: head_rows_eq sorted_wrt_ids_filter events_ok_def event_log_ok_def)
  then have "sorted_wrt (<) (map e_id (head_rows d w @ h # numbered n (map tomb A)))" unfolding rows .
  then show ?thesis unfolding head_state_active rows
  proof (rule heads_settle [OF _ h(2)])
    fix s assume "s \<in> set (numbered n (map tomb A))"
    then obtain i where i: "i \<in> set A" "s = (tomb i)\<lparr>e_id := e_id s\<rparr>" using numbered_of by fastforce
    have "e_kind s = e_kind (tomb i)" by (subst i(2)) simp
    moreover have "trusted_link L (head_rows d' w) s = Some (i, e_id h)" by (subst i(2)) (rule link [OF i(1)])
    ultimately show "e_kind s = ''handoff_superseded'' \<and> (\<exists>i \<in> set (active_heads L (head_rows d w)).
        trusted_link L (head_rows d w @ h # numbered n (map tomb A)) s = Some (i, e_id h))"
      using i(1) tomb [OF i(1)] unfolding rows A head_state_active by auto
  next
    fix i assume "i \<in> set (active_heads L (head_rows d w))"
    then have i: "i \<in> set A" by (simp add: A head_state_active)
    then obtain s where s: "s \<in> set (numbered n (map tomb A))" "s = (tomb i)\<lparr>e_id := e_id s\<rparr>" 
      using numbered_has [of "tomb i" "map tomb A" n] by auto
    have "trusted_link L (head_rows d' w) s = Some (i, e_id h)" by (subst s(2)) (rule link [OF i])
    with s(1) show "\<exists>s \<in> set (numbered n (map tomb A)).
        trusted_link L (head_rows d w @ h # numbered n (map tomb A)) s = Some (i, e_id h)"
      unfolding rows by blast
  qed
qed

lemma active_head_row:
  assumes "events_ok d" "i \<in> set (hs_active (typed_handoff_head_state L d w))"
  shows "0 < i \<and> i < d_next_event d \<and> candidate (head_rows d w) i"
proof -
  obtain e where e: "e \<in> set (head_rows d w)" "is_head e" "e_id e = i"
    using assms(2) by (auto simp: head_state_active active_heads_def)
  then have "e \<in> set (d_events d)" by (simp add: head_rows_def)
  with assms(1) e show ?thesis by (auto simp: candidate_def events_ok_def event_log_ok_def)
qed

text \<open>A new head whose tombstones are all believed is the only active head.\<close>

lemma batch_settles:
  assumes ok: "events_ok d" "events_ok d'" and ev: "d_events d' = d_events d @ h # numbered (n + 1) (map tomb A)"
    and A: "A = hs_active (typed_handoff_head_state L d w)"
    and h: "e_id h = n" "n = d_next_event d" "e_work h = Some w" "is_head h"
    and tomb: "\<And>i. e_work (tomb i) = Some w \<and> e_kind (tomb i) = ''handoff_superseded''"
    and link: "\<And>rows i m. row_of rows n = Some h \<Longrightarrow> candidate rows i \<Longrightarrow> candidate rows n \<Longrightarrow> 0 < i \<Longrightarrow> i < n \<Longrightarrow>
      trusted_link L rows ((tomb i)\<lparr>e_id := m\<rparr>) = Some (i, n)"
  shows "hs_active (typed_handoff_head_state L d' w) = [n]"
proof -
  have rows: "head_rows d' w = head_rows d w @ h # numbered (n + 1) (map tomb A)"
    by (rule head_rows_batch [OF ok ev h(3,4)]) (rule tomb)
  have "distinct (map e_id (head_rows d' w))"
    using ok(2) by (simp add: head_rows_eq events_ok_def event_log_ok_def strict_sorted_iff distinct_map_filter)
  then have hn: "row_of (head_rows d' w) n = Some h" "candidate (head_rows d' w) n"
    using row_of_eq [of "head_rows d' w" h] h by (auto simp: rows candidate_def)
  have "hs_active (typed_handoff_head_state L d' w) = [e_id h]"
  proof (rule heads_after_batch [OF ok ev A h(3,4)])
    fix i assume "i \<in> set A"
    then have i: "0 < i" "i < n" "candidate (head_rows d' w) i"
      using active_head_row [OF ok(1)] candidate_append by (auto simp: A h(2) rows)
    show "trusted_link L (head_rows d' w) ((tomb i)\<lparr>e_id := m\<rparr>) = Some (i, e_id h)" for m
      using link [OF hn(1) i(3) hn(2) i(1,2)] h(1) by simp
  qed (rule tomb)
  with h(1) show ?thesis by simp
qed

section \<open>Compaction keeps the contract of a payload\<close>

lemma field_drop_key [simp]: "k \<noteq> k' \<Longrightarrow> field (drop_key k' p) k = field p k"
  by (induction p) (auto simp: field_def drop_key_def)

lemma field_set_key [simp]: "field (set_key k' v p) k = (if k = k' then v else field p k)"
  by (induction p) (auto simp: field_def)

lemma compact_keys_field:
  "k \<notin> fst ` set ks \<Longrightarrow> field (fst (compact_keys ks st)) k = field (fst st) k"
  by (induction ks st rule: compact_keys.induct) (auto simp: Let_def)

lemma compact_field:
  assumes "compact_event_payload L p w = Inr out" "k \<notin> {''task'', ''why'', ''acceptance'', ''same_as_row''}"
  shows "field out k = field p k"
proof (cases w)
  case None
  then show ?thesis using assms(1) by (simp add: compact_event_payload_def)
next
  case (Some r)
  let ?ks = "[(''task'', ''title'', field r ''title''), (''why'', ''note'', field r ''note''),
                   (''acceptance'', ''acceptance_json'', acceptance_from_work_row L r)]"
  obtain o1 s1 where c: "compact_keys ?ks (p, case field p ''same_as_row'' of JObj s \<Rightarrow> s | _ \<Rightarrow> []) = (o1, s1)"
    by (rule prod.exhaust)
  have "k \<notin> fst ` set ?ks" using assms(2) by simp
  then have "field o1 k = field p k"
    using compact_keys_field [of k ?ks "(p, case field p ''same_as_row'' of JObj s \<Rightarrow> s | _ \<Rightarrow> [])"]
    unfolding c fst_conv by blast
  moreover have "out = o1 \<or> out = set_key ''same_as_row'' (JObj s1) o1"
    using assms(1) unfolding compact_event_payload_def Some Let_def option.case c prod.case by (simp split: if_split_asm)
  ultimately show ?thesis using assms(2) by auto
qed

section \<open>The typed hand-off\<close>

lemma typed_handoff_request_Inr:
  assumes "typed_handoff_request L lanes a = Inr (r, v, heads, sha)"
  shows "r = clean_args a" "ha_work r \<noteq> []" "ha_actor r \<in> set lanes" "ha_owner r \<in> set lanes" "ha_actor r \<noteq> ha_owner r"
    and "ha_assignee r = ha_actor r" "ha_intent r \<in> {''queued'', ''blocked''}"
    and "expected_actor_for_session_id (ha_session r) = Some (ha_actor r)"
proof -
  have b: "capsule_checks (clean_args a) = Inr (v, heads)" "r = clean_args a"
    using assms by (auto simp: typed_handoff_request_def Let_def bindE_Inr_iff split: if_split_asm)
  then show "ha_intent r \<in> {''queued'', ''blocked''}"
    by (auto simp: capsule_checks_def split: if_split_asm)
  show "r = clean_args a" "ha_work r \<noteq> []" "ha_actor r \<in> set lanes" "ha_owner r \<in> set lanes" "ha_actor r \<noteq> ha_owner r"
    "ha_assignee r = ha_actor r" "expected_actor_for_session_id (ha_session r) = Some (ha_actor r)"
    using assms b(2) by (auto simp: typed_handoff_request_def Let_def split: if_split_asm)
qed

lemma typed_handoff_replay_Inr:
  "typed_handoff_replay L r sha e d = Inr (d', res) \<Longrightarrow> d' = d \<and> hr_replayed res \<and> hr_event res = e_id e"
  by (auto simp: typed_handoff_replay_def replayed_result_def Let_def split: if_split_asm json.splits option.splits prod.splits)

lemma handoff_guards_Inr:
  assumes "handoff_guards L W r v heads w d = Inr u"
  shows "w_version w = v" "norm (w_assignee w) = ha_actor r" "\<not> closed_row w"
    and "hs_active (typed_handoff_head_state L d (ha_work r)) = heads"
    and "\<forall>x \<in> set (d_runs d). \<not> active_run (ha_work r) x"
  using assms by (auto simp: handoff_guards_def Let_def list_ex_iff split: if_split_asm)

lemma handoff_writes_Inr:
  assumes "handoff_writes L lanes r v heads sha st t d0 = Inr (d', res)"
  defines "d \<equiv> fst (release_expired_claims_unlocked t (Some (ha_work r)) d0)"
  shows "\<exists>ids reason b d2 w2 payload d3.
     (\<forall>c \<in> set (d_claims d). live_held t (ha_work r) c \<longrightarrow> c_id c \<in> set ids) \<and>
     (\<forall>i \<in> set ids. \<exists>c \<in> set (d_claims d). c_id c = i \<and> c_work c = ha_work r) \<and>
     (\<forall>c \<in> set (d_claims d). live_held t (ha_work r) c \<longrightarrow>
        c_session c \<in> set (ha_session r # related_session_ids lanes d (ha_session r) (Some (ha_actor r)))) \<and>
     upsert_work_unlocked L False (ha_work r)
       [F_other ''assigned_by'' (CText (ha_actor r)), F_assignee (Some (ha_owner r)), F_intent (ha_intent r)] t
       (release_own ids reason d) = Inr (d2, b) \<and>
     workd d2 (ha_work r) = Some w2 \<and>
     compact_event_payload L (handoff_payload L r v heads sha w2 (hs_active st)) (Some (postimage_row w2)) = Inr payload \<and>
     insert_event (handoff_event r payload t) d2 = Inr (d3, hr_event res) \<and>
     insert_events (map (handoff_supersession r (hr_event res) t) (hs_active st)) d3 = Inr d' \<and>
     \<not> hr_replayed res \<and> hr_superseded res = hs_active st"
proof -
  let ?held = "live_claims (ha_work r) t d"
  let ?family = "related_session_ids lanes d (ha_session r) (Some (ha_actor r))"
  let ?mine = "\<lambda>c. c_session c \<in> set (if ?family = [] then [ha_session r] else ?family)"
  have held: "c \<in> set ?held \<longleftrightarrow> c \<in> set (d_claims d) \<and> live_held t (ha_work r) c" for c
    by (simp add: live_claims_def)
  have mine: "\<forall>c \<in> set ?held. ?mine c"
    using assms(1) unfolding handoff_writes_def Let_def d_def [symmetric] by (auto simp: list_ex_iff split: if_split_asm)
  obtain d2 b where up: "upsert_work_unlocked L False (ha_work r)
       [F_other ''assigned_by'' (CText (ha_actor r)), F_assignee (Some (ha_owner r)), F_intent (ha_intent r)] t
       (release_own (map c_id (filter ?mine ?held)) ''typed cross-agent handoff closes caller ownership epoch'' d) = Inr (d2, b)"
    using assms(1) unfolding handoff_writes_def Let_def d_def [symmetric] by (auto simp: bindE_Inr_iff split: if_split_asm)
  obtain w2 where w2: "workd d2 (ha_work r) = Some w2"
    using assms(1) up unfolding handoff_writes_def Let_def d_def [symmetric]
    by (cases "workd d2 (ha_work r)") (auto split: if_split_asm)
  have rest: "\<exists>payload d3. compact_event_payload L (handoff_payload L r v heads sha w2 (hs_active st)) (Some (postimage_row w2)) = Inr payload \<and>
     insert_event (handoff_event r payload t) d2 = Inr (d3, hr_event res) \<and>
     insert_events (map (handoff_supersession r (hr_event res) t) (hs_active st)) d3 = Inr d' \<and>
     \<not> hr_replayed res \<and> hr_superseded res = hs_active st"
    using assms(1) up w2 unfolding handoff_writes_def Let_def d_def [symmetric]
    by (auto simp: bindE_Inr_iff case_prod_beta split: if_split_asm)
  have "\<forall>c \<in> set (d_claims d). live_held t (ha_work r) c \<longrightarrow> c_id c \<in> set (map c_id (filter ?mine ?held))"
    using mine held by auto
  moreover have "\<forall>i \<in> set (map c_id (filter ?mine ?held)). \<exists>c \<in> set (d_claims d). c_id c = i \<and> c_work c = ha_work r"
    using held by (auto simp: live_held_def)
  moreover have "\<forall>c \<in> set (d_claims d). live_held t (ha_work r) c \<longrightarrow> c_session c \<in> set (ha_session r # ?family)"
    using mine held by (auto split: if_split_asm)
  ultimately show ?thesis using up w2 rest by blast
qed

lemma release_own_claims: "d_claims (release_own ids reason d) =
    upd_where (\<lambda>c. c_id c \<in> set ids) (release_status ''released'' (Some reason)) (d_claims d)"
  by (simp add: release_own_def table_simps)

lemma release_own_frames [table_simps]:
  "d_events (release_own ids reason d) = d_events d" "workd (release_own ids reason d) i = workd d i"
  "d_sessions (release_own ids reason d) = d_sessions d" "d_runs (release_own ids reason d) = d_runs d"
  "d_next_event (release_own ids reason d) = d_next_event d"
  by (simp_all add: release_own_def table_simps) (simp add: upd_claims_def)

lemma wf_release_own: "wf_db d \<Longrightarrow> wf_db (release_own ids reason d)"
  unfolding release_own_def by (rule release_update.wf)

lemma handoff_event_simps [simp]:
  "e_kind (handoff_event r p t) = ''handoff''" "e_work (handoff_event r p t) = Some (ha_work r)"
  "e_payload (handoff_event r p t) = JObj p" "e_key (handoff_event r p t) = Some (typed_handoff_key r)"
  "e_actor (handoff_event r p t) = Some (ha_actor r)" "e_session (handoff_event r p t) = Some (ha_session r)"
  by (simp_all add: handoff_event_def)

lemma handoff_payload_fields:
  "field (handoff_payload L r v heads sha w s) ''schema_version'' = JInt 2"
  "field (handoff_payload L r v heads sha w s) ''writer_contract'' = JStr ''existing_work_handoff.v2''"
  by (simp_all add: handoff_payload_def case_prod_beta field_def)

lemma handoff_link:
  assumes "row_of rows n = Some ((handoff_event r p t)\<lparr>e_id := n\<rparr>)" "candidate rows i" "candidate rows n" "0 < i" "i < n"
    and "field p ''writer_contract'' = JStr ''existing_work_handoff.v2''"
  shows "trusted_link L rows ((handoff_supersession r n t i)\<lparr>e_id := m\<rparr>) = Some (i, n)"
proof -
  have "typed_trusted rows ((handoff_supersession r n t i)\<lparr>e_id := m\<rparr>)
      [(''by_event_id'', JInt n), (''reason'', JStr ''new typed global assignment head''),
         (''schema_version'', JInt 1), (''supersedes'', JInt i)] i n ((handoff_event r p t)\<lparr>e_id := n\<rparr>)"
    using assms by (simp add: typed_trusted_def handoff_supersession_def field_def strict_json_mapping_def
        typed_handoff_key_def same_sender_def)
  then show ?thesis
    using assms by (simp add: trusted_link_def handoff_supersession_def strict_json_mapping_def field_def
        strict_event_reference_def strict_positive_event_id_def)
qed

lemma handoff_effect:
  assumes wf: "wf_db d0" and writes: "handoff_writes L lanes r v heads sha (typed_handoff_head_state L d0 (ha_work r)) t d0 = Inr (d', res)"
    and work: "workd d0 (ha_work r) = Some w" "ha_work r \<noteq> []"
  shows "wf_db d' \<and> hs_active (typed_handoff_head_state L d' (ha_work r)) = [hr_event res] \<and>
    (\<exists>w'. workd d' (ha_work r) = Some w' \<and> w_assignee w' = Some (ha_owner r) \<and> w_intent w' = ha_intent r) \<and>
    (\<forall>c \<in> set (d_claims d'). \<not> live_held t (ha_work r) c) \<and>
    filter (\<lambda>c. c_work c \<noteq> ha_work r) (d_claims d') = filter (\<lambda>c. c_work c \<noteq> ha_work r) (d_claims d0) \<and>
    (\<exists>e. event_by_key d' (typed_handoff_key r) = Some e \<and> e_id e = hr_event res)"
proof -
  define d where "d = fst (release_expired_claims_unlocked t (Some (ha_work r)) d0)"
  define A where "A = hs_active (typed_handoff_head_state L d0 (ha_work r))"
  obtain ids reason b d2 w2 payload d3 where s:
     "\<forall>c \<in> set (d_claims d). live_held t (ha_work r) c \<longrightarrow> c_id c \<in> set ids"
     "\<forall>i \<in> set ids. \<exists>c \<in> set (d_claims d). c_id c = i \<and> c_work c = ha_work r"
     "upsert_work_unlocked L False (ha_work r)
       [F_other ''assigned_by'' (CText (ha_actor r)), F_assignee (Some (ha_owner r)), F_intent (ha_intent r)] t
       (release_own ids reason d) = Inr (d2, b)"
     "compact_event_payload L (handoff_payload L r v heads sha w2 A) (Some (postimage_row w2)) = Inr payload"
     "insert_event (handoff_event r payload t) d2 = Inr (d3, hr_event res)"
     "insert_events (map (handoff_supersession r (hr_event res) t) A) d3 = Inr d'"
    using handoff_writes_Inr [OF writes] unfolding d_def A_def by blast
  have wfd: "wf_db d" using wf by (simp add: d_def wf_release_expired)
  obtain w1 where w1: "workd (release_own ids reason d) (ha_work r) = Some w1"
    using stays_release_rows [OF work(1)] by (auto simp: table_simps d_def release_expired_claims_unlocked_def)
  note up = upsert_assign [OF s(3) w1]
  have wf2: "wf_db d2" by (rule wf_upsert_work [OF wf_release_own [OF wfd] s(3)])
  note e3 = insert_event_Inr [OF s(5)] and e4 = insert_events_Inr [OF s(6)]
  have wf3: "wf_db d3" by (rule wf_insert_event [OF wf2 s(5)])
  have wf4: "wf_db d'" by (rule wf_insert_events [OF wf3 s(6)])
  let ?n = "hr_event res" and ?h = "(handoff_event r payload t)\<lparr>e_id := hr_event res\<rparr>"
  have ev2: "d_events d2 = d_events d0" "d_next_event d2 = d_next_event d0" using up by (simp_all add: table_simps d_def)
  have n: "?n = d_next_event d0" using e3 ev2 by simp
  have ev: "d_events d' = d_events d0 @ ?h # numbered (?n + 1) (map (handoff_supersession r ?n t) A)"
    using e4 e3 ev2 by simp
  have ok: "events_ok d0" "events_ok d'" using wf wf4 by (simp_all add: wf_db_def)
  have contract: "field payload ''writer_contract'' = JStr ''existing_work_handoff.v2''" "field payload ''schema_version'' = JInt 2"
    using compact_field [OF s(4)] by (simp_all add: handoff_payload_fields)
  have h: "e_work ?h = Some (ha_work r)" "is_head ?h"
    using contract(2) by (simp_all add: is_head_def head_kinds_def positive_schema_def strict_json_mapping_def strict_positive_event_id_def)
  have tomb: "e_work (handoff_supersession r ?n t i) = Some (ha_work r) \<and> e_kind (handoff_supersession r ?n t i) = ''handoff_superseded''" for i
    by (simp add: handoff_supersession_def)
  have active: "hs_active (typed_handoff_head_state L d' (ha_work r)) = [?n]"
    by (rule batch_settles [OF ok ev A_def _ n h]) (simp, rule tomb, rule handoff_link [OF _ _ _ _ _ contract(1)])
  have cl: "d_claims d' = upd_where (\<lambda>c. c_id c \<in> set ids) (release_status ''released'' (Some reason)) (d_claims d)"
    using e4 e3 up by (simp add: release_own_claims)
  have "\<not> live_held t (ha_work r) c" if "c \<in> set (d_claims d')" for c
    using that s(1) unfolding cl by (auto dest!: in_upd_whereD simp: live_held_def release_status_def held_def held_statuses_def split: if_splits)
  moreover have "filter (\<lambda>c. c_work c \<noteq> ha_work r) (d_claims d') = filter (\<lambda>c. c_work c \<noteq> ha_work r) (d_claims d0)"
  proof -
    have "c_work c = ha_work r" if "c \<in> set (d_claims d)" "c_id c \<in> set ids" for c
      using that s(2) wfd by (auto simp: wf_db_defs distinct_map dest: inj_onD)
    then have "filter (\<lambda>c. c_work c \<noteq> ha_work r) (d_claims d') = filter (\<lambda>c. c_work c \<noteq> ha_work r) (d_claims d)"
      unfolding cl by (intro filter_upd_where_other) (simp add: release_status_def)
    also have "\<dots> = filter (\<lambda>c. c_work c \<noteq> ha_work r) (d_claims d0)"
      unfolding d_def by (rule release_expired_other(1) [OF wf work(2)])
    finally show ?thesis .
  qed
  moreover have "\<exists>w'. workd d' (ha_work r) = Some w' \<and> w_assignee w' = Some (ha_owner r) \<and> w_intent w' = ha_intent r"
    using up e3 e4 by (simp add: workd_def)
  moreover have "\<exists>e. event_by_key d' (typed_handoff_key r) = Some e \<and> e_id e = ?n"
  proof -
    have "event_by_key d2 (typed_handoff_key r) = None" using s(5) by (auto simp: insert_event_def split: if_split_asm)
    then show ?thesis using ev ev2 by (simp add: event_by_key_def find_append)
  qed
  ultimately show ?thesis using wf4 active by simp
qed

lemma post_handoff_Inr:
  assumes "post_existing_work_handoff L W lanes a t d = Inr (d', res)"
  shows "\<exists>r v heads sha. typed_handoff_request L lanes a = Inr (r, v, heads, sha) \<and>
    (case event_by_key d (typed_handoff_key r) of
       Some e \<Rightarrow> d' = d \<and> hr_replayed res \<and> hr_event res = e_id e
     | None \<Rightarrow> \<exists>w. workd d (ha_work r) = Some w \<and> handoff_guards L W r v heads w d = Inr () \<and>
         handoff_writes L lanes r v heads sha (typed_handoff_head_state L d (ha_work r)) t d = Inr (d', res))"
proof -
  obtain r v heads sha where q: "typed_handoff_request L lanes a = Inr (r, v, heads, sha)"
    using assms by (auto simp: post_existing_work_handoff_def bindE_Inr_iff)
  show ?thesis
  proof (intro exI conjI)
    show "typed_handoff_request L lanes a = Inr (r, v, heads, sha)" by (rule q)
    show "case event_by_key d (typed_handoff_key r) of
       Some e \<Rightarrow> d' = d \<and> hr_replayed res \<and> hr_event res = e_id e
     | None \<Rightarrow> \<exists>w. workd d (ha_work r) = Some w \<and> handoff_guards L W r v heads w d = Inr () \<and>
         handoff_writes L lanes r v heads sha (typed_handoff_head_state L d (ha_work r)) t d = Inr (d', res)"
      using assms q typed_handoff_replay_Inr
      by (fastforce simp: post_existing_work_handoff_def bindE_Inr_iff split: option.splits)
  qed
qed

definition handoff_receipt :: "handoff_result \<Rightarrow> receipt" where
  "handoff_receipt res = \<lparr>k_event = hr_event res, k_replayed = hr_replayed res, k_released = []\<rparr>"

definition as_receipt :: "err + (db \<times> handoff_result) \<Rightarrow> err + (db \<times> receipt)" where
  "as_receipt x = map_sum id (map_prod id handoff_receipt) x"

lemma as_receipt_Inr: "as_receipt x = Inr (d', r) \<longleftrightarrow> (\<exists>res. x = Inr (d', res) \<and> r = handoff_receipt res)"
  by (cases x) (auto simp: as_receipt_def)

section \<open>The operator's reassignment\<close>

lemma operator_request_Inr:
  assumes "operator_reassignment_request L lanes a release = Inr (r, v, heads, sha)"
  shows "r = clean_args a" "ha_work r \<noteq> []" "ha_owner r \<in> set lanes" "ha_owner r \<noteq> ha_assignee r"
    and "ha_intent r \<in> {''queued'', ''blocked''}" "\<not> release"
proof -
  have b: "capsule_checks (clean_args a) = Inr (v, heads)" "r = clean_args a"
    using assms by (auto simp: operator_reassignment_request_def Let_def bindE_Inr_iff split: if_split_asm)
  then show "ha_intent r \<in> {''queued'', ''blocked''}"
    by (auto simp: capsule_checks_def split: if_split_asm)
  show "r = clean_args a" "ha_work r \<noteq> []" "ha_owner r \<in> set lanes" "ha_owner r \<noteq> ha_assignee r" "\<not> release"
    using assms b(2) by (auto simp: operator_reassignment_request_def Let_def split: if_split_asm)
qed

lemma operator_replay_Inr:
  "operator_replay L r v heads sha e d = Inr (d', res) \<Longrightarrow> d' = d \<and> hr_replayed res \<and> hr_event res = e_id e"
  by (auto simp: operator_replay_def replayed_result_def Let_def split: if_split_asm json.splits option.splits)

lemma reassignment_guards_Inr:
  assumes "reassignment_guards L W r v heads w d = Inr u"
  shows "w_version w = v" "norm (w_assignee w) = ha_assignee r" "\<not> closed_row w"
    and "hs_active (typed_handoff_head_state L d (ha_work r)) = heads"
    and "\<forall>x \<in> set (d_runs d). \<not> open_run (ha_work r) x"
  using assms by (auto simp: reassignment_guards_def Let_def list_ex_iff split: if_split_asm)

lemma reassignment_writes_Inr:
  assumes "reassignment_writes L r v heads sha st t d0 = Inr (d', res)"
  defines "d \<equiv> fst (release_expired_claims_unlocked t (Some (ha_work r)) d0)"
  shows "\<exists>d2 w2 d3. (\<forall>c \<in> set (d_claims d). \<not> live_held t (ha_work r) c) \<and>
     row_count (reassigns r v) (d_works d) = 1 \<and>
     d2 = upd_works (reassigns r v) (reassigned r t) d \<and> workd d2 (ha_work r) = Some w2 \<and>
     insert_event (operator_event r (operator_payload L r v heads sha w2 (hs_active st)) t) d2 = Inr (d3, hr_event res) \<and>
     insert_events (map (operator_supersession r (hr_event res) t) (hs_active st)) d3 = Inr d' \<and>
     \<not> hr_replayed res \<and> hr_superseded res = hs_active st"
proof -
  let ?d2 = "upd_works (reassigns r v) (reassigned r t) d"
  have none: "\<forall>c \<in> set (d_claims d). \<not> live_held t (ha_work r) c" "row_count (reassigns r v) (d_works d) = 1"
    using assms(1) unfolding reassignment_writes_def Let_def d_def [symmetric]
    by (auto simp: live_claims_def filter_empty_conv split: if_split_asm)
  obtain w2 where w2: "workd ?d2 (ha_work r) = Some w2"
    using assms(1) unfolding reassignment_writes_def Let_def d_def [symmetric]
    by (cases "workd ?d2 (ha_work r)") (auto split: if_split_asm)
  have "\<exists>d3. insert_event (operator_event r (operator_payload L r v heads sha w2 (hs_active st)) t) ?d2 = Inr (d3, hr_event res) \<and>
     insert_events (map (operator_supersession r (hr_event res) t) (hs_active st)) d3 = Inr d' \<and>
     \<not> hr_replayed res \<and> hr_superseded res = hs_active st"
    using assms(1) w2 unfolding reassignment_writes_def Let_def d_def [symmetric]
    by (auto simp: bindE_Inr_iff case_prod_beta split: if_split_asm)
  with none w2 show ?thesis by blast
qed

lemma operator_event_simps [simp]:
  "e_kind (operator_event r p t) = ''handoff''" "e_work (operator_event r p t) = Some (ha_work r)"
  "e_payload (operator_event r p t) = JObj p" "e_key (operator_event r p t) = Some (operator_key r)"
  "e_actor (operator_event r p t) = Some ''operator''" "e_session (operator_event r p t) = None"
  "e_trust (operator_event r p t) = ''system''" "e_to (operator_event r p t) = Some (''actor:'' @ ha_owner r)"
  by (simp_all add: operator_event_def)

lemma operator_payload_fields:
  "field (operator_payload L r v heads sha w s) ''schema_version'' = JInt 1"
  "field (operator_payload L r v heads sha w s) ''writer_contract'' = JStr operator_contract"
  "field (operator_payload L r v heads sha w s) ''authority_channel'' = JStr operator_authority_channel"
  by (simp_all add: operator_payload_def case_prod_beta field_def)

lemma operator_link:
  assumes "row_of rows n = Some ((operator_event r (operator_payload L r v heads sha w s) t)\<lparr>e_id := n\<rparr>)"
    and "candidate rows i" "candidate rows n" "0 < i" "i < n"
  shows "trusted_link L rows ((operator_supersession r n t i)\<lparr>e_id := m\<rparr>) = Some (i, n)"
proof -
  let ?p = "[(''by_event_id'', JInt n), (''reason'', JStr ''operator reassignment replaced the active assignment head''),
     (''schema_version'', JInt 1), (''supersedes'', JInt i), (''writer_contract'', JStr ''operator_reassignment_supersession.v1'')]"
  have "operator_trusted rows ((operator_supersession r n t i)\<lparr>e_id := m\<rparr>) ?p i n
      ((operator_event r (operator_payload L r v heads sha w s) t)\<lparr>e_id := n\<rparr>)"
    using assms operator_payload_fields [of L r v heads sha w s]
    by (simp add: operator_trusted_def operator_supersession_def strict_json_mapping_def operator_key_def field_def [of ?p])
  then show ?thesis
    using assms by (simp add: trusted_link_def operator_supersession_def strict_json_mapping_def field_def
        strict_event_reference_def strict_positive_event_id_def)
qed

lemma row_count_exists: "row_count p xs = 1 \<Longrightarrow> \<exists>x \<in> set xs. p x"
  by (auto simp: row_count_def length_Suc_conv filter_eq_Cons_iff)

lemma reassigned_simps [simp]:
  "w_id (reassigned r t w) = w_id w" "w_assignee (reassigned r t w) = Some (ha_owner r)"
  "w_intent (reassigned r t w) = ha_intent r" "w_version (reassigned r t w) = w_version w + 1"
  by (simp_all add: reassigned_def)

lemma operator_effect:
  assumes wf: "wf_db d0" and writes: "reassignment_writes L r v heads sha (typed_handoff_head_state L d0 (ha_work r)) t d0 = Inr (d', res)"
    and "ha_work r \<noteq> []"
  shows "wf_db d' \<and> hs_active (typed_handoff_head_state L d' (ha_work r)) = [hr_event res] \<and>
    (\<exists>w'. workd d' (ha_work r) = Some w' \<and> w_assignee w' = Some (ha_owner r) \<and> w_intent w' = ha_intent r \<and> w_version w' = v + 1) \<and>
    (\<forall>c \<in> set (d_claims d'). \<not> live_held t (ha_work r) c) \<and>
    d_claims d' = d_claims (fst (release_expired_claims_unlocked t (Some (ha_work r)) d0)) \<and>
    (\<exists>e. event_by_key d' (operator_key r) = Some e \<and> e_id e = hr_event res)"
proof -
  define d where "d = fst (release_expired_claims_unlocked t (Some (ha_work r)) d0)"
  define A where "A = hs_active (typed_handoff_head_state L d0 (ha_work r))"
  obtain d2 w2 d3 where s: "\<forall>c \<in> set (d_claims d). \<not> live_held t (ha_work r) c"
     "row_count (reassigns r v) (d_works d) = 1" "d2 = upd_works (reassigns r v) (reassigned r t) d"
     "insert_event (operator_event r (operator_payload L r v heads sha w2 A) t) d2 = Inr (d3, hr_event res)"
     "insert_events (map (operator_supersession r (hr_event res) t) A) d3 = Inr d'"
    using reassignment_writes_Inr [OF writes] unfolding d_def A_def by blast
  have wfd: "wf_db d" using wf by (simp add: d_def wf_release_expired)
  have wf2: "wf_db d2" unfolding s(3) by (rule wf_upd_works [OF _ wfd]) simp
  note e3 = insert_event_Inr [OF s(4)] and e4 = insert_events_Inr [OF s(5)]
  have wf4: "wf_db d'" by (rule wf_insert_events [OF wf_insert_event [OF wf2 s(4)] s(5)])
  let ?n = "hr_event res" and ?p = "operator_payload L r v heads sha w2 A"
  let ?h = "(operator_event r ?p t)\<lparr>e_id := hr_event res\<rparr>"
  have ev2: "d_events d2 = d_events d0" "d_next_event d2 = d_next_event d0" "d_claims d2 = d_claims d"
    by (simp_all add: s(3) table_simps d_def) (simp add: upd_works_def table_simps)
  have n: "?n = d_next_event d0" using e3 ev2 by simp
  have ev: "d_events d' = d_events d0 @ ?h # numbered (?n + 1) (map (operator_supersession r ?n t) A)"
    using e4 e3 ev2 by simp
  have ok: "events_ok d0" "events_ok d'" using wf wf4 by (simp_all add: wf_db_def)
  have h: "e_work ?h = Some (ha_work r)" "is_head ?h"
    by (simp_all add: is_head_def head_kinds_def positive_schema_def strict_json_mapping_def strict_positive_event_id_def
        operator_payload_fields)
  have tomb: "e_work (operator_supersession r ?n t i) = Some (ha_work r) \<and> e_kind (operator_supersession r ?n t i) = ''handoff_superseded''" for i
    by (simp add: operator_supersession_def)
  have active: "hs_active (typed_handoff_head_state L d' (ha_work r)) = [?n]"
    by (rule batch_settles [OF ok ev A_def _ n h]) (simp, rule tomb, rule operator_link)
  obtain w where w: "w \<in> set (d_works d)" "reassigns r v w" using row_count_exists [OF s(2)] by blast
  have "workd d (ha_work r) = Some w"
    using find_distinct [of w_id "d_works d" w] w wfd by (simp add: reassigns_def workd_def wf_db_defs)
  then have "workd d2 (ha_work r) = Some (reassigned r t w)"
    using w(2) by (simp add: s(3) workd_upd_works)
  then have "workd d' (ha_work r) = Some (reassigned r t w)" "w_version w = v"
    using e3 e4 w(2) by (simp_all add: workd_def reassigns_def)
  moreover have "d_claims d' = d_claims d" using e3 e4 ev2 by simp
  moreover have "\<exists>e. event_by_key d' (operator_key r) = Some e \<and> e_id e = ?n"
  proof -
    have "event_by_key d2 (operator_key r) = None" using s(4) by (auto simp: insert_event_def split: if_split_asm)
    then show ?thesis using ev ev2 by (simp add: event_by_key_def find_append)
  qed
  ultimately show ?thesis using wf4 active s(1) by (simp add: d_def)
qed

lemma post_reassignment_Inr:
  assumes "post_operator_reassignment L W lanes a release cap t d = Inr (d', res)"
  shows "\<exists>r v heads sha. operator_reassignment_request L lanes a release = Inr (r, v, heads, sha) \<and> cap \<and>
    (case event_by_key d (operator_key r) of
       Some e \<Rightarrow> d' = d \<and> hr_replayed res \<and> hr_event res = e_id e
     | None \<Rightarrow> \<exists>w. workd d (ha_work r) = Some w \<and> reassignment_guards L W r v heads w d = Inr () \<and>
         reassignment_writes L r v heads sha (typed_handoff_head_state L d (ha_work r)) t d = Inr (d', res))"
proof -
  obtain r v heads sha where q: "operator_reassignment_request L lanes a release = Inr (r, v, heads, sha)" and cap
    using assms by (auto simp: post_operator_reassignment_def bindE_Inr_iff split: if_split_asm)
  show ?thesis
  proof (intro exI conjI)
    show "operator_reassignment_request L lanes a release = Inr (r, v, heads, sha)" by (rule q)
    show cap by fact
    show "case event_by_key d (operator_key r) of
       Some e \<Rightarrow> d' = d \<and> hr_replayed res \<and> hr_event res = e_id e
     | None \<Rightarrow> \<exists>w. workd d (ha_work r) = Some w \<and> reassignment_guards L W r v heads w d = Inr () \<and>
         reassignment_writes L r v heads sha (typed_handoff_head_state L d (ha_work r)) t d = Inr (d', res)"
      using assms q operator_replay_Inr
      by (fastforce simp: post_operator_reassignment_def bindE_Inr_iff split: option.splits if_split_asm)
  qed
qed

end
