(* ===== verification/EventFacts.thy ===== *)
theory EventFacts
  imports HandoffFacts
begin

text \<open>
  What the writers of events keep (theory Events): the constraints of the database, the history and
  the tables they do not write; and what a verdict decides.
\<close>

section \<open>Steps that only write the log\<close>

definition logged :: "db \<Rightarrow> db \<Rightarrow> bool" where
  "logged d d' \<longleftrightarrow>
     (\<exists>new. d_events d' = d_events d @ new) \<and> d_works d' = d_works d \<and> d_claims d' = d_claims d \<and>
     d_sessions d' = d_sessions d \<and> d_runs d' = d_runs d \<and> kept d d' \<and> (wf_db d \<longrightarrow> wf_db d')"

lemma logged_refl [simp, intro]: "logged d d"
  by (simp add: logged_def)

lemma logged_trans [trans]:
  assumes "logged d1 d2" "logged d2 d3"
  shows "logged d1 d3"
proof -
  have "kept d1 d3" using assms kept_trans unfolding logged_def by blast
  moreover have "\<exists>new. d_events d3 = d_events d1 @ new" using assms unfolding logged_def by (metis append.assoc)
  ultimately show ?thesis using assms unfolding logged_def by simp
qed

lemma logged_insert_event:
  assumes "insert_event e d = Inr (d', i)"
  shows "logged d d'"
  using insert_event_Inr [OF assms] kept_insert_event [OF assms] wf_insert_event [OF _ assms]
  by (simp add: logged_def)

lemma logged_frame:
  assumes "logged d d'"
  shows "workd d' i = workd d i" "claimd d' i = claimd d i"
  using assms by (simp_all add: logged_def workd_def claimd_def)

lemma find_append_Some: "find p xs = Some x \<Longrightarrow> find p (xs @ ys) = Some x"
  by (simp add: find_append)

lemma logged_key: "logged d d' \<Longrightarrow> event_by_key d k = Some e \<Longrightarrow> event_by_key d' k = Some e"
  unfolding logged_def event_by_key_def by (metis find_append_Some)

section \<open>Supersession\<close>

lemma supersede_each_logged: "logged d (fst (supersede_each s w t is d))"
proof (induction s w t "is" d rule: supersede_each.induct)
  case (2 s w t i "is" d)
  show ?case
  proof (cases "insert_event (supersession_row s w i t) d")
    case (Inl e)
    with 2(1) show ?thesis by simp
  next
    case (Inr x)
    obtain d1 n where x: "x = (d1, n)" by (rule prod.exhaust)
    have "logged d d1" using Inr unfolding x by (rule logged_insert_event)
    also have "logged d1 (fst (supersede_each s w t is d1))" by (rule 2(2) [OF Inr x [symmetric]])
    finally show ?thesis using Inr x by (simp add: case_prod_beta)
  qed
qed simp

lemma supersede_active_logged:
  assumes "supersede_active_heads L w b ks t d = Inr (d', out)"
  shows "logged d d'"
proof -
  have fst: "d' = fst p" if "(case p of (x, y) \<Rightarrow> Inr (x, sort y)) = (Inr (d', out) :: err + (db \<times> int list))"
    for p :: "db \<times> int list" using that by (cases p) simp
  have "\<exists>s is. (case supersede_each s w t is d of (x, y) \<Rightarrow> Inr (x, sort y)) = (Inr (d', out) :: err + (db \<times> int list))"
    using assms unfolding supersede_active_heads_def Let_def by (cases "eventd d b") (auto split: if_split_asm)
  then have "\<exists>s is. d' = fst (supersede_each s w t is d)" using fst by blast
  then show ?thesis using supersede_each_logged by blast
qed

section \<open>The public writer\<close>

lemma track_requests_logged: "logged d (track_requests lanes a i t d)"
proof -
  let ?d = "track_requests lanes a i t d"
  have "d_events ?d = d_events d" "d_works ?d = d_works d" "d_claims ?d = d_claims d" "d_sessions ?d = d_sessions d"
    "d_runs ?d = d_runs d" "d_next_event ?d = d_next_event d" "d_artifacts ?d = d_artifacts d"
    by (simp_all add: track_requests_def Let_def consume_requests_def open_request_def)
  then show ?thesis unfolding logged_def by (simp add: kept_same wf_db_defs)
qed

lemma post_event_Inr:
  assumes "post_event L lanes a t d = Inr (d', r)"
  obtains payload where "public_event_checks a = Inr ()" "audit_request_gate L lanes a d = Inr ()"
    "(case insert_event (event_of_args a payload t) d of
         Inl _ \<Rightarrow> Inr (d, None)
       | Inr (d1, i) \<Rightarrow>
           let d2 = track_requests lanes a i t d1 in
           if lower (strip (pe_kind a)) = ''audit_request'' \<and> clean (pe_work a) \<noteq> []
           then bindE (supersede_active_heads L (clean (pe_work a)) i head_kinds t d2) (\<lambda>(d3, _). Inr (d3, Some i))
           else Inr (d2, Some i)) = Inr (d', r)"
proof -
  obtain u payload u' where s: "public_event_checks a = Inr u" "request_payload L a d = Inr payload"
      "audit_request_gate L lanes a d = Inr u'"
    using assms by (auto simp: post_event_def bindE_Inr_iff)
  show ?thesis
    by (rule that [of payload]) (use s assms in \<open>simp_all add: post_event_def\<close>)
qed

lemma post_event_None:
  assumes "post_event L lanes a t d = Inr (d', None)"
  shows "d' = d \<and> (\<exists>k e. pe_key a = Some k \<and> event_by_key d k = Some e)"
proof -
  obtain payload where p: "(case insert_event (event_of_args a payload t) d of
         Inl _ \<Rightarrow> Inr (d, None)
       | Inr (d1, i) \<Rightarrow>
           let d2 = track_requests lanes a i t d1 in
           if lower (strip (pe_kind a)) = ''audit_request'' \<and> clean (pe_work a) \<noteq> []
           then bindE (supersede_active_heads L (clean (pe_work a)) i head_kinds t d2) (\<lambda>(d3, _). Inr (d3, Some i))
           else Inr (d2, Some i)) = Inr (d', None)"
    using post_event_Inr [OF assms] by blast
  show ?thesis
  proof (cases "insert_event (event_of_args a payload t) d")
    case (Inl e)
    then have "\<exists>k e. pe_key a = Some k \<and> event_by_key d k = Some e"
      by (auto simp: insert_event_def event_of_args_def split: option.splits if_split_asm)
    with Inl p show ?thesis by simp
  next
    case (Inr x)
    with p show ?thesis by (cases x) (auto simp: Let_def bindE_Inr_iff split: if_split_asm)
  qed
qed

lemma post_event_Some:
  assumes "post_event L lanes a t d = Inr (d', Some i)"
  shows "\<exists>payload d1. insert_event (event_of_args a payload t) d = Inr (d1, i) \<and> logged d1 d'"
proof -
  obtain payload where p: "(case insert_event (event_of_args a payload t) d of
         Inl _ \<Rightarrow> Inr (d, None)
       | Inr (d1, i) \<Rightarrow>
           let d2 = track_requests lanes a i t d1 in
           if lower (strip (pe_kind a)) = ''audit_request'' \<and> clean (pe_work a) \<noteq> []
           then bindE (supersede_active_heads L (clean (pe_work a)) i head_kinds t d2) (\<lambda>(d3, _). Inr (d3, Some i))
           else Inr (d2, Some i)) = Inr (d', Some i)"
    using post_event_Inr [OF assms] by blast
  show ?thesis
  proof (cases "insert_event (event_of_args a payload t) d")
    case (Inl e)
    with p show ?thesis by simp
  next
    case (Inr x)
    obtain d1 n where x: "x = (d1, n)" by (rule prod.exhaust)
    have t: "logged d1 (track_requests lanes a n t d1)" by (rule track_requests_logged)
    show ?thesis
    proof (cases "lower (strip (pe_kind a)) = ''audit_request'' \<and> clean (pe_work a) \<noteq> []")
      case True
      then obtain out where "supersede_active_heads L (clean (pe_work a)) n head_kinds t (track_requests lanes a n t d1) = Inr (d', out)"
          "n = i"
        using p Inr x by (auto simp: Let_def bindE_Inr_iff)
      with Inr x logged_trans [OF t supersede_active_logged] show ?thesis by blast
    next
      case False
      then have "d' = track_requests lanes a n t d1" "n = i" using p Inr x by (auto simp: Let_def)
      with Inr x t show ?thesis by blast
    qed
  qed
qed

lemma post_event_logged:
  assumes "post_event L lanes a t d = Inr (d', r)"
  shows "logged d d'"
proof (cases r)
  case None
  with post_event_None assms show ?thesis by blast
next
  case (Some i)
  with post_event_Some assms show ?thesis using logged_insert_event logged_trans by blast
qed

lemma post_all_logged:
  "post_all L lanes xs t d = Inr (d', out) \<Longrightarrow> logged d d'"
proof (induction xs arbitrary: d out)
  case (Cons a xs)
  obtain d1 i out' where s: "post_event L lanes a t d = Inr (d1, i)" "post_all L lanes xs t d1 = Inr (d', out')"
    using Cons.prems by (auto simp: bindE_Inr_iff)
  from logged_trans [OF post_event_logged [OF s(1)] Cons.IH [OF s(2)]] show ?case .
qed simp

section \<open>Verdicts\<close>

lemma apply_verdict_id [simp]: "w_id (apply_verdict v t w) = w_id w"
  by (simp add: apply_verdict_def)

lemma verdict_writes_Inr:
  assumes "verdict_writes L a sel t d = Inr (d', res)"
  shows "\<exists>d1 d2. insert_event (verdict_event a sel t) d = Inr (d1, vr_event res) \<and>
    supersede_active_heads L (strip (va_work a)) (vr_event res) [''audit_request''] t d1 = Inr (d2, vr_superseded res) \<and>
    d' = upd_works (\<lambda>w. w_id w = strip (va_work a)) (apply_verdict (upper (strip (va_verdict a))) t) d2 \<and>
    \<not> vr_replayed res \<and> vr_work res = workd d' (strip (va_work a))"
  using assms by (auto simp: verdict_writes_def Let_def bindE_Inr_iff)

lemma verdict_writes_keep:
  assumes "verdict_writes L a sel t d = Inr (d', res)"
  shows "kept d d'" "wf_db d \<Longrightarrow> wf_db d'" "d_claims d' = d_claims d" "d_runs d' = d_runs d"
    and "workd d' j = map_option (\<lambda>w. if j = strip (va_work a) then apply_verdict (upper (strip (va_verdict a))) t w else w)
           (workd d j)"
    and "event_by_key d (verdict_key a) = None"
    and "event_by_key d' (verdict_key a) = Some ((verdict_event a sel t)\<lparr>e_id := vr_event res\<rparr>)"
proof -
  obtain d1 d2 where s: "insert_event (verdict_event a sel t) d = Inr (d1, vr_event res)"
    "supersede_active_heads L (strip (va_work a)) (vr_event res) [''audit_request''] t d1 = Inr (d2, vr_superseded res)"
    "d' = upd_works (\<lambda>w. w_id w = strip (va_work a)) (apply_verdict (upper (strip (va_verdict a))) t) d2"
    using verdict_writes_Inr [OF assms] by blast
  note e1 = insert_event_Inr [OF s(1)]
  have l: "logged d1 d2" by (rule supersede_active_logged [OF s(2)])
  have log: "logged d d2" by (rule logged_trans [OF logged_insert_event [OF s(1)] l])
  have "kept d2 d'" unfolding s(3) by (rule kept_upd_works) simp
  then show "kept d d'" using log kept_trans unfolding logged_def by blast
  show "wf_db d'" if "wf_db d"
    unfolding s(3) by (rule wf_upd_works) (use log that in \<open>simp_all add: logged_def\<close>)
  show "d_claims d' = d_claims d" "d_runs d' = d_runs d" using log by (simp_all add: s(3) logged_def table_simps)
  show "workd d' j = map_option (\<lambda>w. if j = strip (va_work a) then apply_verdict (upper (strip (va_verdict a))) t w else w)
           (workd d j)"
    unfolding s(3) by (subst workd_upd_works) (auto simp: logged_frame [OF log] intro!: option.map_cong dest: workd_SomeD)
  show none: "event_by_key d (verdict_key a) = None"
    using s(1) by (auto simp: insert_event_def verdict_event_def split: if_split_asm)
  have "event_by_key d1 (verdict_key a) = Some ((verdict_event a sel t)\<lparr>e_id := vr_event res\<rparr>)"
    using e1 none by (simp add: event_by_key_def find_append verdict_event_def)
  from logged_key [OF l this]
  show "event_by_key d' (verdict_key a) = Some ((verdict_event a sel t)\<lparr>e_id := vr_event res\<rparr>)"
    by (simp add: event_by_key_def s(3) table_simps)
qed

lemma post_audit_verdict_Inr:
  assumes "post_audit_verdict L W lanes a t d = Inr (d', res)"
  obtains evidence author sel where "verdict_checks a = Inr evidence" "workd d (strip (va_work a)) \<noteq> None"
    "latest_claim_author_lane L lanes d (strip (va_work a)) = Inr author"
    "upper (strip (va_verdict a)) = ''PASS'' \<Longrightarrow> pass_gate L W lanes a author evidence d = Inr ()"
    "(case event_by_key d (verdict_key a) of
       Some e \<Rightarrow> verdict_replay L a e d = Inr (d', res)
     | None \<Rightarrow> verdict_writes L a sel t d = Inr (d', res))"
proof -
  obtain evidence author where s: "verdict_checks a = Inr evidence" "workd d (strip (va_work a)) \<noteq> None"
    "latest_claim_author_lane L lanes d (strip (va_work a)) = Inr author"
    using assms by (auto simp: post_audit_verdict_def bindE_Inr_iff split: if_split_asm)
  let ?sel = "case author of Some l \<Rightarrow> if l \<in> set lanes then Some (''actor:'' @ l) else va_to a | None \<Rightarrow> va_to a"
  obtain u where u: "(if upper (strip (va_verdict a)) = ''PASS'' then pass_gate L W lanes a author evidence d else Inr ()) = Inr u"
    "(case event_by_key d (verdict_key a) of Some e \<Rightarrow> verdict_replay L a e d | None \<Rightarrow> verdict_writes L a ?sel t d) = Inr (d', res)"
    using assms s(2) unfolding post_audit_verdict_def s(1) Let_def
    by (auto simp: bindE_Inr_iff s(3) split: if_split_asm)
  show ?thesis
  proof (rule that [OF s])
    show "pass_gate L W lanes a author evidence d = Inr ()" if "upper (strip (va_verdict a)) = ''PASS''" using u(1) that by simp
    show "case event_by_key d (verdict_key a) of
       Some e \<Rightarrow> verdict_replay L a e d = Inr (d', res)
     | None \<Rightarrow> verdict_writes L a ?sel t d = Inr (d', res)"
      using u(2) by (cases "event_by_key d (verdict_key a)") (simp_all only: option.case)
  qed
qed

lemma verdict_replay_Inr: "verdict_replay L a e d = Inr (d', res) \<Longrightarrow> d' = d \<and> vr_replayed res \<and> vr_event res = e_id e"
  by (auto simp: verdict_replay_def split: if_split_asm)

lemma pass_gate_Inr:
  assumes "pass_gate L W lanes a author evidence d = Inr u"
  shows "norm (va_actor a) \<in> set lanes" "author \<noteq> None" "author \<noteq> Some (norm (va_actor a))"
    and "expected_actor_for_session_id (otext (va_session a)) \<in> {None, Some (norm (va_actor a))}"
proof -
  show "norm (va_actor a) \<in> set lanes" "author \<noteq> None" "author \<noteq> Some (norm (va_actor a))"
    using assms unfolding pass_gate_def Let_def by (simp_all split: if_split_asm)
  show "expected_actor_for_session_id (otext (va_session a)) \<in> {None, Some (norm (va_actor a))}"
    using assms unfolding pass_gate_def Let_def by (cases "expected_actor_for_session_id (otext (va_session a))") (simp_all split: if_split_asm)
qed

lemma verdict_checks_Inr:
  assumes "verdict_checks a = Inr evidence"
  shows "upper (strip (va_verdict a)) \<in> set verdict_words" "evidence \<noteq> []" "strip (va_work a) \<noteq> []"
  using assms
  by (auto simp: verdict_checks_def audit_verdict_evidence_refs_def Let_def split: if_split_asm json.splits)

lemma verdict_keeps:
  assumes "post_audit_verdict L W lanes a t d = Inr (d', res)"
  shows "kept d d'" "wf_db d \<Longrightarrow> wf_db d'"
proof -
  obtain sel where "case event_by_key d (verdict_key a) of
       Some e \<Rightarrow> verdict_replay L a e d = Inr (d', res)
     | None \<Rightarrow> verdict_writes L a sel t d = Inr (d', res)"
    using post_audit_verdict_Inr [OF assms] by blast
  then show "kept d d'" "wf_db d \<Longrightarrow> wf_db d'"
    using verdict_writes_keep(1,2) verdict_replay_Inr by (cases "event_by_key d (verdict_key a)"; fastforce)+
qed

end
