(* ===== verification/Authority.thy ===== *)
theory Authority
  imports Events Blocked
begin

text \<open>
  Three operations that change what a row may do, each bound to an event (coord_db.py,
  \<open>record_operator_sign_off\<close>, \<open>correct_work_tier\<close>, \<open>resume_parked_work\<close>): the operator's approval,
  the correction of a review tier and the resumption of paused work. Expected versions are
  integers; evidence references are texts.
\<close>

record authority_result =
  au_event :: int
  au_version :: int
  au_backfilled :: bool
  au_replayed :: bool

definition kept_refs :: "string list \<Rightarrow> string list" where
  "kept_refs refs = filter (\<lambda>r. r \<noteq> []) (map strip refs)"

definition or_zero :: "int option \<Rightarrow> int" where
  "or_zero x = (case x of None \<Rightarrow> 0 | Some i \<Rightarrow> i)"

definition lane_selector :: "string list \<Rightarrow> string \<Rightarrow> string option" where
  "lane_selector lanes l = (if l \<in> set lanes then Some (''actor:'' @ l) else None)"

text \<open>The caller of a lane's operation: a lane, and a session of that lane.\<close>

definition lane_caller :: "string list \<Rightarrow> string \<Rightarrow> string \<Rightarrow> err + unit" where
  "lane_caller lanes actor session =
     (if actor \<notin> set lanes then Inl (ValueErr ''actor is not a lane'')
      else if \<not> session_actor_ok session actor then Inl (ActorMismatch session actor)
      else if expected_actor_for_session_id session \<noteq> Some actor then Inl (ValueErr ''session namespace'')
      else Inr ())"

section \<open>The operator's approval\<close>

definition refs_sha256 :: "lib \<Rightarrow> string list \<Rightarrow> string" where
  "refs_sha256 L refs = digest L (JList (map JStr refs))"

definition sign_off_key :: "string \<Rightarrow> string" where
  "sign_off_key operation = ''operator-ok:'' @ operation"

definition bind_ok :: "int \<Rightarrow> seconds \<Rightarrow> work_row \<Rightarrow> work_row" where
  "bind_ok i t w = w\<lparr>w_op_ok := Some i, w_updated := t, w_version := w_version w + 1\<rparr>"

definition sign_off_replay ::
  "string \<Rightarrow> string \<Rightarrow> string \<Rightarrow> event_row \<Rightarrow> work_row \<Rightarrow> seconds \<Rightarrow> db \<Rightarrow> err + (db \<times> authority_result)" where
  "sign_off_replay work reason sha e w t d =
     (case e_payload e of
        JObj p \<Rightarrow>
          if otext (e_work e) \<noteq> work \<or> field p ''reason'' \<noteq> JStr reason \<or> field p ''refs_sha256'' \<noteq> JStr sha
          then Inl (ValueErr ''operation_id was used for a different request'')
          else if or_zero (w_op_ok w) \<notin> {0, e_id e} then Inl (CasFailed ''existing binding'')
          else if or_zero (w_op_ok w) \<noteq> 0
          then Inr (d, \<lparr>au_event = e_id e, au_version = w_version w, au_backfilled = False, au_replayed = True\<rparr>)
          else let p = (\<lambda>x. w_id x = work \<and> w_version x = w_version w \<and> w_op_ok x = None)
            in if row_count p (d_works d) \<noteq> 1 then Inl (CasFailed ''binding'')
               else Inr (upd_works p (bind_ok (e_id e) t) d,
                 \<lparr>au_event = e_id e, au_version = w_version w + 1, au_backfilled = True, au_replayed = True\<rparr>)
      | _ \<Rightarrow> Inl (ValueErr ''replay receipt is malformed''))"

definition sign_off_event ::
  "lib \<Rightarrow> string list \<Rightarrow> string \<Rightarrow> string \<Rightarrow> string list \<Rightarrow> string \<Rightarrow> string \<Rightarrow> work_row \<Rightarrow> seconds \<Rightarrow> event_row" where
  "sign_off_event L lanes work reason refs operation tier w t =
     blank_event\<lparr>e_ts := t, e_kind := ''operator_ok'', e_actor := Some ''operator'', e_session := None,
       e_to := lane_selector lanes (norm (w_assignee w)), e_work := Some work, e_trust := ''system'',
       e_title := Some (''Operator sign-off for '' @ work), e_body := Some (take event_body_cap reason),
       e_refs := JList (map JStr refs),
       e_payload := JObj [(''authority_channel'', JStr operator_authority_channel),
         (''effective_tier_at_sign_off'', JStr tier), (''expected_work_version'', JInt (w_version w)),
         (''operation_id'', JStr operation), (''reason'', JStr reason), (''refs_sha256'', JStr (refs_sha256 L refs)),
         (''schema_version'', JInt 1), (''work_contract_sha256'', JStr (operator_authority_contract_sha256 L (row_dict w))),
         (''work_id'', JStr work), (''writer_contract'', JStr ''operator_ok.v1'')],
       e_key := Some (sign_off_key operation)\<rparr>"

definition sign_off_writes ::
  "lib \<Rightarrow> proofs \<Rightarrow> string list \<Rightarrow> string \<Rightarrow> string \<Rightarrow> string list \<Rightarrow> string \<Rightarrow> work_row \<Rightarrow> seconds \<Rightarrow> db
     \<Rightarrow> err + (db \<times> authority_result)" where
  "sign_off_writes L W lanes work reason refs operation w t d =
     bindE (if 0 < or_zero (w_op_ok w) then has_valid_operator_ok L d work None None else Inr False) (\<lambda>signed.
       if signed then Inl (ValueErr ''already signed off'')
       else bindE (classify_verdict_status L W lanes d work (row_dict w)) (\<lambda>v.
         if 0 < or_zero (v_barrier v) then Inl (ReviewBlocked ''open review barrier'')
         else bindE (effective_review_tier_for_work L lanes d work (row_dict w)) (\<lambda>tier.
           bindE (insert_event (sign_off_event L lanes work reason refs operation tier w t) d) (\<lambda>(d1, i).
             let p = (\<lambda>x. w_id x = work \<and> w_version x = w_version w \<and> or_zero (w_op_ok x) = or_zero (w_op_ok w))
             in if row_count p (d_works d1) \<noteq> 1 then Inl (CasFailed ''binding'')
                else Inr (upd_works p (bind_ok i t) d1,
                  \<lparr>au_event = i, au_version = w_version w + 1, au_backfilled = False, au_replayed = False\<rparr>)))))"

definition record_operator_sign_off ::
  "lib \<Rightarrow> proofs \<Rightarrow> string list \<Rightarrow> string \<Rightarrow> string \<Rightarrow> string list \<Rightarrow> string \<Rightarrow> int option \<Rightarrow> seconds \<Rightarrow> db
     \<Rightarrow> err + (db \<times> authority_result)" where
  "record_operator_sign_off L W lanes work_id reason refs operation_id expected t d =
     (let work = strip work_id; why = strip reason; operation = strip operation_id; cited = kept_refs refs in
      if work = [] then Inl (ValueErr ''work_id'')
      else if why = [] then Inl (ValueErr ''reason'')
      else if cited = [] then Inl (ValueErr ''refs'')
      else if \<not> safe_operation_id operation then Inl (ValueErr ''operation_id'')
      else case workd d work of
          None \<Rightarrow> Inl (UnknownWork work)
        | Some w \<Rightarrow>
            (case event_by_key d (sign_off_key operation) of
               Some e \<Rightarrow> sign_off_replay work why (refs_sha256 L cited) e w t d
             | None \<Rightarrow>
                 if (case expected of None \<Rightarrow> False | Some v \<Rightarrow> v \<noteq> w_version w) then Inl (CasFailed ''version'')
                 else if closed_row w then Inl (TerminalWork work)
                 else sign_off_writes L W lanes work why cited operation w t d))"

section \<open>Correcting a tier\<close>

record tier_args =
  ta_work :: string
  ta_actor :: string
  ta_session :: string
  ta_version :: int
  ta_from :: string
  ta_to :: string
  ta_reason :: string
  ta_refs :: "string list"
  ta_operation :: string

definition clean_tier_args :: "tier_args \<Rightarrow> tier_args" where
  "clean_tier_args a = a\<lparr>ta_work := strip (ta_work a), ta_actor := lower (strip (ta_actor a)),
     ta_session := strip (ta_session a), ta_from := upper (strip (ta_from a)), ta_to := upper (strip (ta_to a)),
     ta_reason := strip (ta_reason a), ta_refs := kept_refs (ta_refs a), ta_operation := strip (ta_operation a)\<rparr>"

definition tier_checks :: "string list \<Rightarrow> tier_args \<Rightarrow> err + unit" where
  "tier_checks lanes r =
     (if ta_work r = [] then Inl (ValueErr ''work_id'')
      else bindE (lane_caller lanes (ta_actor r) (ta_session r)) (\<lambda>_.
        if tier_rank (ta_from r) = None \<or> tier_rank (ta_to r) = None then Inl (ValueErr ''tier'')
        else if ta_from r = ta_to r then Inl (ValueErr ''tier is unchanged'')
        else if ta_reason r = [] then Inl (ValueErr ''reason'')
        else if ta_refs r = [] then Inl (ValueErr ''refs'')
        else if \<not> safe_operation_id (ta_operation r) then Inl (ValueErr ''operation_id'')
        else Inr ()))"

definition tier_key :: "tier_args \<Rightarrow> string" where
  "tier_key r = ''tier-correction:'' @ ta_actor r @ '':'' @ ta_operation r"

definition stated_tier :: "work_row \<Rightarrow> string" where
  "stated_tier w = (let s = otext (w_tier w) in upper (strip (if s = [] then ''T1'' else s)))"

definition sql_tier :: "work_row \<Rightarrow> string" where
  "sql_tier w = upper (case w_tier w of None \<Rightarrow> ''T1'' | Some s \<Rightarrow> s)"

definition lowers :: "tier_args \<Rightarrow> bool" where
  "lowers r \<longleftrightarrow> (case (tier_rank (ta_from r), tier_rank (ta_to r)) of (Some a, Some b) \<Rightarrow> a < b | _ \<Rightarrow> False)"

definition bind_correction :: "int \<Rightarrow> seconds \<Rightarrow> work_row \<Rightarrow> work_row" where
  "bind_correction i t w = w\<lparr>w_tier_corr := Some i, w_updated := t, w_version := w_version w + 1\<rparr>"

definition tier_replay ::
  "lib \<Rightarrow> string list \<Rightarrow> tier_args \<Rightarrow> event_row \<Rightarrow> seconds \<Rightarrow> db \<Rightarrow> err + (db \<times> authority_result)" where
  "tier_replay L lanes r e t d =
     (case (e_payload e, e_refs e) of
        (JObj p, JList refs) \<Rightarrow>
          if otext (e_work e) \<noteq> ta_work r \<or> field p ''from_tier'' \<noteq> JStr (ta_from r) \<or>
             field p ''to_tier'' \<noteq> JStr (ta_to r) \<or> field p ''reason'' \<noteq> JStr (ta_reason r) \<or>
             \<not> json_eq_int (field p ''expected_version'') (ta_version r) \<or> refs \<noteq> map JStr (ta_refs r)
          then Inl (ValueErr ''operation_id was used for a different request'')
          else (case workd d (ta_work r) of
              None \<Rightarrow> Inl (UnknownWork (ta_work r))
            | Some w \<Rightarrow>
                if closed_row w then Inl (TerminalWork (ta_work r))
                else if stated_tier w \<noteq> ta_to r then Inl (CasFailed ''tier'')
                else if \<not> tier_correction_event_authorizes L lanes e (ta_work r) (row_dict w)
                  then Inl (ReviewPolicy ''receipt does not authorize the row'')
                else if or_zero (w_tier_corr w) \<notin> {0, e_id e} then Inl (CasFailed ''existing binding'')
                else if or_zero (w_tier_corr w) \<noteq> 0
                  then Inr (d, \<lparr>au_event = e_id e, au_version = w_version w, au_backfilled = False, au_replayed = True\<rparr>)
                else let p = (\<lambda>x. w_id x = ta_work r \<and> w_version x = w_version w \<and> w_tier_corr x = None \<and>
                       sql_tier x = ta_to r)
                  in if row_count p (d_works d) \<noteq> 1 then Inl (CasFailed ''binding'')
                     else Inr (upd_works p (bind_correction (e_id e) t) d,
                       \<lparr>au_event = e_id e, au_version = w_version w + 1, au_backfilled = True, au_replayed = True\<rparr>))
      | _ \<Rightarrow> Inl (ValueErr ''replay receipt is malformed''))"

definition tier_event :: "string list \<Rightarrow> tier_args \<Rightarrow> string \<Rightarrow> seconds \<Rightarrow> event_row" where
  "tier_event lanes r assignee t =
     blank_event\<lparr>e_ts := t, e_kind := ''tier_corrected'', e_actor := Some (ta_actor r), e_session := Some (ta_session r),
       e_to := lane_selector lanes assignee, e_work := Some (ta_work r), e_trust := ''agent'',
       e_title := Some (''Review tier corrected '' @ ta_from r @ '' -> '' @ ta_to r), e_body := Some (ta_reason r),
       e_refs := JList (map JStr (ta_refs r)),
       e_payload := JObj [(''assignee_at_correction'', JStr assignee), (''expected_version'', JInt (ta_version r)),
         (''from_tier'', JStr (ta_from r)), (''reason'', JStr (ta_reason r)),
         (''review_intensity_lowered'', JBool (lowers r)), (''schema_version'', JInt 1), (''to_tier'', JStr (ta_to r))],
       e_key := Some (tier_key r)\<rparr>"

definition set_tier :: "string \<Rightarrow> seconds \<Rightarrow> work_row \<Rightarrow> work_row" where
  "set_tier tier t w = w\<lparr>w_tier := Some tier, w_updated := t, w_version := w_version w + 1\<rparr>"

definition tier_writes :: "string list \<Rightarrow> tier_args \<Rightarrow> work_row \<Rightarrow> seconds \<Rightarrow> db \<Rightarrow> err + (db \<times> authority_result)" where
  "tier_writes lanes r w t d =
     (let assignee = norm (w_assignee w);
          p = (\<lambda>x. w_id x = ta_work r \<and> w_version x = ta_version r \<and> sql_tier x = ta_from r);
          q = (\<lambda>x. w_id x = ta_work r \<and> w_version x = ta_version r + 1 \<and> sql_tier x = ta_to r)
      in if w_version w \<noteq> ta_version r then Inl (CasFailed ''version'')
         else if stated_tier w \<noteq> ta_from r then Inl (CasFailed ''tier'')
         else if closed_row w then Inl (TerminalWork (ta_work r))
         else if lowers r \<and> assignee = ta_actor r then Inl (ReviewPolicy ''opposite lane'')
         else if row_count p (d_works d) \<noteq> 1 then Inl (CasFailed ''work row'')
         else bindE (insert_event (tier_event lanes r assignee t) (upd_works p (set_tier (ta_to r) t) d)) (\<lambda>(d2, i).
           if row_count q (d_works d2) \<noteq> 1 then Inl (CasFailed ''binding'')
           else Inr (upd_works q (\<lambda>x. x\<lparr>w_tier_corr := Some i\<rparr>) d2,
             \<lparr>au_event = i, au_version = ta_version r + 1, au_backfilled = False, au_replayed = False\<rparr>)))"

definition correct_work_tier ::
  "lib \<Rightarrow> string list \<Rightarrow> tier_args \<Rightarrow> seconds \<Rightarrow> db \<Rightarrow> err + (db \<times> authority_result)" where
  "correct_work_tier L lanes a t d =
     (let r = clean_tier_args a in
      bindE (tier_checks lanes r) (\<lambda>_.
        case event_by_key d (tier_key r) of
          Some e \<Rightarrow> tier_replay L lanes r e t d
        | None \<Rightarrow> (case workd d (ta_work r) of
            None \<Rightarrow> Inl (UnknownWork (ta_work r))
          | Some w \<Rightarrow> tier_writes lanes r w t d)))"

section \<open>Resuming paused work\<close>

record resume_args =
  rp_of :: string
  rp_actor :: string
  rp_sid :: string
  rp_version :: int
  rp_reason :: string
  rp_refs :: "string list"
  rp_operation :: string

definition clean_resume_args :: "resume_args \<Rightarrow> resume_args" where
  "clean_resume_args a = a\<lparr>rp_of := strip (rp_of a), rp_actor := lower (strip (rp_actor a)),
     rp_sid := strip (rp_sid a), rp_reason := strip (rp_reason a), rp_refs := kept_refs (rp_refs a),
     rp_operation := strip (rp_operation a)\<rparr>"

definition resume_checks :: "string list \<Rightarrow> resume_args \<Rightarrow> err + unit" where
  "resume_checks lanes r =
     (if rp_of r = [] then Inl (ValueErr ''work_id'')
      else bindE (lane_caller lanes (rp_actor r) (rp_sid r)) (\<lambda>_.
        if rp_reason r = [] \<or> rp_refs r = [] then Inl (ValueErr ''reason and refs'')
        else if \<not> safe_operation_id (rp_operation r) then Inl (ValueErr ''operation_id'')
        else Inr ()))"

definition resume_key :: "resume_args \<Rightarrow> string" where
  "resume_key r = ''resume-parked:'' @ rp_actor r @ '':'' @ rp_operation r"

text \<open>The predicate of the row is the manual marker and has not been met.\<close>

definition manual_authorized :: "lib \<Rightarrow> work_row \<Rightarrow> err + bool" where
  "manual_authorized L w =
     (let raw = clean (w_resume_pred w) in
      if raw = [] then Inr False
      else case loads L raw of
          None \<Rightarrow> Inl (ValueErr ''invalid resume predicate'')
        | Some j \<Rightarrow> Inr (j = JObj [(''type'', JStr ''manual'')] \<and> w_ready_at w = None))"

definition requeued :: "bool \<Rightarrow> seconds \<Rightarrow> work_row \<Rightarrow> work_row" where
  "requeued manual t w = w\<lparr>w_intent := ''queued'', w_updated := t,
     w_ready_at := (if manual then Some t else w_ready_at w), w_version := w_version w + 1\<rparr>"

definition resumed_event :: "resume_args \<Rightarrow> seconds \<Rightarrow> event_row" where
  "resumed_event r t =
     blank_event\<lparr>e_ts := t, e_kind := ''work_resumed'', e_actor := Some (rp_actor r), e_session := Some (rp_sid r),
       e_to := Some (''actor:'' @ rp_actor r), e_work := Some (rp_of r), e_trust := ''agent'',
       e_title := Some (''Paused work requeued: '' @ rp_of r), e_body := Some (rp_reason r),
       e_refs := JList (map JStr (rp_refs r)),
       e_payload := JObj [(''claim_mutation'', JBool False), (''expected_version'', JInt (rp_version r)),
         (''from_intent_state'', JStr ''paused''), (''reason'', JStr (rp_reason r)), (''schema_version'', JInt 1),
         (''to_intent_state'', JStr ''queued'')],
       e_key := Some (resume_key r)\<rparr>"

definition manual_ready_event :: "resume_args \<Rightarrow> seconds \<Rightarrow> event_row" where
  "manual_ready_event r t =
     blank_event\<lparr>e_ts := t, e_kind := ''continuation_ready'', e_actor := Some (rp_actor r), e_session := Some (rp_sid r),
       e_to := Some (''actor:'' @ rp_actor r), e_work := Some (rp_of r), e_trust := ''agent'',
       e_title := Some (''Manual continuation authorized: '' @ rp_of r),
       e_body := Some (''The assigned lane explicitly resumed its manual-predicate row '' @
         ''from an actor-matching session.''),
       e_refs := JList (map JStr (rp_refs r)),
       e_payload := JObj [(''authorized_actor'', JStr (rp_actor r)), (''authorized_session_id'', JStr (rp_sid r)),
         (''manual_authorization'', JBool True), (''predicate'', JObj [(''type'', JStr ''manual'')]),
         (''released_claim_id'', JNull), (''requeued'', JBool True), (''schema_version'', JInt 2),
         (''work_version'', JInt (rp_version r))],
       e_key := Some (''manual-continuation-ready:'' @ rp_actor r @ '':'' @ rp_operation r)\<rparr>"

definition resumable :: "resume_args \<Rightarrow> work_row \<Rightarrow> bool" where
  "resumable r x \<longleftrightarrow> w_id x = rp_of r \<and> w_version x = rp_version r \<and> lower (w_intent x) = ''paused''"

definition resume_guards :: "lib \<Rightarrow> resume_args \<Rightarrow> work_row \<Rightarrow> db \<Rightarrow> err + bool" where
  "resume_guards L r w d =
     (if w_version w \<noteq> rp_version r then Inl (CasFailed ''version'')
      else if norm (w_assignee w) \<noteq> rp_actor r then Inl (AssignedElsewhere (rp_of r) (norm (w_assignee w)))
      else if w_archived w \<noteq> None \<or> lower (strip (w_intent w)) \<noteq> ''paused'' then Inl (ValueErr ''row is not paused'')
      else bindE (require_park_resume_contract (w_next_step w) (w_resume_when w)) (\<lambda>_.
        if list_ex (\<lambda>c. c_work c = rp_of r \<and> held c) (d_claims d) then Inl (HeldClaimRefused (rp_of r))
        else manual_authorized L w))"

definition resume_writes :: "lib \<Rightarrow> resume_args \<Rightarrow> work_row \<Rightarrow> seconds \<Rightarrow> db \<Rightarrow> err + (db \<times> authority_result)" where
  "resume_writes L r w t d =
     bindE (resume_guards L r w d) (\<lambda>manual.
       if row_count (resumable r) (d_works d) \<noteq> 1 then Inl (CasFailed ''work row'')
       else bindE (insert_event (resumed_event r t) (upd_works (resumable r) (requeued manual t) d)) (\<lambda>(d2, i).
         bindE (if manual then bindE (insert_event (manual_ready_event r t) d2) (\<lambda>(d3, _). Inr d3) else Inr d2) (\<lambda>d3.
           Inr (d3, \<lparr>au_event = i, au_version = rp_version r + 1, au_backfilled = False, au_replayed = False\<rparr>))))"

definition resume_parked_work ::
  "lib \<Rightarrow> string list \<Rightarrow> resume_args \<Rightarrow> seconds \<Rightarrow> db \<Rightarrow> err + (db \<times> authority_result)" where
  "resume_parked_work L lanes a t d =
     (let r = clean_resume_args a in
      bindE (resume_checks lanes r) (\<lambda>_.
        case event_by_key d (resume_key r) of
          Some e \<Rightarrow> if otext (e_work e) \<noteq> rp_of r then Inl (ValueErr ''operation_id was used for different work'')
            else Inr (d, \<lparr>au_event = e_id e, au_version = 0, au_backfilled = False, au_replayed = True\<rparr>)
        | None \<Rightarrow> (case workd d (rp_of r) of
            None \<Rightarrow> Inl (UnknownWork (rp_of r))
          | Some w \<Rightarrow> resume_writes L r w t d)))"

end
