(* ===== verification/AuthorityFacts.thy ===== *)
theory AuthorityFacts
  imports Authority EventFacts HandoffFacts Ownership
begin

text \<open>
  What the operations of theory Authority achieve: the operator's approval is the one that the
  review status honours, a correction by the opposite lane authorises the lower tier it set, and
  resumed work is queued with its claims untouched.
\<close>

section \<open>Rows and events\<close>

lemma only_row:
  assumes "wf_db d" "row_count p (d_works d) = 1" "\<And>x. p x \<Longrightarrow> w_id x = i" "workd d i = Some w"
  shows "p w"
proof -
  obtain x where x: "x \<in> set (d_works d)" "p x" using row_count_exists [OF assms(2)] by blast
  then have "workd d i = Some x"
    using find_distinct [of w_id "d_works d" x] assms(1,3) by (simp add: workd_def wf_db_defs)
  with x assms(4) show ?thesis by simp
qed

lemma eventd_insert:
  assumes "wf_db d" "insert_event e d = Inr (d', i)"
  shows "eventd d' i = Some (e\<lparr>e_id := i\<rparr>)" "0 < i"
proof -
  note ins = insert_event_Inr [OF assms(2)]
  have ok: "events_ok d'" using wf_insert_event [OF assms] by (simp add: wf_db_def)
  then have "distinct (map e_id (d_events d'))" by (simp add: events_ok_def event_log_ok_def strict_sorted_iff)
  moreover have "e\<lparr>e_id := i\<rparr> \<in> set (d_events d')" using ins by simp
  ultimately show "eventd d' i = Some (e\<lparr>e_id := i\<rparr>)"
    using find_distinct [of e_id "d_events d'" "e\<lparr>e_id := i\<rparr>"] by (simp add: eventd_def)
  show "0 < i" using ok ins by (auto simp: events_ok_def event_log_ok_def)
qed

lemma eventd_upd_works [simp]: "eventd (upd_works p f d) i = eventd d i"
  by (simp add: eventd_def upd_works_def)

lemma events_of_eq: "events_ok d \<Longrightarrow> events_of d w = filter (\<lambda>e. e_work e = Some w) (d_events d)"
  by (simp add: events_of_def sort_filter_ids events_ok_def event_log_ok_def)

text \<open>An event of another kind changes nothing a reader of one kind sees.\<close>

lemma other_kinds:
  assumes "wf_db d" "insert_event e d = Inr (d', i)" "\<not> p (e_kind e)"
  shows "filter (\<lambda>x. p (e_kind x)) (events_of d' w) = filter (\<lambda>x. p (e_kind x)) (events_of d w)"
proof -
  have "events_ok d" "events_ok d'" using assms(1) wf_insert_event [OF assms(1,2)] by (simp_all add: wf_db_def)
  then show ?thesis using insert_event_Inr [OF assms(2)] assms(3) by (simp add: events_of_eq)
qed

lemma events_of_upd_works [simp]: "events_of (upd_works p f d) w = events_of d w"
  by (simp add: events_of_def upd_works_def)

lemma sess_upd_works [simp]: "sess (upd_works p f d) w = sess d w"
  by (simp add: sess_def upd_works_def)

section \<open>What the three operations keep\<close>

text \<open>They write the work rows and the log only.\<close>

definition row_and_log :: "db \<Rightarrow> db \<Rightarrow> bool" where
  "row_and_log d d' \<longleftrightarrow> kept d d' \<and> (wf_db d \<longrightarrow> wf_db d') \<and> d_claims d' = d_claims d \<and>
     d_sessions d' = d_sessions d \<and> d_runs d' = d_runs d"

lemma row_and_log_refl [simp]: "row_and_log d d"
  by (simp add: row_and_log_def)

lemma row_and_log_trans: "row_and_log d1 d2 \<Longrightarrow> row_and_log d2 d3 \<Longrightarrow> row_and_log d1 d3"
  by (auto simp: row_and_log_def intro: kept_trans)

lemma row_and_log_upd: "(\<And>w. p w \<Longrightarrow> w_id (f w) = w_id w) \<Longrightarrow> row_and_log d (upd_works p f d)"
  by (simp add: row_and_log_def kept_upd_works wf_upd_works table_simps)

lemma row_and_log_insert: "insert_event e d = Inr (d', i) \<Longrightarrow> row_and_log d d'"
  using logged_insert_event [of e d d' i] by (simp add: row_and_log_def logged_def)

lemma bind_ok_simps [simp]:
  "w_id (bind_ok i t w) = w_id w" "w_intent (bind_ok i t w) = w_intent w" "w_assignee (bind_ok i t w) = w_assignee w"
  "w_op_ok (bind_ok i t w) = Some i" "w_version (bind_ok i t w) = w_version w + 1" "w_rubric (bind_ok i t w) = w_rubric w"
  by (simp_all add: bind_ok_def)

lemma set_tier_simps [simp]:
  "w_id (set_tier x t w) = w_id w" "w_id (bind_correction i t w) = w_id w" "w_id (requeued m t w) = w_id w"
  by (simp_all add: set_tier_def bind_correction_def requeued_def)

lemma sign_off_row_and_log:
  assumes "record_operator_sign_off L W lanes work reason refs operation expected t d = Inr (d', r)"
  shows "row_and_log d d'"
proof -
  let ?sha = "refs_sha256 L (kept_refs refs)"
  obtain w where c: "case event_by_key d (sign_off_key (strip operation)) of
       Some e \<Rightarrow> sign_off_replay (strip work) (strip reason) ?sha e w t d = Inr (d', r)
     | None \<Rightarrow> sign_off_writes L W lanes (strip work) (strip reason) (kept_refs refs) (strip operation) w t d = Inr (d', r)"
    using assms by (auto simp: record_operator_sign_off_def Let_def split: if_split_asm option.splits)
  show ?thesis
  proof (cases "event_by_key d (sign_off_key (strip operation))")
    case None
    with c obtain e d1 i p where "insert_event e d = Inr (d1, i)" "d' = upd_works p (bind_ok i t) d1"
      by (auto simp: sign_off_writes_def Let_def bindE_Inr_iff split: if_split_asm)
    then show ?thesis
      using row_and_log_trans [OF row_and_log_insert row_and_log_upd [of p "bind_ok i t" d1]] by simp
  next
    case (Some e)
    with c have "sign_off_replay (strip work) (strip reason) ?sha e w t d = Inr (d', r)" by simp
    then show ?thesis
      by (auto simp: sign_off_replay_def Let_def intro!: row_and_log_upd split: json.splits if_split_asm)
  qed
qed

lemma tier_writes_Inr:
  assumes "tier_writes lanes r w t d = Inr (d', res)"
  obtains d1 d2 where "w_version w = ta_version r" "stated_tier w = ta_from r" "\<not> closed_row w"
    "\<not> (lowers r \<and> norm (w_assignee w) = ta_actor r)"
    "row_count (\<lambda>x. w_id x = ta_work r \<and> w_version x = ta_version r \<and> sql_tier x = ta_from r) (d_works d) = 1"
    "d1 = upd_works (\<lambda>x. w_id x = ta_work r \<and> w_version x = ta_version r \<and> sql_tier x = ta_from r) (set_tier (ta_to r) t) d"
    "insert_event (tier_event lanes r (norm (w_assignee w)) t) d1 = Inr (d2, au_event res)"
    "d' = upd_works (\<lambda>x. w_id x = ta_work r \<and> w_version x = ta_version r + 1 \<and> sql_tier x = ta_to r)
       (\<lambda>x. x\<lparr>w_tier_corr := Some (au_event res)\<rparr>) d2" "au_version res = ta_version r + 1" "\<not> au_replayed res"
  using assms by (auto simp: tier_writes_def Let_def bindE_Inr_iff split: if_split_asm)

lemma tier_row_and_log:
  assumes "correct_work_tier L lanes a t d = Inr (d', res)"
  shows "row_and_log d d'"
proof -
  let ?r = "clean_tier_args a"
  have c: "case event_by_key d (tier_key ?r) of
       Some e \<Rightarrow> tier_replay L lanes ?r e t d = Inr (d', res)
     | None \<Rightarrow> \<exists>w. tier_writes lanes ?r w t d = Inr (d', res)"
    using assms by (auto simp: correct_work_tier_def Let_def bindE_Inr_iff split: option.splits)
  show ?thesis
  proof (cases "event_by_key d (tier_key ?r)")
    case None
    with c obtain w where w: "tier_writes lanes ?r w t d = Inr (d', res)" by auto
    obtain p d1 d2 e q where s: "d1 = upd_works p (set_tier (ta_to ?r) t) d" "insert_event e d1 = Inr (d2, au_event res)"
      "d' = upd_works q (\<lambda>x. x\<lparr>w_tier_corr := Some (au_event res)\<rparr>) d2"
      by (rule tier_writes_Inr [OF w])
    have "row_and_log d d1" "row_and_log d2 d'" unfolding s(1,3) by (rule row_and_log_upd, simp)+
    with row_and_log_insert [OF s(2)] show ?thesis using row_and_log_trans by blast
  next
    case (Some e)
    with c have "tier_replay L lanes ?r e t d = Inr (d', res)" by simp
    then show ?thesis
      by (auto simp: tier_replay_def Let_def intro!: row_and_log_upd split: json.splits if_split_asm option.splits)
  qed
qed

lemma resume_guards_Inr:
  assumes "resume_guards L r w d = Inr manual"
  shows "w_version w = rp_version r" "norm (w_assignee w) = rp_actor r" "w_archived w = None"
    "lower (strip (w_intent w)) = ''paused''" "clean (w_next_step w) \<noteq> []" "clean (w_resume_when w) \<noteq> []"
    "\<not> list_ex (\<lambda>c. c_work c = rp_of r \<and> held c) (d_claims d)" "manual_authorized L w = Inr manual"
  using assms
  by (simp_all add: resume_guards_def bindE_Inr_iff require_park_resume_contract_def Let_def split: if_split_asm)

lemma resume_writes_Inr:
  assumes "resume_writes L r w t d = Inr (d', res)"
  obtains manual d2 where "resume_guards L r w d = Inr manual" "row_count (resumable r) (d_works d) = 1"
    "insert_event (resumed_event r t) (upd_works (resumable r) (requeued manual t) d) = Inr (d2, au_event res)"
    "if manual then \<exists>i. insert_event (manual_ready_event r t) d2 = Inr (d', i) else d' = d2"
    "\<not> au_replayed res" "au_version res = rp_version r + 1"
proof -
  obtain manual where m: "resume_guards L r w d = Inr manual" "row_count (resumable r) (d_works d) = 1"
    "bindE (insert_event (resumed_event r t) (upd_works (resumable r) (requeued manual t) d)) (\<lambda>(d2, i).
       bindE (if manual then bindE (insert_event (manual_ready_event r t) d2) (\<lambda>(d3, _). Inr d3) else Inr d2) (\<lambda>d3.
         Inr (d3, \<lparr>au_event = i, au_version = rp_version r + 1, au_backfilled = False, au_replayed = False\<rparr>))) = Inr (d', res)"
    using assms unfolding resume_writes_def by (cases "resume_guards L r w d") (auto split: if_split_asm)
  then obtain d2 i where s: "insert_event (resumed_event r t) (upd_works (resumable r) (requeued manual t) d) = Inr (d2, i)"
    "(if manual then bindE (insert_event (manual_ready_event r t) d2) (\<lambda>(d3, _). Inr d3) else Inr d2) = Inr d'"
    "res = \<lparr>au_event = i, au_version = rp_version r + 1, au_backfilled = False, au_replayed = False\<rparr>"
    by (auto simp only: bindE_Inr_iff split_paired_all prod.case prod.inject sum.inject)
  from s(2) have "if manual then \<exists>i. insert_event (manual_ready_event r t) d2 = Inr (d', i) else d' = d2"
    by (cases manual) (simp_all add: bindE_Inr_iff)
  with that [OF m(1,2)] s show ?thesis by simp
qed

lemma resume_fresh:
  assumes "resume_parked_work L lanes a t d = Inr (d', res)"
  shows "case event_by_key d (resume_key (clean_resume_args a)) of
     Some e \<Rightarrow> d' = d \<and> au_replayed res \<and> au_event res = e_id e
   | None \<Rightarrow> \<exists>w. workd d (rp_of (clean_resume_args a)) = Some w \<and> resume_writes L (clean_resume_args a) w t d = Inr (d', res)"
  using assms by (auto simp: resume_parked_work_def Let_def bindE_Inr_iff split: option.splits if_split_asm)

lemma resume_writes_row_and_log:
  assumes "resume_writes L r w t d = Inr (d', res)"
  shows "row_and_log d d'"
proof -
  obtain p manual d2 where s: "insert_event (resumed_event r t) (upd_works p (requeued manual t) d) = Inr (d2, au_event res)"
    "if manual then \<exists>i. insert_event (manual_ready_event r t) d2 = Inr (d', i) else d' = d2"
    by (rule resume_writes_Inr [OF assms])
  have "row_and_log d (upd_works p (requeued manual t) d)" by (rule row_and_log_upd) simp
  moreover have "row_and_log d2 d'" using s(2) row_and_log_insert by (cases manual) auto
  ultimately show ?thesis using row_and_log_insert [OF s(1)] row_and_log_trans by blast
qed

lemma resume_row_and_log:
  assumes "resume_parked_work L lanes a t d = Inr (d', res)"
  shows "row_and_log d d'"
  using resume_fresh [OF assms] resume_writes_row_and_log by (auto split: option.splits)

section \<open>The operator's approval\<close>

lemma sign_off_writes_Inr:
  assumes "sign_off_writes L W lanes work reason refs operation w t d = Inr (d', r)"
  obtains v tier d1 where "classify_verdict_status L W lanes d work (row_dict w) = Inr v" "or_zero (v_barrier v) \<le> 0"
    "insert_event (sign_off_event L lanes work reason refs operation tier w t) d = Inr (d1, au_event r)"
    "row_count (\<lambda>x. w_id x = work \<and> w_version x = w_version w \<and> or_zero (w_op_ok x) = or_zero (w_op_ok w)) (d_works d1) = 1"
    "d' = upd_works (\<lambda>x. w_id x = work \<and> w_version x = w_version w \<and> or_zero (w_op_ok x) = or_zero (w_op_ok w))
       (bind_ok (au_event r) t) d1" "\<not> au_replayed r" "au_version r = w_version w + 1"
  using assms by (auto simp: sign_off_writes_def Let_def bindE_Inr_iff split: if_split_asm)

lemma bind_ok_contract:
  "operator_authority_contract_sha256 L (row_dict (bind_ok i t w)) = operator_authority_contract_sha256 L (row_dict w)"
proof -
  have k: "field (row_dict (bind_ok i t w)) k = field (row_dict w) k" if "k \<in> set operator_authority_work_fields" for k
    using that by (auto simp: operator_authority_work_fields_def field_def row_dict_def bind_ok_def)
  have "map (\<lambda>k. (k, field (row_dict (bind_ok i t w)) k)) operator_authority_work_fields =
      map (\<lambda>k. (k, field (row_dict w) k)) operator_authority_work_fields"
    by (rule map_cong [OF refl]) (simp only: k)
  then show ?thesis unfolding operator_authority_contract_sha256_def by (rule arg_cong)
qed

lemma not_claim_kind: "''operator_ok'' \<notin> set (claim_kinds lanes)"
proof
  assume "''operator_ok'' \<in> set (claim_kinds lanes)"
  then obtain l where "''operator_ok'' = l @ ''_claim''" by (auto simp: claim_kinds_def)
  then have "last ''operator_ok'' = last (l @ ''_claim'')" by simp
  then show False by simp
qed

lemma latest_of_kind_nonneg: "wf_db d \<Longrightarrow> 0 \<le> latest_of_kind d w k"
proof -
  assume wf: "wf_db d"
  have "0 \<le> e_id e" if "last_row (filter (\<lambda>e. e_kind e = k) (events_of d w)) = Some e" for e
  proof -
    have "e \<in> set (d_events d)" using that last_row_SomeD by (fastforce simp: events_of_def)
    then show ?thesis using wf by (auto simp: wf_db_def events_ok_def event_log_ok_def)
  qed
  then show ?thesis by (auto simp: latest_of_kind_def split: option.splits)
qed

lemma open_not_superseded:
  "\<not> closed_row w \<Longrightarrow> \<not> never_claimed_superseded L W lanes db work (row_dict w)"
proof -
  have "text_field L (row_dict w) ''intent_state'' = strip (w_intent w)"
    by (simp add: text_field_def text_of_def field_def row_dict_def str_or_empty_def)
  then show "\<not> closed_row w \<Longrightarrow> \<not> never_claimed_superseded L W lanes db work (row_dict w)"
    by (auto simp: never_claimed_superseded_def closed_row_def terminal_def terminal_work_states_def)
qed

lemma no_barrier:
  assumes "classify_verdict_status L W lanes d work row = Inr v" "or_zero (v_barrier v) \<le> 0" "wf_db d"
    "\<not> never_claimed_superseded L W lanes d work row"
  shows "review_barrier d work = 0 \<and> (\<exists>author. latest_claim_author_lane L lanes d work = Inr author)"
proof -
  obtain author ok where a: "latest_claim_author_lane L lanes d work = Inr author"
    "(if review_barrier d work = 0 then has_valid_operator_ok L d work None None else Inr False) = Inr ok"
    using assms(1,4) unfolding classify_verdict_status_def Let_def review_barrier_def
    by (simp only: if_False bindE_Inr_iff) blast
  note run = assms(1) [unfolded classify_verdict_status_def Let_def, folded review_barrier_def, simplified assms(4) a if_False bindE.simps]
  have "review_barrier d work = 0"
  proof (rule ccontr)
    assume n: "review_barrier d work \<noteq> 0"
    then have "\<not> ok" using a(2) by simp
    have "0 \<le> review_barrier d work" using latest_of_kind_nonneg [OF assms(3)] by (simp add: review_barrier_def le_max_iff_disj)
    moreover have "v_barrier v = some_if_positive (review_barrier d work)"
      using run \<open>\<not> ok\<close> by (auto split: option.splits if_split_asm)
    ultimately show False using assms(2) n by (simp add: some_if_positive_def or_zero_def split: if_split_asm)
  qed
  with a show ?thesis by blast
qed

lemma sign_off_frame:
  assumes "sign_off_writes L W lanes work reason refs operation w t d = Inr (d', r)" "wf_db d" "workd d work = Some w"
  shows "wf_db d'" "kept d d'" "workd d' work = Some (bind_ok (au_event r) t w)" "d_claims d' = d_claims d"
    and "j \<noteq> work \<Longrightarrow> workd d' j = workd d j"
proof -
  obtain v tier d1 where "classify_verdict_status L W lanes d work (row_dict w) = Inr v" "or_zero (v_barrier v) \<le> 0"
    and s: "insert_event (sign_off_event L lanes work reason refs operation tier w t) d = Inr (d1, au_event r)"
    and "row_count (\<lambda>x. w_id x = work \<and> w_version x = w_version w \<and> or_zero (w_op_ok x) = or_zero (w_op_ok w)) (d_works d1) = 1"
    and s2: "d' = upd_works (\<lambda>x. w_id x = work \<and> w_version x = w_version w \<and> or_zero (w_op_ok x) = or_zero (w_op_ok w))
       (bind_ok (au_event r) t) d1"
    by (rule sign_off_writes_Inr [OF assms(1)])
  note s = s s2
  have l: "logged d d1" by (rule logged_insert_event [OF s(1)])
  show "wf_db d'" unfolding s(2) by (rule wf_upd_works) (use l assms(2) in \<open>simp_all add: logged_def\<close>)
  have "kept d1 d'" unfolding s(2) by (rule kept_upd_works) simp
  then show "kept d d'" using l kept_trans unfolding logged_def by blast
  show "workd d' work = Some (bind_ok (au_event r) t w)"
    using workd_SomeD [OF assms(3)] by (simp add: s(2) workd_upd_works logged_frame [OF l] assms(3))
  show "d_claims d' = d_claims d" using l by (simp add: s(2) logged_def table_simps)
  show "workd d' j = workd d j" if "j \<noteq> work"
  proof (cases "workd d j")
    case (Some x)
    then show ?thesis using workd_SomeD [OF Some] that by (simp add: s(2) workd_upd_works logged_frame [OF l])
  qed (simp add: s(2) workd_upd_works logged_frame [OF l])
qed

lemma sign_off_honoured:
  assumes w: "sign_off_writes L W lanes work reason refs operation w t d = Inr (d', r)"
    and d: "wf_db d" "workd d work = Some w" "\<not> closed_row w" "strip work = work" and sha: "\<And>s. is_sha_text (sha256 L s)"
  shows "has_valid_operator_ok L d' work None None = Inr True \<and>
    classify_verdict_status L W lanes d' work (row_dict (bind_ok (au_event r) t w)) = Inr (plain_status True ''operator_ok'')"
proof -
  obtain v tier d1 where s1: "classify_verdict_status L W lanes d work (row_dict w) = Inr v" "or_zero (v_barrier v) \<le> 0"
    "insert_event (sign_off_event L lanes work reason refs operation tier w t) d = Inr (d1, au_event r)"
    and "row_count (\<lambda>x. w_id x = work \<and> w_version x = w_version w \<and> or_zero (w_op_ok x) = or_zero (w_op_ok w)) (d_works d1) = 1"
    and s2: "d' = upd_works (\<lambda>x. w_id x = work \<and> w_version x = w_version w \<and> or_zero (w_op_ok x) = or_zero (w_op_ok w))
       (bind_ok (au_event r) t) d1"
    by (rule sign_off_writes_Inr [OF w])
  note s = s1 s2
  note f = sign_off_frame [OF w d(1,2)]
  let ?w = "bind_ok (au_event r) t w" and ?e = "(sign_off_event L lanes work reason refs operation tier w t)\<lparr>e_id := au_event r\<rparr>"
  have nc: "\<not> never_claimed_superseded L W lanes db work (row_dict w)" "\<not> never_claimed_superseded L W lanes db work (row_dict ?w)" for db
    using open_not_superseded d(3) by (simp_all add: closed_row_def bind_ok_def)
  obtain author where b: "review_barrier d work = 0" "latest_claim_author_lane L lanes d work = Inr author"
    using no_barrier [OF s(1,2) d(1) nc(1)] by blast
  have kinds: "filter (\<lambda>x. p (e_kind x)) (events_of d' work) = filter (\<lambda>x. p (e_kind x)) (events_of d work)"
    if "\<not> p ''operator_ok''" for p
    using other_kinds [OF d(1) s(3), of p work] that by (simp add: s(4) sign_off_event_def)
  have barrier: "review_barrier d' work = 0"
    using b(1) kinds [of "\<lambda>k. k = ''audit_request''"] kinds [of "\<lambda>k. k = ''acceptance_contract_repaired''"]
    by (simp add: review_barrier_def latest_of_kind_def)
  have sessions: "sess d' i = sess d i" for i
    using insert_event_Inr [OF s(3)] by (simp add: s(4) sess_def upd_works_def)
  have cl: "claim_author_lane lanes d' = claim_author_lane lanes d"
    by (simp add: claim_author_lane_def sessions fun_eq_iff)
  have leg: "legacy_author_lane lanes d' work = legacy_author_lane lanes d work"
    using kinds [of "\<lambda>k. k \<in> {''handoff'', ''audit_request''}"] by (simp add: legacy_author_lane_def f(3) d(2))
  have lane: "latest_claim_author_lane L lanes d' work = Inr author"
    using b(2) unfolding latest_claim_author_lane_def f(4) cl leg kinds [of "\<lambda>k. k \<in> set (claim_kinds lanes)", OF not_claim_kind] .
  have ev: "eventd d' (au_event r) = Some ?e" "0 < au_event r"
    using eventd_insert [OF d(1) s(3)] by (simp_all add: s(4))
  have words: "lower (strip ''operator_ok'') = ''operator_ok''" "norm (Some ''operator'') = ''operator''"
    "lower (strip ''system'') = ''system''" by code_simp+
  have "str_or_empty L (JStr (refs_sha256 L refs)) = refs_sha256 L refs"
    by (simp add: str_or_empty_def)
  then have "operator_ok_event_is_valid L ?e work (row_dict ?w) = Inr True"
    using sha d(4) by (simp add: operator_ok_event_is_valid_def sign_off_event_def words clean_def field_def
        operator_authority_channel_def is_int_value_def bind_ok_contract refs_sha256_def digest_def)
  then have ok: "has_valid_operator_ok L d' work None None = Inr True"
    using ev by (simp add: has_valid_operator_ok_def f(3))
  moreover have "classify_verdict_status L W lanes d' work (row_dict ?w) = Inr (plain_status True ''operator_ok'')"
    using barrier by (simp add: classify_verdict_status_def Let_def nc(2) lane ok flip: review_barrier_def)
  ultimately show ?thesis by simp
qed

lemma fresh_sign_off:
  assumes "record_operator_sign_off L W lanes work reason refs operation expected t d = Inr (d', r)" "\<not> au_replayed r"
  obtains w where "workd d (strip work) = Some w" "\<not> closed_row w"
    "sign_off_writes L W lanes (strip work) (strip reason) (kept_refs refs) (strip operation) w t d = Inr (d', r)"
proof -
  obtain w where w: "workd d (strip work) = Some w" "case event_by_key d (sign_off_key (strip operation)) of
       Some e \<Rightarrow> sign_off_replay (strip work) (strip reason) (refs_sha256 L (kept_refs refs)) e w t d = Inr (d', r)
     | None \<Rightarrow> \<not> closed_row w \<and>
         sign_off_writes L W lanes (strip work) (strip reason) (kept_refs refs) (strip operation) w t d = Inr (d', r)"
    using assms(1) by (auto simp: record_operator_sign_off_def Let_def split: if_split_asm option.splits)
  have "event_by_key d (sign_off_key (strip operation)) = None"
    using w(2) assms(2)
    by (auto simp: sign_off_replay_def Let_def split: option.splits json.splits if_split_asm)
  with w that show ?thesis by simp
qed

lemma sign_off_no_barrier:
  assumes "sign_off_writes L W lanes work reason refs operation w t d = Inr (d', r)" "wf_db d" "\<not> closed_row w"
  shows "review_barrier d work = 0"
proof -
  obtain v tier d1 where "classify_verdict_status L W lanes d work (row_dict w) = Inr v" "or_zero (v_barrier v) \<le> 0"
    by (rule sign_off_writes_Inr [OF assms(1)])
  from no_barrier [OF this assms(2) open_not_superseded [OF assms(3)]] show ?thesis by blast
qed

section \<open>A corrected tier\<close>

lemma strip_last: "strip s = s \<Longrightarrow> s \<noteq> [] \<Longrightarrow> \<not> is_ws (last s)"
proof -
  assume s: "strip s = s" "s \<noteq> []"
  then have "lstrip (rev (lstrip s)) \<noteq> []" unfolding strip_def by auto
  from lstrip_hd [OF this] show "\<not> is_ws (last s)" using s by (metis hd_rev rev_rev_ident strip_def)
qed

lemma strip_prefixed:
  assumes "p \<noteq> []" "\<not> is_ws (hd p)" "strip s = s" "s \<noteq> []"
  shows "strip (p @ s) = p @ s"
proof -
  have "lstrip (p @ s) = p @ s" by (rule lstrip_id) (use assms(1,2) in simp)
  moreover have "lstrip (rev (p @ s)) = rev (p @ s)"
    by (rule lstrip_id) (use strip_last [OF assms(3,4)] assms(4) in \<open>simp add: hd_append hd_rev\<close>)
  ultimately show ?thesis by (simp add: strip_def)
qed

lemma row_text:
  "lower (text_field L (row_dict x) ''assignee'') = norm (w_assignee x)"
  "text_field L (row_dict x) ''tier'' = clean (w_tier x)"
  "field (row_dict x) ''version'' = JInt (w_version x)"
  "has_key (row_dict x) ''tier_correction_event_id''" "field (row_dict x) ''tier_correction_event_id'' = jint (w_tier_corr x)"
  by (simp_all add: text_field_def text_of_def field_def row_dict_def str_or_empty_def norm_def clean_def jopt_def has_key_def
      split: option.splits)

lemma tier_names: "tier_rank s = Some n \<Longrightarrow> s \<in> {''T0'', ''T1'', ''T2''}"
  by (simp split: if_split_asm)

lemma tier_text:
  assumes "s \<in> {''T0'', ''T1'', ''T2''}"
  shows "strip s = s" "upper s = s"
proof -
  have "strip ''T0'' = ''T0''" "strip ''T1'' = ''T1''" "strip ''T2'' = ''T2''"
    "upper ''T0'' = ''T0''" "upper ''T1'' = ''T1''" "upper ''T2'' = ''T2''" by code_simp+
  with assms show "strip s = s" "upper s = s" by auto
qed

lemma lane_caller_Inr:
  "lane_caller lanes actor session = Inr u \<Longrightarrow> actor \<in> set lanes \<and> expected_actor_for_session_id session = Some actor"
  by (simp add: lane_caller_def split: if_split_asm)

lemma tier_checks_Inr:
  assumes "tier_checks lanes (clean_tier_args a) = Inr u" "r = clean_tier_args a"
  shows "ta_work r \<noteq> []" "strip (ta_work r) = ta_work r" "ta_actor r \<in> set lanes" "norm (Some (ta_actor r)) = ta_actor r"
    "expected_actor_for_session_id (ta_session r) = Some (ta_actor r)" "strip (ta_session r) = ta_session r"
    "ta_from r \<in> {''T0'', ''T1'', ''T2''}" "ta_to r \<in> {''T0'', ''T1'', ''T2''}" "ta_from r \<noteq> ta_to r"
    "ta_reason r \<noteq> []" "strip (ta_reason r) = ta_reason r" "ta_refs r \<noteq> []"
    "ta_operation r \<noteq> []" "strip (ta_operation r) = ta_operation r"
proof -
  have s: "strip (ta_work r) = ta_work r" "norm (Some (ta_actor r)) = ta_actor r" "strip (ta_session r) = ta_session r"
    "strip (ta_reason r) = ta_reason r" "strip (ta_operation r) = ta_operation r"
    by (simp_all add: assms(2) clean_tier_args_def norm_def clean_def text_simps)
  have c: "tier_checks lanes r = Inr u" using assms by simp
  obtain u' where l: "lane_caller lanes (ta_actor r) (ta_session r) = Inr u'"
    using c by (auto simp: tier_checks_def bindE_Inr_iff split: if_split_asm)
  have g: "ta_work r \<noteq> []" "\<not> (tier_rank (ta_from r) = None \<or> tier_rank (ta_to r) = None)" "ta_from r \<noteq> ta_to r"
    "ta_reason r \<noteq> []" "ta_refs r \<noteq> []" "safe_operation_id (ta_operation r)"
    using c l by (simp_all add: tier_checks_def split: if_split_asm del: tier_rank.simps)
  have t: "ta_from r \<in> {''T0'', ''T1'', ''T2''}" "ta_to r \<in> {''T0'', ''T1'', ''T2''}"
    using g(2) tier_names by (auto simp del: tier_rank.simps)
  have o: "ta_operation r \<noteq> []" using g(6) by (auto simp: safe_operation_id_def)
  note lc = lane_caller_Inr [OF l]
  show "ta_work r \<noteq> []" "strip (ta_work r) = ta_work r" "ta_actor r \<in> set lanes" "norm (Some (ta_actor r)) = ta_actor r"
    "expected_actor_for_session_id (ta_session r) = Some (ta_actor r)" "strip (ta_session r) = ta_session r"
    "ta_from r \<in> {''T0'', ''T1'', ''T2''}" "ta_to r \<in> {''T0'', ''T1'', ''T2''}" "ta_from r \<noteq> ta_to r"
    "ta_reason r \<noteq> []" "strip (ta_reason r) = ta_reason r" "ta_refs r \<noteq> []"
    "ta_operation r \<noteq> []" "strip (ta_operation r) = ta_operation r"
    using s g t o lc by simp_all
qed

text \<open>The row after a fresh correction.\<close>

definition corrected_row :: "tier_args \<Rightarrow> int \<Rightarrow> seconds \<Rightarrow> work_row \<Rightarrow> work_row" where
  "corrected_row r i t w = (set_tier (ta_to r) t w)\<lparr>w_tier_corr := Some i\<rparr>"

lemma corrected_row_simps [simp]:
  "w_id (corrected_row r i t w) = w_id w" "w_tier (corrected_row r i t w) = Some (ta_to r)"
  "w_version (corrected_row r i t w) = w_version w + 1" "w_tier_corr (corrected_row r i t w) = Some i"
  "w_assignee (corrected_row r i t w) = w_assignee w" "w_intent (corrected_row r i t w) = w_intent w"
  by (simp_all add: corrected_row_def set_tier_def)

lemma tier_writes_effect:
  assumes w: "tier_writes lanes r w t d = Inr (d', res)" and d: "wf_db d" "workd d (ta_work r) = Some w"
    and r: "ta_to r \<in> {''T0'', ''T1'', ''T2''}"
  shows "workd d' (ta_work r) = Some (corrected_row r (au_event res) t w)"
    "eventd d' (au_event res) = Some ((tier_event lanes r (norm (w_assignee w)) t)\<lparr>e_id := au_event res\<rparr>)"
    "0 < au_event res" "w_version w = ta_version r"
    "\<not> (lowers r \<and> norm (w_assignee w) = ta_actor r)" "j \<noteq> ta_work r \<Longrightarrow> workd d' j = workd d j"
proof -
  let ?p = "\<lambda>x. w_id x = ta_work r \<and> w_version x = ta_version r \<and> sql_tier x = ta_from r"
  let ?q = "\<lambda>x. w_id x = ta_work r \<and> w_version x = ta_version r + 1 \<and> sql_tier x = ta_to r"
  obtain d1 d2 where s: "w_version w = ta_version r" "stated_tier w = ta_from r" "\<not> closed_row w"
    "\<not> (lowers r \<and> norm (w_assignee w) = ta_actor r)" "row_count ?p (d_works d) = 1"
    "d1 = upd_works ?p (set_tier (ta_to r) t) d"
    "insert_event (tier_event lanes r (norm (w_assignee w)) t) d1 = Inr (d2, au_event res)"
    "d' = upd_works ?q (\<lambda>x. x\<lparr>w_tier_corr := Some (au_event res)\<rparr>) d2" "au_version res = ta_version r + 1" "\<not> au_replayed res"
    by (rule tier_writes_Inr [OF w])
  have p: "?p w" by (rule only_row [OF d(1) s(5) _ d(2)]) simp
  have q: "?q (set_tier (ta_to r) t w)"
    using p tier_text(2) [OF r] by (simp add: set_tier_def sql_tier_def)
  have "workd d1 (ta_work r) = Some (set_tier (ta_to r) t w)"
    unfolding s(6) using p d(2) by (simp add: workd_upd_works)
  moreover have frame: "workd d2 = workd d1" using logged_frame(1) [OF logged_insert_event [OF s(7)]] by (rule ext)
  ultimately show "workd d' (ta_work r) = Some (corrected_row r (au_event res) t w)"
    unfolding s(8) using q by (simp add: workd_upd_works corrected_row_def)
  have "wf_db d1" unfolding s(6) by (rule wf_upd_works [OF _ d(1)]) simp
  with eventd_insert [OF _ s(7)]
  show "eventd d' (au_event res) = Some ((tier_event lanes r (norm (w_assignee w)) t)\<lparr>e_id := au_event res\<rparr>)"
    "0 < au_event res" unfolding s(8) by simp_all
  show "w_version w = ta_version r" "\<not> (lowers r \<and> norm (w_assignee w) = ta_actor r)" by (rule s)+
  assume j: "j \<noteq> ta_work r"
  have "workd d' j = map_option (\<lambda>x. if ?q x then x\<lparr>w_tier_corr := Some (au_event res)\<rparr> else x) (workd d1 j)"
    unfolding s(8) by (simp add: workd_upd_works frame)
  moreover have "workd d1 j = map_option (\<lambda>x. if ?p x then set_tier (ta_to r) t x else x) (workd d j)"
    unfolding s(6) by (simp add: workd_upd_works)
  ultimately show "workd d' j = workd d j" using j workd_SomeD [of d j] by (cases "workd d j") auto
qed

lemma receipt_title:
  assumes "a \<in> {''T0'', ''T1'', ''T2''}" "b \<in> {''T0'', ''T1'', ''T2''}"
  shows "strip (''Review tier corrected '' @ a @ '' -> '' @ b) = ''Review tier corrected '' @ a @ '' -> '' @ b"
proof -
  have "b \<noteq> []" "\<not> is_ws (hd ''Review tier corrected '')" using assms(2) by (auto simp: is_ws_def)
  with strip_prefixed [of "''Review tier corrected '' @ a @ '' -> ''" b] tier_text(1) [OF assms(2)] show ?thesis by simp
qed

lemma tier_receipt_authorizes:
  assumes r: "r = clean_tier_args a" "tier_checks lanes r = Inr u"
    and l: "lowers r" "norm (w_assignee w) \<in> set lanes" "norm (w_assignee w) \<noteq> ta_actor r" "0 \<le> ta_version r"
      "w_version w = ta_version r"
  shows "tier_correction_event_authorizes L lanes ((tier_event lanes r (norm (w_assignee w)) t)\<lparr>e_id := i\<rparr>) (ta_work r)
    (row_dict (corrected_row r j t w))"
proof -
  let ?n = "norm (w_assignee w)"
  note c = tier_checks_Inr [OF r(2) [unfolded r(1)] r(1)]
  have n: "strip ?n = ?n" "lower ?n = ?n" by (simp_all add: norm_def clean_def text_simps)
  have to: "norm (lane_selector lanes ?n) = ''actor:'' @ ?n"
  proof (cases "?n = []")
    case True
    then show ?thesis using l(2) by (simp add: lane_selector_def norm_def clean_def) code_simp
  next
    case False
    then have "strip (''actor:'' @ ?n) = ''actor:'' @ ?n" by (intro strip_prefixed n(1)) (auto simp: is_ws_def)
    moreover have "lower (''actor:'' @ ?n) = ''actor:'' @ ?n"
    proof -
      have "lower ''actor:'' = ''actor:''" by code_simp
      then show ?thesis unfolding lower_append n(2) by (rule arg_cong)
    qed
    ultimately show ?thesis using l(2) by (simp add: lane_selector_def norm_def [of "Some _"] clean_def)
  qed
  have key: "strip (tier_key r) = ''tier-correction:'' @ ta_actor r @ '':'' @ ta_operation r"
    using strip_prefixed [of "''tier-correction:'' @ ta_actor r @ '':''" "ta_operation r"] c(13,14)
    by (simp add: tier_key_def is_ws_def)
  have words: "lower (strip ''tier_corrected'') = ''tier_corrected''" "lower (strip ''agent'') = ''agent''" by code_simp+
  have texts: "text_of L (JStr x) = strip x" for x by (simp add: text_of_def str_or_empty_def)
  have ranks: "case (tier_rank (ta_from r), tier_rank (ta_to r)) of (Some a, Some b) \<Rightarrow> a < b | _ \<Rightarrow> False"
    using l(1) unfolding lowers_def .
  show ?thesis
    unfolding tier_correction_event_authorizes_def
    using c l ranks receipt_title [OF c(7,8)]
    by (simp add: Let_def tier_event_def words to key texts text_field_def [of _ "_ # _"] field_def [of "_ # _"] row_text n
        tier_text [OF c(7)] tier_text [OF c(8)] clean_def is_int_value_def int_or_zero_def
        del: tier_rank.simps)
qed

text \<open>A lowering by the opposite lane is one that later reviews honour.\<close>

lemma lowering_authorizes:
  assumes w: "correct_work_tier L lanes a t d = Inr (d', res)" and r: "r = clean_tier_args a"
    and d: "wf_db d" "workd d (ta_work r) = Some w" "event_by_key d (tier_key r) = None"
    and l: "lowers r" "norm (w_assignee w) \<in> set lanes" "0 \<le> ta_version r"
  shows "tier_down_authorized L lanes d' (ta_work r) (row_dict (corrected_row r (au_event res) t w)) = Inr True"
proof -
  obtain u where c: "tier_checks lanes r = Inr u" and w': "tier_writes lanes r w t d = Inr (d', res)"
    using w d by (auto simp: correct_work_tier_def Let_def r bindE_Inr_iff)
  note e = tier_writes_effect [OF w' d(1,2) tier_checks_Inr(8) [OF c [unfolded r] r]]
  let ?e = "(tier_event lanes r (norm (w_assignee w)) t)\<lparr>e_id := au_event res\<rparr>"
  have "tier_correction_event_authorizes L lanes ?e (ta_work r) (row_dict (corrected_row r (au_event res) t w))"
    by (rule tier_receipt_authorizes [OF r c l(1,2) _ l(3) e(4)]) (use e(5) l(1) in simp)
  then show ?thesis
    using e(2,3) by (simp add: tier_down_authorized_def Let_def bound_correction_id_def row_text int_or_zero_def jint_def)
qed

lemma correction_effect:
  assumes "correct_work_tier L lanes a t d = Inr (d', res)" "r = clean_tier_args a"
    and "wf_db d" "workd d (ta_work r) = Some w" "event_by_key d (tier_key r) = None"
  shows "workd d' (ta_work r) = Some (corrected_row r (au_event res) t w) \<and> w_version w = ta_version r \<and>
    \<not> (lowers r \<and> norm (w_assignee w) = ta_actor r) \<and> (\<forall>j. j \<noteq> ta_work r \<longrightarrow> workd d' j = workd d j)"
proof -
  obtain u where c: "tier_checks lanes r = Inr u" and w': "tier_writes lanes r w t d = Inr (d', res)"
    using assms by (auto simp: correct_work_tier_def Let_def bindE_Inr_iff)
  show ?thesis
    using tier_writes_effect [OF w' assms(3,4) tier_checks_Inr(8) [OF c [unfolded assms(2)] assms(2)]] by blast
qed

text \<open>
  A correction that raises the review intensity cannot be repeated: its receipt is not one that
  authorises a lowering, which is what the replay asks of it.
\<close>

lemma not_lowering_not_authorized:
  "\<not> lowers r \<Longrightarrow> \<not> tier_correction_event_authorizes L lanes ((tier_event lanes r x t)\<lparr>e_id := i\<rparr>) work row"
  by (simp add: tier_correction_event_authorizes_def Let_def tier_event_def field_def)

lemma raise_not_repeatable:
  assumes "correct_work_tier L lanes a t d = Inr (d', res)" "r = clean_tier_args a"
    and "wf_db d" "workd d (ta_work r) = Some w" "event_by_key d (tier_key r) = None" "\<not> lowers r"
  shows "isl (correct_work_tier L lanes a t2 d')"
proof -
  obtain u where c: "tier_checks lanes r = Inr u" and w': "tier_writes lanes r w t d = Inr (d', res)"
    using assms by (auto simp: correct_work_tier_def Let_def bindE_Inr_iff)
  let ?e = "(tier_event lanes r (norm (w_assignee w)) t)\<lparr>e_id := au_event res\<rparr>"
  obtain p q d1 d2 where s: "d1 = upd_works p (set_tier (ta_to r) t) d"
    "insert_event (tier_event lanes r (norm (w_assignee w)) t) d1 = Inr (d2, au_event res)"
    "d' = upd_works q (\<lambda>x. x\<lparr>w_tier_corr := Some (au_event res)\<rparr>) d2"
    by (rule tier_writes_Inr [OF w'])
  have "event_by_key d' (tier_key r) = Some ?e"
    using assms(5) insert_event_Inr [OF s(2)]
    by (simp add: s(1,3) event_by_key_def find_append tier_event_def upd_works_def)
  moreover have "workd d' (ta_work r) \<noteq> None" using correction_effect [OF assms(1-5)] by simp
  ultimately have run: "correct_work_tier L lanes a t2 d' = tier_replay L lanes r ?e t2 d'"
    using c by (simp add: correct_work_tier_def Let_def flip: assms(2))
  have "\<not> (\<exists>d2 res2. tier_replay L lanes r ?e t2 d' = Inr (d2, res2))"
    using not_lowering_not_authorized [OF assms(6)]
    by (auto simp: tier_replay_def Let_def split: json.splits if_split_asm option.splits)
  then show ?thesis unfolding run by (cases "tier_replay L lanes r ?e t2 d'") auto
qed

section \<open>Resumed work\<close>

lemma requeued_simps [simp]:
  "w_intent (requeued m t w) = ''queued''" "w_version (requeued m t w) = w_version w + 1"
  "w_assignee (requeued m t w) = w_assignee w" "w_resume_pred (requeued m t w) = w_resume_pred w"
  "w_archived (requeued m t w) = w_archived w" "w_ready_at (requeued m t w) = (if m then Some t else w_ready_at w)"
  by (simp_all add: requeued_def)

lemma resume_writes_effect:
  assumes w: "resume_writes L r w t d = Inr (d', res)" and d: "wf_db d" "workd d (rp_of r) = Some w"
  obtains m where "manual_authorized L w = Inr m" "workd d' (rp_of r) = Some (requeued m t w)"
    "norm (w_assignee w) = rp_actor r" "w_archived w = None" "au_version res = w_version w + 1"
    "\<And>c. c \<in> set (d_claims d') \<Longrightarrow> held c \<Longrightarrow> c_work c \<noteq> rp_of r"
    "\<And>j. j \<noteq> rp_of r \<Longrightarrow> workd d' j = workd d j"
proof -
  obtain m d2 where s: "resume_guards L r w d = Inr m" "row_count (resumable r) (d_works d) = 1"
    "insert_event (resumed_event r t) (upd_works (resumable r) (requeued m t) d) = Inr (d2, au_event res)"
    "if m then \<exists>i. insert_event (manual_ready_event r t) d2 = Inr (d', i) else d' = d2"
    "\<not> au_replayed res" "au_version res = rp_version r + 1" by (rule resume_writes_Inr [OF w])
  note g = resume_guards_Inr [OF s(1)]
  have p: "resumable r w" by (rule only_row [OF d(1) s(2) _ d(2)]) (simp add: resumable_def)
  have "logged d2 d'" using s(4) logged_insert_event by (cases m) auto
  with logged_trans logged_insert_event [OF s(3)] have l: "logged (upd_works (resumable r) (requeued m t) d) d'" by blast
  have wd: "workd d' j = map_option (\<lambda>x. if resumable r x then requeued m t x else x) (workd d j)" for j
    unfolding logged_frame(1) [OF l] by (rule workd_upd_works) simp
  have row: "workd d' (rp_of r) = Some (requeued m t w)" using p d(2) by (simp add: wd)
  have claims: "c_work c \<noteq> rp_of r" if "c \<in> set (d_claims d')" "held c" for c
  proof -
    have "d_claims d' = d_claims d" using l by (simp add: logged_def table_simps)
    then show ?thesis using that g(7) by (auto simp: list_ex_iff)
  qed
  have others: "workd d' j = workd d j" if "j \<noteq> rp_of r" for j
    using that workd_SomeD [of d j] by (cases "workd d j") (auto simp: wd resumable_def)
  have v: "au_version res = w_version w + 1" using s(6) g(1) by simp
  show ?thesis by (rule that [OF g(8) row g(2,3) v claims others])
qed

text \<open>The row is free to its lane exactly if no condition is left to meet.\<close>

lemma requeued_available:
  assumes "norm (w_assignee w) = session_actor_of d sid" "w_archived w = None"
  shows "available d sid (requeued m t w) \<longleftrightarrow> clean (w_resume_pred w) = [] \<or> w_ready_at w \<noteq> None \<or> m"
proof -
  have "lower (strip ''queued'') = ''queued''" "\<not> terminal ''queued''" "''queued'' \<notin> set held_intents" by code_simp+
  with assms show ?thesis by (auto simp: available_def closed_row_def assigned_elsewhere_def Let_def)
qed

lemma resumed_claimable:
  assumes w: "resume_parked_work L lanes a t d = Inr (d', res)" "\<not> au_replayed res" and r: "r = clean_resume_args a"
    and d: "wf_db d" "workd d (rp_of r) = Some w" "session_actor_of d sid = rp_actor r" "sess d sid \<noteq> None"
    and m: "clean (w_resume_pred w) = [] \<or> w_ready_at w \<noteq> None \<or> manual_authorized L w = Inr True"
    and i: "claimd d i = None" "rp_of r \<noteq> []"
  shows "\<exists>d2. claim_unlocked lanes i token sid (rp_of r) st lease t2 d' = Inr (d2, i)"
proof -
  have rw: "resume_writes L r w t d = Inr (d', res)"
    using resume_fresh [OF w(1)] w(2) d(2) by (auto simp: r split: option.splits)
  obtain m where e: "manual_authorized L w = Inr m" "workd d' (rp_of r) = Some (requeued m t w)"
    "norm (w_assignee w) = rp_actor r" "w_archived w = None" "au_version res = w_version w + 1"
    "\<And>c. c \<in> set (d_claims d') \<Longrightarrow> held c \<Longrightarrow> c_work c \<noteq> rp_of r" "\<And>j. j \<noteq> rp_of r \<Longrightarrow> workd d' j = workd d j"
    by (rule resume_writes_effect [OF rw d(1,2)]) blast
  have k: "row_and_log d d'" by (rule resume_row_and_log [OF w(1)])
  then have same: "wf_db d'" "d_claims d' = d_claims d" "d_sessions d' = d_sessions d" using d(1) by (simp_all add: row_and_log_def)
  then have s: "sess d' sid = sess d sid" "session_actor_of d' sid = session_actor_of d sid" "claimd d' i = claimd d i"
    by (simp_all add: sess_def session_actor_of_def claimd_def)
  have av: "available d' sid (requeued m t w)"
    using requeued_available [of w d' sid m t] e(1,3,4) d(3) s(2) assms(8) by auto
  show ?thesis
    by (rule abandoned_claimable [OF same(1) e(2) i(2) av]) (use e(6) s i(1) d(4) in auto)
qed

end
