(* ===== verification/RequestFacts.thy ===== *)
theory RequestFacts
  imports Requests EventFacts AuthorityFacts
begin

text \<open>
  What the writers of the theory Requests leave behind: the tombstones written for a successor are
  believed, so that exactly the heads they name are gone; and every writer keeps the constraints of
  the database and its history.
\<close>

section \<open>Tombstones\<close>

lemma int_text_inj: "0 < i \<Longrightarrow> 0 < j \<Longrightarrow> int_text i = int_text j \<Longrightarrow> i = j"
  by (simp add: int_text_def) (metis nat_of_digits_of nat_eq_iff2 order_less_imp_le)

text \<open>Supersessions are neither heads nor successors: rows that follow and are of that kind prove nothing
  for others; and the close of a review proves only tombstones under its own key.\<close>

definition silent_for :: "event_row \<Rightarrow> event_row \<Rightarrow> bool" where
  "silent_for e x \<longleftrightarrow> e_kind x = ''handoff_superseded'' \<or>
     e_kind x = ''board_hygiene_policy_moot_closed'' \<and>
     \<not> prefix (''policy-moot-supersede:'' @ int_text (e_id x) @ '':'') (otext (e_key e))"

lemma row_of_silent:
  "row_of (rows @ new) i = Some s \<Longrightarrow> row_of rows i \<noteq> Some s \<Longrightarrow> s \<in> set new \<and> e_id s = i"
  by (auto simp: row_of_def find_append split: option.splits dest: find_SomeD)

lemma candidate_silent: "\<forall>x \<in> set new. silent_for e x \<Longrightarrow> candidate (rows @ new) i = candidate rows i"
  by (auto simp: candidate_def is_head_def head_kinds_def silent_for_def)

lemma silent_prior:
  assumes "\<forall>x \<in> set new. silent_for e x" "row_of (rows @ new) i = Some s" "e_kind s \<in> {''handoff'', ''audit_request'', ''audit_verdict'', ''audit_request_retired''}"
  shows "row_of rows i = Some s"
proof (rule ccontr)
  assume "row_of rows i \<noteq> Some s"
  with row_of_silent [OF assms(2)] assms(1) have "silent_for e s" by blast
  with assms(3) show False by (auto simp: silent_for_def)
qed

lemma trusted_link_silent:
  assumes new: "\<forall>x \<in> set new. silent_for e x" and link: "trusted_link L (rows @ new) e = Some l"
  shows "trusted_link L rows e = Some l"
proof -
  let ?R = "rows @ new" and ?sp = "\<lambda>succ. case succ of None \<Rightarrow> None | Some s \<Rightarrow> strict_json_mapping (e_payload s)"
  obtain p i b where p: "strict_json_mapping (e_payload e) = Some p" "strict_event_reference (field p ''supersedes'') = Some i"
    "strict_event_reference (field p ''by_event_id'') = Some b" "l = (i, b)"
    using link by (auto simp: trusted_link_def Let_def split: option.splits if_split_asm)
  note cand = candidate_silent [OF new, of rows] and sil = silent_prior [OF new, of rows]
  consider s where "row_of ?R b = Some s" "typed_trusted ?R e p i b s \<or> operator_trusted ?R e p i b s \<or>
       legacy_trusted ?R e p i b s \<or> verdict_trusted ?R e p i b s"
    | "policy_moot_retirement_is_valid L e (Some p) (Some i) (Some b) (row_of ?R i) (row_of ?R b) (?sp (row_of ?R b))"
    | "retirement_is_valid L e (Some p) (Some i) (Some b) (row_of ?R i) (row_of ?R b) (?sp (row_of ?R b))"
    | "canary_rollback_is_valid L e (Some p) (Some i) (Some b) (row_of ?R i)"
    using link p by (auto simp: trusted_link_def Let_def split: option.splits if_split_asm)
  then show ?thesis
  proof cases
    case 1
    have "row_of rows b = Some s"
      using 1(2) by (intro sil [OF 1(1)])
        (auto simp: typed_trusted_def operator_trusted_def legacy_trusted_def verdict_trusted_def head_kinds_def)
    moreover have "verdict_trusted ?R e p i b s \<Longrightarrow> verdict_trusted rows e p i b s"
      using sil [of i] unfolding verdict_trusted_def cand by (auto split: option.splits)
    moreover have "typed_trusted ?R e p i b s = typed_trusted rows e p i b s" "operator_trusted ?R e p i b s = operator_trusted rows e p i b s"
      "legacy_trusted ?R e p i b s = legacy_trusted rows e p i b s"
      by (simp_all add: typed_trusted_def operator_trusted_def legacy_trusted_def cand)
    ultimately show ?thesis using 1(2) p by (auto simp: trusted_link_def Let_def)
  next
    case 2
    then obtain pr s where r: "row_of ?R i = Some pr" "row_of ?R b = Some s" "e_kind pr = ''audit_request''"
        "otext (e_key e) = key_of_pair ''policy-moot-supersede'' b i" "e_kind s = ''board_hygiene_policy_moot_closed''"
      by (auto simp: policy_moot_retirement_is_valid_def split: option.splits)
    have "row_of rows b = Some s"
    proof (rule ccontr)
      assume "row_of rows b \<noteq> Some s"
      from row_of_silent [OF r(2) this] new r(5) have "\<not> prefix (''policy-moot-supersede:'' @ int_text b @ '':'') (otext (e_key e))"
        by (auto simp: silent_for_def)
      then show False by (simp add: r(4) key_of_pair_def)
    qed
    with 2 p r sil [OF r(1)] show ?thesis by (simp add: trusted_link_def Let_def)
  next
    case 3
    then obtain pr s where r: "row_of ?R i = Some pr" "row_of ?R b = Some s" "e_kind pr = ''audit_request''" "e_kind s = ''audit_request_retired''"
      by (auto simp: retirement_is_valid_def Let_def split: option.splits)
    with 3 p sil [OF r(1)] sil [OF r(2)] show ?thesis by (simp add: trusted_link_def Let_def)
  next
    case 4
    then obtain pr where r: "row_of ?R i = Some pr" "e_kind pr = ''handoff''"
      by (auto simp: canary_rollback_is_valid_def Let_def split: option.splits sum.splits)
    with 4 p sil [OF r(1)] show ?thesis by (simp add: trusted_link_def Let_def)
  qed
qed

lemma links_silent:
  assumes "\<forall>e \<in> set rows. \<forall>x \<in> set new. silent_for e x" "(i, b) \<in> set (links_of L (rows @ new))"
  shows "(i, b) \<in> set (links_of L rows) \<or> (\<exists>e \<in> set new. e_kind e = ''handoff_superseded'' \<and> trusted_link L (rows @ new) e = Some (i, b))"
proof -
  obtain e where e: "e \<in> set rows \<or> e \<in> set new" "e_kind e = ''handoff_superseded''" "trusted_link L (rows @ new) e = Some (i, b)"
    using assms(2) unfolding set_links_of set_append by blast
  show ?thesis
  proof (cases "e \<in> set rows")
    case True
    then have "trusted_link L rows e = Some (i, b)" using trusted_link_silent [OF _ e(3)] assms(1) by blast
    with True e(2) show ?thesis unfolding set_links_of by blast
  qed (use e in blast)
qed

text \<open>Appending tombstones takes away exactly the heads they name.\<close>

lemma active_after_tombs:
  assumes sups: "\<And>s. s \<in> set sups \<Longrightarrow> e_kind s = ''handoff_superseded''"
  shows "active_heads L (rows @ sups) =
    filter (\<lambda>i. \<forall>s \<in> set sups. \<forall>b. trusted_link L rows s \<noteq> Some (i, b)) (active_heads L rows)"
proof -
  have silent: "\<forall>x \<in> set sups. silent_for e x" for e using sups by (simp add: silent_for_def)
  have same: "trusted_link L (rows @ sups) s = trusted_link L rows s" for s
  proof (cases "trusted_link L (rows @ sups) s")
    case None
    have "trusted_link L rows s \<noteq> Some l" for l
      using trusted_link_mono [of rows "rows @ sups" L s l] None by (auto intro: row_of_append candidate_append)
    with None show ?thesis by (cases "trusted_link L rows s") auto
  next
    case (Some l)
    with trusted_link_silent [OF silent] show ?thesis by metis
  qed
  have "i \<in> fst ` set (links_of L (rows @ sups)) \<longleftrightarrow>
      i \<in> fst ` set (links_of L rows) \<or> (\<exists>s \<in> set sups. \<exists>b. trusted_link L rows s = Some (i, b))" for i
    using sups by (auto simp: set_links_of same image_iff)
  moreover have "filter is_head sups = []" using superseded_not_head sups by (auto simp: filter_empty_conv)
  ultimately show ?thesis unfolding active_heads_def by (simp add: filter_eq_iff conj_comms)
qed

section \<open>Superseding under fresh keys\<close>

definition fresh_keys :: "string \<Rightarrow> db \<Rightarrow> bool" where
  "fresh_keys pre d \<longleftrightarrow> (\<forall>e \<in> set (d_events d). \<not> prefix (pre @ '':'' @ int_text (d_next_event d) @ '':'') (otext (e_key e)))"

lemma event_by_key_None: "(\<And>e. e \<in> set (d_events d) \<Longrightarrow> e_key e \<noteq> Some k) \<Longrightarrow> event_by_key d k = None"
  by (auto simp: event_by_key_def find_None_iff)

lemma supersede_each_fresh:
  assumes "\<And>i e. i \<in> set is \<Longrightarrow> e \<in> set (d_events d) \<Longrightarrow> e_key e \<noteq> e_key (supersession_row s w i t)"
    and "distinct is" "\<And>i. i \<in> set is \<Longrightarrow> 0 < i"
  shows "snd (supersede_each s w t is d) = is \<and>
    d_events (fst (supersede_each s w t is d)) = d_events d @ numbered (d_next_event d) (map (\<lambda>i. supersession_row s w i t) is)"
  using assms
proof (induction "is" arbitrary: d)
  case (Cons i "is")
  let ?e = "supersession_row s w i t"
  let ?d = "d\<lparr>d_events := d_events d @ [?e\<lparr>e_id := d_next_event d\<rparr>], d_next_event := d_next_event d + 1\<rparr>"
  have k: "e_key (supersession_row s w j t) = Some (key_of_pair (supersession_prefix (e_kind s)) (e_id s) j)" for j by (simp add: supersession_row_def)
  have "event_by_key d (key_of_pair (supersession_prefix (e_kind s)) (e_id s) i) = None"
    using Cons.prems(1) [of i] by (intro event_by_key_None) (auto simp: k)
  then have ins: "insert_event ?e d = Inr (?d, d_next_event d)" by (simp add: insert_event_def k)
  have "snd (supersede_each s w t is ?d) = is \<and>
      d_events (fst (supersede_each s w t is ?d)) = d_events ?d @ numbered (d_next_event ?d) (map (\<lambda>i. supersession_row s w i t) is)"
  proof (rule Cons.IH)
    fix j e assume j: "j \<in> set is" "e \<in> set (d_events ?d)"
    have "i \<noteq> j" "0 < i" "0 < j" using Cons.prems(2,3) j(1) by auto
    then have "e_key (supersession_row s w i t) \<noteq> e_key (supersession_row s w j t)"
      using int_text_inj by (auto simp: supersession_row_def key_of_pair_def)
    with Cons.prems(1) [of j e] j show "e_key e \<noteq> e_key (supersession_row s w j t)" by auto
  qed (use Cons.prems in auto)
  then show ?case by (simp add: ins case_prod_beta)
qed simp

lemma supersession_row_simps [simp]:
  "e_kind (supersession_row s w i t) = ''handoff_superseded''" "e_work (supersession_row s w i t) = Some w"
  "e_key (supersession_row s w i t) = Some (key_of_pair (supersession_prefix (e_kind s)) (e_id s) i)"
  "e_actor (supersession_row s w i t) = e_actor s" "e_session (supersession_row s w i t) = e_session s"
  "e_to (supersession_row s w i t) = e_to s" "e_refs (supersession_row s w i t) = JList [event_ref i]"
  by (simp_all add: supersession_row_def)

definition to_supersede :: "lib \<Rightarrow> db \<Rightarrow> string \<Rightarrow> int \<Rightarrow> string list \<Rightarrow> int list" where
  "to_supersede L d w n ks = filter (\<lambda>i. case eventd d i of None \<Rightarrow> False | Some e \<Rightarrow> e_kind e \<in> set ks)
     (filter (\<lambda>i. i < n) (hs_active (typed_handoff_head_state L d w)))"

lemma numbered_copy: "e \<in> set es \<Longrightarrow> \<exists>m. e\<lparr>e_id := m\<rparr> \<in> set (numbered n es)"
  by (induction n es rule: numbered.induct) auto

lemma head_rows_distinct: "events_ok d \<Longrightarrow> distinct (map e_id (head_rows d w))"
  by (simp add: head_rows_eq events_ok_def event_log_ok_def strict_sorted_iff distinct_map_filter)

lemma active_distinct: "events_ok d \<Longrightarrow> distinct (hs_active (typed_handoff_head_state L d w))"
  by (simp add: head_state_active active_heads_def head_rows_eq events_ok_def event_log_ok_def strict_sorted_iff
      distinct_map_filter)

lemma supersede_active_fresh:
  assumes wf: "wf_db d" and s: "eventd d n = Some s" "e_work s = Some w"
    and keys: "\<forall>e \<in> set (d_events d). \<not> prefix (supersession_prefix (e_kind s) @ '':'' @ int_text n @ '':'') (otext (e_key e))"
    and sup: "supersede_active_heads L w n ks t d = Inr (d', out)"
    and link: "\<And>i m. i \<in> set (to_supersede L d w n ks) \<Longrightarrow>
      trusted_link L (head_rows d w) ((supersession_row s w i t)\<lparr>e_id := m\<rparr>) = Some (i, n)"
  shows "out = sort (to_supersede L d w n ks)"
    and "hs_active (typed_handoff_head_state L d' w) =
      filter (\<lambda>i. i \<notin> set (to_supersede L d w n ks)) (hs_active (typed_handoff_head_state L d w))"
proof -
  let ?A = "to_supersede L d w n ks"
  have ok: "events_ok d" using wf by (simp add: wf_db_def)
  have id: "e_id s = n" using s(1) by (auto simp: eventd_def dest: find_SomeD)
  have e: "(case supersede_each s w t ?A d of (x, y) \<Rightarrow> Inr (x, sort y)) = (Inr (d', out) :: err + (db \<times> int list))"
    using sup s unfolding supersede_active_heads_def to_supersede_def by (auto simp: Let_def split: if_split_asm)
  have "distinct ?A" using active_distinct [OF ok] by (simp add: to_supersede_def)
  moreover have "0 < i" if "i \<in> set ?A" for i using that active_head_row [OF ok] by (auto simp: to_supersede_def)
  moreover have "e_key e \<noteq> e_key (supersession_row s w i t)" if "e \<in> set (d_events d)" for e i
    using keys that by (auto simp: key_of_pair_def id)
  ultimately have r: "snd (supersede_each s w t ?A d) = ?A"
      "d_events (fst (supersede_each s w t ?A d)) = d_events d @ numbered (d_next_event d) (map (\<lambda>i. supersession_row s w i t) ?A)"
    using supersede_each_fresh [of ?A d s w t] by blast+
  with e show "out = sort ?A" by (simp add: case_prod_beta)
  let ?new = "numbered (d_next_event d) (map (\<lambda>i. supersession_row s w i t) ?A)"
  have ev: "d_events d' = d_events d @ ?new" using e r(2) by (simp add: case_prod_beta)
  have "events_ok d'" using supersede_active_logged [OF sup] wf by (simp add: logged_def wf_db_def)
  have new: "\<exists>i \<in> set ?A. x = (supersession_row s w i t)\<lparr>e_id := e_id x\<rparr>" if "x \<in> set ?new" for x using numbered_of [OF that] by auto
  have shape: "e_work x = Some w \<and> e_kind x = ''handoff_superseded''" if "x \<in> set ?new" for x
  proof -
    note mem = that
    obtain i m where "x = (supersession_row s w i t)\<lparr>e_id := m\<rparr>" using new [OF mem] by blast
    then show ?thesis by simp
  qed
  have "filter (\<lambda>x. e_work x = Some w \<and> e_kind x \<in> set head_event_kinds) ?new = ?new"
    using shape by (auto simp: filter_id_conv head_event_kinds_def)
  then have rows: "head_rows d' w = head_rows d w @ ?new"
    using ok \<open>events_ok d'\<close> by (simp add: head_rows_eq ev)
  have links: "(\<exists>x \<in> set ?new. \<exists>b. trusted_link L (head_rows d w) x = Some (i, b)) \<longleftrightarrow> i \<in> set ?A" for i
  proof
    assume "\<exists>x \<in> set ?new. \<exists>b. trusted_link L (head_rows d w) x = Some (i, b)"
    then obtain x b where x: "x \<in> set ?new" "trusted_link L (head_rows d w) x = Some (i, b)" by blast
    obtain j m where j: "j \<in> set ?A" "x = (supersession_row s w j t)\<lparr>e_id := m\<rparr>" using new [OF x(1)] by blast
    have "trusted_link L (head_rows d w) x = Some (j, n)" unfolding j(2) by (rule link [OF j(1)])
    with x(2) j(1) show "i \<in> set ?A" by simp
  next
    assume i: "i \<in> set ?A"
    then have "supersession_row s w i t \<in> set (map (\<lambda>i. supersession_row s w i t) ?A)" by simp
    from numbered_copy [OF this, of "d_next_event d"]
    obtain m where x: "(supersession_row s w i t)\<lparr>e_id := m\<rparr> \<in> set ?new" by blast
    with link [OF i, of m] show "\<exists>x \<in> set ?new. \<exists>b. trusted_link L (head_rows d w) x = Some (i, b)" by blast
  qed
  have "active_heads L (head_rows d w @ ?new) = filter (\<lambda>i. \<forall>x \<in> set ?new. \<forall>b. trusted_link L (head_rows d w) x \<noteq> Some (i, b))
      (active_heads L (head_rows d w))"
    by (rule active_after_tombs) (simp add: shape)
  also have "\<dots> = filter (\<lambda>i. i \<notin> set ?A) (active_heads L (head_rows d w))"
    using links by (intro filter_cong refl) blast
  finally show "hs_active (typed_handoff_head_state L d' w) = filter (\<lambda>i. i \<notin> set ?A) (hs_active (typed_handoff_head_state L d w))"
    unfolding head_state_active rows .
qed

section \<open>What a close leaves behind\<close>

lemma event_ref_pos: "0 < i \<Longrightarrow> strict_event_reference (JInt i) = Some i"
  by (simp add: strict_event_reference_def strict_positive_event_id_def)

lemma supersession_payload:
  "strict_json_mapping (e_payload ((supersession_row s w i t)\<lparr>e_id := m\<rparr>)) = Some [(''by_event_id'', JInt (e_id s)),
     (''reason'', JStr (supersession_reason (e_kind s))), (''schema_version'', JInt 1), (''supersedes'', JInt i)]"
  by (simp add: supersession_row_def strict_json_mapping_def)

lemma moot_event_simps [simp]:
  "e_kind (moot_event L a R t) = ''board_hygiene_policy_moot_closed''" "e_work (moot_event L a R t) = Some (strip (mo_work a))"
  "e_key (moot_event L a R t) = Some (moot_key a)" "e_trust (moot_event L a R t) = ''system''"
  by (simp_all add: moot_event_def)

lemma moot_request_back:
  "map (\<lambda>k. (k, field (moot_request a @ rest) k)) policy_moot_keys = moot_request a"
  by (simp add: policy_moot_keys_def moot_request_def field_def)

lemma sorted_ids_JInt:
  assumes "\<forall>i \<in> set R. 0 < i" "sorted R" "distinct R"
  shows "sorted_ids (JList (map JInt R)) = Some R"
proof -
  have *: "map strict_positive_event_id (map JInt R) = map Some R"
    using assms(1) by (simp add: strict_positive_event_id_def)
  have "sort (remdups R) = R" using assms(2,3) by (simp add: distinct_remdups_id sorted_sort_id)
  moreover have "map the (map strict_positive_event_id (map JInt R)) = R" unfolding * by (simp add: o_def)
  moreover have "None \<notin> set (map strict_positive_event_id (map JInt R))" unfolding * by auto
  ultimately show ?thesis unfolding sorted_ids_def json.case Let_def by simp
qed

lemma moot_tombstone_believed:
  assumes s: "s = (moot_event L a R t)\<lparr>e_id := n\<rparr>" "row_of rows n = Some s"
    and pr: "row_of rows i = Some pr" "e_kind pr = ''audit_request''" "0 < i" "i < n"
    and R: "i \<in> set R" "\<forall>i \<in> set R. 0 < i" "sorted R" "distinct R"
  shows "trusted_link L rows ((supersession_row s (strip (mo_work a)) i t)\<lparr>e_id := m\<rparr>) = Some (i, n)"
proof -
  let ?row = "(supersession_row s (strip (mo_work a)) i t)\<lparr>e_id := m\<rparr>"
  let ?p = "[(''by_event_id'', JInt n), (''reason'', JStr (supersession_reason (e_kind s))), (''schema_version'', JInt 1), (''supersedes'', JInt i)]"
  let ?sp = "moot_request a @ [(''operation_request_sha256'', JStr (digest L (JObj (moot_request a)))),
         (''closed_from_intent_state'', JStr (mo_intent a)), (''closed_to_intent_state'', JStr ''closed''),
         (''no_claim_mutation'', JBool True), (''no_rubric_mutation'', JBool True), (''no_artifact_mutation'', JBool True),
         (''retired_audit_request_event_ids'', JList (map JInt R))]"
  have p: "strict_json_mapping (e_payload ?row) = Some ?p" unfolding supersession_payload by (simp add: s(1))
  have sp: "strict_json_mapping (e_payload s) = Some ?sp" by (simp add: s(1) moot_event_def strict_json_mapping_def)
  have ids: "sorted_ids (field ?sp ''retired_audit_request_event_ids'') = Some R"
    using sorted_ids_JInt [OF R(2-4)] by (simp add: field_def moot_request_def)
  have sha: "field ?sp ''operation_request_sha256'' = JStr (digest L (JObj (map (\<lambda>k. (k, field ?sp k)) policy_moot_keys)))"
    unfolding moot_request_back by (simp add: field_def moot_request_def)
  have f: "json_eq_int (field ?sp ''schema_version'') 1" "field ?sp ''writer_contract'' = JStr ''board_hygiene_policy_moot_close.v1''"
    "field ?sp ''closed_to_intent_state'' = JStr ''closed''" "field ?sp ''no_claim_mutation'' = JBool True"
    "field ?sp ''no_rubric_mutation'' = JBool True" "field ?sp ''no_artifact_mutation'' = JBool True"
    "field ?sp ''packet_sha256'' = JStr (lower (strip (mo_packet a)))" "field ?sp ''work_id'' = JStr (strip (mo_work a))"
    by (simp_all add: field_def moot_request_def)
  have g: "json_eq_int (field ?p ''schema_version'') 1" "json_eq_int (field ?p ''supersedes'') i" "json_eq_int (field ?p ''by_event_id'') n"
    "strict_event_reference (field ?p ''supersedes'') = Some i" "strict_event_reference (field ?p ''by_event_id'') = Some n"
    using pr(3,4) by (simp_all add: field_def event_ref_pos)
  have "policy_moot_retirement_is_valid L ?row (Some ?p) (Some i) (Some n) (row_of rows i) (row_of rows n)
      (case row_of rows n of None \<Rightarrow> None | Some s \<Rightarrow> strict_json_mapping (e_payload s))"
    unfolding policy_moot_retirement_is_valid_def s(2) pr(1) option.case prod.case sp ids f(7,8)
    using pr(2,4) R(1) sha f(1-6) g(1-3)
    by (simp add: s(1) moot_key_def fstr_def same_sender_def strict_json_list_def supersession_row_def supersession_prefix_def)
  then show ?thesis unfolding trusted_link_def p by (simp add: g(4,5) Let_def)
qed

lemma moot_writes_Inr:
  assumes "moot_writes L a t d = Inr (d', res)"
  obtains d1 d2 d3 n out where
    "d1 = upd_works (\<lambda>w. w_id w = strip (mo_work a) \<and> w_version w = mo_version a)
       (\<lambda>w. w\<lparr>w_intent := ''closed'', w_updated := t, w_version := w_version w + 1\<rparr>) d"
    "insert_event (moot_event L a (active_requests L d (strip (mo_work a))) t) d1 = Inr (d2, n)"
    "supersede_active_heads L (strip (mo_work a)) n [''audit_request''] t d2 = Inr (d3, out)"
    "d' = d3\<lparr>d_consumption := upd_where (\<lambda>q. q_work q = strip (mo_work a) \<and> q_at q = None \<and> q_request q \<in> set out)
       (\<lambda>q. q\<lparr>q_event := Some n, q_at := Some t\<rparr>) (d_consumption d3)\<rparr>" "res = Closed n out False"
  using assms by (auto simp: moot_writes_def Let_def bindE_Inr_iff)

lemma heads_same_events:
  assumes "d_events d' = d_events d"
  shows "head_rows d' w = head_rows d w" "typed_handoff_head_state L d' w = typed_handoff_head_state L d w" "eventd d' i = eventd d i"
  using assms by (simp_all add: head_rows_def typed_handoff_head_state_def eventd_def)

lemma eventd_below:
  assumes "d_events d' = d_events d @ [e\<lparr>e_id := n\<rparr>]" "i \<noteq> n"
  shows "eventd d' i = eventd d i"
  using assms by (simp add: eventd_def find_append split: option.splits)

text \<open>A review closed as moot leaves no open request, and every hand-off as it was.\<close>

lemma moot_heads:
  assumes wf: "wf_db d" and fresh: "fresh_keys ''policy-moot-supersede'' d" and w: "moot_writes L a t d = Inr (d', Closed n out rep)"
  shows "hs_active (typed_handoff_head_state L d' (strip (mo_work a))) =
      filter (\<lambda>i. i \<notin> set (active_requests L d (strip (mo_work a)))) (hs_active (typed_handoff_head_state L d (strip (mo_work a))))"
    and "out = active_requests L d (strip (mo_work a))"
proof -
  let ?w = "strip (mo_work a)" and ?R = "active_requests L d (strip (mo_work a))"
  let ?A = "hs_active (typed_handoff_head_state L d ?w)"
  obtain d1 d2 d3 where s: "d1 = upd_works (\<lambda>w. w_id w = ?w \<and> w_version w = mo_version a)
       (\<lambda>w. w\<lparr>w_intent := ''closed'', w_updated := t, w_version := w_version w + 1\<rparr>) d"
    "insert_event (moot_event L a ?R t) d1 = Inr (d2, n)" "supersede_active_heads L ?w n [''audit_request''] t d2 = Inr (d3, out)"
    "d_events d' = d_events d3"
    by (rule moot_writes_Inr [OF w]) auto
  have wf1: "wf_db d1" unfolding s(1) by (rule wf_upd_works [OF _ wf]) simp
  have wf2: "wf_db d2" by (rule wf_insert_event [OF wf1 s(2)])
  have ev1: "d_events d1 = d_events d" "d_next_event d1 = d_next_event d" by (simp_all add: s(1) upd_works_def)
  let ?s = "(moot_event L a ?R t)\<lparr>e_id := n\<rparr>"
  have ev2: "d_events d2 = d_events d @ [?s]" and n: "n = d_next_event d" using insert_event_Inr [OF s(2)] ev1 by simp_all
  have ok: "events_ok d" "events_ok d2" using wf wf2 by (simp_all add: wf_db_def)
  have rows: "head_rows d2 ?w = head_rows d ?w @ [?s]"
    using ok by (simp add: head_rows_eq ev2 head_event_kinds_def)
  have "silent_for e ?s" if "e \<in> set (head_rows d ?w)" for e
    using that fresh by (auto simp: silent_for_def fresh_keys_def n head_rows_def)
  then have silent: "\<forall>e \<in> set (head_rows d ?w). \<forall>x \<in> set [?s]. silent_for e x" by simp
  have links: "fst ` set (links_of L (head_rows d2 ?w)) = fst ` set (links_of L (head_rows d ?w))"
  proof -
    have "l \<in> set (links_of L (head_rows d ?w))" if "l \<in> set (links_of L (head_rows d2 ?w))" for l
      using links_silent [OF silent, of "fst l" "snd l" L] that by (auto simp: rows)
    moreover have "l \<in> set (links_of L (head_rows d2 ?w))" if "l \<in> set (links_of L (head_rows d ?w))" for l
      unfolding rows by (rule links_append [OF that])
    ultimately show ?thesis by blast
  qed
  have A2: "hs_active (typed_handoff_head_state L d2 ?w) = ?A"
    unfolding head_state_active active_heads_def links by (simp add: rows is_head_def head_kinds_def)
  have same: "eventd d2 i = eventd d i" "i < n" "0 < i" if "i \<in> set ?A" for i
    using active_head_row [OF ok(1) that] eventd_below [OF ev2, of i] by (auto simp: n)
  have A: "to_supersede L d2 ?w n [''audit_request''] =
      filter (\<lambda>i. case eventd d i of None \<Rightarrow> False | Some e \<Rightarrow> e_kind e = ''audit_request'') ?A"
    unfolding to_supersede_def A2 filter_filter by (rule filter_cong [OF refl]) (use same in \<open>auto split: option.splits\<close>)
  then have R: "set (to_supersede L d2 ?w n [''audit_request'']) = set ?R" "sort (to_supersede L d2 ?w n [''audit_request'']) = ?R"
    by (simp_all add: active_requests_def)
  have dR: "\<forall>i \<in> set ?R. 0 < i" "sorted ?R" "distinct ?R" using same(3) active_distinct [OF ok(1)]
    by (auto simp: active_requests_def)
  have sd: "eventd d2 n = Some ?s" using eventd_insert(1) [OF wf1 s(2)] .
  have rn: "row_of (head_rows d2 ?w) n = Some ?s"
    using row_of_eq [OF head_rows_distinct [OF ok(2)], of ?s ?w] by (simp add: rows)
  have link: "trusted_link L (head_rows d2 ?w) ((supersession_row ?s ?w i t)\<lparr>e_id := m\<rparr>) = Some (i, n)"
    if "i \<in> set (to_supersede L d2 ?w n [''audit_request''])" for i m
  proof -
    have i: "i \<in> set ?A" "\<exists>e. eventd d i = Some e \<and> e_kind e = ''audit_request''" using that unfolding A by (auto split: option.splits)
    then obtain e where e: "eventd d i = Some e" "e_kind e = ''audit_request''" by blast
    obtain x where x: "x \<in> set (head_rows d ?w)" "e_id x = i" using i(1) by (auto simp: head_state_active active_heads_def)
    have "x = e" using e(1) x ok(1) find_distinct [of e_id "d_events d" x]
      by (simp add: eventd_def head_rows_def events_ok_def event_log_ok_def strict_sorted_iff)
    then have "row_of (head_rows d2 ?w) i = Some e"
      using row_of_eq [OF head_rows_distinct [OF ok(2)], of e ?w] x by (simp add: rows)
    from moot_tombstone_believed [OF refl rn this e(2) same(3,2) [OF i(1)] _ dR, of m] that R(1) show ?thesis by simp
  qed
  have keys: "\<forall>e \<in> set (d_events d2). \<not> prefix (supersession_prefix (e_kind ?s) @ '':'' @ int_text n @ '':'') (otext (e_key e))"
    using fresh by (simp add: ev2 fresh_keys_def n supersession_prefix_def moot_key_def)
  from supersede_active_fresh [OF wf2 sd _ keys s(3) link] R A2 heads_same_events(2) [OF s(4)]
  show "hs_active (typed_handoff_head_state L d' ?w) = filter (\<lambda>i. i \<notin> set ?R) ?A" "out = ?R" by simp_all
qed

lemma supersede_each_only:
  "\<exists>new. d_events (fst (supersede_each s w t is d)) = d_events d @ new \<and> (\<forall>e \<in> set new. e_kind e = ''handoff_superseded'')"
proof (induction "is" arbitrary: d)
  case (Cons i "is")
  show ?case
  proof (cases "insert_event (supersession_row s w i t) d")
    case (Inl e)
    with Cons.IH [of d] show ?thesis by simp
  next
    case (Inr x)
    obtain d1 n where x: "x = (d1, n)" by (rule prod.exhaust)
    have "d_events d1 = d_events d @ [(supersession_row s w i t)\<lparr>e_id := n\<rparr>]" 
      using insert_event_Inr [OF Inr [unfolded x]] by simp
    with Cons.IH [of d1] Inr x show ?thesis by (auto simp: case_prod_beta)
  qed
qed simp

lemma supersede_active_only:
  assumes "supersede_active_heads L w b ks t d = Inr (d', out)"
  shows "\<exists>new. d_events d' = d_events d @ new \<and> (\<forall>e \<in> set new. e_kind e = ''handoff_superseded'')"
proof -
  have fst: "d' = fst p" if "(case p of (x, y) \<Rightarrow> Inr (x, sort y)) = (Inr (d', out) :: err + (db \<times> int list))"
    for p :: "db \<times> int list" using that by (cases p) simp
  have "\<exists>s is. (case supersede_each s w t is d of (x, y) \<Rightarrow> Inr (x, sort y)) = (Inr (d', out) :: err + (db \<times> int list))"
    using assms unfolding supersede_active_heads_def Let_def by (cases "eventd d b") (auto split: if_split_asm)
  then show ?thesis using fst supersede_each_only by metis
qed

section \<open>What a request leaves behind\<close>

lemma ask_event_simps [simp]:
  "e_kind (ask_event L W d c w author lane rs t) = ''audit_request''" "e_work (ask_event L W d c w author lane rs t) = Some (c_work c)"
  "e_key (ask_event L W d c w author lane rs t) = Some (ask_key (c_id c))" "e_actor (ask_event L W d c w author lane rs t) = Some author"
  "e_to (ask_event L W d c w author lane rs t) = Some (''actor:'' @ lane)" "e_session (ask_event L W d c w author lane rs t) = Some (c_session c)"
  "e_payload (ask_event L W d c w author lane rs t) = ask_payload L W d c w author lane rs"
  by (simp_all add: ask_event_def Let_def)

lemma ask_payload_fields:
  "positive_schema (strict_json_mapping (ask_payload L W d c w author lane rs))"
  "jget (ask_payload L W d c w author lane rs) ''writer_contract'' = JNull"
  by (simp_all add: ask_payload_def Let_def strict_json_mapping_def positive_schema_def field_def strict_positive_event_id_def)

lemma ask_tombstone_believed:
  assumes s: "s = (ask_event L W d c w author lane rs t)\<lparr>e_id := n\<rparr>" "row_of rows n = Some s"
    and i: "candidate rows i" "0 < i" "i < n"
  shows "trusted_link L rows ((supersession_row s (c_work c) i t)\<lparr>e_id := m\<rparr>) = Some (i, n)"
proof -
  let ?row = "(supersession_row s (c_work c) i t)\<lparr>e_id := m\<rparr>"
  let ?p = "[(''by_event_id'', JInt n), (''reason'', JStr (supersession_reason (e_kind s))), (''schema_version'', JInt 1), (''supersedes'', JInt i)]"
  have p: "strict_json_mapping (e_payload ?row) = Some ?p" unfolding supersession_payload by (simp add: s(1))
  have "is_head s" using ask_payload_fields(1) by (simp add: s(1) is_head_def head_kinds_def)
  then have n: "candidate rows n" using row_of_SomeD [OF s(2)] by (auto simp: candidate_def)
  have "legacy_trusted rows ?row ?p i n s"
    using i n ask_payload_fields by (simp add: legacy_trusted_def s(1) field_def head_kinds_def same_sender_def)
  then show ?thesis unfolding trusted_link_def p using i(2,3)
    by (simp add: s(2) field_def event_ref_pos)
qed

lemma ask_writes_Inr:
  assumes "ask_writes L W c w author lane rs t d = Inr (d', r)"
  obtains d1 d2 n out where "d1 = upd_works (\<lambda>x. w_id x = c_work c) (await_review t) d"
    "insert_event (ask_event L W d c w author lane rs t) d1 = Inr (d2, n)"
    "supersede_active_heads L (c_work c) n head_kinds t (open_request lane (c_work c) n d2) = Inr (d', out)"
    "r = \<lparr>rk_event = n, rk_work = c_work c, rk_author = author, rk_lane = lane, rk_at = Some t, rk_superseded = out, rk_replayed = False\<rparr>"
  using assms by (auto simp: ask_writes_def bindE_Inr_iff)

lemma filter_the_one: "distinct xs \<Longrightarrow> x \<in> set xs \<Longrightarrow> filter (\<lambda>y. y = x) xs = [x]"
  by (induction xs) (auto simp: filter_empty_conv)

lemma open_request_same [simp]:
  "d_events (open_request l w n d) = d_events d" "d_works (open_request l w n d) = d_works d" "d_claims (open_request l w n d) = d_claims d"
  "d_sessions (open_request l w n d) = d_sessions d" "d_runs (open_request l w n d) = d_runs d" "d_next_event (open_request l w n d) = d_next_event d"
  by (simp_all add: open_request_def)

lemma logged_open: "logged d (open_request l w n d)"
  unfolding logged_def by (simp add: kept_same wf_db_defs)

text \<open>The request is the only active head of its row.\<close>

lemma ask_heads:
  assumes wf: "wf_db d" and fresh: "fresh_keys ''audit-request-supersede'' d" and r: "ask_writes L W c w author lane rs t d = Inr (d', r)"
  shows "hs_active (typed_handoff_head_state L d' (c_work c)) = [rk_event r]"
proof -
  let ?w = "c_work c"
  obtain d1 d2 n out where s: "d1 = upd_works (\<lambda>x. w_id x = ?w) (await_review t) d"
    "insert_event (ask_event L W d c w author lane rs t) d1 = Inr (d2, n)"
    "supersede_active_heads L ?w n head_kinds t (open_request lane ?w n d2) = Inr (d', out)" "rk_event r = n"
    by (rule ask_writes_Inr [OF r]) auto
  let ?d = "open_request lane ?w n d2" and ?s = "(ask_event L W d c w author lane rs t)\<lparr>e_id := n\<rparr>"
  have wf1: "wf_db d1" unfolding s(1) by (rule wf_upd_works [OF _ wf]) (simp add: await_review_def)
  have wf2: "wf_db d2" by (rule wf_insert_event [OF wf1 s(2)])
  have wf3: "wf_db ?d" using wf2 logged_open unfolding logged_def by blast
  have n: "n = d_next_event d" and ev: "d_events d2 = d_events d @ [?s]"
    using insert_event_Inr [OF s(2)] by (simp_all add: s(1) upd_works_def)
  have ok: "events_ok d" "events_ok ?d" using wf wf3 by (simp_all add: wf_db_def)
  have head: "is_head ?s" using ask_payload_fields(1) by (simp add: is_head_def head_kinds_def)
  have rows: "head_rows ?d ?w = head_rows d ?w @ [?s]" using ok by (simp add: head_rows_eq ev head_event_kinds_def)
  have below: "e_id e < n" if "e \<in> set (head_rows d ?w)" for e
    using that ok(1) by (auto simp: head_rows_def n events_ok_def event_log_ok_def)
  have sd: "eventd ?d n = Some ?s" using eventd_insert(1) [OF wf1 s(2)] by (simp add: eventd_def)
  let ?A = "hs_active (typed_handoff_head_state L ?d ?w)"
  have nA: "n \<in> set ?A"
  proof -
    have "\<not> trusted_link L (head_rows d ?w @ [?s]) e = Some (n, b)" if "e \<in> set (head_rows d ?w @ [?s])" for e b
      using trusted_link_order [of L _ e n b] that below by fastforce
    then have "n \<notin> fst ` set (links_of L (head_rows ?d ?w))" unfolding set_links_of rows by force
    then show ?thesis unfolding head_state_active active_heads_def using head by (simp add: rows)
  qed
  have le: "i \<le> n \<and> candidate (head_rows ?d ?w) i \<and> 0 < i \<and> (i < n \<longrightarrow> (\<exists>e. eventd ?d i = Some e \<and> e_kind e \<in> set head_kinds))"
    if "i \<in> set ?A" for i
  proof -
    note mem = that
    obtain e where e: "e \<in> set (head_rows ?d ?w)" "is_head e" "e_id e = i"
      using mem by (auto simp: head_state_active active_heads_def)
    then have m: "e \<in> set (d_events ?d)" by (simp add: head_rows_def)
    have "eventd ?d i = Some e" using find_distinct [of e_id "d_events ?d" e] m e(3) ok(2)
      by (simp add: eventd_def events_ok_def event_log_ok_def strict_sorted_iff)
    moreover have "i \<le> n" using e(1,3) below by (auto simp: rows le_less)
    ultimately show ?thesis using active_head_row [OF ok(2) that] e(2) by (simp add: is_head_def)
  qed
  have T: "set (to_supersede L ?d ?w n head_kinds) = {i \<in> set ?A. i < n}"
    unfolding to_supersede_def by (auto split: option.splits dest: le)
  have rn: "row_of (head_rows ?d ?w) n = Some ?s"
    using row_of_eq [OF head_rows_distinct [OF ok(2)], of ?s ?w] by (simp add: rows)
  have link: "trusted_link L (head_rows ?d ?w) ((supersession_row ?s ?w i t)\<lparr>e_id := m\<rparr>) = Some (i, n)"
    if "i \<in> set (to_supersede L ?d ?w n head_kinds)" for i m
    using that le by (intro ask_tombstone_believed [OF refl rn]) (auto simp: T)
  have keys: "\<forall>e \<in> set (d_events ?d). \<not> prefix (supersession_prefix (e_kind ?s) @ '':'' @ int_text n @ '':'') (otext (e_key e))"
    using fresh by (simp add: ev fresh_keys_def n supersession_prefix_def ask_key_def)
  have "hs_active (typed_handoff_head_state L d' ?w) = filter (\<lambda>i. i \<notin> set (to_supersede L ?d ?w n head_kinds)) ?A"
    using supersede_active_fresh(2) [OF wf3 sd _ keys s(3) link] by simp
  also have "\<dots> = filter (\<lambda>i. i = n) ?A" by (rule filter_cong [OF refl]) (use le in \<open>force simp: T\<close>)
  also have "\<dots> = [n]" by (rule filter_the_one [OF active_distinct [OF ok(2)] nA])
  finally show ?thesis by (simp add: s(4))
qed

lemma await_review_simps [simp]: "w_id (await_review t w) = w_id w" "w_reason (await_review t w) = Some ''awaiting_review''"
  "w_intent (await_review t w) = w_intent w" "w_version (await_review t w) = w_version w + 1" "w_assignee (await_review t w) = w_assignee w"
  by (simp_all add: await_review_def)

lemma upd_works_row: "(\<And>w. w_id (f w) = w_id w) \<Longrightarrow> workd (upd_works (\<lambda>x. w_id x = i) f d) j = (if j = i then map_option f (workd d j) else workd d j)"
  by (cases "workd d j") (auto simp: workd_def upd_works_def find_upd_where dest: find_SomeD)

lemma ask_effects:
  assumes wf: "wf_db d" and r: "ask_writes L W c w author lane rs t d = Inr (d', r)"
  shows "eventd d' (rk_event r) = Some ((ask_event L W d c w author lane rs t)\<lparr>e_id := rk_event r\<rparr>)"
    and "workd d' j = (if j = c_work c then map_option (await_review t) (workd d j) else workd d j)"
    and "d_claims d' = d_claims d" "d_runs d' = d_runs d" "d_sessions d' = d_sessions d"
    and "rk_event r = d_next_event d" "\<exists>new. d_events d' = d_events d @ [(ask_event L W d c w author lane rs t)\<lparr>e_id := rk_event r\<rparr>] @ new \<and>
           (\<forall>e \<in> set new. e_kind e = ''handoff_superseded'')"
    and "kept d d' \<and> wf_db d'" "rk_author r = author" "rk_lane r = lane" "rk_work r = c_work c"
proof -
  obtain d1 d2 n out where s: "d1 = upd_works (\<lambda>x. w_id x = c_work c) (await_review t) d"
    "insert_event (ask_event L W d c w author lane rs t) d1 = Inr (d2, n)"
    "supersede_active_heads L (c_work c) n head_kinds t (open_request lane (c_work c) n d2) = Inr (d', out)"
    "r = \<lparr>rk_event = n, rk_work = c_work c, rk_author = author, rk_lane = lane, rk_at = Some t, rk_superseded = out, rk_replayed = False\<rparr>"
    by (rule ask_writes_Inr [OF r]) auto
  have wf1: "wf_db d1" unfolding s(1) by (rule wf_upd_works [OF _ wf]) simp
  have k1: "kept d d1" unfolding s(1) by (rule kept_upd_works) simp
  have l: "logged d1 d'"
    using logged_trans [OF logged_trans [OF logged_insert_event [OF s(2)] logged_open] supersede_active_logged [OF s(3)]] .
  then show "kept d d' \<and> wf_db d'" using kept_trans [OF k1] wf1 by (simp add: logged_def)
  show "d_claims d' = d_claims d" "d_runs d' = d_runs d" "d_sessions d' = d_sessions d"
    using l by (simp_all add: logged_def s(1) upd_works_def)
  show "workd d' j = (if j = c_work c then map_option (await_review t) (workd d j) else workd d j)"
    using logged_frame(1) [OF l] upd_works_row [of "await_review t" "c_work c" d j] by (simp add: s(1))
  show "rk_event r = d_next_event d" using insert_event_Inr [OF s(2)] by (simp add: s(1,4) upd_works_def)
  show "rk_author r = author" "rk_lane r = lane" "rk_work r = c_work c" by (simp_all add: s(4))
  have e2: "d_events d2 = d_events d @ [(ask_event L W d c w author lane rs t)\<lparr>e_id := n\<rparr>]"
    using insert_event_Inr [OF s(2)] by (simp add: s(1) upd_works_def)
  obtain new where new: "d_events d' = d_events d2 @ new" "\<forall>e \<in> set new. e_kind e = ''handoff_superseded''"
    using supersede_active_only [OF s(3)] by auto
  show "\<exists>new. d_events d' = d_events d @ [(ask_event L W d c w author lane rs t)\<lparr>e_id := rk_event r\<rparr>] @ new \<and>
      (\<forall>e \<in> set new. e_kind e = ''handoff_superseded'')"
    using new e2 by (simp add: s(4))
  have "eventd d2 n = Some ((ask_event L W d c w author lane rs t)\<lparr>e_id := n\<rparr>)" by (rule eventd_insert(1) [OF wf1 s(2)])
  then show "eventd d' (rk_event r) = Some ((ask_event L W d c w author lane rs t)\<lparr>e_id := rk_event r\<rparr>)"
    using new(1) by (simp add: eventd_def s(4) find_append)
qed

lemma flag_repair_contract:
  assumes "flag_repair_request_event_is_valid L lanes e work"
  shows "jget (e_payload e) ''writer_contract'' = JStr ''flag_repair_audit_request.v1''"
proof (cases "e_payload e")
  case (JObj p)
  with assms obtain refs where "e_refs e = JList refs"
    by (cases "e_refs e") (simp_all add: flag_repair_request_event_is_valid_def Let_def)
  with assms JObj have "field p ''writer_contract'' = JStr ''flag_repair_audit_request.v1''"
    unfolding flag_repair_request_event_is_valid_def Let_def by (simp split: option.split_asm)
  then show ?thesis by (simp add: JObj field_def)
qed (use assms in \<open>simp_all add: flag_repair_request_event_is_valid_def Let_def\<close>)

text \<open>As long as nobody judged it, no claim of the row can be completed.\<close>

lemma unjudged_refused:
  assumes fin: "complete_claim L W lanes art i path kind enforce body source sid actor sys t d = Inr (d', stored)"
    and c: "claimd d i = Some c" "workd d (c_work c) = Some w"
    and rs: "completion_review_state L W lanes d (c_work c) (Some (completion_row c w)) = Inr rs" "rs_tier rs = ''T0''"
    and req: "latest_of_kind d (c_work c) ''audit_request'' = n" "0 < n" "eventd d n = Some e" "jget (e_payload e) ''writer_contract'' = JNull"
    and ok: "events_ok d" and none: "\<forall>x \<in> set (d_events d). e_work x = Some (c_work c) \<and> e_kind x = ''audit_verdict'' \<longrightarrow> e_id x \<le> n"
  shows False
proof -
  let ?row = "completion_row c w" and ?b = "review_barrier d (c_work c)"
  have "\<not> rs_needs_review rs" using complete_claim_Inr [OF fin] completion_gate_Inr c rs(1) by fastforce
  from review_state_settled(1) [OF rs(1) this rs(2)] have eff: "rs_effective rs = Some ''pass'' \<or> rs_barrier rs = None" by auto
  obtain tier ok v declared where v: "classify_verdict_status L W lanes d (c_work c) ?row = Inr v"
      "rs = review_state_of L ?row tier ok v (panel_of L d (c_work c) ?row (v_barrier v) declared) (flag_cycle_of L lanes d (c_work c) v)"
    using completion_review_state_Inr [OF rs(1)] by blast
  have claimed: "\<not> never_claimed_superseded L W lanes d (c_work c) ?row"
    using claimd_SomeD [OF c(1)] by (auto simp: never_claimed_superseded_def list_ex_iff)
  have b: "n \<le> ?b" using req(1) by (simp add: review_barrier_def)
  then have pos: "0 < ?b" using req(2) by simp
  have own: "own_verdicts d (c_work c) ?b = []"
    using none b by (fastforce simp: own_verdicts_def events_of_def filter_empty_conv)
  have vb: "v_barrier v = Some ?b" "v_request v = Some n" "v_reason v \<noteq> ''independent_verdict''"
  proof -
    have p: "some_if_positive ?b = Some ?b" "some_if_positive n = Some n" "?b \<noteq> 0" "last_row ([] :: event_row list) = None"
      using pos req(2) by (simp_all add: some_if_positive_def last_row_def first_row_def)
    show "v_barrier v = Some ?b" "v_request v = Some n" "v_reason v \<noteq> ''independent_verdict''"
      using v(1) claimed
      unfolding classify_verdict_status_def Let_def
      unfolding review_barrier_def [symmetric]
      unfolding own unfolding req(1)
      by (auto simp: bindE_Inr_iff p split: if_split_asm)
  qed
  have "\<not> flag_cycle_of L lanes d (c_work c) v"
  proof
    assume "flag_cycle_of L lanes d (c_work c) v"
    then obtain x where x: "find (\<lambda>e. e_id e = n \<and> e_work e = Some (c_work c) \<and> e_kind e = ''audit_request'') (d_events d) = Some x"
        "flag_repair_request_event_is_valid L lanes x (c_work c)"
      by (auto simp: flag_cycle_of_def vb(2) split: option.splits)
    have "x = e" using find_SomeD [OF x(1)] req(3) find_distinct [of e_id "d_events d" x] ok
      by (auto simp: eventd_def events_ok_def event_log_ok_def strict_sorted_iff)
    then show False using x(2) req(4)
      using flag_repair_contract [of L lanes x] by simp
  qed
  then have f: "\<not> rs_flag_cycle rs" "rs_barrier rs = Some ?b" unfolding v(2) review_state_of_simps by (simp_all add: vb(1))
  with eff have "rs_effective rs = Some ''pass''" "rs_barrier rs \<noteq> None" by simp_all
  from effective_pass_is_judged [OF rs(1) this(2,1) f(1)] v(1) vb(3) show False by auto
qed

section \<open>Requests, closes and what they keep\<close>

lemma request_Inr:
  assumes "request_completion_review_if_needed L W lanes claim t d = Inr (d', Some r)"
  obtains c w rs author lane where "claimd d (strip claim) = Some c" "workd d (c_work c) = Some w"
    "completion_review_state L W lanes d (c_work c) (Some (ask_row d c w)) = Inr rs" "\<not> rs_negative rs" "rs_needs_review rs"
    "lower (strip (c_status c)) = ''running''" "ask_author lanes d c = Inr author" "counterpart_lane lanes (Some author) = Some lane"
    "(case event_by_key d (ask_key (strip claim)) of Some e \<Rightarrow> ask_replay L c e author lane t d
       | None \<Rightarrow> ask_writes L W c w author lane rs t d) = Inr (d', r)"
  using assms by (auto simp: request_completion_review_if_needed_def Let_def bindE_Inr_iff split: option.splits if_split_asm)

lemma request_keeps:
  assumes "request_completion_review_if_needed L W lanes claim t d = Inr (d', r)" "wf_db d"
  shows "kept d d' \<and> wf_db d'"
proof (cases r)
  case None
  then have "d' = d" using assms(1)
    by (auto simp: request_completion_review_if_needed_def Let_def bindE_Inr_iff split: option.splits if_split_asm)
  with assms(2) show ?thesis by simp
next
  case (Some x)
  obtain c w rs author lane where "(case event_by_key d (ask_key (strip claim)) of Some e \<Rightarrow> ask_replay L c e author lane t d
       | None \<Rightarrow> ask_writes L W c w author lane rs t d) = Inr (d', x)"
    using request_Inr [OF assms(1) [unfolded Some]] by metis
  then consider e where "ask_replay L c e author lane t d = Inr (d', x)" | "ask_writes L W c w author lane rs t d = Inr (d', x)"
    by (auto split: option.splits)
  then show ?thesis
  proof cases
    case 1
    then obtain out where "supersede_active_heads L (c_work c) (e_id e) head_kinds t d = Inr (d', out)"
      by (auto simp: ask_replay_def bindE_Inr_iff)
    from supersede_active_logged [OF this] assms(2) show ?thesis by (simp add: logged_def)
  next
    case 2
    show ?thesis by (rule ask_effects(8) [OF assms(2) 2])
  qed
qed

lemma moot_cases:
  assumes "close_review_as_policy_moot L lanes a t d = Inr (d', res)"
  obtains (same) "d' = d" "\<forall>n out. res \<noteq> Closed n out False"
  | (closed) w tier where "event_by_key d (moot_key a) = None" "workd d (strip (mo_work a)) = Some w" "moot_refusal L a t w d = None"
      "effective_review_tier_for_work L lanes d (strip (mo_work a)) (row_dict w) = Inr tier" "tier \<noteq> ''T0''"
      "moot_writes L a t d = Inr (d', res)"
proof (cases "event_by_key d (moot_key a)")
  case (Some e)
  then have "d' = d" "moot_replay L a e = Inr res"
    using assms by (auto simp: close_review_as_policy_moot_def bindE_Inr_iff)
  then have "\<forall>n out. res \<noteq> Closed n out False" by (auto simp: moot_replay_def split: json.splits if_split_asm)
  with \<open>d' = d\<close> show ?thesis by (rule same)
next
  case None
  then show ?thesis using assms same closed
    by (auto simp: close_review_as_policy_moot_def bindE_Inr_iff split: option.splits if_split_asm)
qed

lemma moot_effects:
  assumes wf: "wf_db d" and m: "moot_writes L a t d = Inr (d', Closed n out rep)"
  shows "kept d d' \<and> wf_db d'" "d_claims d' = d_claims d" "d_runs d' = d_runs d" "d_sessions d' = d_sessions d"
    and "d_works d' = upd_where (\<lambda>w. w_id w = strip (mo_work a) \<and> w_version w = mo_version a)
       (\<lambda>w. w\<lparr>w_intent := ''closed'', w_updated := t, w_version := w_version w + 1\<rparr>) (d_works d)"
    and "event_by_key d' (moot_key a) = Some ((moot_event L a (active_requests L d (strip (mo_work a))) t)\<lparr>e_id := n\<rparr>)"
    and "\<forall>q \<in> set (d_consumption d'). q_work q = strip (mo_work a) \<and> q_request q \<in> set out \<longrightarrow> q_at q \<noteq> None"
proof -
  obtain d1 d2 d3 where s: "d1 = upd_works (\<lambda>w. w_id w = strip (mo_work a) \<and> w_version w = mo_version a)
       (\<lambda>w. w\<lparr>w_intent := ''closed'', w_updated := t, w_version := w_version w + 1\<rparr>) d"
    "insert_event (moot_event L a (active_requests L d (strip (mo_work a))) t) d1 = Inr (d2, n)"
    "supersede_active_heads L (strip (mo_work a)) n [''audit_request''] t d2 = Inr (d3, out)"
    "d' = d3\<lparr>d_consumption := upd_where (\<lambda>q. q_work q = strip (mo_work a) \<and> q_at q = None \<and> q_request q \<in> set out)
       (\<lambda>q. q\<lparr>q_event := Some n, q_at := Some t\<rparr>) (d_consumption d3)\<rparr>"
    by (rule moot_writes_Inr [OF m]) auto
  have wf1: "wf_db d1" unfolding s(1) by (rule wf_upd_works [OF _ wf]) simp
  have k1: "kept d d1" unfolding s(1) by (rule kept_upd_works) simp
  have l: "logged d1 d3" by (rule logged_trans [OF logged_insert_event [OF s(2)] supersede_active_logged [OF s(3)]])
  have "kept d3 d'" by (rule kept_same) (simp_all add: s(4))
  moreover have "wf_db d3 \<Longrightarrow> wf_db d'" by (simp add: s(4) wf_db_defs)
  ultimately show "kept d d' \<and> wf_db d'" using l k1 wf1 kept_trans unfolding logged_def by blast
  show "d_claims d' = d_claims d" "d_runs d' = d_runs d" "d_sessions d' = d_sessions d"
    using l by (simp_all add: logged_def s(1,4) upd_works_def)
  show "d_works d' = upd_where (\<lambda>w. w_id w = strip (mo_work a) \<and> w_version w = mo_version a)
       (\<lambda>w. w\<lparr>w_intent := ''closed'', w_updated := t, w_version := w_version w + 1\<rparr>) (d_works d)"
    using l by (simp add: logged_def s(1,4) upd_works_def)
  have "event_by_key d2 (moot_key a) = Some ((moot_event L a (active_requests L d (strip (mo_work a))) t)\<lparr>e_id := n\<rparr>)"
    using s(2) insert_event_Inr [OF s(2)] by (auto simp: insert_event_def event_by_key_def find_append split: option.splits if_split_asm)
  from logged_key [OF supersede_active_logged [OF s(3)] this]
  show "event_by_key d' (moot_key a) = Some ((moot_event L a (active_requests L d (strip (mo_work a))) t)\<lparr>e_id := n\<rparr>)"
    by (simp add: s(4) event_by_key_def)
  show "\<forall>q \<in> set (d_consumption d'). q_work q = strip (mo_work a) \<and> q_request q \<in> set out \<longrightarrow> q_at q \<noteq> None"
  proof (intro ballI impI)
    fix q assume q: "q \<in> set (d_consumption d')" "q_work q = strip (mo_work a) \<and> q_request q \<in> set out"
    show "q_at q \<noteq> None" using q(1) unfolding s(4) using q(2)
      by (auto simp: set_upd_where)
  qed
qed

lemma moot_keeps:
  assumes "close_review_as_policy_moot L lanes a t d = Inr (d', r)" "wf_db d"
  shows "kept d d' \<and> wf_db d'"
  using assms(1)
proof (cases rule: moot_cases)
  case same
  with assms(2) show ?thesis by simp
next
  case (closed w tier)
  obtain n out rep where "r = Closed n out rep" using closed(6) by (auto simp: moot_writes_def Let_def bindE_Inr_iff)
  then show ?thesis using moot_effects(1) [OF assms(2)] closed(6) by blast
qed

lemma reopened_id [simp]: "w_id (reopened t w) = w_id w"
  by (simp add: reopened_def)

lemma reopen_rows_keep: "reopen_rows actor session authority t fs d = Inr (d', is) \<Longrightarrow> wf_db d \<Longrightarrow> kept d d' \<and> wf_db d'"
proof (induction fs arbitrary: d "is")
  case (Cons f fs)
  let ?p = "\<lambda>w. w_id w = bd_work f \<and> w_intent w = ''done'' \<and> w_version w = bd_version f"
  obtain d1 i js where s: "insert_event (reopen_event actor session authority t f) (upd_works ?p (reopened t) d) = Inr (d1, i)"
      "reopen_rows actor session authority t fs d1 = Inr (d', js)"
    using Cons.prems(1) by (auto simp: Let_def bindE_Inr_iff split: if_split_asm)
  have wf: "wf_db (upd_works ?p (reopened t) d)" by (rule wf_upd_works [OF _ Cons.prems(2)]) simp
  have "kept d (upd_works ?p (reopened t) d)" by (rule kept_upd_works) simp
  also have "kept \<dots> d1" by (rule kept_insert_event [OF s(1)])
  finally show ?case using Cons.IH [OF s(2) wf_insert_event [OF wf s(1)]] kept_trans by blast
qed simp

text \<open>A row that was reopened once can not be reopened again, and stops every later sweep.\<close>

lemma reopened_once:
  assumes "f \<in> set fs" "event_by_key d (reopen_key (bd_work f)) \<noteq> None"
  shows "\<exists>e. reopen_rows actor session authority t fs d = Inl e"
  using assms
proof (induction fs arbitrary: d)
  case (Cons g fs)
  let ?p = "\<lambda>w. w_id w = bd_work g \<and> w_intent w = ''done'' \<and> w_version w = bd_version g"
  let ?d = "upd_works ?p (reopened t) d"
  show ?case
  proof (cases "insert_event (reopen_event actor session authority t g) ?d")
    case (Inl e)
    then show ?thesis by (simp add: Let_def)
  next
    case (Inr x)
    obtain d1 i where x: "x = (d1, i)" by (rule prod.exhaust)
    have "event_by_key ?d = event_by_key d" by (simp add: event_by_key_def upd_works_def fun_eq_iff)
    then have free: "event_by_key d (reopen_key (bd_work g)) = None"
      using Inr by (auto simp: insert_event_def reopen_event_def x split: if_split_asm)
    then have "f \<in> set fs" using Cons.prems by auto
    moreover have "event_by_key d1 (reopen_key (bd_work f)) \<noteq> None"
      using Cons.prems(2) insert_event_Inr [OF Inr [unfolded x]] by (auto simp: event_by_key_def upd_works_def find_append split: option.splits)
    ultimately obtain e where "reopen_rows actor session authority t fs d1 = Inl e" using Cons.IH by blast
    then show ?thesis by (simp add: Inr x Let_def)
  qed
qed simp

section \<open>Transitions of the controller\<close>

lemma reopen_keeps:
  assumes "reopen_done_signal_status_mismatches W lanes actor session authority go t d0 d = Inr (d', fs, is)" "wf_db d"
  shows "kept d d' \<and> wf_db d'"
  using assms reopen_rows_keep
  by (fastforce simp: reopen_done_signal_status_mismatches_def Let_def bindE_Inr_iff split: if_split_asm)

text \<open>A read-only sweep changes nothing, and one that applies reports the rows the read found, one event each.\<close>

lemma reopen_rows_one_each: "reopen_rows actor session authority t fs d = Inr (d', is) \<Longrightarrow> length is = length fs"
  by (induction fs arbitrary: d "is") (auto simp: Let_def bindE_Inr_iff split: if_split_asm)

lemma archive_keeps:
  assumes "archive_projection_work_if_unowned i kinds t d = (d', moved)" "wf_db d"
  shows "kept d d' \<and> wf_db d'"
proof -
  consider "d' = d" | f p where "d' = upd_works p f d" "\<And>w. w_id (f w) = w_id w"
    using assms(1) by (fastforce simp: archive_projection_work_if_unowned_def split: option.splits if_split_asm)
  then show ?thesis by cases (use assms(2) in \<open>simp_all add: kept_upd_works wf_upd_works\<close>)
qed

text \<open>Only an untouched row is archived: no claim was ever made on it.\<close>

lemma archived_unclaimed:
  assumes "archive_projection_work_if_unowned i kinds t d = (d', True)" "wf_db d"
  shows "(\<exists>w. workd d i = Some w \<and> unowned kinds d w \<and>
       workd d' i = Some (w\<lparr>w_intent := ''archived'', w_updated := t, w_version := w_version w + 1\<rparr>)) \<and>
     d_claims d' = d_claims d \<and> (\<forall>c \<in> set (d_claims d'). c_work c \<noteq> i) \<and> (\<forall>j. j \<noteq> i \<longrightarrow> workd d' j = workd d j)"
proof -
  obtain w where w: "workd d i = Some w" "unowned kinds d w"
      "d' = upd_works (\<lambda>x. w_id x = i \<and> w_intent x \<noteq> ''archived'')
         (\<lambda>x. x\<lparr>w_intent := ''archived'', w_updated := t, w_version := w_version x + 1\<rparr>) d"
    using assms(1) by (auto simp: archive_projection_work_if_unowned_def split: option.splits if_split_asm)
  have id: "w_id w = i" using w(1) by (auto simp: workd_def dest: find_SomeD)
  have "lower (strip ''archived'') \<notin> {''planned'', ''queued''}" by code_simp
  then have "w_intent w \<noteq> ''archived''" using w(2) unfolding unowned_def by metis
  with w(1) id have "workd d' j = (if j = i then Some (w\<lparr>w_intent := ''archived'', w_updated := t, w_version := w_version w + 1\<rparr>)
      else workd d j)" for j
    unfolding w(3) by (cases "workd d j") (auto simp: workd_def upd_works_def find_upd_where dest: find_SomeD)
  then show ?thesis using w(1,2) id unfolding unowned_def by (auto simp: w(3) upd_works_def list_ex_iff)
qed

lemma controller_keeps:
  assumes "apply_controller_work_transition L i intent reason fs t d = Inr (d', ids)" "wf_db d"
  shows "kept d d' \<and> wf_db d'"
proof -
  obtain b where u: "upsert_work_unlocked L False i (set_intent (lower (strip intent)) fs) t (release_own ids reason d) = Inr (d', b)"
    using assms(1) by (auto simp: apply_controller_work_transition_def Let_def bindE_Inr_iff split: if_split_asm)
  have "kept d (release_own ids reason d)" unfolding release_own_def by (rule kept_unclaim)
  also have "kept \<dots> d'" by (rule kept_upsert_unlocked [OF u])
  finally show ?thesis using wf_upsert_work [OF wf_release_own [OF assms(2)] u] by blast
qed

lemma legacy_keeps:
  assumes "apply_legacy_handoff_work L lanes i fs intent reason t d = Inr (d', ids)" "wf_db d"
  shows "kept d d' \<and> wf_db d'"
proof -
  obtain b gs why where u: "upsert_work_unlocked L False (strip i) gs t (release_own ids why d) = Inr (d', b)"
    using assms(1) by (auto simp: apply_legacy_handoff_work_def Let_def bindE_Inr_iff split: if_split_asm)
  have "kept d (release_own ids why d)" unfolding release_own_def by (rule kept_unclaim)
  also have "kept \<dots> d'" by (rule kept_upsert_unlocked [OF u])
  finally show ?thesis using wf_upsert_work [OF wf_release_own [OF assms(2)] u] by blast
qed

lemma artifact_keeps:
  assumes "store_artifact new path work run kind sha t d = Inr (d', i)" "wf_db d"
  shows "kept d d' \<and> wf_db d'"
proof -
  obtain xs where "d' = d\<lparr>d_artifacts := xs\<rparr>" using assms(1) by (auto simp: store_artifact_def split: if_split_asm)
  then show ?thesis using assms(2) by (simp add: kept_same wf_db_defs)
qed

lemma latest_is:
  assumes "events_ok d" "e \<in> set (d_events d)" "e_work e = Some w" "e_kind e = k"
    and "\<And>x. x \<in> set (d_events d) \<Longrightarrow> e_work x = Some w \<Longrightarrow> e_kind x = k \<Longrightarrow> e_id x \<le> e_id e"
  shows "latest_of_kind d w k = e_id e"
proof -
  let ?es = "filter (\<lambda>x. e_kind x = k) (events_of d w)"
  have e: "e \<in> set ?es" and s: "sorted (map e_id ?es)" using assms(1-4)
    by (simp_all add: events_of_eq events_ok_def event_log_ok_def strict_sorted_iff sorted_filter)
  have "?es \<noteq> []" by (rule notI) (use e in \<open>simp only: list.set empty_iff\<close>)
  then obtain x where x: "last_row ?es = Some x" by (cases "rev ?es") (auto simp: last_row_def first_row_def simp del: filter_empty_conv)
  have "e_id e \<le> e_id x" by (rule last_row_sorted_ge [OF s x e])
  moreover have "x \<in> set (d_events d)" "e_work x = Some w" "e_kind x = k" using last_row_SomeD [OF x] assms(1) by (auto simp: events_of_eq)
  ultimately show ?thesis using assms(5) [of x] by (simp add: latest_of_kind_def x)
qed

lemma request_asked:
  assumes "request_completion_review_if_needed L W lanes claim t d = Inr (d', Some r)" "\<not> rk_replayed r"
  obtains c w rs author lane where "claimd d (strip claim) = Some c" "workd d (c_work c) = Some w"
    "completion_review_state L W lanes d (c_work c) (Some (ask_row d c w)) = Inr rs" "\<not> rs_negative rs" "rs_needs_review rs"
    "lower (strip (c_status c)) = ''running''" "lane \<in> set lanes" "lane \<noteq> norm (Some author)"
    "ask_writes L W c w author lane rs t d = Inr (d', r)"
proof -
  obtain c w rs author lane where q: "claimd d (strip claim) = Some c" "workd d (c_work c) = Some w"
    "completion_review_state L W lanes d (c_work c) (Some (ask_row d c w)) = Inr rs" "\<not> rs_negative rs" "rs_needs_review rs"
    "lower (strip (c_status c)) = ''running''" "counterpart_lane lanes (Some author) = Some lane"
    "(case event_by_key d (ask_key (strip claim)) of Some e \<Rightarrow> ask_replay L c e author lane t d
       | None \<Rightarrow> ask_writes L W c w author lane rs t d) = Inr (d', r)"
    using request_Inr [OF assms(1)] by metis
  have "ask_writes L W c w author lane rs t d = Inr (d', r)"
    using q(8) assms(2) by (auto simp: ask_replay_def bindE_Inr_iff split: option.splits)
  then show ?thesis using that counterpart_lane_Some [OF q(7)] q(1-6) by blast
qed

lemma requests_sorted:
  assumes "wf_db d"
  shows "\<forall>i \<in> set (active_requests L d w). 0 < i" "sorted (active_requests L d w)" "distinct (active_requests L d w)"
  using active_distinct [of d L w] active_head_row [of d _ L w] assms by (auto simp: active_requests_def wf_db_def)

text \<open>The same packet finds its own receipt.\<close>

lemma moot_again:
  assumes "close_review_as_policy_moot L lanes a t d = Inr (d', Closed n out False)" "wf_db d" "out = active_requests L d (strip (mo_work a))"
  shows "close_review_as_policy_moot L lanes a t' d' = Inr (d', Closed n out True)"
  using assms(1)
proof (cases rule: moot_cases)
  case (closed w tier)
  have checks: "moot_checks lanes a = Inr ()" using assms(1) by (auto simp: close_review_as_policy_moot_def bindE_Inr_iff)
  let ?s = "(moot_event L a out t)\<lparr>e_id := n\<rparr>"
  let ?p = "moot_request a @ [(''operation_request_sha256'', JStr (digest L (JObj (moot_request a)))),
         (''closed_from_intent_state'', JStr (mo_intent a)), (''closed_to_intent_state'', JStr ''closed''),
         (''no_claim_mutation'', JBool True), (''no_rubric_mutation'', JBool True), (''no_artifact_mutation'', JBool True),
         (''retired_audit_request_event_ids'', JList (map JInt out))]"
  note pos = requests_sorted [OF assms(2), of L "strip (mo_work a)", folded assms(3)]
  have p: "e_payload ?s = JObj ?p" by (simp add: moot_event_def)
  have f: "field ?p ''operation_request_sha256'' = JStr (digest L (JObj (moot_request a)))"
    "has_key ?p ''retired_audit_request_event_ids''" "field ?p ''retired_audit_request_event_ids'' = JList (map JInt out)"
    by (simp_all add: field_def moot_request_def has_key_def)
  have ids: "\<not> list_ex (\<lambda>x. strict_positive_event_id x = None) (map JInt out)"
    "List.map_filter strict_positive_event_id (map JInt out) = out"
    using pos(1) by (induction out) (auto simp: strict_positive_event_id_def List.map_filter_def)
  have "moot_replay L a ?s = Inr (Closed n out True)"
    unfolding moot_replay_def p json.case f using f(2) ids pos by (simp add: distinct_remdups_id sorted_sort_id)
  moreover have "event_by_key d' (moot_key a) = Some ?s"
    using moot_effects(6) [OF assms(2) closed(6)] assms(3) by simp
  ultimately show ?thesis by (simp add: close_review_as_policy_moot_def checks)
qed simp

end
