(* ===== verification/Protocol.thy ===== *)
theory Protocol
  imports RequestFacts
begin

text \<open>
  The whole protocol as a state machine: the steps of theory Machine, and with them the writers of
  events, verdicts, hand-offs and reassignments, the requests for reviews and their closing, and the
  transitions of the controller. The constraints of the database and the history
  are kept by every step; a hand-off, a reassignment and a verdict are keyed requests, carried out
  once.
\<close>

section \<open>What the new writers keep\<close>

lemma kept_upsert: "upsert_work_unlocked L rn i fs t d = Inr (d', b) \<Longrightarrow> kept d d'"
  by (rule kept_upsert_unlocked)

lemma kept_release_own: "kept d (release_own ids reason d)"
  unfolding release_own_def by (rule kept_unclaim)

lemma kept_handoff_writes:
  assumes "handoff_writes L lanes r v heads sha st t d0 = Inr (d', res)"
  shows "kept d0 d'"
proof -
  let ?d = "fst (release_expired_claims_unlocked t (Some (ha_work r)) d0)"
  obtain ids reason b d2 p n d3 es where s:
    "upsert_work_unlocked L False (ha_work r)
       [F_other ''assigned_by'' (CText (ha_actor r)), F_assignee (Some (ha_owner r)), F_intent (ha_intent r)] t
       (release_own ids reason ?d) = Inr (d2, b)"
    "insert_event (handoff_event r p t) d2 = Inr (d3, n)" "insert_events es d3 = Inr d'"
    using handoff_writes_Inr [OF assms] by blast
  have "kept d0 ?d" by (rule kept_expired)
  also have "kept \<dots> (release_own ids reason ?d)" by (rule kept_release_own)
  also have "kept \<dots> d2" by (rule kept_upsert [OF s(1)])
  also have "kept d2 d3" by (rule kept_insert_event [OF s(2)])
  also have "kept d3 d'" by (rule kept_insert_events [OF s(3)])
  finally show ?thesis .
qed

lemma kept_reassignment_writes:
  assumes "reassignment_writes L r v heads sha st t d0 = Inr (d', res)"
  shows "kept d0 d'"
proof -
  let ?d = "fst (release_expired_claims_unlocked t (Some (ha_work r)) d0)"
  obtain d2 e n d3 es where s: "d2 = upd_works (reassigns r v) (reassigned r t) ?d"
    "insert_event e d2 = Inr (d3, n)" "insert_events es d3 = Inr d'"
    using reassignment_writes_Inr [OF assms] by blast
  have "kept d0 ?d" by (rule kept_expired)
  also have "kept \<dots> d2" unfolding s(1) by (rule kept_upd_works) simp
  also have "kept d2 d3" by (rule kept_insert_event [OF s(2)])
  also have "kept d3 d'" by (rule kept_insert_events [OF s(3)])
  finally show ?thesis .
qed

lemma handoff_keeps:
  assumes "post_existing_work_handoff L W lanes a t d = Inr (d', res)"
  shows "kept d d'" "wf_db d \<Longrightarrow> wf_db d'"
proof -
  obtain r v heads sha where q: "typed_handoff_request L lanes a = Inr (r, v, heads, sha)"
    "d' = d \<or> (\<exists>w. workd d (ha_work r) = Some w \<and>
       handoff_writes L lanes r v heads sha (typed_handoff_head_state L d (ha_work r)) t d = Inr (d', res))"
    using post_handoff_Inr [OF assms] by (fastforce split: option.splits)
  show "kept d d'" using q(2) kept_handoff_writes by blast
  show "wf_db d'" if "wf_db d"
    using q(2) handoff_effect [OF that] that typed_handoff_request_Inr(1,2) [OF q(1)] by blast
qed

lemma reassignment_keeps:
  assumes "post_operator_reassignment L W lanes a release cap t d = Inr (d', res)"
  shows "kept d d'" "wf_db d \<Longrightarrow> wf_db d'"
proof -
  obtain r v heads sha where q: "operator_reassignment_request L lanes a release = Inr (r, v, heads, sha)"
    "d' = d \<or> reassignment_writes L r v heads sha (typed_handoff_head_state L d (ha_work r)) t d = Inr (d', res)"
    using post_reassignment_Inr [OF assms] by (fastforce split: option.splits)
  show "kept d d'" using q(2) kept_reassignment_writes by blast
  show "wf_db d'" if "wf_db d"
    using q(2) operator_effect [OF that] that operator_request_Inr(1,2) [OF q(1)] by blast
qed

lemma logged_keeps: "logged d d' \<Longrightarrow> kept d d'" "logged d d' \<Longrightarrow> wf_db d \<Longrightarrow> wf_db d'"
  by (simp_all add: logged_def)

lemma conflict_keeps:
  assumes "post_claim_conflict L lanes work who sid st verb hold t0 t d = Inr (d', out)"
  shows "kept d d'" "wf_db d \<Longrightarrow> wf_db d'"
proof -
  obtain d1 h where d1: "(case hold of Some h \<Rightarrow> (d, Some h)
            | None \<Rightarrow> held_claim_for_conflict work (Some sid) t0 t d) = (d1, h)" by (rule prod.exhaust)
  then have s: "post_all L lanes (conflict_args work who sid st verb h) t d1 = Inr (d', out)"
    using assms by (simp add: post_claim_conflict_def)
  have "d1 = d \<or> d1 = fst (release_expired_claims t0 (Some work) d)"
    using d1 by (auto simp: held_claim_for_conflict_def Let_def split: option.splits)
  then have "kept d d1" "wf_db d \<Longrightarrow> wf_db d1"
    using kept_expired [of d t0 "Some work"] wf_release_expired [of d t0 "Some work"]
    by (auto simp: release_expired_claims_def case_prod_beta)
  with logged_keeps [OF post_all_logged [OF s]] show "kept d d'" "wf_db d \<Longrightarrow> wf_db d'"
    using kept_trans by blast+
qed

lemma prior_handoffs_logged:
  "supersede_prior_handoffs L lanes work ne actor sid owner t d = Inr (d', out) \<Longrightarrow> logged d d'"
  by (auto simp: supersede_prior_handoffs_def Let_def bindE_Inr_iff intro: post_all_logged)

lemma reconcile_logged: "reconcile_audit_verdict_request_heads L work v t d = Inr (d', out) \<Longrightarrow> logged d d'"
  by (auto simp: reconcile_audit_verdict_request_heads_def bindE_Inr_iff intro: supersede_active_logged)

section \<open>Steps\<close>

inductive protocol_step :: "lib \<Rightarrow> string list \<Rightarrow> db \<Rightarrow> db \<Rightarrow> bool" for L :: lib and lanes :: "string list" where
  coord: "coord_step L lanes d d' \<Longrightarrow> protocol_step L lanes d d'"
| event: "post_event L lanes a t d = Inr (d', r) \<Longrightarrow> protocol_step L lanes d d'"
| conflict: "post_claim_conflict L lanes work who sid st verb hold t0 t d = Inr (d', out) \<Longrightarrow> protocol_step L lanes d d'"
| priors: "supersede_prior_handoffs L lanes work ne actor sid owner t d = Inr (d', out) \<Longrightarrow> protocol_step L lanes d d'"
| reconcile: "reconcile_audit_verdict_request_heads L work v t d = Inr (d', out') \<Longrightarrow> protocol_step L lanes d d'"
| verdict: "post_audit_verdict L W lanes va t d = Inr (d', vr) \<Longrightarrow> protocol_step L lanes d d'"
| handoff: "post_existing_work_handoff L W lanes ha t d = Inr (d', hr) \<Longrightarrow> protocol_step L lanes d d'"
| reassignment: "post_operator_reassignment L W lanes ha release cap t d = Inr (d', hr) \<Longrightarrow> protocol_step L lanes d d'"
| sign_off: "record_operator_sign_off L W lanes work why refs operation expected t d = Inr (d', au) \<Longrightarrow> protocol_step L lanes d d'"
| tier: "correct_work_tier L lanes ta t d = Inr (d', au) \<Longrightarrow> protocol_step L lanes d d'"
| resume: "resume_parked_work L lanes rp t d = Inr (d', au) \<Longrightarrow> protocol_step L lanes d d'"
| request: "request_completion_review_if_needed L W lanes claim t d = Inr (d', asked) \<Longrightarrow> protocol_step L lanes d d'"
| moot: "close_review_as_policy_moot L lanes ma t d = Inr (d', result) \<Longrightarrow> protocol_step L lanes d d'"
| reopen: "reopen_done_signal_status_mismatches W lanes actor sid authority apply_it t seen d = Inr (d', found, ids) \<Longrightarrow>
    protocol_step L lanes d d'"
| archive: "archive_projection_work_if_unowned work kinds t d = (d', moved) \<Longrightarrow> protocol_step L lanes d d'"
| controller: "apply_controller_work_transition L work intent reason fs t d = Inr (d', held_ids) \<Longrightarrow> protocol_step L lanes d d'"
| legacy: "apply_legacy_handoff_work L lanes work fs target why t d = Inr (d', held_ids) \<Longrightarrow> protocol_step L lanes d d'"
| artifact: "store_artifact new_id path on_work on_run kind sha t d = Inr (d', stored_id) \<Longrightarrow> protocol_step L lanes d d'"

inductive protocol_steps :: "lib \<Rightarrow> string list \<Rightarrow> db \<Rightarrow> db \<Rightarrow> bool" for L :: lib and lanes :: "string list" where
  stay: "protocol_steps L lanes d d"
| further: "protocol_steps L lanes d1 d2 \<Longrightarrow> protocol_step L lanes d2 d3 \<Longrightarrow> protocol_steps L lanes d1 d3"

lemma protocol_step_keeps:
  assumes "protocol_step L lanes d d'" "wf_db d"
  shows "kept d d' \<and> wf_db d'"
  using assms
proof (induction rule: protocol_step.induct)
  case (coord d d')
  then show ?case using step_kept step_wf by blast
next
  case (event a t d d' r)
  then show ?case using logged_keeps [OF post_event_logged [OF event(1)]] by simp
next
  case (conflict work who sid st verb hold t0 t d d' out)
  then show ?case using conflict_keeps [OF conflict(1)] by simp
next
  case (priors work ne actor sid owner t d d' out)
  then show ?case using logged_keeps [OF prior_handoffs_logged [OF priors(1)]] by simp
next
  case (reconcile work v t d d' out')
  then show ?case using logged_keeps [OF reconcile_logged [OF reconcile(1)]] by simp
next
  case (verdict W va t d d' vr)
  then show ?case using verdict_keeps [OF verdict(1)] by simp
next
  case (handoff W ha t d d' hr)
  then show ?case using handoff_keeps [OF handoff(1)] by simp
next
  case (reassignment W ha release cap t d d' hr)
  then show ?case using reassignment_keeps [OF reassignment(1)] by simp
next
  case (sign_off W work why refs operation expected t d d' au)
  then show ?case using sign_off_row_and_log [OF sign_off(1)] by (simp add: row_and_log_def)
next
  case (tier ta t d d' au)
  then show ?case using tier_row_and_log [OF tier(1)] by (simp add: row_and_log_def)
next
  case (resume rp t d d' au)
  then show ?case using resume_row_and_log [OF resume(1)] by (simp add: row_and_log_def)
qed (auto dest: request_keeps moot_keeps reopen_keeps archive_keeps controller_keeps legacy_keeps artifact_keeps)

lemma protocol_steps_keep: "protocol_steps L lanes d d' \<Longrightarrow> wf_db d \<Longrightarrow> kept d d' \<and> wf_db d'"
  by (induction rule: protocol_steps.induct) (auto intro: kept_trans dest: protocol_step_keeps)

lemma protocol_from_empty: "protocol_steps L lanes empty_db d \<Longrightarrow> wf_db d \<and> statuses_known d"
  using protocol_steps_keep [OF _ wf_empty_db] by (auto simp: kept_def statuses_known_def empty_db_def)

section \<open>Keyed requests\<close>

text \<open>Every request whose event is keyed by it is carried out once (\<open>keyed_request\<close>, theory Blocked).\<close>

definition handoff_run :: "lib \<Rightarrow> proofs \<Rightarrow> string list \<Rightarrow> handoff_args \<Rightarrow> seconds \<Rightarrow> db \<Rightarrow> err + (db \<times> receipt)" where
  "handoff_run L W lanes a t d = (if wf_db d then as_receipt (post_existing_work_handoff L W lanes a t d) else Inl (ValueErr []))"

definition reassignment_run ::
  "lib \<Rightarrow> proofs \<Rightarrow> string list \<Rightarrow> handoff_args \<Rightarrow> bool \<Rightarrow> bool \<Rightarrow> seconds \<Rightarrow> db \<Rightarrow> err + (db \<times> receipt)" where
  "reassignment_run L W lanes a release cap t d =
     (if wf_db d then as_receipt (post_operator_reassignment L W lanes a release cap t d) else Inl (ValueErr []))"

definition verdict_run :: "lib \<Rightarrow> proofs \<Rightarrow> string list \<Rightarrow> verdict_args \<Rightarrow> seconds \<Rightarrow> db \<Rightarrow> err + (db \<times> receipt)" where
  "verdict_run L W lanes a t d =
     map_sum id (map_prod id (\<lambda>r. \<lparr>k_event = vr_event r, k_replayed = vr_replayed r, k_released = []\<rparr>))
       (post_audit_verdict L W lanes a t d)"

lemma handoff_run_Inr:
  "handoff_run L W lanes a t d = Inr (d', r) \<longleftrightarrow>
     wf_db d \<and> (\<exists>res. post_existing_work_handoff L W lanes a t d = Inr (d', res) \<and> r = handoff_receipt res)"
  by (simp add: handoff_run_def as_receipt_Inr)

lemma reassignment_run_Inr:
  "reassignment_run L W lanes a release cap t d = Inr (d', r) \<longleftrightarrow>
     wf_db d \<and> (\<exists>res. post_operator_reassignment L W lanes a release cap t d = Inr (d', res) \<and> r = handoff_receipt res)"
  by (simp add: reassignment_run_def as_receipt_Inr)

lemma handoff_cases:
  assumes "post_existing_work_handoff L W lanes a t d = Inr (d', res)" "wf_db d"
  shows "case event_by_key d (typed_handoff_key (clean_args a)) of
     Some e \<Rightarrow> d' = d \<and> hr_replayed res \<and> hr_event res = e_id e
   | None \<Rightarrow> \<not> hr_replayed res \<and> (\<exists>e. event_by_key d' (typed_handoff_key (clean_args a)) = Some e \<and> e_id e = hr_event res)"
proof -
  obtain r v heads sha where q: "typed_handoff_request L lanes a = Inr (r, v, heads, sha)"
    "case event_by_key d (typed_handoff_key r) of
       Some e \<Rightarrow> d' = d \<and> hr_replayed res \<and> hr_event res = e_id e
     | None \<Rightarrow> \<exists>w. workd d (ha_work r) = Some w \<and> handoff_guards L W r v heads w d = Inr () \<and>
         handoff_writes L lanes r v heads sha (typed_handoff_head_state L d (ha_work r)) t d = Inr (d', res)"
    using post_handoff_Inr [OF assms(1)] by blast
  have r: "clean_args a = r" "ha_work r \<noteq> []" using typed_handoff_request_Inr(1,2) [OF q(1)] by simp_all
  show ?thesis
  proof (cases "event_by_key d (typed_handoff_key r)")
    case (Some e)
    with q(2) show ?thesis by (simp add: r(1))
  next
    case None
    then obtain w where w: "workd d (ha_work r) = Some w"
      "handoff_writes L lanes r v heads sha (typed_handoff_head_state L d (ha_work r)) t d = Inr (d', res)" using q(2) by auto
    have "\<not> hr_replayed res" using handoff_writes_Inr [OF w(2)] by blast
    with None handoff_effect [OF assms(2) w(2,1) r(2)] show ?thesis by (simp add: r(1))
  qed
qed

lemma reassignment_cases:
  assumes "post_operator_reassignment L W lanes a release cap t d = Inr (d', res)" "wf_db d"
  shows "case event_by_key d (operator_key (clean_args a)) of
     Some e \<Rightarrow> d' = d \<and> hr_replayed res \<and> hr_event res = e_id e
   | None \<Rightarrow> \<not> hr_replayed res \<and> (\<exists>e. event_by_key d' (operator_key (clean_args a)) = Some e \<and> e_id e = hr_event res)"
proof -
  obtain r v heads sha where q: "operator_reassignment_request L lanes a release = Inr (r, v, heads, sha)"
    "case event_by_key d (operator_key r) of
       Some e \<Rightarrow> d' = d \<and> hr_replayed res \<and> hr_event res = e_id e
     | None \<Rightarrow> \<exists>w. workd d (ha_work r) = Some w \<and> reassignment_guards L W r v heads w d = Inr () \<and>
         reassignment_writes L r v heads sha (typed_handoff_head_state L d (ha_work r)) t d = Inr (d', res)"
    using post_reassignment_Inr [OF assms(1)] by blast
  have r: "clean_args a = r" "ha_work r \<noteq> []" using operator_request_Inr(1,2) [OF q(1)] by simp_all
  show ?thesis
  proof (cases "event_by_key d (operator_key r)")
    case (Some e)
    with q(2) show ?thesis by (simp add: r(1))
  next
    case None
    then have w: "reassignment_writes L r v heads sha (typed_handoff_head_state L d (ha_work r)) t d = Inr (d', res)" using q(2) by auto
    have "\<not> hr_replayed res" using reassignment_writes_Inr [OF w] by blast
    with None operator_effect [OF assms(2) w r(2)] show ?thesis by (simp add: r(1))
  qed
qed

lemma verdict_cases:
  assumes "post_audit_verdict L W lanes a t d = Inr (d', res)"
  shows "case event_by_key d (verdict_key a) of
     Some e \<Rightarrow> d' = d \<and> vr_replayed res \<and> vr_event res = e_id e
   | None \<Rightarrow> \<not> vr_replayed res \<and> (\<exists>e. event_by_key d' (verdict_key a) = Some e \<and> e_id e = vr_event res)"
proof -
  obtain sel where s: "case event_by_key d (verdict_key a) of
       Some e \<Rightarrow> verdict_replay L a e d = Inr (d', res)
     | None \<Rightarrow> verdict_writes L a sel t d = Inr (d', res)"
    using post_audit_verdict_Inr [OF assms] by blast
  show ?thesis
  proof (cases "event_by_key d (verdict_key a)")
    case (Some e)
    with s verdict_replay_Inr show ?thesis by fastforce
  next
    case None
    with s have w: "verdict_writes L a sel t d = Inr (d', res)" by simp
    have "\<not> vr_replayed res" using verdict_writes_Inr [OF w] by blast
    with None verdict_writes_keep(7) [OF w] show ?thesis by simp
  qed
qed

interpretation handoffs: keyed_request "handoff_run L W lanes a t" "typed_handoff_key (clean_args a)" for L W lanes a t
proof unfold_locales
  fix d d' r
  assume "handoff_run L W lanes a t d = Inr (d', r)"
  then obtain res where x: "post_existing_work_handoff L W lanes a t d = Inr (d', res)" "wf_db d" "r = handoff_receipt res"
    by (auto simp: handoff_run_Inr)
  note c = handoff_cases [OF x(1,2)]
  show "\<exists>e. event_by_key d' (typed_handoff_key (clean_args a)) = Some e \<and> e_id e = k_event r"
    using c by (auto simp: x(3) handoff_receipt_def split: option.splits)
  show "d' = d \<and> k_replayed r" if "event_by_key d (typed_handoff_key (clean_args a)) \<noteq> None"
    using c that by (auto simp: x(3) handoff_receipt_def)
  show "\<not> k_replayed r" if "event_by_key d (typed_handoff_key (clean_args a)) = None"
    using c that by (auto simp: x(3) handoff_receipt_def)
qed

interpretation reassignments: keyed_request "reassignment_run L W lanes a release cap t" "operator_key (clean_args a)"
  for L W lanes a release cap t
proof unfold_locales
  fix d d' r
  assume "reassignment_run L W lanes a release cap t d = Inr (d', r)"
  then obtain res where x: "post_operator_reassignment L W lanes a release cap t d = Inr (d', res)" "wf_db d" "r = handoff_receipt res"
    by (auto simp: reassignment_run_Inr)
  note c = reassignment_cases [OF x(1,2)]
  show "\<exists>e. event_by_key d' (operator_key (clean_args a)) = Some e \<and> e_id e = k_event r"
    using c by (auto simp: x(3) handoff_receipt_def split: option.splits)
  show "d' = d \<and> k_replayed r" if "event_by_key d (operator_key (clean_args a)) \<noteq> None"
    using c that by (auto simp: x(3) handoff_receipt_def)
  show "\<not> k_replayed r" if "event_by_key d (operator_key (clean_args a)) = None"
    using c that by (auto simp: x(3) handoff_receipt_def)
qed

interpretation verdicts: keyed_request "verdict_run L W lanes a t" "verdict_key a" for L W lanes a t
proof unfold_locales
  fix d d' r
  assume "verdict_run L W lanes a t d = Inr (d', r)"
  then obtain res where x: "post_audit_verdict L W lanes a t d = Inr (d', res)"
      "r = \<lparr>k_event = vr_event res, k_replayed = vr_replayed res, k_released = []\<rparr>"
    by (cases "post_audit_verdict L W lanes a t d") (auto simp: verdict_run_def)
  note c = verdict_cases [OF x(1)]
  show "\<exists>e. event_by_key d' (verdict_key a) = Some e \<and> e_id e = k_event r"
    using c by (auto simp: x(2) split: option.splits)
  show "d' = d \<and> k_replayed r" if "event_by_key d (verdict_key a) \<noteq> None" using c that by (auto simp: x(2))
  show "\<not> k_replayed r" if "event_by_key d (verdict_key a) = None" using c that by (auto simp: x(2))
qed

text \<open>A resumption is keyed the same way; the other two authority operations also complete a lost binding when repeated.\<close>

definition resume_run :: "lib \<Rightarrow> string list \<Rightarrow> resume_args \<Rightarrow> seconds \<Rightarrow> db \<Rightarrow> err + (db \<times> receipt)" where
  "resume_run L lanes a t d =
     map_sum id (map_prod id (\<lambda>r. \<lparr>k_event = au_event r, k_replayed = au_replayed r, k_released = []\<rparr>))
       (resume_parked_work L lanes a t d)"

lemma resume_cases:
  assumes "resume_parked_work L lanes a t d = Inr (d', res)"
  shows "case event_by_key d (resume_key (clean_resume_args a)) of
     Some e \<Rightarrow> d' = d \<and> au_replayed res \<and> au_event res = e_id e
   | None \<Rightarrow> \<not> au_replayed res \<and>
       (\<exists>e. event_by_key d' (resume_key (clean_resume_args a)) = Some e \<and> e_id e = au_event res)"
proof (cases "event_by_key d (resume_key (clean_resume_args a))")
  case (Some e)
  with resume_fresh [OF assms] show ?thesis by simp
next
  case None
  let ?r = "clean_resume_args a"
  obtain w where w: "resume_writes L ?r w t d = Inr (d', res)" using None resume_fresh [OF assms] by auto
  obtain m d2 where s: "resume_guards L ?r w d = Inr m" "row_count (resumable ?r) (d_works d) = 1"
    "insert_event (resumed_event ?r t) (upd_works (resumable ?r) (requeued m t) d) = Inr (d2, au_event res)"
    "if m then \<exists>i. insert_event (manual_ready_event ?r t) d2 = Inr (d', i) else d' = d2"
    "\<not> au_replayed res" "au_version res = rp_version ?r + 1" by (rule resume_writes_Inr [OF w])
  have "event_by_key d2 (resume_key ?r) = Some ((resumed_event ?r t)\<lparr>e_id := au_event res\<rparr>)"
    using None insert_event_Inr [OF s(3)] by (simp add: event_by_key_def find_append resumed_event_def upd_works_def)
  moreover have "\<exists>new. d_events d' = d_events d2 @ new"
    using s(4) insert_event_Inr [of "manual_ready_event ?r t" d2 d'] by (cases m) auto
  ultimately show ?thesis using None s(5) find_append_Some by (fastforce simp: event_by_key_def)
qed

interpretation resumptions: keyed_request "resume_run L lanes a t" "resume_key (clean_resume_args a)" for L lanes a t
proof unfold_locales
  fix d d' r
  assume "resume_run L lanes a t d = Inr (d', r)"
  then obtain res where x: "resume_parked_work L lanes a t d = Inr (d', res)"
      "r = \<lparr>k_event = au_event res, k_replayed = au_replayed res, k_released = []\<rparr>"
    by (cases "resume_parked_work L lanes a t d") (auto simp: resume_run_def)
  note c = resume_cases [OF x(1)]
  show "\<exists>e. event_by_key d' (resume_key (clean_resume_args a)) = Some e \<and> e_id e = k_event r"
    using c by (auto simp: x(2) split: option.splits)
  show "d' = d \<and> k_replayed r" if "event_by_key d (resume_key (clean_resume_args a)) \<noteq> None" using c that by (auto simp: x(2))
  show "\<not> k_replayed r" if "event_by_key d (resume_key (clean_resume_args a)) = None" using c that by (auto simp: x(2))
qed

end
