(* ===== verification/Outcomes.thy ===== *)
theory Outcomes
  imports Protocol
begin

text \<open>
  What follows for the callers of theory Protocol: the exact result of a hand-off, a reassignment
  and a verdict; a key that is taken stays taken; and a compacted payload expands to itself.
\<close>

section \<open>Requests as checked\<close>

lemma capsule_checks_Inr:
  assumes "capsule_checks r = Inr (v, heads)"
  shows "ha_version r = JInt v" "sorted_ids (JList (ha_heads r)) = Some heads" "length heads \<le> 64"
proof -
  have v: "version_arg (ha_version r) = Some v" and h: "sorted_ids (JList (ha_heads r)) = Some heads" "length heads \<le> 64"
    using assms unfolding capsule_checks_def by (simp_all split: if_split_asm option.splits)
  show "ha_version r = JInt v" using v by (auto simp: version_arg_def split: json.splits if_split_asm)
  show "sorted_ids (JList (ha_heads r)) = Some heads" "length heads \<le> 64" by (rule h)+
qed

lemma typed_handoff_checked:
  "typed_handoff_request L lanes a = Inr (r, v, heads, sha) \<Longrightarrow> capsule_checks r = Inr (v, heads)"
  by (auto simp: typed_handoff_request_def Let_def bindE_Inr_iff split: if_split_asm)

lemma operator_checked:
  "operator_reassignment_request L lanes a release = Inr (r, v, heads, sha) \<Longrightarrow> capsule_checks r = Inr (v, heads)"
  by (auto simp: operator_reassignment_request_def Let_def bindE_Inr_iff split: if_split_asm)

lemma handoff_fresh:
  assumes "post_existing_work_handoff L W lanes a t d = Inr (d', res)" "\<not> hr_replayed res"
  obtains r v heads sha w where "typed_handoff_request L lanes a = Inr (r, v, heads, sha)" "workd d (ha_work r) = Some w"
    "handoff_guards L W r v heads w d = Inr ()"
    "handoff_writes L lanes r v heads sha (typed_handoff_head_state L d (ha_work r)) t d = Inr (d', res)"
  using post_handoff_Inr [OF assms(1)] assms(2) by (fastforce split: option.splits)

lemma reassignment_fresh:
  assumes "post_operator_reassignment L W lanes a release cap t d = Inr (d', res)" "\<not> hr_replayed res"
  obtains r v heads sha w where "operator_reassignment_request L lanes a release = Inr (r, v, heads, sha)" "cap"
    "workd d (ha_work r) = Some w" "reassignment_guards L W r v heads w d = Inr ()"
    "reassignment_writes L r v heads sha (typed_handoff_head_state L d (ha_work r)) t d = Inr (d', res)"
  using post_reassignment_Inr [OF assms(1)] assms(2) by (fastforce split: option.splits)

section \<open>Keys\<close>

lemma kept_key:
  assumes "kept d d'" "event_by_key d k = Some e"
  shows "event_by_key d' k = Some e"
proof -
  obtain new where "d_events d' = d_events d @ new" using assms(1) by (auto simp: kept_def grows_def list.rel_eq)
  with assms(2) show ?thesis by (simp add: event_by_key_def find_append)
qed

lemma protocol_key: "protocol_steps L lanes d d' \<Longrightarrow> wf_db d \<Longrightarrow> event_by_key d k = Some e \<Longrightarrow> event_by_key d' k = Some e"
  using protocol_steps_keep kept_key by blast

section \<open>The verdict\<close>

lemma verdict_fresh:
  assumes "post_audit_verdict L W lanes a t d = Inr (d', res)" "\<not> vr_replayed res"
  obtains evidence author sel where "verdict_checks a = Inr evidence" "workd d (strip (va_work a)) \<noteq> None"
    "latest_claim_author_lane L lanes d (strip (va_work a)) = Inr author"
    "upper (strip (va_verdict a)) = ''PASS'' \<Longrightarrow> pass_gate L W lanes a author evidence d = Inr ()"
    "verdict_writes L a sel t d = Inr (d', res)"
proof -
  obtain evidence author sel where s: "verdict_checks a = Inr evidence" "workd d (strip (va_work a)) \<noteq> None"
    "latest_claim_author_lane L lanes d (strip (va_work a)) = Inr author"
    "upper (strip (va_verdict a)) = ''PASS'' \<Longrightarrow> pass_gate L W lanes a author evidence d = Inr ()"
    "case event_by_key d (verdict_key a) of
       Some e \<Rightarrow> verdict_replay L a e d = Inr (d', res)
     | None \<Rightarrow> verdict_writes L a sel t d = Inr (d', res)"
    using post_audit_verdict_Inr [OF assms(1)] by blast
  have "verdict_writes L a sel t d = Inr (d', res)"
    using s(5) assms(2) by (auto dest: verdict_replay_Inr split: option.splits)
  with s(1-4) that show ?thesis by blast
qed

lemma apply_verdict_effect:
  assumes "v \<in> set verdict_words"
  shows "w_rubric (apply_verdict v t w) = Some (lower v) \<and> w_version (apply_verdict v t w) = w_version w + 1 \<and>
    w_assignee (apply_verdict v t w) = w_assignee w \<and>
    w_intent (apply_verdict v t w) = (if v = ''PASS'' then w_intent w else if v = ''BLOCKED'' then ''blocked'' else ''queued'')"
proof -
  have "lower ''PASS'' = ''pass''" by code_simp
  then show ?thesis using assms by (auto simp: apply_verdict_def)
qed

section \<open>Compaction loses nothing\<close>

lemma has_key_drop [simp]: "has_key (drop_key k' p) k \<longleftrightarrow> k \<noteq> k' \<and> has_key p k"
  by (auto simp: has_key_def drop_key_def)

lemma has_key_set [simp]: "has_key (set_key k' v p) k \<longleftrightarrow> k = k' \<or> has_key p k"
  by (induction p) (auto simp: has_key_def)

lemma no_key_field: "\<not> has_key p k \<Longrightarrow> field p k = JNull"
  by (force simp: has_key_def field_def split: option.splits dest: map_of_SomeD)

lemma map_of_set_key [simp]: "map_of (set_key k v kvs) = (map_of kvs)(k \<mapsto> v)"
  by (induction kvs) (auto simp: fun_eq_iff)

lemma distinct_set_key: "distinct (map fst kvs) \<Longrightarrow> distinct (map fst (set_key k v kvs))"
proof (induction kvs)
  case (Cons kv kvs)
  have "fst ` set (set_key k v kvs) = insert k (fst ` set kvs)" by (induction kvs) auto
  with Cons show ?case by auto
qed simp

text \<open>A key is either where it was, or recorded under a column whose value equals what was dropped.\<close>

definition moved :: "(string \<times> string \<times> json) list \<Rightarrow> pyrow \<Rightarrow> pyrow \<times> pyrow \<Rightarrow> bool" where
  "moved ks p st \<longleftrightarrow> distinct (map fst (snd st)) \<and>
     (\<forall>k. case map_of (snd st) k of
        None \<Rightarrow> field (fst st) k = field p k
      | Some j \<Rightarrow> \<not> has_key (fst st) k \<and> (\<exists>col v. j = JStr col \<and> (k, col, v) \<in> set ks \<and> jeq (field p k) v))"

lemma movedD:
  assumes "moved ks p (out, same)"
  shows "map_of same k = None \<Longrightarrow> field out k = field p k"
    and "map_of same k = Some j \<Longrightarrow> \<not> has_key out k \<and> (\<exists>col v. j = JStr col \<and> (k, col, v) \<in> set ks \<and> jeq (field p k) v)"
    and "distinct (map fst same)"
proof -
  have "case map_of same k of None \<Rightarrow> field out k = field p k
      | Some j \<Rightarrow> \<not> has_key out k \<and> (\<exists>col v. j = JStr col \<and> (k, col, v) \<in> set ks \<and> jeq (field p k) v)"
    and "distinct (map fst same)"
    using assms unfolding moved_def fst_conv snd_conv by blast+
  then show "map_of same k = None \<Longrightarrow> field out k = field p k"
    "map_of same k = Some j \<Longrightarrow> \<not> has_key out k \<and> (\<exists>col v. j = JStr col \<and> (k, col, v) \<in> set ks \<and> jeq (field p k) v)"
    "distinct (map fst same)" by (simp_all only: option.case simp_thms)
qed

lemma moved_step:
  assumes "moved ks p (out, same)" "(k, col, v) \<in> set ks" "has_key out k" "jeq (field out k) v"
  shows "moved ks p (drop_key k out, set_key k (JStr col) same)"
proof -
  have "map_of same k = None"
    using movedD(2) [OF assms(1)] assms(3) by (cases "map_of same k") simp_all
  then have f: "field out k = field p k" by (rule movedD(1) [OF assms(1)])
  show ?thesis unfolding moved_def fst_conv snd_conv
  proof (intro conjI allI)
    show "distinct (map fst (set_key k (JStr col) same))" using assms(1) by (simp add: moved_def distinct_set_key)
    fix x
    show "case map_of (set_key k (JStr col) same) x of
        None \<Rightarrow> field (drop_key k out) x = field p x
      | Some j \<Rightarrow> \<not> has_key (drop_key k out) x \<and> (\<exists>col v. j = JStr col \<and> (x, col, v) \<in> set ks \<and> jeq (field p x) v)"
    proof (cases "x = k")
      case True
      then show ?thesis using assms(2,4) f by auto
    next
      case False
      then show ?thesis using movedD(1,2) [OF assms(1), of x] by (cases "map_of same x") simp_all
    qed
  qed
qed

lemma compact_keys_moved: "set js \<subseteq> set ks \<Longrightarrow> moved ks p st \<Longrightarrow> moved ks p (compact_keys js st)"
proof (induction js st rule: compact_keys.induct)
  case (2 k col v js out same)
  have "moved ks p (if has_key out k \<and> jeq (field out k) v then (drop_key k out, set_key k (JStr col) same) else (out, same))"
    using moved_step [OF 2(3), of k col v] 2(2,3) by auto
  with 2 show ?case by simp
qed simp

definition fill :: "(string \<Rightarrow> json option) \<Rightarrow> string \<times> json \<Rightarrow> pyrow \<Rightarrow> pyrow" where
  "fill col kv out =
     (if has_key out (fst kv) then out
      else case snd kv of JStr c \<Rightarrow> (case col c of None \<Rightarrow> out | Some v \<Rightarrow> set_key (fst kv) v out) | _ \<Rightarrow> out)"

lemma fill_field: "x \<noteq> fst kv \<Longrightarrow> field (fill col kv out) x = field out x \<and> has_key (fill col kv out) x = has_key out x"
  by (simp add: fill_def split: json.splits option.splits)

lemma fill_other: "x \<notin> fst ` set kvs \<Longrightarrow> field (fold (fill col) kvs out) x = field out x"
  by (induction kvs arbitrary: out) (simp_all add: fill_field)

lemma fill_filled:
  "distinct (map fst kvs) \<Longrightarrow> map_of kvs x = Some (JStr c) \<Longrightarrow> col c = Some v \<Longrightarrow> \<not> has_key out x \<Longrightarrow>
     field (fold (fill col) kvs out) x = v"
proof (induction kvs arbitrary: out)
  case (Cons kv kvs)
  show ?case
  proof (cases "fst kv = x")
    case True
    then have "x \<notin> fst ` set kvs" "snd kv = JStr c" using Cons.prems(1,2) by auto
    moreover from this have "field (fill col kv out) x = v" using Cons.prems(3,4) True by (simp add: fill_def)
    ultimately show ?thesis by (simp add: fill_other)
  next
    case False
    with Cons.prems have "\<not> has_key (fill col kv out) x" "map_of kvs x = Some (JStr c)" by (simp_all add: fill_field)
    with Cons show ?thesis by simp
  qed
qed simp

definition column :: "lib \<Rightarrow> pyrow \<Rightarrow> string \<Rightarrow> json option" where
  "column L r c = (if c = ''title'' then Some (field r ''title'') else if c = ''note'' then Some (field r ''note'')
     else if c = ''acceptance_json'' then Some (acceptance_from_work_row L r) else None)"

lemma expand_fill:
  "field p ''same_as_row'' = JObj same \<Longrightarrow> expand_event_payload L p (Some r) = fold (fill (column L r)) same p"
proof -
  have "fill (column L r) = (\<lambda>kv out. if has_key out (fst kv) then out
                 else if snd kv = JStr ''title'' then set_key (fst kv) (field r ''title'') out
                 else if snd kv = JStr ''note'' then set_key (fst kv) (field r ''note'') out
                 else if snd kv = JStr ''acceptance_json'' then set_key (fst kv) (acceptance_from_work_row L r) out
                 else out)"
    by (rule ext, rule ext) (simp add: fill_def column_def split: json.splits)
  then show "field p ''same_as_row'' = JObj same \<Longrightarrow> expand_event_payload L p (Some r) = fold (fill (column L r)) same p"
    by (simp add: expand_event_payload_def)
qed

definition compacted_columns :: "lib \<Rightarrow> pyrow \<Rightarrow> (string \<times> string \<times> json) list" where
  "compacted_columns L r = [(''task'', ''title'', field r ''title''), (''why'', ''note'', field r ''note''),
     (''acceptance'', ''acceptance_json'', acceptance_from_work_row L r)]"

lemma compact_moved:
  assumes "compact_event_payload L p (Some r) = Inr out" "\<not> has_key p ''same_as_row''"
  obtains o1 same where "moved (compacted_columns L r) p (o1, same)"
    "out = (if same = [] then o1 else set_key ''same_as_row'' (JObj same) o1)"
proof -
  have none: "field p ''same_as_row'' = JNull" by (rule no_key_field [OF assms(2)])
  obtain o1 same where c: "compact_keys (compacted_columns L r) (p, []) = (o1, same)" by (rule prod.exhaust)
  have "moved (compacted_columns L r) p (p, [])" by (simp add: moved_def)
  then have "moved (compacted_columns L r) p (o1, same)" using compact_keys_moved [OF order_refl] c by metis
  moreover have "out = (if same = [] then o1 else set_key ''same_as_row'' (JObj same) o1)"
    using assms(1) none c unfolding compacted_columns_def
    by (simp add: compact_event_payload_def Let_def split: if_split_asm)
  ultimately show ?thesis by (rule that)
qed

lemma compacted_column: "(k, c, v) \<in> set (compacted_columns L r) \<Longrightarrow> column L r c = Some v"
  by (auto simp: compacted_columns_def column_def)

lemma compact_expand:
  assumes "compact_event_payload L p w = Inr out" "\<not> has_key p ''same_as_row''" "k \<noteq> ''same_as_row''"
  shows "field (expand_event_payload L out w) k = field p k \<or> jeq (field p k) (field (expand_event_payload L out w) k)"
proof (cases w)
  case None
  with assms(1) show ?thesis by (simp add: compact_event_payload_def expand_event_payload_def split: json.splits)
next
  case (Some r)
  obtain o1 same where m: "moved (compacted_columns L r) p (o1, same)"
    and out: "out = (if same = [] then o1 else set_key ''same_as_row'' (JObj same) o1)"
    using compact_moved assms(1,2) unfolding Some by metis
  show ?thesis
  proof (cases "same = []")
    case True
    have id: "field o1 x = field p x" for x using m by (simp add: moved_def True)
    have "expand_event_payload L out w = o1"
      using no_key_field [OF assms(2)] id [of "''same_as_row''"] by (simp add: out True expand_event_payload_def)
    with id show ?thesis by simp
  next
    case False
    let ?e = "fold (fill (column L r)) same out"
    have e: "expand_event_payload L out w = ?e" unfolding Some by (rule expand_fill) (simp add: out False)
    show ?thesis
    proof (cases "map_of same k")
      case None
      then have "field ?e k = field out k" by (intro fill_other) (simp add: map_of_eq_None_iff)
      also have "\<dots> = field p k" using movedD(1) [OF m None] assms(3) by (simp add: out False)
      finally show ?thesis by (simp add: e)
    next
      case (Some j)
      then obtain c v where j: "\<not> has_key o1 k" "j = JStr c" "(k, c, v) \<in> set (compacted_columns L r)" "jeq (field p k) v"
        using movedD(2) [OF m] by blast
      have "field ?e k = v"
        by (rule fill_filled [of _ _ c])
          (use movedD(3) [OF m] Some j(1,2) compacted_column [OF j(3)] assms(3) in \<open>simp_all add: out False\<close>)
      with j(4) show ?thesis by (simp add: e)
    qed
  qed
qed

end
