(* ===== verification/Routing.thy ===== *)
theory Routing
  imports Decisions
begin

text \<open>
  The planner of assignment_routing.py: validated snapshots of a row, its assignment heads, the
  lanes, their usage and a policy; the hard exclusions of every lane; the score of the others; and
  the receipt with its digest. Numbers are exact rationals, so \<open>round\<close> is rounding of the exact value.
\<close>

section \<open>Rounding and instants\<close>

text \<open>\<open>round(q, n)\<close>, ties to even. The reading and printing of timestamps are library functions.\<close>

definition round_half_even :: "rat \<Rightarrow> int" where
  "round_half_even q =
     (let f = \<lfloor>q\<rfloor>; r = q - of_int f
      in if r < 1/2 then f else if 1/2 < r then f + 1 else if even f then f else f + 1)"

definition round_to :: "nat \<Rightarrow> rat \<Rightarrow> rat" where
  "round_to n q = of_int (round_half_even (q * 10 ^ n)) / 10 ^ n"

record clock_text =
  read_utc :: "string \<Rightarrow> seconds option"
  show_utc :: "seconds \<Rightarrow> string"

definition clean_required :: "string \<Rightarrow> string \<Rightarrow> err + string" where
  "clean_required label s = (if strip s = [] then Inl (ValueErr label) else Inr (strip s))"

definition clean_lane :: "string \<Rightarrow> string \<Rightarrow> err + string" where
  "clean_lane label s = map_sum id lower (clean_required label s)"

definition unique_strings :: "string list \<Rightarrow> err + string list" where
  "unique_strings xs = map_sum id (sort \<circ> remdups) (mapE (clean_required ''list item'') xs)"

definition utc :: "clock_text \<Rightarrow> string \<Rightarrow> string \<Rightarrow> err + seconds" where
  "utc T label s = bindE (clean_required label s) (\<lambda>raw.
     case read_utc T raw of None \<Rightarrow> Inl (ValueErr label) | Some t \<Rightarrow> Inr t)"

definition nonnegative :: "string \<Rightarrow> rat \<Rightarrow> err + rat" where
  "nonnegative label q = (if q < 0 then Inl (ValueErr label) else Inr q)"

text \<open>An optional text: empty counts as absent.\<close>

definition optional_lane :: "string \<Rightarrow> string option \<Rightarrow> err + string option" where
  "optional_lane label x = (if otext x = [] then Inr None else map_sum id Some (clean_lane label (otext x)))"

section \<open>Snapshots\<close>

record ownership =
  o_lane :: string
  o_identity :: string

definition mk_ownership :: "string \<Rightarrow> string \<Rightarrow> err + ownership" where
  "mk_ownership lane identity = bindE (clean_lane ''lane'' lane) (\<lambda>l.
     bindE (clean_required ''ownership identity'' identity) (\<lambda>i. Inr \<lparr>o_lane = l, o_identity = i\<rparr>))"

definition ownership_dict :: "ownership \<Rightarrow> json" where
  "ownership_dict p = JObj [(''identity'', JStr (o_identity p)), (''lane'', JStr (o_lane p))]"

record work_snap =
  ws_id :: string
  ws_version :: int
  ws_assignee :: "string option"
  ws_tier :: string
  ws_author :: "string option"
  ws_caps :: "string list"
  ws_deps :: "string list"
  ws_allowed :: "string list"
  ws_claim :: "ownership option"
  ws_run :: "ownership option"

definition mk_work_snap :: "work_snap \<Rightarrow> err + work_snap" where
  "mk_work_snap w =
     bindE (clean_required ''work_id'' (ws_id w)) (\<lambda>i.
       if ws_version w < 0 then Inl (ValueErr ''version'')
       else bindE (optional_lane ''assignee'' (ws_assignee w)) (\<lambda>assignee.
         bindE (optional_lane ''author_lane'' (ws_author w)) (\<lambda>author.
         bindE (clean_required ''review_tier'' (ws_tier w)) (\<lambda>tier.
           if upper tier \<notin> {''T0'', ''T1'', ''T2''} then Inl (ValueErr ''review_tier'')
           else bindE (unique_strings (ws_caps w)) (\<lambda>caps.
             bindE (unique_strings (ws_deps w)) (\<lambda>deps.
             bindE (mapE (clean_lane ''allowed assignee'') (ws_allowed w)) (\<lambda>allowed.
               Inr (w\<lparr>ws_id := i, ws_assignee := assignee, ws_author := author, ws_tier := upper tier,
                 ws_caps := caps, ws_deps := deps, ws_allowed := sort (remdups allowed)\<rparr>))))))))"

definition work_snap_dict :: "work_snap \<Rightarrow> json" where
  "work_snap_dict w = JObj [(''allowed_assignees'', JList (map JStr (ws_allowed w))), (''assignee'', jopt (ws_assignee w)),
     (''author_lane'', jopt (ws_author w)),
     (''live_claim'', case ws_claim w of None \<Rightarrow> JNull | Some p \<Rightarrow> ownership_dict p),
     (''live_run'', case ws_run w of None \<Rightarrow> JNull | Some p \<Rightarrow> ownership_dict p),
     (''required_capabilities'', JList (map JStr (ws_caps w))), (''review_tier'', JStr (ws_tier w)),
     (''unresolved_dependencies'', JList (map JStr (ws_deps w))), (''version'', JInt (ws_version w)),
     (''work_id'', JStr (ws_id w))]"

record head_snap =
  hd_event :: int
  hd_lane :: string

definition mk_head_snap :: "int \<Rightarrow> string \<Rightarrow> err + head_snap" where
  "mk_head_snap i lane = (if i < 1 then Inl (ValueErr ''event_id'')
     else bindE (clean_lane ''lane'' lane) (\<lambda>l. Inr \<lparr>hd_event = i, hd_lane = l\<rparr>))"

definition head_snap_dict :: "head_snap \<Rightarrow> json" where
  "head_snap_dict h = JObj [(''event_id'', JInt (hd_event h)), (''lane'', JStr (hd_lane h))]"

record lane_snap =
  ls_lane :: string
  ls_available :: bool
  ls_auth :: bool
  ls_caps :: "string list"
  ls_load :: rat
  ls_capacity :: rat

definition mk_lane_snap :: "lane_snap \<Rightarrow> err + lane_snap" where
  "mk_lane_snap l =
     bindE (clean_lane ''lane'' (ls_lane l)) (\<lambda>lane.
       bindE (unique_strings (ls_caps l)) (\<lambda>caps.
       bindE (nonnegative ''active_load'' (ls_load l)) (\<lambda>_.
       bindE (nonnegative ''load_capacity'' (ls_capacity l)) (\<lambda>capacity.
         if capacity \<le> 0 then Inl (ValueErr ''load_capacity'')
         else Inr (l\<lparr>ls_lane := lane, ls_caps := caps\<rparr>)))))"

definition lane_snap_dict :: "lane_snap \<Rightarrow> json" where
  "lane_snap_dict l = JObj [(''active_load'', JFloat (ls_load l)), (''auth_available'', JBool (ls_auth l)),
     (''available'', JBool (ls_available l)), (''capabilities'', JList (map JStr (ls_caps l))),
     (''lane'', JStr (ls_lane l)), (''load_capacity'', JFloat (ls_capacity l))]"

record usage_snap =
  us_lane :: string
  us_headroom :: rat
  us_limit :: rat
  us_complete :: bool
  us_observed :: string

definition mk_usage_snap :: "clock_text \<Rightarrow> usage_snap \<Rightarrow> err + usage_snap" where
  "mk_usage_snap T u =
     bindE (clean_lane ''lane'' (us_lane u)) (\<lambda>lane.
       bindE (nonnegative ''headroom'' (us_headroom u)) (\<lambda>_.
       bindE (nonnegative ''limit'' (us_limit u)) (\<lambda>limit.
         if limit \<le> 0 then Inl (ValueErr ''usage limit'')
         else bindE (utc T ''usage observed_at'' (us_observed u)) (\<lambda>t.
           Inr (u\<lparr>us_lane := lane, us_observed := show_utc T t\<rparr>)))))"

definition usage_snap_dict :: "usage_snap \<Rightarrow> json" where
  "usage_snap_dict u = JObj [(''coverage_complete'', JBool (us_complete u)), (''headroom'', JFloat (us_headroom u)),
     (''lane'', JStr (us_lane u)), (''limit'', JFloat (us_limit u)), (''observed_at'', JStr (us_observed u))]"

record routing_policy =
  ry_version :: string
  ry_sha :: string
  ry_age :: rat
  ry_weights :: "(string \<times> rat) list"

definition score_components :: "string list" where
  "score_components = [''available_capacity'', ''continuity'', ''usage_headroom'']"

definition default_weights :: "(string \<times> rat) list" where
  "default_weights = [(''available_capacity'', 35/100), (''continuity'', 1/10), (''usage_headroom'', 55/100)]"

fun normalize_weights :: "(string \<times> rat) list \<Rightarrow> (string \<times> rat) list \<Rightarrow> err + (string \<times> rat) list" where
  "normalize_weights [] acc = Inr acc"
| "normalize_weights ((name, v) # ws) acc =
     bindE (clean_required ''score component name'' name) (\<lambda>n.
       if n \<in> fst ` set acc then Inl (ValueErr ''duplicate score component weight'')
       else bindE (nonnegative ''weight'' v) (\<lambda>q. normalize_weights ws (acc @ [(n, q)])))"

definition mk_routing_policy :: "routing_policy \<Rightarrow> err + routing_policy" where
  "mk_routing_policy y =
     bindE (clean_required ''policy version'' (ry_version y)) (\<lambda>version.
       bindE (clean_required ''policy sha256'' (ry_sha y)) (\<lambda>sha.
         if \<not> is_sha_text (lower sha) then Inl (ValueErr ''policy sha256'')
         else bindE (nonnegative ''max_usage_age_seconds'' (ry_age y)) (\<lambda>_.
           bindE (normalize_weights (ry_weights y) []) (\<lambda>ws.
             if set (map fst ws) \<noteq> set score_components then Inl (ValueErr ''policy weights'')
             else if 1 / 10 ^ 12 < \<bar>sum_list (map snd ws) - 1\<bar> then Inl (ValueErr ''policy weights must sum to 1.0'')
             else Inr (y\<lparr>ry_version := version, ry_sha := lower sha, ry_weights := sort_key fst ws\<rparr>)))))"

definition policy_material :: "routing_policy \<Rightarrow> (string \<times> json) list" where
  "policy_material y = [(''max_usage_age_seconds'', JFloat (ry_age y)), (''version'', JStr (ry_version y)),
     (''weights'', JObj (map (\<lambda>(n, q). (n, JFloat q)) (ry_weights y)))]"

section \<open>Evidence\<close>

text \<open>\<open>_by_lane\<close> and \<open>_normalized_heads\<close>.\<close>

definition by_lane :: "('a \<Rightarrow> string) \<Rightarrow> string \<Rightarrow> 'a list \<Rightarrow> err + 'a list" where
  "by_lane lane label xs =
     (if distinct (map lane xs) then Inr (sort_key lane xs) else Inl (ValueErr (''duplicate '' @ label)))"

definition normalized_heads :: "head_snap list \<Rightarrow> err + head_snap list" where
  "normalized_heads hs =
     (if list_ex (\<lambda>h. list_ex (\<lambda>h'. hd_event h = hd_event h' \<and> h \<noteq> h') hs) hs
      then Inl (ValueErr ''one assignment head event_id cannot identify two lanes'')
      else Inr (sort_key hd_event (remdups hs)))"

definition lane_usage :: "usage_snap list \<Rightarrow> string \<Rightarrow> usage_snap option" where
  "lane_usage us lane = find (\<lambda>u. us_lane u = lane) us"

section \<open>Exclusions and scores\<close>

record decision =
  dn_now :: seconds
  dn_observed :: seconds
  dn_expires :: seconds
  dn_requested :: "string option"

definition usage_exclusions :: "clock_text \<Rightarrow> routing_policy \<Rightarrow> decision \<Rightarrow> usage_snap \<Rightarrow> (bool \<times> string) list" where
  "usage_exclusions T y q u =
     (let t = the (read_utc T (strip (us_observed u))) in
      [(\<not> us_complete u, ''usage_coverage_incomplete''),
       (dn_now q < t, ''usage_observed_in_future''),
       (t \<le> dn_now q \<and> ry_age y < dn_now q - t, ''usage_evidence_stale''),
       (us_headroom u \<le> 0, ''usage_headroom_exhausted'')])"

definition exclusion_tests ::
  "clock_text \<Rightarrow> work_snap \<Rightarrow> routing_policy \<Rightarrow> decision \<Rightarrow> lane_snap \<Rightarrow> usage_snap option \<Rightarrow> (bool \<times> string) list" where
  "exclusion_tests T w y q l u =
     [(dn_requested q \<noteq> None \<and> dn_requested q \<noteq> Some (ls_lane l), ''explicit_user_route_binding''),
      (\<not> ls_available l, ''lane_unavailable''),
      (\<not> ls_auth l, ''auth_unavailable''),
      (\<not> set (ws_caps w) \<subseteq> set (ls_caps l), ''required_capability_unavailable''),
      (ws_tier w = ''T0'' \<and> ws_author w = None, ''t0_author_identity_missing''),
      (ws_tier w = ''T0'' \<and> ws_author w = Some (ls_lane l), ''t0_reviewer_not_independent''),
      (ws_deps w \<noteq> [], ''unresolved_dependencies''),
      (case ws_claim w of None \<Rightarrow> False | Some p \<Rightarrow> o_lane p \<noteq> ls_lane l, ''foreign_live_claim''),
      (case ws_run w of None \<Rightarrow> False | Some p \<Rightarrow> o_lane p \<noteq> ls_lane l, ''foreign_live_run''),
      (dn_expires q \<le> dn_now q, ''evidence_expired''),
      (dn_now q < dn_observed q, ''evidence_observed_in_future''),
      (ws_allowed w \<noteq> [] \<and> ls_lane l \<notin> set (ws_allowed w), ''assignee_restricted'')] @
     (case u of None \<Rightarrow> [(True, ''usage_evidence_missing'')] | Some x \<Rightarrow> usage_exclusions T y q x)"

definition exclusions ::
  "clock_text \<Rightarrow> work_snap \<Rightarrow> routing_policy \<Rightarrow> decision \<Rightarrow> lane_snap \<Rightarrow> usage_snap option \<Rightarrow> string list" where
  "exclusions T w y q l u = sort (map snd (filter fst (exclusion_tests T w y q l u)))"

definition weight_of :: "routing_policy \<Rightarrow> string \<Rightarrow> rat" where
  "weight_of y n = (case map_of (ry_weights y) n of None \<Rightarrow> 0 | Some q \<Rightarrow> q)"

definition clamp01 :: "rat \<Rightarrow> rat" where
  "clamp01 q = max 0 (min 1 q)"

definition raw_scores :: "lane_snap \<Rightarrow> usage_snap \<Rightarrow> bool \<Rightarrow> (string \<times> rat) list" where
  "raw_scores l u continuity =
     [(''available_capacity'', clamp01 (1 - ls_load l / ls_capacity l)),
      (''continuity'', if continuity then 1 else 0),
      (''usage_headroom'', clamp01 (us_headroom u / us_limit u))]"

definition score_component :: "routing_policy \<Rightarrow> string \<times> rat \<Rightarrow> string \<times> rat \<times> rat \<times> rat" where
  "score_component y nr = (fst nr, round_to 12 (snd nr), round_to 12 (weight_of y (fst nr)),
     round_to 12 (snd nr * weight_of y (fst nr)))"

definition score :: "lane_snap \<Rightarrow> usage_snap \<Rightarrow> bool \<Rightarrow> routing_policy \<Rightarrow> (string \<times> rat \<times> rat \<times> rat) list \<times> rat" where
  "score l u continuity y =
     (let cs = map (score_component y) (raw_scores l u continuity)
      in (cs, round_to 12 (sum_list (map (\<lambda>(_, _, _, c). c) cs))))"

record candidate_route =
  ca_lane :: string
  ca_exclusions :: "string list"
  ca_components :: "(string \<times> rat \<times> rat \<times> rat) list"
  ca_score :: "rat option"

definition eligible :: "candidate_route \<Rightarrow> bool" where
  "eligible c \<longleftrightarrow> ca_exclusions c = []"

definition candidate_of ::
  "clock_text \<Rightarrow> work_snap \<Rightarrow> routing_policy \<Rightarrow> decision \<Rightarrow> head_snap list \<Rightarrow> usage_snap list \<Rightarrow> lane_snap \<Rightarrow> candidate_route" where
  "candidate_of T w y q hs us l =
     (let u = lane_usage us (ls_lane l); xs = exclusions T w y q l u
      in if xs \<noteq> [] then \<lparr>ca_lane = ls_lane l, ca_exclusions = xs, ca_components = [], ca_score = None\<rparr>
         else (case u of
             None \<Rightarrow> \<lparr>ca_lane = ls_lane l, ca_exclusions = xs, ca_components = [], ca_score = None\<rparr>
           | Some x \<Rightarrow> let (cs, total) = score l x (ls_lane l \<in> set (map hd_lane hs)) y
               in \<lparr>ca_lane = ls_lane l, ca_exclusions = [], ca_components = cs, ca_score = Some total\<rparr>))"

definition component_dict :: "string \<times> rat \<times> rat \<times> rat \<Rightarrow> string \<times> json" where
  "component_dict = (\<lambda>(n, v, w, c). (n, JObj [(''contribution'', JFloat c), (''value'', JFloat v), (''weight'', JFloat w)]))"

definition candidate_dict :: "candidate_route \<Rightarrow> json" where
  "candidate_dict c = JObj [(''eligible'', JBool (eligible c)), (''exclusions'', JList (map JStr (ca_exclusions c))),
     (''lane'', JStr (ca_lane c)), (''score_components'', JObj (map component_dict (ca_components c))),
     (''total_score'', case ca_score c of None \<Rightarrow> JNull | Some x \<Rightarrow> JFloat x)]"

section \<open>The outcome\<close>

definition score_or_zero :: "candidate_route \<Rightarrow> rat" where
  "score_or_zero c = (case ca_score c of None \<Rightarrow> 0 | Some x \<Rightarrow> x)"

definition ranked :: "candidate_route list \<Rightarrow> candidate_route list" where
  "ranked cs = sort_key (\<lambda>c. (- score_or_zero c, ca_lane c)) (filter eligible cs)"

definition selected_of :: "string option \<Rightarrow> candidate_route list \<Rightarrow> candidate_route option" where
  "selected_of requested cs =
     (if requested \<noteq> None \<and> the requested \<notin> set (map ca_lane cs) then None else first_row (ranked cs))"

definition outcome_reasons :: "string option \<Rightarrow> candidate_route list \<Rightarrow> string list" where
  "outcome_reasons requested cs =
     (let chosen = selected_of requested cs;
          base = (if requested \<noteq> None \<and> the requested \<notin> set (map ca_lane cs)
                  then [''explicit_user_route_unknown'', ''no_eligible_candidate'']
                  else if chosen = None then [''no_eligible_candidate'']
                  else if requested \<noteq> None then [''explicit_user_route_honored''] else [''selected_highest_score''])
      in sort (remdups (base @ (if chosen = None then concat (map ca_exclusions cs) else []))))"

definition confidence_of :: "string option \<Rightarrow> candidate_route list \<Rightarrow> rat \<times> string" where
  "confidence_of requested cs =
     (case selected_of requested cs of
        None \<Rightarrow> (0, ''refused'')
      | Some c \<Rightarrow>
          if requested \<noteq> None then (1, ''explicit_user_route_binding'')
          else (case ranked cs of
              [_] \<Rightarrow> (9/10, ''single_eligible_candidate'')
            | _ # second # _ \<Rightarrow>
                let margin = max 0 (score_or_zero c - score_or_zero second)
                in (round_to 12 (min (99/100) (6/10 + margin)),
                    if margin = 0 then ''deterministic_tie_break'' else ''score_margin'')
            | [] \<Rightarrow> (0, ''refused'')))"

record route_plan =
  pl_work :: string
  pl_selected :: "string option"
  pl_reasons :: "string list"
  pl_candidates :: "candidate_route list"
  pl_confidence :: rat
  pl_confidence_reason :: string
  pl_fence :: json
  pl_policy :: json
  pl_evidence :: json
  pl_planned_at :: string
  pl_sha :: string

text \<open>The receipt without its digest, and the constructor, which checks the digest.\<close>

definition plan_document :: "route_plan \<Rightarrow> json" where
  "plan_document p = JObj [(''candidates'', JList (map candidate_dict (pl_candidates p))),
     (''confidence'', JFloat (pl_confidence p)), (''confidence_reason_codes'', JList [JStr (pl_confidence_reason p)]),
     (''evidence'', pl_evidence p), (''mutation_allowed'', JBool False), (''planned_at'', JStr (pl_planned_at p)),
     (''policy'', pl_policy p), (''reason_codes'', JList (map JStr (pl_reasons p))), (''schema_version'', JStr ''RoutePlanV1''),
     (''selected_lane'', jopt (pl_selected p)),
     (''status'', JStr (if pl_selected p = None then ''refused'' else ''selected'')), (''work_fence'', pl_fence p),
     (''work_id'', JStr (pl_work p))]"

definition mk_plan :: "lib \<Rightarrow> route_plan \<Rightarrow> err + route_plan" where
  "mk_plan L p = bindE (clean_required ''plan_sha256'' (pl_sha p)) (\<lambda>sha.
     if \<not> is_sha_text (lower sha) then Inl (ValueErr ''plan_sha256'')
     else if digest L (plan_document p) \<noteq> lower sha then Inl (ValueErr ''receipt hash does not match'')
     else Inr (p\<lparr>pl_sha := lower sha\<rparr>))"

record evidence =
  ev_heads :: "head_snap list"
  ev_lanes :: "lane_snap list"
  ev_usage :: "usage_snap list"

text \<open>The freshness deadline of the decision, checked before any lane is looked at.\<close>

definition freshness_deadlines :: "seconds list \<Rightarrow> rat \<Rightarrow> seconds \<Rightarrow> seconds \<Rightarrow> seconds list" where
  "freshness_deadlines seen age observed now =
     (observed + round_to 6 age) # filter (\<lambda>t. now < t) (map (\<lambda>t. t + round_to 6 age) seen)"

definition checked_decision ::
  "clock_text \<Rightarrow> usage_snap list \<Rightarrow> routing_policy \<Rightarrow> string \<Rightarrow> string \<Rightarrow> string \<Rightarrow> string option \<Rightarrow> err + decision" where
  "checked_decision T us y observed_at now_at expires_at explicit =
     bindE (utc T ''evidence_observed_at'' observed_at) (\<lambda>observed.
     bindE (utc T ''now'' now_at) (\<lambda>now.
     bindE (utc T ''expires_at'' expires_at) (\<lambda>expires.
       if expires \<le> observed then Inl (ValueErr ''expires_at'')
       else bindE (mapE (\<lambda>u. utc T ''usage observed_at'' (us_observed u)) us) (\<lambda>seen.
         if list_ex (\<lambda>t. observed < t) seen then Inl (ValueErr ''evidence_observed_at'')
         else if Min (set (freshness_deadlines seen (ry_age y) observed now)) < expires
         then Inl (ValueErr ''freshness deadline'')
         else bindE (optional_lane ''explicit_user_route'' explicit) (\<lambda>requested.
           Inr \<lparr>dn_now = now, dn_observed = observed, dn_expires = expires, dn_requested = requested\<rparr>)))))"

definition evidence_material :: "work_snap \<Rightarrow> evidence \<Rightarrow> routing_policy \<Rightarrow> string \<Rightarrow> json" where
  "evidence_material w v y observed = JObj [(''assignment_heads'', JList (map head_snap_dict (ev_heads v))),
     (''lanes'', JList (map lane_snap_dict (ev_lanes v))), (''observed_at'', JStr observed),
     (''policy'', JObj (policy_material y)), (''usage'', JList (map usage_snap_dict (ev_usage v))),
     (''work'', work_snap_dict w)]"

definition draft_plan :: "clock_text \<Rightarrow> lib \<Rightarrow> work_snap \<Rightarrow> evidence \<Rightarrow> routing_policy \<Rightarrow> decision \<Rightarrow> route_plan" where
  "draft_plan T L w v y q =
     (let cs = map (candidate_of T w y q (ev_heads v) (ev_usage v)) (ev_lanes v);
          observed = show_utc T (dn_observed q);
          conf = confidence_of (dn_requested q) cs
      in \<lparr>pl_work = ws_id w, pl_selected = map_option ca_lane (selected_of (dn_requested q) cs),
          pl_reasons = outcome_reasons (dn_requested q) cs, pl_candidates = cs,
          pl_confidence = fst conf, pl_confidence_reason = snd conf,
          pl_fence = JObj [(''assignee'', jopt (ws_assignee w)),
            (''head_event_ids'', JList (map (JInt \<circ> hd_event) (ev_heads v))), (''version'', JInt (ws_version w))],
          pl_policy = JObj ((''artifact_sha256'', JStr (ry_sha y)) #
            (''effective_sha256'', JStr (digest L (JObj (policy_material y)))) # policy_material y),
          pl_evidence = JObj [(''expires_at'', JStr (show_utc T (dn_expires q))), (''observed_at'', JStr observed),
            (''sha256'', JStr (digest L (evidence_material w v y observed)))],
          pl_planned_at = show_utc T (dn_now q), pl_sha = []\<rparr>)"

definition checked_evidence :: "head_snap list \<Rightarrow> lane_snap list \<Rightarrow> usage_snap list \<Rightarrow> err + evidence" where
  "checked_evidence heads lanes usage =
     bindE (normalized_heads heads) (\<lambda>hs.
     bindE (by_lane ls_lane ''lane snapshot'' lanes) (\<lambda>ls.
     bindE (by_lane us_lane ''usage snapshot'' usage) (\<lambda>us.
       if ls = [] then Inl (ValueErr ''at least one lane snapshot is required'')
       else Inr \<lparr>ev_heads = hs, ev_lanes = ls, ev_usage = us\<rparr>)))"

definition plan_assignment_route ::
  "clock_text \<Rightarrow> lib \<Rightarrow> work_snap \<Rightarrow> head_snap list \<Rightarrow> lane_snap list \<Rightarrow> usage_snap list \<Rightarrow> routing_policy \<Rightarrow>
     string \<Rightarrow> string \<Rightarrow> string \<Rightarrow> string option \<Rightarrow> err + route_plan" where
  "plan_assignment_route T L w heads lanes usage y observed_at now_at expires_at explicit =
     bindE (checked_evidence heads lanes usage) (\<lambda>v.
     bindE (checked_decision T (ev_usage v) y observed_at now_at expires_at explicit) (\<lambda>q.
       let p = draft_plan T L w v y q in mk_plan L (p\<lparr>pl_sha := digest L (plan_document p)\<rparr>)))"

end
