(* ===== verification/RoutingFacts.thy ===== *)
theory RoutingFacts
  imports Routing "HOL-Library.Multiset"
begin

text \<open>
  What the planner of theory Routing promises: it selects exactly if some lane qualifies, and then
  the best of those; the order in which evidence is listed does not matter; and the receipt is the
  one its digest names.
\<close>

section \<open>Rounding\<close>

lemma round_half_even_near: "\<bar>of_int (round_half_even q) - q\<bar> \<le> 1/2"
proof -
  define f where "f = \<lfloor>q\<rfloor>"
  have "of_int f \<le> q" "q < of_int f + 1" unfolding f_def using floor_correct [of q] by simp_all
  then show ?thesis by (simp add: round_half_even_def Let_def flip: f_def)
qed

lemma round_half_even_mono: "p \<le> q \<Longrightarrow> round_half_even p \<le> round_half_even q"
proof (rule ccontr)
  assume le: "p \<le> q" and "\<not> round_half_even p \<le> round_half_even q"
  then have lt: "round_half_even q + 1 \<le> round_half_even p" by simp
  then have "of_int (round_half_even q) + 1 \<le> (of_int (round_half_even p) :: rat)"
    by (metis of_int_1 of_int_add of_int_le_iff)
  then have eq: "p = q" using le round_half_even_near [of p] round_half_even_near [of q] by linarith
  with lt show False by simp
qed

lemma round_half_even_int [simp]: "round_half_even (of_int i) = i"
  by (simp add: round_half_even_def)

lemma round_to_mono: "p \<le> q \<Longrightarrow> round_to n p \<le> round_to n q"
  unfolding round_to_def by (intro divide_right_mono) (simp_all add: round_half_even_mono mult_right_mono)

lemma round_to_fixed: "q * 10 ^ n = of_int i \<Longrightarrow> round_to n q = q"
  by (simp add: round_to_def) (metis nonzero_eq_divide_eq power_not_zero zero_neq_numeral)

lemma round_to_nonneg: "0 \<le> q \<Longrightarrow> 0 \<le> round_to n q"
  using round_to_mono [of 0 q n] round_to_fixed [of 0 n 0] by simp

section \<open>Which lanes qualify\<close>

definition qualifies ::
  "clock_text \<Rightarrow> work_snap \<Rightarrow> usage_snap list \<Rightarrow> routing_policy \<Rightarrow> decision \<Rightarrow> lane_snap \<Rightarrow> bool" where
  "qualifies T w us y q l \<longleftrightarrow>
     ls_available l \<and> ls_auth l \<and> set (ws_caps w) \<subseteq> set (ls_caps l) \<and> ws_deps w = [] \<and>
     (ws_tier w = ''T0'' \<longrightarrow> (\<exists>a. ws_author w = Some a \<and> a \<noteq> ls_lane l)) \<and>
     (\<forall>p. ws_claim w = Some p \<or> ws_run w = Some p \<longrightarrow> o_lane p = ls_lane l) \<and>
     (ws_allowed w = [] \<or> ls_lane l \<in> set (ws_allowed w)) \<and>
     (dn_requested q = None \<or> dn_requested q = Some (ls_lane l)) \<and>
     dn_observed q \<le> dn_now q \<and> dn_now q < dn_expires q \<and>
     (\<exists>u. lane_usage us (ls_lane l) = Some u \<and> us_complete u \<and> 0 < us_headroom u \<and>
       (let t = the (read_utc T (strip (us_observed u))) in t \<le> dn_now q \<and> dn_now q - t \<le> ry_age y))"

lemma exclusions_Nil: "exclusions T w y q l u = [] \<longleftrightarrow> (\<forall>(b, n) \<in> set (exclusion_tests T w y q l u). \<not> b)"
proof -
  have "sort xs = [] \<longleftrightarrow> xs = []" for xs :: "string list" by (metis length_0_conv length_sort)
  then show ?thesis by (auto simp: exclusions_def filter_empty_conv)
qed

lemma exclusions_qualify: "exclusions T w y q l (lane_usage us (ls_lane l)) = [] \<longleftrightarrow> qualifies T w us y q l"
proof -
  have owner: "(\<forall>p. x = Some p \<or> y = Some p \<longrightarrow> o_lane p = n) \<longleftrightarrow>
      \<not> (case x of None \<Rightarrow> False | Some p \<Rightarrow> o_lane p \<noteq> n) \<and> \<not> (case y of None \<Rightarrow> False | Some p \<Rightarrow> o_lane p \<noteq> n)"
    for x y n by (cases x; cases y) auto
  have author: "(t = ''T0'' \<longrightarrow> (\<exists>a. x = Some a \<and> a \<noteq> n)) \<longleftrightarrow>
      \<not> (t = ''T0'' \<and> x = None) \<and> \<not> (t = ''T0'' \<and> x = Some n)" for t x n by (cases x) auto
  have usage: "(\<forall>(b, m) \<in> set (case x of None \<Rightarrow> [(True, ''usage_evidence_missing'')] | Some u \<Rightarrow> usage_exclusions T y q u). \<not> b)
      \<longleftrightarrow> (\<exists>u. x = Some u \<and> us_complete u \<and> 0 < us_headroom u \<and>
         (let t = the (read_utc T (strip (us_observed u))) in t \<le> dn_now q \<and> dn_now q - t \<le> ry_age y))" for x
    by (cases x) (auto simp: usage_exclusions_def Let_def)
  show ?thesis
    unfolding exclusions_Nil exclusion_tests_def set_append ball_Un usage qualifies_def owner author
    by (simp add: not_less not_le) blast
qed

lemma candidate_simps [simp]:
  "ca_lane (candidate_of T w y q hs us l) = ls_lane l"
  "eligible (candidate_of T w y q hs us l) \<longleftrightarrow> qualifies T w us y q l"
  unfolding exclusions_qualify [symmetric]
  by (auto simp: candidate_of_def eligible_def Let_def split: option.splits prod.splits)

lemma not_requested: "requested \<noteq> None \<Longrightarrow> the requested \<notin> set (map ca_lane cs) \<Longrightarrow>
   (\<And>c. c \<in> set cs \<Longrightarrow> eligible c \<Longrightarrow> requested = Some (ca_lane c)) \<Longrightarrow> filter eligible cs = []"
  by (auto simp: filter_empty_conv image_iff)

lemma selected_min:
  assumes "\<And>c. c \<in> set cs \<Longrightarrow> eligible c \<Longrightarrow> requested = None \<or> requested = Some (ca_lane c)"
  shows "selected_of requested cs = select_min (\<lambda>c. (- score_or_zero c, ca_lane c)) eligible cs"
proof (cases "requested \<noteq> None \<and> the requested \<notin> set (map ca_lane cs)")
  case True
  then have "filter eligible cs = []" using assms by (intro not_requested [of requested]) auto
  with True show ?thesis by (simp add: selected_of_def select_min_def first_row_def)
next
  case False
  then show ?thesis by (auto simp: selected_of_def select_min_def ranked_def)
qed

text \<open>A plan selects exactly if some lane qualifies, and then the best one.\<close>

lemma draft_selected:
  assumes "p = draft_plan T L w v y q"
  shows "pl_selected p = None \<longleftrightarrow> (\<forall>l \<in> set (ev_lanes v). \<not> qualifies T w (ev_usage v) y q l)"
    and "pl_selected p = Some lane \<Longrightarrow> \<exists>l \<in> set (ev_lanes v). ls_lane l = lane \<and> qualifies T w (ev_usage v) y q l \<and>
      (\<forall>l' \<in> set (ev_lanes v). qualifies T w (ev_usage v) y q l' \<longrightarrow>
        (let s = (\<lambda>x. score_or_zero (candidate_of T w y q (ev_heads v) (ev_usage v) x))
         in s l' < s l \<or> s l' = s l \<and> lane \<le> ls_lane l'))"
proof -
  let ?c = "candidate_of T w y q (ev_heads v) (ev_usage v)"
  let ?cs = "map ?c (ev_lanes v)" and ?k = "\<lambda>c. (- score_or_zero c, ca_lane c)"
  have sel: "selected_of (dn_requested q) ?cs = select_min ?k eligible ?cs"
    by (rule selected_min) (auto simp: qualifies_def)
  have p: "pl_selected p = map_option ca_lane (select_min ?k eligible ?cs)"
    by (simp add: assms draft_plan_def Let_def sel)
  show "pl_selected p = None \<longleftrightarrow> (\<forall>l \<in> set (ev_lanes v). \<not> qualifies T w (ev_usage v) y q l)"
    by (simp add: p select_min_None)
  assume "pl_selected p = Some lane"
  then obtain c where c: "select_min ?k eligible ?cs = Some c" "ca_lane c = lane" by (auto simp: p)
  obtain l where l: "l \<in> set (ev_lanes v)" "c = ?c l" "eligible c" using select_min_SomeD [OF c(1)] by auto
  have "?k c \<le> ?k (?c l')" if "l' \<in> set (ev_lanes v)" "qualifies T w (ev_usage v) y q l'" for l'
    using select_min_le [OF c(1), of "?c l'"] that by simp
  then have "score_or_zero (?c l') < score_or_zero c \<or> score_or_zero (?c l') = score_or_zero c \<and> lane \<le> ls_lane l'"
    if "l' \<in> set (ev_lanes v)" "qualifies T w (ev_usage v) y q l'" for l'
    using that c(2) by (fastforce simp: less_eq_prod_def)
  with l c(2) show "\<exists>l \<in> set (ev_lanes v). ls_lane l = lane \<and> qualifies T w (ev_usage v) y q l \<and>
      (\<forall>l' \<in> set (ev_lanes v). qualifies T w (ev_usage v) y q l' \<longrightarrow>
        (let s = (\<lambda>x. score_or_zero (candidate_of T w y q (ev_heads v) (ev_usage v) x))
         in s l' < s l \<or> s l' = s l \<and> lane \<le> ls_lane l'))"
    by (intro bexI [of _ l]) (simp_all add: Let_def)
qed

section \<open>Confidence and receipt\<close>

lemma confidence_bounds: "0 \<le> fst (confidence_of requested cs) \<and> fst (confidence_of requested cs) \<le> 1"
proof -
  have "0 \<le> round_to 12 (min (99/100) (6/10 + max 0 m)) \<and> round_to 12 (min (99/100) (6/10 + max 0 m)) \<le> 1" for m
  proof
    show "0 \<le> round_to 12 (min (99/100) (6/10 + max 0 m))" by (rule round_to_nonneg) simp
    have "round_to 12 (min (99/100) (6/10 + max 0 m)) \<le> round_to 12 1" by (rule round_to_mono) simp
    also have "\<dots> = 1" by (rule round_to_fixed [of _ _ "10 ^ 12"]) simp
    finally show "round_to 12 (min (99/100) (6/10 + max 0 m)) \<le> 1" .
  qed
  then show ?thesis
    by (auto simp: confidence_of_def Let_def split: option.splits list.splits)
qed

lemma plan_Inr:
  assumes "plan_assignment_route T L w heads lanes usage y observed_at now_at expires_at explicit = Inr p"
  obtains v q d where "checked_evidence heads lanes usage = Inr v"
    "checked_decision T (ev_usage v) y observed_at now_at expires_at explicit = Inr q"
    "d = draft_plan T L w v y q" "p = d\<lparr>pl_sha := pl_sha p\<rparr>" "pl_sha p = digest L (plan_document d)"
proof -
  obtain v q where v: "checked_evidence heads lanes usage = Inr v"
    "checked_decision T (ev_usage v) y observed_at now_at expires_at explicit = Inr q"
    "mk_plan L ((draft_plan T L w v y q)\<lparr>pl_sha := digest L (plan_document (draft_plan T L w v y q))\<rparr>) = Inr p"
    using assms by (auto simp: plan_assignment_route_def bindE_Inr_iff Let_def)
  define d where "d = draft_plan T L w v y q"
  have doc: "plan_document (d\<lparr>pl_sha := s\<rparr>) = plan_document d" for s by (simp add: plan_document_def)
  have p: "p = d\<lparr>pl_sha := lower (strip (digest L (plan_document d)))\<rparr>"
      "digest L (plan_document d) = lower (strip (digest L (plan_document d)))"
    using v(3) unfolding d_def [symmetric] by (simp_all add: mk_plan_def doc clean_required_def split: if_split_asm)
  then have sha: "pl_sha p = digest L (plan_document d)" by simp
  have "p = d\<lparr>pl_sha := pl_sha p\<rparr>" using p(1) by simp
  from that [OF v(1,2) d_def this sha] show ?thesis .
qed

lemma plan_receipt:
  assumes "plan_assignment_route T L w heads lanes usage y observed_at now_at expires_at explicit = Inr p"
  shows "pl_sha p = digest L (plan_document p)"
proof -
  obtain v q d where d: "checked_evidence heads lanes usage = Inr v"
    "checked_decision T (ev_usage v) y observed_at now_at expires_at explicit = Inr q"
    "d = draft_plan T L w v y q" "p = d\<lparr>pl_sha := pl_sha p\<rparr>" "pl_sha p = digest L (plan_document d)"
    by (rule plan_Inr [OF assms])
  have "plan_document p = plan_document d" by (subst d(4)) (simp add: plan_document_def)
  with d(5) show ?thesis by simp
qed

text \<open>Once the evidence and the decision are sound, the receipt is accepted.\<close>

lemma is_sha_text_fixed: "is_sha_text s \<Longrightarrow> strip s = s \<and> lower s = s \<and> s \<noteq> []"
proof -
  assume s: "is_sha_text s"
  have c: "\<not> is_ws c \<and> lower_char c = c" if "is_lower_hex c" for c
  proof (cases "is_digit c")
    case True
    then show ?thesis by (simp add: is_digit_def is_ws_def lower_char_def Let_def)
  next
    case False
    with that have "c = CHR ''a'' \<or> c = CHR ''b'' \<or> c = CHR ''c'' \<or> c = CHR ''d'' \<or> c = CHR ''e'' \<or> c = CHR ''f''"
      by (simp add: is_lower_hex_def)
    then show ?thesis by (elim disjE) (simp_all add: is_ws_def lower_char_def)
  qed
  have ne: "s \<noteq> []" and all: "\<forall>c \<in> set s. is_lower_hex c" using s by (auto simp: is_sha_text_def list_all_iff)
  have "lstrip s = s" by (rule lstrip_id) (use ne all c in auto)
  moreover have "lstrip (rev s) = rev s" by (rule lstrip_id) (use ne all c in \<open>auto simp: hd_rev\<close>)
  ultimately have "strip s = s" by (simp add: strip_def)
  moreover have "lower s = s" using all c by (simp add: lower_def map_idI)
  ultimately show ?thesis using ne by simp
qed

lemma plan_accepted:
  assumes "checked_evidence heads lanes usage = Inr v"
    and "checked_decision T (ev_usage v) y observed_at now_at expires_at explicit = Inr q"
    and "is_sha_text (digest L (plan_document (draft_plan T L w v y q)))"
  shows "plan_assignment_route T L w heads lanes usage y observed_at now_at expires_at explicit =
    Inr ((draft_plan T L w v y q)\<lparr>pl_sha := digest L (plan_document (draft_plan T L w v y q))\<rparr>)"
proof -
  have doc: "plan_document (x\<lparr>pl_sha := s\<rparr>) = plan_document x" for x s by (simp add: plan_document_def)
  show ?thesis
    using assms is_sha_text_fixed [OF assms(3)]
    by (simp add: plan_assignment_route_def Let_def mk_plan_def clean_required_def doc)
qed

section \<open>The order of the evidence\<close>

lemma sort_key_perm:
  assumes "mset xs = mset ys" "distinct (map k xs)"
  shows "sort_key k xs = sort_key k ys"
proof -
  have "inj_on k (set xs)" using assms(2) by (simp add: distinct_map)
  moreover have "sorted (map k (sort_key k ys))" by simp
  ultimately show ?thesis using sort_key_inj_key_eq [of xs "sort_key k ys" k] assms(1) by simp
qed

lemma by_lane_perm: "mset xs = mset ys \<Longrightarrow> by_lane k label xs = by_lane k label ys"
proof -
  assume m: "mset xs = mset ys"
  have "distinct (map k xs) \<longleftrightarrow> distinct (map k ys)"
    using m mset_eq_imp_distinct_iff [of "map k xs" "map k ys"] by simp
  then show ?thesis using sort_key_perm [OF m, of k] by (simp add: by_lane_def)
qed

lemma heads_perm: "set hs = set hs' \<Longrightarrow> normalized_heads hs = normalized_heads hs'"
proof -
  assume s: "set hs = set hs'"
  let ?clash = "\<lambda>hs. list_ex (\<lambda>h. list_ex (\<lambda>h'. hd_event h = hd_event h' \<and> h \<noteq> h') hs) hs"
  have c: "?clash hs = ?clash hs'" by (simp add: list_ex_iff s)
  have m: "mset (remdups hs) = mset (remdups hs')"
    using s by (simp add: set_eq_iff_mset_remdups_eq [symmetric])
  have "sort_key hd_event (remdups hs) = sort_key hd_event (remdups hs')" if "\<not> ?clash hs"
  proof (rule sort_key_perm [OF m])
    show "distinct (map hd_event (remdups hs))"
      using that by (simp add: distinct_map inj_on_def list_ex_iff)
  qed
  with c show ?thesis by (simp only: normalized_heads_def) (simp split: if_split)
qed

lemma plan_perm:
  assumes "set heads = set heads'" "mset lanes = mset lanes'" "mset usage = mset usage'"
  shows "plan_assignment_route T L w heads lanes usage y observed_at now_at expires_at explicit =
    plan_assignment_route T L w heads' lanes' usage' y observed_at now_at expires_at explicit"
  unfolding plan_assignment_route_def checked_evidence_def
  by (simp only: heads_perm [OF assms(1)] by_lane_perm [OF assms(2)] by_lane_perm [OF assms(3)])

end
