(* ===== verification/Examples.thy ===== *)
theory Examples
  imports Outcomes RoutingFacts
begin

text \<open>
  A small board on which the properties are instantiated: two lanes with a session each,
  an epic \<open>W1\<close> with the children \<open>W2\<close> (claimed by a lapsed session), \<open>W3\<close> (done, its claim never
  released) and \<open>W4\<close> (claimed and live), and the open row \<open>W5\<close>.
\<close>

definition demo_session :: "string \<Rightarrow> string \<Rightarrow> seconds \<Rightarrow> session_row" where
  "demo_session i actor lease =
     \<lparr>s_id = i, s_actor = actor, s_actor_id = None, s_parent = None, s_runner_type = None,
      s_human_label = None, s_thread = None, s_title = None, s_worktree = Some ''main'',
      s_label_source = None, s_label_updated = None, s_cwd = None, s_pid = None,
      s_pid_started = None, s_host = None, s_started = 1, s_heartbeat = 1, s_lease = lease,
      s_pause = None, s_state = ''active'', s_ended = None, s_version = 0\<rparr>"

definition demo_claim :: "string \<Rightarrow> string \<Rightarrow> string \<Rightarrow> seconds \<Rightarrow> claim_row" where
  "demo_claim i work sid expires =
     \<lparr>c_id = i, c_work = work, c_session = sid, c_token = None, c_status = ''running'',
      c_step = None, c_acquired = 1, c_heartbeat = 1, c_expires = expires, c_reason = None,
      c_version = 0\<rparr>"

definition demo_work :: "string \<Rightarrow> string option \<Rightarrow> string \<Rightarrow> work_row" where
  "demo_work i parent intent =
     (new_work_row i 1)\<lparr>w_parent := parent, w_assignee := Some ''claude'', w_intent := intent,
        w_done_signal := Some ''docs/out.md''\<rparr>"

definition demo_event :: "int \<Rightarrow> string \<Rightarrow> string option \<Rightarrow> event_row" where
  "demo_event i kind key = blank_event\<lparr>e_id := i, e_ts := 1, e_kind := kind, e_key := key\<rparr>"

definition demo_db :: db where
  "demo_db = empty_db\<lparr>
     d_sessions := [demo_session ''claude:a'' ''claude'' 900, demo_session ''codex:b'' ''codex'' 50],
     d_works := [demo_work ''W1'' None ''planned'', demo_work ''W2'' (Some ''W1'') ''running'',
       demo_work ''W3'' (Some ''W1'') ''done'', demo_work ''W4'' (Some ''W1'') ''running'',
       demo_work ''W5'' None ''queued''],
     d_claims := [demo_claim ''c2'' ''W2'' ''codex:b'' 90, demo_claim ''c3'' ''W3'' ''codex:b'' 90,
       demo_claim ''c4'' ''W4'' ''claude:a'' 900],
     d_events := [demo_event 1 ''note'' None, demo_event 2 ''note'' (Some ''k2'')],
     d_next_event := 3\<rparr>"

lemmas demo_defs = demo_db_def demo_session_def demo_claim_def demo_work_def demo_event_def
  empty_db_def new_work_row_def blank_event_def

lemma demo_wf: "wf_db demo_db"
  by (simp add: demo_defs wf_db_defs unique_where_def event_log_ok_def held_def held_statuses_def)

definition demo_lib :: lib where
  "demo_lib = \<lparr>dumps = (\<lambda>j. case j of JStr s \<Rightarrow> s | _ \<Rightarrow> ''{}''), loads = (\<lambda>s. None),
     py_str = (\<lambda>j. ''x''), sha256 = (\<lambda>s. s)\<rparr>"

lemma demo_no_cycle: "no_cycle (parent_step demo_db)"
proof -
  have step: "parent_step demo_db x = (if x \<in> {''W2'', ''W3'', ''W4''} then Some ''W1'' else None)" for x
    by (auto simp: parent_step_def workd_def demo_defs clean_def opt_text_def strip_def lstrip_def is_ws_def)
  have "hop (parent_step demo_db) n ''W1'' = (if n = 0 then Some ''W1'' else None)" for n
    by (cases n) (simp_all add: step)
  then have "hop (parent_step demo_db) (Suc n) x \<noteq> Some x" for n x
    using step [of x] by auto
  then show ?thesis unfolding no_cycle_def by (metis gr0_implies_Suc)
qed

text \<open>
  The same board with a T0 row \<open>W6\<close>, claimed by \<open>claude\<close>, whose review was asked for (event 3) and
  passed by \<open>codex\<close> (event 4), a blocked row \<open>W7\<close> and files that are all committed.
\<close>

definition demo_proofs :: proofs where
  "demo_proofs = \<lparr>custodied = (\<lambda>s. True), admissible = (\<lambda>s. True), on_disk = (\<lambda>s. True),
     file_text = (\<lambda>s. None), real_path = (\<lambda>s. s), relative = Some, absolute = (\<lambda>s. False),
     path_text = (\<lambda>s. s)\<rparr>"

definition demo_verdict :: "int \<Rightarrow> string \<Rightarrow> string \<Rightarrow> string \<Rightarrow> event_row" where
  "demo_verdict i actor sid verdict = (demo_event i ''audit_verdict'' None)\<lparr>e_actor := Some actor,
     e_session := Some sid, e_work := Some ''W6'', e_verdict := Some verdict\<rparr>"

definition demo_review_db :: db where
  "demo_review_db = demo_db\<lparr>
     d_works := d_works demo_db @ [(demo_work ''W6'' None ''running'')\<lparr>w_tier := Some ''T0''\<rparr>,
       (demo_work ''W7'' None ''blocked'')\<lparr>w_reason := Some ''ready_for_owner_resume''\<rparr>],
     d_claims := d_claims demo_db @ [demo_claim ''c6'' ''W6'' ''claude:a'' 900],
     d_events := d_events demo_db @ [(demo_event 3 ''audit_request'' None)\<lparr>e_work := Some ''W6''\<rparr>,
       demo_verdict 4 ''codex'' ''codex:b'' ''PASS''],
     d_next_event := 5\<rparr>"

lemma demo_review_wf: "wf_db demo_review_db"
  by (simp add: demo_defs demo_review_db_def demo_verdict_def wf_db_defs unique_where_def event_log_ok_def
      held_def held_statuses_def)

definition demo_run :: run_args where
  "demo_run = \<lparr>ra_work = None, ra_session = None, ra_parent = None, ra_kind = ''local_cpu'', ra_model = None,
     ra_progress = ''indeterminate'', ra_sidecar = None, ra_pid = None, ra_pgid = None, ra_resource = None,
     ra_pid_started = None, ra_heartbeat = None, ra_state = None\<rparr>"

text \<open>Requests on these boards: \<open>claude\<close> hands \<open>W4\<close> to \<open>codex\<close>, the operator moves \<open>W5\<close>, \<open>codex\<close> passes \<open>W6\<close>.\<close>

definition demo_handoff :: "string \<Rightarrow> handoff_args" where
  "demo_handoff work = \<lparr>ha_work = work, ha_actor = ''claude'', ha_session = ''claude:a'', ha_owner = ''codex'',
     ha_intent = ''queued'', ha_task = ''t'', ha_why = ''w'', ha_acceptance = ''a'', ha_refs = [''r''],
     ha_constraints = [''c''], ha_operation = ''op-demo-0001'', ha_version = JInt 0, ha_assignee = ''claude'',
     ha_heads = []\<rparr>"

definition demo_verdict_args :: verdict_args where
  "demo_verdict_args = \<lparr>va_work = ''W6'', va_verdict = ''pass'', va_actor = Some ''codex'', va_session = Some ''codex:b'',
     va_to = None, va_trust = ''agent'', va_title = None, va_body = None, va_refs = JList [JStr ''src/x.py''],
     va_payload = JObj [(''operation_request_sha256'', JStr (replicate 64 (CHR ''a'')))], va_operation = ''op-demo-0002'', va_sha = replicate 64 (CHR ''a'')\<rparr>"

definition demo_open_proofs :: proofs where
  "demo_open_proofs = demo_proofs\<lparr>custodied := (\<lambda>s. False), on_disk := (\<lambda>s. False)\<rparr>"

text \<open>For the operator's approval, the correction of a tier and resumed work: digests of 64 digits, the row \<open>W5\<close> paused.\<close>

definition demo_sha_lib :: lib where
  "demo_sha_lib = demo_lib\<lparr>sha256 := (\<lambda>_. replicate 64 (CHR ''a''))\<rparr>"

lemma demo_sha: "is_sha_text (sha256 demo_sha_lib s)"
proof -
  have "is_sha_text (replicate 64 (CHR ''a''))" by code_simp
  then show ?thesis by (simp add: demo_sha_lib_def)
qed

definition demo_tier :: tier_args where
  "demo_tier = \<lparr>ta_work = ''W5'', ta_actor = ''codex'', ta_session = ''codex:b'', ta_version = 0, ta_from = ''t1'',
     ta_to = ''t2'', ta_reason = ''small'', ta_refs = [''r''], ta_operation = ''op-demo-0004''\<rparr>"

definition demo_resume :: resume_args where
  "demo_resume = \<lparr>rp_of = ''W5'', rp_actor = ''claude'', rp_sid = ''claude:a'', rp_version = 0, rp_reason = ''ready'',
     rp_refs = [''r''], rp_operation = ''op-demo-0005''\<rparr>"

definition demo_parked :: work_row where
  "demo_parked = (demo_work ''W5'' None ''paused'')\<lparr>w_next_step := Some ''go on'', w_resume_when := Some ''tomorrow''\<rparr>"

definition demo_parked_db :: db where
  "demo_parked_db = demo_db\<lparr>d_works := [demo_parked, demo_work ''W2'' None ''running'', demo_work ''W3'' None ''done'',
     demo_work ''W4'' None ''running'']\<rparr>"

lemma demo_parked_wf: "wf_db demo_parked_db"
  by (simp add: demo_parked_db_def demo_parked_def demo_defs wf_db_defs unique_where_def event_log_ok_def held_def held_statuses_def)

text \<open>For the planner: timestamps are decimal seconds, two lanes of which one carries load.\<close>

definition demo_clock :: clock_text where
  "demo_clock = \<lparr>read_utc = (\<lambda>s. Some (of_nat (nat_of_digits s))), show_utc = (\<lambda>t. digits_of (nat \<lfloor>t\<rfloor>))\<rparr>"

definition demo_route_work :: work_snap where
  "demo_route_work = \<lparr>ws_id = ''W5'', ws_version = 0, ws_assignee = None, ws_tier = ''T0'', ws_author = Some ''operator'',
     ws_caps = [''code''], ws_deps = [], ws_allowed = [], ws_claim = None, ws_run = None\<rparr>"

definition demo_lane :: "string \<Rightarrow> rat \<Rightarrow> lane_snap" where
  "demo_lane lane load = \<lparr>ls_lane = lane, ls_available = True, ls_auth = True, ls_caps = [''code''], ls_load = load, ls_capacity = 2\<rparr>"

definition demo_usage :: "string \<Rightarrow> rat \<Rightarrow> usage_snap" where
  "demo_usage lane headroom = \<lparr>us_lane = lane, us_headroom = headroom, us_limit = 10, us_complete = True, us_observed = ''11''\<rparr>"

definition demo_policy :: routing_policy where
  "demo_policy = \<lparr>ry_version = ''v1'', ry_sha = replicate 64 (CHR ''a''), ry_age = 5, ry_weights = default_weights\<rparr>"

end
