(* ===== verification/RunEvents.thy ===== *)
theory RunEvents
  imports Events
begin

text \<open>
  The run event log of run_events.py: an append-only table beside the coordination database, the
  writer with its idempotency keys and sequence numbers, the typed writers above it, the reader, and
  the memory store that stands in for the table. A failed write leaves the rows as they were; that
  it may have created the empty table is not tracked.
\<close>

section \<open>Payloads\<close>

definition max_event_json_bytes :: nat where
  "max_event_json_bytes = 12000"

definition preserved_oversize_keys :: "string list" where
  "preserved_oversize_keys = [''adapter'', ''call_id'', ''caller'', ''id'', ''idempotency_key'', ''logical_usage_id'',
     ''measurement_kind'', ''model'', ''source'', ''source_reliability'', ''tokens'', ''tool_call_id'', ''tool_name'', ''usage_id'']"

text \<open>\<open>value or {}\<close> for None, and \<open>str\<close> of any value.\<close>

definition none_as_empty :: "json \<Rightarrow> json" where
  "none_as_empty j = (if j = JNull then JObj [] else j)"

definition str_of :: "lib \<Rightarrow> json \<Rightarrow> string" where
  "str_of L j = (case j of JStr s \<Rightarrow> s | JRaw s \<Rightarrow> s | _ \<Rightarrow> py_str L j)"

definition run_json :: "lib \<Rightarrow> json \<Rightarrow> string" where
  "run_json L j = dumps L (none_as_empty j)"

definition bound_event_payload :: "lib \<Rightarrow> string \<Rightarrow> nat \<Rightarrow> json \<Rightarrow> json" where
  "bound_event_payload L name limit v0 =
     (let v = none_as_empty v0; raw = run_json L v;
          mark = [(''_truncated'', JBool True), (''_truncation_field'', JStr name),
                  (''_original_bytes'', JInt (int (length raw))), (''_sha256'', JStr (sha256 L raw))]
      in if length raw \<le> limit then v
         else case v of
             JObj kvs \<Rightarrow> JObj (map (\<lambda>k. (k, field kvs k))
                 (filter (\<lambda>k. has_key kvs k \<and> length (run_json L (field kvs k)) \<le> max 512 (limit div 4)) preserved_oversize_keys) @
               mark @ [(''_keys_sample'', JList (map JStr (take 50 (sort (map fst kvs)))))])
           | JList xs \<Rightarrow> JObj (mark @ [(''_list_length'', JInt (int (length xs))),
               (''items_sample'', JList (map (\<lambda>x. JStr (take 200 (str_of L x))) (take 5 xs)))])
           | _ \<Rightarrow> JObj (mark @ [(''text_sample'', JStr (take (min 1000 (limit div 2)) (str_of L v)))]))"

definition storage_json :: "lib \<Rightarrow> string \<Rightarrow> json \<Rightarrow> string" where
  "storage_json L name v = run_json L (bound_event_payload L name max_event_json_bytes v)"

section \<open>The table\<close>

record run_event =
  v_id :: int
  v_work :: string
  v_run :: string
  v_thread :: "string option"
  v_session :: "string option"
  v_seq :: int
  v_category :: string
  v_type :: string
  v_content :: string
  v_metadata :: string
  v_key :: "string option"
  v_created :: seconds

record run_log =
  rl_rows :: "run_event list"
  rl_next :: int

definition empty_run_log :: run_log where
  "empty_run_log = \<lparr>rl_rows = [], rl_next = 1\<rparr>"

definition allowed_categories :: "string list" where
  "allowed_categories = [''lifecycle'', ''message'', ''tool'', ''token'', ''middleware'', ''artifact'', ''trace'', ''error'', ''security'']"

text \<open>The unique indexes \<open>ux_run_events_thread_seq\<close> and \<open>ux_run_events_idempotency\<close>.\<close>

definition insert_run_event :: "run_event \<Rightarrow> run_log \<Rightarrow> err + (run_log \<times> int)" where
  "insert_run_event e l =
     (if v_thread e \<noteq> None \<and> list_ex (\<lambda>r. v_thread r = v_thread e \<and> v_seq r = v_seq e) (rl_rows l)
      then Inl (IntegrityIdempotencyKey ''ux_run_events_thread_seq'')
      else if v_key e \<noteq> None \<and> list_ex (\<lambda>r. v_key r = v_key e) (rl_rows l)
      then Inl (IntegrityIdempotencyKey ''ux_run_events_idempotency'')
      else Inr (\<lparr>rl_rows = rl_rows l @ [e\<lparr>v_id := rl_next l\<rparr>], rl_next = rl_next l + 1\<rparr>, rl_next l))"

definition max_seq :: "run_event list \<Rightarrow> int" where
  "max_seq rs = foldl max 0 (map v_seq rs)"

definition next_seq :: "string \<Rightarrow> string option \<Rightarrow> run_log \<Rightarrow> int" where
  "next_seq run thread l =
     (if otext thread \<noteq> [] then max_seq (filter (\<lambda>r. v_thread r = thread) (rl_rows l)) + 1
      else max_seq (filter (\<lambda>r. v_run r = run \<and> v_thread r = None) (rl_rows l)) + 1)"

section \<open>Writing\<close>

record run_input =
  i_work :: string
  i_run :: string
  i_category :: string
  i_type :: string
  i_content :: json
  i_metadata :: json
  i_thread :: "string option"
  i_session :: "string option"
  i_key :: "string option"

text \<open>\<open>_flag_enabled\<close> and \<open>_writer_enabled_and_source\<close>: the flag of the caller, else the environment.\<close>

definition flag_on :: "string \<Rightarrow> bool" where
  "flag_on raw \<longleftrightarrow> lower (strip raw) \<notin> {''0'', ''false'', ''no'', ''off'', ''''}"

definition writer_enabled :: "string option \<Rightarrow> bool option \<Rightarrow> bool" where
  "writer_enabled env enabled =
     (case enabled of Some b \<Rightarrow> b | None \<Rightarrow> if clean env \<noteq> [] then flag_on (otext env) else True)"

definition validate_event_args :: "run_input \<Rightarrow> err + unit" where
  "validate_event_args e =
     (if strip (i_work e) = [] then Inl (ValueErr ''work_id is required'')
      else if strip (i_run e) = [] then Inl (ValueErr ''run_id is required'')
      else if i_category e \<notin> set allowed_categories then Inl (ValueErr ''category'')
      else if strip (i_type e) = [] then Inl (ValueErr ''event_type is required'')
      else Inr ())"

definition stored_key :: "string option \<Rightarrow> string option" where
  "stored_key k = (if otext k = [] then None else Some (strip (otext k)))"

definition run_event_of :: "lib \<Rightarrow> run_input \<Rightarrow> int \<Rightarrow> seconds \<Rightarrow> run_event" where
  "run_event_of L e sq t =
     \<lparr>v_id = 0, v_work = i_work e, v_run = i_run e, v_thread = i_thread e, v_session = i_session e, v_seq = sq,
      v_category = i_category e, v_type = i_type e, v_content = storage_json L ''content'' (i_content e),
      v_metadata = storage_json L ''metadata'' (i_metadata e), v_key = stored_key (i_key e), v_created = t\<rparr>"

definition keyed_event :: "run_log \<Rightarrow> string option \<Rightarrow> run_event option" where
  "keyed_event l k = (if otext k = [] then None else find (\<lambda>r. v_key r = k) (rl_rows l))"

definition record_run_event ::
  "lib \<Rightarrow> string option \<Rightarrow> bool option \<Rightarrow> run_input \<Rightarrow> seconds \<Rightarrow> run_log \<Rightarrow> err + (run_log \<times> int option)" where
  "record_run_event L env enabled e t l =
     (if \<not> writer_enabled env enabled then Inr (l, None)
      else bindE (validate_event_args e) (\<lambda>_.
        case keyed_event l (stored_key (i_key e)) of
          Some r \<Rightarrow> Inr (l, Some (v_id r))
        | None \<Rightarrow> map_sum id (\<lambda>(l', i). (l', Some i))
            (insert_run_event (run_event_of L e (next_seq (i_run e) (i_thread e) l) t) l)))"

section \<open>Typed writers\<close>

definition required_text :: "string \<Rightarrow> string \<Rightarrow> err + string" where
  "required_text s name = (if strip s = [] then Inl (ValueErr name) else Inr (strip s))"

text \<open>\<open>{**content}\<close> after the tool name; a value that is not an object is wrapped.\<close>

definition tool_payload :: "string \<Rightarrow> json \<Rightarrow> json" where
  "tool_payload tool content =
     (let kvs = (case content of JObj kvs \<Rightarrow> kvs | _ \<Rightarrow> [(''content'', content)])
      in JObj (if has_key kvs ''tool_name'' then kvs else (''tool_name'', JStr tool) # kvs))"

definition tool_input :: "string \<Rightarrow> string \<Rightarrow> run_input \<Rightarrow> run_input" where
  "tool_input tool phase e = e\<lparr>i_category := ''tool'',
     i_type := ''tool.'' @ (if strip phase = [] then ''event'' else strip phase), i_content := tool_payload tool (i_content e)\<rparr>"

definition artifact_input :: "string \<Rightarrow> string \<Rightarrow> run_input \<Rightarrow> run_input" where
  "artifact_input path kind e = e\<lparr>i_category := ''artifact'', i_type := ''artifact.created'',
     i_content := JObj [(''path'', JStr path), (''artifact_kind'', JStr kind)]\<rparr>"

definition budget_input :: "string \<Rightarrow> json \<Rightarrow> json \<Rightarrow> run_input \<Rightarrow> run_input" where
  "budget_input name used limit e = e\<lparr>i_category := ''trace'', i_type := ''budget.usage'',
     i_content := JObj [(''budget_name'', JStr name), (''used'', used), (''limit'', limit)]\<rparr>"

definition token_input :: "string \<Rightarrow> string \<Rightarrow> int \<Rightarrow> run_input \<Rightarrow> run_input" where
  "token_input model caller tokens e = e\<lparr>i_category := ''token'', i_type := ''token.usage'',
     i_content := JObj [(''model'', JStr model), (''caller'', JStr caller), (''tokens'', JInt tokens)]\<rparr>"

definition record_tool_event where
  "record_tool_event L env enabled tool phase e = record_run_event L env enabled (tool_input tool phase e)"

definition record_artifact_event where
  "record_artifact_event L env enabled path kind e = record_run_event L env enabled (artifact_input path kind e)"

definition record_budget_event where
  "record_budget_event L env enabled name used limit e = record_run_event L env enabled (budget_input name used limit e)"

definition record_token_usage where
  "record_token_usage L env enabled model caller tokens e = record_run_event L env enabled (token_input model caller tokens e)"

section \<open>Lifecycle events\<close>

record lifecycle_args =
  la_work :: string
  la_session :: string
  la_actor :: string
  la_verb :: string
  la_action :: string
  la_status :: string
  la_run :: "string option"
  la_step :: "string option"
  la_claim :: "string option"
  la_source :: string
  la_source_event :: json
  la_metadata :: json

definition coord_lifecycle_key :: "lib \<Rightarrow> lifecycle_args \<Rightarrow> err + string" where
  "coord_lifecycle_key L a =
     bindE (required_text (la_action a) ''action'') (\<lambda>action.
     bindE (required_text (la_session a) ''session_id'') (\<lambda>session.
     bindE (required_text (la_verb a) ''verb'') (\<lambda>verb.
     bindE (required_text (la_work a) ''work_id'') (\<lambda>work.
       Inr (''coord_lifecycle:v1:'' @ take 32 (sha256 L (run_json L
         (JObj [(''action'', JStr action), (''claim_id'', JStr (otext (la_claim a))), (''session_id'', JStr session),
           (''source_event_id'', JStr (str_or_empty L (la_source_event a))), (''verb'', JStr verb),
           (''work_id'', JStr work)]))))))))"

definition object_or_empty :: "json \<Rightarrow> (string \<times> json) list" where
  "object_or_empty j = (case j of JObj kvs \<Rightarrow> kvs | _ \<Rightarrow> [])"

definition lifecycle_input :: "lib \<Rightarrow> lifecycle_args \<Rightarrow> err + run_input" where
  "lifecycle_input L a =
     bindE (required_text (la_work a) ''work_id'') (\<lambda>work.
     bindE (required_text (la_session a) ''session_id'') (\<lambda>session.
     bindE (required_text (la_verb a) ''verb'') (\<lambda>verb.
     bindE (required_text (la_action a) ''action'') (\<lambda>action.
     bindE (required_text (la_actor a) ''actor'') (\<lambda>actor.
     bindE (required_text (la_status a) ''status'') (\<lambda>status.
     bindE (coord_lifecycle_key L a) (\<lambda>key.
       Inr \<lparr>i_work = work, i_run = (if otext (la_run a) = [] then ''coord:'' @ session @ '':'' @ work else otext (la_run a)),
         i_category = ''lifecycle'', i_type = ''coord.'' @ verb,
         i_content = JObj [(''actor'', JStr actor), (''work_id'', JStr work), (''verb'', JStr verb), (''action'', JStr action),
           (''status'', JStr status), (''claim_id'', jopt (la_claim a)), (''source'', JStr (la_source a)),
           (''source_event_id'', la_source_event a), (''step'', JStr (take 300 (otext (la_step a))))],
         i_metadata = JObj (fold (\<lambda>(k, v). set_key k v)
           [(''adapter'', JStr ''coord_lifecycle.v1''), (''append_only_evidence'', JBool True), (''replaces_coord_events'', JBool False),
            (''mutates_lifecycle_state'', JBool False)] (object_or_empty (la_metadata a))),
         i_thread = Some session, i_session = Some session, i_key = Some key\<rparr>)))))))"

definition record_coord_lifecycle_event ::
  "lib \<Rightarrow> string option \<Rightarrow> bool option \<Rightarrow> lifecycle_args \<Rightarrow> seconds \<Rightarrow> run_log \<Rightarrow> err + (run_log \<times> int option)" where
  "record_coord_lifecycle_event L env enabled a t l =
     bindE (lifecycle_input L a) (\<lambda>e. record_run_event L env enabled e t l)"

section \<open>Measured token usage\<close>

definition token_usage_key :: "lib \<Rightarrow> string \<Rightarrow> string \<Rightarrow> string \<Rightarrow> err + string" where
  "token_usage_key L work source usage =
     bindE (required_text usage ''logical_usage_id'') (\<lambda>u.
     bindE (required_text source ''source'') (\<lambda>s.
     bindE (required_text work ''work_id'') (\<lambda>w.
       Inr (''token_usage:v1:'' @ take 32 (sha256 L (run_json L
         (JObj [(''logical_usage_id'', JStr u), (''source'', JStr s), (''work_id'', JStr w)])))))))"

record usage_args =
  ua_work :: string
  ua_run :: string
  ua_caller :: string
  ua_model :: string
  ua_tokens :: int
  ua_source :: string
  ua_usage :: string
  ua_metadata :: json
  ua_thread :: "string option"
  ua_session :: "string option"
  ua_reliability :: string

record usage_result =
  ur_enabled :: bool
  ur_deduped :: bool
  ur_event :: "int option"
  ur_inserted :: bool
  ur_key :: string

definition extra_metadata :: "json \<Rightarrow> (string \<times> json) list" where
  "extra_metadata j = (case j of JNull \<Rightarrow> [] | JObj kvs \<Rightarrow> kvs | _ \<Rightarrow> [(''extra_metadata'', j)])"

definition clean_usage :: "usage_args \<Rightarrow> err + usage_args" where
  "clean_usage a =
     bindE (required_text (ua_work a) ''work_id'') (\<lambda>work.
     bindE (required_text (ua_run a) ''run_id'') (\<lambda>run.
     bindE (required_text (ua_caller a) ''caller'') (\<lambda>caller.
     bindE (required_text (ua_model a) ''model'') (\<lambda>model.
     bindE (required_text (ua_source a) ''source'') (\<lambda>source.
     bindE (required_text (ua_usage a) ''logical_usage_id'') (\<lambda>usage.
       if ua_tokens a \<le> 0 then Inl (ValueErr ''tokens must be > 0'')
       else if lower (strip (ua_reliability a)) \<noteq> ''exact'' then Inl (ValueErr ''exact token usage'')
       else Inr (a\<lparr>ua_work := work, ua_run := run, ua_caller := caller, ua_model := model, ua_source := source,
         ua_usage := usage\<rparr>)))))))"

definition usage_metadata :: "usage_args \<Rightarrow> json" where
  "usage_metadata a = JObj (fold (\<lambda>(k, v). set_key k v)
     [(''adapter'', JStr ''run_events_measured_token_usage.v1''), (''logical_usage_id'', JStr (ua_usage a)),
      (''measurement_kind'', JStr ''measured''), (''source'', JStr (ua_source a)), (''source_reliability'', JStr ''exact'')]
     (extra_metadata (ua_metadata a)))"

definition usage_input :: "usage_args \<Rightarrow> string \<Rightarrow> run_input" where
  "usage_input a key = \<lparr>i_work = ua_work a, i_run = ua_run a, i_category = [], i_type = [], i_content = JNull,
     i_metadata = usage_metadata a, i_thread = ua_thread a, i_session = ua_session a, i_key = Some key\<rparr>"

definition record_measured_token_usage ::
  "lib \<Rightarrow> string option \<Rightarrow> bool option \<Rightarrow> usage_args \<Rightarrow> seconds \<Rightarrow> run_log \<Rightarrow> err + (run_log \<times> usage_result)" where
  "record_measured_token_usage L env enabled a0 t l =
     bindE (clean_usage a0) (\<lambda>a.
     bindE (token_usage_key L (ua_work a) (ua_source a) (ua_usage a)) (\<lambda>key.
       if \<not> writer_enabled env enabled
       then Inr (l, \<lparr>ur_enabled = False, ur_deduped = False, ur_event = None, ur_inserted = False, ur_key = key\<rparr>)
       else case find (\<lambda>r. v_key r = Some key) (rl_rows l) of
           Some r \<Rightarrow> Inr (l, \<lparr>ur_enabled = True, ur_deduped = True, ur_event = Some (v_id r), ur_inserted = False, ur_key = key\<rparr>)
         | None \<Rightarrow> bindE (record_token_usage L env (Some True) (ua_model a) (ua_caller a) (ua_tokens a) (usage_input a key) t l)
             (\<lambda>(l', i). Inr (l', \<lparr>ur_enabled = True, ur_deduped = False, ur_event = i, ur_inserted = (i \<noteq> None), ur_key = key\<rparr>))))"

definition agent_source :: "string \<Rightarrow> string option" where
  "agent_source agent = (if agent = ''codex'' then Some ''codex_coord'' else if agent = ''claude'' then Some ''claude_coord'' else None)"

definition record_agent_usage ::
  "lib \<Rightarrow> string option \<Rightarrow> bool option \<Rightarrow> string \<Rightarrow> int \<Rightarrow> int \<Rightarrow> usage_args \<Rightarrow> seconds \<Rightarrow> run_log
     \<Rightarrow> err + (run_log \<times> usage_result)" where
  "record_agent_usage L env enabled agent input_tokens output_tokens a t l =
     (case agent_source (lower (strip agent)) of
        None \<Rightarrow> Inl (ValueErr ''agent'')
      | Some source \<Rightarrow>
          if input_tokens < 0 \<or> output_tokens < 0 then Inl (ValueErr ''tokens must be >= 0'')
          else if input_tokens + output_tokens \<le> 0 then Inl (ValueErr ''total measured tokens must be > 0'')
          else record_measured_token_usage L env enabled
            (a\<lparr>ua_caller := source, ua_source := source, ua_tokens := input_tokens + output_tokens, ua_reliability := ''exact'',
               ua_metadata := JObj (fold (\<lambda>(k, v). set_key k v)
                 [(''agent'', JStr (lower (strip agent))), (''input_tokens'', JInt input_tokens), (''output_tokens'', JInt output_tokens)]
                 (extra_metadata (ua_metadata a)))\<rparr>) t l)"

section \<open>Reading\<close>

definition canonical_run_id :: "string option \<Rightarrow> string option" where
  "canonical_run_id run =
     (let raw = clean run; pre = ''run:sidecar:'' in
      if raw = [] then None
      else if prefix pre raw
      then (let suffix = strip (drop (length pre) raw) in if suffix \<noteq> [] then Some (''job:'' @ suffix) else Some raw)
      else Some raw)"

definition run_id_aliases :: "string option \<Rightarrow> string list" where
  "run_id_aliases run =
     (let raw = clean run; side = ''run:sidecar:''; job = ''job:'' in
      if raw = [] then []
      else if prefix side raw
      then (let suffix = strip (drop (length side) raw) in sort (remdups (raw # (if suffix \<noteq> [] then [job @ suffix] else []))))
      else if prefix job raw
      then (let suffix = strip (drop (length job) raw) in sort (remdups (raw # (if suffix \<noteq> [] then [side @ suffix] else []))))
      else [raw])"

record run_query =
  q_thread :: "string option"
  q_run :: "string option"
  q_work :: "string option"
  q_category :: "string option"
  q_type :: "string option"
  q_after :: "int option"
  q_limit :: int

text \<open>An absent or empty text puts no condition.\<close>

definition wanted :: "string option \<Rightarrow> string option \<Rightarrow> bool" where
  "wanted q x \<longleftrightarrow> otext q = [] \<or> x = q"

definition selects :: "run_query \<Rightarrow> run_event \<Rightarrow> bool" where
  "selects q r \<longleftrightarrow> wanted (q_thread q) (v_thread r) \<and>
     (otext (q_run q) = [] \<or> v_run r \<in> set (run_id_aliases (q_run q))) \<and>
     wanted (q_work q) (Some (v_work r)) \<and> wanted (q_category q) (Some (v_category r)) \<and>
     wanted (q_type q) (Some (v_type r)) \<and> (case q_after q of None \<Rightarrow> True | Some i \<Rightarrow> i < v_id r)"

definition ordered :: "run_query \<Rightarrow> run_event list \<Rightarrow> run_event list" where
  "ordered q rs =
     (if otext (q_thread q) \<noteq> [] then sort_key (\<lambda>r. (v_seq r, v_id r)) rs
      else if otext (q_run q) \<noteq> [] \<and> 1 < length (run_id_aliases (q_run q)) then sort_key (\<lambda>r. (v_created r, v_id r)) rs
      else if otext (q_run q) \<noteq> [] then sort_key (\<lambda>r. (v_seq r, v_id r)) rs
      else sort_key v_id rs)"

text \<open>SQLite reads a negative limit as no limit.\<close>

definition limited :: "int \<Rightarrow> 'a list \<Rightarrow> 'a list" where
  "limited n xs = (if n < 0 then xs else take (nat n) xs)"

definition list_run_events :: "run_query \<Rightarrow> run_log \<Rightarrow> run_event list" where
  "list_run_events q l = limited (q_limit q) (ordered q (filter (selects q) (rl_rows l)))"

section \<open>The memory store\<close>

record memory_store =
  ms_rows :: "run_event list"
  ms_next :: int
  ms_seq :: "((string \<times> string option) \<times> int) list"

definition empty_memory_store :: memory_store where
  "empty_memory_store = \<lparr>ms_rows = [], ms_next = 1, ms_seq = []\<rparr>"

definition memory_scope :: "run_input \<Rightarrow> string \<times> string option" where
  "memory_scope e = (if otext (i_thread e) \<noteq> [] then otext (i_thread e) else i_run e, i_thread e)"

definition memory_append :: "lib \<Rightarrow> run_input \<Rightarrow> memory_store \<Rightarrow> memory_store \<times> int" where
  "memory_append L e m =
     (let sq = (case map_of (ms_seq m) (memory_scope e) of None \<Rightarrow> 0 | Some n \<Rightarrow> n) + 1
      in (\<lparr>ms_rows = ms_rows m @ [(run_event_of L e sq (of_int (ms_next m)))\<lparr>v_id := ms_next m, v_key := i_key e\<rparr>],
           ms_next = ms_next m + 1, ms_seq = (memory_scope e, sq) # ms_seq m\<rparr>, ms_next m))"

definition memory_query :: "run_query \<Rightarrow> memory_store \<Rightarrow> run_event list" where
  "memory_query q m = take (nat (max 0 (q_limit q))) (sort_key v_id (filter (selects (q\<lparr>q_thread := None, q_work := None\<rparr>)) (ms_rows m)))"

text \<open>\<open>append_batch\<close>, the same for every store.\<close>

fun append_batch :: "('e \<Rightarrow> 's \<Rightarrow> err + ('s \<times> 'i)) \<Rightarrow> 'e list \<Rightarrow> 's \<Rightarrow> err + ('s \<times> 'i list)" where
  "append_batch put [] s = Inr (s, [])"
| "append_batch put (e # es) s = bindE (put e s) (\<lambda>(s1, i). bindE (append_batch put es s1) (\<lambda>(s2, ids). Inr (s2, i # ids)))"

end
