(* ===== verification/Loops.thy ===== *)
theory Loops
  imports RunEvents Completion
begin

text \<open>
  Loop contracts (loop_contracts.py): the checks of a contract, of a receipt and of a board row, and
  the bounded runner that iterates a step until a receipt, the done signal, the clock or the number
  of iterations stops it. An issue is its code and its severity; messages are for display.
\<close>

section \<open>Reading values\<close>

definition digit_groups :: "string \<Rightarrow> nat option" where
  "digit_groups s =
     (let gs = split_on CHR ''_'' s
      in if list_all (\<lambda>g. g \<noteq> [] \<and> list_all is_digit g) gs then Some (nat_of_digits (concat gs)) else None)"

text \<open>\<open>int(x)\<close>; None where it raises.\<close>

definition int_of_text :: "string \<Rightarrow> int option" where
  "int_of_text s0 =
     (case strip s0 of
        [] \<Rightarrow> None
      | c # s \<Rightarrow> if c = CHR ''-'' then map_option (\<lambda>n. - int n) (digit_groups s)
          else if c = CHR ''+'' then map_option int (digit_groups s) else map_option int (digit_groups (c # s)))"

definition truncated_int :: "rat \<Rightarrow> int" where
  "truncated_int q = (if 0 \<le> q then \<lfloor>q\<rfloor> else \<lceil>q\<rceil>)"

definition py_int :: "json \<Rightarrow> int option" where
  "py_int j = (case j of JInt i \<Rightarrow> Some i | JBool b \<Rightarrow> Some (if b then 1 else 0) | JFloat q \<Rightarrow> Some (truncated_int q)
     | JStr s \<Rightarrow> int_of_text s | JRaw s \<Rightarrow> int_of_text s | _ \<Rightarrow> None)"

text \<open>\<open>float(x)\<close>, where the reading of a decimal text is a library function.\<close>

definition py_float :: "(string \<Rightarrow> rat option) \<Rightarrow> json \<Rightarrow> rat option" where
  "py_float F j = (case j of JInt i \<Rightarrow> Some (of_int i) | JBool b \<Rightarrow> Some (if b then 1 else 0) | JFloat q \<Rightarrow> Some q
     | JStr s \<Rightarrow> F s | JRaw s \<Rightarrow> F s | _ \<Rightarrow> None)"

definition json_text :: "json \<Rightarrow> string option" where
  "json_text j = (case j of JStr s \<Rightarrow> Some s | _ \<Rightarrow> None)"

definition blank_json :: "json \<Rightarrow> bool" where
  "blank_json j \<longleftrightarrow> j = JNull \<or> j = JStr []"

text \<open>\<open>isinstance(x, str) and x.strip()\<close>.\<close>

definition solid_text :: "json \<Rightarrow> bool" where
  "solid_text j \<longleftrightarrow> clean (json_text j) \<noteq> []"

definition long_text :: "json \<Rightarrow> bool" where
  "long_text j \<longleftrightarrow> 1200 < length (otext (json_text j))"

section \<open>Vocabulary\<close>

definition allowed_loop_types :: "string list" where
  "allowed_loop_types = [''coord'', ''ops'', ''docs'', ''context'', ''runtime'', ''audit'', ''model'', ''product'']"

definition receipt_states :: "string list" where
  "receipt_states = allowed_terminal_states @ [''continue'']"

definition required_step_fields :: "string list" where
  "required_step_fields = [''observe'', ''choose'', ''act'', ''verify'', ''record'']"

definition loop_signal_terms :: "string list" where
  "loop_signal_terms = [''autonomous'', ''daemon'', ''digest'', ''every'', ''loop'', ''monitor'', ''queue'', ''recurring'', ''retry'',
     ''scheduled'', ''supervisor'', ''sync'', ''triage'', ''watcher'']"

definition high_signal_terms :: "string list" where
  "high_signal_terms = [''autonomous'', ''daemon'', ''loop'', ''recurring'', ''scheduled'', ''supervisor'', ''watcher'']"

definition dangerous_authority_terms :: "string list" where
  "dangerous_authority_terms = [''budget'', ''credential'', ''delete'', ''deploy'', ''destructive'', ''external send'', ''rm -rf'',
     ''send email'', ''token override'']"

definition approval_gate_terms :: "string list" where
  "approval_gate_terms = [''budget'', ''budget_halt_override'', ''credential_access'', ''destructive_command'', ''external_send'',
     ''production_deploy'']"

definition required_receipt_fields :: "string list" where
  "required_receipt_fields = [''work_id'', ''loop_id'', ''iteration'', ''terminal_state'', ''observed'', ''action'', ''verification'',
     ''artifact_refs'']"

type_synonym issue = "string \<times> string"

definition error_issue :: "string \<Rightarrow> issue" where
  "error_issue c = (c, ''error'')"

definition warn_issue :: "string \<Rightarrow> issue" where
  "warn_issue c = (c, ''warn'')"

definition has_errors :: "issue list \<Rightarrow> bool" where
  "has_errors xs \<longleftrightarrow> list_ex (\<lambda>i. snd i = ''error'') xs"

definition error_if :: "bool \<Rightarrow> string \<Rightarrow> issue list" where
  "error_if b c = (if b then [error_issue c] else [])"

definition warn_if :: "bool \<Rightarrow> string \<Rightarrow> issue list" where
  "warn_if b c = (if b then [warn_issue c] else [])"

text \<open>\<open>SLUG_RE\<close> with the length check.\<close>

definition slug_edge :: "char \<Rightarrow> bool" where
  "slug_edge c \<longleftrightarrow> is_digit c \<or> (let n = (of_char c :: nat) in 97 \<le> n \<and> n \<le> 122)"

definition is_slug :: "string \<Rightarrow> bool" where
  "is_slug s \<longleftrightarrow> 2 \<le> length s \<and> length s \<le> 80 \<and> slug_edge (hd s) \<and> slug_edge (last s) \<and>
     list_all (\<lambda>c. slug_edge c \<or> c = CHR ''-'') s"

definition validate_slug :: "json \<Rightarrow> string \<Rightarrow> issue list" where
  "validate_slug j name =
     (if \<not> solid_text j then [error_issue (''missing_'' @ name)]
      else error_if (\<not> is_slug (clean (json_text j))) (''invalid_'' @ name))"

section \<open>Contracts\<close>

fun texts_of :: "lib \<Rightarrow> json \<Rightarrow> string list" and texts_of_list :: "lib \<Rightarrow> json list \<Rightarrow> string list"
  and texts_of_fields :: "lib \<Rightarrow> (string \<times> json) list \<Rightarrow> string list" where
  "texts_of L (JObj kvs) = texts_of_fields L kvs"
| "texts_of L (JList xs) = texts_of_list L xs"
| "texts_of L JNull = []"
| "texts_of L j = [str_of L j]"
| "texts_of_list L [] = []"
| "texts_of_list L (x # xs) = texts_of L x @ texts_of_list L xs"
| "texts_of_fields L [] = []"
| "texts_of_fields L ((k, x) # kvs) = texts_of L x @ texts_of_fields L kvs"

definition text_blob :: "lib \<Rightarrow> pyrow \<Rightarrow> string" where
  "text_blob L c = lower (join_with '' '' (texts_of L (JObj c)))"

definition has_dangerous_authority :: "lib \<Rightarrow> pyrow \<Rightarrow> bool" where
  "has_dangerous_authority L c \<longleftrightarrow> list_ex (\<lambda>t. contains t (text_blob L c)) dangerous_authority_terms"

definition approval_gates_present :: "lib \<Rightarrow> pyrow \<Rightarrow> bool" where
  "approval_gates_present L c \<longleftrightarrow>
     (case field c ''approval_gates'' of
        JList gs \<Rightarrow> list_ex (\<lambda>g. lower (strip (str_of L g)) \<in> set approval_gate_terms) gs | _ \<Rightarrow> False)"

definition text_issues :: "pyrow \<Rightarrow> string \<Rightarrow> issue list" where
  "text_issues c name =
     (let v = field c name in
      if \<not> solid_text v then [error_issue (''missing_'' @ name)] else error_if (long_text v) (name @ ''_too_long''))"

definition step_issues :: "pyrow \<Rightarrow> string \<Rightarrow> issue list" where
  "step_issues c name =
     (case field c name of
        JList vs \<Rightarrow>
          if vs = [] then [error_issue (''missing_'' @ name)]
          else error_if (12 < length vs) (name @ ''_too_many'') @
            concat (map (\<lambda>v. if \<not> solid_text v then [error_issue (''invalid_'' @ name @ ''_step'')]
                             else error_if (long_text v) (name @ ''_step_too_long'')) vs)
      | _ \<Rightarrow> [error_issue (''missing_'' @ name)])"

definition stop_issues :: "pyrow \<Rightarrow> issue list" where
  "stop_issues c =
     (case field c ''stop_states'' of
        JObj (kv # kvs) \<Rightarrow>
          let keys = map fst (kv # kvs)
          in error_if (''success'' \<notin> set keys) ''missing_success_stop'' @
             error_if (list_all (\<lambda>k. k = ''success'') keys) ''missing_non_success_stop'' @
             error_if (list_ex (\<lambda>k. k \<notin> set allowed_terminal_states) keys) ''invalid_stop_state''
      | _ \<Rightarrow> [error_issue ''missing_stop_states''])"

definition bound_issues :: "pyrow \<Rightarrow> issue list" where
  "bound_issues c =
     warn_if ((case field c ''limits'' of JObj ls \<Rightarrow> blank_json (field ls ''max_iterations'') | _ \<Rightarrow> True) \<and>
       \<not> (case field c ''stop_states'' of JObj ss \<Rightarrow> has_key ss ''stagnated'' | _ \<Rightarrow> False)) ''unbounded_loop''"

definition evidence_issues :: "lib \<Rightarrow> pyrow \<Rightarrow> issue list" where
  "evidence_issues L c =
     (case field c ''evidence'' of
        JObj e \<Rightarrow>
          warn_if (case field e ''required_artifacts'' of
            JList as \<Rightarrow> as \<noteq> [] \<and> ''done_signal'' \<notin> set (map (str_of L) as) | _ \<Rightarrow> False) ''weak_success_gate'' @
          warn_if (case field e ''required_commands'' of JList cs \<Rightarrow> cs = [] | _ \<Rightarrow> True) ''missing_verify_command''
      | _ \<Rightarrow> [warn_issue ''missing_evidence''])"

text \<open>A loop type that is a list or an object cannot be looked up in a set: Python raises.\<close>

definition loop_type_issues :: "pyrow \<Rightarrow> err + issue list" where
  "loop_type_issues c =
     (case field c ''loop_type'' of
        JList _ \<Rightarrow> Inl (ValueErr ''unhashable loop_type'')
      | JObj _ \<Rightarrow> Inl (ValueErr ''unhashable loop_type'')
      | JStr s \<Rightarrow> Inr (error_if (s \<notin> set allowed_loop_types) ''invalid_loop_type'')
      | _ \<Rightarrow> Inr [error_issue ''invalid_loop_type''])"

definition validate_loop_contract :: "lib \<Rightarrow> json \<Rightarrow> err + issue list" where
  "validate_loop_contract L j =
     (case j of
        JObj c \<Rightarrow> bindE (loop_type_issues c) (\<lambda>types. Inr (
          error_if (\<not> json_eq_int (field c ''schema_version'') 1) ''invalid_schema_version'' @
          validate_slug (field c ''loop_id'') ''loop_id'' @ types @
          text_issues c ''purpose'' @ text_issues c ''use_when'' @
          concat (map (step_issues c) required_step_fields) @ stop_issues c @ bound_issues c @
          warn_if (has_dangerous_authority L c \<and> \<not> approval_gates_present L c) ''unsafe_authority'' @
          evidence_issues L c))
      | _ \<Rightarrow> Inr [error_issue ''invalid_loop_contract_schema''])"

section \<open>Receipts\<close>

definition normalized_terminal_state :: "lib \<Rightarrow> json \<Rightarrow> string" where
  "normalized_terminal_state L j = lower (strip (str_or_empty L j))"

definition receipt_text_issues :: "pyrow \<Rightarrow> string \<Rightarrow> issue list" where
  "receipt_text_issues r name =
     (let v = field r name in
      if \<not> solid_text v then [error_issue (''missing_receipt_'' @ name)]
      else error_if (long_text v) (''receipt_'' @ name @ ''_too_long''))"

definition refs_issues :: "json \<Rightarrow> issue list" where
  "refs_issues j =
     (case j of
        JList rs \<Rightarrow> if 20 < length rs then [error_issue ''receipt_artifact_refs_too_many'']
          else error_if (list_ex (\<lambda>r. \<not> solid_text r) rs) ''invalid_receipt_artifact_ref''
      | _ \<Rightarrow> [error_issue ''invalid_receipt_artifact_refs''])"

definition validate_loop_receipt :: "lib \<Rightarrow> pyrow \<Rightarrow> issue list" where
  "validate_loop_receipt L r =
     concat (map (\<lambda>f. error_if (\<not> has_key r f) (''missing_receipt_'' @ f)) required_receipt_fields) @
     validate_slug (field r ''loop_id'') ''loop_id'' @
     error_if (strip (str_or_empty L (field r ''work_id'')) = []) ''missing_receipt_work_id'' @
     error_if (normalized_terminal_state L (field r ''terminal_state'') \<notin> set receipt_states) ''invalid_receipt_terminal_state'' @
     (case py_int (field r ''iteration'') of
        None \<Rightarrow> [error_issue ''invalid_receipt_iteration'']
      | Some i \<Rightarrow> error_if (i < 0 \<or> 1000 < i) ''invalid_receipt_iteration'') @
     concat (map (receipt_text_issues r) [''observed'', ''action'', ''verification'']) @
     refs_issues (field r ''artifact_refs'')"

definition receipt_input :: "lib \<Rightarrow> pyrow \<Rightarrow> string option \<Rightarrow> string option \<Rightarrow> run_input" where
  "receipt_input L r run session =
     (let work = str_of L (field r ''work_id''); loop = str_of L (field r ''loop_id'');
          event_run = (if otext run = [] then ''loop:'' @ loop @ '':'' @ work else otext run);
          i = (case py_int (field r ''iteration'') of None \<Rightarrow> 0 | Some i \<Rightarrow> i);
          short = (\<lambda>k. JStr (take 1200 (str_or_empty L (field r k))))
      in \<lparr>i_work = work, i_run = event_run, i_category = ''trace'', i_type = ''loop.receipt'',
          i_content = JObj [(''work_id'', JStr work), (''loop_id'', JStr loop), (''iteration'', JInt i),
            (''terminal_state'', JStr (normalized_terminal_state L (field r ''terminal_state''))),
            (''observed'', short ''observed''), (''action'', short ''action''), (''verification'', short ''verification''),
            (''artifact_refs'', JList (map (\<lambda>x. JStr (str_of L x)) (case field r ''artifact_refs'' of JList xs \<Rightarrow> take 20 xs | _ \<Rightarrow> [])))],
          i_metadata = JObj [(''adapter'', JStr ''loop_contracts.receipt.v1''), (''authority'', JStr ''append_only_evidence''),
            (''auto_done_enabled'', JBool False), (''mutates_coord_state'', JBool False)],
          i_thread = None, i_session = session,
          i_key = Some (''loop-receipt:'' @ work @ '':'' @ loop @ '':'' @ event_run @ '':'' @ int_text i)\<rparr>)"

definition record_loop_receipt_event ::
  "lib \<Rightarrow> string option \<Rightarrow> bool option \<Rightarrow> pyrow \<Rightarrow> string option \<Rightarrow> string option \<Rightarrow> seconds \<Rightarrow> run_log
     \<Rightarrow> err + (run_log \<times> int option)" where
  "record_loop_receipt_event L env enabled r run session t l =
     (if has_errors (validate_loop_receipt L r) then Inl (ValueErr ''invalid loop receipt'')
      else record_run_event L env enabled (receipt_input L r run session) t l)"

section \<open>Rows of the board\<close>

text \<open>\<open>parse_jsonish\<close>: None where \<open>json.loads\<close> raises.\<close>

definition parse_jsonish :: "lib \<Rightarrow> json \<Rightarrow> json option" where
  "parse_jsonish L j = (case j of JStr s \<Rightarrow> if strip s = [] then Some JNull else loads L (strip s) | _ \<Rightarrow> Some j)"

definition contract_from_value :: "lib \<Rightarrow> json \<Rightarrow> pyrow option \<times> issue list" where
  "contract_from_value L j =
     (case parse_jsonish L j of
        None \<Rightarrow> (None, [error_issue ''invalid_loop_contract_json''])
      | Some JNull \<Rightarrow> (None, [])
      | Some (JObj c) \<Rightarrow> (Some c, [])
      | Some _ \<Rightarrow> (None, [error_issue ''invalid_loop_contract_schema'']))"

definition acceptance_with_issues :: "lib \<Rightarrow> pyrow \<Rightarrow> bool \<Rightarrow> pyrow \<times> issue list" where
  "acceptance_with_issues L row warn_invalid =
     (let v = field row ''acceptance_json'' in
      if blank_json v then ([], [])
      else case parse_jsonish L v of
          None \<Rightarrow> ([], warn_if warn_invalid ''invalid_acceptance_json'')
        | Some JNull \<Rightarrow> ([], [])
        | Some (JObj a) \<Rightarrow> (a, [])
        | Some _ \<Rightarrow> ([], warn_if warn_invalid ''invalid_acceptance_json''))"

definition row_text_keys :: "string list" where
  "row_text_keys = [''id'', ''roadmap_id'', ''work_id'', ''title'', ''display'', ''note'', ''why'', ''context'', ''context_pack_ref'',
     ''done_signal'', ''assignee'', ''acceptance_json'']"

definition loop_row_text :: "lib \<Rightarrow> pyrow \<Rightarrow> string" where
  "loop_row_text L row = lower (join_with '' '' (map (\<lambda>k. str_or_empty L (field row k)) row_text_keys))"

text \<open>A whole word of the text, as between two \<open>\b\<close>; the flag says whether a word character came before.\<close>

fun whole_word_from :: "bool \<Rightarrow> string \<Rightarrow> string \<Rightarrow> bool" where
  "whole_word_from prev t [] = False"
| "whole_word_from prev t (c # s) =
     ((\<not> prev \<and> prefix t (c # s) \<and> (case drop (length t) (c # s) of [] \<Rightarrow> True | d # _ \<Rightarrow> \<not> is_word d)) \<or>
      whole_word_from (is_word c) t s)"

definition row_has_loop_signal :: "lib \<Rightarrow> pyrow \<Rightarrow> bool" where
  "row_has_loop_signal L row =
     (let hits = filter (\<lambda>t. whole_word_from False t (loop_row_text L row)) loop_signal_terms
      in list_ex (\<lambda>t. t \<in> set high_signal_terms) hits \<or> 2 \<le> length hits)"

definition extract_contract :: "lib \<Rightarrow> pyrow \<Rightarrow> pyrow option \<times> string option \<times> issue list" where
  "extract_contract L row =
     (if has_key row ''loop_contract''
      then (case contract_from_value L (field row ''loop_contract'') of (c, is1) \<Rightarrow> (c, None, is1))
      else if strip (str_or_empty L (field row ''loop_contract_ref'')) \<noteq> []
      then (None, Some (strip (str_of L (field row ''loop_contract_ref''))), [])
      else (case acceptance_with_issues L row (row_has_loop_signal L row) of (a, is1) \<Rightarrow>
        if has_key a ''loop_contract''
        then (case contract_from_value L (field a ''loop_contract'') of (c, is2) \<Rightarrow> (c, None, is1 @ is2))
        else (None, opt_text (strip (str_or_empty L (field a ''loop_contract_ref''))), is1)))"

definition loop_row_id :: "lib \<Rightarrow> pyrow \<Rightarrow> string" where
  "loop_row_id L row =
     strip (str_of L (jor (jor (jor (field row ''id'') (field row ''roadmap_id'')) (field row ''work_id'')) (JStr ''<unknown>'')))"

definition doctor_row :: "lib \<Rightarrow> pyrow \<Rightarrow> err + issue list" where
  "doctor_row L row =
     (case extract_contract L row of (c, ref, is1) \<Rightarrow>
        (case ref of
           Some r \<Rightarrow> Inr (is1 @ validate_slug (JStr r) ''loop_contract_ref'')
         | None \<Rightarrow>
             (case c of
                Some k \<Rightarrow> map_sum id (\<lambda>is2. is1 @ is2) (validate_loop_contract L (JObj k))
              | None \<Rightarrow> Inr (is1 @ warn_if (row_has_loop_signal L row) ''missing_loop_contract''))))"

definition claim_warning_for_row :: "lib \<Rightarrow> pyrow \<Rightarrow> err + string option" where
  "claim_warning_for_row L row =
     map_sum id (\<lambda>is1.
       let errors = filter (\<lambda>i. snd i = ''error'') is1 in
       if errors = [] then None
       else Some (''loop contract warning: '' @ loop_row_id L row @ '' schema issue(s): '' @
         join_with '', '' (map fst (take 3 errors)) @
         (if 3 < length errors then '', +'' @ digits_of (length errors - 3) @ '' more'' else []) @ ''; claim is not blocked''))
     (doctor_row L row)"

definition iter_backlog_rows :: "pyrow \<Rightarrow> pyrow list" where
  "iter_backlog_rows backlog =
     concat (map (\<lambda>k. case field backlog k of
         JList rs \<Rightarrow> List.map_filter (\<lambda>r. case r of JObj kvs \<Rightarrow> Some kvs | _ \<Rightarrow> None) rs | _ \<Rightarrow> [])
       [''today_live_jobs'', ''items''])"

definition find_backlog_row :: "lib \<Rightarrow> pyrow \<Rightarrow> string \<Rightarrow> pyrow option" where
  "find_backlog_row L backlog i = find (\<lambda>r. loop_row_id L r = i) (iter_backlog_rows backlog)"

section \<open>Scaffolds\<close>

text \<open>\<open>re.sub(r"[^a-z0-9]+", "-", s)\<close>.\<close>

fun dashed :: "bool \<Rightarrow> string \<Rightarrow> string" where
  "dashed dash [] = []"
| "dashed dash (c # s) =
     (if slug_edge c then c # dashed False s else if dash then dashed True s else CHR ''-'' # dashed True s)"

definition strip_of :: "char list \<Rightarrow> string \<Rightarrow> string" where
  "strip_of cs s = rev (dropWhile (\<lambda>c. c \<in> set cs) (rev (dropWhile (\<lambda>c. c \<in> set cs) s)))"

definition scaffold_loop_id :: "string \<Rightarrow> string \<Rightarrow> string" where
  "scaffold_loop_id kind title =
     (let base = strip_of ''-'' (dashed False (lower title))
      in strip_of ''-'' (take 64 (if base = [] then kind else base)) @ ''-v1'')"

definition json_texts :: "string list \<Rightarrow> json" where
  "json_texts xs = JList (map JStr xs)"

definition scaffold_contract :: "string \<Rightarrow> string \<Rightarrow> pyrow" where
  "scaffold_contract loop_type title =
     (let kind = (if loop_type \<in> set allowed_loop_types then loop_type else ''coord'') in
      [(''schema_version'', JInt 1), (''loop_id'', JStr (scaffold_loop_id kind title)), (''loop_type'', JStr kind),
       (''purpose'', JStr (''Run '' @ title @ '' as one bounded feedback cycle.'')),
       (''use_when'', JStr ''Use when this work is recurring or requires repeated observe/act/verify cycles.''),
       (''observe'', json_texts [''observe fresh coord/project state before acting'']),
       (''choose'', json_texts [''choose one bounded reversible action'']),
       (''act'', json_texts [''perform the chosen action without changing unrelated state'']),
       (''verify'', json_texts [''run coord doctor'']),
       (''record'', json_texts [''write the done_signal before marking work done'']),
       (''stop_states'', JObj [(''success'', JStr ''done_signal exists and verifier gates pass''),
          (''blocked'', JStr ''external input or unavailable dependency prevents progress''),
          (''stagnated'', JStr ''no measurable improvement after allowed attempts'')]),
       (''limits'', JObj [(''max_iterations'', JInt 3), (''max_wall_minutes'', JNull), (''max_cost_usd'', JNull)]),
       (''approval_gates'', json_texts [''destructive_command'', ''external_send'', ''credential_access'', ''production_deploy'',
          ''budget_halt_override'']),
       (''evidence'', JObj [(''required_artifacts'', json_texts [''done_signal'']), (''required_commands'', json_texts [''coord doctor'']),
          (''independent_review_required'', JBool False)])])"

section \<open>Repeated tool use\<close>

definition expensive_tool_terms :: "string list" where
  "expensive_tool_terms = [''exec_command'', ''pytest'', ''run_tests'', ''verify_jobs'', ''gpu_job'', ''run_tracked_job'', ''web.run'',
     ''imagegen'']"

definition dangerous_tool_terms :: "string list" where
  "dangerous_tool_terms = [''apply_patch'', ''git push'', ''deploy'', ''request_plugin_install'', ''rm -rf'', ''delete'']"

definition tool_risk :: "string \<Rightarrow> string" where
  "tool_risk tool =
     (let name = lower (strip tool);
          expensive = list_ex (\<lambda>t. contains t name) expensive_tool_terms;
          dangerous = list_ex (\<lambda>t. contains t name) dangerous_tool_terms
      in if expensive \<and> dangerous then ''expensive_or_dangerous'' else if dangerous then ''dangerous''
         else if expensive then ''expensive'' else ''ordinary'')"

text \<open>
  Events that name a tool and a row, as the dictionaries the table or a caller supplies; an event or a
  content that is not an object makes Python raise.
\<close>

definition tool_use :: "lib \<Rightarrow> json \<Rightarrow> err + (string \<times> string) option" where
  "tool_use L event =
     (case event of
        JObj row \<Rightarrow>
          if str_or_empty L (field row ''category'') \<noteq> ''tool'' then Inr None
          else (case (case loads L (str_of L (jor (field row ''content_json'') (JStr ''{}''))) of None \<Rightarrow> JObj [] | Some j \<Rightarrow> j) of
              JObj c \<Rightarrow>
                (let tool = strip (str_or_empty L (jor (field c ''tool_name'') (field c ''name'')));
                     work = strip (str_or_empty L (field row ''work_id''))
                 in Inr (if tool = [] \<or> work = [] then None else Some (work, tool)))
            | _ \<Rightarrow> Inl (ValueErr ''content is not an object''))
      | _ \<Rightarrow> Inl (ValueErr ''event is not an object''))"

fun tool_uses :: "lib \<Rightarrow> json list \<Rightarrow> err + (string \<times> string) list" where
  "tool_uses L [] = Inr []"
| "tool_uses L (r # rs) = bindE (tool_use L r) (\<lambda>x. bindE (tool_uses L rs) (\<lambda>xs. Inr (case x of None \<Rightarrow> xs | Some u \<Rightarrow> u # xs)))"

record suggestion =
  sg_work :: string
  sg_tool :: string
  sg_risk :: string
  sg_count :: nat

text \<open>\<open>Counter.most_common\<close>: by count, first met first among equals.\<close>

definition first_met :: "'a list \<Rightarrow> 'a list" where
  "first_met xs = rev (remdups (rev xs))"

definition most_common :: "'a list \<Rightarrow> ('a \<times> nat) list" where
  "most_common xs = sort_key (\<lambda>(_, n). - int n) (map (\<lambda>x. (x, count_list xs x)) (first_met xs))"

definition repeated_tools :: "(string \<times> string) list \<Rightarrow> suggestion list" where
  "repeated_tools us =
     map (\<lambda>((w, tool), n). \<lparr>sg_work = w, sg_tool = tool, sg_risk = tool_risk tool, sg_count = n\<rparr>)
       (filter (\<lambda>(_, n). 3 \<le> n) (most_common us))"

text \<open>The limit is tested after an entry was added, so at least one entry is reported.\<close>

definition loop_doctor_suggestions :: "lib \<Rightarrow> json list \<Rightarrow> int \<Rightarrow> err + suggestion list" where
  "loop_doctor_suggestions L rs limit = map_sum id (\<lambda>us. take (max 1 (nat limit)) (repeated_tools us)) (tool_uses L rs)"

section \<open>The bounded runner\<close>

text \<open>
  What surrounds a run: the step, which may fail, the test for the done signal and the clock. Each
  reads and changes a state of the world that the runner does not look into.
\<close>

record 's loop_world =
  lw_iterate :: "nat \<Rightarrow> pyrow list \<Rightarrow> 's \<Rightarrow> 's \<times> (err + pyrow)"
  lw_exists :: "string \<Rightarrow> 's \<Rightarrow> 's \<times> bool"
  lw_clock :: "'s \<Rightarrow> 's \<times> rat"

record loop_limits =
  ll_iterations :: nat
  ll_seconds :: rat
  ll_stagnation :: nat

definition positive_int :: "json \<Rightarrow> int \<Rightarrow> err + nat" where
  "positive_int j maximum =
     (case py_int j of
        None \<Rightarrow> Inl (ValueErr ''must be an integer'')
      | Some n \<Rightarrow> if n \<le> 0 \<or> maximum < n then Inl (ValueErr ''out of range'') else Inr (nat n))"

definition wall_seconds :: "(string \<Rightarrow> rat option) \<Rightarrow> pyrow \<Rightarrow> err + rat" where
  "wall_seconds F limits =
     (let positive = (\<lambda>j scale. case py_float F j of None \<Rightarrow> Inl (ValueErr ''limits must be a number'')
            | Some q \<Rightarrow> if q \<le> 0 then Inl (ValueErr ''limits must be > 0'') else Inr (q * scale))
      in if \<not> blank_json (field limits ''max_wall_seconds'') then positive (field limits ''max_wall_seconds'') 1
         else if \<not> blank_json (field limits ''wall_clock_seconds'') then positive (field limits ''wall_clock_seconds'') 1
         else if \<not> blank_json (field limits ''max_wall_minutes'') then positive (field limits ''max_wall_minutes'') 60
         else Inl (ValueErr ''bounded loop runner requires a wall clock limit''))"

definition runner_limits :: "lib \<Rightarrow> (string \<Rightarrow> rat option) \<Rightarrow> pyrow \<Rightarrow> json \<Rightarrow> err + loop_limits" where
  "runner_limits L F contract stagnation =
     bindE (validate_loop_contract L (JObj contract)) (\<lambda>is1.
       if has_errors is1 then Inl (ValueErr ''invalid loop contract'')
       else let limits = object_or_empty (field contract ''limits'') in
         bindE (positive_int (field limits ''max_iterations'') 1000) (\<lambda>n.
         bindE (wall_seconds F limits) (\<lambda>q.
         bindE (positive_int stagnation 20) (\<lambda>k.
           Inr \<lparr>ll_iterations = n, ll_seconds = q, ll_stagnation = k\<rparr>))))"

record loop_outcome =
  lo_state :: string
  lo_reason :: string
  lo_receipts :: "pyrow list"
  lo_events :: "int option list"

record loop_job =
  lj_work :: string
  lj_loop :: string
  lj_proof :: string
  lj_run :: string
  lj_session :: "string option"
  lj_enabled :: "bool option"
  lj_env :: "string option"
  lj_time :: seconds

record loop_progress =
  lp_receipts :: "pyrow list"
  lp_events :: "int option list"
  lp_last :: "(string \<times> string \<times> string) option"
  lp_repeated :: nat

definition receipt_signature :: "lib \<Rightarrow> pyrow \<Rightarrow> string \<times> string \<times> string" where
  "receipt_signature L r = (strip (str_or_empty L (field r ''observed'')), strip (str_or_empty L (field r ''action'')),
     strip (str_or_empty L (field r ''verification'')))"

definition continues :: "lib \<Rightarrow> pyrow \<Rightarrow> bool" where
  "continues L r \<longleftrightarrow> strip (str_or_empty L (field r ''terminal_state'')) = ''continue''"

definition stop_receipt :: "lib \<Rightarrow> string \<Rightarrow> string \<Rightarrow> pyrow \<Rightarrow> pyrow" where
  "stop_receipt L state why r =
     set_key ''verification'' (JStr (strip_of ''; '' (str_or_empty L (field r ''verification'') @ why)))
       (set_key ''terminal_state'' (JStr state) r)"

definition stamped_receipt :: "loop_job \<Rightarrow> nat \<Rightarrow> pyrow \<Rightarrow> pyrow" where
  "stamped_receipt j i r0 =
     (let r = set_key ''iteration'' (JInt (int i)) (set_key ''loop_id'' (JStr (lj_loop j)) (set_key ''work_id'' (JStr (lj_work j)) r0))
      in if has_key r ''artifact_refs'' then r else set_key ''artifact_refs'' (JList []) r)"

text \<open>The receipt of a step, after the clock and the count of repetitions have been looked at.\<close>

definition judged_receipt ::
  "lib \<Rightarrow> loop_job \<Rightarrow> loop_limits \<Rightarrow> loop_progress \<Rightarrow> nat \<Rightarrow> bool \<Rightarrow> pyrow \<Rightarrow> pyrow \<times> (string \<times> string \<times> string) \<times> nat" where
  "judged_receipt L j m p i late r0 =
     (let r1 = stamped_receipt j i r0;
          r2 = (if late \<and> continues L r1
                then stop_receipt L ''exhausted'' ''; stopped because wall-clock budget was exhausted during iteration'' r1 else r1);
          sig = receipt_signature L r2;
          n = (if Some sig = lp_last p then lp_repeated p + 1 else 1);
          r3 = (if ll_stagnation m \<le> n \<and> continues L r2
                then stop_receipt L ''stagnated'' (''; stopped after '' @ digits_of n @ '' repeated loop signatures'') r2 else r2)
      in (r3, sig, n))"

definition loop_result :: "string \<Rightarrow> string \<Rightarrow> loop_progress \<Rightarrow> loop_outcome" where
  "loop_result state why p = \<lparr>lo_state = state, lo_reason = why, lo_receipts = lp_receipts p, lo_events = lp_events p\<rparr>"

text \<open>One iteration: the outcome that ends the run, or the progress with which it goes on.\<close>

definition loop_step ::
  "lib \<Rightarrow> 's loop_world \<Rightarrow> loop_job \<Rightarrow> loop_limits \<Rightarrow> rat \<Rightarrow> loop_progress \<Rightarrow> 's \<Rightarrow> run_log
     \<Rightarrow> 's \<times> run_log \<times> (err + (loop_outcome + loop_progress))" where
  "loop_step L W j m start p w0 l =
     (case lw_clock W w0 of (w1, now) \<Rightarrow>
      if ll_seconds m < now - start then (w1, l, Inr (Inl (loop_result ''exhausted'' ''wall_clock_budget_exhausted'' p)))
      else case lw_iterate W (length (lp_receipts p) + 1) (lp_receipts p) w1 of
          (w2, Inl e) \<Rightarrow> (w2, l, Inl e)
        | (w2, Inr r0) \<Rightarrow>
            (case lw_clock W w2 of (w3, fin) \<Rightarrow>
             case judged_receipt L j m p (length (lp_receipts p) + 1) (ll_seconds m < fin - start) r0 of (r, sig, n) \<Rightarrow>
             case record_loop_receipt_event L (lj_env j) (lj_enabled j) r (Some (lj_run j)) (lj_session j) (lj_time j) l of
               Inl e \<Rightarrow> (w3, l, Inl e)
             | Inr (l', i) \<Rightarrow>
                 let q = \<lparr>lp_receipts = lp_receipts p @ [r], lp_events = lp_events p @ [i], lp_last = Some sig, lp_repeated = n\<rparr>;
                     state = normalized_terminal_state L (field r ''terminal_state'')
                 in (case lw_exists W (lj_proof j) w3 of (w4, found) \<Rightarrow>
                     if found then (w4, l', Inr (Inl (loop_result ''success'' ''done_signal_present'' q)))
                     else if state \<noteq> ''continue'' then (w4, l', Inr (Inl (loop_result state (''receipt_terminal_state:'' @ state) q)))
                     else (w4, l', Inr (Inr q)))))"

fun loop_iterations ::
  "lib \<Rightarrow> 's loop_world \<Rightarrow> loop_job \<Rightarrow> loop_limits \<Rightarrow> rat \<Rightarrow> nat \<Rightarrow> loop_progress \<Rightarrow> 's \<Rightarrow> run_log
     \<Rightarrow> 's \<times> run_log \<times> (err + loop_outcome)" where
  "loop_iterations L W j m start 0 p w l = (w, l, Inr (loop_result ''exhausted'' ''max_iterations_exhausted'' p))"
| "loop_iterations L W j m start (Suc n) p w l =
     (case loop_step L W j m start p w l of
        (w', l', Inl e) \<Rightarrow> (w', l', Inl e)
      | (w', l', Inr (Inl res)) \<Rightarrow> (w', l', Inr res)
      | (w', l', Inr (Inr q)) \<Rightarrow> loop_iterations L W j m start n q w' l')"

definition fresh_progress :: loop_progress where
  "fresh_progress = \<lparr>lp_receipts = [], lp_events = [], lp_last = None, lp_repeated = 0\<rparr>"

text \<open>The identifier of the run is the caller's, or the fresh one the caller of the model supplies.\<close>

definition loop_job_of ::
  "lib \<Rightarrow> pyrow \<Rightarrow> pyrow \<Rightarrow> string option \<Rightarrow> string \<Rightarrow> string option \<Rightarrow> bool option \<Rightarrow> string option \<Rightarrow> seconds \<Rightarrow> loop_job" where
  "loop_job_of L row contract run fresh session enabled env t =
     (let work = loop_row_id L row; loop = strip (str_or_empty L (field contract ''loop_id'')) in
      \<lparr>lj_work = work, lj_loop = loop, lj_proof = strip (str_or_empty L (field row ''done_signal'')),
       lj_run = (if otext run = [] then ''loop:'' @ loop @ '':'' @ work @ '':'' @ fresh else otext run),
       lj_session = session, lj_enabled = enabled, lj_env = env, lj_time = t\<rparr>)"

definition run_bounded_loop_contract ::
  "lib \<Rightarrow> (string \<Rightarrow> rat option) \<Rightarrow> 's loop_world \<Rightarrow> pyrow \<Rightarrow> pyrow \<Rightarrow> string option \<Rightarrow> string \<Rightarrow> string option \<Rightarrow> bool option \<Rightarrow>
     string option \<Rightarrow> json \<Rightarrow> seconds \<Rightarrow> 's \<Rightarrow> run_log \<Rightarrow> 's \<times> run_log \<times> (err + loop_outcome)" where
  "run_bounded_loop_contract L F W row contract run fresh session enabled env stagnation t w l =
     (case runner_limits L F contract stagnation of
        Inl e \<Rightarrow> (w, l, Inl e)
      | Inr m \<Rightarrow>
          let j = loop_job_of L row contract run fresh session enabled env t in
          (case lw_clock W w of (w1, start) \<Rightarrow>
           case lw_exists W (lj_proof j) w1 of (w2, found) \<Rightarrow>
           if found then (w2, l, Inr (loop_result ''success'' ''done_signal_already_present'' fresh_progress))
           else loop_iterations L W j m start (ll_iterations m) fresh_progress w2 l))"

end
