(* ===== verification/RunEventFacts.thy ===== *)
theory RunEventFacts
  imports RunEvents
begin

text \<open>
  The run event log is append-only, its sequence numbers have no gaps, and a key is recorded once.
  The stores share the interface \<open>event_store\<close>; the table also satisfies \<open>keyed_store\<close>, the memory
  store does not.
\<close>

section \<open>Well-formed logs\<close>

definition numbered_from_one :: "run_event list \<Rightarrow> bool" where
  "numbered_from_one rs \<longleftrightarrow> map v_seq rs = [1..int (length rs)]"

definition log_ok :: "run_log \<Rightarrow> bool" where
  "log_ok l \<longleftrightarrow> sorted_wrt (<) (map v_id (rl_rows l)) \<and> (\<forall>r \<in> set (rl_rows l). 0 < v_id r \<and> v_id r < rl_next l) \<and> 0 < rl_next l \<and>
     unique_where (\<lambda>r. v_key r \<noteq> None) v_key (rl_rows l) \<and>
     (\<forall>th. th \<noteq> [] \<longrightarrow> numbered_from_one (filter (\<lambda>r. v_thread r = Some th) (rl_rows l))) \<and>
     (\<forall>run. numbered_from_one (filter (\<lambda>r. v_run r = run \<and> v_thread r = None) (rl_rows l)))"

lemma max_seq_numbered: "numbered_from_one rs \<Longrightarrow> max_seq rs = int (length rs)"
proof -
  have up: "foldl max 0 [1..int n] = int n" for n
  proof (induction n)
    case (Suc n)
    have "[1..int (Suc n)] = [1..int n] @ [int (Suc n)]" using upto_rec2 [of 1 "int (Suc n)"] by simp
    with Suc show ?case by simp
  qed simp
  show "numbered_from_one rs \<Longrightarrow> max_seq rs = int (length rs)" by (simp add: numbered_from_one_def max_seq_def up)
qed

lemma numbered_snoc: "numbered_from_one rs \<Longrightarrow> v_seq r = int (length rs) + 1 \<Longrightarrow> numbered_from_one (rs @ [r])"
  using upto_rec2 [of 1 "int (length rs) + 1"] by (simp add: numbered_from_one_def add.commute)

lemma insert_run_event_Inr:
  assumes "insert_run_event e l = Inr (l', i)"
  shows "i = rl_next l" "rl_rows l' = rl_rows l @ [e\<lparr>v_id := i\<rparr>]" "rl_next l' = i + 1"
    "v_key e \<noteq> None \<Longrightarrow> r \<in> set (rl_rows l) \<Longrightarrow> v_key r \<noteq> v_key e"
  using assms by (auto simp: insert_run_event_def list_ex_iff split: if_split_asm)

lemma run_event_of_simps [simp]:
  "v_thread (run_event_of L e n t) = i_thread e" "v_run (run_event_of L e n t) = i_run e"
  "v_seq (run_event_of L e n t) = n" "v_key (run_event_of L e n t) = stored_key (i_key e)"
  "v_work (run_event_of L e n t) = i_work e" "v_category (run_event_of L e n t) = i_category e"
  by (simp_all add: run_event_of_def)

lemma log_ok_insert:
  assumes l: "log_ok l" and i: "insert_run_event (run_event_of L e (next_seq (i_run e) (i_thread e) l) t) l = Inr (l', i)"
  shows "log_ok l'"
proof -
  let ?e = "run_event_of L e (next_seq (i_run e) (i_thread e) l) t"
  note f = insert_run_event_Inr [OF i]
  have ids: "sorted_wrt (<) (map v_id (rl_rows l'))" "\<forall>r \<in> set (rl_rows l'). 0 < v_id r \<and> v_id r < rl_next l'" "0 < rl_next l'"
    using l by (auto simp: f(1-3) log_ok_def sorted_wrt_append)
  have keys: "unique_where (\<lambda>r. v_key r \<noteq> None) v_key (rl_rows l')"
    using l f(4) by (auto simp: f(2) log_ok_def unique_where_append)
  have threads: "numbered_from_one (filter (\<lambda>r. v_thread r = Some th) (rl_rows l'))" if "th \<noteq> []" for th
  proof (cases "i_thread e = Some th")
    case True
    have n: "numbered_from_one (filter (\<lambda>r. v_thread r = Some th) (rl_rows l))" using l that by (simp add: log_ok_def)
    show ?thesis using numbered_snoc [OF n, of "?e\<lparr>v_id := i\<rparr>"] True that
      by (simp add: f(2) next_seq_def max_seq_numbered [OF n])
  next
    case False
    then show ?thesis using l that by (simp add: f(2) log_ok_def)
  qed
  have runs: "numbered_from_one (filter (\<lambda>r. v_run r = run \<and> v_thread r = None) (rl_rows l'))" for run
  proof (cases "i_run e = run \<and> i_thread e = None")
    case True
    have n: "numbered_from_one (filter (\<lambda>r. v_run r = run \<and> v_thread r = None) (rl_rows l))" using l by (simp add: log_ok_def)
    show ?thesis using numbered_snoc [OF n, of "?e\<lparr>v_id := i\<rparr>"] True
      by (simp add: f(2) next_seq_def max_seq_numbered [OF n])
  next
    case False
    then show ?thesis using l by (auto simp: f(2) log_ok_def)
  qed
  show ?thesis using ids keys threads runs by (simp add: log_ok_def)
qed

lemma log_ok_empty: "log_ok empty_run_log"
  by (simp add: log_ok_def empty_run_log_def numbered_from_one_def unique_where_def)

section \<open>Recording\<close>

lemma record_Inr:
  assumes "record_run_event L env enabled e t l = Inr (l', x)"
  shows "(\<not> writer_enabled env enabled \<and> l' = l \<and> x = None) \<or>
    (writer_enabled env enabled \<and> validate_event_args e = Inr () \<and>
      ((\<exists>r. keyed_event l (stored_key (i_key e)) = Some r \<and> l' = l \<and> x = Some (v_id r)) \<or>
       (keyed_event l (stored_key (i_key e)) = None \<and> (\<exists>i. x = Some i \<and>
         insert_run_event (run_event_of L e (next_seq (i_run e) (i_thread e) l) t) l = Inr (l', i)))))"
proof (cases "writer_enabled env enabled")
  case True
  then have v: "validate_event_args e = Inr ()" using assms by (auto simp: record_run_event_def bindE_Inr_iff)
  show ?thesis
  proof (cases "keyed_event l (stored_key (i_key e))")
    case None
    then obtain i where "x = Some i" "insert_run_event (run_event_of L e (next_seq (i_run e) (i_thread e) l) t) l = Inr (l', i)"
      using assms True v
      by (cases "insert_run_event (run_event_of L e (next_seq (i_run e) (i_thread e) l) t) l") (auto simp: record_run_event_def)
    with True v None show ?thesis by blast
  next
    case (Some r)
    with True v show ?thesis using assms by (simp add: record_run_event_def)
  qed
next
  case False
  then show ?thesis using assms by (simp add: record_run_event_def)
qed

lemma keyed_event_Some: "keyed_event l k = Some r \<Longrightarrow> r \<in> set (rl_rows l) \<and> v_key r = k \<and> otext k \<noteq> []"
  by (auto simp: keyed_event_def dest: find_SomeD split: if_split_asm)

lemma record_appends:
  assumes "log_ok l" "record_run_event L env enabled e t l = Inr (l', x)"
  shows "log_ok l'" "case x of None \<Rightarrow> rl_rows l' = rl_rows l
    | Some i \<Rightarrow> (rl_rows l' = rl_rows l \<and> i \<in> v_id ` set (rl_rows l)) \<or>
        (\<exists>r. rl_rows l' = rl_rows l @ [r] \<and> v_id r = i \<and> (\<forall>s \<in> set (rl_rows l). v_id s < i))"
proof -
  note c = record_Inr [OF assms(2)]
  show "log_ok l'" using c assms(1) log_ok_insert [OF assms(1)] by auto
  have new: "\<exists>r. rl_rows l' = rl_rows l @ [r] \<and> v_id r = i \<and> (\<forall>s \<in> set (rl_rows l). v_id s < i)"
    if "insert_run_event (run_event_of L e (next_seq (i_run e) (i_thread e) l) t) l = Inr (l', i)" for i
    using insert_run_event_Inr(1,2) [OF that] assms(1)
    by (intro exI [of _ "(run_event_of L e (next_seq (i_run e) (i_thread e) l) t)\<lparr>v_id := i\<rparr>"]) (auto simp: log_ok_def)
  show "case x of None \<Rightarrow> rl_rows l' = rl_rows l
    | Some i \<Rightarrow> (rl_rows l' = rl_rows l \<and> i \<in> v_id ` set (rl_rows l)) \<or>
        (\<exists>r. rl_rows l' = rl_rows l @ [r] \<and> v_id r = i \<and> (\<forall>s \<in> set (rl_rows l). v_id s < i))"
    using c new keyed_event_Some by (cases x) auto
qed

text \<open>The sequences of recordings.\<close>

inductive recorded :: "lib \<Rightarrow> run_log \<Rightarrow> run_log \<Rightarrow> bool" for L :: lib where
  none: "recorded L l l"
| one: "recorded L l l1 \<Longrightarrow> record_run_event L env enabled e t l1 = Inr (l2, x) \<Longrightarrow> recorded L l l2"

lemma recorded_keeps:
  "recorded L l l' \<Longrightarrow> log_ok l \<Longrightarrow> log_ok l' \<and> (\<exists>new. rl_rows l' = rl_rows l @ new)"
proof (induction rule: recorded.induct)
  case (one l l1 env enabled e t l2 x)
  then have l1: "log_ok l1" "\<exists>new. rl_rows l1 = rl_rows l @ new" by simp_all
  have "rl_rows l2 = rl_rows l1 \<or> (\<exists>r. rl_rows l2 = rl_rows l1 @ [r])"
    using record_appends(2) [OF l1(1) one(2)] by (auto split: option.splits)
  with l1 record_appends(1) [OF l1(1) one(2)] show ?case by auto
qed simp

lemma keyed_event_later:
  assumes "keyed_event l k = Some r" "rl_rows l' = rl_rows l @ new"
  shows "keyed_event l' k = Some r"
  using assms by (simp add: keyed_event_def find_append split: if_split_asm)

lemma record_stores_key:
  assumes "record_run_event L env enabled e t l = Inr (l', Some i)" "otext (stored_key (i_key e)) \<noteq> []"
  shows "\<exists>r. keyed_event l' (stored_key (i_key e)) = Some r \<and> v_id r = i"
proof -
  have "find (\<lambda>r. v_key r = stored_key (i_key e)) (rl_rows l') \<noteq> None \<and>
      (\<forall>r. find (\<lambda>r. v_key r = stored_key (i_key e)) (rl_rows l') = Some r \<longrightarrow> v_id r = i)"
    using record_Inr [OF assms(1)] assms(2) insert_run_event_Inr(2)
    by (auto simp: keyed_event_def find_append)
  with assms(2) show ?thesis by (auto simp: keyed_event_def)
qed

lemma record_again:
  assumes "record_run_event L env enabled e t l = Inr (l1, Some i)" "recorded L l1 l2" "log_ok l1"
    and "stored_key (i_key e') = stored_key (i_key e)" "otext (stored_key (i_key e)) \<noteq> []"
    and "writer_enabled env' enabled'" "validate_event_args e' = Inr ()"
  shows "record_run_event L env' enabled' e' t' l2 = Inr (l2, Some i)"
proof -
  obtain r where r: "keyed_event l1 (stored_key (i_key e)) = Some r" "v_id r = i"
    using record_stores_key [OF assms(1,5)] by blast
  obtain new where "rl_rows l2 = rl_rows l1 @ new" using recorded_keeps [OF assms(2,3)] by blast
  from keyed_event_later [OF r(1) this] r(2) assms(4,6,7) show ?thesis by (simp add: record_run_event_def)
qed

text \<open>No well-formed request is refused by the indexes, unless its key is blank or its thread is the empty text.\<close>

lemma record_accepted:
  assumes l: "log_ok l" and e: "writer_enabled env enabled" "validate_event_args e = Inr ()" "i_thread e \<noteq> Some []"
    and k: "stored_key (i_key e) \<noteq> Some []"
  shows "\<exists>l' i. record_run_event L env enabled e t l = Inr (l', Some i)"
proof (cases "keyed_event l (stored_key (i_key e))")
  case (Some r)
  with e show ?thesis by (simp add: record_run_event_def)
next
  case None
  let ?e = "run_event_of L e (next_seq (i_run e) (i_thread e) l) t"
  have key: "v_key r \<noteq> stored_key (i_key e)" if "r \<in> set (rl_rows l)" "stored_key (i_key e) \<noteq> None" for r
    using None that k by (auto simp: keyed_event_def find_None_iff split: if_split_asm)
  have seq: "v_seq r \<noteq> next_seq (i_run e) (i_thread e) l" if t: "r \<in> set (rl_rows l)" "v_thread r = i_thread e" "i_thread e \<noteq> None" for r
  proof -
    obtain th where th: "i_thread e = Some th" "th \<noteq> []" using t(3) e(3) by (cases "i_thread e") auto
    let ?rs = "filter (\<lambda>r. v_thread r = Some th) (rl_rows l)"
    have n: "numbered_from_one ?rs" using l th(2) by (simp add: log_ok_def)
    have "v_seq r \<in> set (map v_seq ?rs)" using t(1,2) th(1) by auto
    also have "map v_seq ?rs = [1..int (length ?rs)]" using n by (simp add: numbered_from_one_def)
    finally have "v_seq r \<le> int (length ?rs)" by (simp only: set_upto atLeastAtMost_iff)
    then show ?thesis using th by (simp add: next_seq_def max_seq_numbered [OF n])
  qed
  have "insert_run_event ?e l = Inr (\<lparr>rl_rows = rl_rows l @ [?e\<lparr>v_id := rl_next l\<rparr>], rl_next = rl_next l + 1\<rparr>, rl_next l)"
    using key seq by (auto simp: insert_run_event_def list_ex_iff)
  with None e show ?thesis by (simp add: record_run_event_def)
qed

text \<open>A key of blanks is stored as the empty text, which is looked up by nobody but is unique: the second one is refused.\<close>

lemma blank_key_refused:
  assumes "record_run_event L env enabled e t l = Inr (l', Some i)" "stored_key (i_key e) = Some []"
    and "stored_key (i_key e') = Some []" "writer_enabled env enabled" "validate_event_args e' = Inr ()"
  shows "isl (record_run_event L env enabled e' t' l')"
proof -
  have none: "keyed_event l0 (Some []) = None" for l0 by (simp add: keyed_event_def)
  from record_Inr [OF assms(1)] assms(2) none
  have "insert_run_event (run_event_of L e (next_seq (i_run e) (i_thread e) l) t) l = Inr (l', i)" by auto
  from insert_run_event_Inr(2) [OF this] assms(2) have "list_ex (\<lambda>r. v_key r = Some []) (rl_rows l')" by (simp add: list_ex_iff)
  then show ?thesis using assms(3-5) none by (simp add: record_run_event_def insert_run_event_def)
qed

section \<open>The interface of the stores\<close>

locale event_store =
  fixes put :: "run_input \<Rightarrow> 's \<Rightarrow> err + ('s \<times> int option)" and rows :: "'s \<Rightarrow> run_event list" and ok :: "'s \<Rightarrow> bool"
  assumes keeps: "ok s \<Longrightarrow> put e s = Inr (s', x) \<Longrightarrow> ok s'"
    and appends: "ok s \<Longrightarrow> put e s = Inr (s', x) \<Longrightarrow> case x of None \<Rightarrow> rows s' = rows s
      | Some i \<Rightarrow> (rows s' = rows s \<and> i \<in> v_id ` set (rows s)) \<or>
          (\<exists>r. rows s' = rows s @ [r] \<and> v_id r = i \<and> (\<forall>q \<in> set (rows s). v_id q < i))"
begin

lemma put_extends: "ok s \<Longrightarrow> put e s = Inr (s', x) \<Longrightarrow> \<exists>new. rows s' = rows s @ new \<and> (\<forall>i. x = Some i \<longrightarrow> i \<in> v_id ` set (rows s'))"
  using appends [of s e s' x] by (cases x) auto

lemma batch:
  "ok s \<Longrightarrow> append_batch put es s = Inr (s', xs) \<Longrightarrow>
     ok s' \<and> length xs = length es \<and> (\<exists>new. rows s' = rows s @ new \<and> length new \<le> length es) \<and>
     (\<forall>i. Some i \<in> set xs \<longrightarrow> i \<in> v_id ` set (rows s'))"
proof (induction es arbitrary: s xs)
  case (Cons e es)
  obtain s1 x ys where c: "put e s = Inr (s1, x)" "append_batch put es s1 = Inr (s', ys)" "xs = x # ys"
    using Cons.prems(2) by (auto simp: bindE_Inr_iff)
  have "\<exists>n1. rows s1 = rows s @ n1 \<and> length n1 \<le> 1" using appends [OF Cons.prems(1) c(1)] by (cases x) auto
  then obtain n1 where n1: "rows s1 = rows s @ n1" "length n1 \<le> 1" by blast
  have ih: "ok s'" "length ys = length es" "\<exists>new. rows s' = rows s1 @ new \<and> length new \<le> length es"
    "\<forall>i. Some i \<in> set ys \<longrightarrow> i \<in> v_id ` set (rows s')"
    using Cons.IH [OF keeps [OF Cons.prems(1) c(1)] c(2)] by simp_all
  obtain n2 where n2: "rows s' = rows s1 @ n2" "length n2 \<le> length es" using ih(3) by blast
  have "\<forall>i. x = Some i \<longrightarrow> i \<in> v_id ` set (rows s')" using put_extends [OF Cons.prems(1) c(1)] n2(1) by auto
  moreover have "rows s' = rows s @ (n1 @ n2)" "length (n1 @ n2) \<le> length (e # es)" using n1 n2 by simp_all
  ultimately show ?case using ih c(3) by (intro conjI) (auto simp del: append_assoc)
qed simp

end

text \<open>A store that looks keys up records every key once.\<close>

locale keyed_store = event_store +
  assumes finds: "ok s \<Longrightarrow> put e s = Inr (s', Some i) \<Longrightarrow> otext (stored_key (i_key e)) \<noteq> [] \<Longrightarrow>
    \<exists>r \<in> set (rows s'). v_key r = stored_key (i_key e) \<and> v_id r = i"
    and replays: "ok s \<Longrightarrow> r \<in> set (rows s) \<Longrightarrow> v_key r = stored_key (i_key e) \<Longrightarrow> otext (stored_key (i_key e)) \<noteq> [] \<Longrightarrow>
    put e s = Inr (s', Some i) \<Longrightarrow> s' = s \<and> i = v_id r"
begin

lemma once:
  assumes "ok s" "put e s = Inr (s1, Some i)" "append_batch put es s1 = Inr (s2, xs)" "put e' s2 = Inr (s3, Some j)"
    and "stored_key (i_key e') = stored_key (i_key e)" "otext (stored_key (i_key e)) \<noteq> []"
  shows "s3 = s2 \<and> j = i"
proof -
  obtain r where r: "r \<in> set (rows s1)" "v_key r = stored_key (i_key e)" "v_id r = i" using finds [OF assms(1,2,6)] by blast
  have ok1: "ok s1" by (rule keeps [OF assms(1,2)])
  have b: "ok s2" "\<exists>new. rows s2 = rows s1 @ new" using batch [OF ok1 assms(3)] by auto
  then have "r \<in> set (rows s2)" using r(1) by auto
  from replays [OF b(1) this _ _ assms(4)] r assms(5,6) show ?thesis by simp
qed

end

interpretation table: keyed_store "\<lambda>e. record_run_event L env enabled e t" rl_rows log_ok for L env enabled t
proof unfold_locales
  fix l e l' x
  assume l: "log_ok l" and r: "record_run_event L env enabled e t l = Inr (l', x)"
  show "log_ok l'" by (rule record_appends(1) [OF l r])
  show "case x of None \<Rightarrow> rl_rows l' = rl_rows l | Some i \<Rightarrow> (rl_rows l' = rl_rows l \<and> i \<in> v_id ` set (rl_rows l)) \<or>
      (\<exists>r. rl_rows l' = rl_rows l @ [r] \<and> v_id r = i \<and> (\<forall>q \<in> set (rl_rows l). v_id q < i))"
    by (rule record_appends(2) [OF l r])
next
  fix l e l' i
  assume l: "log_ok l" and r: "record_run_event L env enabled e t l = Inr (l', Some i)" and k: "otext (stored_key (i_key e)) \<noteq> []"
  from record_stores_key [OF r k] keyed_event_Some show "\<exists>r \<in> set (rl_rows l'). v_key r = stored_key (i_key e) \<and> v_id r = i" by blast
next
  fix l q e l' i
  assume l: "log_ok l" and q: "q \<in> set (rl_rows l)" "v_key q = stored_key (i_key e)" "otext (stored_key (i_key e)) \<noteq> []"
    and r: "record_run_event L env enabled e t l = Inr (l', Some i)"
  obtain q' where q': "keyed_event l (stored_key (i_key e)) = Some q'"
    using q by (cases "keyed_event l (stored_key (i_key e))") (auto simp: keyed_event_def find_None_iff)
  have "v_key q' = v_key q" "q' \<in> set (rl_rows l)" using keyed_event_Some [OF q'] q(2) by simp_all
  moreover have "v_key q \<noteq> None" unfolding q(2) using q(3) by (cases "stored_key (i_key e)") simp_all
  ultimately have "q' = q" using l q unique_whereD [of "\<lambda>r. v_key r \<noteq> None" v_key "rl_rows l" q' q] by (auto simp: log_ok_def)
  with record_Inr [OF r] q' show "l' = l \<and> i = v_id q" by auto
qed

definition memory_ok :: "memory_store \<Rightarrow> bool" where
  "memory_ok m \<longleftrightarrow> (\<forall>r \<in> set (ms_rows m). v_id r < ms_next m)"

interpretation memory: event_store "\<lambda>e m. Inr (map_prod id Some (memory_append L e m))" ms_rows memory_ok for L
  by unfold_locales (auto simp: memory_append_def Let_def memory_ok_def less_imp_le intro: less_trans)

text \<open>The memory store ignores keys: the same event appended twice is there twice.\<close>

lemma memory_repeats: "length (ms_rows (fst (memory_append L e (fst (memory_append L e m))))) = length (ms_rows m) + 2"
  by (simp add: memory_append_def Let_def)

section \<open>Reading\<close>

lemma set_ordered [simp]: "set (ordered q rs) = set rs"
  by (simp add: ordered_def)

lemma list_all_events: "q_limit q < 0 \<or> int (length (rl_rows l)) \<le> q_limit q \<Longrightarrow> set (list_run_events q l) = {r \<in> set (rl_rows l). selects q r}"
proof -
  have "length (ordered q (filter (selects q) (rl_rows l))) \<le> length (rl_rows l)"
    using length_filter_le [of "selects q" "rl_rows l"] by (simp add: ordered_def)
  then show "q_limit q < 0 \<or> int (length (rl_rows l)) \<le> q_limit q \<Longrightarrow> ?thesis" by (auto simp: list_run_events_def limited_def)
qed

end
