(* ===== verification/LoopFacts.thy ===== *)
theory LoopFacts
  imports Loops RunEventFacts Outcomes
begin

text \<open>
  What a bounded loop run leaves behind: the receipts it records are valid, numbered and belong to
  the job, it stops within its limits, it never goes on after too many equal receipts, and its
  outcome says why it stopped. Further, the contract a scaffold produces passes the validator.
\<close>

section \<open>One iteration\<close>

definition state_of :: "lib \<Rightarrow> pyrow \<Rightarrow> string" where
  "state_of L r = normalized_terminal_state L (field r ''terminal_state'')"

definition good_receipt :: "lib \<Rightarrow> loop_job \<Rightarrow> nat \<Rightarrow> pyrow \<Rightarrow> bool" where
  "good_receipt L j i r \<longleftrightarrow> \<not> has_errors (validate_loop_receipt L r) \<and> field r ''iteration'' = JInt (int i) \<and>
     field r ''work_id'' = JStr (lj_work j) \<and> field r ''loop_id'' = JStr (lj_loop j)"

text \<open>No stretch of equal receipts that still asks to go on is as long as the limit.\<close>

definition not_stuck :: "lib \<Rightarrow> nat \<Rightarrow> pyrow list \<Rightarrow> bool" where
  "not_stuck L k rs \<longleftrightarrow> (\<forall>xs ys zs. rs = xs @ ys @ zs \<longrightarrow> ys \<noteq> [] \<longrightarrow> continues L (last ys) \<longrightarrow>
     (\<forall>r \<in> set ys. receipt_signature L r = receipt_signature L (last ys)) \<longrightarrow> length ys < k)"

lemma str_or_empty_JStr [simp]: "str_or_empty L (JStr s) = s"
  by (cases s) (simp_all add: str_or_empty_def)

lemma stop_receipt_fields [simp]:
  "field (stop_receipt L s why r) k = (if k = ''verification'' then JStr (strip_of ''; '' (str_or_empty L (field r ''verification'') @ why))
     else if k = ''terminal_state'' then JStr s else field r k)"
  by (simp add: stop_receipt_def)

lemma stop_receipt_state: "s \<in> {''exhausted'', ''stagnated''} \<Longrightarrow> state_of L (stop_receipt L s why r) = s"
  by (elim insertE emptyE; simp add: state_of_def normalized_terminal_state_def; code_simp)

lemma continues_state: "continues L r \<Longrightarrow> state_of L r = ''continue''"
  by (simp add: continues_def state_of_def normalized_terminal_state_def) code_simp

lemma stopped_state:
  "state_of L (stop_receipt L ''exhausted'' why r) \<noteq> ''continue''" "state_of L (stop_receipt L ''stagnated'' why r) \<noteq> ''continue''"
  by (simp_all add: stop_receipt_state)

lemma stamped_fields:
  "field (stamped_receipt j i r) ''iteration'' = JInt (int i)" "field (stamped_receipt j i r) ''work_id'' = JStr (lj_work j)"
  "field (stamped_receipt j i r) ''loop_id'' = JStr (lj_loop j)"
  by (simp_all add: stamped_receipt_def Let_def)

lemma judged_fields:
  assumes "judged_receipt L j m p i late r0 = (r, sig, n)"
  shows "field r ''iteration'' = JInt (int i)" "field r ''work_id'' = JStr (lj_work j)" "field r ''loop_id'' = JStr (lj_loop j)"
  using assms by (auto simp: judged_receipt_def Let_def stamped_fields split: if_split_asm)

lemma judged_count:
  "judged_receipt L j m p i late r0 = (r, sig, n) \<Longrightarrow> n = (if Some sig = lp_last p then lp_repeated p + 1 else 1)"
  by (simp add: judged_receipt_def Let_def split: if_splits)

lemma judged_going_on:
  assumes "judged_receipt L j m p i late r0 = (r, sig, n)" "state_of L r = ''continue''"
  shows "sig = receipt_signature L r" "continues L r \<Longrightarrow> n < ll_stagnation m"
proof -
  let ?r2 = "if late \<and> continues L (stamped_receipt j i r0)
    then stop_receipt L ''exhausted'' ''; stopped because wall-clock budget was exhausted during iteration'' (stamped_receipt j i r0)
    else stamped_receipt j i r0"
  have "sig = receipt_signature L ?r2" "\<exists>why. r = (if ll_stagnation m \<le> n \<and> continues L ?r2 then stop_receipt L ''stagnated'' why ?r2 else ?r2)"
    using assms(1) unfolding judged_receipt_def Let_def by auto
  then obtain why where w: "sig = receipt_signature L ?r2" "r = (if ll_stagnation m \<le> n \<and> continues L ?r2 then stop_receipt L ''stagnated'' why ?r2 else ?r2)"
    by blast
  have "\<not> (ll_stagnation m \<le> n \<and> continues L ?r2)"
  proof
    assume c: "ll_stagnation m \<le> n \<and> continues L ?r2"
    have "r = stop_receipt L ''stagnated'' why ?r2" unfolding w(2) if_P [OF c] ..
    with assms(2) stopped_state(2) show False by metis
  qed
  then have r2: "r = ?r2" unfolding w(2) by (rule if_not_P)
  show "sig = receipt_signature L r" using w(1) unfolding r2 [symmetric] .
  show "n < ll_stagnation m" if "continues L r"
    using \<open>\<not> (ll_stagnation m \<le> n \<and> continues L ?r2)\<close> that unfolding r2 [symmetric] by (simp add: not_le)
qed

lemma loop_step_cases:
  assumes "loop_step L W j m start p w l = (w', l', x)"
  obtains (failed) e where "x = Inl e" "l' = l"
  | (late) "l' = l" "x = Inr (Inl (loop_result ''exhausted'' ''wall_clock_budget_exhausted'' p))"
  | (receipt) r sig n i q over r0 where
      "judged_receipt L j m p (length (lp_receipts p) + 1) over r0 = (r, sig, n)"
      "record_loop_receipt_event L (lj_env j) (lj_enabled j) r (Some (lj_run j)) (lj_session j) (lj_time j) l = Inr (l', i)"
      "q = \<lparr>lp_receipts = lp_receipts p @ [r], lp_events = lp_events p @ [i], lp_last = Some sig, lp_repeated = n\<rparr>"
      "x = Inr (Inl (loop_result ''success'' ''done_signal_present'' q)) \<or>
       state_of L r \<noteq> ''continue'' \<and> x = Inr (Inl (loop_result (state_of L r) (''receipt_terminal_state:'' @ state_of L r) q)) \<or>
       state_of L r = ''continue'' \<and> x = Inr (Inr q)"
  using assms unfolding loop_step_def Let_def state_of_def
  by (auto split: prod.splits sum.splits if_split_asm)

section \<open>The course of a run\<close>

definition receipts_logged :: "lib \<Rightarrow> run_log \<Rightarrow> pyrow list \<Rightarrow> int option list \<Rightarrow> run_log \<Rightarrow> bool" where
  "receipts_logged L l0 rs is' l \<longleftrightarrow> recorded L l0 l \<and> length is' = length rs \<and>
     (\<exists>new. rl_rows l = rl_rows l0 @ new \<and> length new \<le> length rs) \<and> (\<forall>i. Some i \<in> set is' \<longrightarrow> i \<in> v_id ` set (rl_rows l))"

definition sound_receipts :: "lib \<Rightarrow> loop_job \<Rightarrow> loop_limits \<Rightarrow> pyrow list \<Rightarrow> bool" where
  "sound_receipts L j m rs \<longleftrightarrow> (\<forall>k < length rs. good_receipt L j (Suc k) (rs ! k)) \<and>
     (\<forall>r \<in> set (butlast rs). state_of L r = ''continue'') \<and> not_stuck L (ll_stagnation m) rs"

text \<open>The count of repetitions is right while the run goes on.\<close>

definition on_course :: "lib \<Rightarrow> loop_job \<Rightarrow> loop_limits \<Rightarrow> loop_progress \<Rightarrow> bool" where
  "on_course L j m p \<longleftrightarrow> sound_receipts L j m (lp_receipts p) \<and> (\<forall>r \<in> set (lp_receipts p). state_of L r = ''continue'') \<and>
     (lp_receipts p \<noteq> [] \<longrightarrow> lp_last p = Some (receipt_signature L (last (lp_receipts p)))) \<and>
     (\<forall>xs ys. lp_receipts p = xs @ ys \<longrightarrow> (\<forall>r \<in> set ys. Some (receipt_signature L r) = lp_last p) \<longrightarrow> length ys \<le> lp_repeated p)"

lemma logged_start: "receipts_logged L l [] [] l"
  by (simp add: receipts_logged_def recorded.none)

lemma logged_receipt:
  assumes "receipts_logged L l0 rs is' l" "log_ok l0" "record_loop_receipt_event L env enabled r run session t l = Inr (l', i)"
  shows "receipts_logged L l0 (rs @ [r]) (is' @ [i]) l'"
proof -
  have r: "record_run_event L env enabled (receipt_input L r run session) t l = Inr (l', i)"
    using assms(3) by (simp add: record_loop_receipt_event_def split: if_split_asm)
  have l: "recorded L l0 l" "log_ok l" using assms(1) recorded_keeps [OF _ assms(2)] by (auto simp: receipts_logged_def)
  from record_appends(2) [OF l(2) r] have n: "\<exists>n. rl_rows l' = rl_rows l @ n \<and> length n \<le> 1"
    "\<forall>k. i = Some k \<longrightarrow> k \<in> v_id ` set (rl_rows l')" by (auto split: option.splits)
  then obtain n where n': "rl_rows l' = rl_rows l @ n" "length n \<le> 1" by blast
  obtain new where new: "rl_rows l = rl_rows l0 @ new" "length new \<le> length rs" using assms(1) by (auto simp: receipts_logged_def)
  have "rl_rows l' = rl_rows l0 @ (new @ n)" "length (new @ n) \<le> length (rs @ [r])" using n' new by simp_all
  then have "\<exists>new. rl_rows l' = rl_rows l0 @ new \<and> length new \<le> length (rs @ [r])" by blast
  moreover have "\<forall>k. Some k \<in> set (is' @ [i]) \<longrightarrow> k \<in> v_id ` set (rl_rows l')"
    using assms(1) n(2) n'(1) by (auto simp: receipts_logged_def)
  ultimately show ?thesis using assms(1) recorded.one [OF l(1) r] by (simp add: receipts_logged_def)
qed

lemma recorded_valid:
  "record_loop_receipt_event L env enabled r run session t l = Inr (l', i) \<Longrightarrow> \<not> has_errors (validate_loop_receipt L r)"
  by (simp add: record_loop_receipt_event_def split: if_split_asm)

lemma on_course_start: "on_course L j m fresh_progress"
  by (simp add: on_course_def fresh_progress_def sound_receipts_def not_stuck_def)

lemma trailing_run:
  assumes p: "on_course L j m p" and n: "n = (if Some sig = lp_last p then lp_repeated p + 1 else 1)"
    and ys: "lp_receipts p @ [r] = xs @ ys" "\<forall>q \<in> set ys. receipt_signature L q = sig"
  shows "length ys \<le> n"
proof (cases ys rule: rev_cases)
  case (snoc zs q)
  then have rs: "lp_receipts p = xs @ zs" using ys(1) by simp
  show ?thesis
  proof (cases "Some sig = lp_last p")
    case True
    have "length zs \<le> lp_repeated p" using p rs ys(2) snoc True by (auto simp: on_course_def)
    with n True snoc show ?thesis by simp
  next
    case False
    have "zs = []"
    proof (rule ccontr)
      assume z: "zs \<noteq> []"
      then have "lp_last p = Some (receipt_signature L (last zs))" using p rs by (simp add: on_course_def)
      moreover have "receipt_signature L (last zs) = sig" using ys(2) snoc z by simp
      ultimately show False using False by simp
    qed
    with n False snoc show ?thesis by simp
  qed
qed simp

lemma sound_receipt_added:
  assumes p: "on_course L j m p" and r: "judged_receipt L j m p (length (lp_receipts p) + 1) over r0 = (r, sig, n)"
    and v: "\<not> has_errors (validate_loop_receipt L r)"
  shows "sound_receipts L j m (lp_receipts p @ [r])"
proof -
  have "good_receipt L j (Suc k) ((lp_receipts p @ [r]) ! k)" if "k < length (lp_receipts p @ [r])" for k
  proof (cases "k < length (lp_receipts p)")
    case True
    with p show ?thesis by (simp add: on_course_def sound_receipts_def nth_append)
  next
    case False
    with that have "k = length (lp_receipts p)" by simp
    with judged_fields [OF r] v show ?thesis by (simp add: good_receipt_def)
  qed
  moreover have "not_stuck L (ll_stagnation m) (lp_receipts p @ [r])"
    unfolding not_stuck_def
  proof (intro allI impI)
    fix xs ys zs
    assume a: "lp_receipts p @ [r] = xs @ ys @ zs" "ys \<noteq> []" "continues L (last ys)"
      "\<forall>q \<in> set ys. receipt_signature L q = receipt_signature L (last ys)"
    show "length ys < ll_stagnation m"
    proof (cases zs rule: rev_cases)
      case Nil
      then have l: "last ys = r" using a(1,2) by (metis append.right_neutral last_appendR last_snoc)
      have g: "sig = receipt_signature L r" "n < ll_stagnation m"
        using judged_going_on [OF r] continues_state a(3) l by simp_all
      have "length ys \<le> n" using trailing_run [OF p judged_count [OF r], of r xs ys] a(1,4) Nil l g(1) by simp
      with g(2) show ?thesis by simp
    next
      case (snoc us q)
      then have "lp_receipts p = xs @ ys @ us" using a(1) by simp
      moreover have "not_stuck L (ll_stagnation m) (lp_receipts p)" using p by (simp add: on_course_def sound_receipts_def)
      ultimately show ?thesis using a(2-4) by (simp only: not_stuck_def) blast
    qed
  qed
  ultimately show ?thesis using p by (simp add: sound_receipts_def on_course_def)
qed

lemma on_course_step:
  assumes p: "on_course L j m p" and r: "judged_receipt L j m p (length (lp_receipts p) + 1) over r0 = (r, sig, n)"
    and v: "\<not> has_errors (validate_loop_receipt L r)" and c: "state_of L r = ''continue''"
  shows "on_course L j m \<lparr>lp_receipts = lp_receipts p @ [r], lp_events = es, lp_last = Some sig, lp_repeated = n\<rparr>"
  using sound_receipt_added [OF p r v] c p judged_going_on(1) [OF r c] trailing_run [OF p judged_count [OF r]]
  by (auto simp: on_course_def)

text \<open>How a run may end.\<close>

definition ending :: "lib \<Rightarrow> loop_outcome \<Rightarrow> bool" where
  "ending L o' \<longleftrightarrow>
     lo_receipts o' \<noteq> [] \<and> lo_state o' = ''success'' \<and> lo_reason o' = ''done_signal_present'' \<or>
     lo_receipts o' \<noteq> [] \<and> lo_state o' \<noteq> ''continue'' \<and> lo_state o' = state_of L (last (lo_receipts o')) \<or>
     lo_state o' = ''exhausted'' \<and> (\<forall>r \<in> set (lo_receipts o'). state_of L r = ''continue'')"

lemma iterations_result:
  assumes "loop_iterations L W j m start n p w l = (w', l', x)" "on_course L j m p" "log_ok l0"
    "receipts_logged L l0 (lp_receipts p) (lp_events p) l"
  shows "(\<exists>new. rl_rows l' = rl_rows l0 @ new \<and> length new \<le> length (lp_receipts p) + n) \<and> recorded L l0 l' \<and>
    (\<forall>o'. x = Inr o' \<longrightarrow> length (lo_receipts o') \<le> length (lp_receipts p) + n \<and> sound_receipts L j m (lo_receipts o') \<and>
       receipts_logged L l0 (lo_receipts o') (lo_events o') l' \<and> ending L o')"
  using assms
proof (induction n arbitrary: p w l)
  case 0
  then show ?case by (auto simp: loop_result_def receipts_logged_def ending_def on_course_def)
next
  case (Suc n)
  obtain w1 l1 y where s: "loop_step L W j m start p w l = (w1, l1, y)" by (cases "loop_step L W j m start p w l")
  from s show ?case
  proof (cases rule: loop_step_cases)
    case (failed e)
    with Suc.prems s show ?thesis by (auto simp: receipts_logged_def)
  next
    case late
    with Suc.prems s show ?thesis by (auto simp: loop_result_def receipts_logged_def ending_def on_course_def)
  next
    case (receipt r sig k i q over r0)
    note v = recorded_valid [OF receipt(2)]
    have lg: "receipts_logged L l0 (lp_receipts q) (lp_events q) l1"
      using logged_receipt [OF Suc.prems(4,3) receipt(2)] receipt(3) by simp
    have sd: "sound_receipts L j m (lp_receipts q)" using sound_receipt_added [OF Suc.prems(2) receipt(1) v] receipt(3) by simp
    have len: "length (lp_receipts q) = Suc (length (lp_receipts p))" "last (lp_receipts q) = r" "lp_receipts q \<noteq> []"
      using receipt(3) by simp_all
    show ?thesis
    proof (cases y)
      case (Inl e)
      with receipt(4) show ?thesis by auto
    next
      case (Inr z)
      show ?thesis
      proof (cases z)
        case (Inl o')
        have eq: "x = Inr o'" "l' = l1" using Suc.prems(1) s \<open>y = Inr z\<close> Inl by simp_all
        have o': "lo_receipts o' = lp_receipts q" "lo_events o' = lp_events q" "ending L o'"
          using receipt(4) \<open>y = Inr z\<close> Inl len(2,3) by (auto simp: loop_result_def ending_def)
        from lg sd len(1) eq o' show ?thesis by (auto simp: receipts_logged_def)
      next
        case (Inr q')
        have c: "state_of L r = ''continue''" "q' = q" using receipt(4) \<open>y = Inr z\<close> Inr by auto
        have it: "loop_iterations L W j m start n q w1 l1 = (w', l', x)" using Suc.prems(1) s \<open>y = Inr z\<close> Inr c(2) by simp
        have "on_course L j m q" using on_course_step [OF Suc.prems(2) receipt(1) v c(1)] receipt(3) by simp
        from Suc.IH [OF it this Suc.prems(3) lg] len(1) show ?thesis by simp
      qed
    qed
  qed
qed

lemma runner_limits_bounds:
  assumes "runner_limits L F c k = Inr m"
  shows "0 < ll_iterations m \<and> ll_iterations m \<le> 1000 \<and> 0 < ll_stagnation m \<and> ll_stagnation m \<le> 20"
  using assms by (auto simp: runner_limits_def positive_int_def bindE_Inr_iff Let_def split: if_split_asm option.splits)

lemma run_result:
  assumes "run_bounded_loop_contract L F W row c run fresh session enabled env k t w l = (w', l', x)" "log_ok l"
  shows "(\<exists>e. runner_limits L F c k = Inl e \<and> x = Inl e \<and> l' = l) \<or>
    (\<exists>m new. runner_limits L F c k = Inr m \<and> rl_rows l' = rl_rows l @ new \<and> length new \<le> ll_iterations m \<and> recorded L l l' \<and>
      (\<forall>o'. x = Inr o' \<longrightarrow> length (lo_receipts o') \<le> ll_iterations m \<and> receipts_logged L l (lo_receipts o') (lo_events o') l' \<and>
         sound_receipts L (loop_job_of L row c run fresh session enabled env t) m (lo_receipts o') \<and>
         (ending L o' \<or> lo_receipts o' = [] \<and> lo_state o' = ''success'' \<and> lo_reason o' = ''done_signal_already_present'')))"
proof (cases "runner_limits L F c k")
  case (Inl e)
  with assms(1) show ?thesis by (simp add: run_bounded_loop_contract_def)
next
  case (Inr m)
  let ?j = "loop_job_of L row c run fresh session enabled env t"
  obtain w1 start w2 found where w: "lw_clock W w = (w1, start)" "lw_exists W (lj_proof ?j) w1 = (w2, found)"
    by (cases "lw_clock W w", cases "lw_exists W (lj_proof ?j) (fst (lw_clock W w))") auto
  show ?thesis
  proof (cases found)
    case True
    then have "l' = l" "x = Inr (loop_result ''success'' ''done_signal_already_present'' fresh_progress)"
      using assms(1) Inr w by (simp_all add: run_bounded_loop_contract_def Let_def)
    with Inr show ?thesis
      by (auto simp: loop_result_def fresh_progress_def logged_start sound_receipts_def not_stuck_def recorded.none)
  next
    case False
    then have i: "loop_iterations L W ?j m start (ll_iterations m) fresh_progress w2 l = (w', l', x)"
      using assms(1) Inr w by (simp add: run_bounded_loop_contract_def Let_def)
    have "receipts_logged L l (lp_receipts fresh_progress) (lp_events fresh_progress) l" by (simp add: fresh_progress_def logged_start)
    from iterations_result [OF i on_course_start assms(2) this] Inr show ?thesis by (auto simp: fresh_progress_def)
  qed
qed

lemma good_state:
  "\<not> has_errors (validate_loop_receipt L r) \<Longrightarrow> state_of L r \<in> set receipt_states"
  by (auto simp: has_errors_def validate_loop_receipt_def state_of_def error_if_def error_issue_def split: if_split_asm)

lemma ending_state:
  assumes "ending L o'" "sound_receipts L j m (lo_receipts o')"
  shows "lo_state o' \<in> set allowed_terminal_states"
proof -
  have "state_of L (last (lo_receipts o')) \<in> set receipt_states" if "lo_receipts o' \<noteq> []"
    using assms(2) that good_state by (auto simp: sound_receipts_def good_receipt_def last_conv_nth)
  moreover have "''success'' \<in> set allowed_terminal_states" "''exhausted'' \<in> set allowed_terminal_states"
    by (simp_all add: allowed_terminal_states_def)
  ultimately show ?thesis using assms(1) by (auto simp: ending_def receipt_states_def)
qed

section \<open>Scaffolds\<close>

lemma set_strip_of: "set (strip_of cs s) \<subseteq> set s"
  by (auto simp: strip_of_def dest!: set_dropWhileD)

lemma strip_of_hd: "strip_of cs s \<noteq> [] \<Longrightarrow> hd (strip_of cs s) \<notin> set cs"
proof -
  let ?d = "dropWhile (\<lambda>c. c \<in> set cs) s" and ?e = "dropWhile (\<lambda>c. c \<in> set cs) (rev (dropWhile (\<lambda>c. c \<in> set cs) s))"
  assume "strip_of cs s \<noteq> []"
  then have n: "?e \<noteq> []" by (simp add: strip_of_def)
  obtain pre where pre: "rev ?d = pre @ ?e" by (metis takeWhile_dropWhile_id)
  then have "?d = rev ?e @ rev pre" by (metis rev_append rev_rev_ident)
  then have "hd ?d = hd (rev ?e)" using n by (metis hd_append2 rev_is_Nil_conv)
  moreover have "?d \<noteq> []" using n by (metis dropWhile.simps(1) rev.simps(1))
  moreover have "strip_of cs s = rev ?e" by (simp add: strip_of_def)
  ultimately show ?thesis using hd_dropWhile [of "\<lambda>c. c \<in> set cs" s] by simp
qed

lemma dashed_chars: "c \<in> set (dashed b s) \<Longrightarrow> slug_edge c \<or> c = CHR ''-''"
  by (induction b s rule: dashed.induct) (auto split: if_split_asm)

lemma strip_of_first: "s \<noteq> [] \<Longrightarrow> hd s \<notin> set cs \<Longrightarrow> strip_of cs s \<noteq> []"
  by (cases s) (auto simp: strip_of_def dropWhile_eq_Nil_conv)

lemma strip_of_length: "length (strip_of cs s) \<le> length s"
  unfolding strip_of_def using length_dropWhile_le [of _ s] length_dropWhile_le [of _ "rev (dropWhile (\<lambda>c. c \<in> set cs) s)"]
  by (metis le_trans length_rev)

lemma kinds_are_slugs: "k \<in> set allowed_loop_types \<Longrightarrow> k \<noteq> [] \<and> hd k \<noteq> CHR ''-'' \<and> (\<forall>c \<in> set k. slug_edge c)"
  by (auto simp: allowed_loop_types_def slug_edge_def is_digit_def)

lemma scaffold_slug:
  assumes "k \<in> set allowed_loop_types"
  shows "is_slug (scaffold_loop_id k title)"
proof -
  let ?b = "strip_of ''-'' (dashed False (lower title))"
  define base where "base = (if ?b = [] then k else ?b)"
  have b: "base \<noteq> []" "hd base \<noteq> CHR ''-''" "\<forall>c \<in> set base. slug_edge c \<or> c = CHR ''-''"
    using kinds_are_slugs [OF assms] strip_of_hd [of "''-''" "dashed False (lower title)"]
      set_strip_of [of "''-''" "dashed False (lower title)"] dashed_chars by (auto simp: base_def)
  let ?t = "strip_of ''-'' (take 64 base)"
  have t: "?t \<noteq> []" "hd ?t \<noteq> CHR ''-''" "set ?t \<subseteq> set base" "length ?t \<le> 64"
    using strip_of_first [of "take 64 base" "''-''"] b strip_of_hd [of "''-''" "take 64 base"]
      set_strip_of [of "''-''" "take 64 base"] set_take_subset [of 64 base] strip_of_length [of "''-''" "take 64 base"]
    by auto
  have i: "scaffold_loop_id k title = ?t @ ''-v1''" by (simp add: scaffold_loop_id_def base_def Let_def)
  have "slug_edge (hd ?t)" using t(1-3) b(3) hd_in_set [OF t(1)] by blast
  moreover have "slug_edge (CHR ''v'')" "slug_edge (CHR ''1'')" by code_simp+
  moreover have "1 \<le> length ?t" using t(1) by (cases ?t) simp_all
  ultimately show ?thesis unfolding i is_slug_def using t b(3) by (auto simp: list_all_iff)
qed

lemma strip_keeps: "s \<noteq> [] \<Longrightarrow> \<not> is_ws (hd s) \<Longrightarrow> \<not> is_ws (last s) \<Longrightarrow> strip s = s"
proof -
  assume s: "s \<noteq> []" "\<not> is_ws (hd s)" "\<not> is_ws (last s)"
  then have "lstrip s = s" by (cases s) (simp_all add: lstrip_def)
  moreover have "lstrip (rev s) = rev s" using s by (cases s rule: rev_cases) (simp_all add: lstrip_def)
  ultimately show "strip s = s" by (simp add: strip_def)
qed

lemma slug_not_ws: "slug_edge c \<Longrightarrow> \<not> is_ws c"
  by (auto simp: slug_edge_def is_ws_def is_digit_def Let_def)

lemma slug_valid: "is_slug s \<Longrightarrow> validate_slug (JStr s) name = []"
proof -
  assume s: "is_slug s"
  then have n: "s \<noteq> []" by (auto simp: is_slug_def)
  have "strip s = s" using s n by (intro strip_keeps) (auto simp: is_slug_def slug_not_ws)
  with s n show ?thesis by (simp add: validate_slug_def solid_text_def json_text_def clean_def error_if_def)
qed

lemma solid_cons: "\<not> is_ws c \<Longrightarrow> solid_text (JStr (c # s))"
  by (auto simp: solid_text_def json_text_def clean_def strip_def lstrip_def dropWhile_eq_Nil_conv)

text \<open>The validator has nothing to say about a scaffold whose title is not too long.\<close>

lemma scaffold_valid:
  assumes "length title \<le> 1165"
  shows "validate_loop_contract L (JObj (scaffold_contract kind title)) = Inr []"
proof -
  define k where "k = (if kind \<in> set allowed_loop_types then kind else ''coord'')"
  define c where "c = scaffold_contract kind title"
  have k: "k \<in> set allowed_loop_types" by (simp add: k_def allowed_loop_types_def)
  note cs = c_def scaffold_contract_def k_def [symmetric] Let_def json_texts_def
  have kind: "loop_type_issues c = Inr []"
    using k by (simp add: loop_type_issues_def cs field_def error_if_def)
  have slug: "validate_slug (field c ''loop_id'') ''loop_id'' = []"
    using slug_valid [OF scaffold_slug [OF k]] by (simp add: cs field_def)
  have purpose: "text_issues c ''purpose'' = []"
    using assms by (simp add: text_issues_def cs field_def solid_cons is_ws_def error_if_def long_text_def json_text_def)
  have use: "text_issues c ''use_when'' = []"
    by (simp add: text_issues_def cs field_def solid_cons is_ws_def error_if_def long_text_def json_text_def)
  have steps: "concat (map (step_issues c) required_step_fields) = []"
    by (simp add: step_issues_def required_step_fields_def cs field_def solid_cons is_ws_def error_if_def long_text_def json_text_def)
  have stops: "stop_issues c = []" "bound_issues c = []"
    by (simp_all add: stop_issues_def bound_issues_def cs field_def error_if_def warn_if_def allowed_terminal_states_def blank_json_def)
  have "lower (strip ''external_send'') = ''external_send''" by code_simp
  then have gates: "approval_gates_present L c"
    by (simp add: approval_gates_present_def cs field_def approval_gate_terms_def str_of_def)
  have evidence: "evidence_issues L c = []"
    by (simp add: evidence_issues_def cs field_def warn_if_def str_of_def)
  have version: "json_eq_int (field c ''schema_version'') 1" by (simp add: cs field_def)
  show ?thesis unfolding c_def [symmetric]
    by (simp add: validate_loop_contract_def kind slug purpose use steps stops gates evidence version error_if_def warn_if_def)
qed

text \<open>It sets no wall clock limit, though, and the runner insists on one.\<close>

lemma scaffold_refused:
  assumes "length title \<le> 1165"
  shows "isl (runner_limits L F (scaffold_contract kind title) k)"
proof -
  have l: "object_or_empty (field (scaffold_contract kind title) ''limits'') =
      [(''max_iterations'', JInt 3), (''max_wall_minutes'', JNull), (''max_cost_usd'', JNull)]"
    by (simp add: scaffold_contract_def Let_def field_def object_or_empty_def)
  show ?thesis unfolding runner_limits_def scaffold_valid [OF assms] l
    by (simp add: has_errors_def Let_def field_def positive_int_def py_int_def wall_seconds_def blank_json_def)
qed

section \<open>Runs under the same name\<close>

lemma receipt_key: "otext (stored_key (i_key (receipt_input L r run session))) \<noteq> []"
  by (simp add: receipt_input_def Let_def stored_key_def strip_def lstrip_def is_ws_def dropWhile_eq_Nil_conv)

text \<open>
  A receipt is filed under its row, loop, run and iteration: another receipt for the same four is not
  stored, whatever it says, and the identifier of the first is returned.
\<close>

lemma receipt_kept_once:
  assumes "record_loop_receipt_event L env enabled r (Some run) session t l = Inr (l1, Some i)" "log_ok l" "recorded L l1 l2"
    and "field r' ''work_id'' = field r ''work_id''" "field r' ''loop_id'' = field r ''loop_id''"
    and "field r' ''iteration'' = field r ''iteration''" "\<not> has_errors (validate_loop_receipt L r')" "writer_enabled env' enabled'"
  shows "record_loop_receipt_event L env' enabled' r' (Some run) session' t' l2 = Inr (l2, Some i)"
proof -
  let ?e = "receipt_input L r (Some run) session" and ?e' = "receipt_input L r' (Some run) session'"
  have r: "record_run_event L env enabled ?e t l = Inr (l1, Some i)"
    using assms(1) by (simp add: record_loop_receipt_event_def split: if_split_asm)
  have same: "i_key ?e' = i_key ?e" "i_work ?e' = i_work ?e" "i_run ?e' = i_run ?e" "i_category ?e' = i_category ?e" "i_type ?e' = i_type ?e"
    using assms(4-6) by (simp_all add: receipt_input_def Let_def)
  have "validate_event_args ?e = Inr ()" using record_Inr [OF r] by auto
  then have v: "validate_event_args ?e' = Inr ()" unfolding validate_event_args_def same(2-5) .
  have "record_run_event L env' enabled' ?e' t' l2 = Inr (l2, Some i)"
    by (rule record_again [OF r assms(3) record_appends(1) [OF assms(2) r] _ receipt_key assms(8) v]) (simp add: same(1))
  with assms(7) show ?thesis by (simp add: record_loop_receipt_event_def)
qed

end
