(* ===== verification/TokenLedger.thy ===== *)
theory TokenLedger
  imports Loops
begin

text \<open>
  The token ledger (token_ledger_rollup.py): usage events of the event log and of the run event
  table, brought to one form, each logical usage counted once, summed per week, row, runner, model,
  source and reliability; and the warning of agent_cli.py when a row nears its budget. Ratios are
  exact rationals; a time is read to the day it falls on.
\<close>

section \<open>Days\<close>

text \<open>The date of a day counted from 1970-01-01, by eras of 400 years.\<close>

definition civil :: "int \<Rightarrow> int \<times> int \<times> int" where
  "civil day =
     (let z = day + 719468; era = z div 146097; doe = z mod 146097;
          yoe = (doe - doe div 1460 + doe div 36524 - doe div 146096) div 365;
          doy = doe - (365 * yoe + yoe div 4 - yoe div 100);
          mp = (5 * doy + 2) div 153;
          m = (if mp < 10 then mp + 3 else mp - 9)
      in (yoe + era * 400 + (if m \<le> 2 then 1 else 0), m, doy - (153 * mp + 2) div 5 + 1))"

definition zero_padded :: "nat \<Rightarrow> int \<Rightarrow> string" where
  "zero_padded k i = (let s = digits_of (nat i) in replicate (k - length s) CHR ''0'' @ s)"

definition iso_date :: "int \<Rightarrow> string" where
  "iso_date day = (case civil day of (y, m, d) \<Rightarrow> zero_padded 4 y @ ''-'' @ zero_padded 2 m @ ''-'' @ zero_padded 2 d)"

text \<open>1970-01-01 was a Thursday.\<close>

definition week_start :: "seconds \<Rightarrow> string" where
  "week_start t = (let day = \<lfloor>t / 86400\<rfloor> in iso_date (day - (day + 3) mod 7))"

section \<open>Usage events\<close>

record token_event =
  te_source :: string
  te_id :: int
  te_time :: seconds
  te_week :: string
  te_work :: string
  te_attributed :: bool
  te_runner :: string
  te_model :: string
  te_reliability :: string
  te_tokens :: int
  te_runner_source :: string
  te_run :: "string option"
  te_canonical :: "string option"
  te_aliases :: "string list"
  te_thread :: "string option"
  te_session :: "string option"
  te_usage :: string
  te_explicit :: bool

text \<open>An event that is left out, with the reason.\<close>

type_synonym skipped = "string \<times> int \<times> string"

definition safe_json :: "lib \<Rightarrow> json \<Rightarrow> pyrow" where
  "safe_json L j =
     (case j of
        JObj kvs \<Rightarrow> kvs
      | _ \<Rightarrow> (case loads L (str_of L (jor j (JStr ''{}''))) of Some (JObj kvs) \<Rightarrow> kvs | _ \<Rightarrow> []))"

definition text_or_unknown :: "lib \<Rightarrow> json \<Rightarrow> string" where
  "text_or_unknown L j = (let s = strip (str_or_empty L j) in if s = [] then ''unknown'' else s)"

definition tokens_of :: "json \<Rightarrow> int option" where
  "tokens_of j = (case py_int j of Some n \<Rightarrow> if 0 \<le> n then Some n else None | None \<Rightarrow> None)"

definition explicit_id :: "lib \<Rightarrow> json list \<Rightarrow> string option" where
  "explicit_id L js = first_row (filter (\<lambda>s. s \<noteq> []) (map (\<lambda>j. strip (str_or_empty L j)) js))"

definition usage_id_fields :: "string list" where
  "usage_id_fields = [''logical_usage_id'', ''usage_id'', ''call_id'', ''idempotency_key'']"

definition usage_reliability :: "lib \<Rightarrow> pyrow \<Rightarrow> string \<Rightarrow> string" where
  "usage_reliability L p source =
     (let explicit = lower (strip (str_or_empty L (jor (field p ''reliability'') (field p ''source_reliability'')))) in
      if explicit \<in> {''exact'', ''estimate''} then explicit
      else if field p ''estimated'' = JBool True \<or> field p ''tokens_estimated'' = JBool True then ''estimate''
      else if source = ''coord_events''
      then (if strip (str_or_empty L (field p ''runner_source'')) \<in> {''anthropic_usage'', ''codex_milestone'', ''mlx_lm''}
            then ''exact'' else ''estimate'')
      else ''exact'')"

definition zero_attribution :: "int \<Rightarrow> pyrow \<Rightarrow> bool" where
  "zero_attribution n p \<longleftrightarrow> n = 0 \<and> field p ''attribution_kind'' = JStr ''coord_cli_zero_attribution''"

definition work_or_ref :: "string option \<Rightarrow> string \<Rightarrow> string" where
  "work_or_ref work ref = (if clean work = [] then ''unattributed:'' @ ref else clean work)"

definition normalize_coord_row :: "lib \<Rightarrow> event_row \<Rightarrow> skipped + token_event" where
  "normalize_coord_row L e =
     (let p = safe_json L (e_payload e) in
      case tokens_of (field p ''tokens'') of
        None \<Rightarrow> Inl (''coord_events'', e_id e, ''invalid_tokens'')
      | Some n \<Rightarrow>
          if zero_attribution n (object_or_empty (field p ''metadata''))
          then Inl (''coord_events'', e_id e, ''coord_cli_zero_attribution'')
          else let usage = explicit_id L (map (field p) usage_id_fields @ [jopt (e_key e)]) in Inr
            \<lparr>te_source = ''coord_events'', te_id = e_id e, te_time = e_ts e, te_week = week_start (e_ts e),
             te_work = work_or_ref (e_work e) (''coord.events:'' @ int_text (e_id e)), te_attributed = (clean (e_work e) \<noteq> []),
             te_runner = text_or_unknown L (field p ''runner''), te_model = text_or_unknown L (field p ''model''),
             te_reliability = usage_reliability L p ''coord_events'', te_tokens = n,
             te_runner_source = text_or_unknown L (field p ''runner_source''), te_run = None, te_canonical = None, te_aliases = [],
             te_thread = None, te_session = e_session e,
             te_usage = (case usage of None \<Rightarrow> ''coord_events:'' @ int_text (e_id e) | Some u \<Rightarrow> u), te_explicit = (usage \<noteq> None)\<rparr>)"

definition normalize_run_event_row :: "lib \<Rightarrow> run_event \<Rightarrow> skipped + token_event" where
  "normalize_run_event_row L r =
     (let c = safe_json L (JStr (v_content r)); m = safe_json L (JStr (v_metadata r)) in
      case tokens_of (field c ''tokens'') of
        None \<Rightarrow> Inl (''run_events'', v_id r, ''invalid_tokens'')
      | Some n \<Rightarrow>
          if zero_attribution n m then Inl (''run_events'', v_id r, ''coord_cli_zero_attribution'')
          else let usage = explicit_id L (map (field c) usage_id_fields @ map (field m) usage_id_fields @ [jopt (v_key r)]) in Inr
            \<lparr>te_source = ''run_events'', te_id = v_id r, te_time = v_created r, te_week = week_start (v_created r),
             te_work = work_or_ref (Some (v_work r)) (''run_events:'' @ int_text (v_id r)), te_attributed = (strip (v_work r) \<noteq> []),
             te_runner = text_or_unknown L (field c ''caller''), te_model = text_or_unknown L (field c ''model''),
             te_reliability = usage_reliability L (fold (\<lambda>(k, v). set_key k v) c m) ''run_events'', te_tokens = n,
             te_runner_source = text_or_unknown L (field c ''caller''), te_run = Some (v_run r),
             te_canonical = canonical_run_id (Some (v_run r)), te_aliases = run_id_aliases (Some (v_run r)),
             te_thread = v_thread r, te_session = v_session r,
             te_usage = (case usage of None \<Rightarrow> ''run_events:'' @ int_text (v_id r) | Some u \<Rightarrow> u), te_explicit = (usage \<noteq> None)\<rparr>)"

section \<open>Counting every usage once\<close>

text \<open>\<open>_sort_id\<close> of a row identifier.\<close>

definition sort_id :: "int \<Rightarrow> string" where
  "sort_id i = zero_padded 20 i"

definition event_sort_key :: "token_event \<Rightarrow> string \<times> string \<times> string \<times> string \<times> string \<times> string" where
  "event_sort_key e = (te_week e, te_work e, te_runner e, te_model e, te_source e, sort_id (te_id e))"

definition source_preference :: "string \<Rightarrow> nat" where
  "source_preference s = (if s = ''run_events'' then 0 else if s = ''coord_events'' then 1 else 99)"

text \<open>A dictionary of lists: keys in the order they were first met, members in order.\<close>

definition groups :: "('a \<Rightarrow> 'k) \<Rightarrow> 'a list \<Rightarrow> ('k \<times> 'a list) list" where
  "groups f xs = map (\<lambda>k. (k, filter (\<lambda>x. f x = k) xs)) (first_met (map f xs))"

definition usage_key :: "token_event \<Rightarrow> string \<times> string" where
  "usage_key e = (te_work e, te_usage e)"

definition aliased :: "token_event \<Rightarrow> bool" where
  "aliased e \<longleftrightarrow> \<not> te_explicit e \<and> te_source e = ''run_events'' \<and> otext (te_canonical e) \<noteq> [] \<and> 1 < length (te_aliases e)"

definition alias_key :: "token_event \<Rightarrow> string \<times> string option \<times> string \<times> string \<times> string \<times> string \<times> int" where
  "alias_key e = (te_work e, te_canonical e, te_week e, te_runner e, te_model e, te_reliability e, te_tokens e)"

definition preferred :: "token_event list \<Rightarrow> token_event" where
  "preferred es = hd (sort_key (\<lambda>e. (source_preference (te_source e), sort_id (te_id e))) es)"

text \<open>Two mirrors of one event, filed under the two names of the run.\<close>

definition mirrored :: "token_event list \<Rightarrow> bool" where
  "mirrored es \<longleftrightarrow> length es = 2 \<and> set (map (\<lambda>e. otext (te_run e)) es) = set (te_aliases (hd es))"

definition alias_survivors :: "token_event list \<Rightarrow> token_event list" where
  "alias_survivors es = (if mirrored es then [hd (sort_key (\<lambda>e. sort_id (te_id e)) es)] else es)"

definition ledger_events :: "token_event list \<Rightarrow> token_event list" where
  "ledger_events es = sort_key event_sort_key
     (filter (\<lambda>e. \<not> te_explicit e \<and> \<not> aliased e) es @
      map (\<lambda>(k, g). preferred g) (groups usage_key (filter te_explicit es)) @
      concat (map (\<lambda>(k, g). alias_survivors g) (groups alias_key (filter aliased es))))"

record duplicate_group =
  dg_work :: string
  dg_usage :: string
  dg_canonical :: "string option"
  dg_source :: string
  dg_event :: int
  dg_dropped :: nat
  dg_runs :: "string list"
  dg_tokens :: "(string \<times> int) list"

definition tokens_in :: "token_event list \<Rightarrow> int" where
  "tokens_in es = sum_list (map te_tokens es)"

definition tokens_by_source :: "token_event list \<Rightarrow> (string \<times> int) list" where
  "tokens_by_source es = map (\<lambda>s. (s, tokens_in (filter (\<lambda>e. te_source e = s) es))) (sort (remdups (map te_source es)))"

definition explicit_duplicate :: "token_event list \<Rightarrow> duplicate_group" where
  "explicit_duplicate g =
     \<lparr>dg_work = te_work (preferred g), dg_usage = te_usage (preferred g), dg_canonical = None, dg_source = te_source (preferred g),
      dg_event = te_id (preferred g), dg_dropped = length g - 1, dg_runs = [], dg_tokens = tokens_by_source g\<rparr>"

definition alias_duplicate :: "token_event list \<Rightarrow> duplicate_group" where
  "alias_duplicate g =
     (let c = hd (sort_key (\<lambda>e. sort_id (te_id e)) g) in
      \<lparr>dg_work = te_work c, dg_usage = te_usage c, dg_canonical = te_canonical c, dg_source = te_source c, dg_event = te_id c,
       dg_dropped = 1, dg_runs = sort (remdups (map (\<lambda>e. otext (te_run e)) g)), dg_tokens = [(''run_events'', tokens_in g)]\<rparr>)"

definition duplicate_groups :: "token_event list \<Rightarrow> duplicate_group list" where
  "duplicate_groups es = sort_key (\<lambda>d. (dg_work d, otext (dg_canonical d), dg_usage d))
     (map explicit_duplicate (filter (\<lambda>g. 1 < length g) (map snd (groups usage_key (filter te_explicit es)))) @
      map alias_duplicate (filter mirrored (map snd (groups alias_key (filter aliased es)))))"

section \<open>Sums\<close>

type_synonym ledger_key = "string \<times> string \<times> string \<times> string \<times> string \<times> string"

definition ledger_key :: "token_event \<Rightarrow> ledger_key" where
  "ledger_key e = (te_week e, te_work e, te_runner e, te_model e, te_source e, te_reliability e)"

definition aggregate :: "token_event list \<Rightarrow> (ledger_key \<times> int \<times> nat) list" where
  "aggregate es = map (\<lambda>k. let g = filter (\<lambda>e. ledger_key e = k) es in (k, tokens_in g, length g)) (sort (remdups (map ledger_key es)))"

record rollup =
  ro_normalized :: "token_event list"
  ro_ledger :: "token_event list"
  ro_skipped :: "skipped list"
  ro_total :: int
  ro_observed :: int
  ro_truncated :: bool
  ro_aggregates :: "(ledger_key \<times> int \<times> nat) list"
  ro_ledger_aggregates :: "(ledger_key \<times> int \<times> nat) list"
  ro_examples :: "token_event list"
  ro_duplicates :: "duplicate_group list"

definition bounded_limit :: "json \<Rightarrow> int \<Rightarrow> nat" where
  "bounded_limit j d = (case py_int j of None \<Rightarrow> nat d | Some n \<Rightarrow> nat (max 0 n))"

text \<open>Newest first, up to the limit.\<close>

definition coord_token_rows :: "nat \<Rightarrow> db \<Rightarrow> event_row list" where
  "coord_token_rows n d = take n (sort_key (\<lambda>e. (- e_ts e, - e_id e)) (filter (\<lambda>e. e_kind e = ''token_usage'') (d_events d)))"

definition is_token_event :: "run_event \<Rightarrow> bool" where
  "is_token_event r \<longleftrightarrow> v_category r = ''token'' \<and> v_type r = ''token.usage''"

definition run_token_rows :: "nat \<Rightarrow> run_log \<Rightarrow> run_event list" where
  "run_token_rows n l = take n (sort_key (\<lambda>r. (- v_created r, - v_id r)) (filter is_token_event (rl_rows l)))"

definition rights :: "('a + 'b) list \<Rightarrow> 'b list" where
  "rights xs = List.map_filter (\<lambda>x. case x of Inl _ \<Rightarrow> None | Inr y \<Rightarrow> Some y) xs"

definition lefts :: "('a + 'b) list \<Rightarrow> 'a list" where
  "lefts xs = List.map_filter (\<lambda>x. case x of Inl y \<Rightarrow> Some y | Inr _ \<Rightarrow> None) xs"

definition normalized_rows :: "lib \<Rightarrow> nat \<Rightarrow> db \<Rightarrow> run_log \<Rightarrow> (skipped + token_event) list" where
  "normalized_rows L n d l = map (normalize_coord_row L) (coord_token_rows n d) @ map (normalize_run_event_row L) (run_token_rows n l)"

definition build_token_ledger_rollup :: "lib \<Rightarrow> nat \<Rightarrow> nat \<Rightarrow> nat \<Rightarrow> nat \<Rightarrow> db \<Rightarrow> run_log \<Rightarrow> rollup" where
  "build_token_ledger_rollup L event_limit aggregate_limit example_limit skipped_limit d l =
     (let rows = normalized_rows L event_limit d l; es = sort_key event_sort_key (rights rows); ledger = ledger_events es
      in \<lparr>ro_normalized = es, ro_ledger = ledger, ro_skipped = take skipped_limit (lefts rows), ro_total = tokens_in ledger,
          ro_observed = tokens_in es,
          ro_truncated = (event_limit < length (filter (\<lambda>e. e_kind e = ''token_usage'') (d_events d)) \<or>
            event_limit < length (filter is_token_event (rl_rows l))),
          ro_aggregates = take aggregate_limit (aggregate es), ro_ledger_aggregates = take aggregate_limit (aggregate ledger),
          ro_examples = take example_limit es, ro_duplicates = take skipped_limit (duplicate_groups es)\<rparr>)"

section \<open>Budgets\<close>

record budget_warning =
  bw_work :: string
  bw_budget :: int
  bw_used :: int

definition used_tokens :: "rollup \<Rightarrow> string \<Rightarrow> int" where
  "used_tokens R work = sum_list (map (\<lambda>(k, n, c). n) (filter (\<lambda>(k, n, c). fst (snd k) = work) (ro_ledger_aggregates R)))"

definition cell_int :: "cell \<Rightarrow> int option" where
  "cell_int c = (case c of CNull \<Rightarrow> None | CInt i \<Rightarrow> Some i | CReal q \<Rightarrow> Some (truncated_int q) | CText s \<Rightarrow> int_of_text s)"

definition token_budget :: "work_row \<Rightarrow> int option" where
  "token_budget w = (case map_of (w_other w) ''token_budget'' of None \<Rightarrow> None | Some c \<Rightarrow> cell_int c)"

definition token_budget_warning :: "lib \<Rightarrow> rat \<Rightarrow> string \<Rightarrow> db \<Rightarrow> run_log \<Rightarrow> budget_warning option" where
  "token_budget_warning L ratio work d l =
     (case workd d work of
        None \<Rightarrow> None
      | Some w \<Rightarrow>
          (case token_budget w of
             None \<Rightarrow> None
           | Some budget \<Rightarrow>
               if budget \<le> 0 then None
               else let used = used_tokens (build_token_ledger_rollup L 50000 50000 0 25 d l) work in
                 if of_int used / of_int budget < ratio then None
                 else Some \<lparr>bw_work = work, bw_budget = budget, bw_used = used\<rparr>))"

end
