(* ===== verification/Policy.thy ===== *)
theory Policy
  imports TokenLedger
begin

text \<open>
  The policy pipeline in front of every write (policy/pipeline.py) with the output budget
  (output_budget.py) and the deferred tools (deferred_tools.py): what a pass may answer, how its mode
  adjusts the answer, the seven passes and the modes a boundary runs them in. The database is read
  only; the log of run events is the state the passes thread. Details hold the fields that decide
  something; an environment variable is an argument.
\<close>

section \<open>Passes and modes\<close>

datatype pass_mode = Report | Warn | Enforce

datatype pass_status = Pass_ok | Pass_warning | Pass_block

record pass_result =
  pr_name :: string
  pr_status :: pass_status
  pr_reason :: string
  pr_severity :: string
  pr_detail :: pyrow
  pr_blocking :: bool
  pr_lifecycle :: bool

definition pass_report :: "string \<Rightarrow> string \<Rightarrow> pyrow \<Rightarrow> pass_result" where
  "pass_report name reason detail = \<lparr>pr_name = name, pr_status = Pass_ok, pr_reason = reason, pr_severity = ''info'',
     pr_detail = detail, pr_blocking = True, pr_lifecycle = False\<rparr>"

definition pass_warn :: "string \<Rightarrow> string \<Rightarrow> pyrow \<Rightarrow> bool \<Rightarrow> pass_result" where
  "pass_warn name reason detail blocking = \<lparr>pr_name = name, pr_status = Pass_warning, pr_reason = reason,
     pr_severity = ''warning'', pr_detail = detail, pr_blocking = blocking, pr_lifecycle = False\<rparr>"

definition pass_block :: "string \<Rightarrow> string \<Rightarrow> pyrow \<Rightarrow> bool \<Rightarrow> pass_result" where
  "pass_block name reason detail blocking = \<lparr>pr_name = name, pr_status = Pass_block, pr_reason = reason,
     pr_severity = ''error'', pr_detail = detail, pr_blocking = blocking, pr_lifecycle = False\<rparr>"

definition mode_adjusted :: "pass_result \<Rightarrow> pass_mode \<Rightarrow> pass_result" where
  "mode_adjusted r mode =
     (if pr_lifecycle r then pass_block (pr_name r) ''policy pass attempted lifecycle mutation'' [] True
      else if pr_status r = Pass_block \<and> (mode \<noteq> Enforce \<or> \<not> pr_blocking r)
      then pass_warn (pr_name r) (pr_reason r) (pr_detail r) (pr_blocking r)
      else if pr_status r = Pass_warning \<and> mode = Report then pass_report (pr_name r) (pr_reason r) (pr_detail r)
      else r)"

text \<open>A pass reads its context, may write to the state and may fail.\<close>

record ('c, 's) policy_pass =
  pp_name :: string
  pp_mode :: pass_mode
  pp_handler :: "'c \<Rightarrow> 's \<Rightarrow> 's \<times> (err + pass_result)"

record policy_row =
  row_order :: nat
  row_mode :: pass_mode
  row_result :: pass_result

record policy_outcome =
  po_blocked :: bool
  po_reason :: "string option"
  po_rows :: "policy_row list"
  po_warnings :: "policy_row list"

definition fresh_outcome :: policy_outcome where
  "fresh_outcome = \<lparr>po_blocked = False, po_reason = None, po_rows = [], po_warnings = []\<rparr>"

definition with_row :: "policy_outcome \<Rightarrow> policy_row \<Rightarrow> policy_outcome" where
  "with_row q row = q\<lparr>po_rows := po_rows q @ [row],
     po_warnings := po_warnings q @ (if pr_status (row_result row) = Pass_warning then [row] else []),
     po_blocked := pr_status (row_result row) = Pass_block,
     po_reason := (if pr_status (row_result row) = Pass_block then Some (pr_reason (row_result row)) else None)\<rparr>"

fun run_passes :: "'c \<Rightarrow> ('c, 's) policy_pass list \<Rightarrow> policy_outcome \<Rightarrow> 's \<Rightarrow> 's \<times> (err + policy_outcome)" where
  "run_passes c [] q s = (s, Inr q)"
| "run_passes c (p # ps) q s =
     (case pp_handler p c s of
        (s', Inl e) \<Rightarrow> (s', Inl e)
      | (s', Inr r) \<Rightarrow>
          let q' = with_row q \<lparr>row_order = length (po_rows q) + 1, row_mode = pp_mode p, row_result = mode_adjusted r (pp_mode p)\<rparr>
          in if po_blocked q' then (s', Inr q') else run_passes c ps q' s')"

definition run_policy_pipeline :: "'c \<Rightarrow> ('c, 's) policy_pass list \<Rightarrow> 's \<Rightarrow> 's \<times> (err + policy_outcome)" where
  "run_policy_pipeline c ps s = run_passes c ps fresh_outcome s"

section \<open>Contexts\<close>

record policy_context =
  cx_work :: string
  cx_boundary :: string
  cx_action :: string
  cx_run :: "string option"
  cx_session :: "string option"
  cx_actor :: "string option"
  cx_payload :: pyrow
  cx_metadata :: pyrow
  cx_conn :: bool

text \<open>What the passes read beside the context: the database, the environment and the clock.\<close>

record policy_env =
  pe_lib :: lib
  pe_db :: db
  pe_time :: seconds
  pe_writer :: "string option"
  pe_output :: "string option"
  pe_catalog :: "string option"
  pe_manifest :: "string option"

type_synonym handler = "policy_context \<Rightarrow> run_log \<Rightarrow> run_log \<times> (err + pass_result)"

definition payload_row :: "pyrow \<Rightarrow> pyrow" where
  "payload_row p = object_or_empty (jor (jor (field p ''row'') (field p ''work_fields'')) (JObj []))"

section \<open>Creation lint and loop doctor\<close>

definition creation_lint :: handler where
  "creation_lint c l =
     (let missing = strip (cx_work c) = [];
          detail = [(''boundary'', JStr (cx_boundary c)), (''action'', JStr (cx_action c)), (''has_work_id'', JBool (\<not> missing))]
      in (l, Inr (if cx_action c \<in> {''handoff'', ''claim'', ''launch''} \<and> missing
                  then pass_warn ''creation_lint'' ''write is missing work_id'' detail True
                  else pass_report ''creation_lint'' ''creation metadata observed'' detail)))"

definition event_dict :: "run_event \<Rightarrow> json" where
  "event_dict r = JObj [(''id'', JInt (v_id r)), (''work_id'', JStr (v_work r)), (''run_id'', JStr (v_run r)),
     (''thread_id'', jopt (v_thread r)), (''session_id'', jopt (v_session r)), (''seq'', JInt (v_seq r)),
     (''category'', JStr (v_category r)), (''event_type'', JStr (v_type r)), (''content_json'', JStr (v_content r)),
     (''metadata_json'', JStr (v_metadata r)), (''idempotency_key'', jopt (v_key r)), (''created_at'', JFloat (v_created r))]"

definition tool_query :: "string \<Rightarrow> int \<Rightarrow> run_query" where
  "tool_query work n = \<lparr>q_thread = None, q_run = None, q_work = Some work, q_category = Some ''tool'', q_type = None,
     q_after = None, q_limit = n\<rparr>"

text \<open>The events the caller supplies, else the last of the row; None where the limit is not a number.\<close>

definition recent_tool_events :: "policy_context \<Rightarrow> run_log \<Rightarrow> json option" where
  "recent_tool_events c l =
     (let given = field (cx_payload c) ''recent_tool_events'' in
      if \<not> truthy given \<and> cx_conn c \<and> strip (cx_work c) \<noteq> []
      then map_option (\<lambda>n. JList (map event_dict (list_run_events (tool_query (cx_work c) n) l)))
        (py_int (jor (field (cx_metadata c) ''loop_doctor_event_limit'') (JInt 25)))
      else Some given)"

definition risky :: "suggestion \<Rightarrow> bool" where
  "risky s \<longleftrightarrow> sg_risk s \<in> {''expensive'', ''dangerous'', ''expensive_or_dangerous''}"

definition suggestion_json :: "suggestion \<Rightarrow> json" where
  "suggestion_json s = JObj [(''work_id'', JStr (sg_work s)), (''tool_name'', JStr (sg_tool s)), (''risk'', JStr (sg_risk s)),
     (''event_count'', JInt (int (sg_count s)))]"

definition row_doctor :: "lib \<Rightarrow> policy_context \<Rightarrow> pass_result" where
  "row_doctor L c =
     (let row = payload_row (cx_payload c) in
      if row = [] then pass_report ''loop_doctor'' ''no row payload supplied'' []
      else case claim_warning_for_row L row of
          Inl e \<Rightarrow> pass_warn ''loop_doctor'' ''loop doctor unavailable'' [] True
        | Inr (Some w) \<Rightarrow> pass_warn ''loop_doctor'' w [] True
        | Inr None \<Rightarrow> pass_report ''loop_doctor'' ''loop contract check passed'' [])"

definition loop_doctor :: "policy_env \<Rightarrow> handler" where
  "loop_doctor E c l = (l, Inr (
     if cx_action c = ''heartbeat'' \<and> \<not> truthy (field (cx_payload c) ''recent_tool_events'')
     then pass_report ''loop_doctor'' ''loop doctor skipped for heartbeat'' [(''skipped'', JBool True)]
     else case recent_tool_events c l of
         None \<Rightarrow> pass_warn ''loop_doctor'' ''loop event scan unavailable'' [] True
       | Some (JList (e # es)) \<Rightarrow>
           (case loop_doctor_suggestions (pe_lib E) (e # es) 10 of
              Inl _ \<Rightarrow> pass_warn ''loop_doctor'' ''loop doctor unavailable'' [] True
            | Inr ss \<Rightarrow>
                (case filter risky ss of
                   [] \<Rightarrow> row_doctor (pe_lib E) c
                 | rs \<Rightarrow> pass_warn ''loop_doctor'' ''repeated expensive/dangerous tool pattern detected''
                     [(''suggestion_count'', JInt (int (length rs))), (''suggestions'', JList (map suggestion_json (take 5 rs)))] True))
       | Some _ \<Rightarrow> row_doctor (pe_lib E) c))"

section \<open>Budgets and status\<close>

definition budget_detail :: "budget_warning \<Rightarrow> pyrow" where
  "budget_detail b = [(''work_id'', JStr (bw_work b)), (''budget'', JInt (bw_budget b)), (''used'', JInt (bw_used b)),
     (''remaining'', JInt (bw_budget b - bw_used b)), (''over_budget'', JBool (bw_budget b < bw_used b))]"

definition token_budget_pass :: "policy_env \<Rightarrow> handler" where
  "token_budget_pass E c l = (l, Inr (
     if cx_action c = ''heartbeat'' then pass_report ''token_budget'' ''token budget skipped for heartbeat'' [(''skipped'', JBool True)]
     else if \<not> cx_conn c then pass_report ''token_budget'' ''no coord connection supplied'' []
     else case token_budget_warning (pe_lib E) (4 / 5) (cx_work c) (pe_db E) l of
         Some b \<Rightarrow> pass_warn ''token_budget'' ''token budget threshold reached'' (budget_detail b) True
       | None \<Rightarrow> pass_report ''token_budget'' ''token budget within warn threshold'' []))"

definition structured_status :: "policy_env \<Rightarrow> handler" where
  "structured_status E c l =
     (let row = payload_row (cx_payload c); reason = (if row = [] then None else done_terminal_block_reason (pe_lib E) row)
      in (l, Inr (case reason of
            Some r \<Rightarrow> if cx_action c = ''done'' then pass_block ''structured_status'' r [] True
                      else pass_report ''structured_status'' ''structured status observed'' []
          | None \<Rightarrow> pass_report ''structured_status'' ''structured status observed'' [])))"

definition env_on :: "string option \<Rightarrow> bool" where
  "env_on env = flag_on (case env of None \<Rightarrow> ''1'' | Some s \<Rightarrow> s)"

definition inline_output_limit :: int where
  "inline_output_limit = 12000"

text \<open>A limit that is not a number raises; a size that is not one counts as nothing.\<close>

definition output_budget_pass :: "policy_env \<Rightarrow> handler" where
  "output_budget_pass E c l =
     (case py_int (jor (field (cx_metadata c) ''inline_output_limit'') (JInt inline_output_limit)) of
        None \<Rightarrow> (l, Inl (ValueErr ''inline_output_limit''))
      | Some limit \<Rightarrow>
          let given = field (cx_payload c) ''output_bytes'';
              bytes = (if given = JNull \<and> has_key (cx_payload c) ''output_text''
                then JInt (int (length (str_or_empty (pe_lib E) (field (cx_payload c) ''output_text'')))) else given);
              size = (case py_int bytes of None \<Rightarrow> 0 | Some n \<Rightarrow> n);
              detail = [(''inline_limit'', JInt limit), (''output_bytes'', JInt size), (''enabled'', JBool (env_on (pe_output E)))]
          in (l, Inr (
            if bytes = JNull then pass_report ''output_budget'' ''no inline output supplied'' [(''inline_limit'', JInt limit), (''skipped'', JBool True)]
            else if \<not> env_on (pe_output E) then pass_report ''output_budget'' ''output budget disabled by kill switch'' detail
            else if limit < size then pass_warn ''output_budget'' ''inline output exceeds budget'' detail True
            else pass_report ''output_budget'' ''inline output within budget'' detail)))"

section \<open>Run events\<close>

definition emit_keys :: "string list" where
  "emit_keys = [''artifact_kind'', ''artifact_path'', ''job_id'', ''kind'', ''output_bytes'', ''reason'', ''status'', ''task_mode'']"

definition compact_emit_content :: "lib \<Rightarrow> policy_context \<Rightarrow> json" where
  "compact_emit_content L c =
     (let p = cx_payload c in JObj (
        [(''boundary'', JStr (cx_boundary c)), (''action'', JStr (cx_action c)), (''work_id'', JStr (cx_work c)), (''actor'', jopt (cx_actor c))] @
        (if otext (cx_run c) = [] then [] else [(''run_id'', jopt (cx_run c))]) @
        (if otext (cx_session c) = [] then [] else [(''session_id'', jopt (cx_session c))]) @
        map (\<lambda>k. (k, field p k)) (filter (\<lambda>k. field p k \<noteq> JNull) emit_keys) @
        (if field p ''step'' = JNull then [] else [(''step'', JStr (take 300 (str_or_empty L (field p ''step''))))])))"

definition or_text :: "string \<Rightarrow> string \<Rightarrow> string" where
  "or_text a b = (if a = [] then b else a)"

definition emit_run :: "policy_context \<Rightarrow> string" where
  "emit_run c = or_text (otext (cx_run c))
     (cx_boundary c @ '':'' @ or_text (otext (cx_session c)) (or_text (otext (cx_actor c)) ''unknown'') @ '':'' @ cx_work c)"

definition emitted_usage :: "lib \<Rightarrow> policy_context \<Rightarrow> string \<Rightarrow> pyrow \<Rightarrow> int \<Rightarrow> usage_args" where
  "emitted_usage L c run u n =
     (let text_or = (\<lambda>k d. or_text (str_or_empty L (field u k)) d) in
      \<lparr>ua_work = cx_work c, ua_run = run, ua_caller = text_or ''caller'' (or_text (otext (cx_actor c)) (cx_boundary c)),
       ua_model = text_or ''model'' (cx_boundary c), ua_tokens = n, ua_source = text_or ''source'' (cx_boundary c),
       ua_usage = strip (str_or_empty L (field u ''logical_usage_id'')),
       ua_metadata = JObj (fold (\<lambda>(k, v). set_key k v) (object_or_empty (field u ''metadata''))
         [(''adapter'', JStr ''policy.run_event_emit.token_usage.v1''), (''boundary'', JStr (cx_boundary c)), (''action'', JStr (cx_action c))]),
       ua_thread = cx_session c, ua_session = cx_session c, ua_reliability = text_or ''source_reliability'' ''exact''\<rparr>)"

text \<open>A usage that cannot be recorded is reported in the detail, never raised.\<close>

definition emit_token_usage :: "policy_env \<Rightarrow> policy_context \<Rightarrow> string \<Rightarrow> run_log \<Rightarrow> run_log \<times> json" where
  "emit_token_usage E c run l =
     (case field (cx_payload c) ''token_usage'' of
        JObj u \<Rightarrow>
          if strip (str_or_empty (pe_lib E) (field u ''logical_usage_id'')) = []
          then (l, JObj [(''error'', JStr ''token_usage.logical_usage_id missing'')])
          else (case py_int (jor (field u ''tokens'') (JInt 0)) of
              None \<Rightarrow> (l, JObj [(''error'', JStr ''token_usage.tokens invalid'')])
            | Some n \<Rightarrow>
                if n \<le> 0 then (l, JObj [(''skipped'', JBool True), (''reason'', JStr ''non_positive_tokens''), (''tokens'', JInt n)])
                else (case record_measured_token_usage (pe_lib E) (pe_writer E) None (emitted_usage (pe_lib E) c run u n) (pe_time E) l of
                    Inl _ \<Rightarrow> (l, JObj [(''error'', JStr ''ValueError'')])
                  | Inr (l', res) \<Rightarrow> (l', JObj [(''enabled'', JBool (ur_enabled res)), (''deduped'', JBool (ur_deduped res)),
                      (''event_id'', (case ur_event res of None \<Rightarrow> JNull | Some i \<Rightarrow> JInt i)), (''inserted'', JBool (ur_inserted res))])))
      | _ \<Rightarrow> (l, JNull))"

definition emit_input :: "lib \<Rightarrow> policy_context \<Rightarrow> string \<Rightarrow> run_input" where
  "emit_input L c category =
     \<lparr>i_work = cx_work c, i_run = emit_run c, i_category = category, i_type = ''policy.'' @ cx_boundary c @ ''.'' @ cx_action c,
      i_content = compact_emit_content L c,
      i_metadata = JObj [(''adapter'', JStr ''policy.run_event_emit.v1''), (''append_only_evidence'', JBool True),
        (''authoritative_lifecycle'', JBool False), (''lifecycle_phase'', JStr ''precheck''), (''mutates_work_items'', JBool False),
        (''pass'', JStr ''run_event_emit'')],
      i_thread = cx_session c, i_session = cx_session c, i_key = None\<rparr>"

definition emit_category :: "lib \<Rightarrow> policy_context \<Rightarrow> string" where
  "emit_category L c =
     (let s = lower (strip (str_of L (jor (field (cx_payload c) ''run_event_category'') (JStr ''trace''))))
      in if s \<in> set allowed_categories then s else ''trace'')"

definition emit_skipped :: "policy_context \<Rightarrow> string option" where
  "emit_skipped c =
     (if field (cx_metadata c) ''read_only'' = JBool True then Some ''policy run event skipped for read-only evaluation''
      else if cx_boundary c = ''mcp'' \<and> cx_action c = ''heartbeat'' then Some ''policy run event skipped for MCP heartbeat''
      else if \<not> cx_conn c then Some ''no coord connection supplied''
      else if strip (cx_work c) = [] then Some ''missing work_id; skipped run event emission''
      else None)"

definition run_event_emit :: "policy_env \<Rightarrow> handler" where
  "run_event_emit E c l =
     (let category = emit_category (pe_lib E) c; detail = [(''category'', JStr category), (''boundary'', JStr (cx_boundary c))] in
      case emit_skipped c of
        Some why \<Rightarrow> (l, Inr (pass_report ''run_event_emit'' why (detail @ [(''emitted'', JBool False)])))
      | None \<Rightarrow> (case record_run_event (pe_lib E) (pe_writer E) None (emit_input (pe_lib E) c category) (pe_time E) l of
          Inl _ \<Rightarrow> (l, Inr (pass_warn ''run_event_emit'' ''run event store unavailable'' detail False))
        | Inr (l1, i) \<Rightarrow>
            (case emit_token_usage E c (emit_run c) l1 of (l2, usage) \<Rightarrow>
               (l2, Inr (pass_report ''run_event_emit'' ''run event emission is best effort'' (detail @
                  [(''emitted'', JBool (i \<noteq> None)), (''event_id'', (case i of None \<Rightarrow> JNull | Some k \<Rightarrow> JInt k)),
                   (''run_id'', JStr (emit_run c)), (''token_usage'', usage)]))))))"

section \<open>Deferred tools\<close>

definition deferred_heavy_tools :: "string list" where
  "deferred_heavy_tools = [''handoff_existing'']"

text \<open>No promotion manifest is accepted in the code as it stands; the table is an argument.\<close>

definition hex_digest :: "string \<Rightarrow> bool" where
  "hex_digest s \<longleftrightarrow> length s = 64 \<and> list_all (\<lambda>c. is_digit c \<or> (let n = (of_char c :: nat) in 97 \<le> n \<and> n \<le> 102)) s"

definition supplied_manifest :: "string option \<Rightarrow> string" where
  "supplied_manifest env = (if hex_digest (clean env) then clean env else [])"

definition promoted_tools :: "(string \<times> string) list \<Rightarrow> string option \<Rightarrow> string option \<Rightarrow> string list \<Rightarrow> string list" where
  "promoted_tools accepted catalog manifest requested =
     filter (\<lambda>t. env_on catalog \<and> hex_digest (supplied_manifest manifest) \<and>
       (case map_of accepted t of None \<Rightarrow> False | Some m \<Rightarrow> hex_digest m \<and> supplied_manifest manifest = m)) requested"

definition filter_deferred_tools ::
  "(string \<times> string) list \<Rightarrow> string option \<Rightarrow> string option \<Rightarrow> string list \<Rightarrow> string list \<Rightarrow> string list \<times> string list" where
  "filter_deferred_tools accepted catalog manifest requested tools =
     (let promoted = promoted_tools accepted catalog manifest requested;
          held = (\<lambda>t. t \<in> set deferred_heavy_tools \<and> t \<notin> set promoted); registered = sort (remdups tools)
      in (filter (\<lambda>t. \<not> held t) registered, filter held registered))"

definition accepted_manifests :: "(string \<times> string) list" where
  "accepted_manifests = []"

text \<open>\<open>set(metadata.get("promoted_tools") or set())\<close>; None where Python raises.\<close>

definition requested_promotions :: "lib \<Rightarrow> json \<Rightarrow> string list option" where
  "requested_promotions L j =
     (if \<not> truthy j then Some []
      else case j of
          JList xs \<Rightarrow> if list_ex (\<lambda>x. case x of JList _ \<Rightarrow> True | JObj _ \<Rightarrow> True | _ \<Rightarrow> False) xs then None else Some (map (str_of L) xs)
        | JObj kvs \<Rightarrow> Some (map fst kvs)
        | JStr s \<Rightarrow> Some (map (\<lambda>ch. [ch]) s)
        | _ \<Rightarrow> None)"

definition deferred_tool_catalog :: "policy_env \<Rightarrow> handler" where
  "deferred_tool_catalog E c l =
     (case jor (field (cx_payload c) ''tool_names'') (JList []) of
        JList tools \<Rightarrow>
          (case requested_promotions (pe_lib E) (field (cx_metadata c) ''promoted_tools'') of
             None \<Rightarrow> (l, Inl (ValueErr ''promoted_tools''))
           | Some requested \<Rightarrow>
               (case filter_deferred_tools accepted_manifests (pe_catalog E) (pe_manifest E) requested (map (str_of (pe_lib E)) tools) of
                  (visible, deferred) \<Rightarrow>
                    let detail = [(''visible'', JList (map JStr visible)), (''deferred'', JList (map JStr deferred))]
                    in (l, Inr (if deferred \<noteq> [] then pass_warn ''deferred_tool_catalog'' ''heavy tools deferred until promoted'' detail True
                                else pass_report ''deferred_tool_catalog'' ''tool catalog visible set allowed'' detail))))
      | _ \<Rightarrow> (l, Inr (pass_report ''deferred_tool_catalog'' ''no tool catalog payload supplied'' [])))"

section \<open>The boundary\<close>

definition pass_order :: "string list" where
  "pass_order = [''creation_lint'', ''loop_doctor'', ''token_budget'', ''structured_status'', ''output_budget'', ''run_event_emit'',
     ''deferred_tool_catalog'']"

type_synonym modes = "(string \<times> pass_mode) list"

definition default_pass_modes :: modes where
  "default_pass_modes = map (\<lambda>n. (n, if n = ''run_event_emit'' then Report else Warn)) pass_order"

definition mode_of_text :: "json \<Rightarrow> pass_mode option" where
  "mode_of_text j = (if j = JStr ''report'' then Some Report else if j = JStr ''warn'' then Some Warn
     else if j = JStr ''enforce'' then Some Enforce else None)"

text \<open>The modes of the configuration file; anything malformed as a whole counts as none.\<close>

definition configured_modes :: "json option \<Rightarrow> modes" where
  "configured_modes file =
     (case file of
        Some (JObj file_obj) \<Rightarrow>
          (case field file_obj ''harness_policy_modes'' of
             JObj kvs \<Rightarrow>
               let known = filter (\<lambda>(k, v). k \<in> set pass_order) kvs
               in if list_ex (\<lambda>(k, v). case v of JList _ \<Rightarrow> True | JObj _ \<Rightarrow> True | _ \<Rightarrow> False) known then []
                  else List.map_filter (\<lambda>(k, v). map_option (\<lambda>m. (k, m)) (mode_of_text v)) known
           | _ \<Rightarrow> [])
      | _ \<Rightarrow> [])"

definition mode_for :: "modes \<Rightarrow> modes \<Rightarrow> string \<Rightarrow> pass_mode" where
  "mode_for configured modes name = the (map_of (modes @ configured @ default_pass_modes) name)"

definition handler_for :: "policy_env \<Rightarrow> string \<Rightarrow> handler" where
  "handler_for E name =
     (if name = ''creation_lint'' then creation_lint
      else if name = ''loop_doctor'' then loop_doctor E
      else if name = ''token_budget'' then token_budget_pass E
      else if name = ''structured_status'' then structured_status E
      else if name = ''output_budget'' then output_budget_pass E
      else if name = ''run_event_emit'' then run_event_emit E
      else deferred_tool_catalog E)"

definition default_policy_passes :: "policy_env \<Rightarrow> modes \<Rightarrow> modes \<Rightarrow> (policy_context, run_log) policy_pass list" where
  "default_policy_passes E configured modes =
     map (\<lambda>n. \<lparr>pp_name = n, pp_mode = mode_for configured modes n, pp_handler = handler_for E n\<rparr>) pass_order"

definition has_structured_terminal_status :: "lib \<Rightarrow> pyrow \<Rightarrow> bool" where
  "has_structured_terminal_status L payload = (done_terminal_state L (payload_row payload) \<noteq> None)"

definition boundary_modes :: "lib \<Rightarrow> string \<Rightarrow> pyrow \<Rightarrow> modes \<Rightarrow> modes" where
  "boundary_modes L action payload modes =
     (if action = ''done'' \<and> has_structured_terminal_status L payload then (''structured_status'', Enforce) # modes else modes)"

definition run_boundary_policy ::
  "policy_env \<Rightarrow> modes \<Rightarrow> modes \<Rightarrow> policy_context \<Rightarrow> run_log \<Rightarrow> run_log \<times> (err + policy_outcome)" where
  "run_boundary_policy E configured modes c l =
     run_policy_pipeline c (default_policy_passes E configured (boundary_modes (pe_lib E) (cx_action c) (cx_payload c) modes)) l"

section \<open>Output that is too long\<close>

record clipped =
  cl_text :: string
  cl_truncated :: bool
  cl_bytes :: nat
  cl_artifact :: "(string \<times> string) option"

text \<open>The file that receives the whole text is its path and its content.\<close>

definition apply_output_budget :: "lib \<Rightarrow> string option \<Rightarrow> string \<Rightarrow> int \<Rightarrow> string option \<Rightarrow> string \<Rightarrow> clipped" where
  "apply_output_budget L env content limit dir pre =
     (if \<not> env_on env \<or> int (length content) \<le> limit
      then \<lparr>cl_text = content, cl_truncated = False, cl_bytes = length content, cl_artifact = None\<rparr>
      else \<lparr>cl_text = take (nat (max 0 limit)) content, cl_truncated = True, cl_bytes = length content,
        cl_artifact = map_option (\<lambda>d. (d @ ''/'' @ pre @ ''-'' @ take 16 (sha256 L content) @ ''.txt'', content)) dir\<rparr>)"

end
