(* ===== verification/TokenLedgerFacts.thy ===== *)
theory TokenLedgerFacts
  imports TokenLedger RunEventFacts LoopFacts
begin

text \<open>
  The ledger counts every logical usage once: an explicit usage has exactly one ledger event, taken
  from the preferred source, events without a key are all kept, and the sums over the aggregates are
  the sums over the ledger. A measured usage that is recorded adds its tokens once.
\<close>

section \<open>Groups\<close>

lemma first_met_simps [simp]: "set (first_met xs) = set xs" "distinct (first_met xs)"
  by (simp_all add: first_met_def)

lemma distinct_keys_mset: "distinct ks \<Longrightarrow> distinct ks' \<Longrightarrow> set ks = set ks' \<Longrightarrow> mset ks = mset ks'"
  by (simp add: set_eq_iff_mset_eq_distinct)

text \<open>A list is split by a key into parts, wherever every key occurs once.\<close>

lemma mset_by_key:
  assumes "distinct ks" "f ` set xs \<subseteq> set ks"
  shows "mset (concat (map (\<lambda>k. filter (\<lambda>x. f x = k) xs) ks)) = mset xs"
  using assms
proof (induction ks arbitrary: xs)
  case (Cons k ks)
  let ?ys = "filter (\<lambda>x. f x \<noteq> k) xs"
  have "f ` set ?ys \<subseteq> set ks" using Cons.prems(2) by auto
  then have ih: "mset (concat (map (\<lambda>k. filter (\<lambda>x. f x = k) ?ys) ks)) = mset ?ys"
    by (rule Cons.IH [rotated]) (use Cons.prems(1) in simp)
  have "filter (\<lambda>x. f x = k') ?ys = filter (\<lambda>x. f x = k') xs" if "k' \<in> set ks" for k'
    using Cons.prems(1) that by (auto intro!: filter_cong)
  then have "map (\<lambda>k. filter (\<lambda>x. f x = k) ?ys) ks = map (\<lambda>k. filter (\<lambda>x. f x = k) xs) ks"
    by (intro map_cong refl)
  from ih [unfolded this] have "mset (concat (map (\<lambda>k. filter (\<lambda>x. f x = k) xs) ks)) = mset ?ys" .
  then show ?case by (simp only: list.map concat.simps mset_append mset_filter) (rule multiset_partition [symmetric])
qed simp

lemma groups_mset: "mset (concat (map snd (groups f xs))) = mset xs"
  using mset_by_key [of "first_met (map f xs)" f xs] by (simp add: groups_def comp_def)

lemma groups_member: "(k, g) \<in> set (groups f xs) \<longleftrightarrow> k \<in> f ` set xs \<and> g = filter (\<lambda>x. f x = k) xs"
  by (auto simp: groups_def)

lemma tokens_in_mset: "tokens_in es = sum_mset (image_mset te_tokens (mset es))"
  unfolding tokens_in_def by (simp only: mset_map [symmetric] sum_mset_sum_list)

lemma tokens_mset: "mset es = mset es' \<Longrightarrow> tokens_in es = tokens_in es'"
  by (simp add: tokens_in_mset)

lemma tokens_in_simps [simp]:
  "tokens_in [] = 0" "tokens_in (e # es) = te_tokens e + tokens_in es" "tokens_in (xs @ ys) = tokens_in xs + tokens_in ys"
  by (simp_all add: tokens_in_def)

lemma sum_by_key:
  assumes "distinct ks" "f ` set xs \<subseteq> set ks"
  shows "sum_list (map (\<lambda>k. tokens_in (filter (\<lambda>x. f x = k) xs)) ks) = tokens_in xs"
proof -
  have "sum_list (map (\<lambda>k. tokens_in (g k)) ks) = tokens_in (concat (map g ks))" for g :: "'a \<Rightarrow> token_event list"
    by (induction ks) simp_all
  then show ?thesis using tokens_mset [OF mset_by_key [OF assms]] by simp
qed

section \<open>The preferred event\<close>

lemma hd_sort_key: "xs \<noteq> [] \<Longrightarrow> hd (sort_key f xs) \<in> set xs \<and> (\<forall>x \<in> set xs. f (hd (sort_key f xs)) \<le> f x)"
proof -
  assume "xs \<noteq> []"
  then obtain y ys where y: "sort_key f xs = y # ys" by (cases "sort_key f xs") (metis set_empty set_sort, blast)
  have "sorted (map f (y # ys))" using sorted_sort_key [of f xs] y by simp
  moreover have "set xs = set (y # ys)" using y by (metis set_sort)
  ultimately show ?thesis using y by auto
qed

lemma preferred_in: "g \<noteq> [] \<Longrightarrow> preferred g \<in> set g"
  unfolding preferred_def using hd_sort_key by blast

lemma preferred_source: "e \<in> set g \<Longrightarrow> source_preference (te_source (preferred g)) \<le> source_preference (te_source e)"
proof -
  assume e: "e \<in> set g"
  then have "g \<noteq> []" by auto
  from hd_sort_key [OF this, of "\<lambda>e. (source_preference (te_source e), sort_id (te_id e))"] e
  show ?thesis unfolding preferred_def by (fastforce simp: less_eq_prod_def)
qed

lemma preferred_one [simp]: "preferred [e] = e"
  by (simp add: preferred_def)

section \<open>The ledger\<close>

definition explicit_part :: "token_event list \<Rightarrow> token_event list" where
  "explicit_part es = map (\<lambda>(k, g). preferred g) (groups usage_key (filter te_explicit es))"

definition alias_part :: "token_event list \<Rightarrow> token_event list" where
  "alias_part es = concat (map (\<lambda>(k, g). alias_survivors g) (groups alias_key (filter aliased es)))"

lemma ledger_mset:
  "mset (ledger_events es) = mset (filter (\<lambda>e. \<not> te_explicit e \<and> \<not> aliased e) es) + mset (explicit_part es) + mset (alias_part es)"
  by (simp add: ledger_events_def explicit_part_def alias_part_def)

definition same_usage :: "token_event list \<Rightarrow> string \<times> string \<Rightarrow> token_event list" where
  "same_usage es k = filter (\<lambda>e. te_explicit e \<and> usage_key e = k) es"

lemma explicit_part_alt: "explicit_part es = map (\<lambda>k. preferred (same_usage es k)) (first_met (map usage_key (filter te_explicit es)))"
  by (simp add: explicit_part_def groups_def same_usage_def comp_def)

lemma preferred_usage:
  assumes "k \<in> usage_key ` {e \<in> set es. te_explicit e}"
  shows "preferred (same_usage es k) \<in> set es" "te_explicit (preferred (same_usage es k))" "usage_key (preferred (same_usage es k)) = k"
proof -
  have "same_usage es k \<noteq> []" using assms by (auto simp: same_usage_def filter_empty_conv)
  from preferred_in [OF this] show "preferred (same_usage es k) \<in> set es" "te_explicit (preferred (same_usage es k))"
    "usage_key (preferred (same_usage es k)) = k" by (simp_all add: same_usage_def)
qed

lemma explicit_part_member:
  assumes "e \<in> set (explicit_part es)"
  shows "e \<in> set es \<and> te_explicit e"
proof -
  from assms obtain k where "e = preferred (same_usage es k)" "k \<in> usage_key ` {e \<in> set es. te_explicit e}"
    by (auto simp: explicit_part_alt)
  with preferred_usage show ?thesis by blast
qed

lemma survivors_sub: "set (alias_survivors g) \<subseteq> set g"
proof -
  have "hd (sort_key (\<lambda>e. sort_id (te_id e)) g) \<in> set g" if "mirrored g"
    using that hd_sort_key [of g "\<lambda>e. sort_id (te_id e)"] by (cases g) (auto simp: mirrored_def)
  then show ?thesis by (auto simp: alias_survivors_def)
qed

lemma alias_part_member: "e \<in> set (alias_part es) \<Longrightarrow> e \<in> set es \<and> aliased e"
  using survivors_sub by (fastforce simp: alias_part_def groups_member)

lemma ledger_sub: "set (ledger_events es) \<subseteq> set es"
proof -
  have "set (ledger_events es) = set (filter (\<lambda>e. \<not> te_explicit e \<and> \<not> aliased e) es) \<union> set (explicit_part es) \<union> set (alias_part es)"
    by (simp add: ledger_events_def explicit_part_def alias_part_def Un_assoc)
  then show ?thesis by (auto dest: explicit_part_member alias_part_member)
qed

lemma filter_keyed_map:
  "distinct ks \<Longrightarrow> (\<And>k. k \<in> set ks \<Longrightarrow> f (c k) = k) \<Longrightarrow> filter (\<lambda>e. f e = k) (map c ks) = (if k \<in> set ks then [c k] else [])"
  by (induction ks) auto

lemma mset_one: "mset xs = {#x#} \<Longrightarrow> xs = [x]"
  by (cases xs) auto

lemma one_per_usage:
  assumes "k \<in> usage_key ` {e \<in> set es. te_explicit e}"
  shows "same_usage (ledger_events es) k = [preferred (same_usage es k)]"
proof -
  let ?P = "\<lambda>e. te_explicit e \<and> usage_key e = k"
  have "filter ?P (explicit_part es) = filter (\<lambda>e. usage_key e = k) (explicit_part es)"
    by (intro filter_cong) (auto dest: explicit_part_member)
  also have "\<dots> = (if k \<in> set (first_met (map usage_key (filter te_explicit es))) then [preferred (same_usage es k)] else [])"
    unfolding explicit_part_alt by (rule filter_keyed_map) (simp, rule preferred_usage(3), simp)
  also have "\<dots> = [preferred (same_usage es k)]" using assms by simp
  finally have e: "filter ?P (explicit_part es) = [preferred (same_usage es k)]" .
  have none: "filter ?P (filter (\<lambda>e. \<not> te_explicit e \<and> \<not> aliased e) es) = []" "filter ?P (alias_part es) = []"
    by (auto simp: filter_empty_conv aliased_def dest: alias_part_member)
  have "mset (filter ?P (ledger_events es)) = {#preferred (same_usage es k)#}"
    using arg_cong [OF none(1), of mset] arg_cong [OF none(2), of mset] arg_cong [OF e, of mset]
    by (simp only: mset_filter ledger_mset filter_union_mset) simp
  then show ?thesis unfolding same_usage_def [of "ledger_events es"] by (rule mset_one)
qed

lemma plain_kept:
  "mset (filter (\<lambda>e. \<not> te_explicit e \<and> \<not> aliased e) (ledger_events es)) = mset (filter (\<lambda>e. \<not> te_explicit e \<and> \<not> aliased e) es)"
proof -
  let ?P = "\<lambda>e. \<not> te_explicit e \<and> \<not> aliased e"
  have none: "filter ?P (explicit_part es) = []" "filter ?P (alias_part es) = []"
    by (auto simp: filter_empty_conv dest: explicit_part_member alias_part_member)
  show ?thesis
    using arg_cong [OF none(1), of mset] arg_cong [OF none(2), of mset]
    by (simp only: mset_filter ledger_mset filter_union_mset filter_filter_mset) simp
qed

section \<open>One more usage\<close>

text \<open>An event with a key of its own enters the ledger, and nothing else in it changes.\<close>

lemma same_parts:
  assumes "filter (\<lambda>e. e \<noteq> new) es' = es" "\<not> P new"
  shows "filter P es' = filter P es"
proof -
  have "filter P es = filter (\<lambda>e. e \<noteq> new \<and> P e) es'" by (simp add: assms(1) [symmetric])
  also have "\<dots> = filter P es'" using assms(2) by (intro filter_cong) auto
  finally show ?thesis ..
qed

lemma explicit_part_mset:
  "mset (explicit_part es) = image_mset (\<lambda>k. preferred (same_usage es k)) (mset_set (usage_key ` {e \<in> set es. te_explicit e}))"
proof -
  have "mset (first_met (map usage_key (filter te_explicit es))) = mset_set (usage_key ` {e \<in> set es. te_explicit e})"
    using mset_set_set [of "first_met (map usage_key (filter te_explicit es))"] by simp
  then show ?thesis by (simp add: explicit_part_alt)
qed

lemma ledger_added:
  assumes es: "filter (\<lambda>e. e \<noteq> new) es' = es" "mset es' = add_mset new (mset es)"
    and new: "te_explicit new" "usage_key new \<notin> usage_key ` {e \<in> set es. te_explicit e}"
  shows "mset (ledger_events es') = add_mset new (mset (ledger_events es))"
proof -
  let ?K = "\<lambda>es. usage_key ` {e \<in> set es. te_explicit e}" and ?k = "usage_key new"
  have na: "\<not> aliased new" using new(1) by (simp add: aliased_def)
  have parts: "filter (\<lambda>e. \<not> te_explicit e \<and> \<not> aliased e) es' = filter (\<lambda>e. \<not> te_explicit e \<and> \<not> aliased e) es"
    "filter aliased es' = filter aliased es" using same_parts [OF es(1)] new(1) na by simp_all
  have "set es' = insert new (set es)" using arg_cong [OF es(2), of set_mset] by simp
  then have K: "?K es' = insert ?k (?K es)" using new(1) by auto
  have old: "same_usage es' k = same_usage es k" if "k \<noteq> ?k" for k
    unfolding same_usage_def using that by (intro same_parts [OF es(1)]) simp
  have one: "same_usage es' ?k = [new]"
  proof (rule mset_one)
    have "filter_mset (\<lambda>e. te_explicit e \<and> usage_key e = ?k) (mset es) = {#}"
      using new(2) by (auto simp: filter_mset_eq_conv intro!: multiset_eqI) (metis (mono_tags, lifting) image_eqI mem_Collect_eq)
    then show "mset (same_usage es' ?k) = {#new#}" using new(1) by (simp add: same_usage_def es(2))
  qed
  have "mset (explicit_part es') = add_mset new (image_mset (\<lambda>k. preferred (same_usage es' k)) (mset_set (?K es)))"
    unfolding explicit_part_mset K using new(2) by (simp add: one)
  also have "image_mset (\<lambda>k. preferred (same_usage es' k)) (mset_set (?K es)) = mset (explicit_part es)"
    unfolding explicit_part_mset
  proof (rule image_mset_cong)
    fix k
    assume "k \<in># mset_set (?K es)"
    then have "k \<in> ?K es" by simp
    with new(2) have "k \<noteq> ?k" by blast
    then show "preferred (same_usage es' k) = preferred (same_usage es k)" by (simp add: old)
  qed
  finally show ?thesis unfolding ledger_mset parts alias_part_def by simp
qed

section \<open>Sums\<close>

lemma aggregate_for_work:
  "sum_list (map (\<lambda>(k, n, c). n) (filter (\<lambda>(k, n, c). fst (snd k) = work) (aggregate es))) = tokens_in (filter (\<lambda>e. te_work e = work) es)"
proof -
  let ?ks = "sort (remdups (map ledger_key es))" and ?es = "filter (\<lambda>e. te_work e = work) es"
  have "sum_list (map (\<lambda>(k, n, c). n) (filter (\<lambda>(k, n, c). fst (snd k) = work) (aggregate es))) =
      sum_list (map (\<lambda>k. tokens_in (filter (\<lambda>e. ledger_key e = k) es)) (filter (\<lambda>k. fst (snd k) = work) ?ks))"
    by (simp add: aggregate_def Let_def filter_map comp_def case_prod_unfold)
  also have "\<dots> = sum_list (map (\<lambda>k. tokens_in (filter (\<lambda>e. ledger_key e = k) ?es)) (filter (\<lambda>k. fst (snd k) = work) ?ks))"
    by (intro arg_cong [of _ _ sum_list] map_cong refl arg_cong [of _ _ tokens_in])
      (auto simp: ledger_key_def intro!: filter_cong)
  also have "\<dots> = tokens_in ?es" by (rule sum_by_key) (auto simp: ledger_key_def)
  finally show ?thesis .
qed

lemma aggregate_length: "length (aggregate es) \<le> length es"
  by (simp add: aggregate_def) (metis length_map length_remdups_leq)

section \<open>From the log to the ledger\<close>

lemma rights_simps [simp]: "rights [] = []" "rights (Inl x # zs) = rights zs" "rights (Inr y # zs) = y # rights zs"
  "rights (xs @ ys) = rights xs @ rights ys"
  by (simp_all add: rights_def List.map_filter_def)

lemma rights_mset: "mset (rights zs) = image_mset projr (filter_mset (\<lambda>z. \<not> isl z) (mset zs))"
proof (induction zs)
  case (Cons z zs)
  then show ?case by (cases z) simp_all
qed simp

lemma rights_without:
  "(\<And>x. x \<in> set xs \<Longrightarrow> x \<noteq> r \<Longrightarrow> g x \<noteq> Inr new) \<Longrightarrow> g r = Inr new \<Longrightarrow>
     filter (\<lambda>e. e \<noteq> new) (rights (map g xs)) = rights (map g (filter (\<lambda>x. x \<noteq> r) xs))"
proof (induction xs)
  case (Cons x xs)
  then have ih: "filter (\<lambda>e. e \<noteq> new) (rights (map g xs)) = rights (map g (filter (\<lambda>x. x \<noteq> r) xs))" by simp
  show ?case
  proof (cases "x = r")
    case True
    with ih Cons.prems(2) show ?thesis by simp
  next
    case False
    with Cons.prems(1) have "g x \<noteq> Inr new" by simp
    with ih False show ?thesis by (cases "g x") simp_all
  qed
qed simp

lemma run_token_rows_added:
  assumes r: "rl_rows l' = rl_rows l @ [r]" "r \<notin> set (rl_rows l)" "is_token_event r"
    and n: "length (filter is_token_event (rl_rows l')) \<le> n"
  shows "filter (\<lambda>x. x \<noteq> r) (run_token_rows n l') = run_token_rows n l" "mset (run_token_rows n l') = add_mset r (mset (run_token_rows n l))"
proof -
  let ?f = "\<lambda>r. (- v_created r, - v_id r)"
  have all: "run_token_rows n l' = sort_key ?f (filter is_token_event (rl_rows l'))"
    "run_token_rows n l = sort_key ?f (filter is_token_event (rl_rows l))"
    using n r(1,3) by (simp_all add: run_token_rows_def)
  have "filter (\<lambda>x. x \<noteq> r) (filter is_token_event (rl_rows l')) = filter is_token_event (rl_rows l)"
    using r by (auto simp: filter_empty_conv intro!: filter_cong)
  then show "filter (\<lambda>x. x \<noteq> r) (run_token_rows n l') = run_token_rows n l" unfolding all filter_sort by simp
  show "mset (run_token_rows n l') = add_mset r (mset (run_token_rows n l))" unfolding all using r(1,3) by simp
qed

lemma normalized_source:
  "normalize_coord_row L e = Inr x \<Longrightarrow> te_source x = ''coord_events''"
  "normalize_run_event_row L q = Inr x \<Longrightarrow> te_source x = ''run_events'' \<and> te_id x = v_id q"
  by (auto simp: normalize_coord_row_def normalize_run_event_row_def Let_def split: option.splits if_split_asm)

lemma rows_added:
  assumes l: "log_ok l'" "rl_rows l' = rl_rows l @ [r]" "is_token_event r" "length (filter is_token_event (rl_rows l')) \<le> n"
    and new: "normalize_run_event_row L r = Inr new"
  shows "filter (\<lambda>e. e \<noteq> new) (rights (normalized_rows L n d l')) = rights (normalized_rows L n d l)"
    "mset (rights (normalized_rows L n d l')) = add_mset new (mset (rights (normalized_rows L n d l)))"
proof -
  have ids: "v_id x < v_id r" if "x \<in> set (rl_rows l)" for x using l(1,2) that by (auto simp: log_ok_def sorted_wrt_append)
  have nr: "r \<notin> set (rl_rows l)" using ids by blast
  note rows = run_token_rows_added [OF l(2) nr l(3,4)]
  have "set (run_token_rows n l') \<subseteq> set (rl_rows l')" unfolding run_token_rows_def by (auto dest!: in_set_takeD)
  then have inj: "normalize_run_event_row L x \<noteq> Inr new" if "x \<in> set (run_token_rows n l')" "x \<noteq> r" for x
  proof -
    have "x \<in> set (rl_rows l)" using that l(2) \<open>set (run_token_rows n l') \<subseteq> set (rl_rows l')\<close> by auto
    then show ?thesis using ids normalized_source(2) [OF new] normalized_source(2) [of L x new] by fastforce
  qed
  have "new \<notin> set (rights (map (normalize_coord_row L) es))" for es
  proof
    assume "new \<in> set (rights (map (normalize_coord_row L) es))"
    then obtain e where "normalize_coord_row L e = Inr new"
    proof (induction es)
      case (Cons e es)
      then show ?case by (cases "normalize_coord_row L e") auto
    qed simp
    from normalized_source(1) [OF this] normalized_source(2) [OF new] show False by simp
  qed
  then have coord: "filter (\<lambda>e. e \<noteq> new) (rights (map (normalize_coord_row L) es)) = rights (map (normalize_coord_row L) es)" for es
    by (auto simp: filter_id_conv)
  show "filter (\<lambda>e. e \<noteq> new) (rights (normalized_rows L n d l')) = rights (normalized_rows L n d l)"
    using rights_without [of "run_token_rows n l'" r "normalize_run_event_row L" new] inj new rows(1) by (simp add: normalized_rows_def coord)
  show "mset (rights (normalized_rows L n d l')) = add_mset new (mset (rights (normalized_rows L n d l)))"
    using rows(2) new by (simp add: normalized_rows_def rights_mset)
qed

text \<open>One more token event with a key of its own adds its tokens, and only to its row.\<close>

lemma used_after_event:
  assumes l: "log_ok l'" "rl_rows l' = rl_rows l @ [r]" "is_token_event r" "length (filter is_token_event (rl_rows l')) \<le> n"
    and new: "normalize_run_event_row L r = Inr new" "te_explicit new"
    and fresh: "\<And>e. e \<in> set (rights (normalized_rows L n d l)) \<Longrightarrow> te_explicit e \<Longrightarrow> usage_key e \<noteq> usage_key new"
  shows "mset (ro_ledger (build_token_ledger_rollup L n a x k d l')) = add_mset new (mset (ro_ledger (build_token_ledger_rollup L n a x k d l)))"
proof -
  let ?es = "sort_key event_sort_key (rights (normalized_rows L n d l))"
  let ?es' = "sort_key event_sort_key (rights (normalized_rows L n d l'))"
  note rows = rows_added [OF l new(1)]
  have "mset (ledger_events ?es') = add_mset new (mset (ledger_events ?es))"
  proof (rule ledger_added [OF _ _ new(2)])
    show "filter (\<lambda>e. e \<noteq> new) ?es' = ?es" unfolding filter_sort rows(1) ..
    show "mset ?es' = add_mset new (mset ?es)" using rows(2) by simp
    show "usage_key new \<notin> usage_key ` {e \<in> set ?es. te_explicit e}"
      using fresh by (metis (no_types, lifting) imageE mem_Collect_eq set_sort)
  qed
  then show ?thesis by (simp add: build_token_ledger_rollup_def Let_def)
qed

section \<open>Measured usage\<close>

definition decodes :: "lib \<Rightarrow> string \<Rightarrow> pyrow \<Rightarrow> bool" where
  "decodes L s kvs \<longleftrightarrow> s \<noteq> [] \<and> (\<exists>kvs'. loads L s = Some (JObj kvs') \<and> (\<forall>k. field kvs' k = field kvs k))"

definition usage_content :: "usage_args \<Rightarrow> pyrow" where
  "usage_content a = [(''model'', JStr (ua_model a)), (''caller'', JStr (ua_caller a)), (''tokens'', JInt (ua_tokens a))]"

lemma usage_content_fields:
  "field (usage_content a) ''tokens'' = JInt (ua_tokens a)" "k \<in> set usage_id_fields \<Longrightarrow> field (usage_content a) k = JNull"
  by (auto simp: usage_content_def field_def usage_id_fields_def)

lemma safe_json_decodes: "decodes L s kvs \<Longrightarrow> \<exists>kvs'. safe_json L (JStr s) = kvs' \<and> (\<forall>k. field kvs' k = field kvs k)"
  by (auto simp: decodes_def safe_json_def jor_def str_of_def)

lemma clean_usage_Inr:
  assumes "clean_usage a0 = Inr a"
  shows "strip (ua_work a) = ua_work a" "ua_work a \<noteq> []" "strip (ua_usage a) = ua_usage a" "ua_usage a \<noteq> []" "0 < ua_tokens a"
    "ua_metadata a = ua_metadata a0" "ua_tokens a = ua_tokens a0" "ua_work a = strip (ua_work a0)" "ua_usage a = strip (ua_usage a0)"
    "strip (ua_source a) = ua_source a" "ua_source a \<noteq> []"
  using assms by (auto simp: clean_usage_def required_text_def bindE_Inr_iff text_simps split: if_split_asm)

lemma measured_appended:
  assumes "record_measured_token_usage L env enabled a0 t l = Inr (l', res)" "l' \<noteq> l" "clean_usage a0 = Inr a"
  shows "recorded L l l' \<and> (\<exists>r. rl_rows l' = rl_rows l @ [r] \<and> is_token_event r \<and> v_work r = ua_work a \<and>
    v_content r = storage_json L ''content'' (JObj (usage_content a)) \<and> v_metadata r = storage_json L ''metadata'' (usage_metadata a))"
proof -
  obtain key i where key: "token_usage_key L (ua_work a) (ua_source a) (ua_usage a) = Inr key"
    and r: "record_run_event L env (Some True) (token_input (ua_model a) (ua_caller a) (ua_tokens a) (usage_input a key)) t l = Inr (l', i)"
    using assms by (auto simp: record_measured_token_usage_def record_token_usage_def bindE_Inr_iff split: if_split_asm option.splits)
  from record_Inr [OF r] assms(2) obtain j n where
    "insert_run_event (run_event_of L (token_input (ua_model a) (ua_caller a) (ua_tokens a) (usage_input a key)) n t) l = Inr (l', j)"
    by blast
  from insert_run_event_Inr(2) [OF this] recorded.one [OF recorded.none r] show ?thesis
    by (simp add: run_event_of_def token_input_def usage_input_def is_token_event_def usage_content_def)
qed

lemma usage_metadata_id: "\<exists>kvs. usage_metadata a = JObj kvs \<and> field kvs ''logical_usage_id'' = JStr (ua_usage a)"
  by (simp add: usage_metadata_def)

lemma measured_normalized:
  assumes a: "clean_usage a0 = Inr a"
    and r: "v_work r = ua_work a" "v_content r = storage_json L ''content'' (JObj (usage_content a))"
      "v_metadata r = storage_json L ''metadata'' (usage_metadata a)"
    and c: "decodes L (v_content r) (usage_content a)" and m: "decodes L (v_metadata r) (object_or_empty (usage_metadata a))"
  shows "\<exists>new. normalize_run_event_row L r = Inr new \<and> te_explicit new \<and> te_work new = ua_work a \<and> te_usage new = ua_usage a \<and>
    te_tokens new = ua_tokens a"
proof -
  note f = clean_usage_Inr [OF a]
  obtain ckvs where ck: "safe_json L (JStr (v_content r)) = ckvs" "\<And>k. field ckvs k = field (usage_content a) k"
    using safe_json_decodes [OF c] by blast
  obtain mkvs where mk: "safe_json L (JStr (v_metadata r)) = mkvs" "\<And>k. field mkvs k = field (object_or_empty (usage_metadata a)) k"
    using safe_json_decodes [OF m] by blast
  have tok: "tokens_of (field ckvs ''tokens'') = Some (ua_tokens a)"
    using f(5) by (simp add: ck(2) usage_content_fields tokens_of_def py_int_def)
  have cids: "filter (\<lambda>s. s \<noteq> []) (map ((\<lambda>j. strip (str_or_empty L j)) \<circ> field ckvs) usage_id_fields) = []"
    using usage_content_fields(2) [of _ a] by (simp add: ck(2) filter_empty_conv str_or_empty_def strip_def lstrip_def)
  have mid: "field mkvs ''logical_usage_id'' = JStr (ua_usage a)"
    using usage_metadata_id [of a] by (auto simp: mk(2) object_or_empty_def)
  have ids: "explicit_id L (map (field ckvs) usage_id_fields @ map (field mkvs) usage_id_fields @ [jopt (v_key r)]) = Some (ua_usage a)"
    using f(3,4) mid by (simp add: explicit_id_def cids) (simp add: usage_id_fields_def first_row_def)
  have w: "clean (Some (v_work r)) = ua_work a" using f(1) r(1) by (simp add: clean_def)
  have z: "\<not> zero_attribution (ua_tokens a) mkvs" using f(5) by (simp add: zero_attribution_def)
  show ?thesis
    unfolding normalize_run_event_row_def ck(1) mk(1) Let_def tok using z w f(2)
    by (simp add: ids [simplified] work_or_ref_def)
qed

lemma usage_adds:
  assumes l: "log_ok l" and a: "clean_usage a0 = Inr a"
    and r: "record_measured_token_usage L env enabled a0 t l = Inr (l', res)" "l' \<noteq> l"
    and c: "decodes L (storage_json L ''content'' (JObj (usage_content a))) (usage_content a)"
      "decodes L (storage_json L ''metadata'' (usage_metadata a)) (object_or_empty (usage_metadata a))"
    and n: "length (filter is_token_event (rl_rows l')) \<le> n"
    and fresh: "\<And>e. e \<in> set (rights (normalized_rows L n d l)) \<Longrightarrow> te_explicit e \<Longrightarrow> usage_key e \<noteq> (ua_work a, ua_usage a)"
  shows "tokens_in (filter (\<lambda>e. te_work e = w) (ro_ledger (build_token_ledger_rollup L n x y z d l'))) =
    tokens_in (filter (\<lambda>e. te_work e = w) (ro_ledger (build_token_ledger_rollup L n x y z d l))) +
    (if w = ua_work a then ua_tokens a else 0)"
proof -
  obtain q where q: "rl_rows l' = rl_rows l @ [q]" "is_token_event q" "v_work q = ua_work a"
    "v_content q = storage_json L ''content'' (JObj (usage_content a))" "v_metadata q = storage_json L ''metadata'' (usage_metadata a)"
    using measured_appended [OF r a] by blast
  have ok: "log_ok l'" using measured_appended [OF r a] recorded_keeps [OF _ l] by blast
  obtain new where new: "normalize_run_event_row L q = Inr new" "te_explicit new" "te_work new = ua_work a" "te_usage new = ua_usage a"
    "te_tokens new = ua_tokens a" using measured_normalized [OF a q(3-5)] c q(4,5) by auto
  have "mset (ro_ledger (build_token_ledger_rollup L n x y z d l')) = add_mset new (mset (ro_ledger (build_token_ledger_rollup L n x y z d l)))"
    using fresh new(3,4) by (intro used_after_event [OF ok q(1,2) n new(1,2)]) (auto simp: usage_key_def)
  then show ?thesis by (simp add: tokens_in_mset new(3,5))
qed

text \<open>A digest is hexadecimal; all that matters is that it has no blanks.\<close>

definition unblank_digests :: "lib \<Rightarrow> bool" where
  "unblank_digests L \<longleftrightarrow> (\<forall>s. \<forall>c \<in> set (sha256 L s). \<not> is_ws c)"

lemma usage_key_kept:
  assumes "token_usage_key L work source usage = Inr key" "unblank_digests L"
  shows "stored_key (Some key) = Some key" "key \<noteq> []"
proof -
  obtain h where key: "key = ''token_usage:v1:'' @ take 32 (sha256 L h)"
    using assms(1) by (auto simp: token_usage_key_def bindE_Inr_iff)
  have "\<not> is_ws (last (''token_usage:v1:'' @ take 32 (sha256 L h)))"
  proof (cases "take 32 (sha256 L h) = []")
    case False
    then have "last (take 32 (sha256 L h)) \<in> set (sha256 L h)" using last_in_set in_set_takeD by metis
    with False assms(2) show ?thesis by (simp add: unblank_digests_def)
  qed (simp add: is_ws_def)
  then have "strip key = key" unfolding key by (intro strip_keeps) (simp_all add: is_ws_def)
  then show "stored_key (Some key) = Some key" "key \<noteq> []" by (simp_all add: stored_key_def key)
qed

lemma usage_found:
  assumes "record_measured_token_usage L env enabled a0 t l = Inr (l', res)" "ur_event res = Some i" "clean_usage a0 = Inr a"
    and "token_usage_key L (ua_work a) (ua_source a) (ua_usage a) = Inr key" "unblank_digests L"
  shows "recorded L l l'" "\<exists>r. find (\<lambda>r. v_key r = Some key) (rl_rows l') = Some r \<and> v_id r = i"
proof -
  note k = usage_key_kept [OF assms(4,5)]
  have "(l' = l \<and> (\<exists>r. find (\<lambda>r. v_key r = Some key) (rl_rows l) = Some r \<and> v_id r = i)) \<or>
    record_run_event L env (Some True) (token_input (ua_model a) (ua_caller a) (ua_tokens a) (usage_input a key)) t l = Inr (l', Some i)"
    using assms(1-4)
    by (auto simp: record_measured_token_usage_def record_token_usage_def bindE_Inr_iff split: if_split_asm option.splits)
  then consider "l' = l" "\<exists>r. find (\<lambda>r. v_key r = Some key) (rl_rows l) = Some r \<and> v_id r = i"
    | "record_run_event L env (Some True) (token_input (ua_model a) (ua_caller a) (ua_tokens a) (usage_input a key)) t l = Inr (l', Some i)"
    by blast
  then have "recorded L l l' \<and> (\<exists>r. find (\<lambda>r. v_key r = Some key) (rl_rows l') = Some r \<and> v_id r = i)"
  proof cases
    case 1
    then show ?thesis by (simp add: recorded.none)
  next
    case 2
    from record_stores_key [OF 2] k recorded.one [OF recorded.none 2] show ?thesis
      by (auto simp: token_input_def usage_input_def keyed_event_def)
  qed
  then show "recorded L l l'" "\<exists>r. find (\<lambda>r. v_key r = Some key) (rl_rows l') = Some r \<and> v_id r = i" by blast+
qed

lemma usage_again:
  assumes r: "record_measured_token_usage L env enabled a0 t l = Inr (l1, res)" "ur_event res = Some i" and a: "clean_usage a0 = Inr a"
    and later: "log_ok l" "recorded L l1 l2"
    and b: "clean_usage b0 = Inr b" "ua_work b = ua_work a" "ua_source b = ua_source a" "ua_usage b = ua_usage a"
    and w: "writer_enabled env' enabled'" "unblank_digests L"
  shows "\<exists>key. record_measured_token_usage L env' enabled' b0 t' l2 =
    Inr (l2, \<lparr>ur_enabled = True, ur_deduped = True, ur_event = Some i, ur_inserted = False, ur_key = key\<rparr>)"
proof -
  obtain key where key: "token_usage_key L (ua_work a) (ua_source a) (ua_usage a) = Inr key"
    using r(1) a by (auto simp: record_measured_token_usage_def bindE_Inr_iff)
  obtain q where q: "find (\<lambda>r. v_key r = Some key) (rl_rows l1) = Some q" "v_id q = i" "recorded L l l1"
    using usage_found [OF r a key w(2)] by blast
  have "log_ok l1" using recorded_keeps [OF q(3) later(1)] by simp
  then obtain new where "rl_rows l2 = rl_rows l1 @ new" using recorded_keeps [OF later(2)] by blast
  then have "find (\<lambda>r. v_key r = Some key) (rl_rows l2) = Some q" using q(1) by (simp add: find_append)
  with q(2) key b w(1) show ?thesis by (simp add: record_measured_token_usage_def)
qed

lemma usage_inserted:
  assumes r: "record_measured_token_usage L env enabled a0 t l = Inr (l', res)" "ur_inserted res" and u: "unblank_digests L"
  shows "l' \<noteq> l" "\<exists>i. ur_event res = Some i"
proof -
  obtain a key i where a: "token_usage_key L (ua_work a) (ua_source a) (ua_usage a) = Inr key"
    "find (\<lambda>r. v_key r = Some key) (rl_rows l) = None" "ur_event res = i" "i \<noteq> None"
    and q: "record_run_event L env (Some True) (token_input (ua_model a) (ua_caller a) (ua_tokens a) (usage_input a key)) t l = Inr (l', i)"
    using r by (auto simp: record_measured_token_usage_def record_token_usage_def bindE_Inr_iff split: if_split_asm option.splits)
  note k = usage_key_kept [OF a(1) u]
  have "keyed_event l (stored_key (i_key (token_input (ua_model a) (ua_caller a) (ua_tokens a) (usage_input a key)))) = None"
    using a(2) k by (simp add: token_input_def usage_input_def keyed_event_def)
  with record_Inr [OF q] a(4) obtain e j where "insert_run_event e l = Inr (l', j)" by auto
  from insert_run_event_Inr(2) [OF this] show "l' \<noteq> l" by auto
  show "\<exists>i. ur_event res = Some i" using a(3,4) by auto
qed

section \<open>Budgets\<close>

lemma used_of_ledger:
  "length (ro_ledger (build_token_ledger_rollup L n k x y d l)) \<le> k \<Longrightarrow>
     used_tokens (build_token_ledger_rollup L n k x y d l) work =
       tokens_in (filter (\<lambda>e. te_work e = work) (ro_ledger (build_token_ledger_rollup L n k x y d l)))"
proof -
  assume "length (ro_ledger (build_token_ledger_rollup L n k x y d l)) \<le> k"
  then have "take k (aggregate (ro_ledger (build_token_ledger_rollup L n k x y d l))) = aggregate (ro_ledger (build_token_ledger_rollup L n k x y d l))"
    using aggregate_length order_trans by (intro take_all) blast
  then show ?thesis using aggregate_for_work [of work] by (simp add: used_tokens_def build_token_ledger_rollup_def Let_def)
qed

lemma ratio_below: "0 < n \<Longrightarrow> of_int u / of_int n < (4 / 5 :: rat) \<longleftrightarrow> 5 * u < 4 * n"
proof -
  assume n: "0 < n"
  then have "of_int u / of_int n < (4 / 5 :: rat) \<longleftrightarrow> of_int (5 * u) < (of_int (4 * n) :: rat)" by (simp add: field_simps)
  then show ?thesis by (simp only: of_int_less_iff)
qed

lemma warned_iff:
  "(if n \<le> 0 then None else if of_int u / of_int n < (4 / 5 :: rat) then None else Some x) = Some b \<longleftrightarrow> 0 < n \<and> 4 * n \<le> 5 * u \<and> b = x"
proof (cases "0 < n")
  case True
  show ?thesis unfolding ratio_below [OF True] using True by auto
qed simp

lemma budget_warning:
  assumes "length (ro_ledger (build_token_ledger_rollup L 50000 50000 0 25 d l)) \<le> 50000"
  shows "token_budget_warning L (4 / 5) work d l = Some b \<longleftrightarrow>
    (\<exists>w n. workd d work = Some w \<and> token_budget w = Some n \<and> 0 < n \<and>
      b = \<lparr>bw_work = work, bw_budget = n,
        bw_used = tokens_in (filter (\<lambda>e. te_work e = work) (ro_ledger (build_token_ledger_rollup L 50000 50000 0 25 d l)))\<rparr> \<and>
      4 * n \<le> 5 * bw_used b)"
proof -
  let ?u = "tokens_in (filter (\<lambda>e. te_work e = work) (ro_ledger (build_token_ledger_rollup L 50000 50000 0 25 d l)))"
  have "token_budget_warning L (4 / 5) work d l = Some b \<longleftrightarrow> (\<exists>w n. workd d work = Some w \<and> token_budget w = Some n \<and>
      (0 < n \<and> 4 * n \<le> 5 * ?u \<and> b = \<lparr>bw_work = work, bw_budget = n, bw_used = ?u\<rparr>))"
    unfolding token_budget_warning_def Let_def used_of_ledger [OF assms] warned_iff [symmetric]
    by (cases "workd d work"; cases "token_budget (the (workd d work))") simp_all
  then show ?thesis by auto
qed

end
