(* ===== verification/PolicyFacts.thy ===== *)
theory PolicyFacts
  imports Policy TokenLedgerFacts
begin

text \<open>
  What the pipeline guarantees for any list of passes, the interface \<open>observers\<close> of passes that only
  watch, and what it comes to for the seven passes of a boundary: nothing but a terminal state that
  may not close the row stops a write, and no setting of the modes changes that.
\<close>

section \<open>Any passes\<close>

lemma with_row_simps [simp]:
  "po_rows (with_row q r) = po_rows q @ [r]"
  "po_blocked (with_row q r) \<longleftrightarrow> pr_status (row_result r) = Pass_block"
  "po_warnings (with_row q r) = po_warnings q @ (if pr_status (row_result r) = Pass_warning then [r] else [])"
  "po_reason (with_row q r) = (if pr_status (row_result r) = Pass_block then Some (pr_reason (row_result r)) else None)"
  by (simp_all add: with_row_def)

lemma fresh_outcome_simps [simp]:
  "po_rows fresh_outcome = []" "\<not> po_blocked fresh_outcome" "po_warnings fresh_outcome = []" "po_reason fresh_outcome = None"
  by (simp_all add: fresh_outcome_def)

definition row_status :: "policy_row \<Rightarrow> pass_status" where
  "row_status r = pr_status (row_result r)"

text \<open>The bookkeeping of a run: rows in order, warnings picked out, stopped at the first block.\<close>

definition tidy :: "policy_outcome \<Rightarrow> bool" where
  "tidy q \<longleftrightarrow> (\<forall>k < length (po_rows q). row_order (po_rows q ! k) = Suc k) \<and>
     po_warnings q = filter (\<lambda>r. row_status r = Pass_warning) (po_rows q) \<and>
     (po_blocked q \<longleftrightarrow> (\<exists>r \<in> set (po_rows q). row_status r = Pass_block)) \<and>
     (\<forall>r \<in> set (butlast (po_rows q)). row_status r \<noteq> Pass_block) \<and>
     po_reason q = (if po_blocked q then Some (pr_reason (row_result (last (po_rows q)))) else None)"

lemma tidy_fresh: "tidy fresh_outcome"
  by (simp add: tidy_def)

lemma tidy_with_row:
  assumes "tidy q" "\<not> po_blocked q" "row_order r = length (po_rows q) + 1"
  shows "tidy (with_row q r)"
  using assms by (auto simp: tidy_def row_status_def nth_append less_Suc_eq)

lemma mode_adjusted_block:
  "pr_status (mode_adjusted r m) = Pass_block \<longleftrightarrow> pr_lifecycle r \<or> pr_status r = Pass_block \<and> m = Enforce \<and> pr_blocking r"
  by (auto simp: mode_adjusted_def pass_block_def pass_warn_def pass_report_def)

text \<open>In report mode a block becomes a warning, not a report.\<close>

lemma reported_block:
  "pr_status r = Pass_block \<Longrightarrow> \<not> pr_lifecycle r \<Longrightarrow> pr_status (mode_adjusted r Report) = Pass_warning"
  by (simp add: mode_adjusted_def pass_warn_def)

lemma run_passes_rows:
  assumes "run_passes c ps q s = (s', Inr q')" "tidy q" "\<not> po_blocked q"
  shows "tidy q' \<and> (\<exists>rs. po_rows q' = po_rows q @ rs \<and> length rs \<le> length ps \<and> (po_blocked q' \<or> length rs = length ps) \<and>
    (\<forall>k < length rs. row_mode (rs ! k) = pp_mode (ps ! k) \<and>
       (\<exists>s1 s2 r. pp_handler (ps ! k) c s1 = (s2, Inr r) \<and> row_result (rs ! k) = mode_adjusted r (pp_mode (ps ! k)))))"
  using assms
proof (induction ps arbitrary: q s)
  case Nil
  then show ?case by simp
next
  case (Cons p ps)
  obtain s1 r where h: "pp_handler p c s = (s1, Inr r)" using Cons.prems(1) by (auto split: prod.splits sum.splits)
  let ?row = "\<lparr>row_order = length (po_rows q) + 1, row_mode = pp_mode p, row_result = mode_adjusted r (pp_mode p)\<rparr>"
  have t: "tidy (with_row q ?row)" using Cons.prems(2,3) by (rule tidy_with_row) simp
  show ?case
  proof (cases "po_blocked (with_row q ?row)")
    case True
    then have "q' = with_row q ?row" using Cons.prems(1) h by simp
    with True t h show ?thesis by (intro conjI exI [of _ "[?row]"]) (auto simp del: with_row_simps(2) intro: exI)
  next
    case False
    then have "run_passes c ps (with_row q ?row) s1 = (s', Inr q')" using Cons.prems(1) h by simp
    from Cons.IH [OF this t False] obtain rs where t': "tidy q'" and rs: "po_rows q' = po_rows q @ ?row # rs" "length rs \<le> length ps"
      "po_blocked q' \<or> length rs = length ps" "\<forall>k < length rs. row_mode (rs ! k) = pp_mode (ps ! k) \<and>
         (\<exists>s1 s2 r. pp_handler (ps ! k) c s1 = (s2, Inr r) \<and> row_result (rs ! k) = mode_adjusted r (pp_mode (ps ! k)))" by auto
    have "row_mode ((?row # rs) ! k) = pp_mode ((p # ps) ! k) \<and>
      (\<exists>s1 s2 r. pp_handler ((p # ps) ! k) c s1 = (s2, Inr r) \<and> row_result ((?row # rs) ! k) = mode_adjusted r (pp_mode ((p # ps) ! k)))"
      if "k < length (?row # rs)" for k
      using that rs(4) h by (cases k) auto
    with t' rs show ?thesis by (intro conjI exI [of _ "?row # rs"]) auto
  qed
qed

lemma pipeline_rows:
  assumes "run_policy_pipeline c ps s = (s', Inr q)"
  shows "tidy q" "length (po_rows q) \<le> length ps" "po_blocked q \<or> length (po_rows q) = length ps"
    "k < length (po_rows q) \<Longrightarrow> row_mode (po_rows q ! k) = pp_mode (ps ! k)"
    "k < length (po_rows q) \<Longrightarrow> \<exists>s1 s2 r. pp_handler (ps ! k) c s1 = (s2, Inr r) \<and> row_result (po_rows q ! k) = mode_adjusted r (pp_mode (ps ! k))"
  using run_passes_rows [OF assms [unfolded run_policy_pipeline_def] tidy_fresh] by auto

section \<open>Passes that only watch\<close>

locale observers =
  fixes passes :: "('c, 's) policy_pass list" and rel :: "'s \<Rightarrow> 's \<Rightarrow> bool"
  assumes rel_refl: "rel s s"
    and rel_trans: "rel s s' \<Longrightarrow> rel s' s'' \<Longrightarrow> rel s s''"
    and watches: "p \<in> set passes \<Longrightarrow> pp_handler p c s = (s', x) \<Longrightarrow> rel s s'"
    and modest: "p \<in> set passes \<Longrightarrow> pp_handler p c s = (s', Inr r) \<Longrightarrow> \<not> pr_lifecycle r"
begin

lemma run_related: "set ps \<subseteq> set passes \<Longrightarrow> run_passes c ps q s = (s', x) \<Longrightarrow> rel s s'"
proof (induction ps arbitrary: q s)
  case Nil
  then show ?case by (simp add: rel_refl)
next
  case (Cons p ps)
  obtain s1 y where h: "pp_handler p c s = (s1, y)" by (cases "pp_handler p c s")
  have s1: "rel s s1" using Cons.prems(1) watches [OF _ h] by simp
  show ?case
  proof (cases y)
    case (Inl e)
    with Cons.prems(2) h s1 show ?thesis by simp
  next
    case (Inr r)
    with Cons.prems(2) h Cons.IH [of _ s1] Cons.prems(1) s1 show ?thesis
      by (auto simp: Let_def split: if_split_asm intro: rel_trans)
  qed
qed

lemma pipeline_related: "run_policy_pipeline c passes s = (s', x) \<Longrightarrow> rel s s'"
  unfolding run_policy_pipeline_def by (rule run_related [OF subset_refl])

text \<open>Then a block is always an enforced one.\<close>

lemma enforced:
  assumes "run_policy_pipeline c passes s = (s', Inr q)" "po_blocked q"
  shows "row_mode (last (po_rows q)) = Enforce"
proof -
  note rows = pipeline_rows [OF assms(1)]
  let ?k = "length (po_rows q) - 1"
  have ne: "po_rows q \<noteq> []" using rows(1) assms(2) by (auto simp: tidy_def)
  then have k: "?k < length (po_rows q)" by simp
  obtain s1 s2 r where h: "pp_handler (passes ! ?k) c s1 = (s2, Inr r)" "row_result (po_rows q ! ?k) = mode_adjusted r (pp_mode (passes ! ?k))"
    using rows(5) [OF k] by blast
  have "row_status (last (po_rows q)) = Pass_block"
    using rows(1) assms(2) ne by (auto simp: tidy_def) (metis append_butlast_last_id in_set_conv_decomp rotate1.simps(2) set_ConsD set_rotate1)
  then have "pr_status (mode_adjusted r (pp_mode (passes ! ?k))) = Pass_block" using h(2) ne by (simp add: row_status_def last_conv_nth)
  moreover have "passes ! ?k \<in> set passes" using k rows(2) by (intro nth_mem) simp
  ultimately have "pp_mode (passes ! ?k) = Enforce" using modest [OF _ h(1)] by (auto simp: mode_adjusted_block)
  with rows(4) [OF k] ne show ?thesis by (simp add: last_conv_nth)
qed

end

section \<open>The seven passes\<close>

lemma recorded_trans: "recorded L l1 l2 \<Longrightarrow> recorded L l l1 \<Longrightarrow> recorded L l l2"
  by (induction rule: recorded.induct) (auto intro: recorded.one)

lemma measured_recorded:
  assumes "record_measured_token_usage L env enabled a t l = Inr (l', res)"
  shows "recorded L l l'"
  using assms
  by (auto simp: record_measured_token_usage_def record_token_usage_def bindE_Inr_iff split: if_split_asm option.splits
      intro: recorded.none recorded.one [OF recorded.none])

lemma usage_emitted: "emit_token_usage E c run l = (l', j) \<Longrightarrow> recorded (pe_lib E) l l'"
  unfolding emit_token_usage_def
  by (auto split: json.splits if_split_asm option.splits sum.splits prod.splits intro: recorded.none measured_recorded)

lemma emit_recorded: "run_event_emit E c l = (l', x) \<Longrightarrow> recorded (pe_lib E) l l'"
  unfolding run_event_emit_def Let_def
  by (auto split: option.splits sum.splits prod.splits intro: recorded.none
      recorded_trans [OF usage_emitted recorded.one [OF recorded.none]])

definition quiet :: "handler \<Rightarrow> bool" where
  "quiet h \<longleftrightarrow> (\<forall>c l l' r. h c l = (l', Inr r) \<longrightarrow> pr_status r \<noteq> Pass_block \<and> \<not> pr_lifecycle r)"

lemma pass_statuses [simp]:
  "pr_status (pass_report n w d) = Pass_ok" "pr_status (pass_warn n w d b) = Pass_warning" "pr_status (pass_block n w d b) = Pass_block"
  "\<not> pr_lifecycle (pass_report n w d)" "\<not> pr_lifecycle (pass_warn n w d b)" "\<not> pr_lifecycle (pass_block n w d b)"
  "pr_reason (pass_block n w d b) = w" "pr_blocking (pass_block n w d b) = b"
  by (simp_all add: pass_report_def pass_warn_def pass_block_def)

lemma row_doctor_quiet: "pr_status (row_doctor L c) \<noteq> Pass_block" "\<not> pr_lifecycle (row_doctor L c)"
  by (simp_all add: row_doctor_def Let_def split: sum.splits option.splits)

lemma quiet_passes:
  "quiet creation_lint" "quiet (loop_doctor E)" "quiet (token_budget_pass E)" "quiet (output_budget_pass E)" "quiet (run_event_emit E)"
  "quiet (deferred_tool_catalog E)"
proof -
  show "quiet creation_lint" by (auto simp: quiet_def creation_lint_def Let_def)
  show "quiet (loop_doctor E)"
    by (auto simp: quiet_def loop_doctor_def row_doctor_quiet split: option.splits json.splits list.splits sum.splits)
  show "quiet (token_budget_pass E)" by (auto simp: quiet_def token_budget_pass_def split: option.splits)
  show "quiet (output_budget_pass E)" by (auto simp: quiet_def output_budget_pass_def Let_def split: option.splits if_split_asm)
  show "quiet (run_event_emit E)" by (auto simp: quiet_def run_event_emit_def Let_def split: option.splits sum.splits prod.splits)
  show "quiet (deferred_tool_catalog E)"
    by (auto simp: quiet_def deferred_tool_catalog_def Let_def split: json.splits option.splits prod.splits if_split_asm)
qed

lemma watching:
  "creation_lint c l = (l', x) \<Longrightarrow> l' = l" "loop_doctor E c l = (l', x) \<Longrightarrow> l' = l" "token_budget_pass E c l = (l', x) \<Longrightarrow> l' = l"
  "structured_status E c l = (l', x) \<Longrightarrow> l' = l" "output_budget_pass E c l = (l', x) \<Longrightarrow> l' = l" "deferred_tool_catalog E c l = (l', x) \<Longrightarrow> l' = l"
  by (auto simp: creation_lint_def loop_doctor_def token_budget_pass_def structured_status_def output_budget_pass_def
      deferred_tool_catalog_def Let_def split: option.splits json.splits prod.splits if_split_asm)

lemma handler_writes: "handler_for E n c s = (s', x) \<Longrightarrow> s' = s \<or> run_event_emit E c s = (s', x)"
  unfolding handler_for_def by (auto dest: watching split: if_split_asm)

interpretation boundary: observers "default_policy_passes E configured modes" "recorded (pe_lib E)" for E configured modes
proof unfold_locales
  show "recorded (pe_lib E) s s" for s by (rule recorded.none)
  show "recorded (pe_lib E) s s' \<Longrightarrow> recorded (pe_lib E) s' s'' \<Longrightarrow> recorded (pe_lib E) s s''" for s s' s''
    by (rule recorded_trans)
next
  fix p c s s' x
  assume p: "p \<in> set (default_policy_passes E configured modes)" and h: "pp_handler p c s = (s', x)"
  obtain n where n: "pp_handler p = handler_for E n" using p by (auto simp: default_policy_passes_def)
  from handler_writes [OF h [unfolded n]] show "recorded (pe_lib E) s s'" by (auto intro: recorded.none emit_recorded)
next
  fix p c s s' r
  assume p: "p \<in> set (default_policy_passes E configured modes)" and h: "pp_handler p c s = (s', Inr r)"
  obtain n where n: "pp_handler p = handler_for E n" using p by (auto simp: default_policy_passes_def)
  have "\<not> pr_lifecycle r" if "structured_status E c s = (s', Inr r)"
    using that by (auto simp: structured_status_def Let_def split: option.splits if_split_asm)
  then show "\<not> pr_lifecycle r" using h n quiet_passes by (auto simp: handler_for_def quiet_def split: if_split_asm)
qed

section \<open>What stops a write\<close>

lemma no_state_without_row: "done_terminal_block_reason L [] = None"
  by (simp add: done_terminal_block_reason_def done_terminal_state_def terminal_state_fields_def acceptance_from_row_def field_def
      text_field_def text_of_def str_or_empty_def strip_def lstrip_def lower_def)

lemma reason_structured: "done_terminal_block_reason L row \<noteq> None \<Longrightarrow> done_terminal_state L row \<noteq> None"
  by (auto simp: done_terminal_block_reason_def split: option.splits)

lemma status_pass:
  "structured_status E c l = (l, Inr (if cx_action c = ''done'' \<and> done_terminal_block_reason (pe_lib E) (payload_row (cx_payload c)) \<noteq> None
     then pass_block ''structured_status'' (the (done_terminal_block_reason (pe_lib E) (payload_row (cx_payload c)))) [] True
     else pass_report ''structured_status'' ''structured status observed'' []))"
  using no_state_without_row [of "pe_lib E"] by (simp add: structured_status_def Let_def split: option.split)

lemma blocking_handler:
  assumes "handler_for E n c s = (s', Inr r)" "pr_status r = Pass_block \<or> pr_lifecycle r"
  shows "n = ''structured_status'' \<and> cx_action c = ''done'' \<and> done_terminal_block_reason (pe_lib E) (payload_row (cx_payload c)) \<noteq> None"
proof -
  have "n = ''structured_status''" using assms quiet_passes by (auto simp: handler_for_def quiet_def split: if_split_asm)
  with assms show ?thesis by (auto simp: handler_for_def status_pass split: if_split_asm)
qed

lemma boundary_block_sound:
  assumes "run_boundary_policy E configured modes c l = (l', Inr q)" "po_blocked q"
  shows "cx_action c = ''done'' \<and> done_terminal_block_reason (pe_lib E) (payload_row (cx_payload c)) \<noteq> None"
proof -
  let ?ps = "default_policy_passes E configured (boundary_modes (pe_lib E) (cx_action c) (cx_payload c) modes)"
  note rows = pipeline_rows [OF assms(1) [unfolded run_boundary_policy_def]]
  obtain x where x: "x \<in> set (po_rows q)" "row_status x = Pass_block" using rows(1) assms(2) by (auto simp: tidy_def)
  then obtain k where k: "k < length (po_rows q)" "x = po_rows q ! k" by (auto simp: in_set_conv_nth)
  obtain s1 s2 r where h: "pp_handler (?ps ! k) c s1 = (s2, Inr r)" "row_result x = mode_adjusted r (pp_mode (?ps ! k))"
    using rows(5) [OF k(1)] k(2) by blast
  have "?ps ! k \<in> set ?ps" using k(1) rows(2) by (intro nth_mem) simp
  then obtain n where n: "pp_handler (?ps ! k) = handler_for E n" by (auto simp: default_policy_passes_def)
  have "pr_status r = Pass_block \<or> pr_lifecycle r" using x(2) h(2) by (auto simp: row_status_def mode_adjusted_block)
  from blocking_handler [OF _ this, of E n c s1 s2] h(1) n show ?thesis by simp
qed

text \<open>The three passes before the status never fail and never stop the run.\<close>

lemma going_on:
  assumes "pp_handler p c s = (s, Inr r)" "pr_status r \<noteq> Pass_block" "\<not> pr_lifecycle r"
  shows "\<exists>q'. run_passes c (p # ps) q s = run_passes c ps q' s \<and> length (po_rows q') = Suc (length (po_rows q))"
  using assms by (auto simp: Let_def mode_adjusted_block)

lemma never_fail:
  "\<exists>r. creation_lint c l = (l, Inr r)" "\<exists>r. loop_doctor E c l = (l, Inr r)" "\<exists>r. token_budget_pass E c l = (l, Inr r)"
  by (simp_all add: creation_lint_def loop_doctor_def token_budget_pass_def Let_def)

lemma boundary_block_complete:
  assumes "cx_action c = ''done''" "done_terminal_block_reason (pe_lib E) (payload_row (cx_payload c)) = Some why"
  shows "\<exists>q. run_boundary_policy E configured modes c l = (l, Inr q) \<and> po_blocked q \<and> po_reason q = Some why \<and> length (po_rows q) = 4"
proof -
  define P where "P n = \<lparr>pp_name = n, pp_mode = mode_for configured (boundary_modes (pe_lib E) (cx_action c) (cx_payload c) modes) n,
    pp_handler = handler_for E n\<rparr>" for n
  define rest where "rest = map P [''output_budget'', ''run_event_emit'', ''deferred_tool_catalog'']"
  have enforce: "pp_mode (P ''structured_status'') = Enforce"
    using assms reason_structured [of "pe_lib E" "payload_row (cx_payload c)"]
    by (simp add: P_def mode_for_def boundary_modes_def has_structured_terminal_status_def)
  have ps: "default_policy_passes E configured (boundary_modes (pe_lib E) (cx_action c) (cx_payload c) modes) =
      P ''creation_lint'' # P ''loop_doctor'' # P ''token_budget'' # P ''structured_status'' # rest"
    by (simp add: default_policy_passes_def pass_order_def P_def rest_def)
  have h: "pp_handler (P ''creation_lint'') = creation_lint" "pp_handler (P ''loop_doctor'') = loop_doctor E"
    "pp_handler (P ''token_budget'') = token_budget_pass E" "pp_handler (P ''structured_status'') = structured_status E"
    by (simp_all add: P_def handler_for_def)
  obtain r1 r2 r3 where r: "pp_handler (P ''creation_lint'') c l = (l, Inr r1)" "pp_handler (P ''loop_doctor'') c l = (l, Inr r2)"
      "pp_handler (P ''token_budget'') c l = (l, Inr r3)" unfolding h using never_fail by blast
  have calm: "pr_status r1 \<noteq> Pass_block" "\<not> pr_lifecycle r1" "pr_status r2 \<noteq> Pass_block" "\<not> pr_lifecycle r2"
    "pr_status r3 \<noteq> Pass_block" "\<not> pr_lifecycle r3" using r quiet_passes unfolding h quiet_def by blast+
  obtain q1 where q1: "run_passes c (P ''creation_lint'' # P ''loop_doctor'' # P ''token_budget'' # P ''structured_status'' # rest) fresh_outcome l =
      run_passes c (P ''loop_doctor'' # P ''token_budget'' # P ''structured_status'' # rest) q1 l"
    "length (po_rows q1) = Suc (length (po_rows fresh_outcome))" using going_on [OF r(1) calm(1,2)] by blast
  obtain q2 where q2: "run_passes c (P ''loop_doctor'' # P ''token_budget'' # P ''structured_status'' # rest) q1 l =
      run_passes c (P ''token_budget'' # P ''structured_status'' # rest) q2 l" "length (po_rows q2) = Suc (length (po_rows q1))"
    using going_on [OF r(2) calm(3,4)] by blast
  obtain q3 where q3: "run_passes c (P ''token_budget'' # P ''structured_status'' # rest) q2 l =
      run_passes c (P ''structured_status'' # rest) q3 l" "length (po_rows q3) = Suc (length (po_rows q2))"
    using going_on [OF r(3) calm(5,6)] by blast
  have run: "run_boundary_policy E configured modes c l = run_passes c (P ''structured_status'' # rest) q3 l"
    unfolding run_boundary_policy_def run_policy_pipeline_def ps q1(1) q2(1) q3(1) ..
  show ?thesis unfolding run
    using assms q1(2) q2(2) q3(2) by (simp add: h enforce status_pass mode_adjusted_def Let_def)
qed

lemma boundary_outcome:
  assumes "run_boundary_policy E configured modes c l = (l', x)"
  shows "(cx_action c = ''done'' \<and> done_terminal_block_reason (pe_lib E) (payload_row (cx_payload c)) \<noteq> None \<longleftrightarrow>
      (\<exists>q. x = Inr q \<and> po_blocked q \<and> po_reason q = done_terminal_block_reason (pe_lib E) (payload_row (cx_payload c)) \<and> l' = l))"
    "x = Inr q \<Longrightarrow> \<not> po_blocked q \<Longrightarrow> length (po_rows q) = 7" "recorded (pe_lib E) l l'"
proof -
  show "cx_action c = ''done'' \<and> done_terminal_block_reason (pe_lib E) (payload_row (cx_payload c)) \<noteq> None \<longleftrightarrow>
      (\<exists>q. x = Inr q \<and> po_blocked q \<and> po_reason q = done_terminal_block_reason (pe_lib E) (payload_row (cx_payload c)) \<and> l' = l)"
  proof
    assume "cx_action c = ''done'' \<and> done_terminal_block_reason (pe_lib E) (payload_row (cx_payload c)) \<noteq> None"
    then obtain why where why: "cx_action c = ''done''" "done_terminal_block_reason (pe_lib E) (payload_row (cx_payload c)) = Some why" by blast
    from boundary_block_complete [OF this, of configured modes l] assms why(2)
    show "\<exists>q. x = Inr q \<and> po_blocked q \<and> po_reason q = done_terminal_block_reason (pe_lib E) (payload_row (cx_payload c)) \<and> l' = l" by auto
  next
    assume "\<exists>q. x = Inr q \<and> po_blocked q \<and> po_reason q = done_terminal_block_reason (pe_lib E) (payload_row (cx_payload c)) \<and> l' = l"
    then obtain q where "x = Inr q" "po_blocked q" by blast
    from boundary_block_sound [OF assms [unfolded this(1)] this(2)]
    show "cx_action c = ''done'' \<and> done_terminal_block_reason (pe_lib E) (payload_row (cx_payload c)) \<noteq> None" .
  qed
  show "x = Inr q \<Longrightarrow> \<not> po_blocked q \<Longrightarrow> length (po_rows q) = 7"
    using pipeline_rows(3) [of c _ l l' q] assms
    by (auto simp: run_boundary_policy_def default_policy_passes_def pass_order_def)
  show "recorded (pe_lib E) l l'" using boundary.pipeline_related assms unfolding run_boundary_policy_def by blast
qed

section \<open>What the passes miss\<close>

text \<open>A row that reads like a loop and has no contract is not warned about: the warning of the doctor is dropped.\<close>

lemma contractless_loop_passes:
  assumes "\<not> has_key row ''loop_contract''" "strip (str_or_empty L (field row ''loop_contract_ref'')) = []" "field row ''acceptance_json'' = JNull"
  shows "claim_warning_for_row L row = Inr None"
  using assms
  by (simp add: claim_warning_for_row_def doctor_row_def extract_contract_def acceptance_with_issues_def blank_json_def has_key_def field_def
      warn_if_def warn_issue_def opt_text_def str_or_empty_def strip_def lstrip_def)

section \<open>Output and tools\<close>

lemma output_clipped:
  assumes "apply_output_budget L env s limit dir pre = k"
  shows "cl_bytes k = length s" "cl_truncated k \<longleftrightarrow> env_on env \<and> limit < int (length s)" "prefix (cl_text k) s"
    "env_on env \<Longrightarrow> 0 \<le> limit \<Longrightarrow> int (length (cl_text k)) \<le> limit" "\<not> cl_truncated k \<Longrightarrow> cl_text k = s"
    "cl_truncated k \<Longrightarrow> dir \<noteq> None \<Longrightarrow> map_option snd (cl_artifact k) = Some s"
  unfolding assms [symmetric] apply_output_budget_def by (auto simp: take_is_prefix split: if_split_asm)

lemma tools_partition:
  assumes "filter_deferred_tools accepted catalog manifest requested tools = (visible, deferred)"
  shows "set visible \<union> set deferred = set tools" "set visible \<inter> set deferred = {}" "set deferred \<subseteq> set deferred_heavy_tools"
    "accepted = [] \<Longrightarrow> set deferred = set tools \<inter> set deferred_heavy_tools"
  using assms by (auto simp: filter_deferred_tools_def Let_def promoted_tools_def)

end
