(* ===== verification/EvidenceExamples.thy ===== *)
theory EvidenceExamples
  imports Examples LoopFacts PolicyFacts
begin

text \<open>
  Inputs on which the properties of run events, loops, the token ledger and the policy pipeline are
  instantiated: an event with a key, a loop that finds nothing to do, a measured usage with a library
  that can read its two payloads back, and a completion that declares failure.
\<close>

definition demo_input :: "string \<Rightarrow> run_input" where
  "demo_input key = \<lparr>i_work = ''W5'', i_run = ''r1'', i_category = ''trace'', i_type = ''demo'', i_content = JNull, i_metadata = JNull,
     i_thread = Some ''t'', i_session = None, i_key = Some key\<rparr>"

lemma demo_input_valid: "validate_event_args (demo_input ''k'') = Inr ()" "stored_key (Some ''k'') = Some ''k''" "writer_enabled None None"
  by code_simp+

section \<open>A loop\<close>

definition demo_world :: "nat loop_world" where
  "demo_world = \<lparr>lw_iterate = (\<lambda>i rs s. (s + 1, Inr [(''observed'', JStr ''no rows wait''), (''action'', JStr ''none''),
       (''verification'', JStr ''looked''), (''terminal_state'', JStr ''clean_noop'')])),
     lw_exists = (\<lambda>_ s. (s, False)), lw_clock = (\<lambda>s. (s, 0))\<rparr>"

definition demo_contract :: pyrow where
  "demo_contract = set_key ''limits'' (JObj [(''max_iterations'', JInt 5), (''max_wall_seconds'', JInt 60)]) (scaffold_contract ''coord'' ''Tidy up'')"

lemma demo_limits: "runner_limits demo_lib (\<lambda>_. None) demo_contract (JInt 3) = Inr \<lparr>ll_iterations = 5, ll_seconds = 60, ll_stagnation = 3\<rparr>"
  by code_simp

lemma demo_job: "loop_job_of demo_lib [(''id'', JStr ''W5'')] demo_contract None ''f'' None None None 1 =
   \<lparr>lj_work = ''W5'', lj_loop = ''tidy-up-v1'', lj_proof = [], lj_run = ''loop:tidy-up-v1:W5:f'', lj_session = None, lj_enabled = None, lj_env = None, lj_time = 1\<rparr>"
  by code_simp

definition demo_receipt :: pyrow where
  "demo_receipt = [(''observed'', JStr ''no rows wait''), (''action'', JStr ''none''),
       (''verification'', JStr ''looked''), (''terminal_state'', JStr ''clean_noop''), (''work_id'', JStr ''W5''), (''loop_id'', JStr ''tidy-up-v1''),
       (''iteration'', JInt 1), (''artifact_refs'', JList [])]"

lemma demo_receipt_valid: "validate_loop_receipt demo_lib demo_receipt = []" "normalized_terminal_state demo_lib (field demo_receipt ''terminal_state'') = ''clean_noop''"
   "\<not> continues demo_lib demo_receipt"
  by code_simp+

lemma demo_record: "\<exists>l. record_loop_receipt_event demo_lib None None demo_receipt (Some ''loop:tidy-up-v1:W5:f'') None 1 empty_run_log = Inr (l, Some 1)"
proof -
  have "case record_loop_receipt_event demo_lib None None demo_receipt (Some ''loop:tidy-up-v1:W5:f'') None 1 empty_run_log of Inl _ \<Rightarrow> False | Inr (l, i) \<Rightarrow> i = Some 1"
    by code_simp
  then show ?thesis by (auto split: sum.splits)
qed

lemma demo_run: "\<exists>w l o'. run_bounded_loop_contract demo_lib (\<lambda>_. None) demo_world [(''id'', JStr ''W5'')] demo_contract None ''f'' None None None (JInt 3) 1 0 empty_run_log =
   (w, l, Inr o') \<and> lo_state o' = ''clean_noop'' \<and> lo_receipts o' = [demo_receipt]"
proof -
  let ?j = "loop_job_of demo_lib [(''id'', JStr ''W5'')] demo_contract None ''f'' None None None 1"
  obtain l where l: "record_loop_receipt_event demo_lib None None demo_receipt (Some ''loop:tidy-up-v1:W5:f'') None 1 empty_run_log = Inr (l, Some 1)"
    using demo_record by blast
  have st: "stamped_receipt ?j 1 [(''observed'', JStr ''no rows wait''), (''action'', JStr ''none''),
       (''verification'', JStr ''looked''), (''terminal_state'', JStr ''clean_noop'')] = demo_receipt"
    by (simp add: demo_job stamped_receipt_def demo_receipt_def has_key_def)
  let ?m = "\<lparr>ll_iterations = 5, ll_seconds = 60, ll_stagnation = 3\<rparr>"
  have "loop_step demo_lib demo_world ?j ?m 0 fresh_progress 0 empty_run_log =
    (1, l, Inr (Inl (loop_result ''clean_noop'' (''receipt_terminal_state:'' @ ''clean_noop'')
      \<lparr>lp_receipts = [demo_receipt], lp_events = [Some 1], lp_last = Some (receipt_signature demo_lib demo_receipt), lp_repeated = 1\<rparr>)))"
    using l st demo_receipt_valid by (simp add: demo_job demo_world_def loop_step_def judged_receipt_def fresh_progress_def Let_def)
  then have "loop_iterations demo_lib demo_world ?j ?m 0 (Suc 4) fresh_progress 0 empty_run_log = (1, l, Inr (loop_result ''clean_noop'' (''receipt_terminal_state:'' @ ''clean_noop'')
      \<lparr>lp_receipts = [demo_receipt], lp_events = [Some 1], lp_last = Some (receipt_signature demo_lib demo_receipt), lp_repeated = 1\<rparr>))"
    by (simp only: loop_iterations.simps) simp
  moreover have "Suc 4 = (5 :: nat)" by simp
  moreover have "lw_clock demo_world 0 = (0, 0)" "lw_exists demo_world (lj_proof ?j) 0 = (0, False)" by (simp_all add: demo_world_def)
  ultimately show ?thesis unfolding run_bounded_loop_contract_def demo_limits by (simp add: loop_result_def)
qed
section \<open>A measured usage\<close>

definition demo_usage_args :: usage_args where
  "demo_usage_args = \<lparr>ua_work = ''W5'', ua_run = ''r1'', ua_caller = ''codex'', ua_model = ''m'', ua_tokens = 7, ua_source = ''codex_coord'',
     ua_usage = ''u1'', ua_metadata = JNull, ua_thread = None, ua_session = None, ua_reliability = ''exact''\<rparr>"

definition demo_ledger_lib :: lib where
  "demo_ledger_lib = \<lparr>dumps = (\<lambda>j. if j = JObj (usage_content demo_usage_args) then ''c'' else if j = usage_metadata demo_usage_args then ''m'' else ''x''),
     loads = (\<lambda>s. if s = ''c'' then Some (JObj (usage_content demo_usage_args)) else if s = ''m'' then Some (usage_metadata demo_usage_args) else None),
     py_str = (\<lambda>_. ''x''), sha256 = (\<lambda>_. replicate 64 (CHR ''a''))\<rparr>"

lemma demo_usage_clean: "clean_usage demo_usage_args = Inr demo_usage_args"
  by code_simp

lemma demo_usage_recorded:
  "\<exists>l r. record_measured_token_usage demo_ledger_lib None None demo_usage_args 1 empty_run_log = Inr (l, r) \<and>
     ur_event r = Some 1 \<and> ur_inserted r \<and> length (rl_rows l) = 1"
proof -
  have "case record_measured_token_usage demo_ledger_lib None None demo_usage_args 1 empty_run_log of
      Inl _ \<Rightarrow> False | Inr (l, r) \<Rightarrow> ur_event r = Some 1 \<and> ur_inserted r \<and> length (rl_rows l) = 1" by code_simp
  then show ?thesis by (auto split: sum.splits)
qed

lemma demo_ledger_lib_reads:
  "decodes demo_ledger_lib (storage_json demo_ledger_lib ''content'' (JObj (usage_content demo_usage_args))) (usage_content demo_usage_args)"
  "decodes demo_ledger_lib (storage_json demo_ledger_lib ''metadata'' (usage_metadata demo_usage_args)) (object_or_empty (usage_metadata demo_usage_args))"
  "unblank_digests demo_ledger_lib"
proof -
  have m: "usage_metadata demo_usage_args \<noteq> JObj (usage_content demo_usage_args)" "usage_metadata demo_usage_args \<noteq> JNull" by code_simp+
  obtain kvs where kvs: "usage_metadata demo_usage_args = JObj kvs" by (auto simp: usage_metadata_def)
  show "decodes demo_ledger_lib (storage_json demo_ledger_lib ''content'' (JObj (usage_content demo_usage_args))) (usage_content demo_usage_args)"
    "decodes demo_ledger_lib (storage_json demo_ledger_lib ''metadata'' (usage_metadata demo_usage_args)) (object_or_empty (usage_metadata demo_usage_args))"
    using m kvs
    by (simp_all add: decodes_def storage_json_def bound_event_payload_def run_json_def none_as_empty_def Let_def max_event_json_bytes_def
        demo_ledger_lib_def object_or_empty_def)
  show "unblank_digests demo_ledger_lib" by (simp add: unblank_digests_def demo_ledger_lib_def is_ws_def)
qed

definition demo_token_event :: "string \<Rightarrow> int \<Rightarrow> token_event" where
  "demo_token_event source i = \<lparr>te_source = source, te_id = i, te_time = 1, te_week = ''1969-12-29'', te_work = ''W5'', te_attributed = True,
     te_runner = ''codex'', te_model = ''m'', te_reliability = ''exact'', te_tokens = 7, te_runner_source = ''codex'', te_run = None,
     te_canonical = None, te_aliases = [], te_thread = None, te_session = None, te_usage = ''u1'', te_explicit = True\<rparr>"

section \<open>A completion\<close>

definition demo_env :: policy_env where
  "demo_env = \<lparr>pe_lib = demo_lib, pe_db = demo_db, pe_time = 1, pe_writer = None, pe_output = None, pe_catalog = None, pe_manifest = None\<rparr>"

definition demo_done :: policy_context where
  "demo_done = \<lparr>cx_work = ''W5'', cx_boundary = ''mcp'', cx_action = ''done'', cx_run = None, cx_session = None, cx_actor = Some ''claude'',
     cx_payload = [(''row'', JObj [(''loop_terminal_state'', JStr ''failed'')])], cx_metadata = [], cx_conn = True\<rparr>"

lemma demo_done_reason: "done_terminal_block_reason demo_lib (payload_row (cx_payload demo_done)) \<noteq> None"
  by code_simp

end
