(* ===== verification/Triggers.thy ===== *)
theory Triggers
  imports Machine Loops Heads
begin

text \<open>
  What the background pass looks at (reaper.py and process_liveness.py): whether a process is alive,
  whether the resume predicate of a parked row has come true, which predicates need no human, and
  the dark holds. The file system, the process table and the dark holds are arguments.
\<close>

section \<open>Processes\<close>

datatype kill_answer = Sent | NoSuchProcess | NotPermitted | OtherOsError

text \<open>The platform: whether signal 0 is a probe here, what it answers, and when a process started.\<close>

record processes =
  posix_probe :: bool
  kill0 :: "int \<Rightarrow> kill_answer"
  started_at :: "int \<Rightarrow> seconds option"

definition start_time_tolerance :: seconds where
  "start_time_tolerance = 2"

definition probe_unsupported :: err where
  "probe_unsupported = ValueErr ''signal 0 is no existence probe on this platform''"

definition pid_exists :: "processes \<Rightarrow> int option \<Rightarrow> err + bool" where
  "pid_exists P pid =
     (case pid of None \<Rightarrow> Inr False
      | Some p \<Rightarrow> if p = 0 then Inr False
          else if \<not> posix_probe P then Inl probe_unsupported
          else Inr (case kill0 P p of Sent \<Rightarrow> True | NoSuchProcess \<Rightarrow> False | NotPermitted \<Rightarrow> False | OtherOsError \<Rightarrow> False))"

definition pid_start_time :: "processes \<Rightarrow> int option \<Rightarrow> seconds option" where
  "pid_start_time P pid = (case pid of None \<Rightarrow> None | Some p \<Rightarrow> if p = 0 then None else started_at P p)"

definition pid_matches :: "processes \<Rightarrow> int option \<Rightarrow> seconds option \<Rightarrow> err + bool" where
  "pid_matches P pid expected =
     bindE (pid_exists P pid) (\<lambda>there.
       if \<not> there then Inr False
       else case expected of None \<Rightarrow> Inr True
         | Some e \<Rightarrow> (case pid_start_time P pid of None \<Rightarrow> Inr False
             | Some s \<Rightarrow> Inr (\<bar>s - e\<bar> \<le> start_time_tolerance)))"

text \<open>The reaper's own copy of the probe.\<close>

definition pid_alive :: "processes \<Rightarrow> int option \<Rightarrow> seconds option \<Rightarrow> err + bool" where
  "pid_alive P pid expected =
     (case pid of None \<Rightarrow> Inr False
      | Some p \<Rightarrow>
          if p = 0 then Inr False
          else if \<not> posix_probe P then Inl probe_unsupported
          else if kill0 P p \<noteq> Sent then Inr False
          else case expected of None \<Rightarrow> Inr True
            | Some e \<Rightarrow> Inr (case pid_start_time P (Some p) of None \<Rightarrow> False | Some s \<Rightarrow> \<bar>s - e\<bar> \<le> start_time_tolerance))"

section \<open>When a resume predicate is true\<close>

text \<open>A path names nothing, a file that cannot be read, or a file with its contents.\<close>

datatype file_state = NoFile | Unreadable | Contents string

record surroundings =
  root_dir :: string
  file_at :: "string \<Rightarrow> file_state"

definition at_root :: "surroundings \<Rightarrow> string \<Rightarrow> string" where
  "at_root W p = (if prefix ''/'' p then p else root_dir W @ ''/'' @ p)"

definition sqlite_int :: "int \<Rightarrow> err + int" where
  "sqlite_int n = (if - (2 ^ 63) \<le> n \<and> n \<le> sqlite_max_int then Inr n
     else Inl (ValueErr ''Python int too large to convert to SQLite INTEGER''))"

definition stripped_field :: "lib \<Rightarrow> json \<Rightarrow> string \<Rightarrow> string" where
  "stripped_field L j k = strip (str_or_empty L (jget j k))"

definition event_true :: "lib \<Rightarrow> db \<Rightarrow> json \<Rightarrow> err + bool" where
  "event_true L d j =
     (let work = stripped_field L j ''work_id''; kind = stripped_field L j ''kind'';
          actor = stripped_field L j ''actor''; v = jget j ''after_event_id''
      in case (if truthy v then py_int v else Some 0) of
           None \<Rightarrow> Inl (ValueErr ''after_event_id is not an integer'')
         | Some n \<Rightarrow> bindE (sqlite_int n) (\<lambda>n.
             Inr (list_ex (\<lambda>e. n < e_id e \<and> e_work e = Some work \<and> (kind = [] \<or> e_kind e = kind) \<and>
                    (actor = [] \<or> e_actor e = Some actor)) (d_events d))))"

definition artifact_true :: "lib \<Rightarrow> surroundings \<Rightarrow> bool \<Rightarrow> json \<Rightarrow> bool" where
  "artifact_true L W readable j =
     (case file_at W (at_root W (str_or_empty L (jget j ''path''))) of
        NoFile \<Rightarrow> False | Unreadable \<Rightarrow> \<not> readable | Contents c \<Rightarrow> True)"

definition sha_true :: "lib \<Rightarrow> surroundings \<Rightarrow> json \<Rightarrow> err + bool" where
  "sha_true L W j =
     (let p = (if truthy (jget j ''path'') then jget j ''path'' else jget j ''ref'');
          expected = lower (stripped_field L j ''sha256'')
      in case file_at W (at_root W (str_or_empty L p)) of
           NoFile \<Rightarrow> Inr False
         | Unreadable \<Rightarrow> if length expected \<noteq> 64 then Inr False else Inl (ValueErr ''PermissionError'')
         | Contents c \<Rightarrow> Inr (length expected = 64 \<and> sha256 L c = expected))"

definition verdict_true :: "lib \<Rightarrow> db \<Rightarrow> json \<Rightarrow> bool" where
  "verdict_true L d j =
     list_ex (\<lambda>e. e_work e = Some (str_or_empty L (jget j ''work_id'')) \<and> e_kind e = ''audit_verdict'' \<and>
        upper (otext (e_verdict e)) = upper (str_or_empty L (jget j ''verdict'')) \<and>
        lower (otext (e_actor e)) = lower (str_or_empty L (jget j ''from_lane''))) (d_events d)"

definition hold_true :: "lib \<Rightarrow> string \<Rightarrow> (string \<times> string) list \<Rightarrow> json \<Rightarrow> bool" where
  "hold_true L current exits j =
     (let hold = stripped_field L j ''hold_id''; work = stripped_field L j ''work_id''
      in hold \<noteq> [] \<and> work \<noteq> [] \<and> work = current \<and> (hold, work) \<in> set exits)"

definition leaf_true ::
  "lib \<Rightarrow> surroundings \<Rightarrow> string \<Rightarrow> (string \<times> string) list \<Rightarrow> db \<Rightarrow> json \<Rightarrow> err + bool" where
  "leaf_true L W current exits d j =
     (let ty = stripped_field L j ''type'' in
      if ty = ''event_exists'' then event_true L d j
      else if ty = ''artifact_exists'' then Inr (artifact_true L W False j)
      else if ty = ''artifact_readable'' then Inr (artifact_true L W True j)
      else if ty = ''sha_matches'' then sha_true L W j
      else if ty = ''verdict_posted'' then Inr (verdict_true L d j)
      else if ty = ''dark_hold_exit'' then Inr (hold_true L current exits j)
      else Inr False)"

text \<open>All parts of a composite are evaluated before they are combined.\<close>

function predicate_true ::
    "lib \<Rightarrow> surroundings \<Rightarrow> string \<Rightarrow> (string \<times> string) list \<Rightarrow> db \<Rightarrow> json \<Rightarrow> err + bool"
  and predicates_true ::
    "lib \<Rightarrow> surroundings \<Rightarrow> string \<Rightarrow> (string \<times> string) list \<Rightarrow> db \<Rightarrow> json list \<Rightarrow> err + bool list" where
  "predicate_true L W current exits d j =
     (if \<not> is_jobj j then Inr False
      else let ty = stripped_field L j ''type'' in
        if ty = ''all_of'' \<or> ty = ''any_of'' then
          (case jget j ''predicates'' of
             JList cs \<Rightarrow> if cs = [] then Inr False
               else bindE (predicates_true L W current exits d cs) (\<lambda>bs.
                 Inr (if ty = ''all_of'' then list_all id bs else list_ex id bs))
           | _ \<Rightarrow> Inr False)
        else leaf_true L W current exits d j)"
| "predicates_true L W current exits d [] = Inr []"
| "predicates_true L W current exits d (c # cs) =
     bindE (predicate_true L W current exits d c) (\<lambda>b.
     bindE (predicates_true L W current exits d cs) (\<lambda>bs. Inr (b # bs)))"
  by pat_completeness auto
termination
  by (relation "measure (\<lambda>x. case x of Inl (_, _, _, _, _, j) \<Rightarrow> 2 * size j
        | Inr (_, _, _, _, _, js) \<Rightarrow> 2 * size_list size js + 1)")
     (auto dest: size_jget)

declare predicate_true.simps [simp del]

section \<open>What may be requeued without asking\<close>

definition auto_requeue_classes :: "string list" where
  "auto_requeue_classes = [''dependency_missing_predicate'', ''stale_resolved_upstream'', ''upstream_artifact_not_ready'']"

definition non_mechanical_kinds :: "string list" where
  "non_mechanical_kinds = [''audit_verdict'', ''decision'', ''operator_ok'', ''operator-ok'']"

definition leaf_mechanical :: "lib \<Rightarrow> json \<Rightarrow> bool" where
  "leaf_mechanical L j =
     (let ty = stripped_field L j ''type'' in
      if ty \<in> set [''artifact_exists'', ''artifact_readable'', ''sha_matches''] then
        strip (str_or_empty L (if truthy (jget j ''path'') then jget j ''path'' else jget j ''ref'')) \<noteq> [] \<and>
        (ty = ''sha_matches'' \<longrightarrow> length (stripped_field L j ''sha256'') = 64)
      else if ty = ''event_exists'' then
        list_all (\<lambda>k. stripped_field L j k \<noteq> []) [''work_id'', ''kind'', ''actor''] \<and>
        lower (stripped_field L j ''kind'') \<notin> set non_mechanical_kinds
      else False)"

function can_auto_requeue :: "lib \<Rightarrow> json \<Rightarrow> bool"
  and all_auto_requeue :: "lib \<Rightarrow> json list \<Rightarrow> bool" where
  "can_auto_requeue L j =
     (if \<not> is_jobj j then False
      else let ty = stripped_field L j ''type'' in
        if ty = ''all_of'' \<or> ty = ''any_of'' then
          (case jget j ''predicates'' of JList cs \<Rightarrow> cs \<noteq> [] \<and> all_auto_requeue L cs | _ \<Rightarrow> False)
        else leaf_mechanical L j)"
| "all_auto_requeue L [] = True"
| "all_auto_requeue L (c # cs) = (can_auto_requeue L c \<and> all_auto_requeue L cs)"
  by pat_completeness auto
termination
  by (relation "measure (\<lambda>x. case x of Inl (_, j) \<Rightarrow> 2 * size j | Inr (_, js) \<Rightarrow> 2 * size_list size js + 1)")
     (auto dest: size_jget)

declare can_auto_requeue.simps [simp del]

section \<open>Dark holds\<close>

function dark_hold_pairs :: "lib \<Rightarrow> string \<Rightarrow> json \<Rightarrow> (string \<times> string) list"
  and dark_hold_pairs_of :: "lib \<Rightarrow> string \<Rightarrow> json list \<Rightarrow> (string \<times> string) list" where
  "dark_hold_pairs L current j =
     (if \<not> is_jobj j then []
      else let ty = stripped_field L j ''type'' in
        if ty = ''all_of'' \<or> ty = ''any_of'' then
          (case jget j ''predicates'' of JList cs \<Rightarrow> dark_hold_pairs_of L current cs | _ \<Rightarrow> [])
        else if ty \<noteq> ''dark_hold_exit'' then []
        else let hold = stripped_field L j ''hold_id''; work = stripped_field L j ''work_id'' in
          if hold = [] \<or> work \<noteq> current then [] else [(hold, work)])"
| "dark_hold_pairs_of L current [] = []"
| "dark_hold_pairs_of L current (c # cs) = dark_hold_pairs L current c @ dark_hold_pairs_of L current cs"
  by pat_completeness auto
termination
  by (relation "measure (\<lambda>x. case x of Inl (_, _, j) \<Rightarrow> 2 * size j | Inr (_, _, js) \<Rightarrow> 2 * size_list size js + 1)")
     (auto dest: size_jget)

declare dark_hold_pairs.simps [simp del]

text \<open>
  The module of the dark holds is optional and not in the repository: None when it cannot be
  imported, otherwise its answer for a hold (hold, row and status; None when it raises) and the
  statuses that count as an exit.
\<close>

record hold_module =
  evaluate_hold_exit :: "string \<Rightarrow> string \<Rightarrow> (string \<times> string \<times> string) option"
  hold_exit_outcomes :: "string list"

definition evaluate_dark_hold_snapshot ::
  "lib \<Rightarrow> hold_module option \<Rightarrow> work_row list \<Rightarrow> (string \<times> string) list" where
  "evaluate_dark_hold_snapshot L M rows =
     (let requested = sort (remdups (concat (map (\<lambda>w. case loads L (otext (w_resume_pred w)) of
              None \<Rightarrow> [] | Some j \<Rightarrow> dark_hold_pairs L (w_id w) j) rows)))
      in case M of None \<Rightarrow> []
         | Some m \<Rightarrow> filter (\<lambda>(hold, work). case evaluate_hold_exit m hold work of
               None \<Rightarrow> False
             | Some (h, w, status) \<Rightarrow> h = hold \<and> w = work \<and> status \<in> set (hold_exit_outcomes m)) requested)"

end
