(* ===== verification/Reaper.thy ===== *)
theory Reaper
  imports Triggers
begin

text \<open>
  The background pass (reaper.py and the continuation writer of coord_db.py): the compare-and-swap
  that records a resume predicate as true and requeues its row, the escalation of requests nobody
  answers, runs whose process is gone, and the pass that composes them with the housekeeping of
  theories Sessions, Leases and BoardStatus. Every transaction reads the clock anew, so the clock
  is a function. An exception ends the pass and leaves what was committed before it: the result
  is the database and the error or the report. The severity column of an event is not modelled.
\<close>

section \<open>Recording that a predicate came true\<close>

record ready_args =
  rd_work :: string
  rd_lane :: string
  rd_pred :: json
  rd_version :: int
  rd_intent :: string
  rd_claim :: "string option"
  rd_claim_version :: "int option"
  rd_requeue :: bool

record ready_result =
  rr_work :: string
  rr_lane :: string
  rr_event :: int
  rr_requeued :: bool

definition ready_key :: "string \<Rightarrow> int \<Rightarrow> string" where
  "ready_key work version = ''continuation-ready:'' @ work @ '':'' @ int_text version"

definition ready_body :: "bool \<Rightarrow> string option \<Rightarrow> string" where
  "ready_body requeued released =
     (if requeued \<and> otext released \<noteq> [] then
        ''The typed resume predicate evaluated true and the exact '' @
        ''blocked work/claim pair was requeued atomically.''
      else if requeued then
        ''The typed resume predicate evaluated true. The blocking claim's '' @
        ''lease had already expired and been released, so the unheld work '' @
        ''item was requeued on its own state.''
      else
        ''The typed resume predicate evaluated true. Authority-bearing '' @
        ''or non-allowlisted blocked work remains blocked.'')"

definition ready_event :: "string list \<Rightarrow> ready_args \<Rightarrow> seconds \<Rightarrow> event_row" where
  "ready_event lanes a t =
     (let released = (if rd_requeue a then rd_claim a else None) in
      blank_event\<lparr>e_ts := t, e_kind := ''continuation_ready'', e_actor := Some ''system'',
        e_to := (if rd_lane a \<in> set lanes then Some (''actor:'' @ rd_lane a) else None),
        e_work := Some (rd_work a), e_trust := ''system'',
        e_title := Some (''Continuation ready: '' @ rd_work a), e_body := Some (ready_body (rd_requeue a) released),
        e_payload := JObj [(''predicate'', rd_pred a), (''released_claim_id'', jopt_json released),
          (''requeued'', JBool (rd_requeue a)), (''schema_version'', JInt 2), (''work_version'', JInt (rd_version a))],
        e_key := Some (ready_key (rd_work a) (rd_version a))\<rparr>)"

definition blocked_claims :: "string \<Rightarrow> db \<Rightarrow> claim_row list" where
  "blocked_claims work d = filter (\<lambda>c. c_work c = work \<and> c_status c = ''blocked'') (d_claims d)"

definition the_blocked_claim :: "string \<Rightarrow> db \<Rightarrow> claim_row option" where
  "the_blocked_claim work d = (case blocked_claims work d of [c] \<Rightarrow> Some c | _ \<Rightarrow> None)"

text \<open>What the transaction re-reads and compares.\<close>

definition ready_matches :: "ready_args \<Rightarrow> db \<Rightarrow> bool" where
  "ready_matches a d \<longleftrightarrow>
     (case workd d (rd_work a) of
        None \<Rightarrow> False
      | Some w \<Rightarrow> w_version w = rd_version a \<and> norm (Some (w_intent w)) = norm (Some (rd_intent a)) \<and>
          w_ready_at w = None \<and>
          map_option (\<lambda>c. strip (c_id c)) (the_blocked_claim (rd_work a) d) = rd_claim a \<and>
          map_option c_version (the_blocked_claim (rd_work a) d) = rd_claim_version a \<and>
          \<not> (rd_requeue a \<and> rd_claim a = None \<and> list_ex (\<lambda>c. c_work c = rd_work a \<and> held c) (d_claims d)))"

definition mark_ready :: "bool \<Rightarrow> seconds \<Rightarrow> work_row \<Rightarrow> work_row" where
  "mark_ready rq t w =
     w\<lparr>w_ready_at := Some t, w_updated := t, w_intent := (if rq then ''queued'' else w_intent w),
       w_reason := (if rq then None else w_reason w), w_version := w_version w + 1\<rparr>"

definition markable :: "ready_args \<Rightarrow> work_row \<Rightarrow> bool" where
  "markable a w \<longleftrightarrow> w_id w = rd_work a \<and> w_version w = rd_version a \<and> w_ready_at w = None"

definition free_blocked :: "claim_row \<Rightarrow> claim_row" where
  "free_blocked c = c\<lparr>c_status := ''released'', c_reason := Some ''resume_predicate_satisfied'',
     c_version := c_version c + 1\<rparr>"

definition freeable :: "ready_args \<Rightarrow> claim_row \<Rightarrow> bool" where
  "freeable a c \<longleftrightarrow> Some (c_id c) = rd_claim a \<and> Some (c_version c) = rd_claim_version a \<and> c_status c = ''blocked''"

text \<open>None: the comparison failed and the transaction was rolled back.\<close>

definition apply_continuation_ready_transition ::
  "string list \<Rightarrow> ready_args \<Rightarrow> seconds \<Rightarrow> db \<Rightarrow> err + (db \<times> ready_result option)" where
  "apply_continuation_ready_transition lanes a t d =
     (if rd_requeue a \<and> (otext (rd_claim a) \<noteq> []) \<noteq> (rd_claim_version a \<noteq> None)
      then Inl (ValueErr ''continuation requeue takes one exact blocked claim (id and version) or neither'')
      else if \<not> ready_matches a d \<or> row_count (markable a) (d_works d) \<noteq> 1 then Inr (d, None)
      else let d1 = upd_works (markable a) (mark_ready (rd_requeue a) t) d in
        if rd_requeue a \<and> rd_claim a \<noteq> None \<and> row_count (freeable a) (d_claims d1) \<noteq> 1 then Inr (d, None)
        else let d2 = (if rd_requeue a \<and> rd_claim a \<noteq> None then upd_claims (freeable a) free_blocked d1 else d1)
          in bindE (insert_event (ready_event lanes a t) d2) (\<lambda>(d3, i).
               Inr (d3, Some \<lparr>rr_work = rd_work a, rr_lane = rd_lane a, rr_event = i, rr_requeued = rd_requeue a\<rparr>)))"

section \<open>One pass over the parked rows\<close>

record scanned =
  sc_row :: work_row
  sc_claim :: "claim_row option"
  sc_blocked :: nat
  sc_held :: nat

definition waiting :: "work_row \<Rightarrow> bool" where
  "waiting w \<longleftrightarrow> w_intent w \<in> set [''blocked'', ''paused'', ''queued'', ''planned''] \<and> w_ready_at w = None \<and>
     otext (w_resume_pred w) \<noteq> []"

definition scan_row :: "db \<Rightarrow> work_row \<Rightarrow> scanned list" where
  "scan_row d w =
     (let bs = blocked_claims (w_id w) d;
          h = row_count (\<lambda>c. c_work c = w_id w \<and> held c) (d_claims d)
      in map (\<lambda>c. \<lparr>sc_row = w, sc_claim = c, sc_blocked = length bs, sc_held = h\<rparr>)
           (if bs = [] then [None] else map Some bs))"

definition scan :: "db \<Rightarrow> scanned list" where
  "scan d = concat (map (scan_row d) (filter waiting (d_works d)))"

definition one_blocked :: "scanned \<Rightarrow> bool" where
  "one_blocked s \<longleftrightarrow> sc_blocked s = 1 \<and> (case sc_claim s of None \<Rightarrow> False | Some c \<Rightarrow> strip (c_id c) \<noteq> [])"

definition safe_candidate :: "lib \<Rightarrow> json \<Rightarrow> work_row \<Rightarrow> bool" where
  "safe_candidate L j w \<longleftrightarrow> norm (Some (w_intent w)) = ''blocked'' \<and>
     norm (w_reason w) \<in> set auto_requeue_classes \<and> can_auto_requeue L j"

definition ready_request :: "lib \<Rightarrow> json \<Rightarrow> scanned \<Rightarrow> ready_args" where
  "ready_request L j s =
     (let w = sc_row s; c = (if one_blocked s then sc_claim s else None) in
      \<lparr>rd_work = w_id w, rd_lane = norm (w_assignee w), rd_pred = j, rd_version = w_version w,
       rd_intent = norm (Some (w_intent w)), rd_claim = map_option (\<lambda>c. strip (c_id c)) c,
       rd_claim_version = map_option c_version c,
       rd_requeue = (safe_candidate L j w \<and> (one_blocked s \<or> sc_held s = 0))\<rparr>)"

definition continue_one ::
  "lib \<Rightarrow> string list \<Rightarrow> surroundings \<Rightarrow> (string \<times> string) list \<Rightarrow> seconds \<Rightarrow> scanned \<Rightarrow> db
     \<Rightarrow> err + (db \<times> ready_result option)" where
  "continue_one L lanes W exits t s d =
     (case loads L (otext (w_resume_pred (sc_row s))) of
        None \<Rightarrow> Inr (d, None)
      | Some j \<Rightarrow> bindE (predicate_true L W (w_id (sc_row s)) exits d j) (\<lambda>holds.
          if \<not> holds then Inr (d, None)
          else apply_continuation_ready_transition lanes (ready_request L j s) t d))"

fun continue_rows ::
  "lib \<Rightarrow> string list \<Rightarrow> surroundings \<Rightarrow> (string \<times> string) list \<Rightarrow> (nat \<Rightarrow> seconds) \<Rightarrow> scanned list \<Rightarrow> db
     \<Rightarrow> db \<times> (err + ready_result list)" where
  "continue_rows L lanes W exits clock [] d = (d, Inr [])"
| "continue_rows L lanes W exits clock (s # ss) d =
     (case continue_one L lanes W exits (clock (length ss)) s d of
        Inl e \<Rightarrow> (d, Inl e)
      | Inr (d1, r) \<Rightarrow>
          (case continue_rows L lanes W exits clock ss d1 of
             (d2, Inl e) \<Rightarrow> (d2, Inl e)
           | (d2, Inr rs) \<Rightarrow> (d2, Inr (case r of None \<Rightarrow> rs | Some x \<Rightarrow> x # rs))))"

definition evaluate_continuations ::
  "lib \<Rightarrow> string list \<Rightarrow> surroundings \<Rightarrow> hold_module option \<Rightarrow> (nat \<Rightarrow> seconds) \<Rightarrow> db
     \<Rightarrow> db \<times> (err + ready_result list)" where
  "evaluate_continuations L lanes W M clock d =
     (let rows = scan d in
      continue_rows L lanes W (evaluate_dark_hold_snapshot L M (map sc_row rows)) clock rows d)"

section \<open>Requests nobody answered\<close>

text \<open>The join of the open requests with their events.\<close>

definition open_requests :: "db \<Rightarrow> (consumption_row \<times> event_row) list" where
  "open_requests d =
     concat (map (\<lambda>q. case eventd d (q_request q) of None \<Rightarrow> [] | Some e \<Rightarrow> [(q, e)])
       (filter (\<lambda>q. q_at q = None) (d_consumption d)))"

definition self_directed :: "consumption_row \<times> event_row \<Rightarrow> bool" where
  "self_directed x \<longleftrightarrow> lower (otext (e_actor (snd x))) = lower (q_lane (fst x))"

definition settle_own :: "seconds \<Rightarrow> consumption_row \<Rightarrow> consumption_row" where
  "settle_own t q = q\<lparr>q_event := Some (q_request q), q_at := Some t\<rparr>"

definition settle_all :: "seconds \<Rightarrow> (consumption_row \<times> event_row) list \<Rightarrow> db \<Rightarrow> db" where
  "settle_all t rows d =
     foldl (\<lambda>d (r, _). d\<lparr>d_consumption := upd_where
         (\<lambda>q. q_request q = q_request r \<and> q_lane q = q_lane r \<and> q_at q = None) (settle_own t) (d_consumption d)\<rparr>) d rows"

record reclassified =
  rc_count :: nat
  rc_sha :: string
  rc_event :: "int option"

text \<open>\<open>INSERT OR IGNORE\<close>: a taken key leaves the log as it is.\<close>

definition insert_or_ignore :: "event_row \<Rightarrow> db \<Rightarrow> db \<times> int option" where
  "insert_or_ignore e d = (case insert_event e d of Inl _ \<Rightarrow> (d, None) | Inr (d', i) \<Rightarrow> (d', Some i))"

definition reclassification_event :: "seconds \<Rightarrow> int list \<Rightarrow> string \<Rightarrow> event_row" where
  "reclassification_event t ids sha =
     blank_event\<lparr>e_ts := t, e_kind := ''self_directed_sla_reclassification'',
       e_actor := Some ''system'', e_trust := ''system'', e_title := Some ''Self-directed SLA timers reclassified'',
       e_body := Some (''Reclassified '' @ digits_of (length ids) @
         '' own-lane request timer(s); cross-lane requests unchanged.''),
       e_payload := JObj [(''first_event_id'', JInt (hd ids)), (''last_event_id'', JInt (last ids)),
         (''reclassified_count'', JInt (int (length ids))), (''request_event_ids_sha256'', JStr sha),
         (''schema_version'', JInt 1)],
       e_key := Some (''self-directed-sla-reclassification:'' @ sha)\<rparr>"

definition reclassify_self_directed_requests :: "lib \<Rightarrow> seconds \<Rightarrow> db \<Rightarrow> db \<times> reclassified" where
  "reclassify_self_directed_requests L t d =
     (let rows = sort_key (\<lambda>(q, e). q_request q) (filter self_directed (open_requests d));
          ids = map (\<lambda>(q, e). q_request q) rows; sha = digest L (JList (map JInt ids));
          d1 = settle_all t rows d
      in if rows = [] then (d1, \<lparr>rc_count = 0, rc_sha = sha, rc_event = None\<rparr>)
         else let (d2, ev) = insert_or_ignore (reclassification_event t ids sha) d1
           in (d2, \<lparr>rc_count = length rows, rc_sha = sha, rc_event = ev\<rparr>))"

text \<open>An audit request its recipient has judged since is not overdue, consumed or not.\<close>

definition judged_since :: "db \<Rightarrow> consumption_row \<times> event_row \<Rightarrow> bool" where
  "judged_since d x \<longleftrightarrow> list_ex (\<lambda>v. e_work v = e_work (snd x) \<and> e_work v \<noteq> None \<and> e_kind v = ''audit_verdict'' \<and>
     e_id (snd x) < e_id v \<and> lower (otext (e_actor v)) = lower (q_lane (fst x)) \<and>
     upper (otext (e_verdict v)) \<in> set [''PASS'', ''FLAG'', ''BLOCKED'']) (d_events d)"

definition unanswered :: "db \<Rightarrow> (consumption_row \<times> event_row) list" where
  "unanswered d = sort_key (\<lambda>(q, e). e_ts e)
     (filter (\<lambda>x. e_kind (snd x) \<noteq> ''audit_request'' \<or> \<not> judged_since d x) (open_requests d))"

text \<open>The time a request may stay open; a payload that is JSON but no object has no \<open>get\<close>.\<close>

definition request_sla :: "event_row \<Rightarrow> err + int" where
  "request_sla e =
     (let standard = (if e_kind e = ''audit_request'' then 1800 else 3600);
          payload = (case e_payload e of JRaw _ \<Rightarrow> JObj [] | j \<Rightarrow> j)
      in if \<not> is_jobj payload then Inl (ValueErr ''AttributeError'')
         else let v = jget payload ''sla_s'' in
           Inr (if truthy v then (case py_int v of None \<Rightarrow> standard | Some n \<Rightarrow> max 1 n) else standard))"

definition request_age :: "seconds \<Rightarrow> event_row \<Rightarrow> seconds" where
  "request_age t e = max 0 (t - e_ts e)"

definition overdue_multiple :: "seconds \<Rightarrow> int \<Rightarrow> nat" where
  "overdue_multiple age sla = (if 2 * of_int sla \<le> age then 2 else if of_int sla \<le> age then 1 else 0)"

definition sla_key :: "int \<Rightarrow> nat \<Rightarrow> string" where
  "sla_key event multiple = ''request-sla:'' @ int_text event @ '':'' @ digits_of multiple @ ''x''"

definition py_opt :: "string option \<Rightarrow> string" where
  "py_opt x = (case x of None \<Rightarrow> ''None'' | Some s \<Rightarrow> s)"

definition escalation_event :: "consumption_row \<times> event_row \<Rightarrow> int \<Rightarrow> nat \<Rightarrow> seconds \<Rightarrow> event_row" where
  "escalation_event x sla multiple t =
     (let (q, e) = x; age = \<lfloor>request_age t e\<rfloor> in
      blank_event\<lparr>e_ts := t, e_kind := ''sla_escalation'', e_actor := Some ''system'', e_to := Some (''actor:'' @ q_lane q),
        e_work := e_work e, e_trust := ''system'',
        e_title := Some (''Cross-lane request past '' @ digits_of multiple @ ''x SLA''),
        e_body := Some (''Request event '' @ int_text (e_id e) @ '' remains unconsumed after '' @ int_text age @ ''s.''),
        e_refs := JList [event_ref (e_id e)],
        e_payload := JObj [(''age_s'', JInt age), (''multiple'', JInt (int multiple)),
          (''request_event_id'', JInt (e_id e)), (''schema_version'', JInt 1), (''sla_s'', JInt sla),
          (''spawn_action'', if q_lane q = ''claude'' then JStr (''claim:'' @ py_opt (e_work e)) else JNull)],
        e_key := Some (sla_key (e_id e) multiple)\<rparr>)"

record escalation =
  es_work :: "string option"
  es_lane :: string
  es_multiple :: nat
  es_event :: int

definition escalation_cap :: nat where
  "escalation_cap = 50"

text \<open>The loop; the last argument is the number of escalations written so far.\<close>

fun escalate_rows ::
  "seconds \<Rightarrow> (consumption_row \<times> event_row) list \<Rightarrow> nat \<Rightarrow> db \<Rightarrow> err + (db \<times> escalation list)" where
  "escalate_rows t [] n d = Inr (d, [])"
| "escalate_rows t (x # xs) n d =
     (if escalation_cap \<le> n then Inr (d, [])
      else bindE (request_sla (snd x)) (\<lambda>sla.
        let m = overdue_multiple (request_age t (snd x)) sla in
        if m = 0 then escalate_rows t xs n d
        else case insert_or_ignore (escalation_event x sla m t) d of
            (d1, None) \<Rightarrow> escalate_rows t xs n d1
          | (d1, Some i) \<Rightarrow> bindE (escalate_rows t xs (n + 1) d1) (\<lambda>(d2, out).
              Inr (d2, \<lparr>es_work = e_work (snd x), es_lane = q_lane (fst x), es_multiple = m, es_event = i\<rparr> # out))))"

definition evaluate_request_slas ::
  "lib \<Rightarrow> seconds \<Rightarrow> seconds \<Rightarrow> db \<Rightarrow> db \<times> (err + escalation list \<times> reclassified)" where
  "evaluate_request_slas L t t2 d =
     (let (d1, rc) = reclassify_self_directed_requests L t d in
      case escalate_rows t2 (unanswered d1) 0 d1 of
        Inl e \<Rightarrow> (d1, Inl e)
      | Inr (d2, out) \<Rightarrow> (d2, Inr (out, rc)))"

section \<open>Runs whose process is gone\<close>

definition pidless_run_stale :: seconds where
  "pidless_run_stale = 21600"

definition workflow_run_stale :: seconds where
  "workflow_run_stale = 1800"

definition run_gone :: "processes \<Rightarrow> seconds \<Rightarrow> seconds \<Rightarrow> seconds \<Rightarrow> run_row \<Rightarrow> err + bool" where
  "run_gone P stale workflow_stale t r =
     (case r_pid r of
        Some p \<Rightarrow> bindE (pid_alive P (Some p) (r_pid_started r)) (\<lambda>alive. Inr (\<not> alive))
      | None \<Rightarrow>
          let unseen = (case r_heartbeat r of None \<Rightarrow> True | Some h \<Rightarrow> h = 0);
              cutoff = (if r_kind r = ''workflow'' \<and> unseen then workflow_stale else stale)
          in Inr (r_started r < t - cutoff))"

fun gone_runs :: "processes \<Rightarrow> seconds \<Rightarrow> seconds \<Rightarrow> seconds \<Rightarrow> run_row list \<Rightarrow> err + string list" where
  "gone_runs P stale workflow_stale t [] = Inr []"
| "gone_runs P stale workflow_stale t (r # rs) =
     bindE (run_gone P stale workflow_stale t r) (\<lambda>gone.
     bindE (gone_runs P stale workflow_stale t rs) (\<lambda>ids. Inr (if gone then r_id r # ids else ids)))"

definition reap_dead_runs :: "processes \<Rightarrow> seconds \<Rightarrow> seconds \<Rightarrow> seconds \<Rightarrow> db \<Rightarrow> err + (db \<times> nat)" where
  "reap_dead_runs P stale workflow_stale t d =
     bindE (gone_runs P stale workflow_stale t (filter (\<lambda>r. r_state r = ''live'') (d_runs d))) (\<lambda>ids.
       Inr (upd_runs (\<lambda>r. r_id r \<in> set ids \<and> r_state r = ''live'') (orphan_run t) d, length ids))"

section \<open>The whole pass\<close>

definition pidless_workless_stale_sessions :: "seconds \<Rightarrow> seconds \<Rightarrow> db \<Rightarrow> string list" where
  "pidless_workless_stale_sessions t grace d =
     map s_id (filter (\<lambda>s. s_state s = ''active'' \<and> s_pause s = None \<and> s_pid s = None \<and> s_lease s < t - grace \<and>
       \<not> list_ex (\<lambda>c. c_session c = s_id s \<and> held c) (d_claims d) \<and>
       \<not> list_ex (runs_of_session (s_id s)) (d_runs d)) (d_sessions d))"

fun dead_sessions_of :: "processes \<Rightarrow> session_row list \<Rightarrow> err + string list" where
  "dead_sessions_of P [] = Inr []"
| "dead_sessions_of P (s # ss) =
     bindE (if s_pid s = None \<or> s_pid s = Some 0 then Inr True else pid_alive P (s_pid s) (s_pid_started s)) (\<lambda>alive.
     bindE (dead_sessions_of P ss) (\<lambda>ids. Inr (if alive then ids else s_id s # ids)))"

record reaper_settings =
  rs_grace :: seconds
  rs_workless_grace :: seconds
  rs_intent_stale :: seconds
  rs_lease :: seconds

record reaper_report =
  bp_reaped :: "string list"
  bp_claims_released :: nat
  bp_pidless :: "string list"
  bp_ready :: "ready_result list"
  bp_slas :: "escalation list \<times> reclassified"
  bp_runs :: nat
  bp_renewed :: "claim_row list"
  bp_normalized :: "nat \<times> string list"
  bp_expired :: "released_row list"

text \<open>The operations run one after the other; \<open>andthen\<close> continues on the database an operation left.\<close>

definition andthen :: "db \<times> (err + 'a) \<Rightarrow> (db \<Rightarrow> 'a \<Rightarrow> db \<times> (err + 'b)) \<Rightarrow> db \<times> (err + 'b)" where
  "andthen m f = (case m of (d, Inl e) \<Rightarrow> (d, Inl e) | (d, Inr x) \<Rightarrow> f d x)"

definition or_else_same :: "db \<Rightarrow> err + (db \<times> 'a) \<Rightarrow> db \<times> (err + 'a)" where
  "or_else_same d r = (case r of Inl e \<Rightarrow> (d, Inl e) | Inr (d', x) \<Rightarrow> (d', Inr x))"

definition run_reaper ::
  "lib \<Rightarrow> string list \<Rightarrow> processes \<Rightarrow> surroundings \<Rightarrow> hold_module option \<Rightarrow> reaper_settings \<Rightarrow> (nat \<Rightarrow> seconds) \<Rightarrow>
    (nat \<Rightarrow> seconds) \<Rightarrow> db \<Rightarrow> db \<times> (err + reaper_report)" where
  "run_reaper L lanes P W M S now clock d =
     andthen (d, dead_sessions_of P (filter (\<lambda>s. s_state s = ''active'') (d_sessions d))) (\<lambda>d0 dead.
     let pidless = pidless_workless_stale_sessions (now 0) (rs_workless_grace S) d0;
         (d1, reaped, freed) = reap_zombie_sessions (now 1) (rs_grace S) None (Some (dead @ pidless)) d0
     in andthen (evaluate_continuations L lanes W M clock d1) (\<lambda>d2 ready.
        andthen (evaluate_request_slas L (now 2) (now 3) d2) (\<lambda>d3 slas.
        andthen (or_else_same d3 (reap_dead_runs P pidless_run_stale workflow_run_stale (now 4) d3)) (\<lambda>d4 runs.
        andthen (or_else_same d4 (map_sum id (\<lambda>(d', rows, ev). (d', rows)) (renew_claims_from_live_fleets L (now 5) (rs_lease S) d4)))
          (\<lambda>d5 renewed.
        let (d6, normalized) = normalize_stale_active_intents (now 6) (rs_intent_stale S) 1000 d5
        in andthen (or_else_same d6 (map_sum id (\<lambda>(d', rows, ev). (d', rows)) (release_expired_claims_batch L (now 7) d6)))
          (\<lambda>d7 expired. (d7, Inr \<lparr>bp_reaped = reaped, bp_claims_released = freed, bp_pidless = sort (remdups pidless),
             bp_ready = ready, bp_slas = slas, bp_runs = runs, bp_renewed = renewed, bp_normalized = normalized,
             bp_expired = expired\<rparr>)))))))"

text \<open>What decides whether a refresh of the cockpit is requested.\<close>

definition mutation_count :: "reaper_report \<Rightarrow> nat" where
  "mutation_count r = bp_claims_released r + bp_runs r + length (bp_renewed r) + fst (bp_normalized r) +
     length (bp_expired r) + length (bp_reaped r)"

end
