(* ===== verification/ReaperFacts.thy ===== *)
theory ReaperFacts
  imports Reaper Protocol
begin

text \<open>
  What the background pass guarantees: the two copies of the process probe agree; a predicate the
  contract accepts can be evaluated, and what was true stays true while the log grows; recording a
  predicate touches one row and at most one blocked claim; and the whole pass keeps the constraints
  and the history.
\<close>

section \<open>Processes\<close>

lemma pid_alive_matches: "pid_alive P pid expected = pid_matches P pid expected"
  by (auto simp: pid_alive_def pid_matches_def pid_exists_def split: option.splits kill_answer.splits)

text \<open>Without a start time to compare, a process that is there counts as another one.\<close>

lemma unknown_start_is_dead: "kill0 P p = Sent \<Longrightarrow> posix_probe P \<Longrightarrow> p \<noteq> 0 \<Longrightarrow> started_at P p = None \<Longrightarrow> pid_matches P (Some p) (Some t) = Inr False"
  by (simp add: pid_matches_def pid_exists_def pid_start_time_def)

section \<open>Predicates and the log\<close>

definition le_res :: "err + bool \<Rightarrow> err + bool \<Rightarrow> bool" where
  "le_res x y \<longleftrightarrow> (case x of Inl e \<Rightarrow> y = Inl e | Inr b \<Rightarrow> (\<exists>b'. y = Inr b' \<and> (b \<longrightarrow> b')))"

definition le_ress :: "err + bool list \<Rightarrow> err + bool list \<Rightarrow> bool" where
  "le_ress x y \<longleftrightarrow> (case x of Inl e \<Rightarrow> y = Inl e | Inr bs \<Rightarrow> (\<exists>bs'. y = Inr bs' \<and> list_all2 (\<longrightarrow>) bs bs'))"

lemma le_res_refl [simp]: "le_res x x"
  by (cases x) (simp_all add: le_res_def)

lemma le_res_Inr [simp]: "le_res (Inr b) (Inr b') \<longleftrightarrow> (b \<longrightarrow> b')"
  by (simp add: le_res_def)

lemma list_ex_mono: "set xs \<subseteq> set ys \<Longrightarrow> list_ex p xs \<Longrightarrow> list_ex p ys"
  by (auto simp: list_ex_iff)

lemma composite_mono:
  "list_all2 (\<longrightarrow>) bs bs' \<Longrightarrow> list_all id bs \<Longrightarrow> list_all id bs'"
  "list_all2 (\<longrightarrow>) bs bs' \<Longrightarrow> list_ex id bs \<Longrightarrow> list_ex id bs'"
  by (induction bs bs' rule: list_all2_induct) auto

lemma leaf_true_mono:
  assumes "set (d_events d) \<subseteq> set (d_events d')"
  shows "le_res (leaf_true L W c x d j) (leaf_true L W c x d' j)"
proof -
  note m = list_ex_mono [OF assms]
  have "le_res (event_true L d j) (event_true L d' j)"
    by (auto simp: event_true_def Let_def sqlite_int_def le_res_def intro: m split: option.splits)
  moreover have "verdict_true L d j \<Longrightarrow> verdict_true L d' j"
    unfolding verdict_true_def by (rule m)
  ultimately show ?thesis by (simp add: leaf_true_def Let_def)
qed

lemma predicate_true_mono:
  assumes "set (d_events d) \<subseteq> set (d_events d')"
  shows "le_res (predicate_true L W c x d j) (predicate_true L W c x d' j)"
    and "le_ress (predicates_true L W c x d js) (predicates_true L W c x d' js)"
  using assms
proof (induction L W c x d j and L W c x d js rule: predicate_true_predicates_true.induct)
  case (1 L W c x d j)
  let ?ty = "stripped_field L j ''type''"
  show ?case
  proof (cases "is_jobj j \<and> (?ty = ''all_of'' \<or> ?ty = ''any_of'') \<and> (\<exists>cs. jget j ''predicates'' = JList cs \<and> cs \<noteq> [])")
    case False
    then show ?thesis using leaf_true_mono [OF "1.prems"]
      by (auto simp: predicate_true.simps [of L W c x _ j] Let_def split: json.splits)
  next
    case True
    then obtain cs where cs: "is_jobj j" "?ty = ''all_of'' \<or> ?ty = ''any_of''" "jget j ''predicates'' = JList cs" "cs \<noteq> []"
      by blast
    have "le_ress (predicates_true L W c x d cs) (predicates_true L W c x d' cs)"
      by (rule "1.IH" [OF _ refl cs(2,3,4) "1.prems"]) (simp add: cs(1))
    then show ?thesis using cs composite_mono
      by (cases "predicates_true L W c x d cs")
         (auto simp: predicate_true.simps [of L W c x _ j] Let_def le_ress_def le_res_def)
  qed
next
  case (2 L W c x d)
  then show ?case by (simp add: le_ress_def)
next
  case (3 L W c x d j js)
  show ?case using "3.IH" "3.prems" by (cases "predicate_true L W c x d j"; cases "predicates_true L W c x d js") (auto simp: le_ress_def le_res_def)
qed

section \<open>Accepted predicates can be evaluated\<close>

lemma str_or_empty_text: "jtext v \<noteq> [] \<Longrightarrow> str_or_empty L v = jtext v"
  by (cases v) (simp_all add: str_or_empty_def)

lemma stripped_type: "strip (jtext (jget j k)) = ty \<Longrightarrow> ty \<noteq> [] \<Longrightarrow> stripped_field L j k = ty"
  using str_or_empty_text [of "jget j k" L] by (cases "jtext (jget j k) = []") (auto simp: stripped_field_def)

lemma predicates_true_ok:
  "(\<And>j. j \<in> set js \<Longrightarrow> \<exists>b. predicate_true L W c x d j = Inr b) \<Longrightarrow> \<exists>bs. predicates_true L W c x d js = Inr bs"
  by (induction js) (fastforce)+

lemma accepted_evaluates:
  assumes "resume_predicate j" "\<And>p. file_at W p \<noteq> Unreadable"
  shows "\<exists>b. predicate_true L W c x d j = Inr b"
  using assms(1)
proof (induction rule: resume_predicate.induct)
  case (event j n)
  have ty: "stripped_field L j ''type'' = ''event_exists''" by (rule stripped_type [OF event(2)]) simp
  have "\<exists>b. event_true L d j = Inr b"
    using event(4-6) by (simp add: event_true_def Let_def py_int_def sqlite_int_def)
  then show ?case using event(1) ty by (simp add: predicate_true.simps [of L W c x d j] leaf_true_def)
next
  case (artifact j)
  have ty: "stripped_field L j ''type'' \<in> {''artifact_exists'', ''artifact_readable''}"
    using artifact(2) stripped_type by fastforce
  then show ?case using artifact(1) by (auto simp: predicate_true.simps [of L W c x d j] leaf_true_def)
next
  case (sha j s)
  have ty: "stripped_field L j ''type'' = ''sha_matches''" by (rule stripped_type [OF sha(2)]) simp
  have "\<exists>b. sha_true L W j = Inr b" using assms(2) by (auto simp: sha_true_def Let_def split: file_state.splits)
  then show ?case using sha(1) ty by (simp add: predicate_true.simps [of L W c x d j] leaf_true_def)
next
  case (verdict j)
  have ty: "stripped_field L j ''type'' = ''verdict_posted''" by (rule stripped_type [OF verdict(2)]) simp
  then show ?case using verdict(1) by (simp add: predicate_true.simps [of L W c x d j] leaf_true_def)
next
  case (hold j)
  have ty: "stripped_field L j ''type'' = ''dark_hold_exit''" by (rule stripped_type [OF hold(2)]) simp
  then show ?case using hold(1) by (simp add: predicate_true.simps [of L W c x d j] leaf_true_def)
next
  case (composite j cs)
  have ty: "stripped_field L j ''type'' \<in> {''all_of'', ''any_of''}"
    using composite(2) stripped_type by fastforce
  obtain bs where "predicates_true L W c x d cs = Inr bs" using predicates_true_ok composite.IH by blast
  then show ?case using composite(1,3,4) ty by (auto simp: predicate_true.simps [of L W c x d j] Let_def)
qed

text \<open>A row resumed by hand only is never resumed by the pass.\<close>

lemma manual_never_true: "predicate_true L W c x d manual_predicate = Inr False" "\<not> can_auto_requeue L manual_predicate"
proof -
  have "stripped_field L manual_predicate ''type'' = ''manual''"
    by (simp add: manual_predicate_def stripped_field_def str_or_empty_def strip_def lstrip_def is_ws_def)
  moreover have "is_jobj manual_predicate" by (simp add: manual_predicate_def is_jobj_def)
  ultimately show "predicate_true L W c x d manual_predicate = Inr False" "\<not> can_auto_requeue L manual_predicate"
    by (simp_all add: predicate_true.simps [of L W c x d manual_predicate] leaf_true_def
        can_auto_requeue.simps [of L manual_predicate] leaf_mechanical_def)
qed

text \<open>What may be requeued rests on files and on events that are no one's decision.\<close>

inductive mechanical :: "lib \<Rightarrow> json \<Rightarrow> bool" for L where
  files: "stripped_field L j ''type'' \<in> {''artifact_exists'', ''artifact_readable'', ''sha_matches''} \<Longrightarrow> mechanical L j"
| log: "stripped_field L j ''type'' = ''event_exists'' \<Longrightarrow> stripped_field L j ''actor'' \<noteq> [] \<Longrightarrow>
    lower (stripped_field L j ''kind'') \<notin> set non_mechanical_kinds \<Longrightarrow> mechanical L j"
| parts: "stripped_field L j ''type'' \<in> {''all_of'', ''any_of''} \<Longrightarrow> jget j ''predicates'' = JList cs \<Longrightarrow> cs \<noteq> [] \<Longrightarrow>
    (\<And>c. c \<in> set cs \<Longrightarrow> mechanical L c) \<Longrightarrow> mechanical L j"

lemma auto_requeue_mechanical:
  "can_auto_requeue L j \<Longrightarrow> mechanical L j"
  "all_auto_requeue L js \<Longrightarrow> \<forall>j \<in> set js. mechanical L j"
proof (induction L j and L js rule: can_auto_requeue_all_auto_requeue.induct)
  case (1 L j)
  let ?ty = "stripped_field L j ''type''"
  have obj: "is_jobj j" using "1.prems" by (auto simp: can_auto_requeue.simps [of L j] split: if_split_asm)
  show ?case
  proof (cases "?ty = ''all_of'' \<or> ?ty = ''any_of''")
    case True
    then obtain cs where cs: "jget j ''predicates'' = JList cs" "cs \<noteq> []" "all_auto_requeue L cs"
      using "1.prems" obj by (auto simp: can_auto_requeue.simps [of L j] Let_def split: json.splits)
    have "\<forall>c \<in> set cs. mechanical L c" by (rule "1.IH" [OF _ refl True cs(1,3)]) (simp add: obj)
    with cs True show ?thesis by (auto intro: mechanical.parts)
  next
    case False
    then have "leaf_mechanical L j" using "1.prems" obj by (simp add: can_auto_requeue.simps [of L j] Let_def)
    then show ?thesis
      by (auto simp: leaf_mechanical_def Let_def intro: mechanical.files mechanical.log split: if_split_asm)
  qed
qed simp_all

section \<open>Recording that a predicate is true\<close>

lemma mark_ready_simps [simp]:
  "w_id (mark_ready q t w) = w_id w" "w_version (mark_ready q t w) = w_version w + 1"
  "w_ready_at (mark_ready q t w) = Some t" "w_assignee (mark_ready q t w) = w_assignee w"
  "w_archived (mark_ready q t w) = w_archived w" "w_resume_pred (mark_ready q t w) = w_resume_pred w"
  "w_intent (mark_ready q t w) = (if q then ''queued'' else w_intent w)"
  by (simp_all add: mark_ready_def)

interpretation free_update: claim_update "freeable a" free_blocked for a
  by unfold_locales (auto simp: freeable_def free_blocked_def held_def held_statuses_def)

lemma blocked_claims_one:
  assumes "the_blocked_claim work d = Some c"
  shows "c \<in> set (d_claims d)" "c_work c = work" "c_status c = ''blocked''"
proof -
  have "blocked_claims work d = [c]"
    using assms by (auto simp: the_blocked_claim_def split: list.splits)
  then have "c \<in> set (blocked_claims work d)" by simp
  then show "c \<in> set (d_claims d)" "c_work c = work" "c_status c = ''blocked''" by (auto simp: blocked_claims_def)
qed

lemma apply_ready_Inr:
  assumes "apply_continuation_ready_transition lanes a t d = Inr (d', Some r)"
  obtains w d2 where "workd d (rd_work a) = Some w" "w_version w = rd_version a" "w_ready_at w = None"
    "norm (Some (w_intent w)) = norm (Some (rd_intent a))" "ready_matches a d"
    "d2 = (let d1 = upd_works (markable a) (mark_ready (rd_requeue a) t) d in
       if rd_requeue a \<and> rd_claim a \<noteq> None then upd_claims (freeable a) free_blocked d1 else d1)"
    "insert_event (ready_event lanes a t) d2 = Inr (d', rr_event r)"
    "rd_requeue a \<and> rd_claim a \<noteq> None \<Longrightarrow> row_count (freeable a) (d_claims d) = 1"
    "rd_requeue a \<Longrightarrow> (otext (rd_claim a) \<noteq> []) = (rd_claim_version a \<noteq> None)"
    "rr_work r = rd_work a" "rr_lane r = rd_lane a" "rr_requeued r = rd_requeue a"
proof -
  have m: "ready_matches a d"
    using assms by (auto simp: apply_continuation_ready_transition_def split: if_split_asm)
  then obtain w where w: "workd d (rd_work a) = Some w" "w_version w = rd_version a" "w_ready_at w = None"
    "norm (Some (w_intent w)) = norm (Some (rd_intent a))"
    by (auto simp: ready_matches_def split: option.splits)
  show thesis
    by (rule that [OF w m refl]) (use assms in \<open>auto simp: apply_continuation_ready_transition_def Let_def bindE_Inr_iff
          upd_works_def split: if_split_asm\<close>)
qed

text \<open>Claim identifiers carry no blanks around them, as the code generates them.\<close>

definition clean_ids :: "db \<Rightarrow> bool" where
  "clean_ids d \<longleftrightarrow> (\<forall>c \<in> set (d_claims d). strip (c_id c) = c_id c \<and> c_id c \<noteq> [])"

lemma freeable_exact:
  assumes "wf_db d" "clean_ids d" "ready_matches a d" "c \<in> set (d_claims d)" "freeable a c"
  shows "the_blocked_claim (rd_work a) d = Some c" "c_work c = rd_work a"
proof -
  have "rd_claim a = Some (c_id c)" using assms(5) by (simp add: freeable_def)
  then obtain b where b: "the_blocked_claim (rd_work a) d = Some b" "strip (c_id b) = c_id c"
    using assms(3) by (auto simp: ready_matches_def split: option.splits)
  note bb = blocked_claims_one [OF b(1)]
  have "c_id b = c_id c" using b(2) assms(2) bb(1) by (simp add: clean_ids_def)
  then have "b = c" using claimd_unique [OF wf_keys [OF assms(1)]] bb(1) assms(4) by (metis option.inject)
  with b(1) bb(2) show "the_blocked_claim (rd_work a) d = Some c" "c_work c = rd_work a" by simp_all
qed

lemma transition_none: "apply_continuation_ready_transition lanes a t d = Inr (d', None) \<Longrightarrow> d' = d"
  by (auto simp: apply_continuation_ready_transition_def Let_def bindE_Inr_iff split: if_split_asm)

lemma transition_effect:
  assumes a: "apply_continuation_ready_transition lanes a t d = Inr (d', Some r)" and wf: "wf_db d"
  obtains w where "workd d (rd_work a) = Some w" "w_version w = rd_version a" "w_ready_at w = None"
    "norm (Some (w_intent w)) = norm (Some (rd_intent a))"
    "workd d' (rd_work a) = Some (mark_ready (rd_requeue a) t w)" "\<And>j. j \<noteq> rd_work a \<Longrightarrow> workd d' j = workd d j"
    "d_claims d' = upd_where (\<lambda>c. rd_requeue a \<and> freeable a c) free_blocked (d_claims d)"
    "d_sessions d' = d_sessions d" "d_runs d' = d_runs d" "wf_db d'" "kept d d'"
    "event_by_key d (ready_key (rd_work a) (rd_version a)) = None"
    "d_events d' = d_events d @ [(ready_event lanes a t)\<lparr>e_id := rr_event r\<rparr>]"
proof -
  obtain w d2 where s: "workd d (rd_work a) = Some w" "w_version w = rd_version a" "w_ready_at w = None"
    "norm (Some (w_intent w)) = norm (Some (rd_intent a))"
    "d2 = (let d1 = upd_works (markable a) (mark_ready (rd_requeue a) t) d in
       if rd_requeue a \<and> rd_claim a \<noteq> None then upd_claims (freeable a) free_blocked d1 else d1)"
    "insert_event (ready_event lanes a t) d2 = Inr (d', rr_event r)"
    by (rule apply_ready_Inr [OF a])
  let ?d1 = "upd_works (markable a) (mark_ready (rd_requeue a) t) d"
  note i = insert_event_Inr [OF s(6)]
  have cl: "d_claims d2 = upd_where (\<lambda>c. rd_requeue a \<and> freeable a c) free_blocked (d_claims d)"
  proof (cases "rd_requeue a \<and> rd_claim a \<noteq> None")
    case True then show ?thesis by (simp add: s(5) Let_def upd_claims_def upd_works_def)
  next
    case False
    then have "\<not> (rd_requeue a \<and> freeable a c)" for c by (auto simp: freeable_def)
    then have "upd_where (\<lambda>c. rd_requeue a \<and> freeable a c) free_blocked (d_claims d) = d_claims d"
      by (intro upd_where_none) blast
    then show ?thesis using False by (auto simp: s(5) Let_def upd_works_def)
  qed
  have wk: "workd d' j = workd ?d1 j" for j using i by (simp add: s(5) Let_def workd_def upd_claims_def)
  have w': "workd d' j = map_option (\<lambda>w. if markable a w then mark_ready (rd_requeue a) t w else w) (workd d j)" for j
    by (simp add: wk workd_upd_works markable_def)
  have wf1: "wf_db ?d1" by (rule wf_upd_works [OF _ wf]) simp
  have wf2: "wf_db d2" unfolding s(5) Let_def using wf1 free_update.wf [OF wf1, of a] by (simp only: simp_thms split: if_split)
  have k2: "kept d d2"
  proof -
    have "kept d ?d1" by (rule kept_upd_works) simp
    moreover have "kept ?d1 (upd_claims (freeable a) free_blocked ?d1)"
      by (rule kept_upd_claims) (auto simp: claim_kept_def free_blocked_def held_def held_statuses_def)
    ultimately show ?thesis using kept_trans by (auto simp: s(5) Let_def)
  qed
  show thesis
  proof (rule that [OF s(1-4)])
    show "workd d' (rd_work a) = Some (mark_ready (rd_requeue a) t w)"
      using workd_SomeD [OF s(1)] s(2,3) by (simp add: w' s(1) markable_def)
    show "workd d' j = workd d j" if "j \<noteq> rd_work a" for j
      using that by (cases "workd d j") (auto simp: w' markable_def dest: workd_SomeD)
    show "wf_db d'" by (rule wf_insert_event [OF wf2 s(6)])
    show "kept d d'" by (rule kept_trans [OF k2 kept_insert_event [OF s(6)]])
    show "event_by_key d (ready_key (rd_work a) (rd_version a)) = None"
      using s(6) by (auto simp: insert_event_def ready_event_def Let_def event_by_key_def s(5) upd_works_def upd_claims_def
          split: if_split_asm)
  qed (use i cl in \<open>auto simp: s(5) Let_def upd_works_def upd_claims_def\<close>)
qed

text \<open>With one blocked claim on the row there is no other holder, by the constraint on held claims.\<close>

lemma apply_ready_frees:
  assumes a: "apply_continuation_ready_transition lanes a t d = Inr (d', Some r)" "rd_requeue a"
    and wf: "wf_db d" "clean_ids d" and c: "c \<in> set (d_claims d')" "c_work c = rd_work a"
  shows "\<not> held c"
proof
  assume h: "held c"
  obtain w where "workd d (rd_work a) = Some w" and cl: "d_claims d' = upd_where (\<lambda>c. rd_requeue a \<and> freeable a c) free_blocked (d_claims d)"
    by (rule transition_effect [OF a(1) wf(1)]) blast
  have cd: "c \<in> set (d_claims d)" "\<not> freeable a c"
    using h c(1) a(2) by (auto simp: cl free_blocked_def held_def held_statuses_def dest!: in_upd_whereD split: if_split_asm)
  have m: "ready_matches a d" and n: "rd_claim a \<noteq> None \<Longrightarrow> row_count (freeable a) (d_claims d) = 1"
    using apply_ready_Inr [OF a(1)] a(2) by blast+
  show False
  proof (cases "rd_claim a")
    case None
    then show False using m a(2) cd(1) c(2) h by (auto simp: ready_matches_def list_ex_iff split: option.splits)
  next
    case (Some i)
    then have "filter (freeable a) (d_claims d) \<noteq> []" using n by (auto simp: row_count_def)
    then obtain b where b: "b \<in> set (d_claims d)" "freeable a b" by (auto simp: filter_empty_conv)
    have "held b" "c_work b = rd_work a" using freeable_exact(2) [OF wf m b] b(2) by (simp_all add: freeable_def held_def held_statuses_def)
    then have "c = b" using wf(1) cd(1) h c(2) b(1)
      by (intro unique_whereD [of held c_work "d_claims d"]) (simp_all add: wf_db_def one_held_def)
    with cd(2) b(2) show False by simp
  qed
qed

text \<open>A requeued row can be taken up by any registered session of its lane.\<close>

lemma requeued_claimable:
  assumes a: "apply_continuation_ready_transition lanes a t d = Inr (d', Some r)" "rd_requeue a"
    and wf: "wf_db d" "clean_ids d" and w: "workd d (rd_work a) = Some w" "w_archived w = None" "rd_work a \<noteq> []"
    and s: "\<not> assigned_elsewhere (session_actor_of d sid) w" "sess d sid \<noteq> None" "claimd d i = None"
  shows "\<exists>d2. claim_unlocked lanes' i token sid (rd_work a) st lease t2 d' = Inr (d2, i)"
proof -
  obtain w' where e: "workd d (rd_work a) = Some w'" "workd d' (rd_work a) = Some (mark_ready (rd_requeue a) t w')"
    "d_claims d' = upd_where (\<lambda>c. rd_requeue a \<and> freeable a c) free_blocked (d_claims d)"
    "d_sessions d' = d_sessions d" "wf_db d'"
    by (rule transition_effect [OF a(1) wf(1)]) blast
  have ww: "w' = w" using e(1) w(1) by simp
  have q: "lower (strip ''queued'') = ''queued''" "\<not> terminal ''queued''" "''queued'' \<notin> set held_intents" by code_simp+
  have ss: "sess d' sid \<noteq> None" "session_actor_of d' sid = session_actor_of d sid"
    using e(4) s(2) by (simp_all add: sess_def session_actor_of_def)
  have av: "available d' sid (mark_ready (rd_requeue a) t w)"
    using q s(1) w(2) a(2) by (simp add: available_def closed_row_def assigned_elsewhere_def ss(2))
  have fresh: "claimd d' i = None"
    using s(3) by (auto simp: claimd_None_iff e(3) free_blocked_def dest!: in_upd_whereD split: if_split_asm)
  show ?thesis
    by (rule abandoned_claimable [OF e(5) e(2) [unfolded ww] w(3) av _ fresh ss(1)])
       (use apply_ready_frees [OF a wf] in blast)
qed

section \<open>Keys of the records\<close>

lemma colon_not_digit: "CHR '':'' \<notin> set (digits_of n)"
  using digits_of_digits [of n] by (auto simp: is_digit_def Let_def)

lemma colon_not_int: "CHR '':'' \<notin> set (int_text i)"
  using colon_not_digit by (simp add: int_text_def)

lemma split_last_sep:
  assumes "a @ c # x = b @ c # y" "c \<notin> set x" "c \<notin> set y"
  shows "a = b \<and> x = y"
proof -
  have tw: "takeWhile (\<lambda>z. z \<noteq> c) (rev (u @ c # z)) = rev z" if "c \<notin> set z" for u z
    using that by (auto simp: takeWhile_tail takeWhile_eq_all_conv)
  have "rev x = rev y" using tw [OF assms(2), of a] tw [OF assms(3), of b] by (simp only: assms(1))
  with assms(1) show ?thesis by simp
qed

lemma ready_key_work: "ready_key v m = ready_key w n \<Longrightarrow> v = w"
  using split_last_sep [of v "CHR '':''" "int_text m" w "int_text n"] colon_not_int by (simp add: ready_key_def)

section \<open>One pass over the parked rows\<close>

lemma continue_one_cases:
  assumes "continue_one L lanes W exits t s d = Inr (d', r)"
  obtains "r = None" "d' = d"
  | j x where "r = Some x" "loads L (otext (w_resume_pred (sc_row s))) = Some j"
      "predicate_true L W (w_id (sc_row s)) exits d j = Inr True"
      "apply_continuation_ready_transition lanes (ready_request L j s) t d = Inr (d', Some x)"
proof (cases r)
  case None
  with assms transition_none that(1) show thesis
    by (auto simp: continue_one_def bindE_Inr_iff split: option.splits if_split_asm)
next
  case (Some x)
  with assms that(2) show thesis
    by (auto simp: continue_one_def bindE_Inr_iff split: option.splits if_split_asm)
qed

lemma ready_request_simps [simp]:
  "rd_work (ready_request L j s) = w_id (sc_row s)" "rd_version (ready_request L j s) = w_version (sc_row s)"
  "rd_pred (ready_request L j s) = j" "rd_intent (ready_request L j s) = norm (Some (w_intent (sc_row s)))"
  "rd_requeue (ready_request L j s) = (safe_candidate L j (sc_row s) \<and> (one_blocked s \<or> sc_held s = 0))"
  by (simp_all add: ready_request_def Let_def)

text \<open>What one row of the pass may have changed.\<close>

definition pass_kept :: "db \<Rightarrow> db \<Rightarrow> bool" where
  "pass_kept d d' \<longleftrightarrow> (wf_db d \<longrightarrow> wf_db d' \<and> kept d d') \<and> d_sessions d' = d_sessions d \<and> d_runs d' = d_runs d \<and>
     (\<forall>c \<in> set (d_claims d). c_status c \<noteq> ''blocked'' \<longrightarrow> c \<in> set (d_claims d')) \<and>
     (\<forall>c \<in> set (d_claims d'). held c \<longrightarrow> c \<in> set (d_claims d)) \<and> map c_id (d_claims d') = map c_id (d_claims d)"

lemma pass_kept_refl [simp]: "pass_kept d d"
  by (simp add: pass_kept_def)

lemma pass_kept_trans:
  assumes "pass_kept d1 d2" "pass_kept d2 d3"
  shows "pass_kept d1 d3"
proof -
  have "wf_db d1 \<longrightarrow> wf_db d3 \<and> kept d1 d3" using assms kept_trans unfolding pass_kept_def by blast
  moreover have "\<forall>c \<in> set (d_claims d1). c_status c \<noteq> ''blocked'' \<longrightarrow> c \<in> set (d_claims d3)"
    using assms unfolding pass_kept_def by blast
  moreover have "\<forall>c \<in> set (d_claims d3). held c \<longrightarrow> c \<in> set (d_claims d1)"
    using assms unfolding pass_kept_def by blast
  moreover have "d_sessions d3 = d_sessions d1 \<and> d_runs d3 = d_runs d1 \<and> map c_id (d_claims d3) = map c_id (d_claims d1)"
    using assms unfolding pass_kept_def by metis
  ultimately show ?thesis unfolding pass_kept_def by blast
qed

lemma transition_pass_kept:
  assumes "apply_continuation_ready_transition lanes a t d = Inr (d', Some x)" "wf_db d"
  shows "pass_kept d d'"
proof -
  obtain w where "d_claims d' = upd_where (\<lambda>c. rd_requeue a \<and> freeable a c) free_blocked (d_claims d)"
    "d_sessions d' = d_sessions d" "d_runs d' = d_runs d" "wf_db d'" "kept d d'"
    by (rule transition_effect [OF assms]) blast
  moreover have "\<not> held (free_blocked c)" "c_id (free_blocked c) = c_id c" for c
    by (simp_all add: free_blocked_def held_def held_statuses_def)
  moreover have "map c_id (upd_where p free_blocked cs) = map c_id cs" for p cs
    by (rule map_key_upd_where) (simp add: free_blocked_def)
  ultimately show ?thesis unfolding pass_kept_def by (auto simp: set_upd_where freeable_def)
qed

lemma continue_one_kept: "continue_one L lanes W exits t s d = Inr (d', r) \<Longrightarrow> wf_db d \<Longrightarrow> pass_kept d d'"
  by (erule continue_one_cases) (auto dest: transition_pass_kept)

lemma continue_rows_kept: "continue_rows L lanes W exits clock ss d = (d', res) \<Longrightarrow> wf_db d \<Longrightarrow> pass_kept d d'"
proof (induction ss arbitrary: d d' res)
  case (Cons s ss)
  show ?case
  proof (cases "continue_one L lanes W exits (clock (length ss)) s d")
    case (Inl e)
    with Cons.prems show ?thesis by simp
  next
    case (Inr x)
    obtain d1 r where x: "x = (d1, r)" by (cases x)
    have k: "pass_kept d d1" using continue_one_kept Inr x Cons.prems(2) by blast
    obtain d2 res2 where c: "continue_rows L lanes W exits clock ss d1 = (d2, res2)" by (rule prod.exhaust)
    have "wf_db d1" using k Cons.prems(2) by (simp add: pass_kept_def)
    from Cons.IH [OF c this] have "pass_kept d1 d2" .
    moreover have "d' = d2" using Cons.prems(1) Inr x c by (auto split: sum.splits)
    ultimately show ?thesis using k pass_kept_trans by blast
  qed
qed simp

subsection \<open>What the pass does to a row\<close>

lemma kept_events: "kept d d' \<Longrightarrow> set (d_events d) \<subseteq> set (d_events d')"
  by (auto simp: kept_def dest: growsD)

lemma still_true:
  assumes "kept d d'" "predicate_true L W c x d j = Inr True"
  shows "predicate_true L W c x d' j = Inr True"
  using predicate_true_mono(1) [OF kept_events [OF assms(1)], of L W c x j] assms(2) by (auto simp: le_res_def)

text \<open>A scanned row is still as it was scanned, or has been recorded meanwhile.\<close>

definition row_known :: "scanned \<Rightarrow> db \<Rightarrow> bool" where
  "row_known s d \<longleftrightarrow> (\<exists>w. workd d (w_id (sc_row s)) = Some w \<and> (w = sc_row s \<or> w_ready_at w \<noteq> None))"

lemma continue_one_row:
  assumes "continue_one L lanes W exits t s d = Inr (d', r)" "wf_db d" "row_known s d"
  obtains "d' = d"
  | j where "workd d (w_id (sc_row s)) = Some (sc_row s)" "w_ready_at (sc_row s) = None"
      "loads L (otext (w_resume_pred (sc_row s))) = Some j"
      "predicate_true L W (w_id (sc_row s)) exits d j = Inr True"
      "workd d' (w_id (sc_row s)) = Some (mark_ready (rd_requeue (ready_request L j s)) t (sc_row s))"
      "\<And>i. i \<noteq> w_id (sc_row s) \<Longrightarrow> workd d' i = workd d i"
  using assms(1)
proof (cases rule: continue_one_cases)
  case 1
  then show thesis using that(1) by simp
next
  case (2 j x)
  obtain w where e: "workd d (w_id (sc_row s)) = Some w" "w_ready_at w = None"
    "workd d' (w_id (sc_row s)) = Some (mark_ready (rd_requeue (ready_request L j s)) t w)"
    "\<And>i. i \<noteq> w_id (sc_row s) \<Longrightarrow> workd d' i = workd d i"
    using transition_effect [OF 2(4) assms(2)] by (metis ready_request_simps(1))
  have "w = sc_row s" using e(1,2) assms(3) by (auto simp: row_known_def)
  with e 2(2,3) show thesis using that(2) by blast
qed

lemma row_known_step:
  assumes "continue_one L lanes W exits t s d = Inr (d', r)" "wf_db d" "row_known s d" "row_known u d"
  shows "row_known u d'"
  using assms(1-3)
proof (cases rule: continue_one_row)
  case (2 j)
  then show ?thesis using assms(4) by (cases "w_id (sc_row u) = w_id (sc_row s)") (auto simp: row_known_def)
qed (use assms(4) in simp)

lemma continue_rows_step:
  assumes "continue_rows L lanes W exits clock (s # ss) d = (d', res)"
  obtains e where "continue_one L lanes W exits (clock (length ss)) s d = Inl e" "d' = d" "res = Inl e"
  | d1 r res1 where "continue_one L lanes W exits (clock (length ss)) s d = Inr (d1, r)"
      "continue_rows L lanes W exits clock ss d1 = (d', res1)" "isl res = isl res1"
proof (cases "continue_one L lanes W exits (clock (length ss)) s d")
  case (Inl e)
  then show thesis using assms by (intro that(1) [OF Inl]) simp_all
next
  case (Inr x)
  obtain d1 r where x: "x = (d1, r)" by (rule prod.exhaust)
  obtain d2 res2 where c: "continue_rows L lanes W exits clock ss d1 = (d2, res2)" by (rule prod.exhaust)
  have "(d', res) = (d2, map_sum id (\<lambda>rs. case r of None \<Rightarrow> rs | Some y \<Rightarrow> y # rs) res2)"
    unfolding assms [symmetric] by (cases res2) (simp_all add: Inr x c)
  then have e: "d' = d2" "isl res = isl res2" by (cases res2; simp)+
  show thesis by (rule that(2) [OF Inr [unfolded x] c [folded e(1)] e(2)])
qed

definition made_ready ::
  "lib \<Rightarrow> surroundings \<Rightarrow> (string \<times> string) list \<Rightarrow> scanned list \<Rightarrow> db \<Rightarrow> work_row \<Rightarrow> bool" where
  "made_ready L W exits ss d' w \<longleftrightarrow> w_ready_at w = None \<and> (\<exists>s \<in> set ss. \<exists>j t. sc_row s = w \<and>
     loads L (otext (w_resume_pred w)) = Some j \<and> predicate_true L W (w_id w) exits d' j = Inr True \<and>
     workd d' (w_id w) = Some (mark_ready (rd_requeue (ready_request L j s)) t w))"

lemma made_ready_Cons: "made_ready L W exits ss d' w \<Longrightarrow> made_ready L W exits (s # ss) d' w"
  by (auto simp: made_ready_def)

lemma pass_row:
  assumes "continue_rows L lanes W exits clock ss d = (d', res)" "wf_db d" "\<forall>s \<in> set ss. row_known s d"
    and "workd d (w_id w) = Some w"
  shows "workd d' (w_id w) = Some w \<or> made_ready L W exits ss d' w"
  using assms
proof (induction ss arbitrary: d res w)
  case (Cons s ss)
  from Cons.prems(1) show ?case
  proof (cases rule: continue_rows_step)
    case (1 e)
    then show ?thesis using Cons.prems(4) by simp
  next
    case (2 d1 r res1)
    have k: "pass_kept d d1" by (rule continue_one_kept [OF 2(1) Cons.prems(2)])
    have wf1: "wf_db d1" using k Cons.prems(2) by (simp add: pass_kept_def)
    have known: "\<forall>u \<in> set ss. row_known u d1"
      using row_known_step [OF 2(1) Cons.prems(2)] Cons.prems(3) by simp
    have k': "kept d d'"
      using continue_rows_kept [OF 2(2) wf1] wf1 k Cons.prems(2) kept_trans by (auto simp: pass_kept_def)
    note IH = Cons.IH [OF 2(2) wf1 known]
    have same: ?thesis if "workd d1 (w_id w) = Some w" using IH [OF that] made_ready_Cons by blast
    have rk: "row_known s d" using Cons.prems(3) by simp
    from 2(1) Cons.prems(2) rk show ?thesis
    proof (cases rule: continue_one_row)
      case 1
      with Cons.prems(4) show ?thesis by (intro same) simp
    next
      case (2 j)
      show ?thesis
      proof (cases "w_id w = w_id (sc_row s)")
        case False
        then show ?thesis using 2(6) [OF False] Cons.prems(4) by (intro same) simp
      next
        case True
        have w: "sc_row s = w" using 2(1) Cons.prems(4) True by simp
        let ?m = "mark_ready (rd_requeue (ready_request L j s)) (clock (length ss)) w"
        have "workd d1 (w_id ?m) = Some ?m" using 2(5) w by simp
        from IH [OF this] have "workd d' (w_id w) = Some ?m" by (simp add: made_ready_def)
        with 2(2,3) still_true [OF k' 2(4)] w have "made_ready L W exits (s # ss) d' w"
          unfolding made_ready_def by (auto simp del: ready_request_simps)
        then show ?thesis ..
      qed
    qed
  qed
qed simp

lemma scan_known: "wf_db d \<Longrightarrow> s \<in> set (scan d) \<Longrightarrow> workd d (w_id (sc_row s)) = Some (sc_row s) \<and> s \<in> set (scan_row d (sc_row s)) \<and> waiting (sc_row s)"
  by (auto simp: scan_def scan_row_def Let_def wf_db_def keys_ok_def workd_def find_distinct split: if_split_asm)

subsection \<open>A true predicate is recorded\<close>

lemma blocked_held: "c_status c = ''blocked'' \<Longrightarrow> held c"
  by (simp add: held_def held_statuses_def)

lemma blocked_at_most_one:
  assumes "wf_db d"
  obtains "blocked_claims i d = []" | c where "blocked_claims i d = [c]"
proof -
  have eq: "blocked_claims i d = filter (\<lambda>c. c_work c = i \<and> c_status c = ''blocked'') (filter held (d_claims d))"
    by (auto simp: blocked_claims_def held_def held_statuses_def intro: filter_cong)
  have "distinct (map c_work (filter held (d_claims d)))"
    using assms by (simp add: wf_db_def one_held_def unique_where_def)
  then have dist: "distinct (map c_work (blocked_claims i d))" unfolding eq by (rule distinct_map_filter)
  show thesis
  proof (cases "blocked_claims i d")
    case (Cons c cs)
    have "x \<in> set (blocked_claims i d) \<Longrightarrow> c_work x = i" for x by (auto simp: blocked_claims_def)
    then have "cs = []" using dist Cons by (cases cs) auto
    with Cons that(2) show thesis by simp
  qed (use that(1) in simp)
qed

lemma scan_row_cases:
  assumes "s \<in> set (scan_row d w)" "wf_db d"
  obtains "blocked_claims (w_id w) d = []" "sc_row s = w" "sc_claim s = None" "sc_blocked s = 0"
      "sc_held s = row_count (\<lambda>c. c_work c = w_id w \<and> held c) (d_claims d)"
  | c where "blocked_claims (w_id w) d = [c]" "sc_row s = w" "sc_claim s = Some c" "sc_blocked s = 1"
proof (rule blocked_at_most_one [OF assms(2), of "w_id w"])
  assume "blocked_claims (w_id w) d = []"
  then show thesis using assms(1) that(1) by (simp add: scan_row_def)
next
  fix c assume "blocked_claims (w_id w) d = [c]"
  then show thesis using assms(1) that(2) by (simp add: scan_row_def)
qed

lemma row_count_0: "row_count p xs = 0 \<longleftrightarrow> \<not> list_ex p xs"
  by (auto simp: row_count_def list_ex_iff filter_empty_conv)

text \<open>The row is requeued exactly if it is a safe candidate and nobody works on it.\<close>

definition worked_on :: "db \<Rightarrow> string \<Rightarrow> bool" where
  "worked_on d i \<longleftrightarrow> (\<exists>c \<in> set (d_claims d). c_work c = i \<and> c_status c \<in> {''running'', ''paused''})"

lemma requeue_exact:
  assumes s: "s \<in> set (scan_row d w)" and wf: "wf_db d" "clean_ids d"
  shows "rd_requeue (ready_request L j s) \<longleftrightarrow> safe_candidate L j w \<and> \<not> worked_on d (w_id w)"
  using s wf(1)
proof (cases rule: scan_row_cases)
  case 1
  have "\<not> list_ex (\<lambda>c. c_work c = w_id w \<and> held c) (d_claims d) \<longleftrightarrow> \<not> worked_on d (w_id w)"
    using 1(1) by (auto simp: worked_on_def list_ex_iff held_def held_statuses_def blocked_claims_def filter_empty_conv)
  then show ?thesis using 1 by (simp add: one_blocked_def row_count_0)
next
  case (2 c)
  have c: "c \<in> set (d_claims d)" "c_work c = w_id w" "c_status c = ''blocked''"
    using blocked_claims_one [of "w_id w" d c] 2(1) by (simp_all add: the_blocked_claim_def)
  have "one_blocked s" using 2 wf(2) c(1) by (simp add: one_blocked_def clean_ids_def)
  moreover have "\<not> worked_on d (w_id w)"
  proof
    assume "worked_on d (w_id w)"
    then obtain x where x: "x \<in> set (d_claims d)" "c_work x = w_id w" "c_status x \<in> {''running'', ''paused''}"
      by (auto simp: worked_on_def)
    then have "held x" by (auto simp: held_def held_statuses_def)
    then have "x = c" using unique_whereD [of held c_work "d_claims d" x c] wf(1) x(1,2) c blocked_held
      by (simp add: wf_db_def one_held_def)
    with x(3) c(3) show False by simp
  qed
  ultimately show ?thesis using 2(2) by simp
qed

lemma request_matches:
  assumes s: "s \<in> set (scan_row d w)" and wf: "wf_db d" "clean_ids d" and w: "workd d (w_id w) = Some w" "w_ready_at w = None"
  shows "ready_matches (ready_request L j s) d"
    and "rd_claim (ready_request L j s) \<noteq> None \<Longrightarrow> row_count (freeable (ready_request L j s)) (d_claims d) = 1"
    and "otext (rd_claim (ready_request L j s)) \<noteq> [] \<longleftrightarrow> rd_claim_version (ready_request L j s) \<noteq> None"
proof -
  have nn: "norm (Some (norm (Some (w_intent w)))) = norm (Some (w_intent w))" by (simp add: text_simps)
  have "ready_matches (ready_request L j s) d \<and>
      (rd_claim (ready_request L j s) \<noteq> None \<longrightarrow> row_count (freeable (ready_request L j s)) (d_claims d) = 1) \<and>
      (otext (rd_claim (ready_request L j s)) \<noteq> [] \<longleftrightarrow> rd_claim_version (ready_request L j s) \<noteq> None)"
    using s wf(1)
  proof (cases rule: scan_row_cases)
    case 1
    then have "\<not> one_blocked s" by (simp add: one_blocked_def)
    then show ?thesis using 1 w nn
      by (auto simp: ready_matches_def ready_request_def Let_def the_blocked_claim_def row_count_0)
  next
    case (2 c)
    have b: "the_blocked_claim (w_id w) d = Some c" using 2(1) by (simp add: the_blocked_claim_def)
    note c = blocked_claims_one [OF b]
    have ids: "strip (c_id c) = c_id c" "c_id c \<noteq> []" using wf(2) c(1) by (simp_all add: clean_ids_def)
    have o: "one_blocked s" using 2 ids by (simp add: one_blocked_def)
    have r: "rd_claim (ready_request L j s) = Some (c_id c)" "rd_claim_version (ready_request L j s) = Some (c_version c)"
      using o 2 ids(1) by (simp_all add: ready_request_def Let_def)
    have "row_count (freeable (ready_request L j s)) (d_claims d) = 1"
      by (rule row_count_one [of c_id _ c]) (use wf(1) c r in \<open>auto simp: wf_db_def keys_ok_def freeable_def\<close>)
    then show ?thesis using r b w nn 2(2) ids by (simp add: ready_matches_def)
  qed
  then show "ready_matches (ready_request L j s) d"
    and "rd_claim (ready_request L j s) \<noteq> None \<Longrightarrow> row_count (freeable (ready_request L j s)) (d_claims d) = 1"
    and "otext (rd_claim (ready_request L j s)) \<noteq> [] \<longleftrightarrow> rd_claim_version (ready_request L j s) \<noteq> None"
    by blast+
qed

lemma transition_runs:
  assumes "ready_matches a d" "row_count (markable a) (d_works d) = 1"
    and "rd_claim a \<noteq> None \<Longrightarrow> row_count (freeable a) (d_claims d) = 1"
    and "otext (rd_claim a) \<noteq> [] \<longleftrightarrow> rd_claim_version a \<noteq> None"
    and "event_by_key d (ready_key (rd_work a) (rd_version a)) = None"
  shows "\<exists>d' x. apply_continuation_ready_transition lanes a t d = Inr (d', Some x)"
proof -
  let ?d1 = "upd_works (markable a) (mark_ready (rd_requeue a) t) d"
  let ?d2 = "if rd_requeue a \<and> rd_claim a \<noteq> None then upd_claims (freeable a) free_blocked ?d1 else ?d1"
  have "d_events ?d2 = d_events d" by (simp add: upd_works_def upd_claims_def)
  then have "\<exists>d' i. insert_event (ready_event lanes a t) ?d2 = Inr (d', i)"
    using assms(5) by (simp add: insert_event_def ready_event_def Let_def event_by_key_def)
  then obtain d' i where i: "insert_event (ready_event lanes a t) ?d2 = Inr (d', i)" by blast
  have cl: "d_claims ?d1 = d_claims d" by (simp add: upd_works_def)
  have "apply_continuation_ready_transition lanes a t d = bindE (insert_event (ready_event lanes a t) ?d2) (\<lambda>(d3, i).
      Inr (d3, Some \<lparr>rr_work = rd_work a, rr_lane = rd_lane a, rr_event = i, rr_requeued = rd_requeue a\<rparr>))"
    unfolding apply_continuation_ready_transition_def Let_def cl using assms(1-4)
    by (cases "rd_claim a") (simp_all del: One_nat_def)
  then have "apply_continuation_ready_transition lanes a t d =
      Inr (d', Some \<lparr>rr_work = rd_work a, rr_lane = rd_lane a, rr_event = i, rr_requeued = rd_requeue a\<rparr>)"
    unfolding i by simp
  then show ?thesis by blast
qed

lemma transition_ok:
  assumes s: "s \<in> set (scan_row d w)" and wf: "wf_db d" "clean_ids d" and w: "workd d (w_id w) = Some w" "w_ready_at w = None"
    and k: "event_by_key d (ready_key (w_id w) (w_version w)) = None"
  shows "\<exists>d' x. apply_continuation_ready_transition lanes (ready_request L j s) t d = Inr (d', Some x)"
proof (rule transition_runs)
  note m = request_matches [OF s wf w, of L j]
  have sr: "sc_row s = w" using s wf(1) by (cases rule: scan_row_cases) auto
  show "row_count (markable (ready_request L j s)) (d_works d) = 1"
    by (rule row_count_one [of w_id _ w])
       (use wf(1) workd_SomeD [OF w(1)] w(2) sr in \<open>auto simp: wf_db_def keys_ok_def markable_def\<close>)
  show "event_by_key d (ready_key (rd_work (ready_request L j s)) (rd_version (ready_request L j s))) = None"
    using k sr by simp
qed (use request_matches [OF s wf w, of L j] in blast)+

text \<open>A row whose predicate is true now, seen by the scan and not recorded before.\<close>

definition due ::
  "lib \<Rightarrow> surroundings \<Rightarrow> (string \<times> string) list \<Rightarrow> scanned \<Rightarrow> json \<Rightarrow> db \<Rightarrow> bool" where
  "due L W exits s j d \<longleftrightarrow> workd d (w_id (sc_row s)) = Some (sc_row s) \<and> w_ready_at (sc_row s) = None \<and>
     s \<in> set (scan_row d (sc_row s)) \<and> loads L (otext (w_resume_pred (sc_row s))) = Some j \<and>
     predicate_true L W (w_id (sc_row s)) exits d j = Inr True \<and>
     event_by_key d (ready_key (w_id (sc_row s)) (w_version (sc_row s))) = None"

lemma scan_row_cong:
  assumes "filter (\<lambda>c. c_work c = w_id w) (d_claims d') = filter (\<lambda>c. c_work c = w_id w) (d_claims d)"
  shows "scan_row d' w = scan_row d w"
proof -
  have f: "filter (\<lambda>c. c_work c = w_id w \<and> q c) (d_claims d') = filter (\<lambda>c. c_work c = w_id w \<and> q c) (d_claims d)" for q
    using arg_cong [OF assms, of "filter q"] by (simp add: conj_commute)
  show ?thesis by (simp add: scan_row_def blocked_claims_def row_count_def f)
qed

lemma filter_untouched:
  "(\<And>x. x \<in> set xs \<Longrightarrow> p x \<Longrightarrow> \<not> q x \<and> \<not> q (f x)) \<Longrightarrow> filter q (upd_where p f xs) = filter q xs"
  by (induction xs) auto

lemma clean_ids_kept:
  "clean_ids d \<Longrightarrow> d_claims d' = upd_where p free_blocked (d_claims d) \<Longrightarrow> clean_ids d'"
  by (auto simp: clean_ids_def free_blocked_def dest!: in_upd_whereD split: if_split_asm)

lemma due_step:
  assumes "continue_one L lanes W exits t u d = Inr (d', r)" "wf_db d" "clean_ids d"
    and "w_id (sc_row u) \<noteq> w_id (sc_row s)" "due L W exits s j d"
  shows "due L W exits s j d' \<and> wf_db d' \<and> clean_ids d'"
  using assms(1)
proof (cases rule: continue_one_cases)
  case 1
  then show ?thesis using assms by simp
next
  case (2 i x)
  let ?a = "ready_request L i u"
  obtain w where e: "\<And>j. j \<noteq> rd_work ?a \<Longrightarrow> workd d' j = workd d j"
    "d_claims d' = upd_where (\<lambda>c. rd_requeue ?a \<and> freeable ?a c) free_blocked (d_claims d)" "wf_db d'" "kept d d'"
    "d_events d' = d_events d @ [(ready_event lanes ?a t)\<lparr>e_id := rr_event x\<rparr>]"
    by (rule transition_effect [OF 2(4) assms(2)]) blast
  have m: "ready_matches ?a d" using apply_ready_Inr [OF 2(4)] by blast
  have other: "c_work c = w_id (sc_row u)" if "c \<in> set (d_claims d)" "freeable ?a c" for c
    using freeable_exact(2) [OF assms(2,3) m that] by simp
  have cl: "filter (\<lambda>c. c_work c = w_id (sc_row s)) (d_claims d') = filter (\<lambda>c. c_work c = w_id (sc_row s)) (d_claims d)"
    unfolding e(2) by (rule filter_untouched) (use other assms(4) in \<open>auto simp: free_blocked_def\<close>)
  have key: "ready_key (w_id (sc_row u)) (w_version (sc_row u)) \<noteq> ready_key (w_id (sc_row s)) (w_version (sc_row s))"
    using ready_key_work assms(4) by blast
  have "event_by_key d' (ready_key (w_id (sc_row s)) (w_version (sc_row s))) = None"
    using assms(5) key by (simp add: due_def event_by_key_def e(5) find_append ready_event_def Let_def)
  then have "due L W exits s j d'"
    using assms(4,5) e(1) still_true [OF e(4)] scan_row_cong [OF cl] by (simp add: due_def)
  with e(3) clean_ids_kept [OF assms(3) e(2)] show ?thesis by simp
qed

lemma pass_records:
  assumes "continue_rows L lanes W exits clock ss d = (d', res)" "\<not> isl res" "wf_db d" "clean_ids d"
    and "\<forall>s \<in> set ss. row_known s d" "distinct (map (\<lambda>s. w_id (sc_row s)) ss)" "s \<in> set ss" "due L W exits s j d"
  shows "\<exists>t. workd d' (w_id (sc_row s)) = Some (mark_ready (rd_requeue (ready_request L j s)) t (sc_row s))"
  using assms
proof (induction ss arbitrary: d res)
  case (Cons u ss)
  from Cons.prems(1) show ?case
  proof (cases rule: continue_rows_step)
    case (1 e)
    then show ?thesis using Cons.prems(2) by simp
  next
    case (2 d1 r res1)
    have ok: "\<not> isl res1" using 2(3) Cons.prems(2) by simp
    have known: "\<forall>s \<in> set ss. row_known s d1"
      using row_known_step [OF 2(1) Cons.prems(3)] Cons.prems(5) by simp
    show ?thesis
    proof (cases "u = s")
      case False
      then have s: "s \<in> set ss" "w_id (sc_row u) \<noteq> w_id (sc_row s)" using Cons.prems(6,7) by (auto simp: image_iff)
      note st = due_step [OF 2(1) Cons.prems(3,4) s(2) Cons.prems(8)]
      show ?thesis by (rule Cons.IH [OF 2(2) ok _ _ known _ s(1)]) (use st Cons.prems(6) in auto)
    next
      case True
      have du: "due L W exits s j d" by (rule Cons.prems(8))
      let ?m = "mark_ready (rd_requeue (ready_request L j s)) (clock (length ss)) (sc_row s)"
      obtain y x where y: "apply_continuation_ready_transition lanes (ready_request L j s) (clock (length ss)) d = Inr (y, Some x)"
        using transition_ok [OF _ Cons.prems(3,4), of s "sc_row s" lanes L j] du unfolding due_def by blast
      have "continue_one L lanes W exits (clock (length ss)) s d = Inr (y, Some x)"
        using du y by (simp add: continue_one_def due_def)
      then have d1: "d1 = y" using 2(1) True by simp
      obtain w where w: "workd d (rd_work (ready_request L j s)) = Some w"
        "workd y (rd_work (ready_request L j s)) = Some (mark_ready (rd_requeue (ready_request L j s)) (clock (length ss)) w)" "wf_db y"
        by (rule transition_effect [OF y Cons.prems(3)]) blast
      have "w = sc_row s" using w(1) du by (simp add: due_def)
      then have "workd d1 (w_id ?m) = Some ?m" using w(2) d1 by simp
      from pass_row [OF 2(2) _ known this] w(3) d1 have "workd d' (w_id ?m) = Some ?m" by (auto simp: made_ready_def)
      then show ?thesis by auto
    qed
  qed
qed simp

subsection \<open>The pass as a whole\<close>

lemma scan_distinct:
  assumes "wf_db d"
  shows "distinct (map (\<lambda>s. w_id (sc_row s)) (scan d))"
proof -
  have one: "map (\<lambda>s. w_id (sc_row s)) (scan_row d w) = [w_id w]" for w
    by (rule blocked_at_most_one [OF assms, of "w_id w"]) (simp_all add: scan_row_def)
  have "map (\<lambda>s. w_id (sc_row s)) (concat (map (scan_row d) ws)) = map w_id ws" for ws
    by (induction ws) (simp_all add: one)
  then show ?thesis using assms by (simp add: scan_def distinct_map_filter wf_db_def keys_ok_def)
qed

lemma scan_has: "wf_db d \<Longrightarrow> w \<in> set (d_works d) \<Longrightarrow> waiting w \<Longrightarrow> \<exists>s \<in> set (scan d). sc_row s = w"
  by (rule blocked_at_most_one [of d "w_id w"]) (auto simp: scan_def scan_row_def intro!: bexI [of _ w])

lemma scan_row_known: "wf_db d \<Longrightarrow> \<forall>s \<in> set (scan d). row_known s d"
  using scan_known by (auto simp: row_known_def)

lemma evaluate_kept: "evaluate_continuations L lanes W M clock d = (d', res) \<Longrightarrow> wf_db d \<Longrightarrow> pass_kept d d'"
  unfolding evaluate_continuations_def Let_def by (rule continue_rows_kept)

lemma evaluate_row:
  assumes "evaluate_continuations L lanes W M clock d = (d', res)" "wf_db d" "clean_ids d" "workd d i = Some w"
    and "x = evaluate_dark_hold_snapshot L M (map sc_row (scan d))"
  shows "workd d' i = Some w \<or> waiting w \<and> (\<exists>j t. loads L (otext (w_resume_pred w)) = Some j \<and>
      predicate_true L W i x d' j = Inr True \<and>
      workd d' i = Some (mark_ready (safe_candidate L j w \<and> \<not> worked_on d i) t w))"
proof -
  have i: "w_id w = i" using workd_SomeD [OF assms(4)] by simp
  have "continue_rows L lanes W x clock (scan d) d = (d', res)"
    using assms(1,5) by (simp add: evaluate_continuations_def Let_def)
  from pass_row [OF this assms(2) scan_row_known [OF assms(2)]] assms(4) i
  have "workd d' i = Some w \<or> made_ready L W x (scan d) d' w" by blast
  then show ?thesis
  proof
    assume "made_ready L W x (scan d) d' w"
    then obtain s j t where s: "s \<in> set (scan d)" "sc_row s = w" "loads L (otext (w_resume_pred w)) = Some j"
      "predicate_true L W i x d' j = Inr True" "workd d' i = Some (mark_ready (rd_requeue (ready_request L j s)) t w)"
      unfolding made_ready_def i by blast
    have "s \<in> set (scan_row d w)" "waiting w" using scan_known [OF assms(2) s(1)] s(2) by auto
    with s requeue_exact [OF _ assms(2,3), of s w L j] i show ?thesis by (auto simp del: ready_request_simps)
  qed simp
qed

lemma evaluate_records:
  assumes "evaluate_continuations L lanes W M clock d = (d', Inr rs)" "wf_db d" "clean_ids d" "workd d i = Some w" "waiting w"
    and "loads L (otext (w_resume_pred w)) = Some j"
    and "predicate_true L W i (evaluate_dark_hold_snapshot L M (map sc_row (scan d))) d j = Inr True"
    and "event_by_key d (ready_key i (w_version w)) = None"
  shows "\<exists>t. workd d' i = Some (mark_ready (safe_candidate L j w \<and> \<not> worked_on d i) t w)"
proof -
  let ?x = "evaluate_dark_hold_snapshot L M (map sc_row (scan d))"
  have w: "w \<in> set (d_works d)" "w_id w = i" using workd_SomeD [OF assms(4)] by simp_all
  obtain s where s: "s \<in> set (scan d)" "sc_row s = w" using scan_has [OF assms(2) w(1) assms(5)] by blast
  have sr: "s \<in> set (scan_row d w)" using scan_known [OF assms(2) s(1)] s(2) by simp
  have "due L W ?x s j d" using assms(4-8) s(2) sr w(2) by (simp add: due_def waiting_def)
  moreover have "continue_rows L lanes W ?x clock (scan d) d = (d', Inr rs)"
    using assms(1) by (simp add: evaluate_continuations_def Let_def)
  ultimately have "\<exists>t. workd d' (w_id (sc_row s)) = Some (mark_ready (rd_requeue (ready_request L j s)) t (sc_row s))"
    using assms(2,3) by (intro pass_records [OF _ _ _ _ scan_row_known scan_distinct s(1)]) auto
  then show ?thesis using requeue_exact [OF sr assms(2,3), of L j] s(2) w(2) by (simp del: ready_request_simps)
qed

lemma pass_frees:
  assumes "continue_rows L lanes W exits clock ss d = (d', res)" "wf_db d" "clean_ids d" "\<forall>s \<in> set ss. row_known s d"
    and "workd d (w_id w) = Some w" "w_intent w \<noteq> ''queued''" "workd d' (w_id w) = Some w'"
    and q: "w_intent w' = ''queued''" and c: "c \<in> set (d_claims d')" "held c"
  shows "c_work c \<noteq> w_id w"
  using assms(1-7)
proof (induction ss arbitrary: d res)
  case Nil
  then show ?case using q by simp
next
  case (Cons s ss)
  from Cons.prems(1) show ?case
  proof (cases rule: continue_rows_step)
    case (1 e)
    then show ?thesis using Cons.prems(5-7) q by simp
  next
    case (2 d1 r res1)
    have k: "pass_kept d d1" by (rule continue_one_kept [OF 2(1) Cons.prems(2)])
    have wf1: "wf_db d1" using k Cons.prems(2) by (simp add: pass_kept_def)
    have "set (map c_id (d_claims d1)) = set (map c_id (d_claims d))" using k by (simp add: pass_kept_def)
    then have ids1: "clean_ids d1" using Cons.prems(3) by (fastforce simp: clean_ids_def dest: equalityD1)
    have known: "\<forall>u \<in> set ss. row_known u d1"
      using row_known_step [OF 2(1) Cons.prems(2)] Cons.prems(4) by simp
    have k': "pass_kept d1 d'" by (rule continue_rows_kept [OF 2(2) wf1])
    have same: ?thesis if "workd d1 (w_id w) = Some w"
      by (rule Cons.IH [OF 2(2) wf1 ids1 known that Cons.prems(6,7)])
    from 2(1) show ?thesis
    proof (cases rule: continue_one_cases)
      case 1
      then show ?thesis using Cons.prems(5) by (intro same) simp
    next
      case (2 j x)
      let ?a = "ready_request L j s"
      obtain v where v: "workd d (rd_work ?a) = Some v" "workd d1 (rd_work ?a) = Some (mark_ready (rd_requeue ?a) (clock (length ss)) v)"
        "\<And>i. i \<noteq> rd_work ?a \<Longrightarrow> workd d1 i = workd d i"
        by (rule transition_effect [OF 2(4) Cons.prems(2)]) blast
      show ?thesis
      proof (cases "w_id w = rd_work ?a")
        case False
        then show ?thesis using v(3) [OF False] Cons.prems(5) by (intro same) simp
      next
        case True
        let ?m = "mark_ready (rd_requeue ?a) (clock (length ss)) w"
        have vw: "v = w" using v(1) True Cons.prems(5) by simp
        have m1: "workd d1 (w_id ?m) = Some ?m" using v(2) vw True by simp
        have "workd d' (w_id ?m) = Some ?m"
          using pass_row [OF \<open>continue_rows L lanes W exits clock ss d1 = (d', res1)\<close> wf1 known m1] by (auto simp: made_ready_def)
        then have "w' = ?m" using Cons.prems(7) by simp
        then have "rd_requeue ?a" using q Cons.prems(6) by (simp del: ready_request_simps split: if_split_asm)
        then show ?thesis using apply_ready_frees [OF 2(4) _ Cons.prems(2,3), of c] k' c True by (auto simp: pass_kept_def)
      qed
    qed
  qed
qed

text \<open>What the pass requeues, any registered session of its lane can claim.\<close>

lemma requeued_by_pass:
  assumes e: "evaluate_continuations L lanes W M clock d = (d', res)" and wf: "wf_db d" "clean_ids d"
    and w: "workd d i = Some w" "w_intent w \<noteq> ''queued''" "workd d' i = Some w'" "w_intent w' = ''queued''"
    and a: "w_archived w = None" "i \<noteq> []" "\<not> assigned_elsewhere (session_actor_of d sid) w" "sess d sid \<noteq> None" "claimd d c = None"
  shows "(\<exists>d2. claim_unlocked lanes' c token sid i st lease t d' = Inr (d2, c)) \<and>
    (\<forall>x \<in> set (d_claims d'). held x \<longrightarrow> c_work x \<noteq> i)"
proof -
  have i: "w_id w = i" using workd_SomeD [OF w(1)] by simp
  have k: "pass_kept d d'" by (rule evaluate_kept [OF e wf(1)])
  obtain q t0 where m: "w' = mark_ready q t0 w"
    using evaluate_row [OF e wf w(1) refl] w(2-4) by auto
  have "continue_rows L lanes W (evaluate_dark_hold_snapshot L M (map sc_row (scan d))) clock (scan d) d = (d', res)"
    using e by (simp add: evaluate_continuations_def Let_def)
  note f = pass_frees [OF this wf scan_row_known [OF wf(1)], of w w']
  have free: "c_work x \<noteq> i" if "x \<in> set (d_claims d')" "held x" for x
    using f [of x] that w i by simp
  have q: "lower (strip ''queued'') = ''queued''" "\<not> terminal ''queued''" "''queued'' \<notin> set held_intents" by code_simp+
  have s: "sess d' sid \<noteq> None" "session_actor_of d' sid = session_actor_of d sid"
    using k a(4) by (simp_all add: pass_kept_def sess_def session_actor_of_def)
  have av: "available d' sid w'"
    using q a(1,3) w(2,4) m by (simp add: available_def closed_row_def assigned_elsewhere_def s(2))
  have "map c_id (d_claims d') = map c_id (d_claims d)" using k by (simp add: pass_kept_def)
  then have "set (map c_id (d_claims d')) = set (map c_id (d_claims d))" by simp
  then have fresh: "claimd d' c = None" using a(5) by (simp add: claimd_None_iff)
  have "wf_db d'" using k wf(1) by (simp add: pass_kept_def)
  from abandoned_claimable [OF this w(3) a(2) av _ fresh s(1)] free show ?thesis by blast
qed

end
