(* ===== verification/SlaFacts.thy ===== *)
theory SlaFacts
  imports ReaperFacts
begin

text \<open>
  The other half of the background pass: whose requests are escalated and how often, which runs are
  given up, and that the pass as a whole keeps the constraints of the database and its history.
\<close>

section \<open>Own requests are settled first\<close>

lemma settle_all_table:
  "d_consumption (settle_all t rows d) = upd_where (\<lambda>q. q_at q = None \<and>
     (\<exists>x \<in> set rows. q_request q = q_request (fst x) \<and> q_lane q = q_lane (fst x))) (settle_own t) (d_consumption d)"
proof (induction rows arbitrary: d)
  case Nil
  then show ?case by (simp add: settle_all_def upd_where_none)
next
  case (Cons x rows)
  obtain r e where x: "x = (r, e)" by (rule prod.exhaust)
  let ?p = "\<lambda>q. q_request q = q_request r \<and> q_lane q = q_lane r \<and> q_at q = None"
  let ?d = "d\<lparr>d_consumption := upd_where ?p (settle_own t) (d_consumption d)\<rparr>"
  let ?q = "\<lambda>q. q_at q = None \<and> (\<exists>x \<in> set rows. q_request q = q_request (fst x) \<and> q_lane q = q_lane (fst x))"
  have "settle_all t (x # rows) d = settle_all t rows ?d" by (simp add: settle_all_def x)
  then have "d_consumption (settle_all t (x # rows) d) = upd_where ?q (settle_own t) (upd_where ?p (settle_own t) (d_consumption d))"
    by (simp add: Cons.IH)
  also have "\<dots> = upd_where (\<lambda>q. ?p q \<or> ?q q) (settle_own t) (d_consumption d)"
    by (rule upd_where_twice) (simp add: settle_own_def)
  also have "\<dots> = upd_where (\<lambda>q. q_at q = None \<and>
     (\<exists>y \<in> set (x # rows). q_request q = q_request (fst y) \<and> q_lane q = q_lane (fst y))) (settle_own t) (d_consumption d)"
    by (rule upd_where_cong) (auto simp: x)
  finally show ?case .
qed

lemma settle_all_frame [simp]:
  "d_events (settle_all t rows d) = d_events d" "d_next_event (settle_all t rows d) = d_next_event d"
  "d_works (settle_all t rows d) = d_works d" "d_claims (settle_all t rows d) = d_claims d"
  "d_sessions (settle_all t rows d) = d_sessions d" "d_runs (settle_all t rows d) = d_runs d"
  by (induction rows arbitrary: d) (auto simp: settle_all_def)

text \<open>Every open request names an event, as its foreign key requires.\<close>

definition requests_ok :: "db \<Rightarrow> bool" where
  "requests_ok d \<longleftrightarrow> (\<forall>q \<in> set (d_consumption d). eventd d (q_request q) \<noteq> None)"

lemma in_open_requests:
  "(q, e) \<in> set (open_requests d) \<longleftrightarrow> q \<in> set (d_consumption d) \<and> q_at q = None \<and> eventd d (q_request q) = Some e"
  by (auto simp: open_requests_def split: option.splits)

lemma logged_eventd: "logged d d' \<Longrightarrow> eventd d i = Some e \<Longrightarrow> eventd d' i = Some e"
  unfolding logged_def eventd_def by (metis find_append_Some)

lemma insert_or_ignore_logged: "insert_or_ignore e d = (d', i) \<Longrightarrow> logged d d'"
  by (auto simp: insert_or_ignore_def dest: logged_insert_event split: sum.splits prod.splits)

lemma insert_or_ignore_frame: "insert_or_ignore e d = (d', i) \<Longrightarrow> d_consumption d' = d_consumption d"
  by (auto simp: insert_or_ignore_def dest: insert_event_Inr split: sum.splits prod.splits)

lemma insert_or_ignore_event:
  assumes "insert_or_ignore e d = (d', i)"
  shows "d_events d' = d_events d \<or> (\<exists>n. d_events d' = d_events d @ [e\<lparr>e_id := n\<rparr>])"
  using assms by (auto simp: insert_or_ignore_def dest!: insert_event_Inr split: sum.splits prod.splits)

lemma insert_or_ignore_key:
  assumes "insert_or_ignore e d = (d', i)" "e_key e = Some k"
  shows "event_by_key d' k \<noteq> None" "i = None \<longleftrightarrow> event_by_key d k \<noteq> None"
  using assms by (auto simp: insert_or_ignore_def insert_event_def event_by_key_def find_append split: sum.splits prod.splits if_split_asm option.splits)

lemma logged_settle: "logged d (settle_all t rows d)"
  unfolding logged_def by (auto simp: wf_db_defs intro: kept_same)

definition own_rows :: "db \<Rightarrow> (consumption_row \<times> event_row) list" where
  "own_rows d = sort_key (\<lambda>(q, e). q_request q) (filter self_directed (open_requests d))"

lemma reclassification_kind [simp]: "e_kind (reclassification_event t ids sha) = ''self_directed_sla_reclassification''"
  by (simp add: reclassification_event_def)

lemma reclassify_cases:
  assumes "reclassify_self_directed_requests L t d = (d', rc)"
  shows "(own_rows d = [] \<and> d' = settle_all t (own_rows d) d) \<or> (\<exists>e ev. own_rows d \<noteq> [] \<and> e_kind e = ''self_directed_sla_reclassification'' \<and>
     insert_or_ignore e (settle_all t (own_rows d) d) = (d', ev))"
  using assms reclassification_kind
  by (fastforce simp: reclassify_self_directed_requests_def Let_def own_rows_def split: prod.splits if_split_asm)

lemma reclassify_effect:
  assumes "reclassify_self_directed_requests L t d = (d', rc)" "requests_ok d"
  shows "logged d d'" "requests_ok d'"
    and "set (open_requests d') = {x \<in> set (open_requests d). \<not> self_directed x}"
    and "\<And>x. judged_since d' x = judged_since d x"
proof -
  let ?s = "settle_all t (own_rows d) d"
  from reclassify_cases [OF assms(1)] consider "d' = ?s"
    | e ev where "e_kind e = ''self_directed_sla_reclassification''" "insert_or_ignore e ?s = (d', ev)" by blast
  then have x: "logged ?s d' \<and> d_consumption d' = d_consumption ?s \<and> (d_events d' = d_events d \<or>
      (\<exists>e. e_kind e \<noteq> ''audit_verdict'' \<and> d_events d' = d_events d @ [e]))"
  proof cases
    case 2
    have "e_kind (e\<lparr>e_id := n\<rparr>) \<noteq> ''audit_verdict''" for n by (simp add: 2(1))
    then show ?thesis
      using insert_or_ignore_logged [OF 2(2)] insert_or_ignore_frame [OF 2(2)] insert_or_ignore_event [OF 2(2)] by fastforce
  qed simp
  show l: "logged d d'" using logged_trans [OF logged_settle] x by blast
  have ev: "eventd d' (q_request q) = eventd d (q_request q)" if "q \<in> set (d_consumption d)" for q
  proof -
    have "eventd d (q_request q) \<noteq> None" using assms(2) that by (simp add: requests_ok_def)
    then obtain e where "eventd d (q_request q) = Some e" by blast
    with logged_eventd [OF l this] show ?thesis by simp
  qed
  define P where "P q \<longleftrightarrow> q_at q = None \<and> (\<exists>y \<in> set (own_rows d). q_request q = q_request (fst y) \<and> q_lane q = q_lane (fst y))" for q :: consumption_row
  have c: "d_consumption d' = upd_where P (settle_own t) (d_consumption d)" using x by (simp add: settle_all_table P_def [abs_def])
  have own: "P q \<longleftrightarrow> q_at q = None \<and> self_directed (q, e)" if "q \<in> set (d_consumption d)" "eventd d (q_request q) = Some e" for q e
  proof
    assume "P q"
    then obtain r f where y: "(r, f) \<in> set (open_requests d)" "self_directed (r, f)" "q_request q = q_request r" "q_lane q = q_lane r" "q_at q = None"
      by (auto simp: own_rows_def P_def)
    then have "f = e" using that(2) by (simp add: in_open_requests)
    with y show "q_at q = None \<and> self_directed (q, e)" by (simp add: self_directed_def)
  next
    assume "q_at q = None \<and> self_directed (q, e)"
    then show "P q" using that by (auto simp: P_def own_rows_def in_open_requests intro!: bexI [of _ "(q, e)"])
  qed
  show "requests_ok d'" using assms(2) ev by (auto simp: requests_ok_def c settle_own_def dest!: in_upd_whereD)
  show "set (open_requests d') = {x \<in> set (open_requests d). \<not> self_directed x}"
  proof -
    have "(q, e) \<in> set (open_requests d') \<longleftrightarrow> (q, e) \<in> set (open_requests d) \<and> \<not> self_directed (q, e)" for q e
    proof
      assume "(q, e) \<in> set (open_requests d')"
      then have q: "q \<in> set (d_consumption d')" "q_at q = None" "eventd d' (q_request q) = Some e" by (simp_all add: in_open_requests)
      then obtain x where y: "x \<in> set (d_consumption d)" "q = (if P x then settle_own t x else x)"
        using in_upd_whereD [of q P "settle_own t" "d_consumption d"] unfolding c by blast
      have "\<not> P x" using y(2) q(2) by (cases "P x") (simp_all add: settle_own_def)
      then have "x = q" using y(2) by simp
      with y(1) \<open>\<not> P x\<close> have "q \<in> set (d_consumption d)" "\<not> P q" by blast+
      with q ev [of q] own [of q e] show "(q, e) \<in> set (open_requests d) \<and> \<not> self_directed (q, e)" by (auto simp: in_open_requests)
    next
      assume "(q, e) \<in> set (open_requests d) \<and> \<not> self_directed (q, e)"
      then have q: "q \<in> set (d_consumption d)" "q_at q = None" "eventd d (q_request q) = Some e" "\<not> self_directed (q, e)"
        by (simp_all add: in_open_requests)
      then have "\<not> P q" using own [of q e] by blast
      then have "q \<in> set (d_consumption d')" using q(1) by (simp add: c set_upd_where)
      with q ev [of q] show "(q, e) \<in> set (open_requests d')" by (simp add: in_open_requests)
    qed
    then show ?thesis by auto
  qed
  show "judged_since d' x = judged_since d x" for x
    using x by (auto simp: judged_since_def)
qed

section \<open>Escalations\<close>

definition overdue :: "seconds \<Rightarrow> consumption_row \<times> event_row \<Rightarrow> nat" where
  "overdue t x = (case request_sla (snd x) of Inl _ \<Rightarrow> 0 | Inr sla \<Rightarrow> overdue_multiple (request_age t (snd x)) sla)"

definition escalated :: "seconds \<Rightarrow> consumption_row \<times> event_row \<Rightarrow> string" where
  "escalated t x = sla_key (e_id (snd x)) (overdue t x)"

lemma escalate_rows_effect:
  assumes "escalate_rows t xs n d = Inr (d', out)"
  shows "logged d d'" "d_consumption d' = d_consumption d" "n \<le> escalation_cap \<Longrightarrow> n + length out \<le> escalation_cap"
    and "\<forall>es \<in> set out. \<exists>x \<in> set xs. 0 < overdue t x \<and> es_multiple es = overdue t x \<and> es_lane es = q_lane (fst x) \<and>
       es_work es = e_work (snd x) \<and> event_by_key d (escalated t x) = None"
    and "n + length out < escalation_cap \<Longrightarrow> \<forall>x \<in> set xs. 0 < overdue t x \<longrightarrow> event_by_key d' (escalated t x) \<noteq> None"
proof -
  have "logged d d' \<and> d_consumption d' = d_consumption d \<and> (n \<le> escalation_cap \<longrightarrow> n + length out \<le> escalation_cap) \<and>
    (\<forall>es \<in> set out. \<exists>x \<in> set xs. 0 < overdue t x \<and> es_multiple es = overdue t x \<and> es_lane es = q_lane (fst x) \<and>
       es_work es = e_work (snd x) \<and> event_by_key d (escalated t x) = None) \<and>
    (n + length out < escalation_cap \<longrightarrow> (\<forall>x \<in> set xs. 0 < overdue t x \<longrightarrow> event_by_key d' (escalated t x) \<noteq> None))"
    using assms
  proof (induction xs arbitrary: n d out)
    case (Cons x xs)
    show ?case
    proof (cases "escalation_cap \<le> n")
      case True
      with Cons.prems show ?thesis by simp
    next
      case False
      then obtain sla where sla: "request_sla (snd x) = Inr sla" using Cons.prems by (cases "request_sla (snd x)") auto
      let ?m = "overdue t x"
      have m: "overdue_multiple (request_age t (snd x)) sla = ?m" by (simp add: overdue_def sla)
      show ?thesis
      proof (cases "?m = 0")
        case True
        then have "escalate_rows t xs n d = Inr (d', out)" using Cons.prems False sla m by simp
        from Cons.IH [OF this] True show ?thesis by auto
      next
        case False
        obtain d1 i where i: "insert_or_ignore (escalation_event x sla ?m t) d = (d1, i)" by (rule prod.exhaust)
        have k: "e_key (escalation_event x sla ?m t) = Some (escalated t x)"
          by (simp add: escalation_event_def Let_def escalated_def split: prod.splits)
        note l1 = insert_or_ignore_logged [OF i] and c1 = insert_or_ignore_frame [OF i] and kk = insert_or_ignore_key [OF i k]
        have mono: "event_by_key d1 y = None \<Longrightarrow> event_by_key d y = None" for y
          using logged_key [OF l1, of y] by (cases "event_by_key d y") auto
        show ?thesis
        proof (cases i)
          case None
          then have r: "escalate_rows t xs n d1 = Inr (d', out)"
            using Cons.prems \<open>\<not> escalation_cap \<le> n\<close> sla m False i by simp
          note IH = Cons.IH [OF r]
          have "event_by_key d' (escalated t x) \<noteq> None" using kk(1) IH logged_key [of d1 d' "escalated t x"] by auto
          moreover have "\<And>y. event_by_key d1 y = None \<Longrightarrow> event_by_key d y = None" by (rule mono)
          ultimately show ?thesis using IH logged_trans [OF l1] c1 by fastforce
        next
          case (Some j)
          then obtain out' where r: "escalate_rows t xs (n + 1) d1 = Inr (d', out')"
            "out = \<lparr>es_work = e_work (snd x), es_lane = q_lane (fst x), es_multiple = ?m, es_event = j\<rparr> # out'"
            using Cons.prems \<open>\<not> escalation_cap \<le> n\<close> sla m False i by (auto simp: bindE_Inr_iff)
          note IH = Cons.IH [OF r(1)]
          have "event_by_key d' (escalated t x) \<noteq> None" using kk(1) IH logged_key [of d1 d' "escalated t x"] by auto
          moreover have "event_by_key d (escalated t x) = None" using kk(2) Some by simp
          moreover have "\<And>y. event_by_key d1 y = None \<Longrightarrow> event_by_key d y = None" by (rule mono)
          ultimately show ?thesis using IH logged_trans [OF l1] c1 False \<open>\<not> escalation_cap \<le> n\<close> unfolding r(2) by fastforce
        qed
      qed
    qed
  qed simp
  then show "logged d d'" "d_consumption d' = d_consumption d" "n \<le> escalation_cap \<Longrightarrow> n + length out \<le> escalation_cap"
    and "\<forall>es \<in> set out. \<exists>x \<in> set xs. 0 < overdue t x \<and> es_multiple es = overdue t x \<and> es_lane es = q_lane (fst x) \<and>
       es_work es = e_work (snd x) \<and> event_by_key d (escalated t x) = None"
    and "n + length out < escalation_cap \<Longrightarrow> \<forall>x \<in> set xs. 0 < overdue t x \<longrightarrow> event_by_key d' (escalated t x) \<noteq> None"
    by blast+
qed

lemma evaluate_slas_Inr:
  assumes "evaluate_request_slas L t t2 d = (d', Inr (out, rc))"
  obtains d1 where "reclassify_self_directed_requests L t d = (d1, rc)" "escalate_rows t2 (unanswered d1) 0 d1 = Inr (d', out)"
proof -
  obtain d1 rc' where r: "reclassify_self_directed_requests L t d = (d1, rc')" by (rule prod.exhaust)
  show thesis using assms by (intro that [of d1]) (auto simp: evaluate_request_slas_def r split: sum.splits)
qed

lemma reclassify_logged: "reclassify_self_directed_requests L t d = (d', rc) \<Longrightarrow> logged d d'"
  using reclassify_cases [of L t d d' rc] logged_trans [OF logged_settle] by (auto dest: insert_or_ignore_logged intro: logged_settle)

lemma evaluate_slas_logged: "evaluate_request_slas L t t2 d = (d', res) \<Longrightarrow> logged d d'"
  using reclassify_logged [of L t d] escalate_rows_effect(1)
  by (auto simp: evaluate_request_slas_def split: prod.splits sum.splits intro: logged_trans)

text \<open>The requests that are still owed an answer: open, from another lane, and not judged since.\<close>

definition owed :: "db \<Rightarrow> (consumption_row \<times> event_row) set" where
  "owed d = {x \<in> set (open_requests d). \<not> self_directed x \<and> (e_kind (snd x) = ''audit_request'' \<longrightarrow> \<not> judged_since d x)}"

lemma unanswered_owed:
  assumes "reclassify_self_directed_requests L t d = (d', rc)" "requests_ok d"
  shows "set (unanswered d') = owed d"
  using reclassify_effect(3,4) [OF assms] by (auto simp: unanswered_def owed_def)

text \<open>A request whose payload is JSON but no object ends the pass before anything is escalated.\<close>

lemma list_payload_fails:
  assumes "e_payload (snd x) = JList js" "n < escalation_cap"
  shows "isl (escalate_rows t (x # xs) n d)"
  using assms by (simp add: request_sla_def is_jobj_def)

section \<open>Runs that are given up\<close>

lemma gone_runs_Inr:
  "gone_runs P s ws t rs = Inr ids \<Longrightarrow> (\<forall>r \<in> set rs. \<exists>b. run_gone P s ws t r = Inr b) \<and>
     ids = map r_id (filter (\<lambda>r. run_gone P s ws t r = Inr True) rs)"
  by (induction rs arbitrary: ids) (auto simp: bindE_Inr_iff)

lemma reap_dead_exact:
  assumes "reap_dead_runs P s ws t d = Inr (d', n)" "wf_db d"
  shows "d' = upd_runs (\<lambda>r. r_state r = ''live'' \<and> run_gone P s ws t r = Inr True) (orphan_run t) d"
    and "n = row_count (\<lambda>r. r_state r = ''live'' \<and> run_gone P s ws t r = Inr True) (d_runs d)"
proof -
  let ?g = "\<lambda>r. r_state r = ''live'' \<and> run_gone P s ws t r = Inr True"
  obtain ids where ids: "gone_runs P s ws t (filter (\<lambda>r. r_state r = ''live'') (d_runs d)) = Inr ids"
    "d' = upd_runs (\<lambda>r. r_id r \<in> set ids \<and> r_state r = ''live'') (orphan_run t) d" "n = length ids"
    using assms(1) by (auto simp: reap_dead_runs_def bindE_Inr_iff)
  have i: "ids = map r_id (filter ?g (d_runs d))"
    using gone_runs_Inr [OF ids(1)] by (simp add: conj_commute)
  then show "n = row_count ?g (d_runs d)" using ids(3) by (simp add: row_count_def)
  have same: "r_id r \<in> set ids \<and> r_state r = ''live'' \<longleftrightarrow> ?g r" if "r \<in> set (d_runs d)" for r
  proof
    assume l: "r_id r \<in> set ids \<and> r_state r = ''live''"
    then obtain x where x: "x \<in> set (d_runs d)" "?g x" "r_id x = r_id r" by (auto simp: i)
    have "inj_on r_id (set (d_runs d))" using assms(2) by (simp add: wf_db_def keys_ok_def distinct_map)
    then have "x = r" using x(1,3) that by (auto dest: inj_onD)
    with x(2) show "?g r" by simp
  qed (use that i in auto)
  have "upd_where (\<lambda>r. r_id r \<in> set ids \<and> r_state r = ''live'') (orphan_run t) (d_runs d) = upd_where ?g (orphan_run t) (d_runs d)"
    by (rule upd_where_cong) (rule same)
  then show "d' = upd_runs ?g (orphan_run t) d" unfolding ids(2) upd_runs_def by simp
qed

lemma orphaned_kept: "r_state r = ''live'' \<Longrightarrow> run_kept r (orphan_run t r)"
  by (simp add: run_kept_def orphan_run_def run_over_def terminal_run_states_def)

lemma reap_dead_keeps: "reap_dead_runs P s ws t d = Inr (d', n) \<Longrightarrow> wf_db d \<Longrightarrow> wf_db d' \<and> kept d d'"
  using reap_dead_exact(1) [of P s ws t d d' n]
  by (auto simp: orphaned_kept intro!: wf_upd_runs kept_upd_runs) (simp add: orphan_run_def)

section \<open>The pass as a whole\<close>

definition step_ok :: "db \<Rightarrow> db \<Rightarrow> bool" where
  "step_ok d d' \<longleftrightarrow> (wf_db d \<longrightarrow> wf_db d' \<and> kept d d')"

lemma step_ok_refl [simp, intro]: "step_ok d d"
  by (simp add: step_ok_def)

lemma step_ok_trans: "step_ok d1 d2 \<Longrightarrow> step_ok d2 d3 \<Longrightarrow> step_ok d1 d3"
  using kept_trans by (auto simp: step_ok_def)

lemma step_ok_step: "coord_step L lanes d d' \<Longrightarrow> step_ok d d'"
  using step_wf [of L lanes d d'] step_kept [of L lanes d d'] by (auto simp: step_ok_def)

lemma step_ok_logged: "logged d d' \<Longrightarrow> step_ok d d'"
  by (simp add: step_ok_def logged_def)

lemma fleet_rows_ok: "step_ok d (fst (renew_fleet_rows t lease rows d))"
proof (induction rows arbitrary: d)
  case (Cons row rows)
  let ?p = "\<lambda>c. c_id c = c_id row \<and> c_status c = ''running'' \<and> fleet_live d (c_work c)"
  have "kept d (upd_claims ?p (renew_claim t lease) d)"
    by (rule kept_upd_claims) (simp add: claim_kept_def renew_claim_def held_def)
  then have "step_ok d (upd_claims ?p (renew_claim t lease) d)" by (simp add: step_ok_def renew_update.wf)
  from step_ok_trans [OF this Cons.IH] Cons.IH show ?case by (simp add: Let_def case_prod_beta)
qed simp

lemma fleets_ok: "renew_claims_from_live_fleets L t lease d = Inr (d', rows, ev) \<Longrightarrow> step_ok d d'"
proof -
  assume a: "renew_claims_from_live_fleets L t lease d = Inr (d', rows, ev)"
  obtain cands d1 where d1: "renew_fleet_rows t lease cands d = (d1, rows)"
    "d' = d1 \<or> (\<exists>e i. insert_event e d1 = Inr (d', i))"
    using a by (auto simp: renew_claims_from_live_fleets_def Let_def bindE_Inr_iff split: prod.splits if_split_asm)
  have "step_ok d d1" using fleet_rows_ok [of d t lease cands] d1(1) by simp
  with d1(2) show "step_ok d d'" using step_ok_trans step_ok_logged logged_insert_event by blast
qed

lemma andthen_ok:
  assumes "step_ok d (fst m)" "\<And>d1 x. m = (d1, Inr x) \<Longrightarrow> step_ok d1 (fst (f d1 x))"
  shows "step_ok d (fst (andthen m f))"
proof (cases m)
  case (Pair d1 r)
  with assms show ?thesis by (cases r) (auto simp: andthen_def intro: step_ok_trans)
qed

lemma or_else_ok: "(\<And>d' x. r = Inr (d', x) \<Longrightarrow> step_ok d d') \<Longrightarrow> step_ok d (fst (or_else_same d r))"
  by (auto simp: or_else_same_def split: sum.splits prod.splits)

lemma continuations_ok: "step_ok d (fst (evaluate_continuations L lanes W M clock d))"
  using evaluate_kept [of L lanes W M clock d] by (cases "evaluate_continuations L lanes W M clock d") (auto simp: step_ok_def pass_kept_def)

lemma slas_ok: "step_ok d (fst (evaluate_request_slas L t t2 d))"
  using evaluate_slas_logged [of L t t2 d] step_ok_logged by (cases "evaluate_request_slas L t t2 d") auto

lemma dead_runs_ok: "reap_dead_runs P s ws t d = Inr (d', n) \<Longrightarrow> step_ok d d'"
  using reap_dead_keeps by (simp add: step_ok_def)

lemma reaped_ok: "reap_zombie_sessions t g dp ds d = (d', ids, n) \<Longrightarrow> step_ok d d'"
  using step_ok_step [OF coord_step.reap [of _ _ d t g dp ds]] by simp

lemma normalized_ok: "normalize_stale_active_intents t g m d = (d', r) \<Longrightarrow> step_ok d d'"
  using step_ok_step [OF coord_step.normalize_] by (auto simp: normalize_stale_active_intents_def Let_def)

lemma batch_ok: "release_expired_claims_batch L t d = Inr (d', rows, ev) \<Longrightarrow> step_ok d d'"
  using step_ok_step [OF coord_step.sweep] by blast

lemma or_else_rows:
  "(\<And>d' x ev. r = Inr (d', x, ev) \<Longrightarrow> step_ok d d') \<Longrightarrow>
   step_ok d (fst (or_else_same d (map_sum id (\<lambda>(d', rows, ev). (d', rows)) r)))"
  by (cases r) (auto simp: or_else_same_def)

lemma fleets_or_ok: "step_ok d (fst (or_else_same d (map_sum id (\<lambda>(d', rows, ev). (d', rows)) (renew_claims_from_live_fleets L t lease d))))"
  by (rule or_else_rows) (rule fleets_ok)

lemma batch_or_ok: "step_ok d (fst (or_else_same d (map_sum id (\<lambda>(d', rows, ev). (d', rows)) (release_expired_claims_batch L t d))))"
  by (rule or_else_rows) (rule batch_ok)

lemma dead_runs_or_ok: "step_ok d (fst (or_else_same d (reap_dead_runs P s ws t d)))"
  by (rule or_else_ok) (rule dead_runs_ok)

lemma run_reaper_ok: "step_ok d (fst (run_reaper L lanes P W M S now clock d))"
  unfolding run_reaper_def
proof (rule andthen_ok)
  fix d0 dead
  assume "(d, dead_sessions_of P (filter (\<lambda>s. s_state s = ''active'') (d_sessions d))) = (d0, Inr dead)"
  then have "d0 = d" by simp
  obtain d1 reaped freed where z: "reap_zombie_sessions (now 1) (rs_grace S) None
      (Some (dead @ pidless_workless_stale_sessions (now 0) (rs_workless_grace S) d0)) d0 = (d1, reaped, freed)" by (rule prod_cases3)
  show "step_ok d0 (fst (let pidless = pidless_workless_stale_sessions (now 0) (rs_workless_grace S) d0;
         (d1, reaped, freed) = reap_zombie_sessions (now 1) (rs_grace S) None (Some (dead @ pidless)) d0
     in andthen (evaluate_continuations L lanes W M clock d1) (\<lambda>d2 ready.
        andthen (evaluate_request_slas L (now 2) (now 3) d2) (\<lambda>d3 slas.
        andthen (or_else_same d3 (reap_dead_runs P pidless_run_stale workflow_run_stale (now 4) d3)) (\<lambda>d4 runs.
        andthen (or_else_same d4 (map_sum id (\<lambda>(d', rows, ev). (d', rows)) (renew_claims_from_live_fleets L (now 5) (rs_lease S) d4)))
          (\<lambda>d5 renewed.
        let (d6, normalized) = normalize_stale_active_intents (now 6) (rs_intent_stale S) 1000 d5
        in andthen (or_else_same d6 (map_sum id (\<lambda>(d', rows, ev). (d', rows)) (release_expired_claims_batch L (now 7) d6)))
          (\<lambda>d7 expired. (d7, Inr \<lparr>bp_reaped = reaped, bp_claims_released = freed, bp_pidless = sort (remdups pidless),
             bp_ready = ready, bp_slas = slas, bp_runs = runs, bp_renewed = renewed, bp_normalized = normalized,
             bp_expired = expired\<rparr>))))))))"
    unfolding Let_def z prod.case
    by (rule step_ok_trans [OF reaped_ok [OF z]])
       (auto intro!: andthen_ok continuations_ok slas_ok dead_runs_or_ok fleets_or_ok split: prod.splits
         intro: step_ok_trans [OF normalized_ok batch_or_ok])
qed simp

end
