(* ===== verification/ReaperExamples.thy ===== *)
theory ReaperExamples
  imports Examples SlaFacts
begin

text \<open>
  Inputs on which the properties of the background pass are instantiated: the row \<open>W5\<close> blocked until
  a file is there, held by one blocked claim; a request of \<open>codex\<close> that \<open>claude\<close> has not answered and
  one \<open>claude\<close> made to itself.
\<close>

definition demo_trigger :: json where
  "demo_trigger = JObj [(''type'', JStr ''artifact_exists''), (''path'', JStr ''out.txt'')]"

definition demo_trigger_lib :: lib where
  "demo_trigger_lib = demo_lib\<lparr>loads := (\<lambda>s. if s = ''p'' then Some demo_trigger else None)\<rparr>"

definition demo_files :: surroundings where
  "demo_files = \<lparr>root_dir = ''/repo'', file_at = (\<lambda>p. if p = ''/repo/out.txt'' then Contents ''x'' else NoFile)\<rparr>"

definition demo_blocked :: work_row where
  "demo_blocked = (demo_work ''W5'' None ''blocked'')\<lparr>w_reason := Some ''upstream_artifact_not_ready'', w_resume_pred := Some ''p''\<rparr>"

definition demo_blocked_db :: db where
  "demo_blocked_db = demo_db\<lparr>d_works := [demo_blocked, demo_work ''W2'' None ''running'', demo_work ''W3'' None ''done'',
       demo_work ''W4'' None ''running''],
     d_claims := d_claims demo_db @ [(demo_claim ''c5'' ''W5'' ''claude:a'' 900)\<lparr>c_status := ''blocked''\<rparr>]\<rparr>"

lemma demo_blocked_wf: "wf_db demo_blocked_db"
  by (simp add: demo_blocked_db_def demo_blocked_def demo_defs wf_db_defs unique_where_def event_log_ok_def held_def held_statuses_def)

lemma demo_blocked_facts: "clean_ids demo_blocked_db" "workd demo_blocked_db ''W5'' = Some demo_blocked" "waiting demo_blocked"
  "loads demo_trigger_lib (otext (w_resume_pred demo_blocked)) = Some demo_trigger" "safe_candidate demo_trigger_lib demo_trigger demo_blocked"
  "\<not> worked_on demo_blocked_db ''W5''" "event_by_key demo_blocked_db (ready_key ''W5'' (w_version demo_blocked)) = None"
  "predicate_true demo_trigger_lib demo_files ''W5'' x demo_blocked_db demo_trigger = Inr True"
  "validate_predicate demo_trigger = None"
  by code_simp+

lemma demo_files_readable: "file_at demo_files p \<noteq> Unreadable"
  by (simp add: demo_files_def)

definition demo_request_db :: db where
  "demo_request_db = demo_db\<lparr>
     d_events := [(demo_event 1 ''request'' None)\<lparr>e_actor := Some ''codex'', e_work := Some ''W5''\<rparr>,
       (demo_event 2 ''request'' None)\<lparr>e_actor := Some ''claude'', e_work := Some ''W5''\<rparr>],
     d_consumption := [\<lparr>q_lane = ''claude'', q_work = ''W5'', q_request = 1, q_event = None, q_at = None\<rparr>,
       \<lparr>q_lane = ''claude'', q_work = ''W5'', q_request = 2, q_event = None, q_at = None\<rparr>]\<rparr>"

lemma demo_request_wf: "wf_db demo_request_db" "requests_ok demo_request_db"
  by (simp_all add: demo_request_db_def demo_defs wf_db_defs unique_where_def event_log_ok_def held_def held_statuses_def
      requests_ok_def eventd_def)

definition demo_processes :: processes where
  "demo_processes = \<lparr>posix_probe = True, kill0 = (\<lambda>p. NoSuchProcess), started_at = (\<lambda>p. None)\<rparr>"

definition demo_settings :: reaper_settings where
  "demo_settings = \<lparr>rs_grace = 60, rs_workless_grace = 900, rs_intent_stale = 180, rs_lease = 3600\<rparr>"

end
