(* ===== verification/Contracts.thy ===== *)
theory Contracts
  imports Triggers
begin

text \<open>
  Work contracts (work_contracts.py): completions filed under the digest of what was asked, from what
  and by which code; the files, tables and services a claim declares it will write, and which declared
  scopes of different sessions collide; and the attempts of the children a session spawns. The tables
  stand beside the board, whose claims they name. Whether they can be read is an argument; that they can
  be created where they are missing is taken for granted where something is written.
\<close>

section \<open>Tables\<close>

record signal_row =
  cs_sha :: string
  cs_work :: string
  cs_spec :: json
  cs_inputs :: "string list"
  cs_producer :: string
  cs_ref :: string
  cs_at :: seconds
  cs_dead :: "seconds option"
  cs_why :: "string option"

record scope_row =
  sw_claim :: string
  sw_work :: string
  sw_session :: string
  sw_kind :: string
  sw_value :: string
  sw_at :: seconds

record child_row =
  kid_id :: string
  kid_claim :: string
  kid_work :: string
  kid_parent :: string
  kid_label :: string
  kid_by :: string
  kid_model :: "string option"
  kid_at :: seconds
  kid_outcome :: "string option"
  kid_outcome_ref :: "string option"
  kid_outcome_at :: "seconds option"

record contract_db =
  k_signals :: "signal_row list"
  k_scopes :: "scope_row list"
  k_children :: "child_row list"

datatype contract_error =
    Missing string
  | UnknownClaim string
  | UnclaimedFleet string
  | UnknownScopeKind string
  | UpwardPath string
  | Ungrantable string
  | FileError string
  | DuplicateAttempt string

section \<open>Completions\<close>

definition normalized_refs :: "string list \<Rightarrow> string list" where
  "normalized_refs refs = sort (remdups (filter (\<lambda>r. r \<noteq> []) (map strip refs)))"

fun producer_parts :: "lib \<Rightarrow> (string \<Rightarrow> file_state) \<Rightarrow> string list \<Rightarrow> contract_error + (string \<times> string) list" where
  "producer_parts L read [] = Inr []"
| "producer_parts L read (p # ps) =
     bindE (case read p of NoFile \<Rightarrow> Inr ''<absent>'' | Unreadable \<Rightarrow> Inl (FileError p) | Contents c \<Rightarrow> Inr (sha256 L c)) (\<lambda>h.
     bindE (producer_parts L read ps) (\<lambda>rest. Inr ((p, h) # rest)))"

text \<open>
  Paths are read below the root, if there is one. There is no file where reading reports that there is
  none, or a directory.
\<close>

definition producer_identity ::
  "lib \<Rightarrow> (string \<Rightarrow> file_state) \<Rightarrow> string option \<Rightarrow> string list \<Rightarrow> contract_error + string" where
  "producer_identity L read base paths =
     (if paths = [] then Inl (Missing ''paths'')
      else bindE (producer_parts L (\<lambda>p. read (case base of None \<Rightarrow> p | Some b \<Rightarrow> if prefix ''/'' p then p else b @ ''/'' @ p)) paths) (\<lambda>parts.
        Inr (digest L (JList (map (\<lambda>(p, h). JList [JStr p, JStr h]) (sort parts))))))"

definition done_signal_identity :: "lib \<Rightarrow> pyrow \<Rightarrow> string list \<Rightarrow> string \<Rightarrow> contract_error + string" where
  "done_signal_identity L spec refs producer =
     (let p = strip producer in
      if p = [] then Inl (Missing ''producer_sha256'')
      else Inr (digest L (JObj [(''input_refs'', JList (map JStr (normalized_refs refs))),
             (''producer_sha256'', JStr p), (''spec'', JObj spec)])))"

text \<open>\<open>INSERT \<dots> ON CONFLICT DO UPDATE\<close>: a completion recorded again is live again.\<close>

definition upsert_signal :: "signal_row \<Rightarrow> contract_db \<Rightarrow> contract_db" where
  "upsert_signal r k =
     (let same = (\<lambda>x. cs_sha x = cs_sha r \<and> cs_work x = cs_work r) in
      if list_ex same (k_signals k)
      then k\<lparr>k_signals := upd_where same
             (\<lambda>x. x\<lparr>cs_ref := cs_ref r, cs_at := cs_at r, cs_dead := None, cs_why := None\<rparr>) (k_signals k)\<rparr>
      else k\<lparr>k_signals := k_signals k @ [r]\<rparr>)"

definition record_completion ::
  "lib \<Rightarrow> string \<Rightarrow> pyrow \<Rightarrow> string \<Rightarrow> string \<Rightarrow> string list \<Rightarrow> seconds \<Rightarrow> contract_db
     \<Rightarrow> contract_error + (contract_db \<times> string)" where
  "record_completion L work_id spec producer completed_ref refs t k =
     (let work = strip work_id; ref = strip completed_ref in
      if work = [] then Inl (Missing ''work_id'')
      else if ref = [] then Inl (Missing ''completed_ref'')
      else bindE (done_signal_identity L spec refs producer) (\<lambda>i.
        Inr (upsert_signal \<lparr>cs_sha = i, cs_work = work, cs_spec = JObj spec, cs_inputs = normalized_refs refs,
               cs_producer = strip producer, cs_ref = ref, cs_at = t, cs_dead = None, cs_why = None\<rparr> k, i)))"

definition lookup_signal :: "string \<Rightarrow> bool \<Rightarrow> contract_db \<Rightarrow> signal_row option" where
  "lookup_signal sha invalidated k =
     select_min (\<lambda>r. (cs_at r, cs_work r)) (\<lambda>r. cs_sha r = sha \<and> (invalidated \<or> cs_dead r = None)) (k_signals k)"

text \<open>The key is given, or computed from what was asked.\<close>

definition lookup_completion ::
  "lib \<Rightarrow> pyrow option \<Rightarrow> string list \<Rightarrow> string option \<Rightarrow> string option \<Rightarrow> bool \<Rightarrow> contract_db
     \<Rightarrow> contract_error + signal_row option" where
  "lookup_completion L spec refs producer sha invalidated k =
     bindE (case (sha, spec, producer) of
         (Some s, _, _) \<Rightarrow> Inr s
       | (None, Some sp, Some p) \<Rightarrow> done_signal_identity L sp refs p
       | _ \<Rightarrow> Inl (Missing ''signal_sha256 or (spec, producer_sha256)''))
       (\<lambda>s. Inr (lookup_signal s invalidated k))"

definition invalidate_completion ::
  "string \<Rightarrow> string \<Rightarrow> string option \<Rightarrow> seconds \<Rightarrow> contract_db \<Rightarrow> contract_error + (contract_db \<times> nat)" where
  "invalidate_completion sha reason work t k =
     (let why = strip reason;
          p = (\<lambda>r. cs_sha r = sha \<and> cs_dead r = None \<and> (case work of None \<Rightarrow> True | Some w \<Rightarrow> cs_work r = w))
      in if why = [] then Inl (Missing ''reason'')
         else Inr (k\<lparr>k_signals := upd_where p (\<lambda>r. r\<lparr>cs_dead := Some t, cs_why := Some why\<rparr>) (k_signals k)\<rparr>,
                   row_count p (k_signals k)))"

section \<open>Scopes\<close>

definition scope_kinds :: "string list" where
  "scope_kinds = [''path'', ''table'', ''service'']"

definition ungrantable_paths :: "string list" where
  "ungrantable_paths = [''.coordharness/runtime/current'', ''.coordharness/runtime/previous'', ''.coordharness/runtime/releases'']"

function drop_dot_slash :: "string \<Rightarrow> string" where
  "drop_dot_slash s = (if prefix ''./'' s then drop_dot_slash (drop 2 s) else s)"
  by pat_completeness auto
termination
  by (relation "measure length") (auto simp: prefix_def)

declare drop_dot_slash.simps [simp del]

definition slashes :: "string \<Rightarrow> string" where
  "slashes s = map (\<lambda>c. if c = CHR 0x5C then CHR ''/'' else c) s"

definition normalize_path_value :: "string \<Rightarrow> contract_error + string" where
  "normalize_path_value value =
     (let text = drop_dot_slash (slashes (strip value)); parts = path_components text in
      if ''..'' \<in> set parts then Inl (UpwardPath value)
      else Inr ((if prefix ''/'' text then ''/'' else []) @ join_with ''/'' parts))"

definition lstrip_slash :: "string \<Rightarrow> string" where
  "lstrip_slash s = dropWhile (\<lambda>c. c = CHR ''/'') s"

definition rstrip_slash :: "string \<Rightarrow> string" where
  "rstrip_slash s = rev (lstrip_slash (rev s))"

definition path_covers :: "string \<Rightarrow> string \<Rightarrow> bool" where
  "path_covers p q \<longleftrightarrow> p = q \<or> prefix (rstrip_slash p @ ''/'') q"

definition repo_relative :: "string \<Rightarrow> string \<Rightarrow> string" where
  "repo_relative base v = (if prefix base v then lstrip_slash (drop (length base) v) else lstrip_slash v)"

definition protected_path :: "string \<Rightarrow> string \<Rightarrow> bool" where
  "protected_path base v \<longleftrightarrow>
     (let probe = repo_relative base v in list_ex (\<lambda>x. path_covers probe x \<or> path_covers x probe) ungrantable_paths)"

text \<open>A scope is its kind and its value.\<close>

definition normalize_scope :: "string \<Rightarrow> string \<Rightarrow> string \<Rightarrow> contract_error + (string \<times> string)" where
  "normalize_scope base kind value =
     (let k = lower (strip kind); raw = strip value in
      if k \<notin> set scope_kinds then Inl (UnknownScopeKind kind)
      else if raw = [] then Inl (Missing k)
      else if k = ''path'' then
        bindE (normalize_path_value raw) (\<lambda>p.
          if rstrip_slash (lstrip_slash p) = [] then Inl (Ungrantable p)
          else if protected_path base p then Inl (Ungrantable p)
          else Inr (''path'', p))
      else Inr (k, lower raw))"

fun normalize_scopes :: "string \<Rightarrow> (string \<times> string) list \<Rightarrow> contract_error + (string \<times> string) list" where
  "normalize_scopes base [] = Inr []"
| "normalize_scopes base ((k, v) # ss) =
     bindE (normalize_scope base k v) (\<lambda>s. bindE (normalize_scopes base ss) (\<lambda>rest. Inr (s # rest)))"

text \<open>\<open>INSERT OR REPLACE\<close> on claim, kind and value.\<close>

definition replace_scope :: "scope_row \<Rightarrow> scope_row list \<Rightarrow> scope_row list" where
  "replace_scope r rs =
     filter (\<lambda>x. \<not> (sw_claim x = sw_claim r \<and> sw_kind x = sw_kind r \<and> sw_value x = sw_value r)) rs @ [r]"

definition declare_write_set ::
  "string \<Rightarrow> string \<Rightarrow> (string \<times> string) list \<Rightarrow> seconds \<Rightarrow> db \<Rightarrow> contract_db
     \<Rightarrow> contract_error + (contract_db \<times> (string \<times> string) list)" where
  "declare_write_set base claim_id scopes t d k =
     (let cid = strip claim_id in
      if cid = [] then Inl (Missing ''claim_id'')
      else case claimd d cid of
        None \<Rightarrow> Inl (UnknownClaim claim_id)
      | Some c \<Rightarrow> bindE (normalize_scopes base scopes) (\<lambda>ss.
          Inr (k\<lparr>k_scopes := foldl (\<lambda>rs (kind, v). replace_scope \<lparr>sw_claim = cid, sw_work = c_work c,
                   sw_session = c_session c, sw_kind = kind, sw_value = v, sw_at = t\<rparr> rs) (k_scopes k) ss\<rparr>, ss)))"

definition declared_write_set :: "bool \<Rightarrow> string \<Rightarrow> contract_db \<Rightarrow> (string \<times> string) list" where
  "declared_write_set readable claim_id k =
     (if \<not> readable then []
      else sort (map (\<lambda>r. (sw_kind r, sw_value r)) (filter (\<lambda>r. sw_claim r = claim_id) (k_scopes k))))"

section \<open>Collisions\<close>

record declared =
  dc_claim :: string
  dc_work :: string
  dc_session :: string
  dc_kind :: string
  dc_value :: string

record overlap_report =
  ov_findings :: "(declared \<times> declared) list"
  ov_scanned :: nat
  ov_undeclared :: "string list"
  ov_present :: bool

definition scopes_meet :: "string \<Rightarrow> string \<Rightarrow> string \<Rightarrow> bool" where
  "scopes_meet kind v w \<longleftrightarrow> (if kind = ''path'' then path_covers v w \<or> path_covers w v else v = w)"

definition collides :: "declared \<Rightarrow> declared \<Rightarrow> bool" where
  "collides a b \<longleftrightarrow> dc_claim a \<noteq> dc_claim b \<and> dc_session a \<noteq> dc_session b \<and> dc_kind a = dc_kind b \<and>
     scopes_meet (dc_kind a) (dc_value a) (dc_value b)"

fun collisions :: "declared list \<Rightarrow> (declared \<times> declared) list" where
  "collisions [] = []"
| "collisions (x # xs) = map (\<lambda>y. (x, y)) (filter (collides x) xs) @ collisions xs"

definition active_claims :: "bool \<Rightarrow> seconds \<Rightarrow> db \<Rightarrow> claim_row list" where
  "active_claims expired t d = sort_key c_id (filter (\<lambda>c. held c \<and> (expired \<or> t < c_expires c)) (d_claims d))"

definition declarations :: "contract_db \<Rightarrow> claim_row \<Rightarrow> declared list" where
  "declarations k c = map (\<lambda>(kind, v). \<lparr>dc_claim = c_id c, dc_work = c_work c, dc_session = c_session c, dc_kind = kind, dc_value = v\<rparr>)
     (declared_write_set True (c_id c) k)"

definition write_set_overlaps :: "bool \<Rightarrow> bool \<Rightarrow> seconds \<Rightarrow> db \<Rightarrow> contract_db \<Rightarrow> overlap_report" where
  "write_set_overlaps readable expired t d k =
     (if \<not> readable then \<lparr>ov_findings = [], ov_scanned = 0, ov_undeclared = [], ov_present = False\<rparr>
      else let active = active_claims expired t d in
        \<lparr>ov_findings = collisions (concat (map (declarations k) active)), ov_scanned = length active,
         ov_undeclared = map c_id (filter (\<lambda>c. declared_write_set True (c_id c) k = []) active), ov_present = True\<rparr>)"

section \<open>Children\<close>

definition held_claim_row :: "db \<Rightarrow> string \<Rightarrow> contract_error + claim_row" where
  "held_claim_row d i =
     (case claimd d i of
        None \<Rightarrow> Inl (UnclaimedFleet i)
      | Some c \<Rightarrow> if held c then Inr c else Inl (UnclaimedFleet i))"

definition record_child_attempt ::
  "string \<Rightarrow> string \<Rightarrow> string \<Rightarrow> string \<Rightarrow> string option \<Rightarrow> seconds \<Rightarrow> string option \<Rightarrow> db \<Rightarrow> contract_db
     \<Rightarrow> contract_error + (contract_db \<times> child_row)" where
  "record_child_attempt new_id claim_id child_label executed_by model t attempt d k =
     (let label = strip child_label; actor = strip executed_by in
      if label = [] then Inl (Missing ''child_label'')
      else if actor = [] then Inl (Missing ''executed_by'')
      else bindE (held_claim_row d claim_id) (\<lambda>c.
        let i = (if otext attempt = [] then new_id else otext attempt);
            row = \<lparr>kid_id = i, kid_claim = c_id c, kid_work = c_work c, kid_parent = c_session c, kid_label = label, kid_by = actor,
              kid_model = (case model of None \<Rightarrow> None | Some m \<Rightarrow> opt_text (strip m)), kid_at = t, kid_outcome = None,
              kid_outcome_ref = None, kid_outcome_at = None\<rparr>
        in if list_ex (\<lambda>x. kid_id x = i) (k_children k) then Inl (DuplicateAttempt i)
           else Inr (k\<lparr>k_children := k_children k @ [row]\<rparr>, row)))"

definition record_child_outcome ::
  "string \<Rightarrow> string \<Rightarrow> string option \<Rightarrow> seconds \<Rightarrow> contract_db \<Rightarrow> contract_error + (contract_db \<times> bool)" where
  "record_child_outcome attempt said ref t k =
     (let result = strip said; p = (\<lambda>x. kid_id x = attempt) in
      if result = [] then Inl (Missing ''outcome'')
      else Inr (k\<lparr>k_children := upd_where p
                  (\<lambda>x. x\<lparr>kid_outcome := Some result, kid_outcome_ref := ref, kid_outcome_at := Some t\<rparr>) (k_children k)\<rparr>,
                row_count p (k_children k) \<noteq> 0))"

definition child_attempts :: "string option \<Rightarrow> string option \<Rightarrow> bool \<Rightarrow> contract_db \<Rightarrow> child_row list" where
  "child_attempts work claim open_only k =
     sort_key (\<lambda>x. (kid_at x, kid_id x)) (filter (\<lambda>x.
       (case work of None \<Rightarrow> True | Some w \<Rightarrow> kid_work x = w) \<and> (case claim of None \<Rightarrow> True | Some c \<Rightarrow> kid_claim x = c) \<and>
       (open_only \<longrightarrow> kid_outcome x = None)) (k_children k))"

definition fleet_records_missing_model :: "string option \<Rightarrow> contract_db \<Rightarrow> child_row list" where
  "fleet_records_missing_model work k = filter (\<lambda>x. clean (kid_model x) = []) (child_attempts work None False k)"

end
