(* ===== verification/ContractsFacts.thy ===== *)
theory ContractsFacts
  imports Contracts Protocol
begin

text \<open>
  Facts of the work contracts: path scopes compare segment by segment, every collision of two sessions
  is found, a completion is found again under any spelling of its inputs, and what the tables say of a
  claim stays true of it whatever the board does next.
\<close>

section \<open>Splitting and joining\<close>

lemma split_on_append: "split_on c (x @ c # y) = split_on c x @ split_on c y"
proof (induction x)
  case (Cons a x)
  obtain h t where "split_on c x = h # t" by (cases "split_on c x") auto
  with Cons show ?case by auto
qed simp

lemma split_on_whole: "c \<notin> set s \<Longrightarrow> split_on c s = [s]"
  by (induction s) auto

lemma split_on_join:
  assumes "ps \<noteq> []" "\<forall>p \<in> set ps. c \<notin> set p"
  shows "split_on c (join_with [c] ps) = ps"
  using assms by (induction ps rule: induct_list012) (auto simp: split_on_whole split_on_append)

lemma join_with_append:
  assumes "ps \<noteq> []" "qs \<noteq> []"
  shows "join_with sep (ps @ qs) = join_with sep ps @ sep @ join_with sep qs"
  using assms
proof (induction ps rule: induct_list012)
  case (2 x)
  then show ?case by (cases qs) auto
qed auto

section \<open>Paths\<close>

text \<open>A clean path: its segments are named, and it ends in one.\<close>

definition segments_ok :: "string list \<Rightarrow> bool" where
  "segments_ok ps \<longleftrightarrow> (\<forall>p \<in> set ps. p \<noteq> [] \<and> p \<noteq> ''.'' \<and> p \<noteq> ''..'' \<and> CHR ''/'' \<notin> set p)"

definition path_of :: "bool \<Rightarrow> string list \<Rightarrow> string" where
  "path_of rooted ps = (if rooted then ''/'' else []) @ join_with ''/'' ps"

lemma components_path_of:
  assumes "segments_ok ps"
  shows "path_components (path_of a ps) = ps"
proof -
  have f: "filter (\<lambda>c. c \<noteq> [] \<and> c \<noteq> ''.'') ps = ps" using assms by (auto simp: segments_ok_def filter_id_conv)
  show ?thesis
  proof (cases "ps = []")
    case False
    then have "split_on CHR ''/'' (join_with ''/'' ps) = ps" using assms by (intro split_on_join) (auto simp: segments_ok_def)
    with f show ?thesis by (simp add: path_of_def path_components_def)
  qed (simp add: path_of_def path_components_def)
qed

lemma join_first:
  assumes "segments_ok ps" "ps \<noteq> []"
  shows "join_with ''/'' ps \<noteq> [] \<and> hd (join_with ''/'' ps) \<noteq> CHR ''/'' \<and>
         last (join_with ''/'' ps) \<noteq> CHR ''/''"
  using assms
proof (induction ps rule: induct_list012)
  case (2 x)
  then show ?case by (metis hd_in_set join_with.simps(2) last_in_set list.set_intros(1) segments_ok_def)
next
  case (3 x y zs)
  have x: "x \<noteq> [] \<and> CHR ''/'' \<notin> set x" and r: "segments_ok (y # zs)" using 3(3) by (auto simp: segments_ok_def)
  have "join_with ''/'' (y # zs) \<noteq> [] \<and> last (join_with ''/'' (y # zs)) \<noteq> CHR ''/''" using 3(2) r by simp
  moreover have "hd x \<noteq> CHR ''/''" using x by (metis hd_in_set)
  ultimately show ?case using x by simp
qed simp

lemma absolute_path_of: "segments_ok ps \<Longrightarrow> ps \<noteq> [] \<Longrightarrow> prefix ''/'' (path_of a ps) = a"
  using join_first [of ps] by (cases "join_with ''/'' ps") (auto simp: path_of_def)

lemma rstrip_slash_id: "s \<noteq> [] \<Longrightarrow> last s \<noteq> CHR ''/'' \<Longrightarrow> rstrip_slash s = s"
  by (cases s rule: rev_cases) (auto simp: rstrip_slash_def lstrip_slash_def)

lemma rstrip_path_of: "segments_ok ps \<Longrightarrow> ps \<noteq> [] \<Longrightarrow> rstrip_slash (path_of a ps) = path_of a ps"
  using join_first [of ps] by (intro rstrip_slash_id) (auto simp: path_of_def)

lemma same_root: "prefix s t \<Longrightarrow> s \<noteq> [] \<Longrightarrow> prefix ''/'' s = prefix ''/'' t"
  by (cases s) (auto simp: prefix_def)

lemma path_covers_segments:
  assumes "segments_ok ps" "ps \<noteq> []" "segments_ok qs" "qs \<noteq> []"
  shows "path_covers (path_of a ps) (path_of b qs) \<longleftrightarrow> a = b \<and> prefix ps qs"
proof
  assume c: "path_covers (path_of a ps) (path_of b qs)"
  have "prefix (path_of a ps) (path_of b qs)"
    using c by (auto simp: path_covers_def prefix_def rstrip_path_of [OF assms(1,2)])
  moreover have "path_of a ps \<noteq> []" using join_first [OF assms(1,2)] by (simp add: path_of_def)
  ultimately have ab: "a = b"
    using same_root absolute_path_of [OF assms(1,2)] absolute_path_of [OF assms(3,4)] by metis
  have "ps = qs" if "path_of a ps = path_of a qs"
    using that components_path_of assms(1,3) by metis
  moreover have "prefix ps qs" if "join_with ''/'' qs = join_with ''/'' ps @ CHR ''/'' # y" for y
  proof -
    have "split_on CHR ''/'' (join_with ''/'' qs) = split_on CHR ''/'' (join_with ''/'' ps) @ split_on CHR ''/'' y"
      unfolding that by (rule split_on_append)
    moreover have "split_on CHR ''/'' (join_with ''/'' qs) = qs" "split_on CHR ''/'' (join_with ''/'' ps) = ps"
      using assms by (intro split_on_join; auto simp: segments_ok_def)+
    ultimately show ?thesis by simp
  qed
  moreover have "path_of a ps = path_of a qs \<or> (\<exists>y. join_with ''/'' qs = join_with ''/'' ps @ CHR ''/'' # y)"
    using c unfolding path_covers_def rstrip_path_of [OF assms(1,2)] ab prefix_def
    by (auto simp: path_of_def split: if_splits)
  ultimately show "a = b \<and> prefix ps qs" using ab by auto
next
  assume r: "a = b \<and> prefix ps qs"
  then obtain zs where "qs = ps @ zs" by (auto simp: prefix_def)
  with r assms(2) show "path_covers (path_of a ps) (path_of b qs)"
    by (cases "zs = []") (auto simp: path_covers_def path_of_def rstrip_path_of [OF assms(1,2), unfolded path_of_def] join_with_append)
qed

section \<open>Granted scopes\<close>

lemma normalized_path:
  assumes "normalize_path_value v = Inr p"
  obtains a ps where "p = path_of a ps" "segments_ok ps"
proof -
  let ?t = "drop_dot_slash (slashes (strip v))"
  have "''..'' \<notin> set (path_components ?t)" "p = path_of (prefix ''/'' ?t) (path_components ?t)"
    using assms by (auto simp: normalize_path_value_def Let_def path_of_def split: if_splits)
  moreover from this(1) have "segments_ok (path_components ?t)"
    by (auto simp: segments_ok_def path_components_def dest: split_on_no_sep)
  ultimately show thesis using that by blast
qed

lemma granted_path:
  assumes "normalize_scope base kind v = Inr (''path'', p)"
  obtains a ps where "p = path_of a ps" "segments_ok ps" "ps \<noteq> []" "\<not> protected_path base p"
proof -
  have n: "normalize_path_value (strip v) = Inr p" "rstrip_slash (lstrip_slash p) \<noteq> []" "\<not> protected_path base p"
    using assms by (auto simp: normalize_scope_def Let_def bindE_Inr_iff split: if_splits)
  obtain a ps where p: "p = path_of a ps" "segments_ok ps" using normalized_path [OF n(1)] .
  have "ps \<noteq> []" using n(2) p(1) by (cases a) (auto simp: path_of_def lstrip_slash_def rstrip_slash_def)
  with p n(3) that show thesis by blast
qed

lemma granted_kind: "normalize_scope base kind v = Inr (k, p) \<Longrightarrow> k \<in> set scope_kinds"
  by (auto simp: normalize_scope_def Let_def bindE_Inr_iff split: if_splits)

text \<open>A granted scope below the root overlaps no protected path, segment by segment.\<close>

lemma ungrantable_paths_clean: "x \<in> set ungrantable_paths \<Longrightarrow>
    x = path_of False (path_components x) \<and> segments_ok (path_components x) \<and> path_components x \<noteq> []"
  by (auto simp: ungrantable_paths_def path_of_def segments_ok_def path_components_def)

definition segments_meet :: "string list \<Rightarrow> string list \<Rightarrow> bool" where
  "segments_meet ps qs \<longleftrightarrow> prefix ps qs \<or> prefix qs ps"

lemma granted_apart:
  assumes g: "normalize_scope base kind v = Inr (''path'', p)" and "prefix ''/'' base" "\<not> prefix ''/'' p"
    and x: "x \<in> set ungrantable_paths"
  shows "\<not> segments_meet (path_components p) (path_components x)"
proof -
  obtain a ps where p: "p = path_of a ps" "segments_ok ps" "ps \<noteq> []" "\<not> protected_path base p" using granted_path [OF g] .
  have a: "\<not> a" using absolute_path_of [OF p(2,3), of a] assms(3) p(1) by simp
  have "\<not> prefix base p" using assms(2,3) prefix_order.trans by blast
  moreover have "lstrip_slash p = p" using assms(3) by (cases p) (auto simp: lstrip_slash_def)
  ultimately have "\<not> path_covers p x \<and> \<not> path_covers x p"
    using p(4) x by (simp add: protected_path_def repo_relative_def list_ex_iff)
  then show ?thesis
    using ungrantable_paths_clean [OF x] path_covers_segments [OF p(2,3)] path_covers_segments [OF _ _ p(2,3)] p(1) a
    by (metis components_path_of p(2) segments_meet_def)
qed

text \<open>The root itself, named by its absolute path, is granted, although the protected paths lie in it.\<close>

lemma root_is_granted:
  assumes base: "base = path_of True ps" "segments_ok ps" "ps \<noteq> []" "normalize_path_value base = Inr base" "strip base = base"
  shows "normalize_scope base ''path'' base = Inr (''path'', base)"
    and "x \<in> set ungrantable_paths \<Longrightarrow> path_covers base (base @ ''/'' @ x)"
proof -
  have r: "rstrip_slash base = base" using rstrip_path_of base by simp
  have l: "lstrip_slash base = join_with ''/'' ps" "join_with ''/'' ps \<noteq> []" "last (join_with ''/'' ps) \<noteq> CHR ''/''"
    using join_first [OF base(2,3)] base(1) by (auto simp: path_of_def lstrip_slash_def dropWhile_eq_self_iff)
  have "repo_relative base base = []" by (simp add: repo_relative_def lstrip_slash_def)
  then have "\<not> protected_path base base"
    by (simp add: protected_path_def path_covers_def ungrantable_paths_def rstrip_slash_def lstrip_slash_def)
  moreover have "base \<noteq> []" using base(1) by (simp add: path_of_def)
  moreover have "lower (strip ''path'') = ''path''" by code_simp
  ultimately show "normalize_scope base ''path'' base = Inr (''path'', base)"
    using base(4,5) l by (simp add: normalize_scope_def scope_kinds_def rstrip_slash_id)
  show "path_covers base (base @ ''/'' @ x)" by (simp add: path_covers_def r)
qed

section \<open>Collisions\<close>

lemma path_covers_components:
  assumes "normalize_scope base k v = Inr (''path'', p)" "normalize_scope base k' v' = Inr (''path'', q)"
  shows "path_covers p q \<longleftrightarrow> prefix ''/'' p = prefix ''/'' q \<and> prefix (path_components p) (path_components q)"
proof -
  obtain a ps where p: "p = path_of a ps" "segments_ok ps" "ps \<noteq> []" using granted_path [OF assms(1)] .
  obtain b qs where q: "q = path_of b qs" "segments_ok qs" "qs \<noteq> []" using granted_path [OF assms(2)] .
  show ?thesis using path_covers_segments [OF p(2,3) q(2,3)] p q components_path_of absolute_path_of by metis
qed

text \<open>What it means that two scopes of a kind overlap.\<close>

definition scopes_overlap :: "string \<Rightarrow> string \<Rightarrow> string \<Rightarrow> bool" where
  "scopes_overlap kind v w \<longleftrightarrow>
     (if kind = ''path'' then prefix ''/'' v = prefix ''/'' w \<and> segments_meet (path_components v) (path_components w)
      else v = w)"

lemma scopes_meet_overlap:
  assumes "normalize_scope base k v = Inr (kind, p)" "normalize_scope base k' v' = Inr (kind, q)"
  shows "scopes_meet kind p q \<longleftrightarrow> scopes_overlap kind p q"
  using path_covers_components [of base k v p k' v' q] path_covers_components [of base k' v' q k v p] assms
  by (auto simp: scopes_meet_def scopes_overlap_def segments_meet_def)

lemma collides_sym: "collides a b \<longleftrightarrow> collides b a"
  by (auto simp: collides_def scopes_meet_def)

lemma collisions_exact: "(a, b) \<in> set (collisions xs) \<or> (b, a) \<in> set (collisions xs) \<longleftrightarrow>
    a \<in> set xs \<and> b \<in> set xs \<and> collides a b"
proof (induction xs)
  case (Cons x xs)
  have "\<not> collides x x" by (simp add: collides_def)
  then show ?case
    using Cons.IH collides_sym [of a x] collides_sym [of b x] collides_sym [of a b] by auto
qed simp

section \<open>Completions\<close>

text \<open>A completion is filed under what it says.\<close>

definition identity_of :: "lib \<Rightarrow> json \<Rightarrow> string list \<Rightarrow> string \<Rightarrow> string" where
  "identity_of L spec inputs who = digest L (JObj [(''input_refs'', JList (map JStr inputs)),
     (''producer_sha256'', JStr who), (''spec'', spec)])"

definition signal_keyed :: "lib \<Rightarrow> signal_row \<Rightarrow> bool" where
  "signal_keyed L r \<longleftrightarrow> cs_sha r = identity_of L (cs_spec r) (cs_inputs r) (cs_producer r)"

lemma done_signal_identity_eq: "done_signal_identity L spec refs who = Inr i \<longleftrightarrow>
    strip who \<noteq> [] \<and> i = identity_of L (JObj spec) (normalized_refs refs) (strip who)"
  by (auto simp: done_signal_identity_def identity_of_def Let_def)

lemma normalized_refs_cong: "set (map strip rs) - {[]} = set (map strip qs) - {[]} \<Longrightarrow> normalized_refs rs = normalized_refs qs"
proof -
  have *: "normalized_refs rs = sorted_list_of_set (set (map strip rs) - {[]})" for rs
    by (auto simp: normalized_refs_def sorted_list_of_set_sort_remdups [symmetric] intro!: arg_cong [of _ _ sorted_list_of_set])
  show "set (map strip rs) - {[]} = set (map strip qs) - {[]} \<Longrightarrow> ?thesis" by (simp only: *)
qed

lemma record_completion_Inr:
  assumes "record_completion L w spec who ref refs t k = Inr (k', i)"
  obtains r where "k' = upsert_signal r k" "cs_sha r = i" "cs_work r = strip w" "cs_at r = t" "cs_dead r = None" "cs_why r = None"
    "cs_ref r = strip ref" "strip w \<noteq> []" "strip ref \<noteq> []"
    "done_signal_identity L spec refs who = Inr i" "signal_keyed L r"
  using assms by (force simp: record_completion_def Let_def bindE_Inr_iff signal_keyed_def done_signal_identity_eq split: if_splits)

lemma upsert_signal_live:
  "\<exists>x \<in> set (k_signals (upsert_signal r k)). cs_sha x = cs_sha r \<and> cs_work x = cs_work r \<and> cs_at x = cs_at r \<and>
     cs_ref x = cs_ref r \<and> (cs_dead r = None \<longrightarrow> cs_dead x = None)"
proof (cases "list_ex (\<lambda>x. cs_sha x = cs_sha r \<and> cs_work x = cs_work r) (k_signals k)")
  case True
  then obtain x where x: "x \<in> set (k_signals k)" "cs_sha x = cs_sha r" "cs_work x = cs_work r" by (auto simp: list_ex_iff)
  let ?x = "x\<lparr>cs_ref := cs_ref r, cs_at := cs_at r, cs_dead := None, cs_why := None\<rparr>"
  have "?x \<in> set (k_signals (upsert_signal r k))" using True x by (auto simp: upsert_signal_def set_upd_where)
  then show ?thesis using x(2,3) by (intro bexI [of _ ?x]) simp_all
next
  case False
  then show ?thesis by (simp add: upsert_signal_def)
qed

lemma lookup_signal_live:
  assumes "x \<in> set (k_signals k)" "cs_dead x = None"
  shows "\<exists>r. lookup_signal (cs_sha x) False k = Some r \<and> cs_sha r = cs_sha x \<and> cs_dead r = None \<and> (cs_at r, cs_work r) \<le> (cs_at x, cs_work x)"
proof -
  let ?p = "\<lambda>r. cs_sha r = cs_sha x \<and> (False \<or> cs_dead r = None)"
  have "lookup_signal (cs_sha x) False k \<noteq> None" using assms unfolding lookup_signal_def select_min_None by blast
  then obtain r where r: "lookup_signal (cs_sha x) False k = Some r" by blast
  from select_min_SomeD [OF r [unfolded lookup_signal_def]] select_min_le [OF r [unfolded lookup_signal_def] assms(1)] r assms(2)
  show ?thesis by auto
qed

lemma recorded_live:
  assumes "record_completion L w spec who ref refs t k = Inr (k', i)"
  shows "\<exists>x \<in> set (k_signals k'). cs_sha x = i \<and> cs_work x = strip w \<and> cs_at x = t \<and> cs_dead x = None"
  using record_completion_Inr [OF assms] upsert_signal_live by metis

lemma completion_found:
  assumes "record_completion L w spec who ref refs t k = Inr (k', i)"
    and "set (map strip refs') - {[]} = set (map strip refs) - {[]}" "strip who' = strip who"
  shows "\<exists>r. lookup_completion L (Some spec) refs' (Some who') None False k' = Inr (Some r) \<and> cs_sha r = i \<and>
    cs_dead r = None \<and> (cs_at r, cs_work r) \<le> (t, strip w)"
proof -
  have "done_signal_identity L spec refs who = Inr i" using record_completion_Inr [OF assms(1)] by metis
  then have i: "done_signal_identity L spec refs' who' = Inr i"
    unfolding done_signal_identity_eq normalized_refs_cong [OF assms(2)] assms(3) .
  obtain x where x: "x \<in> set (k_signals k')" "cs_sha x = i" "cs_work x = strip w" "cs_at x = t" "cs_dead x = None"
    using recorded_live [OF assms(1)] by blast
  show ?thesis using lookup_signal_live [OF x(1,5)] x(2-4) i by (simp add: lookup_completion_def)
qed

lemma upd_where_hit: "x \<in> set xs \<Longrightarrow> p x \<Longrightarrow> f x \<in> set (upd_where p f xs)"
  by (auto simp: set_upd_where)

lemma upd_where_cases: "y \<in> set (upd_where p f xs) \<Longrightarrow> (\<exists>x \<in> set xs. p x \<and> y = f x) \<or> y \<in> set xs \<and> \<not> p y"
  by (auto simp: set_upd_where)

text \<open>A completion that is found under what was asked says the same.\<close>

lemma found_is_asked:
  assumes "\<forall>r \<in> set (k_signals k). signal_keyed L r" "lookup_completion L (Some spec) refs (Some who) None dead k = Inr (Some r)"
  shows "identity_of L (cs_spec r) (cs_inputs r) (cs_producer r) = identity_of L (JObj spec) (normalized_refs refs) (strip who)"
proof -
  obtain i where i: "done_signal_identity L spec refs who = Inr i" "lookup_signal i dead k = Some r"
    using assms(2) by (auto simp: lookup_completion_def bindE_Inr_iff)
  from select_min_SomeD [OF i(2) [unfolded lookup_signal_def]] have "r \<in> set (k_signals k)" "cs_sha r = i" by auto
  with assms(1) i(1) show ?thesis by (auto simp: signal_keyed_def done_signal_identity_eq)
qed

lemma invalidated_hidden:
  assumes "strip why \<noteq> []" "x \<in> set (k_signals k)" "cs_sha x = i" "cs_dead x = None"
  obtains k' n where "invalidate_completion i why None t k = Inr (k', n)" "0 < n" "lookup_signal i False k' = None"
    "lookup_signal i True k' \<noteq> None"
proof -
  let ?p = "\<lambda>r. cs_sha r = i \<and> cs_dead r = None"
  let ?k = "k\<lparr>k_signals := upd_where ?p (\<lambda>r. r\<lparr>cs_dead := Some t, cs_why := Some (strip why)\<rparr>) (k_signals k)\<rparr>"
  have 1: "invalidate_completion i why None t k = Inr (?k, row_count ?p (k_signals k))"
    using assms(1) by (simp add: invalidate_completion_def Let_def)
  have 2: "0 < row_count ?p (k_signals k)" using assms(2-4) by (auto simp: row_count_def filter_empty_conv)
  have "\<not> (cs_sha y = i \<and> cs_dead y = None)"
    if "y \<in> set (upd_where ?p (\<lambda>r. r\<lparr>cs_dead := Some t, cs_why := Some (strip why)\<rparr>) (k_signals k))" for y
    using upd_where_cases [OF that] by (elim disjE bexE conjE) simp_all
  then have 3: "lookup_signal i False ?k = None" unfolding lookup_signal_def select_min_None by simp
  have "x\<lparr>cs_dead := Some t, cs_why := Some (strip why)\<rparr> \<in> set (k_signals ?k)"
    using upd_where_hit [OF assms(2), of ?p] assms(3,4) by simp
  then have 4: "lookup_signal i True ?k \<noteq> None" unfolding lookup_signal_def select_min_None using assms(3) by force
  show thesis using that [OF 1 2 3 4] .
qed

section \<open>The tables beside the board\<close>

definition empty_contracts :: contract_db where
  "empty_contracts = \<lparr>k_signals = [], k_scopes = [], k_children = []\<rparr>"

text \<open>The board moves on, or a contract is written.\<close>

inductive contract_steps :: "lib \<Rightarrow> string list \<Rightarrow> string \<Rightarrow> db \<times> contract_db \<Rightarrow> bool" for L lanes base where
  start: "wf_db d \<Longrightarrow> contract_steps L lanes base (d, empty_contracts)"
| board: "contract_steps L lanes base (d, k) \<Longrightarrow> protocol_step L lanes d d' \<Longrightarrow> contract_steps L lanes base (d', k)"
| completion: "contract_steps L lanes base (d, k) \<Longrightarrow> record_completion L w spec who ref refs t k = Inr (k', i) \<Longrightarrow>
    contract_steps L lanes base (d, k')"
| invalidation: "contract_steps L lanes base (d, k) \<Longrightarrow> invalidate_completion i why work t k = Inr (k', n) \<Longrightarrow>
    contract_steps L lanes base (d, k')"
| write_set: "contract_steps L lanes base (d, k) \<Longrightarrow> declare_write_set base cid scopes t d k = Inr (k', ss) \<Longrightarrow>
    contract_steps L lanes base (d, k')"
| child: "contract_steps L lanes base (d, k) \<Longrightarrow> record_child_attempt i cid label actor model t attempt d k = Inr (k', c) \<Longrightarrow>
    contract_steps L lanes base (d, k')"
| verdict: "contract_steps L lanes base (d, k) \<Longrightarrow> record_child_outcome i result ref t k = Inr (k', ok) \<Longrightarrow>
    contract_steps L lanes base (d, k')"

text \<open>What a row says of its claim is what the claims table says.\<close>

definition of_claim :: "db \<Rightarrow> string \<Rightarrow> string \<Rightarrow> string \<Rightarrow> bool" where
  "of_claim d cid work sid \<longleftrightarrow> (\<exists>c \<in> set (d_claims d). c_id c = cid \<and> c_work c = work \<and> c_session c = sid)"

definition scope_ok :: "string \<Rightarrow> db \<Rightarrow> scope_row \<Rightarrow> bool" where
  "scope_ok base d r \<longleftrightarrow> of_claim d (sw_claim r) (sw_work r) (sw_session r) \<and>
     (\<exists>kind v. normalize_scope base kind v = Inr (sw_kind r, sw_value r))"

definition child_ok :: "db \<Rightarrow> child_row \<Rightarrow> bool" where
  "child_ok d x \<longleftrightarrow> of_claim d (kid_claim x) (kid_work x) (kid_parent x) \<and> kid_label x \<noteq> [] \<and> kid_by x \<noteq> [] \<and>
     kid_model x \<noteq> Some []"

definition contracts_ok :: "lib \<Rightarrow> string \<Rightarrow> db \<Rightarrow> contract_db \<Rightarrow> bool" where
  "contracts_ok L base d k \<longleftrightarrow> wf_db d \<and>
     (\<forall>r \<in> set (k_signals k). signal_keyed L r) \<and> distinct (map (\<lambda>r. (cs_sha r, cs_work r)) (k_signals k)) \<and>
     (\<forall>r \<in> set (k_scopes k). scope_ok base d r) \<and> distinct (map (\<lambda>r. (sw_claim r, sw_kind r, sw_value r)) (k_scopes k)) \<and>
     (\<forall>x \<in> set (k_children k). child_ok d x) \<and> distinct (map kid_id (k_children k))"

lemma of_claim_kept: "of_claim d cid work sid \<Longrightarrow> kept d d' \<Longrightarrow> of_claim d' cid work sid"
proof -
  assume o: "of_claim d cid work sid" and "kept d d'"
  then have g: "grows claim_kept (d_claims d) (d_claims d')" by (simp add: kept_def)
  from o obtain c where c: "c \<in> set (d_claims d)" "c_id c = cid" "c_work c = work" "c_session c = sid" by (auto simp: of_claim_def)
  obtain c' where "c' \<in> set (d_claims d')" "claim_kept c c'" using growsD [OF g c(1)] by blast
  then show "of_claim d' cid work sid" using c(2-4) by (auto simp: of_claim_def claim_kept_def)
qed

lemma contracts_ok_board: "contracts_ok L base d k \<Longrightarrow> protocol_step L lanes d d' \<Longrightarrow> contracts_ok L base d' k"
  using protocol_step_keeps of_claim_kept unfolding contracts_ok_def scope_ok_def child_ok_def by blast

lemma distinct_upd_where: "(\<And>x. g (f x) = g x) \<Longrightarrow> distinct (map g xs) \<Longrightarrow> distinct (map g (upd_where p f xs))"
  by (simp add: map_key_upd_where)

lemma upd_where_all: "(\<And>x. x \<in> set xs \<Longrightarrow> P x) \<Longrightarrow> (\<And>x. P x \<Longrightarrow> P (f x)) \<Longrightarrow> y \<in> set (upd_where p f xs) \<Longrightarrow> P y"
  using upd_where_cases [of y p f xs] by auto

lemma contracts_ok_upsert:
  assumes "contracts_ok L base d k" "signal_keyed L r"
  shows "contracts_ok L base d (upsert_signal r k)"
proof (cases "list_ex (\<lambda>x. cs_sha x = cs_sha r \<and> cs_work x = cs_work r) (k_signals k)")
  case True
  let ?u = "upd_where (\<lambda>x. cs_sha x = cs_sha r \<and> cs_work x = cs_work r)
    (\<lambda>x. x\<lparr>cs_ref := cs_ref r, cs_at := cs_at r, cs_dead := None, cs_why := None\<rparr>) (k_signals k)"
  have "signal_keyed L y" if "y \<in> set ?u" for y
    using assms(1) by (intro upd_where_all [where P = "signal_keyed L", OF _ _ that]) (simp_all add: contracts_ok_def signal_keyed_def)
  moreover have "distinct (map (\<lambda>r. (cs_sha r, cs_work r)) ?u)"
    using assms(1) by (intro distinct_upd_where) (auto simp: contracts_ok_def)
  ultimately show ?thesis using assms(1) True by (simp add: contracts_ok_def upsert_signal_def)
next
  case False
  then have "(cs_sha r, cs_work r) \<notin> (\<lambda>r. (cs_sha r, cs_work r)) ` set (k_signals k)" by (auto simp: list_ex_iff)
  with False show ?thesis using assms by (simp add: contracts_ok_def upsert_signal_def)
qed

lemma contracts_ok_invalidate:
  assumes "contracts_ok L base d k" "invalidate_completion i why work t k = Inr (k', n)"
  shows "contracts_ok L base d k'"
proof -
  let ?p = "\<lambda>r. cs_sha r = i \<and> cs_dead r = None \<and> (case work of None \<Rightarrow> True | Some w \<Rightarrow> cs_work r = w)"
  have k': "k' = k\<lparr>k_signals := upd_where ?p (\<lambda>r. r\<lparr>cs_dead := Some t, cs_why := Some (strip why)\<rparr>) (k_signals k)\<rparr>"
    using assms(2) by (simp add: invalidate_completion_def Let_def split: if_splits)
  have "signal_keyed L y" if "y \<in> set (k_signals k')" for y
    using assms(1) by (intro upd_where_all [where P = "signal_keyed L", OF _ _ that [unfolded k', simplified]])
      (simp_all add: contracts_ok_def signal_keyed_def)
  moreover have "distinct (map (\<lambda>r. (cs_sha r, cs_work r)) (k_signals k'))"
    unfolding k' using assms(1) by (simp add: map_key_upd_where contracts_ok_def)
  ultimately show ?thesis using assms(1) by (simp add: contracts_ok_def k')
qed

lemma replace_scope_ok:
  assumes "\<forall>r \<in> set rs. scope_ok base d r" "distinct (map (\<lambda>r. (sw_claim r, sw_kind r, sw_value r)) rs)" "scope_ok base d x"
  shows "(\<forall>r \<in> set (replace_scope x rs). scope_ok base d r) \<and>
    distinct (map (\<lambda>r. (sw_claim r, sw_kind r, sw_value r)) (replace_scope x rs))"
  using assms by (auto simp: replace_scope_def distinct_map_filter)

lemma normalize_scopes_ok:
  "normalize_scopes base scopes = Inr ss \<Longrightarrow> (kind, v) \<in> set ss \<Longrightarrow> \<exists>k' v'. normalize_scope base k' v' = Inr (kind, v)"
proof (induction base scopes arbitrary: ss rule: normalize_scopes.induct)
  case (2 base k v scopes)
  then obtain s rest where "normalize_scope base k v = Inr s" "normalize_scopes base scopes = Inr rest" "ss = s # rest"
    by (auto simp: bindE_Inr_iff)
  with 2 show ?case by auto
qed simp

lemma replace_scopes_ok:
  assumes "\<And>kind v. (kind, v) \<in> set ss \<Longrightarrow> scope_ok base d (f kind v)"
    and "\<forall>r \<in> set rs. scope_ok base d r" "distinct (map (\<lambda>r. (sw_claim r, sw_kind r, sw_value r)) rs)"
  shows "(\<forall>r \<in> set (foldl (\<lambda>rs (kind, v). replace_scope (f kind v) rs) rs ss). scope_ok base d r) \<and>
    distinct (map (\<lambda>r. (sw_claim r, sw_kind r, sw_value r)) (foldl (\<lambda>rs (kind, v). replace_scope (f kind v) rs) rs ss))"
  using assms
proof (induction ss arbitrary: rs)
  case (Cons s ss)
  obtain kind v where s: "s = (kind, v)" by (cases s)
  have "scope_ok base d (f kind v)" using Cons.prems(1) s by simp
  from replace_scope_ok [OF Cons.prems(2,3) this]
  have "\<forall>r \<in> set (replace_scope (f kind v) rs). scope_ok base d r"
    "distinct (map (\<lambda>r. (sw_claim r, sw_kind r, sw_value r)) (replace_scope (f kind v) rs))" by blast+
  from Cons.IH [OF _ this] Cons.prems(1) show ?case unfolding s by simp
qed simp

lemma contracts_written: "k_scopes (k\<lparr>k_scopes := rs\<rparr>) = rs"
  by simp

lemma contracts_ok_declare:
  assumes ok: "contracts_ok L base d k" and "declare_write_set base cid scopes t d k = Inr (k', ss)"
  shows "contracts_ok L base d k'"
proof -
  obtain c where c: "claimd d (strip cid) = Some c" "normalize_scopes base scopes = Inr ss"
      "k' = k\<lparr>k_scopes := foldl (\<lambda>rs (kind, v). replace_scope \<lparr>sw_claim = strip cid, sw_work = c_work c,
                   sw_session = c_session c, sw_kind = kind, sw_value = v, sw_at = t\<rparr> rs) (k_scopes k) ss\<rparr>"
    using assms(2) by (auto simp: declare_write_set_def Let_def bindE_Inr_iff split: if_splits option.splits)
  let ?f = "\<lambda>kind v. \<lparr>sw_claim = strip cid, sw_work = c_work c, sw_session = c_session c, sw_kind = kind, sw_value = v, sw_at = t\<rparr>"
  have "scope_ok base d (?f kind v)" if "(kind, v) \<in> set ss" for kind v
    using claimd_SomeD [OF c(1)] normalize_scopes_ok [OF c(2) that] by (auto simp: scope_ok_def of_claim_def)
  moreover have "\<forall>r \<in> set (k_scopes k). scope_ok base d r" "distinct (map (\<lambda>r. (sw_claim r, sw_kind r, sw_value r)) (k_scopes k))"
    using ok by (simp_all add: contracts_ok_def)
  ultimately have "(\<forall>r \<in> set (k_scopes k'). scope_ok base d r) \<and>
      distinct (map (\<lambda>r. (sw_claim r, sw_kind r, sw_value r)) (k_scopes k'))"
    unfolding c(3) contracts_written by (rule replace_scopes_ok)
  then show ?thesis using ok unfolding contracts_ok_def c(3) by simp
qed

lemma opt_text_not_blank: "opt_text s \<noteq> Some []"
  by (simp add: opt_text_def)

lemma contracts_ok_child:
  assumes ok: "contracts_ok L base d k" and "record_child_attempt i cid label actor model t attempt d k = Inr (k', x)"
  shows "contracts_ok L base d k'"
proof -
  have x: "strip label \<noteq> []" "strip actor \<noteq> []" "k' = k\<lparr>k_children := k_children k @ [x]\<rparr>" "\<not> list_ex (\<lambda>y. kid_id y = kid_id x) (k_children k)"
      "\<exists>c. held_claim_row d cid = Inr c \<and> kid_claim x = c_id c \<and> kid_work x = c_work c \<and> kid_parent x = c_session c"
      "kid_label x = strip label" "kid_by x = strip actor" "kid_model x \<noteq> Some []"
    using assms(2) opt_text_not_blank
    by (auto simp: record_child_attempt_def Let_def bindE_Inr_iff split: if_splits option.splits)
  then have "of_claim d (kid_claim x) (kid_work x) (kid_parent x)"
    by (auto simp: held_claim_row_def of_claim_def split: option.splits if_splits dest: claimd_SomeD)
  then have "child_ok d x" using x by (simp add: child_ok_def)
  then show ?thesis using ok x(3,4) by (auto simp: contracts_ok_def list_ex_iff)
qed

lemma contracts_ok_outcome:
  assumes ok: "contracts_ok L base d k" and "record_child_outcome i result ref t k = Inr (k', b)"
  shows "contracts_ok L base d k'"
proof -
  have k': "k' = k\<lparr>k_children := upd_where (\<lambda>x. kid_id x = i)
      (\<lambda>x. x\<lparr>kid_outcome := Some (strip result), kid_outcome_ref := ref, kid_outcome_at := Some t\<rparr>) (k_children k)\<rparr>"
    using assms(2) by (simp add: record_child_outcome_def Let_def split: if_splits)
  have "child_ok d y" if "y \<in> set (k_children k')" for y
    using ok by (intro upd_where_all [where P = "child_ok d", OF _ _ that [unfolded k', simplified]])
      (simp_all add: contracts_ok_def child_ok_def)
  moreover have "distinct (map kid_id (k_children k'))"
    unfolding k' using ok by (simp add: map_key_upd_where contracts_ok_def)
  ultimately show ?thesis using ok by (simp add: contracts_ok_def k')
qed

lemma contract_steps_ok: "contract_steps L lanes base s \<Longrightarrow> contracts_ok L base (fst s) (snd s)"
proof (induction rule: contract_steps.induct)
  case (start d)
  then show ?case by (simp add: contracts_ok_def empty_contracts_def)
next
  case (completion d k w spec who ref refs t k' i)
  then show ?case using contracts_ok_upsert record_completion_Inr by (metis fst_conv snd_conv)
qed (auto intro: contracts_ok_board contracts_ok_invalidate contracts_ok_declare contracts_ok_child contracts_ok_outcome)

section \<open>Overlaps\<close>

text \<open>What a claim that is held now declares.\<close>

definition declared_now :: "bool \<Rightarrow> seconds \<Rightarrow> db \<Rightarrow> contract_db \<Rightarrow> declared \<Rightarrow> bool" where
  "declared_now expired t d k a \<longleftrightarrow> (\<exists>c \<in> set (d_claims d). \<exists>r \<in> set (k_scopes k).
     held c \<and> (expired \<or> t < c_expires c) \<and> sw_claim r = c_id c \<and>
     a = \<lparr>dc_claim = c_id c, dc_work = c_work c, dc_session = c_session c, dc_kind = sw_kind r, dc_value = sw_value r\<rparr>)"

lemma declarations_exact:
  "a \<in> set (concat (map (declarations k) (active_claims expired t d))) \<longleftrightarrow> declared_now expired t d k a"
  by (fastforce simp: declarations_def declared_write_set_def active_claims_def declared_now_def image_iff)

lemma declared_granted:
  assumes "contracts_ok L base d k" "declared_now expired t d k a"
  shows "\<exists>kind v. normalize_scope base kind v = Inr (dc_kind a, dc_value a)"
  using assms by (auto simp: contracts_ok_def declared_now_def scope_ok_def)

lemma overlap_findings_exact:
  assumes "contracts_ok L base d k"
  shows "(let f = set (ov_findings (write_set_overlaps True expired t d k)) in (a, b) \<in> f \<or> (b, a) \<in> f) \<longleftrightarrow>
    declared_now expired t d k a \<and> declared_now expired t d k b \<and>
    dc_claim a \<noteq> dc_claim b \<and> dc_session a \<noteq> dc_session b \<and> dc_kind a = dc_kind b \<and>
    scopes_overlap (dc_kind a) (dc_value a) (dc_value b)"
proof -
  let ?ds = "concat (map (declarations k) (active_claims expired t d))"
  have "scopes_meet (dc_kind a) (dc_value a) (dc_value b) = scopes_overlap (dc_kind a) (dc_value a) (dc_value b)"
    if "declared_now expired t d k a" "declared_now expired t d k b" "dc_kind a = dc_kind b"
    using declared_granted [OF assms that(1)] declared_granted [OF assms that(2)] that(3) scopes_meet_overlap by metis
  moreover have "ov_findings (write_set_overlaps True expired t d k) = collisions ?ds"
    by (simp add: write_set_overlaps_def Let_def)
  ultimately show ?thesis
    using collisions_exact [of a b ?ds] declarations_exact [of a k expired t d] declarations_exact [of b k expired t d]
    unfolding Let_def collides_def by metis
qed

end
