(* ===== verification/ContractsExamples.thy ===== *)
theory ContractsExamples
  imports Examples ContractsFacts
begin

text \<open>
  Contracts beside the board of the theory Examples: both live sessions declare a path, one inside the
  other; and a completion is filed.
\<close>

definition demo_declare :: "string \<Rightarrow> (string \<times> string) list \<Rightarrow> contract_db \<Rightarrow> contract_db" where
  "demo_declare cid scopes k = (case declare_write_set ''/repo'' cid scopes 5 demo_db k of Inr (k', ss) \<Rightarrow> k' | Inl e \<Rightarrow> k)"

lemma demo_declare_reached: "contract_steps demo_lib default_lanes ''/repo'' (demo_db, k) \<Longrightarrow>
    contract_steps demo_lib default_lanes ''/repo'' (demo_db, demo_declare cid scopes k)"
  by (auto simp: demo_declare_def split: sum.splits intro: contract_steps.write_set)

definition demo_scopes :: contract_db where
  "demo_scopes = demo_declare '' c4'' [(''Path'', ''./src//core/db.py'')]
     (demo_declare ''c2'' [(''path'', ''src/core''), (''table'', ''Runs'')] empty_contracts)"

lemma demo_scopes_reached: "contract_steps demo_lib default_lanes ''/repo'' (demo_db, demo_scopes)"
  unfolding demo_scopes_def by (intro demo_declare_reached contract_steps.start demo_wf)

definition demo_declared_by :: "string \<Rightarrow> string \<Rightarrow> string \<Rightarrow> string \<Rightarrow> declared" where
  "demo_declared_by c w sid v = \<lparr>dc_claim = c, dc_work = w, dc_session = sid, dc_kind = ''path'', dc_value = v\<rparr>"

lemma demo_words: "strip ''W4'' = ''W4''" "strip ''out.md'' = ''out.md''" "strip ''p1'' = ''p1''"
  by code_simp+

end
