(* ===== verification/RequestExamples.thy ===== *)
theory RequestExamples
  imports RequestFacts ContractsExamples
begin

text \<open>
  A board before a review: the row \<open>W6\<close> of tier T0, claimed by \<open>claude\<close>, with a hand-off as its only
  head; and the board of theory Examples with an audit request on the unclaimed row \<open>W8\<close> that
  policy no longer wants.
\<close>

definition demo_ask_db :: db where
  "demo_ask_db = empty_db\<lparr>
     d_sessions := [demo_session ''claude:a'' ''claude'' 900, demo_session ''codex:b'' ''codex'' 900],
     d_works := [(demo_work ''W6'' None ''running'')\<lparr>w_tier := Some ''T0'', w_title := [], w_done_signal := Some ''a''\<rparr>],
     d_claims := [demo_claim ''c6'' ''W6'' ''claude:a'' 900],
     d_events := [(demo_event 1 ''handoff'' None)\<lparr>e_work := Some ''W6'', e_payload := JObj [(''schema_version'', JInt 1)]\<rparr>],
     d_next_event := 2\<rparr>"

lemma demo_ask_wf: "wf_db demo_ask_db"
  by (simp add: demo_defs demo_ask_db_def wf_db_defs unique_where_def event_log_ok_def held_def held_statuses_def)

lemma demo_ask_fresh: "fresh_keys ''audit-request-supersede'' demo_ask_db"
  by (simp add: fresh_keys_def demo_ask_db_def demo_defs)

definition demo_moot_db :: db where
  "demo_moot_db = demo_review_db\<lparr>d_works := d_works demo_review_db @ [(demo_work ''W8'' None ''queued'')\<lparr>w_title := ''Audit: x'', w_kind := Some ''review''\<rparr>],
     d_events := d_events demo_db @ [(demo_event 3 ''audit_request'' None)\<lparr>e_work := Some ''W8'',
        e_payload := JObj [(''schema_version'', JInt 1)]\<rparr>],
     d_next_event := 4\<rparr>"

lemma demo_moot_wf: "wf_db demo_moot_db"
  by (simp add: demo_defs demo_moot_db_def demo_review_db_def wf_db_defs unique_where_def event_log_ok_def held_def held_statuses_def)

definition demo_moot :: moot_args where
  "demo_moot = \<lparr>mo_work = ''W8'', mo_version = 0, mo_assignee = ''claude'', mo_intent = ''queued'', mo_event = Some 3,
     mo_event_at = Some 1, mo_watermark = 10, mo_packet = replicate 64 (CHR ''a''), mo_actor = ''codex''\<rparr>"

lemma demo_moot_fresh: "fresh_keys ''policy-moot-supersede'' demo_moot_db"
  by (simp add: fresh_keys_def demo_moot_db_def demo_defs)

text \<open>The board once \<open>claude\<close> asked, and once \<open>codex\<close> answered with a pass.\<close>

definition demo_asked_db :: db where
  "demo_asked_db = (case request_completion_review_if_needed demo_lib demo_open_proofs default_lanes ''c6'' 50 demo_ask_db of
     Inr (d, _) \<Rightarrow> d | Inl _ \<Rightarrow> demo_ask_db)"

definition demo_answer :: event_args where
  "demo_answer = (blank_args ''audit_verdict'')\<lparr>pe_actor := Some ''codex'', pe_session := Some ''codex:b'', pe_work := Some ''W6'',
     pe_verdict := Some ''PASS''\<rparr>"

definition demo_judged_db :: db where
  "demo_judged_db = (case post_event demo_lib default_lanes demo_answer 60 demo_asked_db of
     Inr (d, _) \<Rightarrow> d | Inl _ \<Rightarrow> demo_asked_db)"

end
