(* ===== verification/Spec2Isabelle.thy ===== *)
theory Spec2Isabelle
  imports EvidenceExamples ReaperExamples ContractsExamples RequestExamples
begin

text \<open>
  The coordination core of COORD-Harness, a control plane through which agents of several lanes
  share work: sessions register and renew leases, claim rows of work, hand them over, have them
  reviewed and complete them. The state is one SQLite database, changed by the functions of
  src/src/coordharness/coord/coord_db.py, each inside one transaction; the pure policies it calls
  are in review_tier.py, creation_lint.py, panel_quorum.py, review_integrity.py,
  continuation_contract.py and config.py beside it. Beside the board stand the log of run events
  (run_events.py) with the loop contracts, the token ledger and the policy pipeline that write to it
  and read it, and the planner that proposes who should take a row (assignment_routing.py). This library models the database as the record
  \<open>db\<close> of its tables (theory Store), every operation as a function from arguments, clock readings,
  fresh identifiers and the database to an error or a new database, and proves what they promise.

  Theories, in the order of the code:
  \<^item> Prelude: Python text, JSON values, errors as the left of a sum, tables as lists of rows.
  \<^item> Lanes (configured_lanes, counterpart_lane, session lanes); Store (tables of schema.sql with
    their keys as \<open>wf_db\<close>, the transaction wrapper \<open>tx\<close>, and the locale \<open>receipt_log\<close> of the event
    log, interpreted by \<open>insert_event\<close>).
  \<^item> Sessions (_related_session_ids, register_session, renewal, end, reap_zombie_sessions);
    Leases (_release_expired_claims and the batch, sidecar and fleet renewal).
  \<^item> Resume (typed resume predicates); Relations (_upsert_work_unlocked, parent cycles);
    Claims (claim_work, the holder check, heartbeat_claim, release_claim).
  \<^item> Regex (a small matcher for the patterns the policies use); ReviewTier (effective tiers, done
    signals); CreationLint; WorkPolicy (upsert_work, create_work, claim_work with their policies).
  \<^item> Panel (review panels); Review and ReviewState (author lane, independent verdicts, the state
    that gates completion); Completion (complete_claim); Blocked (classification, migration, release
    and recovery of blocked rows, with the locale \<open>keyed_request\<close>: a request whose event carries its
    key is carried out once).
  \<^item> Runs, Inbox, BoardStatus, Decisions: runs and archiving, notes and cursors, what the board
    shows, standing decisions.
  \<^item> Heads (which hand-offs and review requests of a row are active, and who may supersede them);
    Events (post_event, supersede_prior_handoffs, post_claim_conflict, post_audit_verdict);
    Handoff (post_existing_work_handoff, post_operator_reassignment and their replays).
  \<^item> Requests (request_completion_review_if_needed, close_review_as_policy_moot, the sweep
    reopen_done_signal_status_mismatches, archiving and controller transitions, legacy hand-offs);
    RequestFacts: the tombstones these write are believed, so that exactly the heads they name are
    gone; an unjudged request blocks completion.
  \<^item> Machine, Protocol: all operations as steps of one relation; \<open>wf_db\<close> holds in every reachable
    state. History: \<open>kept\<close>, what no step undoes. Ownership: the claims table refines an abstract map
    from work to owner and end of lease. HandoffFacts, EventFacts, Outcomes: what the writers of
    events leave behind; the keyed writers interpret \<open>keyed_request\<close>.
  \<^item> Authority, AuthorityFacts: what only an operator or a reviewer may settle (sign-off, correction of
    a tier, resumption of paused work), and that each takes effect once.
  \<^item> Routing, RoutingFacts: the planner plan_assignment_route, that it names the best qualified lane
    and does not depend on the order of the evidence.
  \<^item> RunEvents, RunEventFacts: the run event table, its writers and readers, and the locales
    \<open>event_store\<close> (an append-only store) and \<open>keyed_store\<close> (that also looks keys up), interpreted by the
    table and, the first only, by the memory store.
  \<^item> Loops, LoopFacts: loop contracts, receipts, the row doctor and the bounded runner; that a run stays
    within its limits and leaves valid, numbered receipts.
  \<^item> TokenLedger, TokenLedgerFacts: token_ledger_rollup.py and the budget warning; that every usage is
    counted once.
  \<^item> Policy, PolicyFacts: the policy pipeline and its seven passes; the locale \<open>observers\<close> of passes that
    only watch, interpreted by the passes of a boundary.
  \<^item> Triggers, Reaper: the background pass of reaper.py (process probe, resume triggers, the
    compare-and-swap that records them, escalations, dead runs) composed with the housekeeping above.
    ReaperFacts: triggers always evaluate and stay true, recording takes nothing from a holder and
    leaves nobody waiting; SlaFacts: escalations are exact, the whole pass keeps constraints and history.
  \<^item> Contracts, ContractsFacts: work_contracts.py beside the board: completions filed by what was asked,
    declared write sets and child attempts; that completions are found again, that path scopes
    compare segment by segment and every collision is reported, and that rows stay true of claims.
  \<^item> Examples, EvidenceExamples, ReaperExamples, ContractsExamples, RequestExamples: the inputs on which the properties below are instantiated.

  How the state corresponds: a record field is a column (prefix s for agent_sessions, w for
  work_items, c for claims, r for runs, e for events, a for artifacts, q for request_consumption);
  columns no modelled function reads are kept in \<open>w_other\<close> or dropped. A NULL is \<open>None\<close>. A timestamp
  is an exact rational. Every raise is a constructor of \<open>err\<close>; messages are abbreviated to what
  distinguishes them. Autoincrement identifiers come from \<open>d_next_event\<close>.

  Parameters, for code outside the sources: \<open>lib\<close> holds the JSON printer and parser, \<open>str\<close> of values
  that are not text, and SHA-256; nothing is assumed of them. \<open>proofs\<close> is what the file system and
  the git index show. \<open>clock_text\<close> reads and prints timestamps, and a function reads the text of a
  number; the step of a loop, its clock and its test for the done signal are a \<open>loop_world\<close>; files below the project root are
  \<open>surroundings\<close>, the process table is \<open>processes\<close>, the optional module of dark holds a \<open>hold_module\<close>. Clock readings and fresh identifiers are arguments: the theorems hold for all.

  Bounds and fuel: the walk above a new parent follows at most 200 pointers and the walk to the root
  of a session 16, as in the code; the decision walk stops at 200; a transaction begins after at most
  four tries; a loop runs at most the iterations its contract allows, which are its fuel; nested JSON text is flattened with the longest text as fuel, which \<open>flatten_complete\<close>
  shows to be enough. Every other recursion is structural or has a termination proof.

  Reading the properties: first exclusiveness of claims and the holder check, sweeps and reaping;
  then work rows and policies; panels, verdicts and completion; blocked rows; runs, inboxes and the
  board; the state machine as a whole; hand-offs, verdicts and events; the authority of operators; the
  routing of assignments; then run events, loops, the token ledger and the policy boundary; last the
  background pass, the work contracts, and reviews asked for and dropped.

  Not modelled, and why: text outside ASCII (so that the length of a text is its size in bytes);
  NaN and infinities; the display-only warnings of capsules and lints; the writer of the one-off
  rollback receipt (its check is modelled); retiring zombie requests in bulk (its effect on heads is); board ranks and the SQL views; migrations; scans of the board for
  loops and proposals of contracts; the attestation of client profiles; counts that reports add for
  display. The command line, the MCP server, the web board, the knowledge index, the accounting of
  usage logs and job launching call these
  operations or stand beside them; they are listed in the manifest as not modelled.
\<close>
section \<open>Who owns a row\<close>

text \<open>C1: a granted claim is exclusive. When the claim transaction returns a claim identifier, the
  claim is running until \<open>t + lease\<close> under a session of the caller's own family, its work row is
  running, and no other held claim of that work exists.\<close>

theorem claim_exclusive:
  assumes "wf_db d" "claim_work L lanes i0 token sid work step lease fs t0 t d = Inr (d', i)"
  shows "\<exists>c. granted d d' (claim_family lanes d sid) i work lease t c \<and>
           (\<forall>x \<in> set (d_claims d'). held x \<and> c_work x = work \<longrightarrow> x = c)"
proof -
  obtain c where c: "wf_db d'" "granted d d' (claim_family lanes d sid) i work lease t c"
    using claim_work_grants [OF assms] by blast
  then have "claimd d' i = Some c" "held c" "c_work c = work" by (auto simp: granted_def)
  with c held_claim_unique [OF c(1)] show ?thesis by blast
qed

theorem claim_exclusive_witness:
  "\<exists>d' c. claim_work demo_lib default_lanes ''n'' ''tok'' ''claude:a'' ''W2'' None 60 [] 99 100 demo_db = Inr (d', ''n'') \<and>
     granted demo_db d' (claim_family default_lanes demo_db ''claude:a'') ''n'' ''W2'' 60 100 c"
proof -
  let ?r = "claim_work demo_lib default_lanes ''n'' ''tok'' ''claude:a'' ''W2'' None 60 [] 99 100 demo_db"
  have "map_sum (\<lambda>_. ()) snd ?r = Inr ''n''" by code_simp
  from Inr_fst_snd [OF this] obtain d' where got: "?r = Inr (d', ''n'')" ..
  with claim_exclusive [OF demo_wf got] show ?thesis by blast
qed

text \<open>A claim transaction cannot touch other work: claims of other rows, every other work row,
  and the session, run and event tables are as they were, whichever branch the transaction takes.\<close>

theorem claim_frame:
  assumes "wf_db d" "work \<noteq> []" "claim_unlocked lanes i0 token sid work step lease t d = Inr (d', i)"
  shows "filter (\<lambda>c. c_work c \<noteq> work) (d_claims d') = filter (\<lambda>c. c_work c \<noteq> work) (d_claims d) \<and>
     (\<forall>j. j \<noteq> work \<longrightarrow> workd d' j = workd d j) \<and>
     d_sessions d' = d_sessions d \<and> d_runs d' = d_runs d \<and> d_events d' = d_events d"
  using claim_unlocked_other [OF assms] unfolding same_elsewhere_def .

theorem claim_frame_witness:
  "\<exists>d'. claim_unlocked default_lanes ''n'' ''tok'' ''claude:a'' ''W5'' None 60 100 demo_db = Inr (d', ''n'') \<and>
     workd d' ''W2'' = workd demo_db ''W2''"
proof -
  have "map_sum (\<lambda>_. ()) snd
      (claim_unlocked default_lanes ''n'' ''tok'' ''claude:a'' ''W5'' None 60 100 demo_db) = Inr ''n''"
    by code_simp
  from Inr_fst_snd [OF this] obtain d' where got: "claim_unlocked default_lanes ''n'' ''tok'' ''claude:a'' ''W5'' None 60 100 demo_db = Inr (d', ''n'')" ..
  with claim_frame [OF demo_wf _ got] show ?thesis by auto
qed

text \<open>C2: a claim identifier is not a capability. Every heartbeat that succeeds was made by the
  holder's own session family (or a declared system caller) on a running, unexpired claim; the
  claim then keeps its row, owner and status and its lease runs from the heartbeat.\<close>

theorem heartbeat_only_by_holder:
  assumes "heartbeat_claim lanes i lease step sid actor sys t d = Inr d'"
  shows "\<exists>c c'. claimd d i = Some c \<and> claimd d' i = Some c' \<and>
    (clean sys \<in> set claim_mutation_system_callers \<or>
     clean sid \<noteq> [] \<and> (strip (c_session c) = clean sid \<or>
       strip (c_session c) \<in> set (related_session_ids lanes d (clean sid)
          (opt_text (actor_or_expected actor (clean sid)))))) \<and>
    lower (strip (c_status c)) = ''running'' \<and> t < c_expires c \<and>
    c_work c' = c_work c \<and> c_session c' = c_session c \<and> c_status c' = c_status c \<and>
    c_heartbeat c' = t \<and> c_expires c' = t + lease"
proof -
  obtain c where c: "claimd d i = Some c" "assert_claim_holder lanes d i sid actor sys = Inr (Some c)"
      "lower (strip (c_status c)) = ''running''" "t < c_expires c"
      "d' = (let d1 = upd_claims (\<lambda>x. c_id x = i) (heartbeat_row t lease step) d in
           if c_session c = [] then d1
           else renew_sessions_and_claims
                  (related_session_ids lanes d1 (c_session c) (map_option s_actor (sess d (c_session c))))
                  t lease d1)"
    using heartbeat_claim_Inr [OF assms] by blast
  have one: "claimd (upd_claims (\<lambda>x. c_id x = i) (heartbeat_row t lease step) d) i =
      Some (heartbeat_row t lease step c)"
    using c(1) claimd_SomeD [OF c(1)] by (simp add: heartbeat_update.lookup)
  have "\<exists>c'. claimd d' i = Some c' \<and> c_work c' = c_work c \<and> c_session c' = c_session c \<and>
      c_status c' = c_status c \<and> c_heartbeat c' = t \<and> c_expires c' = t + lease"
    using one c(5) by (auto simp: Let_def claimd_renew heartbeat_row_def renew_claim_def)
  with c(1,3,4) assert_claim_holder_Some [OF c(2)] show ?thesis
    unfolding related.holds_def by blast
qed

theorem heartbeat_only_by_holder_witness:
  "\<exists>d' c'. heartbeat_claim default_lanes ''c4'' 60 None (Some ''claude:a'') None None 100 demo_db = Inr d' \<and>
     claimd d' ''c4'' = Some c' \<and> c_expires c' = 160"
proof -
  have "\<not> isl (heartbeat_claim default_lanes ''c4'' 60 None (Some ''claude:a'') None None 100 demo_db)"
    by code_simp
  from not_isl_Inr [OF this] obtain d' where got: "heartbeat_claim default_lanes ''c4'' 60 None (Some ''claude:a'') None None 100 demo_db = Inr d'" ..
  with heartbeat_only_by_holder [OF got] show ?thesis by auto
qed

text \<open>Giving a claim back. A successful release was made on a held, unexpired claim by its
  holder (or a declared system caller). With \<open>released\<close> or \<open>unclaimed\<close> no held claim of the work
  is left and the row is queued unless it is closed; with \<open>paused\<close> or \<open>blocked\<close> the claim stays
  held and an open row takes that state; a closed row is never changed.\<close>

theorem release_disposes:
  assumes "wf_db d"
    and "release_claim L lanes i status reason next_step resume_when predicate manual sid actor sys t d = Inr d'"
  shows "\<exists>c c'. claimd d i = Some c \<and> claimd d' i = Some c' \<and>
    lower (strip (c_status c)) \<in> set held_statuses \<and> t < c_expires c \<and>
    (clean sys \<in> set claim_mutation_system_callers \<or>
     related.holds lanes d (clean sid) (opt_text (actor_or_expected actor (clean sid))) (strip (c_session c))) \<and>
    c_status c' = status \<and> (held c' \<longleftrightarrow> status \<in> {''paused'', ''blocked''}) \<and>
    (\<forall>w. workd d (c_work c) = Some w \<longrightarrow>
       (if terminal (w_intent w) then workd d' (c_work c) = Some w
        else map_option w_intent (workd d' (c_work c)) =
          Some (if status \<in> {''paused'', ''blocked''} then status else ''queued'')))"
proof -
  obtain c n r p where c: "claimd d i = Some c" "status \<in> set releasable_claim_statuses"
    "assert_claim_holder lanes d i sid actor sys = Inr (Some c)" "t < c_expires c"
    "release_writes status reason n r p c t d = Inr d'" "lower (strip (c_status c)) \<in> set held_statuses"
    using release_claim_Inr [OF assms(2)] by blast
  have "\<exists>c'. claimd d' i = Some c' \<and> c_status c' = status"
    using release_writes_claim [OF c(5)] c(1) claimd_SomeD [OF c(1)] by auto
  moreover have "held c' \<longleftrightarrow> status \<in> {''paused'', ''blocked''}" if "c_status c' = status" for c'
    using that c(2) by (auto simp: held_def held_statuses_def releasable_claim_statuses_def)
  moreover have "if terminal (w_intent w) then workd d' (c_work c) = Some w
        else map_option w_intent (workd d' (c_work c)) =
          Some (if status \<in> {''paused'', ''blocked''} then status else ''queued'')"
    if "workd d (c_work c) = Some w" for w
    using release_writes_work [OF c(5) c(2) that] release_writes_terminal [OF c(5) that] by simp
  ultimately show ?thesis
    using c(1,4,6) assert_claim_holder_Some [OF c(3)] by blast
qed

theorem release_disposes_witness:
  "\<exists>d' c'. release_claim demo_lib default_lanes ''c4'' ''released'' None None None None False
       (Some ''claude:a'') None None 100 demo_db = Inr d' \<and>
     claimd d' ''c4'' = Some c' \<and> \<not> held c'"
proof -
  have "\<not> isl (release_claim demo_lib default_lanes ''c4'' ''released'' None None None None False
       (Some ''claude:a'') None None 100 demo_db)"
    by code_simp
  from not_isl_Inr [OF this] obtain d' where got: "release_claim demo_lib default_lanes ''c4'' ''released'' None None None None False
       (Some ''claude:a'') None None 100 demo_db = Inr d'" ..
  with release_disposes [OF demo_wf got] show ?thesis by auto
qed

section \<open>Leases that lapse\<close>

text \<open>The sweep of expired claims is complete and touches nothing else: afterwards every held
  claim is unexpired, exactly the expired ones were released and reported, closed rows are
  unchanged and every other row is unchanged or queued.\<close>

theorem expiry_sweep:
  assumes "wf_db d"
  shows "let (d', out) = release_expired_claims_unlocked t None d in
     d_claims d' = map (\<lambda>c. if held c \<and> c_expires c < t then expire_claim c else c) (d_claims d) \<and>
     (\<forall>c \<in> set (d_claims d'). held c \<longrightarrow> t \<le> c_expires c) \<and>
     set (map l_claim out) = c_id ` {c \<in> set (d_claims d). held c \<and> c_expires c < t} \<and>
     (\<forall>i w. workd d i = Some w \<and> terminal (w_intent w) \<longrightarrow> workd d' i = Some w) \<and>
     list_all2 (\<lambda>w w'. w' = w \<or> w_intent w' = ''queued'') (d_works d) (d_works d')"
proof -
  let ?r = "release_expired_claims_unlocked t None d"
  have c: "d_claims (fst ?r) = map (\<lambda>c. if held c \<and> c_expires c < t then expire_claim c else c) (d_claims d)"
    using release_expired_claims_table(1) [OF assms, of t None] by (simp add: upd_where_def expired_at_def)
  have out: "set (map l_claim (snd ?r)) = c_id ` {c \<in> set (d_claims d). held c \<and> c_expires c < t}"
    using expired_rows_facts(2) [OF wf_keys [OF assms], of t None]
    unfolding release_expired_claims_table(2) [OF assms] by (simp add: expired_at_def)
  have left: "\<forall>c \<in> set (d_claims (fst ?r)). held c \<longrightarrow> t \<le> c_expires c"
    using release_expired_none_left [OF assms, of _ t None] by (auto simp: expired_at_def not_less)
  have closed: "\<forall>i w. workd d i = Some w \<and> terminal (w_intent w) \<longrightarrow> workd (fst ?r) i = Some w"
    using works_lapse_terminal [OF release_expired_lapse] by blast
  have "list_all2 lapse (d_works d) (d_works (fst ?r))"
    using release_expired_lapse unfolding works_lapse_def .
  then have "list_all2 (\<lambda>w w'. w' = w \<or> w_intent w' = ''queued'') (d_works d) (d_works (fst ?r))"
    by (rule list.rel_mono_strong) (simp add: lapse_def)
  with c out left closed show ?thesis by (simp add: case_prod_beta)
qed

theorem expiry_sweep_witness:
  "filter (\<lambda>c. held c \<and> c_expires c < 100)
     (d_claims (fst (release_expired_claims_unlocked 100 None demo_db))) = []"
proof -
  let ?cs = "d_claims (fst (release_expired_claims_unlocked 100 None demo_db))"
  have "\<forall>c \<in> set ?cs. held c \<longrightarrow> 100 \<le> c_expires c"
    using expiry_sweep [OF demo_wf, of 100] unfolding case_prod_beta Let_def by blast
  then have "\<forall>c \<in> set ?cs. \<not> (held c \<and> c_expires c < 100)" by auto
  then show ?thesis by (simp add: filter_empty_conv)
qed

text \<open>C3: reaping lapsed sessions frees every claim they held and no other: afterwards no reaped
  session holds a claim, sessions still within their lease or paused are untouched, and closed
  rows are unchanged.\<close>

theorem reap_sound:
  assumes "wf_db d"
  shows "let (d', sids, n) = reap_zombie_sessions t grace dead_pids dead_sessions d in
     wf_db d' \<and>
     (\<forall>c \<in> set (d_claims d'). held c \<longrightarrow> c_session c \<notin> set sids) \<and>
     (\<forall>c \<in> set (d_claims d). c_session c \<notin> set sids \<longrightarrow> c \<in> set (d_claims d')) \<and>
     (\<forall>s \<in> set (d_sessions d). s_pause s \<noteq> None \<or> t - grace \<le> s_lease s \<or> s_state s \<noteq> ''active'' \<longrightarrow>
        s \<in> set (d_sessions d')) \<and>
     (\<forall>i w. workd d i = Some w \<and> terminal (w_intent w) \<longrightarrow> workd d' i = Some w)"
proof -
  define sids where "sids = map s_id (filter (reapable (t - grace) dead_pids dead_sessions) (d_sessions d))"
  let ?d = "fst (reap_all t sids d)"
  have c: "d_claims ?d = upd_where (\<lambda>c. c_session c \<in> set sids \<and> held c) reap_claim (d_claims d)"
    by (rule reap_all_claims [OF assms])
  have nh: "\<not> held (reap_claim x)" for x by (simp add: reap_claim_def held_def held_statuses_def)
  have ids: "distinct (map s_id (d_sessions d))" using assms by (simp add: wf_db_defs)
  have keep: "s \<in> set (d_sessions ?d)"
    if s: "s \<in> set (d_sessions d)" "s_pause s \<noteq> None \<or> t - grace \<le> s_lease s \<or> s_state s \<noteq> ''active''" for s
  proof -
    have "s_id s \<notin> set sids"
    proof
      assume "s_id s \<in> set sids"
      then obtain r where "r \<in> set (d_sessions d)" "s_id r = s_id s" "reapable (t - grace) dead_pids dead_sessions r"
        by (auto simp: sids_def)
      moreover from this have "r = s" using ids s(1) by (simp add: distinct_map inj_on_def)
      ultimately show False using s(2) by (auto simp: reapable_def)
    qed
    with s(1) show ?thesis by (simp add: reap_all_sessions set_upd_where)
  qed
  have "\<forall>c \<in> set (d_claims ?d). held c \<longrightarrow> c_session c \<notin> set sids"
    unfolding c using nh by (auto dest!: in_upd_whereD split: if_splits)
  moreover have "\<forall>c \<in> set (d_claims d). c_session c \<notin> set sids \<longrightarrow> c \<in> set (d_claims ?d)"
    unfolding c by (auto simp: set_upd_where)
  ultimately show ?thesis
    using reap_all_wf [OF assms] keep works_lapse_terminal [OF reap_all_works]
    by (simp add: reap_zombie_sessions_def Let_def case_prod_beta flip: sids_def)
qed

theorem reap_sound_witness:
  "filter (\<lambda>c. held c \<and> c_session c \<in> set (fst (snd (reap_zombie_sessions 100 10 None None demo_db))))
     (d_claims (fst (reap_zombie_sessions 100 10 None None demo_db))) = []"
proof -
  let ?r = "reap_zombie_sessions 100 10 None None demo_db"
  have "\<forall>c \<in> set (d_claims (fst ?r)). held c \<longrightarrow> c_session c \<notin> set (fst (snd ?r))"
    using reap_sound [OF demo_wf, of 100 10 None None] unfolding case_prod_beta Let_def by blast
  then have "\<forall>c \<in> set (d_claims (fst ?r)). \<not> (held c \<and> c_session c \<in> set (fst (snd ?r)))" by blast
  then show ?thesis by (simp add: filter_empty_conv)
qed

section \<open>Sessions and lanes\<close>

text \<open>Who counts as the same owner depends on identifiers, lanes and external threads only: two
  boards that differ in any other session column (the worktree among them) give the same family.\<close>

theorem family_ignores_worktree:
  assumes "map (\<lambda>s. (s_id s, s_actor s, s_thread s)) (d_sessions d) =
           map (\<lambda>s. (s_id s, s_actor s, s_thread s)) (d_sessions d')"
  shows "related_session_ids lanes d sid actor = related_session_ids lanes d' sid actor"
  using related_view_only [of d d'] assms by (simp add: identity_view_def)

theorem family_ignores_worktree_witness:
  "related_session_ids default_lanes demo_db ''claude:a'' None =
   related_session_ids default_lanes
     (demo_db\<lparr>d_sessions := map (\<lambda>s. s\<lparr>s_worktree := None\<rparr>) (d_sessions demo_db)\<rparr>) ''claude:a'' None"
  by (rule family_ignores_worktree) (simp add: demo_defs)

text \<open>A session never changes lane. Registration succeeds only with a lane that agrees with the
  prefix of the session identifier and with the lane the row already has; the row is then active
  with its lease running from the call, and the constraints of the database still hold.\<close>

theorem register_keeps_lane:
  assumes "wf_db d" "register_session lanes probe host g t d = Inr (d', sid)"
  shows "wf_db d' \<and> sid = g_session g \<and> session_actor_ok sid (norm (g_actor g)) \<and>
    (\<forall>s. sess d sid = Some s \<and> strip (s_actor s) \<noteq> [] \<longrightarrow> strip (s_actor s) = norm (g_actor g)) \<and>
    (\<exists>s. sess d' sid = Some s \<and> s_actor s = norm (g_actor g) \<and> s_state s = ''active'' \<and> s_lease s = t + g_lease g)"
  using wf_register_session [OF assms] register_session_row [OF assms(2)] by blast

theorem register_keeps_lane_witness:
  "\<exists>d' s. register_session default_lanes (\<lambda>_. None) ''host''
      \<lparr>g_session = ''claude:c'', g_actor = Some ''Claude'', g_actor_id = None, g_parent = None,
       g_runner_type = None, g_cwd = None, g_pid = None, g_pid_started = None, g_human_label = None,
       g_thread = None, g_title = None, g_worktree = None, g_label_source = None, g_lease = 60\<rparr> 100 demo_db
      = Inr (d', ''claude:c'') \<and> sess d' ''claude:c'' = Some s \<and> s_lease s = 160"
proof -
  let ?g = "\<lparr>g_session = ''claude:c'', g_actor = Some ''Claude'', g_actor_id = None, g_parent = None,
       g_runner_type = None, g_cwd = None, g_pid = None, g_pid_started = None, g_human_label = None,
       g_thread = None, g_title = None, g_worktree = None, g_label_source = None, g_lease = 60\<rparr>"
  have "map_sum (\<lambda>_. ()) snd (register_session default_lanes (\<lambda>_. None) ''host'' ?g 100 demo_db) = Inr ''claude:c''"
    by code_simp
  from Inr_fst_snd [OF this] obtain d' where got: "register_session default_lanes (\<lambda>_. None) ''host'' ?g 100 demo_db = Inr (d', ''claude:c'')" ..
  from register_keeps_lane [OF demo_wf got] got show ?thesis by auto
qed

text \<open>The configured lanes are a usable vocabulary: never empty, without repetition, every lane a
  well-formed lower-case actor name; and the counterpart of a lane is never that lane itself.\<close>

theorem lanes_vocabulary:
  assumes "configured_lanes raw = Inr lanes"
  shows "lanes \<noteq> [] \<and> distinct lanes \<and> (\<forall>l \<in> set lanes. lane_ok l) \<and>
     (\<forall>a l. counterpart_lane lanes a = Some l \<longrightarrow> l \<in> set lanes \<and> l \<noteq> norm a) \<and>
     (2 \<le> length lanes \<longrightarrow> (\<forall>a. counterpart_lane lanes a \<noteq> None))"
proof -
  have voc: "lane_vocabulary lanes" by (rule configured_lane_vocabulary [OF assms])
  show ?thesis
    using configured_lanes_ok [OF assms] counterpart_lane_Some [of lanes]
      lane_vocabulary.counterpart_exists [OF voc] by auto
qed

theorem lanes_vocabulary_witness:
  "counterpart_lane [''claude'', ''codex'', ''gemini''] (Some ''claude'') \<noteq> None"
proof -
  have "configured_lanes (Some '' Claude,codex,,gemini,codex'') = Inr [''claude'', ''codex'', ''gemini'']"
    by code_simp
  from lanes_vocabulary [OF this] show ?thesis by simp
qed

section \<open>Transactions and receipts\<close>


text \<open>A receipt is written once and for ever: after an event with an idempotency key has been
  appended, whatever is appended next the key is found under that event's identifier, and a
  second event with the same key is refused.\<close>

theorem receipts_permanent:
  assumes "insert_event e d = Inr (d', i)" "e_key e = Some k"
  shows "(\<exists>r. event_by_key (event_log.append_all es d') k = Some r \<and> e_id r = i) \<and>
         (\<forall>e2. e_key e2 = Some k \<longrightarrow> (\<exists>x. insert_event e2 (event_log.append_all es d') = Inl x))"
  using event_log.receipt_permanent [OF assms(2,1), of es] event_log.receipt_once [OF assms(2,1), of _ es]
  by blast

theorem receipts_permanent_witness:
  "\<exists>r. event_by_key (event_log.append_all [demo_event 0 ''note'' (Some ''k3'')]
        (fst (projr (insert_event (demo_event 0 ''note'' (Some ''k3'')) demo_db)))) ''k3'' = Some r \<and> e_id r = 3"
proof -
  have "insert_event (demo_event 0 ''note'' (Some ''k3'')) demo_db =
      Inr (fst (projr (insert_event (demo_event 0 ''note'' (Some ''k3'')) demo_db)), 3)"
    by (simp add: insert_event_def demo_defs event_by_key_def)
  moreover have "e_key (demo_event 0 ''note'' (Some ''k3'')) = Some ''k3''" by (simp add: demo_event_def)
  ultimately show ?thesis
    by (rule receipts_permanent [THEN conjunct1])
qed

section \<open>Relations between rows\<close>

text \<open>C5: the hierarchy stays a forest. If the parent pointers have no cycle and the chain above a new
  parent is within the depth the check walks, any insert or amendment that is accepted leaves
  them without a cycle.\<close>

theorem parents_acyclic:
  assumes "no_cycle (parent_step d)" "kwargs_ok fs"
    and "\<And>v. parent_field fs = Some v \<Longrightarrow>
      hop (parent_step d) (Suc parent_cycle_walk_max_depth) (clean v) = None"
    and "upsert_work_unlocked L rn i fs t d = Inr (d', b)"
  shows "no_cycle (parent_step d')"
  using upsert_keeps_acyclic [OF assms(1,2,4)] assms(3) by blast

theorem parents_acyclic_witness:
  "\<exists>d'. upsert_work_unlocked demo_lib False ''W5'' [F_parent (Some ''W1'')] 9 demo_db = Inr (d', False) \<and>
     no_cycle (parent_step d')"
proof -
  have "map_sum (\<lambda>_. ()) snd (upsert_work_unlocked demo_lib False ''W5'' [F_parent (Some ''W1'')] 9 demo_db) = Inr False"
    by code_simp
  from Inr_fst_snd [OF this] obtain d' where got: "upsert_work_unlocked demo_lib False ''W5'' [F_parent (Some ''W1'')] 9 demo_db = Inr (d', False)" ..
  have "parent_step demo_db ''W1'' = None" by code_simp
  then have "hop (parent_step demo_db) (Suc n) (clean (Some ''W1'')) = None" for n
    by (simp add: clean_def strip_def lstrip_def is_ws_def)
  then have "no_cycle (parent_step d')"
    by (intro parents_acyclic [OF demo_no_cycle _ _ got]) (simp_all add: kwargs_ok_def parent_field_Cons)
  with got show ?thesis by blast
qed

text \<open>The parent check says exactly what it means: a change of parent is refused if and only if the
  row would be its own parent or the row is met within 200 steps above the new parent.\<close>

theorem parent_check_exact:
  "(\<exists>e. validate_relation_invariants L d i [F_parent (Some p)] = Some e) \<longleftrightarrow>
     strip p \<noteq> [] \<and> (strip p = i \<or> (\<exists>m \<le> 200. hop (parent_step d) m (strip p) = Some i))"
  using walk_parents_bounded [of "parent_step d" i 200 "strip p"]
  by (auto simp: validate_relation_invariants_def Let_def parent_field_Cons depends_field_def
      map_filter_def first_row_def clean_def parent_cycle_walk_max_depth_def intro: exI [of _ 0])

text \<open>The validator of resume predicates accepts exactly the grammar of resume predicates.\<close>

theorem resume_validator_exact: "validate_predicate j = None \<longleftrightarrow> resume_predicate j"
  by (rule validate_iff)

section \<open>Text patterns\<close>

text \<open>The pattern matcher is correct: a position is listed as a match end if and only if the text
  up to it is read by the pattern in the declarative sense, so a search succeeds exactly when
  some factor of the text matches.\<close>

theorem matcher_correct:
  "((x, t) \<in> set (ends r (prev, s)) \<longleftrightarrow> (\<exists>u. s = u @ t \<and> x = after prev u \<and> reads r prev u t)) \<and>
   (rx_found r s \<longleftrightarrow> (\<exists>v u w. s = v @ u @ w \<and> reads r (after None v) u w))"
  by (intro conjI ends_reads rx_found_iff)
section \<open>What a write of a row may change\<close>

text \<open>C6: the T0 floor. When a row is inserted, or amended in a field the floor depends on, and its
  text or paths name an effect of tier T0, then either it does not declare a lower tier or the board
  holds an event that authorises one: a correction or acknowledgement by the other lane, or a valid
  approval by the operator.\<close>

theorem tier_floor:
  assumes "upsert_work L lanes i fs t d = Inr (d', j)"
    and "workd d i = None \<or> list_ex (has_key (fields_dict fs)) policy_keys"
    and "t0_predicate_reasons L (merged_row i (workd d i) fs) [] \<noteq> []"
  shows "normalize_declared_tier L (field (merged_row i (workd d i) fs) ''tier'') \<notin> {Some ''T1'', Some ''T2''} \<or>
    (\<exists>e \<in> set (d_events d). tier_correction_event_authorizes L lanes e i (merged_row i (workd d i) fs) \<or>
       operator_ok_event_is_valid L e i (merged_row i (workd d i) fs) = Inr True \<or>
       acknowledges L lanes i (lower (text_field L (merged_row i (workd d i) fs) ''assignee'')) e)"
proof -
  let ?row = "merged_row i (workd d i) fs"
  have "validate_work_policy L lanes d i (workd d i) fs = Inr ()" using upsert_work_Inr [OF assms(1)] by blast
  from policy_Inr(4) [OF this assms(2)] obtain authorized tier where
    a: "tier_down_authorized L lanes d i ?row = Inr authorized" "validate_tier_declaration L ?row [] authorized = Inr tier"
    by blast
  show ?thesis
  proof (cases authorized)
    case True
    with a(1) show ?thesis using tier_down_authorized_True by simp
  next
    case False
    with a(2) assms(3) show ?thesis by (auto simp: validate_tier_declaration_def Let_def split: if_split_asm)
  qed
qed

theorem tier_floor_witness:
  "normalize_declared_tier demo_lib (field (merged_row ''W5'' (workd demo_db ''W5'')
      [F_title ''Cutover'', F_tier (Some ''T0'')]) ''tier'') \<notin> {Some ''T1'', Some ''T2''}"
proof -
  let ?fs = "[F_title ''Cutover'', F_tier (Some ''T0'')]"
  have "map_sum (\<lambda>_. ()) snd (upsert_work demo_lib default_lanes ''W5'' ?fs 9 demo_db) = Inr ''W5''"
    by code_simp
  from Inr_fst_snd [OF this] obtain d' where got: "upsert_work demo_lib default_lanes ''W5'' ?fs 9 demo_db = Inr (d', ''W5'')" ..
  have keys: "list_ex (has_key (fields_dict ?fs)) policy_keys" by code_simp
  have reasons: "t0_predicate_reasons demo_lib (merged_row ''W5'' (workd demo_db ''W5'') ?fs) [] \<noteq> []" by code_simp
  have none: "\<not> (tier_correction_event_authorizes demo_lib default_lanes e ''W5'' row \<or>
       operator_ok_event_is_valid demo_lib e ''W5'' row = Inr True \<or> acknowledges demo_lib default_lanes ''W5'' a e)"
    if "e \<in> set (d_events demo_db)" for e row a
  proof -
    have "e_kind e = ''note''" using that by (auto simp: demo_defs)
    moreover have "lower (strip ''note'') = ''note''" by code_simp
    ultimately show ?thesis
      by (simp add: tier_correction_event_authorizes_def operator_ok_event_is_valid_def acknowledges_def
          split: json.splits)
  qed
  from tier_floor [OF got disjI2 [OF keys] reasons] none show ?thesis by blast
qed

text \<open>C7: typed receipts cannot be forged. An amendment of a row through the public writer leaves its
  verdict, its operator approval and its tier correction as they were, or clears them; it never
  writes new ones.\<close>

theorem receipts_not_forged:
  assumes "upsert_work L lanes i fs t d = Inr (d', j)" "workd d i = Some w"
  shows "\<exists>v. workd d' i = Some v \<and> w_rubric v \<in> {w_rubric w, None, Some []} \<and>
     w_op_ok v \<in> {w_op_ok w, None} \<and> w_tier_corr v \<in> {w_tier_corr w, None}"
  using upsert_receipts [OF assms] unfolding receipts_kept_def .

theorem receipts_not_forged_witness:
  "\<exists>d' v. upsert_work demo_lib default_lanes ''W5'' [F_note (Some ''n'')] 9 demo_db = Inr (d', ''W5'') \<and>
     workd d' ''W5'' = Some v \<and> w_rubric v \<in> {None, Some []}"
proof -
  have "map_sum (\<lambda>_. ()) snd (upsert_work demo_lib default_lanes ''W5'' [F_note (Some ''n'')] 9 demo_db) = Inr ''W5''"
    by code_simp
  from Inr_fst_snd [OF this] obtain d' where got: "upsert_work demo_lib default_lanes ''W5'' [F_note (Some ''n'')] 9 demo_db = Inr (d', ''W5'')" ..
  have w: "workd demo_db ''W5'' = Some (demo_work ''W5'' None ''queued'')" by (simp add: workd_def demo_defs)
  from receipts_not_forged [OF got w] got show ?thesis by (auto simp: demo_work_def new_work_row_def)
qed

text \<open>An accepted done signal cannot leave the repository: it is non-empty and either a reference to
  an event or a path that is not absolute, not under a home directory and without a \<open>..\<close> component,
  whichever slash it is written with.\<close>

theorem done_signal_contained:
  assumes "validate_done_signal_grammar v = Inr s"
  shows "s = strip v \<and> s \<noteq> [] \<and> (coord_event_done_signal_id s \<noteq> None \<or>
     (let path = map (\<lambda>c. if c = CHR 0x5C then CHR ''/'' else c) s in
      \<not> prefix ''/'' path \<and> \<not> prefix ''~'' s \<and> ''..'' \<notin> set (split_on CHR ''/'' path)))"
  using assms
  by (auto simp: validate_done_signal_grammar_def Let_def path_components_def split: if_split_asm)

theorem done_signal_contained_witness: "''..'' \<notin> set (split_on CHR ''/'' ''docs/out.md'')"
proof -
  have "validate_done_signal_grammar '' docs/out.md'' = Inr ''docs/out.md''" by code_simp
  from done_signal_contained [OF this] have "coord_event_done_signal_id ''docs/out.md'' \<noteq> None \<or>
    ''..'' \<notin> set (split_on CHR ''/'' (map (\<lambda>c. if c = CHR 0x5C then CHR ''/'' else c) ''docs/out.md''))"
    by (auto simp: Let_def)
  moreover have "coord_event_done_signal_id ''docs/out.md'' = None" by code_simp
  ultimately show ?thesis by simp
qed



section \<open>Independent review\<close>

text \<open>C9: a panel passes only unanimously and independently. A passed panel has a declared quorum from 2
  to 8, at least that many different assessors (lane and session), every one with PASS as a verdict
  posted after the barrier and none of them the author; one of them is of the other lane.\<close>

theorem panel_sound:
  assumes "classify_panel_status L es lane quorum b s = Inr r" "p_passed r"
  shows "\<exists>q. normalize_quorum L quorum = Inr (Some q) \<and> 2 \<le> q \<and> q \<le> 8 \<and>
     q \<le> int (card ((\<lambda>x. (y_actor x, y_session x)) ` set (p_assessors r))) \<and>
     (\<forall>x \<in> set (p_assessors r). y_verdict x = ''PASS'' \<and>
        (y_actor x, y_session x) \<noteq> (lower (strip lane), lower (strip s)) \<and>
        (\<exists>e \<in> set es. lower (strip (e_kind e)) = ''audit_verdict'' \<and> b < e_id e \<and> x = assessment_of e)) \<and>
     (\<exists>x \<in> set (p_assessors r). y_actor x \<in> {''claude'', ''codex''} \<and> y_actor x \<noteq> lower (strip lane))"
proof -
  obtain q where q: "normalize_quorum L quorum = Inr (Some q)" "2 \<le> q" "q \<le> 8"
     "p_assessors r = qualifying_verdicts es (lower (strip lane)) (lower (strip s)) b"
     "q \<le> int (length (p_assessors r))" "\<forall>x \<in> set (p_assessors r). y_verdict x = ''PASS''"
     "\<exists>x \<in> set (p_assessors r). y_actor x \<in> set panel_lanes \<and> y_actor x \<noteq> lower (strip lane)"
    using panel_passed [OF assms] by blast
  have "length (p_assessors r) = card ((\<lambda>x. (y_actor x, y_session x)) ` set (p_assessors r))"
    using qualifying_facts(1) [of es "lower (strip lane)" "lower (strip s)" b] q(4)
    by (metis distinct_assessors_def distinct_card length_map set_map)
  moreover have "(y_actor x, y_session x) \<noteq> (lower (strip lane), lower (strip s)) \<and>
      (\<exists>e \<in> set es. lower (strip (e_kind e)) = ''audit_verdict'' \<and> b < e_id e \<and> x = assessment_of e)"
    if "x \<in> set (p_assessors r)" for x
    using qualifying_facts(2) [of x es "lower (strip lane)" "lower (strip s)" b] that q(4)
    by (auto simp: counts_for_panel_def assessment_of_def)
  ultimately show ?thesis using q by (auto simp: panel_lanes_def)
qed

theorem panel_sound_witness:
  "\<exists>r q. classify_panel_status demo_lib [demo_verdict 4 ''codex'' ''codex:b'' ''PASS'', demo_verdict 5 ''claude'' ''claude:z'' ''pass'']
     ''claude'' (JInt 2) 3 ''claude:a'' = Inr r \<and> p_passed r \<and> normalize_quorum demo_lib (JInt 2) = Inr (Some q) \<and> 2 \<le> q"
proof -
  let ?p = "classify_panel_status demo_lib [demo_verdict 4 ''codex'' ''codex:b'' ''PASS'', demo_verdict 5 ''claude'' ''claude:z'' ''pass'']
     ''claude'' (JInt 2) 3 ''claude:a''"
  have "map_sum (\<lambda>_. ()) p_passed ?p = Inr True" by code_simp
  then obtain r where r: "?p = Inr r" "p_passed r" by (cases ?p) auto
  with panel_sound [OF r] show ?thesis by blast
qed

text \<open>One standing objection is enough. If an eligible assessor posted a verdict other than PASS
  after the barrier and has not posted PASS since, the panel has not passed, whoever else agrees.\<close>

theorem panel_dissent_blocks:
  assumes "classify_panel_status L es lane quorum b s = Inr r"
    and "e \<in> set es" "counts_for_panel (lower (strip lane)) (lower (strip s)) b e"
    and "\<And>e'. e' \<in> set es \<Longrightarrow> counts_for_panel (lower (strip lane)) (lower (strip s)) b e' \<Longrightarrow>
      same_assessor (assessment_of e) (assessment_of e') \<Longrightarrow> e_id e \<le> e_id e' \<Longrightarrow> verdict_of e' \<noteq> ''PASS''"
  shows "\<not> p_passed r"
  using panel_dissent [OF assms] .

theorem panel_dissent_blocks_witness:
  "\<exists>r. classify_panel_status demo_lib [demo_verdict 4 ''codex'' ''codex:b'' ''PASS'', demo_verdict 5 ''codex'' ''codex:d'' ''FLAG'',
       demo_verdict 6 ''claude'' ''claude:z'' ''PASS''] ''claude'' (JInt 2) 3 ''claude:a'' = Inr r \<and> \<not> p_passed r"
proof -
  let ?es = "[demo_verdict 4 ''codex'' ''codex:b'' ''PASS'', demo_verdict 5 ''codex'' ''codex:d'' ''FLAG'',
       demo_verdict 6 ''claude'' ''claude:z'' ''PASS'']"
  let ?p = "classify_panel_status demo_lib ?es ''claude'' (JInt 2) 3 ''claude:a''"
  have "\<not> isl ?p" by code_simp
  from not_isl_Inr [OF this] obtain r where r: "?p = Inr r" ..
  have counts: "counts_for_panel (lower (strip ''claude'')) (lower (strip ''claude:a'')) 3 (demo_verdict 5 ''codex'' ''codex:d'' ''FLAG'')"
    by code_simp
  have others: "list_all (\<lambda>e'. same_assessor (assessment_of (demo_verdict 5 ''codex'' ''codex:d'' ''FLAG'')) (assessment_of e') \<longrightarrow>
      verdict_of e' \<noteq> ''PASS'') ?es" by code_simp
  have "\<not> p_passed r"
    by (rule panel_dissent_blocks [OF r _ counts]) (use others in \<open>auto simp: list_all_iff\<close>)
  with r show ?thesis by blast
qed



section \<open>Completion\<close>

lemma demo_completes:
  "map_sum (\<lambda>_. ()) snd (complete_claim demo_lib demo_proofs default_lanes ''a1'' ''c4'' None None True None [] (Some ''claude:a'')
       None None 100 demo_review_db) = Inr ''docs/out.md''"
  by code_simp



text \<open>What a completion leaves behind: the claim completed, its row done, the proof recorded as an
  artifact, one receipt under the claim's own key, every other claim and row as it was; and the
  same claim can never be completed again, by anyone.\<close>

theorem completion_effects:
  assumes "complete_claim L W lanes art i path kind enforce body source sid actor sys t d = Inr (d', stored)"
  shows "\<exists>c. claimd d i = Some c \<and>
     d_claims d' = upd_where (\<lambda>x. c_id x = i) (\<lambda>x. x\<lparr>c_status := ''completed'', c_version := c_version x + 1\<rparr>) (d_claims d) \<and>
     d_works d' = upd_where (\<lambda>w. w_id w = c_work c)
       (\<lambda>w. w\<lparr>w_intent := ''done'', w_updated := t, w_version := w_version w + 1\<rparr>) (d_works d) \<and>
     (\<exists>a \<in> set (d_artifacts d'). a_work a = Some (c_work c) \<and> a_path a = stored) \<and>
     event_by_key d (''coord-complete:'' @ i) = None \<and>
     (\<exists>e. event_by_key d' (''coord-complete:'' @ i) = Some e \<and> e_work e = Some (c_work c)) \<and>
     (\<forall>W2 art2 path2 kind2 enforce2 body2 source2 sid2 actor2 sys2 t2.
        isl (complete_claim L W2 lanes art2 i path2 kind2 enforce2 body2 source2 sid2 actor2 sys2 t2 d'))"
proof -
  obtain c where c: "completion_gate L W lanes i path kind enforce sid actor sys t d = Inr (c, stored)"
    "completion_writes lanes art stored kind source body c t d = Inr d'"
    using complete_claim_Inr [OF assms] by blast
  have ci: "claimd d i = Some c" using completion_gate_Inr [OF c(1)] by blast
  then have "c_id c = i" using claimd_SomeD by blast
  moreover have "isl (complete_claim L W2 lanes art2 i path2 kind2 enforce2 body2 source2 sid2 actor2 sys2 t2 d')"
    for W2 art2 path2 kind2 enforce2 body2 source2 sid2 actor2 sys2 t2
    using complete_once [OF assms, of L W2 lanes art2 path2 kind2 enforce2 body2 source2 sid2 actor2 sys2 t2] by auto
  moreover have "complete_status = (\<lambda>x. x\<lparr>c_status := ''completed'', c_version := c_version x + 1\<rparr>)"
     "close_work t = (\<lambda>w. w\<lparr>w_intent := ''done'', w_updated := t, w_version := w_version w + 1\<rparr>)"
    by (auto simp: complete_status_def close_work_def)
  ultimately show ?thesis using ci completion_writes_result [OF c(2)] by auto
qed

theorem completion_effects_witness:
  "\<exists>d' e. complete_claim demo_lib demo_proofs default_lanes ''a1'' ''c4'' None None True None [] (Some ''claude:a'')
       None None 100 demo_review_db = Inr (d', ''docs/out.md'') \<and> event_by_key d' ''coord-complete:c4'' = Some e"
proof -
  let ?r = "complete_claim demo_lib demo_proofs default_lanes ''a1'' ''c4'' None None True None [] (Some ''claude:a'')
       None None 100 demo_review_db"
  from Inr_fst_snd [OF demo_completes] obtain d' where got: "?r = Inr (d', ''docs/out.md'')" ..
  from completion_effects [OF got] have "\<exists>e. event_by_key d' (''coord-complete:'' @ ''c4'') = Some e" by blast
  with got show ?thesis by simp
qed


section \<open>Blocked rows\<close>

text \<open>Releasing a classified block is carried out once. Repeating the request, at the same clock
  reading and after any further events were appended, changes nothing and returns the event of the
  first time.\<close>

theorem block_release_once:
  assumes "release_classified_block L lanes work expected actor sid nt t d = Inr (d1, r1)"
    and "release_classified_block L lanes work expected actor sid nt t (event_log.append_all es d1) = Inr (d2, r2)"
  shows "d2 = event_log.append_all es d1 \<and> k_event r2 = k_event r1"
  by (rule classified_release.once_for_all [OF assms])

theorem block_release_once_witness:
  "\<exists>d1 r1 d2 r2. release_classified_block demo_lib default_lanes ''W7'' ''ready_for_owner_resume'' ''claude'' ''claude:a''
       None 100 demo_review_db = Inr (d1, r1) \<and>
     release_classified_block demo_lib default_lanes ''W7'' ''ready_for_owner_resume'' ''claude'' ''claude:a''
       None 100 (event_log.append_all [] d1) = Inr (d2, r2) \<and> k_event r2 = k_event r1"
proof -
  let ?f = "release_classified_block demo_lib default_lanes ''W7'' ''ready_for_owner_resume'' ''claude'' ''claude:a'' None 100"
  have "\<not> isl (bindE (?f demo_review_db) (\<lambda>(d1, r1). ?f d1))" by code_simp
  then obtain d1 r1 d2 r2 where r: "?f demo_review_db = Inr (d1, r1)" "?f d1 = Inr (d2, r2)"
    by (cases "?f demo_review_db"; cases "?f (fst (projr (?f demo_review_db)))") auto
  then have "?f (event_log.append_all [] d1) = Inr (d2, r2)" by simp
  with block_release_once [OF r(1) this] r(1) show ?thesis by blast
qed

text \<open>Releasing a classified block frees the row and nothing else: unless the request is a replay,
  the row is queued without a reason, no held claim of it is left and the released identifiers are
  reported; all other rows and claims are as they were.\<close>

theorem block_release_frees:
  assumes "wf_db d" "release_classified_block L lanes work expected actor sid nt t d = Inr (d', r)" "\<not> k_replayed r"
  shows "(\<exists>w. workd d (strip work) = Some w \<and> lower (strip (w_intent w)) = ''blocked'' \<and>
       lower (strip expected) \<in> set releasable_classes \<and> norm (w_reason w) = lower (strip expected)) \<and>
     (\<forall>w. workd d' (strip work) = Some w \<longrightarrow> w_intent w = ''queued'' \<and> w_reason w = None) \<and>
     (\<forall>j. j \<noteq> strip work \<longrightarrow> workd d' j = workd d j) \<and>
     (\<forall>c \<in> set (d_claims d'). held c \<longrightarrow> c_work c \<noteq> strip work) \<and>
     filter (\<lambda>c. c_work c \<noteq> strip work) (d_claims d') = filter (\<lambda>c. c_work c \<noteq> strip work) (d_claims d)"
  using block_release_row_effect [OF assms] .

theorem block_release_frees_witness:
  "\<exists>d' r. release_classified_block demo_lib default_lanes ''W7'' ''ready_for_owner_resume'' ''claude'' ''claude:a''
       None 100 demo_review_db = Inr (d', r) \<and> workd d' ''W6'' = workd demo_review_db ''W6''"
proof -
  let ?r = "release_classified_block demo_lib default_lanes ''W7'' ''ready_for_owner_resume'' ''claude'' ''claude:a'' None 100 demo_review_db"
  have "map_sum (\<lambda>_. ()) (\<lambda>x. k_replayed (snd x)) ?r = Inr False" by code_simp
  then obtain d' r where r: "?r = Inr (d', r)" "\<not> k_replayed r" by (cases ?r) auto
  have "''W6'' \<noteq> strip ''W7''" by code_simp
  with block_release_frees [OF demo_review_wf r] r show ?thesis by blast
qed

text \<open>No update of a classification is lost. A classification that takes effect advances the version
  the caller expected by one and touches no claim; whoever else then still expects the old
  version, for whatever class, is refused or only gets an old request replayed.\<close>

theorem classification_cas:
  assumes "classify_blocked_work L lanes work reason version expected actor sid nt t d = Inr (d1, r1)"
    and "\<not> k_replayed r1"
  shows "(\<exists>w. workd d (strip work) = Some w \<and> w_version w = version \<and>
       workd d1 (strip work) = Some (w\<lparr>w_reason := Some (lower (strip reason)),
         w_note := coalesce (opt_text (clean nt)) (w_note w), w_updated := t, w_version := version + 1\<rparr>)) \<and>
     d_claims d1 = d_claims d \<and>
     (case classify_blocked_work L lanes2 work reason2 version expected2 actor2 sid2 nt2 t2 d1 of
        Inl _ \<Rightarrow> True | Inr (d2, r2) \<Rightarrow> k_replayed r2 \<and> d2 = d1)"
proof -
  obtain w where w: "workd d (strip work) = Some w"
    "classify_row L (strip work) (lower (strip reason)) version (norm expected) (lower (strip actor)) (strip sid) (clean nt) w t d = Inr (d1, r1)"
    using classify_outcome [OF assms(1)] assms(2) by (auto simp: outcome_def replay_of_def split: option.splits)
  note s = classify_row_swaps [OF w(2,1)]
  have r: "workd d1 (strip work) = Some (w\<lparr>w_reason := Some (lower (strip reason)),
         w_note := coalesce (opt_text (clean nt)) (w_note w), w_updated := t, w_version := version + 1\<rparr>)"
    using s(1,2) by (simp add: reclassify_def)
  have "k_replayed r2 \<and> d2 = d1" if second: "classify_blocked_work L lanes2 work reason2 version expected2 actor2 sid2 nt2 t2 d1 = Inr (d2, r2)"
    for d2 r2
  proof -
    have k: "k_replayed r2" using version_refused [OF r _ second] by simp
    then show ?thesis
      using classify_outcome [OF second] classify_row_posted
      by (fastforce simp: outcome_def posted_def split: option.splits)
  qed
  then show ?thesis using w(1) s r by (auto split: sum.splits)
qed

theorem classification_cas_witness:
  "\<exists>d1 r1. classify_blocked_work demo_lib default_lanes ''W7'' ''operator_decision'' 0 (Some ''ready_for_owner_resume'')
       ''claude'' ''claude:a'' None 100 demo_review_db = Inr (d1, r1) \<and> d_claims d1 = d_claims demo_review_db"
proof -
  let ?r = "classify_blocked_work demo_lib default_lanes ''W7'' ''operator_decision'' 0 (Some ''ready_for_owner_resume'')
       ''claude'' ''claude:a'' None 100 demo_review_db"
  have "map_sum (\<lambda>_. ()) (\<lambda>x. k_replayed (snd x)) ?r = Inr False" by code_simp
  then obtain d1 r1 where r: "?r = Inr (d1, r1)" "\<not> k_replayed r1" by (cases ?r) auto
  from classification_cas [OF r] r show ?thesis by blast
qed

section \<open>Runs and housekeeping\<close>

text \<open>A run ends once. Ending a run with a terminal state stamps it; after that neither ending it
  again, whatever the state, nor a later appearance of the same identifier changes the row.\<close>

theorem run_ends_once:
  assumes "state \<in> set terminal_run_states" "rund d i = Some r"
  shows "\<exists>r'. rund (finalize_run i state t d) i = Some r' \<and> run_over r' \<and> r_finished r' \<noteq> None \<and>
     (run_over r \<longrightarrow> r_state r' = r_state r) \<and> (run_over r \<and> r_finished r \<noteq> None \<longrightarrow> r' = r) \<and>
     finalize_run i state' t' (finalize_run i state t d) = finalize_run i state t d \<and>
     (case appear_run probe host new_id run_id args t' (finalize_run i state t d) of
        Inl _ \<Rightarrow> True | Inr (d', j) \<Rightarrow> rund d' i = Some r')"
proof -
  let ?p = "\<lambda>r. \<not> run_over r \<or> r_finished r = None"
  let ?r = "if ?p r then finalize_row state t r else r"
  have id: "r_id (finalize_row state t x) = r_id x" for x by (simp add: finalize_row_def)
  have "r_id r = i" using assms(2) by (auto simp: rund_def dest: find_SomeD)
  moreover have "rund (finalize_run i state t d) i =
      map_option (\<lambda>x. if r_id x = i \<and> ?p x then finalize_row state t x else x) (rund d i)"
    unfolding finalize_run_def rund_def upd_runs_def by (simp add: find_upd_where id)
  ultimately have r': "rund (finalize_run i state t d) i = Some ?r" using assms(2) by simp
  moreover have over: "run_over ?r" "r_finished ?r \<noteq> None" using assms(1) by (auto simp: run_over_def finalize_row_def)
  moreover have "run_over r \<longrightarrow> r_state ?r = r_state r" by (simp add: finalize_row_def)
  moreover have "rund d' i = Some ?r" if "appear_run probe host new_id run_id args t' (finalize_run i state t d) = Inr (d', j)" for d' j
    by (rule appear_run_keeps_over [OF that r' over(1)])
  ultimately show ?thesis
    using finalize_run_twice [OF assms(1)] by (intro exI [of _ ?r]) (auto split: sum.splits)
qed

theorem run_ends_once_witness:
  "\<exists>r'. rund (finalize_run ''r'' ''done'' 5 (demo_db\<lparr>d_runs := [new_run_row ''r'' None demo_run 1]\<rparr>)) ''r'' = Some r' \<and> run_over r'"
proof -
  have "''done'' \<in> set terminal_run_states" by (simp add: terminal_run_states_def)
  moreover have "rund (demo_db\<lparr>d_runs := [new_run_row ''r'' None demo_run 1]\<rparr>) ''r'' = Some (new_run_row ''r'' None demo_run 1)"
    by (simp add: rund_def new_run_row_def)
  ultimately show ?thesis using run_ends_once by blast
qed

text \<open>Pruning archives exactly the closed rows that are old enough and not yet archived, deletes
  nothing, and reports as many rows as it archives.\<close>

theorem prune_exact:
  assumes "wf_db d"
  shows "d_works (fst (prune_terminal older False t tw d)) =
       map (\<lambda>w. if terminal (w_intent w) \<and> w_archived w = None \<and> w_updated w < t - older
         then w\<lparr>w_archived := Some tw, w_updated := tw, w_version := w_version w + 1\<rparr> else w) (d_works d) \<and>
     pr_archived (snd (prune_terminal older False t tw d)) = length (filter (prunable (t - older)) (d_works d)) \<and>
     pr_retained (snd (prune_terminal older False t tw d)) + pr_proofless (snd (prune_terminal older False t tw d)) =
       pr_archived (snd (prune_terminal older False t tw d)) \<and>
     d_claims (fst (prune_terminal older False t tw d)) = d_claims d \<and>
     d_events (fst (prune_terminal older False t tw d)) = d_events d"
proof -
  have "upd_where (prunable (t - older)) (archive_row tw) (d_works d) =
       map (\<lambda>w. if terminal (w_intent w) \<and> w_archived w = None \<and> w_updated w < t - older
         then w\<lparr>w_archived := Some tw, w_updated := tw, w_version := w_version w + 1\<rparr> else w) (d_works d)"
    by (simp add: upd_where_def prunable_def archive_row_def cong: if_cong)
  then have works: "d_works (fst (prune_terminal older False t tw d)) =
       map (\<lambda>w. if terminal (w_intent w) \<and> w_archived w = None \<and> w_updated w < t - older
         then w\<lparr>w_archived := Some tw, w_updated := tw, w_version := w_version w + 1\<rparr> else w) (d_works d)"
    using prune_works [OF wf_keys [OF assms], of older t tw] by simp
  have "length (filter (has_proof d) rows) + length (filter (\<lambda>w. \<not> has_proof d w) rows) = length rows" for rows
    by (rule sum_length_filter_compl)
  then have "pr_retained (snd (prune_terminal older False t tw d)) + pr_proofless (snd (prune_terminal older False t tw d)) =
       pr_archived (snd (prune_terminal older False t tw d))"
    by (simp add: prune_terminal_def prune_report_of_def Let_def)
  with works show ?thesis
    by (simp add: prune_terminal_def prune_report_of_def prune_read_def prune_write_def Let_def table_simps)
qed

theorem prune_exact_witness: "d_claims (fst (prune_terminal 10 False 100 100 demo_db)) = d_claims demo_db"
  using prune_exact [OF demo_wf, of 10 100 100] by blast

text \<open>The root of a session is found: if following parents from a session reaches one without a
  parent in fewer than 16 steps, that one is its root; and whatever the rows say, the result is
  within 16 steps of the session, so the search always ends.\<close>

theorem root_session_found:
  "(hop (parent_of d) n i = Some r \<and> parent_of d r = None \<and> n < 16 \<longrightarrow> resolve_root_session d i = r) \<and>
   (\<exists>k \<le> 16. hop (parent_of d) k i = Some (resolve_root_session d i))"
  using root_found [of d n i r] root_within [of 16 d i "[]"] by (auto simp: resolve_root_session_def)

theorem root_session_found_witness: "resolve_root_session demo_db ''claude:a'' = ''claude:a''"
proof -
  have "hop (parent_of demo_db) 0 ''claude:a'' = Some ''claude:a''" by simp
  moreover have "parent_of demo_db ''claude:a'' = None" by code_simp
  ultimately show ?thesis using root_session_found [of demo_db 0 "''claude:a''" "''claude:a''"] by simp
qed

section \<open>Inboxes\<close>

text \<open>C13: draining an inbox loses nothing and repeats nothing. A bounded read, oldest first, returns the
  front of the unread messages; advancing the cursor to the last message read leaves exactly the
  rest unread, in the same order, and both orders of reading show the same messages.\<close>

theorem inbox_drains:
  assumes "wf_db d" "0 \<le> n"
  shows "read_inbox d r s n False False = take (nat n) (read_inbox d r s (-1) False False) \<and>
     read_inbox d r s (-1) True False = rev (read_inbox d r s (-1) False False) \<and>
     (read_inbox d r s n False False \<noteq> [] \<longrightarrow>
       read_inbox (advance_cursor r (e_id (fst (last (read_inbox d r s n False False)))) s t d) r s (-1) False False =
       drop (nat n) (read_inbox d r s (-1) False False))"
proof -
  have ok: "events_ok d" using assms(1) by (simp add: wf_db_def)
  have ok2: "events_ok (advance_cursor r m s t d)" for m
    using wf_advance [OF assms(1)] by (simp add: wf_db_def)
  have all: "read_inbox d r s (-1) False False = unread d r s False"
    by (simp add: read_inbox_unread [OF ok] sql_limit_def)
  have some: "read_inbox d r s n False False = take (nat n) (unread d r s False)"
    using assms(2) by (simp add: read_inbox_unread [OF ok] sql_limit_def)
  have "read_inbox (advance_cursor r (e_id (fst (last (read_inbox d r s n False False)))) s t d) r s (-1) False False =
       drop (nat n) (unread d r s False)" if "read_inbox d r s n False False \<noteq> []"
    using unread_after_read [OF ok some that, of t]
    by (simp add: read_inbox_unread [OF ok2] sql_limit_def) (simp add: some min_def)
  moreover have "read_inbox d r s (-1) True False = rev (unread d r s False)"
    by (simp add: read_inbox_unread [OF ok] sql_limit_def)
  ultimately show ?thesis using all some by simp
qed

theorem inbox_drains_witness:
  "read_inbox demo_db ''claude'' [] 1 False False = take 1 (read_inbox demo_db ''claude'' [] (-1) False False)"
  using inbox_drains [OF demo_wf, of 1] by simp

text \<open>The unread counts are exact: the total is the sum of the directed and the broadcast messages,
  and it is the number of messages an unlimited read returns, however large the backlog.\<close>

theorem inbox_counts_exact:
  assumes "wf_db d"
  shows "n_total (unread_inbox_counts d r s) = n_directed (unread_inbox_counts d r s) + n_broadcast (unread_inbox_counts d r s) \<and>
     unread_inbox_count d r s = length (read_inbox d r s (-1) newest False) \<and>
     n_directed (unread_inbox_counts d r s) = length (read_inbox d r s (-1) newest True)"
proof -
  have ok: "events_ok d" using assms by (simp add: wf_db_def)
  have "length (directed_unread d r s) = length (unread d r s True)"
    by (simp add: directed_unread_def unread_def conj_commute)
  with unread_count [OF ok, of r s newest] show ?thesis
    by (simp add: unread_inbox_counts_def Let_def read_inbox_unread [OF ok] sql_limit_def)
qed

theorem inbox_counts_exact_witness:
  "unread_inbox_count demo_db ''claude'' [] = length (read_inbox demo_db ''claude'' [] (-1) True False)"
  using inbox_counts_exact [OF demo_wf] by blast

text \<open>A cursor only moves forward and only its own: a stale acknowledgement never makes read messages
  unread again, and the cursors of other recipients and sessions stay where they are.\<close>

theorem cursor_monotone:
  assumes "0 \<le> get_cursor d r s" "0 \<le> n"
  shows "get_cursor (advance_cursor r n s t d) r s = max (get_cursor d r s) n \<and>
     ((r', s') \<noteq> (r, s) \<longrightarrow> get_cursor (advance_cursor r n s t d) r' s' = get_cursor d r' s')"
  using get_cursor_advance_max [OF assms] get_cursor_other by blast

theorem cursor_monotone_witness: "get_cursor (advance_cursor ''claude'' 2 [] 9 demo_db) ''claude'' [] = max 0 2"
proof -
  have "get_cursor demo_db ''claude'' [] = 0" by code_simp
  with cursor_monotone [of demo_db "''claude''" "[]" 2 9] show ?thesis by simp
qed

section \<open>The board\<close>

text \<open>Paging the board shows every row exactly once: whatever the chunk size, the chunks put
  together are the whole table in board order (newest update first, then identifier), and no chunk
  is empty or larger than asked for.\<close>

theorem board_paging_exact:
  assumes "wf_db d" "0 < n"
  shows "concat (board_scan_chunks n None (d_works d)) = sort_key board_key (d_works d) \<and>
     (\<forall>b \<in> set (board_scan_chunks n None (d_works d)). b \<noteq> [] \<and> length b \<le> n)"
proof -
  have "distinct (map w_id (d_works d))" using assms(1) by (simp add: wf_db_defs)
  from board_scan_from [OF this assms(2), of None] show ?thesis
    using board_scan_bounded by (auto simp: past_cursor_def)
qed

theorem board_paging_exact_witness: "concat (board_scan_chunks 2 None (d_works demo_db)) = sort_key board_key (d_works demo_db)"
  using board_paging_exact [OF demo_wf, of 2] by simp

text \<open>The board says done only of what is done: a row shows as done if and only if it is not archived,
  its intent is done, no local run of it is live, it has an artifact, and its review, where one is
  needed, has passed or was waived by the operator. Its proof state is then verified.\<close>

theorem status_done_exact:
  "(derive_work_status L lanes row t = ''done'' \<longleftrightarrow>
     \<not> truthy (field row ''archived_at'') \<and> row_intent row = ''done'' \<and>
     \<not> (local_live row \<and> \<not> is_observer_work_id lanes (str_or_empty L (field row ''work_id''))) \<and>
     truthy (field row ''has_artifact'') \<and>
     (\<not> needs_rubric L row \<or> field row ''rubric_verdict'' = JStr ''pass'' \<or> truthy (field row ''operator_ok_validated''))) \<and>
   (derive_work_status L lanes row t = ''done'' \<longrightarrow> derive_proof_state L lanes row t = ''verified_done'')"
proof -
  have pass: "lower (strip ''pass'') = ''pass''" by code_simp
  have closed: "''done'' \<notin> set closed_intents" by (simp add: closed_intents_def)
  have "derive_proof_state L lanes row t = ''verified_done''" if "derive_work_status L lanes row t = ''done''"
    using that status_done [of L lanes row t] closed pass
    by (auto simp: derive_proof_state_def Let_def text_field_def text_of_def str_or_empty_def)
  then show ?thesis using status_done by blast
qed

theorem status_done_exact_witness:
  "derive_proof_state demo_lib default_lanes [(''intent_state'', JStr ''done''), (''has_artifact'', JInt 1)] 5 = ''verified_done''"
proof -
  have "derive_work_status demo_lib default_lanes [(''intent_state'', JStr ''done''), (''has_artifact'', JInt 1)] 5 = ''done''"
    by code_simp
  with status_done_exact show ?thesis by blast
qed

section \<open>Decisions\<close>

text \<open>The events reported as a closed supersession cycle are exactly those from which following the
  pointers leads back to themselves.\<close>

theorem cycle_report_exact:
  "set (decision_supersession_cycle_members ps) = {x. \<exists>n > 0. hop (map_of ps) n x = Some x}"
  using cycle_members_exact [of ps] by (simp add: on_cycle_def)



text \<open>Rival decisions are settled. Among the terminal versions that supersede the same decision only
  the newest can become a head, and every other one is reported as a conflict lost to it.\<close>

theorem siblings_settled:
  assumes "i \<in> set (all_terminals vs ps)" "map_of ps i = Some p"
  shows "(i \<in> set (resolvable_terminals vs ps) \<longleftrightarrow>
       (\<forall>j \<in> set (all_terminals vs ps). map_of ps j = Some p \<longrightarrow> j \<le> i)) \<and>
     (i \<notin> set (resolvable_terminals vs ps) \<longrightarrow>
       (\<exists>w \<in> set (resolvable_terminals vs ps). map_of ps w = Some p \<and> i < w \<and> (i, p, w) \<in> set (conflicts_of vs ps)))"
proof -
  obtain w where w: "terminal_winner vs ps p = Some w" "w \<in> set (all_terminals vs ps)" "map_of ps w = Some p" "i \<le> w"
    using terminal_winner_max [OF assms] by blast
  have top: "j \<le> w" if "j \<in> set (all_terminals vs ps)" "map_of ps j = Some p" for j
    using terminal_winner_max [OF that] w(1) by auto
  have iff: "i \<in> set (resolvable_terminals vs ps) \<longleftrightarrow> (\<forall>j \<in> set (all_terminals vs ps). map_of ps j = Some p \<longrightarrow> j \<le> i)"
    using resolvable_iff [of i vs ps] assms by auto
  have ww: "w \<in> set (resolvable_terminals vs ps)" using resolvable_iff [of w vs ps] w top by auto
  have "(i, p, w) \<in> set (conflicts_of vs ps)" if "i \<noteq> w"
    using assms w(1) that by (force simp: conflicts_of_def loses_def List.map_filter_def image_iff)
  moreover have "i < w \<and> i \<noteq> w" if "i \<notin> set (resolvable_terminals vs ps)" using that ww w(4) by (cases "i = w") auto
  ultimately show ?thesis using iff ww w(3) by blast
qed

theorem siblings_settled_witness:
  "2 \<notin> set (resolvable_terminals
       [\<lparr>n_id = 1, n_ts = 1, n_actor = None, n_work = None, n_refs = JList [], n_payload = []\<rparr>,
        \<lparr>n_id = 2, n_ts = 1, n_actor = None, n_work = None, n_refs = JList [], n_payload = []\<rparr>,
        \<lparr>n_id = 3, n_ts = 1, n_actor = None, n_work = None, n_refs = JList [], n_payload = []\<rparr>] [(2, 1), (3, 1)])"
proof -
  let ?v = "\<lambda>i. \<lparr>n_id = i, n_ts = 1, n_actor = None, n_work = None, n_refs = JList [], n_payload = []\<rparr>"
  have t: "set (all_terminals [?v 1, ?v 2, ?v 3] [(2, 1), (3, 1)]) = {2, 3}" by (auto simp: all_terminals_def)
  then have "2 \<in> set (all_terminals [?v 1, ?v 2, ?v 3] [(2, 1), (3, 1)])" by blast
  from siblings_settled [OF this, of 1] t show ?thesis by auto
qed

section \<open>The whole system\<close>



section \<open>The life of the database\<close>

text \<open>C16: history is never rewritten. However many operations run, in any order and at any clock
  reading: the event log only grows at its end, no session, work, claim or run row disappears, a
  claim keeps its work and its session and is never held again once it has ended, and a run that
  has ended and been stamped stays exactly as it was.\<close>

theorem history_kept:
  assumes "wf_db d" "statuses_known d" "protocol_steps L lanes d d'"
  shows "(\<exists>new. d_events d' = d_events d @ new) \<and>
     (\<forall>s \<in> set (d_sessions d). \<exists>s' \<in> set (d_sessions d'). s_id s' = s_id s) \<and>
     (\<forall>w \<in> set (d_works d). \<exists>w' \<in> set (d_works d'). w_id w' = w_id w) \<and>
     (\<forall>c \<in> set (d_claims d). \<exists>c' \<in> set (d_claims d'). c_id c' = c_id c \<and> c_work c' = c_work c \<and>
        c_session c' = c_session c \<and> (held c' \<longrightarrow> held c)) \<and>
     (\<forall>r \<in> set (d_runs d). run_over r \<and> r_finished r \<noteq> None \<longrightarrow> r \<in> set (d_runs d'))"
proof -
  have k: "kept d d'" using protocol_steps_keep [OF assms(3,1)] by blast
  have "\<exists>new. d_events d' = d_events d @ new"
    using k by (auto simp: kept_def grows_def list.rel_eq)
  moreover have "\<exists>s' \<in> set (d_sessions d'). s_id s' = s_id s" if "s \<in> set (d_sessions d)" for s
    using growsD [OF _ that, of same_session] k by (auto simp: kept_def same_session_def)
  moreover have "\<exists>w' \<in> set (d_works d'). w_id w' = w_id w" if "w \<in> set (d_works d)" for w
    using growsD [OF _ that, of same_work] k by (auto simp: kept_def same_work_def)
  moreover have "\<exists>c' \<in> set (d_claims d'). c_id c' = c_id c \<and> c_work c' = c_work c \<and>
        c_session c' = c_session c \<and> (held c' \<longrightarrow> held c)" if "c \<in> set (d_claims d)" for c
  proof -
    note c = that
    obtain c' where "c' \<in> set (d_claims d')" "claim_kept c c'"
      using growsD [of claim_kept "d_claims d" "d_claims d'" c] c k by (auto simp: kept_def)
    then show ?thesis using c assms(2) by (auto simp: claim_kept_def statuses_known_def)
  qed
  moreover have "r \<in> set (d_runs d')" if "r \<in> set (d_runs d)" "run_over r" "r_finished r \<noteq> None" for r
    using growsD [OF _ that(1), of run_kept] k that(2,3) by (auto simp: kept_def run_kept_def)
  ultimately show ?thesis by blast
qed

theorem history_kept_witness:
  "\<exists>new. d_events (end_session ''claude:a'' 50 (finalize_run ''r'' ''done'' 40 demo_db)) = d_events demo_db @ new"
proof -
  have "protocol_steps demo_lib default_lanes demo_db (end_session ''claude:a'' 50 (finalize_run ''r'' ''done'' 40 demo_db))"
    by (rule protocol_steps.further [OF protocol_steps.further [OF protocol_steps.stay
        protocol_step.coord [OF coord_step.finalize]] protocol_step.coord [OF coord_step.end_]])
  moreover have "statuses_known demo_db"
    by (simp add: statuses_known_def demo_defs)
  ultimately show ?thesis using history_kept [OF demo_wf] by blast
qed



text \<open>C18: no work stays locked by a session that went away. Once the lease of every claim still held
  on an open row has run out, any registered session the row is not kept from (by its assignee, a
  pause, a block or an unmet resume condition) succeeds in claiming it, and then owns it alone.\<close>

theorem abandoned_work_claimable:
  assumes "wf_db d" "workd d work = Some w" "work \<noteq> []" "available d sid w"
    and "\<And>c. c \<in> set (d_claims d) \<Longrightarrow> held c \<Longrightarrow> c_work c = work \<Longrightarrow> c_expires c < t"
    and "claimd d i = None" "sess d sid \<noteq> None" "sid \<noteq> []"
  shows "\<exists>d'. claim_work L lanes i token sid work step lease [] t0 t d = Inr (d', i) \<and>
     leases_of d' work = Some (sid, t + lease)"
proof -
  obtain d' where d': "claim_unlocked lanes i token sid work step lease t d = Inr (d', i)"
    using abandoned_claimable [OF assms(1-7)] by blast
  have "spec_lapse (\<lambda>w s e. e < t \<and> w = work) (leases_of d) work = None"
    using assms(5) holder_SomeD [of d work] by (auto simp: spec_lapse_def leases_of_def split: option.splits)
  with claim_leases [OF assms(1,3) d'] have "leases_of d' work = Some (sid, t + lease)" by (simp add: spec_grant_def)
  with d' assms(8) show ?thesis by (auto simp: claim_work_def)
qed

theorem abandoned_work_claimable_witness:
  "\<exists>d'. claim_work demo_lib default_lanes ''n'' ''tok'' ''claude:a'' ''W2'' None 60 [] 99 100 demo_db = Inr (d', ''n'') \<and>
     leases_of d' ''W2'' = Some (''claude:a'', 100 + 60)"
proof (rule abandoned_work_claimable [OF demo_wf])
  show "workd demo_db ''W2'' = Some (demo_work ''W2'' (Some ''W1'') ''running'')"
    by (simp add: workd_def demo_defs)
  show "available demo_db ''claude:a'' (demo_work ''W2'' (Some ''W1'') ''running'')" by code_simp
qed (auto simp: demo_defs held_def held_statuses_def claimd_def sess_def)

section \<open>Moving work between lanes, verdicts and events\<close>

text \<open>C19: a typed hand-off moves the row and leaves one head. When it succeeds without being a replay,
  the row had the version, the assignee (the caller's lane) and exactly the active heads the caller
  expected, and was open; afterwards the new event is the only active head, the row is assigned to
  the new owner with the intent asked for, nobody holds a live claim of it, and the claims of all
  other work are as they were.\<close>

theorem handoff_moves_work:
  assumes "wf_db d" "post_existing_work_handoff L W lanes a t d = Inr (d', res)" "\<not> hr_replayed res"
  shows "let r = clean_args a in
     (\<exists>w. workd d (ha_work r) = Some w \<and> ha_version r = JInt (w_version w) \<and> norm (w_assignee w) = ha_actor r \<and> \<not> closed_row w) \<and>
     sorted_ids (JList (ha_heads r)) = Some (hs_active (typed_handoff_head_state L d (ha_work r))) \<and>
     hs_active (typed_handoff_head_state L d' (ha_work r)) = [hr_event res] \<and>
     (\<exists>w'. workd d' (ha_work r) = Some w' \<and> w_assignee w' = Some (ha_owner r) \<and> w_intent w' = ha_intent r) \<and>
     (\<forall>c \<in> set (d_claims d'). \<not> live_held t (ha_work r) c) \<and>
     filter (\<lambda>c. c_work c \<noteq> ha_work r) (d_claims d') = filter (\<lambda>c. c_work c \<noteq> ha_work r) (d_claims d)"
proof -
  obtain r v heads sha w where s: "typed_handoff_request L lanes a = Inr (r, v, heads, sha)" "workd d (ha_work r) = Some w"
    "handoff_guards L W r v heads w d = Inr ()"
    "handoff_writes L lanes r v heads sha (typed_handoff_head_state L d (ha_work r)) t d = Inr (d', res)"
    using handoff_fresh [OF assms(2,3)] by blast
  note q = typed_handoff_request_Inr [OF s(1)] and g = handoff_guards_Inr [OF s(3)]
    and c = capsule_checks_Inr [OF typed_handoff_checked [OF s(1)]]
  note e = handoff_effect [OF assms(1) s(4,2) q(2)]
  show ?thesis unfolding q(1) [symmetric] Let_def
  proof (intro conjI)
    show "\<exists>w. workd d (ha_work r) = Some w \<and> ha_version r = JInt (w_version w) \<and> norm (w_assignee w) = ha_actor r \<and> \<not> closed_row w"
      using s(2) g(1-3) c(1) by blast
    show "sorted_ids (JList (ha_heads r)) = Some (hs_active (typed_handoff_head_state L d (ha_work r)))"
      using c(2) g(4) by simp
  qed (use e in blast)+
qed

theorem handoff_moves_work_witness:
  "\<exists>d' w'. map_sum id fst (post_existing_work_handoff demo_lib demo_open_proofs default_lanes (demo_handoff ''W4'') 100 demo_db) = Inr d' \<and>
     hs_active (typed_handoff_head_state demo_lib d' ''W4'') = [3] \<and> workd d' ''W4'' = Some w' \<and> w_assignee w' = Some ''codex''"
proof -
  let ?r = "post_existing_work_handoff demo_lib demo_open_proofs default_lanes (demo_handoff ''W4'') 100 demo_db"
  have "map_sum (\<lambda>_. ()) (\<lambda>x. (hr_replayed (snd x), hr_event (snd x))) ?r = Inr (False, 3)" by code_simp
  then obtain d' res where r: "?r = Inr (d', res)" "\<not> hr_replayed res" "hr_event res = 3" by (cases ?r) auto
  have c: "ha_work (clean_args (demo_handoff ''W4'')) = ''W4''" "ha_owner (clean_args (demo_handoff ''W4'')) = ''codex''"
    by code_simp+
  from handoff_moves_work [OF demo_wf r(1,2)] r show ?thesis unfolding Let_def c by auto
qed

text \<open>A lane hands a row off once. After a hand-off by a lane, any further hand-off of that row by the
  same lane, from whatever session, with whatever expectations and at whatever time, is refused or is
  the replay of a request that was carried out before.\<close>

theorem handoff_not_twice:
  assumes "wf_db d" "post_existing_work_handoff L W lanes a t d = Inr (d1, r1)" "\<not> hr_replayed r1"
    and "post_existing_work_handoff L W' lanes b t' d1 = Inr (d2, r2)"
    and "ha_work (clean_args b) = ha_work (clean_args a)" "ha_actor (clean_args b) = ha_actor (clean_args a)"
  shows "hr_replayed r2 \<and> d2 = d1"
proof -
  obtain r v heads sha w where s: "typed_handoff_request L lanes a = Inr (r, v, heads, sha)" "workd d (ha_work r) = Some w"
    "handoff_guards L W r v heads w d = Inr ()"
    "handoff_writes L lanes r v heads sha (typed_handoff_head_state L d (ha_work r)) t d = Inr (d1, r1)"
    using handoff_fresh [OF assms(2,3)] by blast
  note q = typed_handoff_request_Inr [OF s(1)]
  obtain w1 where w1: "workd d1 (ha_work r) = Some w1" "w_assignee w1 = Some (ha_owner r)" "wf_db d1"
    using handoff_effect [OF assms(1) s(4,2) q(2)] by blast
  have "hr_replayed r2"
  proof (rule ccontr)
    assume "\<not> hr_replayed r2"
    then obtain r' v' heads' sha' w' where s': "typed_handoff_request L lanes b = Inr (r', v', heads', sha')"
      "workd d1 (ha_work r') = Some w'" "handoff_guards L W' r' v' heads' w' d1 = Inr ()"
      "handoff_writes L lanes r' v' heads' sha' (typed_handoff_head_state L d1 (ha_work r')) t' d1 = Inr (d2, r2)"
      using handoff_fresh [OF assms(4)] by blast
    note q' = typed_handoff_request_Inr [OF s'(1)] and g' = handoff_guards_Inr [OF s'(3)]
    have "w' = w1" "ha_actor r' = ha_actor r" using s'(2) w1(1) assms(5,6) by (simp_all add: q(1) q'(1))
    moreover have "norm (Some (ha_owner r)) = ha_owner r" by (simp add: q(1) clean_args_def norm_def clean_def text_simps)
    ultimately show False using g'(2) w1(2) q(5) by simp
  qed
  with handoff_cases [OF assms(4) w1(3)] show ?thesis by (auto split: option.splits)
qed

theorem handoff_not_twice_witness:
  "\<exists>d1. map_sum id fst (post_existing_work_handoff demo_lib demo_open_proofs default_lanes (demo_handoff ''W4'') 100 demo_db) = Inr d1 \<and>
     map_sum id fst (post_existing_work_handoff demo_lib demo_open_proofs default_lanes (demo_handoff ''W4'') 200 d1) = Inr d1"
proof -
  let ?h = "post_existing_work_handoff demo_lib demo_open_proofs default_lanes (demo_handoff ''W4'')"
  have "map_sum (\<lambda>_. ()) (\<lambda>x. hr_replayed (snd x)) (?h 100 demo_db) = Inr False" by code_simp
  then obtain d1 r1 where r: "?h 100 demo_db = Inr (d1, r1)" "\<not> hr_replayed r1" by (cases "?h 100 demo_db") auto
  have "map_sum (\<lambda>_. ()) (\<lambda>_. ()) (bindE (?h 100 demo_db) (\<lambda>(d1, _). ?h 200 d1)) = Inr ()" by code_simp
  then obtain d2 r2 where r2: "?h 200 d1 = Inr (d2, r2)" using r(1) by (cases "?h 200 d1") auto
  from handoff_not_twice [OF demo_wf r r2 refl refl] r(1) r2 show ?thesis by auto
qed

text \<open>The operator's reassignment is a compare-and-swap. When it succeeds without being a replay, the
  control channel was authenticated, the row had the version, assignee and heads expected and no one
  held a live claim of it or ran it; afterwards the row has the next version and the new assignee,
  the new event is the only active head and no claim but lapsed ones of the row has changed.\<close>

theorem reassignment_moves_work:
  assumes "wf_db d" "post_operator_reassignment L W lanes a release cap t d = Inr (d', res)" "\<not> hr_replayed res"
  shows "let r = clean_args a in
     cap \<and> (\<forall>x \<in> set (d_runs d). \<not> open_run (ha_work r) x) \<and>
     (\<exists>w w'. workd d (ha_work r) = Some w \<and> ha_version r = JInt (w_version w) \<and> norm (w_assignee w) = ha_assignee r \<and>
        \<not> closed_row w \<and> workd d' (ha_work r) = Some w' \<and> w_version w' = w_version w + 1 \<and>
        w_assignee w' = Some (ha_owner r) \<and> w_intent w' = ha_intent r) \<and>
     sorted_ids (JList (ha_heads r)) = Some (hs_active (typed_handoff_head_state L d (ha_work r))) \<and>
     hs_active (typed_handoff_head_state L d' (ha_work r)) = [hr_event res] \<and>
     (\<forall>c \<in> set (d_claims d'). \<not> live_held t (ha_work r) c) \<and>
     d_claims d' = d_claims (fst (release_expired_claims_unlocked t (Some (ha_work r)) d))"
proof -
  obtain r v heads sha w where s: "operator_reassignment_request L lanes a release = Inr (r, v, heads, sha)" "cap"
    "workd d (ha_work r) = Some w" "reassignment_guards L W r v heads w d = Inr ()"
    "reassignment_writes L r v heads sha (typed_handoff_head_state L d (ha_work r)) t d = Inr (d', res)"
    using reassignment_fresh [OF assms(2,3)] by blast
  note q = operator_request_Inr [OF s(1)] and g = reassignment_guards_Inr [OF s(4)]
    and c = capsule_checks_Inr [OF operator_checked [OF s(1)]]
  note e = operator_effect [OF assms(1) s(5) q(2)]
  show ?thesis unfolding q(1) [symmetric] Let_def
  proof (intro conjI)
    show "\<exists>w w'. workd d (ha_work r) = Some w \<and> ha_version r = JInt (w_version w) \<and> norm (w_assignee w) = ha_assignee r \<and>
        \<not> closed_row w \<and> workd d' (ha_work r) = Some w' \<and> w_version w' = w_version w + 1 \<and>
        w_assignee w' = Some (ha_owner r) \<and> w_intent w' = ha_intent r"
      using s(3) g(1-3) c(1) e by blast
    show "sorted_ids (JList (ha_heads r)) = Some (hs_active (typed_handoff_head_state L d (ha_work r)))"
      using c(2) g(4) by simp
  qed (use e g(5) s(2) in blast)+
qed

theorem reassignment_moves_work_witness:
  "\<exists>d' w'. map_sum id fst (post_operator_reassignment demo_lib demo_open_proofs default_lanes (demo_handoff ''W5'') False True 100 demo_db) = Inr d' \<and>
     hs_active (typed_handoff_head_state demo_lib d' ''W5'') = [3] \<and> workd d' ''W5'' = Some w' \<and> w_assignee w' = Some ''codex''"
proof -
  let ?r = "post_operator_reassignment demo_lib demo_open_proofs default_lanes (demo_handoff ''W5'') False True 100 demo_db"
  have "map_sum (\<lambda>_. ()) (\<lambda>x. (hr_replayed (snd x), hr_event (snd x))) ?r = Inr (False, 3)" by code_simp
  then obtain d' res where r: "?r = Inr (d', res)" "\<not> hr_replayed res" "hr_event res = 3" by (cases ?r) auto
  have c: "ha_work (clean_args (demo_handoff ''W5'')) = ''W5''" "ha_owner (clean_args (demo_handoff ''W5'')) = ''codex''"
    by code_simp+
  from reassignment_moves_work [OF demo_wf r(1,2)] r show ?thesis unfolding Let_def c by auto
qed

text \<open>C20: hand-offs, reassignments and verdicts are carried out once. Whatever steps of the protocol
  happen in between, and at whatever later time and with whatever files on disk the same request
  comes again, it is refused or answered from the event it wrote, and nothing is changed.\<close>

theorem requests_once:
  assumes "wf_db d" "protocol_steps L lanes d1 d2"
  shows "(post_existing_work_handoff L W lanes a t d = Inr (d1, h1) \<and> post_existing_work_handoff L W' lanes a t' d2 = Inr (d3, h2) \<longrightarrow>
       d3 = d2 \<and> hr_replayed h2 \<and> hr_event h2 = hr_event h1) \<and>
     (post_operator_reassignment L W lanes a release cap t d = Inr (d1, h1) \<and>
       post_operator_reassignment L W' lanes a release cap' t' d2 = Inr (d3, h2) \<longrightarrow>
       d3 = d2 \<and> hr_replayed h2 \<and> hr_event h2 = hr_event h1) \<and>
     (post_audit_verdict L W lanes v t d = Inr (d1, v1) \<and> post_audit_verdict L W' lanes v t' d2 = Inr (d3, v2) \<longrightarrow>
       d3 = d2 \<and> vr_replayed v2 \<and> vr_event v2 = vr_event v1)"
proof (intro conjI impI; elim conjE)
  assume a: "post_existing_work_handoff L W lanes a t d = Inr (d1, h1)" "post_existing_work_handoff L W' lanes a t' d2 = Inr (d3, h2)"
  have wf: "wf_db d1" using handoff_keeps(2) [OF a(1) assms(1)] .
  obtain e where e: "event_by_key d1 (typed_handoff_key (clean_args a)) = Some e" "e_id e = hr_event h1"
    using handoff_cases [OF a(1) assms(1)] by (auto split: option.splits)
  from handoff_cases [OF a(2)] protocol_key [OF assms(2) wf e(1)] protocol_steps_keep [OF assms(2) wf] e(2)
  show "d3 = d2" "hr_replayed h2" "hr_event h2 = hr_event h1" by simp_all
next
  assume a: "post_operator_reassignment L W lanes a release cap t d = Inr (d1, h1)"
    "post_operator_reassignment L W' lanes a release cap' t' d2 = Inr (d3, h2)"
  have wf: "wf_db d1" using reassignment_keeps(2) [OF a(1) assms(1)] .
  obtain e where e: "event_by_key d1 (operator_key (clean_args a)) = Some e" "e_id e = hr_event h1"
    using reassignment_cases [OF a(1) assms(1)] by (auto split: option.splits)
  from reassignment_cases [OF a(2)] protocol_key [OF assms(2) wf e(1)] protocol_steps_keep [OF assms(2) wf] e(2)
  show "d3 = d2" "hr_replayed h2" "hr_event h2 = hr_event h1" by simp_all
next
  assume a: "post_audit_verdict L W lanes v t d = Inr (d1, v1)" "post_audit_verdict L W' lanes v t' d2 = Inr (d3, v2)"
  have wf: "wf_db d1" using verdict_keeps(2) [OF a(1) assms(1)] .
  obtain e where e: "event_by_key d1 (verdict_key v) = Some e" "e_id e = vr_event v1"
    using verdict_cases [OF a(1)] by (auto split: option.splits)
  from verdict_cases [OF a(2)] protocol_key [OF assms(2) wf e(1)] e(2)
  show "d3 = d2" "vr_replayed v2" "vr_event v2 = vr_event v1" by simp_all
qed

theorem requests_once_witness:
  "\<exists>d1 d2. map_sum id fst (post_existing_work_handoff demo_lib demo_open_proofs default_lanes (demo_handoff ''W4'') 100 demo_db) = Inr d1 \<and>
     d2 = finalize_run ''r'' ''done'' 150 d1 \<and>
     map_sum id fst (post_existing_work_handoff demo_lib demo_open_proofs default_lanes (demo_handoff ''W4'') 200 d2) = Inr d2"
proof -
  let ?h = "post_existing_work_handoff demo_lib demo_open_proofs default_lanes (demo_handoff ''W4'')"
  have run: "map_sum (\<lambda>_. ()) (\<lambda>_. ()) (bindE (?h 100 demo_db) (\<lambda>(d1, _). ?h 200 (finalize_run ''r'' ''done'' 150 d1))) = Inr ()"
    by code_simp
  then obtain d1 h1 where r: "?h 100 demo_db = Inr (d1, h1)" by (cases "?h 100 demo_db") auto
  define d2 where "d2 = finalize_run ''r'' ''done'' 150 d1"
  have steps: "protocol_steps demo_lib default_lanes d1 d2"
    unfolding d2_def by (rule protocol_steps.further [OF protocol_steps.stay protocol_step.coord [OF coord_step.finalize]])
  obtain d3 h2 where r2: "?h 200 d2 = Inr (d3, h2)" using run r by (cases "?h 200 d2") (auto simp: d2_def)
  from requests_once [OF demo_wf steps] r r2 have "d3 = d2" by blast
  with r r2 d2_def show ?thesis by auto
qed

text \<open>C21: a verdict decides the review and nothing else. A verdict that is recorded is PASS, FLAG or
  BLOCKED; a PASS comes from a configured lane that differs from the author's, and the author's lane
  is known. The row gets the verdict as its rubric and, unless it passed, the matching intent; the
  assignee, every claim, every run and every other row are as they were, and the verdict stands in
  the log under the key of the request.\<close>

theorem verdict_decides:
  assumes "post_audit_verdict L W lanes a t d = Inr (d', res)" "\<not> vr_replayed res"
  shows "let work = strip (va_work a); v = upper (strip (va_verdict a)) in
     v \<in> {''PASS'', ''FLAG'', ''BLOCKED''} \<and>
     (v = ''PASS'' \<longrightarrow> norm (va_actor a) \<in> set lanes \<and>
        (\<exists>author. latest_claim_author_lane L lanes d work = Inr (Some author) \<and> author \<noteq> norm (va_actor a))) \<and>
     (\<exists>w w'. workd d work = Some w \<and> workd d' work = Some w' \<and> w_rubric w' = Some (lower v) \<and> w_assignee w' = w_assignee w \<and>
        w_intent w' = (if v = ''PASS'' then w_intent w else if v = ''BLOCKED'' then ''blocked'' else ''queued'')) \<and>
     (\<forall>j. j \<noteq> work \<longrightarrow> workd d' j = workd d j) \<and> d_claims d' = d_claims d \<and> d_runs d' = d_runs d \<and>
     (\<exists>e. event_by_key d' (verdict_key a) = Some e \<and> e_id e = vr_event res \<and> e_kind e = ''audit_verdict'' \<and>
        e_verdict e = Some v \<and> e_work e = Some work)"
proof -
  obtain evidence author sel where s: "verdict_checks a = Inr evidence" "workd d (strip (va_work a)) \<noteq> None"
    "latest_claim_author_lane L lanes d (strip (va_work a)) = Inr author"
    "upper (strip (va_verdict a)) = ''PASS'' \<Longrightarrow> pass_gate L W lanes a author evidence d = Inr ()"
    "verdict_writes L a sel t d = Inr (d', res)"
    using verdict_fresh [OF assms] by blast
  note k = verdict_writes_keep [OF s(5)] and words = verdict_checks_Inr(1) [OF s(1)]
  obtain w where w: "workd d (strip (va_work a)) = Some w" using s(2) by blast
  show ?thesis unfolding Let_def
  proof (intro conjI impI allI)
    show "upper (strip (va_verdict a)) \<in> {''PASS'', ''FLAG'', ''BLOCKED''}" using words by (simp add: verdict_words_def)
    assume pass: "upper (strip (va_verdict a)) = ''PASS''"
    show "norm (va_actor a) \<in> set lanes" by (rule pass_gate_Inr(1) [OF s(4) [OF pass]])
    show "\<exists>author. latest_claim_author_lane L lanes d (strip (va_work a)) = Inr (Some author) \<and> author \<noteq> norm (va_actor a)"
      using pass_gate_Inr(2,3) [OF s(4) [OF pass]] s(3) by auto
  next
    show "\<exists>w w'. workd d (strip (va_work a)) = Some w \<and> workd d' (strip (va_work a)) = Some w' \<and>
        w_rubric w' = Some (lower (upper (strip (va_verdict a)))) \<and> w_assignee w' = w_assignee w \<and>
        w_intent w' = (if upper (strip (va_verdict a)) = ''PASS'' then w_intent w
          else if upper (strip (va_verdict a)) = ''BLOCKED'' then ''blocked'' else ''queued'')"
      using apply_verdict_effect [OF words, of t w] by (simp add: k(5) w)
  next
    show "workd d' j = workd d j" if "j \<noteq> strip (va_work a)" for j using that by (simp add: k(5) option.map_ident)
  qed (use k in \<open>simp_all add: verdict_event_def\<close>)
qed

theorem verdict_decides_witness:
  "\<exists>d' w'. map_sum id fst (post_audit_verdict demo_lib demo_proofs default_lanes demo_verdict_args 100 demo_review_db) = Inr d' \<and>
     workd d' ''W6'' = Some w' \<and> w_rubric w' = Some ''pass''"
proof -
  let ?v = "post_audit_verdict demo_lib demo_proofs default_lanes demo_verdict_args 100 demo_review_db"
  have "map_sum (\<lambda>_. ()) (\<lambda>x. vr_replayed (snd x)) ?v = Inr False" by code_simp
  then obtain d' res where r: "?v = Inr (d', res)" "\<not> vr_replayed res" by (cases ?v) auto
  have c: "strip (va_work demo_verdict_args) = ''W6''" "lower (upper (strip (va_verdict demo_verdict_args))) = ''pass''"
    by code_simp+
  from verdict_decides [OF r] r show ?thesis unfolding Let_def c by auto
qed





text \<open>The operator's approval is the one that counts. A sign-off that succeeds and is not a replay
  was made on an open row without a standing review barrier; afterwards the row is bound to the
  new event, one version on, every reader that asks for the operator's approval finds it valid, and
  the row's review status is passed for that reason.\<close>

theorem sign_off_counts:
  assumes "record_operator_sign_off L W lanes work reason refs operation expected t d = Inr (d', r)" "\<not> au_replayed r"
    and "wf_db d" "\<And>s. is_sha_text (sha256 L s)"
  shows "\<exists>w. workd d (strip work) = Some w \<and> \<not> closed_row w \<and> review_barrier d (strip work) = 0 \<and>
     workd d' (strip work) = Some (bind_ok (au_event r) t w) \<and>
     has_valid_operator_ok L d' (strip work) None None = Inr True \<and>
     classify_verdict_status L W lanes d' (strip work) (row_dict (bind_ok (au_event r) t w)) =
       Inr (plain_status True ''operator_ok'')"
proof -
  obtain w where w: "workd d (strip work) = Some w" "\<not> closed_row w"
    "sign_off_writes L W lanes (strip work) (strip reason) (kept_refs refs) (strip operation) w t d = Inr (d', r)"
    by (rule fresh_sign_off [OF assms(1,2)])
  note c = sign_off_honoured [OF w(3) assms(3) w(1,2) strip_idem assms(4)]
  from c w(1,2) sign_off_frame(3) [OF w(3) assms(3) w(1)] sign_off_no_barrier [OF w(3) assms(3) w(2)]
  show ?thesis by blast
qed

theorem sign_off_counts_witness:
  "\<exists>d' r. record_operator_sign_off demo_sha_lib demo_proofs default_lanes ''W5'' ''ok'' [''r''] ''op-demo-0003'' (Some 0) 5 demo_db =
       Inr (d', r) \<and> has_valid_operator_ok demo_sha_lib d' (strip ''W5'') None None = Inr True"
proof -
  have run: "case record_operator_sign_off demo_sha_lib demo_proofs default_lanes ''W5'' ''ok'' [''r''] ''op-demo-0003'' (Some 0) 5 demo_db
    of Inl _ \<Rightarrow> False | Inr (d', r) \<Rightarrow> \<not> au_replayed r" by code_simp
  then obtain d' r where r: "record_operator_sign_off demo_sha_lib demo_proofs default_lanes ''W5'' ''ok'' [''r''] ''op-demo-0003''
      (Some 0) 5 demo_db = Inr (d', r)" "\<not> au_replayed r" by (auto split: sum.splits)
  from sign_off_counts [OF r demo_wf demo_sha] r(1) show ?thesis by blast
qed

text \<open>A tier lowered by the opposite lane stays lowered. When a correction that is not a repeat
  lowers the review tier of a row assigned to a lane, the caller is a different lane, the row
  carries the new tier one version on and no other row changes, and the receipt bound to the row
  is one that the tier policy accepts.\<close>

theorem tier_correction_counts:
  assumes "correct_work_tier L lanes a t d = Inr (d', res)" "r = clean_tier_args a"
    and "wf_db d" "workd d (ta_work r) = Some w" "event_by_key d (tier_key r) = None"
    and "lowers r" "norm (w_assignee w) \<in> set lanes" "0 \<le> ta_version r"
  shows "norm (w_assignee w) \<noteq> ta_actor r \<and> w_version w = ta_version r \<and>
     workd d' (ta_work r) = Some (corrected_row r (au_event res) t w) \<and>
     (\<forall>j. j \<noteq> ta_work r \<longrightarrow> workd d' j = workd d j) \<and>
     tier_down_authorized L lanes d' (ta_work r) (row_dict (corrected_row r (au_event res) t w)) = Inr True"
  using lowering_authorizes [OF assms] correction_effect [OF assms(1-5)] assms(6) by blast

theorem tier_correction_counts_witness:
  "\<exists>d' res. correct_work_tier demo_lib default_lanes demo_tier 5 demo_db = Inr (d', res) \<and>
     norm (Some ''claude'') \<noteq> ta_actor (clean_tier_args demo_tier)"
proof -
  have "case correct_work_tier demo_lib default_lanes demo_tier 5 demo_db of Inl _ \<Rightarrow> False | Inr _ \<Rightarrow> True" by code_simp
  then obtain d' res where r: "correct_work_tier demo_lib default_lanes demo_tier 5 demo_db = Inr (d', res)"
    by (auto split: sum.splits)
  have w: "workd demo_db (ta_work (clean_tier_args demo_tier)) = Some (demo_work ''W5'' None ''queued'')" by code_simp
  have "event_by_key demo_db (tier_key (clean_tier_args demo_tier)) = None" "lowers (clean_tier_args demo_tier)"
    "norm (w_assignee (demo_work ''W5'' None ''queued'')) \<in> set default_lanes" "0 \<le> ta_version (clean_tier_args demo_tier)"
    by code_simp+
  from tier_correction_counts [OF r refl demo_wf w this] r show ?thesis by (auto simp: demo_work_def)
qed

text \<open>C24: resumed work can be taken up. When its lane resumes a paused row and nothing else has to be
  met (no condition is recorded, it has been met, or it is the manual one), no claim is touched and
  any registered session of that lane then succeeds in claiming the row.\<close>

theorem resumed_work_claimable:
  assumes "resume_parked_work L lanes a t d = Inr (d', res)" "\<not> au_replayed res" "r = clean_resume_args a"
    and "wf_db d" "workd d (rp_of r) = Some w" "session_actor_of d sid = rp_actor r" "sess d sid \<noteq> None"
    and "clean (w_resume_pred w) = [] \<or> w_ready_at w \<noteq> None \<or> manual_authorized L w = Inr True"
    and "claimd d i = None" "rp_of r \<noteq> []"
  shows "d_claims d' = d_claims d \<and> (\<exists>d2. claim_unlocked lanes i token sid (rp_of r) step lease t2 d' = Inr (d2, i))"
  using resumed_claimable [OF assms] resume_row_and_log [OF assms(1)] by (simp add: row_and_log_def)

theorem resumed_work_claimable_witness:
  "\<exists>d' res. resume_parked_work demo_lib default_lanes demo_resume 5 demo_parked_db = Inr (d', res) \<and>
     (\<exists>d2. claim_unlocked default_lanes ''n'' ''tok'' ''claude:a'' ''W5'' None 60 6 d' = Inr (d2, ''n''))"
proof -
  have "case resume_parked_work demo_lib default_lanes demo_resume 5 demo_parked_db of Inl _ \<Rightarrow> False | Inr (_, r) \<Rightarrow> \<not> au_replayed r"
    by code_simp
  then obtain d' res where r: "resume_parked_work demo_lib default_lanes demo_resume 5 demo_parked_db = Inr (d', res)"
    "\<not> au_replayed res" by (auto split: sum.splits)
  have w: "workd demo_parked_db (rp_of (clean_resume_args demo_resume)) = Some demo_parked" by code_simp
  have of: "rp_of (clean_resume_args demo_resume) = ''W5''" by code_simp
  have "session_actor_of demo_parked_db ''claude:a'' = rp_actor (clean_resume_args demo_resume)"
    "sess demo_parked_db ''claude:a'' \<noteq> None" "clean (w_resume_pred demo_parked) = [] \<or> w_ready_at demo_parked \<noteq> None \<or>
       manual_authorized demo_lib demo_parked = Inr True" "claimd demo_parked_db ''n'' = None"
    "rp_of (clean_resume_args demo_resume) \<noteq> []" by code_simp+
  from resumed_work_claimable [OF r refl demo_parked_wf w this] r(1) show ?thesis unfolding of by blast
qed

text \<open>C25: a route is chosen exactly if there is one to choose, and then the best. A plan names no lane if
  and only if no lane qualifies (is available and authorised, has the capabilities, is independent of
  the author where the row is T0, meets no foreign claim or run, no open dependency, no restriction
  of the assignee or of the user, and has complete, current, unexhausted usage evidence); the lane it
  names qualifies, no qualifying lane has a higher score, and among equals it is the first by name.\<close>

theorem routing_exact:
  assumes "plan_assignment_route T L w heads lanes usage y observed_at now_at expires_at explicit = Inr p"
  shows "\<exists>v q. checked_evidence heads lanes usage = Inr v \<and>
     checked_decision T (ev_usage v) y observed_at now_at expires_at explicit = Inr q \<and>
     (pl_selected p = None \<longleftrightarrow> (\<forall>l \<in> set (ev_lanes v). \<not> qualifies T w (ev_usage v) y q l)) \<and>
     (\<forall>lane. pl_selected p = Some lane \<longrightarrow> (\<exists>l \<in> set (ev_lanes v). ls_lane l = lane \<and> qualifies T w (ev_usage v) y q l \<and>
        (\<forall>l' \<in> set (ev_lanes v). qualifies T w (ev_usage v) y q l' \<longrightarrow>
          (let s = (\<lambda>x. score_or_zero (candidate_of T w y q (ev_heads v) (ev_usage v) x))
           in s l' < s l \<or> s l' = s l \<and> lane \<le> ls_lane l'))))"
proof -
  obtain v q d where d: "checked_evidence heads lanes usage = Inr v"
    "checked_decision T (ev_usage v) y observed_at now_at expires_at explicit = Inr q"
    "d = draft_plan T L w v y q" "p = d\<lparr>pl_sha := pl_sha p\<rparr>" "pl_sha p = digest L (plan_document d)"
    by (rule plan_Inr [OF assms])
  have "pl_selected p = pl_selected d" by (subst d(4)) simp
  with draft_selected [OF d(3)] d(1,2) show ?thesis by auto
qed

theorem routing_exact_witness:
  "\<exists>p. plan_assignment_route demo_clock demo_sha_lib demo_route_work [] [demo_lane ''claude'' 1, demo_lane ''codex'' 0]
       [demo_usage ''codex'' 5] demo_policy ''12'' ''13'' ''15'' None = Inr p \<and>
     pl_selected p = Some ''codex''"
proof -
  let ?v = "\<lparr>ev_heads = [], ev_lanes = [demo_lane ''claude'' 1, demo_lane ''codex'' 0], ev_usage = [demo_usage ''codex'' 5]\<rparr>"
  let ?q = "\<lparr>dn_now = 13, dn_observed = 12, dn_expires = 15, dn_requested = None\<rparr>"
  have read: "read_utc demo_clock ''11'' = Some 11" "read_utc demo_clock ''12'' = Some 12" "read_utc demo_clock ''13'' = Some 13"
    "read_utc demo_clock ''15'' = Some 15" by (simp_all add: demo_clock_def nat_of_digits_def digit_value_def)
  have texts: "strip ''11'' = ''11''" "strip ''12'' = ''12''" "strip ''13'' = ''13''" "strip ''15'' = ''15''" by code_simp+
  have v: "checked_evidence [] [demo_lane ''claude'' 1, demo_lane ''codex'' 0] [demo_usage ''codex'' 5] = Inr ?v"
    by (simp add: checked_evidence_def normalized_heads_def by_lane_def demo_lane_def demo_usage_def)
  have age: "round_to 6 5 = 5" by (rule round_to_fixed [of _ _ 5000000]) simp
  have q: "checked_decision demo_clock (ev_usage ?v) demo_policy ''12'' ''13'' ''15'' None = Inr ?q"
    by (simp add: checked_decision_def utc_def clean_required_def texts read demo_usage_def demo_policy_def age
        freshness_deadlines_def optional_lane_def)
  obtain p where p: "plan_assignment_route demo_clock demo_sha_lib demo_route_work [] [demo_lane ''claude'' 1, demo_lane ''codex'' 0]
       [demo_usage ''codex'' 5] demo_policy ''12'' ''13'' ''15'' None = Inr p"
    using plan_accepted [OF v q] demo_sha unfolding digest_def by blast
  have yes: "qualifies demo_clock demo_route_work (ev_usage ?v) demo_policy ?q (demo_lane ''codex'' 0)"
    and no: "\<not> qualifies demo_clock demo_route_work (ev_usage ?v) demo_policy ?q (demo_lane ''claude'' 1)"
    by (simp_all add: qualifies_def demo_route_work_def demo_lane_def lane_usage_def demo_usage_def texts read demo_policy_def)
  from routing_exact [OF p] v q yes no have "pl_selected p = Some ''codex''" by (cases "pl_selected p") (auto simp: demo_lane_def)
  with p show ?thesis by blast
qed



text \<open>C27: what is filed under a key is filed once. After a run event with a key was recorded, recording
  any event with the same key again, later and whatever happened to the log in between, writes
  nothing and returns the identifier of the first; and the log in between only grew, its identifiers
  rising and the sequence numbers of every thread and every run without gaps.\<close>

theorem run_event_once:
  assumes "log_ok l" "record_run_event L env enabled e t l = Inr (l1, Some i)" "recorded L l1 l2"
    and "stored_key (i_key e') = stored_key (i_key e)" "otext (stored_key (i_key e)) \<noteq> []"
    and "writer_enabled env' enabled'" "validate_event_args e' = Inr ()"
  shows "record_run_event L env' enabled' e' t' l2 = Inr (l2, Some i) \<and> log_ok l2 \<and> (\<exists>new. rl_rows l2 = rl_rows l1 @ new)"
proof -
  have l1: "log_ok l1" by (rule record_appends(1) [OF assms(1,2)])
  show ?thesis using record_again [OF assms(2,3) l1 assms(4-7)] recorded_keeps [OF assms(3) l1] by blast
qed

theorem run_event_once_witness:
  "\<exists>l. record_run_event demo_lib None None (demo_input ''k'') 2 l = Inr (l, Some (rl_next empty_run_log))"
proof -
  have v: "validate_event_args (demo_input ''k'') = Inr ()" "stored_key (i_key (demo_input ''k'')) = Some ''k''" "i_thread (demo_input ''k'') = Some ''t''"
    using demo_input_valid by (simp_all add: demo_input_def)
  obtain l i where r: "record_run_event demo_lib None None (demo_input ''k'') 1 empty_run_log = Inr (l, Some i)"
    using record_accepted [OF log_ok_empty demo_input_valid(3) v(1), of demo_lib 1] v(2,3) by auto
  have "keyed_event empty_run_log (stored_key (i_key (demo_input ''k''))) = None" by (simp add: keyed_event_def empty_run_log_def)
  with record_Inr [OF r] have "i = rl_next empty_run_log" using insert_run_event_Inr(1) by auto
  with run_event_once [OF log_ok_empty r recorded.none refl _ demo_input_valid(3) v(1), of 2] v(2) show ?thesis by auto
qed

text \<open>A bounded loop run ends within its limits and leaves a sound trail. Unless its contract or
  limits are refused, in which case nothing is written, it adds at most as many events as the
  iterations allowed, even if it fails on the way. If it returns, the state is terminal, there are at
  most that many receipts (1000 at most), each valid, numbered from one and of this row and loop, all
  but the last asking to go on, and nowhere do as many equal receipts as the stagnation limit go on.\<close>

theorem loop_run_bounded:
  assumes "run_bounded_loop_contract L F W row c run fresh session enabled env k t w l = (w', l', x)" "log_ok l"
  shows "(\<exists>e. runner_limits L F c k = Inl e \<and> x = Inl e \<and> l' = l) \<or>
    (\<exists>m new. runner_limits L F c k = Inr m \<and> ll_iterations m \<le> 1000 \<and> rl_rows l' = rl_rows l @ new \<and> length new \<le> ll_iterations m \<and>
      (\<forall>o'. x = Inr o' \<longrightarrow> lo_state o' \<in> set allowed_terminal_states \<and> length (lo_receipts o') \<le> ll_iterations m \<and>
        (\<forall>i < length (lo_receipts o'). good_receipt L (loop_job_of L row c run fresh session enabled env t) (Suc i) (lo_receipts o' ! i)) \<and>
        (\<forall>r \<in> set (butlast (lo_receipts o')). normalized_terminal_state L (field r ''terminal_state'') = ''continue'') \<and>
        not_stuck L (ll_stagnation m) (lo_receipts o')))"
proof -
  have "''success'' \<in> set allowed_terminal_states" by (simp add: allowed_terminal_states_def)
  then show ?thesis
    using run_result [OF assms] ending_state runner_limits_bounds unfolding sound_receipts_def state_of_def by metis
qed

theorem loop_run_bounded_witness:
  "\<exists>w l o'. run_bounded_loop_contract demo_lib (\<lambda>_. None) demo_world [(''id'', JStr ''W5'')] demo_contract None ''f'' None None None
     (JInt 3) 1 0 empty_run_log = (w, l, Inr o') \<and> lo_state o' = ''clean_noop'' \<and> length (lo_receipts o') = 1 \<and>
     good_receipt demo_lib (loop_job_of demo_lib [(''id'', JStr ''W5'')] demo_contract None ''f'' None None None 1) 1 demo_receipt"
proof -
  obtain w l o' where r: "run_bounded_loop_contract demo_lib (\<lambda>_. None) demo_world [(''id'', JStr ''W5'')] demo_contract None ''f'' None None
    None (JInt 3) 1 0 empty_run_log = (w, l, Inr o')" "lo_state o' = ''clean_noop''" "lo_receipts o' = [demo_receipt]" using demo_run by blast
  from loop_run_bounded [OF r(1) log_ok_empty] r demo_limits show ?thesis by auto
qed

text \<open>C28: a scaffolded loop contract is a valid one: whatever the type and the title (of at most 1165
  characters), the validator finds neither an error nor a warning in it. The bounded runner refuses
  it all the same until somebody sets a wall clock limit.\<close>

theorem scaffold_passes:
  assumes "length title \<le> 1165"
  shows "validate_loop_contract L (JObj (scaffold_contract kind title)) = Inr [] \<and>
    isl (runner_limits L F (scaffold_contract kind title) k)"
  using scaffold_valid [OF assms] scaffold_refused [OF assms] by blast

theorem scaffold_passes_witness:
  "validate_loop_contract demo_lib (JObj (scaffold_contract ''nightly'' ''Tidy up'')) = Inr [] \<and>
     isl (runner_limits demo_lib (\<lambda>_. None) (scaffold_contract ''nightly'' ''Tidy up'') (JInt 3))"
  by (rule scaffold_passes) simp



text \<open>A measured usage counts once. Recording a usage whose key the ledger does not know yet adds
  exactly its tokens to the row it names and nothing to any other; recording the same usage (row,
  source and identifier) again, whatever else was recorded in between, changes nothing and is
  reported as a duplicate. Both payloads are assumed to be read back as they were written, and
  digests to contain no blanks.\<close>

theorem usage_counts_once:
  assumes "log_ok l" "clean_usage a0 = Inr a" "record_measured_token_usage L env enabled a0 t l = Inr (l', res)" "ur_inserted res"
    and "decodes L (storage_json L ''content'' (JObj (usage_content a))) (usage_content a)"
      "decodes L (storage_json L ''metadata'' (usage_metadata a)) (object_or_empty (usage_metadata a))" "unblank_digests L"
    and "length (filter is_token_event (rl_rows l')) \<le> n"
    and "\<And>e. e \<in> set (rights (normalized_rows L n d l)) \<Longrightarrow> te_explicit e \<Longrightarrow> usage_key e \<noteq> (ua_work a, ua_usage a)"
  shows "tokens_in (filter (\<lambda>e. te_work e = w) (ro_ledger (build_token_ledger_rollup L n x y z d l'))) =
      tokens_in (filter (\<lambda>e. te_work e = w) (ro_ledger (build_token_ledger_rollup L n x y z d l))) + (if w = ua_work a then ua_tokens a else 0) \<and>
    (\<forall>l2 b0 b t'. recorded L l' l2 \<and> clean_usage b0 = Inr b \<and> ua_work b = ua_work a \<and> ua_source b = ua_source a \<and> ua_usage b = ua_usage a \<longrightarrow>
      (\<exists>r. record_measured_token_usage L env (Some True) b0 t' l2 = Inr (l2, r) \<and> ur_deduped r \<and> ur_event r = ur_event res))"
proof
  note ins = usage_inserted [OF assms(3,4,7)]
  show "tokens_in (filter (\<lambda>e. te_work e = w) (ro_ledger (build_token_ledger_rollup L n x y z d l'))) =
      tokens_in (filter (\<lambda>e. te_work e = w) (ro_ledger (build_token_ledger_rollup L n x y z d l))) + (if w = ua_work a then ua_tokens a else 0)"
    by (rule usage_adds [OF assms(1-3) ins(1) assms(5,6,8,9)])
  obtain i where i: "ur_event res = Some i" using ins(2) by blast
  show "\<forall>l2 b0 b t'. recorded L l' l2 \<and> clean_usage b0 = Inr b \<and> ua_work b = ua_work a \<and> ua_source b = ua_source a \<and> ua_usage b = ua_usage a \<longrightarrow>
      (\<exists>r. record_measured_token_usage L env (Some True) b0 t' l2 = Inr (l2, r) \<and> ur_deduped r \<and> ur_event r = ur_event res)"
  proof (intro allI impI, elim conjE)
    fix l2 b0 b t'
    assume "recorded L l' l2" "clean_usage b0 = Inr b" "ua_work b = ua_work a" "ua_source b = ua_source a" "ua_usage b = ua_usage a"
    from usage_again [OF assms(3) i assms(2,1) this _ assms(7), of env "Some True" t'] i
    show "\<exists>r. record_measured_token_usage L env (Some True) b0 t' l2 = Inr (l2, r) \<and> ur_deduped r \<and> ur_event r = ur_event res"
      by (auto simp: writer_enabled_def)
  qed
qed

theorem usage_counts_once_witness:
  "\<exists>l r. record_measured_token_usage demo_ledger_lib None None demo_usage_args 1 empty_run_log = Inr (l, r) \<and>
     tokens_in (filter (\<lambda>e. te_work e = ''W5'') (ro_ledger (build_token_ledger_rollup demo_ledger_lib 10 10 10 10 empty_db l))) = 7"
proof -
  obtain l r where r: "record_measured_token_usage demo_ledger_lib None None demo_usage_args 1 empty_run_log = Inr (l, r)" "ur_inserted r"
    "length (rl_rows l) = 1" using demo_usage_recorded by blast
  have n: "length (filter is_token_event (rl_rows l)) \<le> 10" using r(3) length_filter_le [of is_token_event "rl_rows l"] by simp
  have none: "normalized_rows demo_ledger_lib 10 empty_db empty_run_log = []"
    by (simp add: normalized_rows_def coord_token_rows_def run_token_rows_def empty_db_def empty_run_log_def)
  have zero: "ro_ledger (build_token_ledger_rollup demo_ledger_lib 10 10 10 10 empty_db empty_run_log) = []"
    by (simp add: build_token_ledger_rollup_def none ledger_events_def groups_def first_met_def Let_def)
  from usage_counts_once [OF log_ok_empty demo_usage_clean r(1,2) demo_ledger_lib_reads n, of empty_db "''W5''" 10 10 10] none r(1) zero
  show ?thesis by (auto simp: demo_usage_args_def)
qed

text \<open>A row is warned about when it has used four fifths of its budget, and only then: the warning
  of a row is its budget and the tokens the ledger counts for it, and it is given if and only if a
  positive budget is set and the tokens reach 80 per cent of it (as long as the ledger has no more
  events than the rollup sums).\<close>

theorem budget_warned_exactly:
  assumes "length (ro_ledger (build_token_ledger_rollup L 50000 50000 0 25 d l)) \<le> 50000"
  shows "token_budget_warning L (4 / 5) work d l = Some b \<longleftrightarrow>
    (\<exists>w n. workd d work = Some w \<and> token_budget w = Some n \<and> 0 < n \<and>
      b = \<lparr>bw_work = work, bw_budget = n,
        bw_used = tokens_in (filter (\<lambda>e. te_work e = work) (ro_ledger (build_token_ledger_rollup L 50000 50000 0 25 d l)))\<rparr> \<and>
      4 * n \<le> 5 * bw_used b)"
  by (rule budget_warning [OF assms])

theorem budget_warned_exactly_witness:
  "token_budget_warning demo_lib (4 / 5) ''W5'' demo_db empty_run_log = None"
proof -
  let ?R = "build_token_ledger_rollup demo_lib 50000 50000 0 25 demo_db empty_run_log"
  have rows: "normalized_rows demo_lib 50000 demo_db empty_run_log = []"
    by (simp add: normalized_rows_def coord_token_rows_def run_token_rows_def demo_defs empty_run_log_def)
  then have "ro_ledger ?R = []" by (simp add: build_token_ledger_rollup_def ledger_events_def groups_def first_met_def Let_def)
  then have "\<not> (\<exists>b. token_budget_warning demo_lib (4 / 5) ''W5'' demo_db empty_run_log = Some b)"
    using budget_warned_exactly [of demo_lib demo_db empty_run_log "''W5''"] by auto
  then show ?thesis by simp
qed

text \<open>Only one thing stops a write at the policy boundary. Whatever the modes are set to, a run of
  the pipeline blocks if and only if the action is the completion of a row whose declared terminal
  state may not complete it; the reason is then that state and nothing was recorded. Otherwise it
  fails on a malformed request or runs all seven passes, and the log of run events only grows.\<close>

theorem boundary_blocks_exactly:
  assumes "run_boundary_policy E configured modes c l = (l', x)" "log_ok l"
  shows "(cx_action c = ''done'' \<and> done_terminal_block_reason (pe_lib E) (payload_row (cx_payload c)) \<noteq> None \<longleftrightarrow> (\<exists>q. x = Inr q \<and> po_blocked q)) \<and>
    (\<forall>q. x = Inr q \<longrightarrow> (if po_blocked q then po_reason q = done_terminal_block_reason (pe_lib E) (payload_row (cx_payload c)) \<and> l' = l
       else length (po_rows q) = length pass_order)) \<and>
    log_ok l' \<and> (\<exists>new. rl_rows l' = rl_rows l @ new)"
proof -
  note out = boundary_outcome [OF assms(1)]
  have "cx_action c = ''done'' \<and> done_terminal_block_reason (pe_lib E) (payload_row (cx_payload c)) \<noteq> None" if "x = Inr q" "po_blocked q" for q
    using boundary_block_sound [OF assms(1) [unfolded that(1)] that(2)] .
  with out(1,2) recorded_keeps [OF out(3) assms(2)] show ?thesis by (auto simp: pass_order_def)
qed

theorem boundary_blocks_exactly_witness:
  "\<exists>l q. run_boundary_policy demo_env [] [(''structured_status'', Report)] demo_done empty_run_log = (l, Inr q) \<and> po_blocked q"
proof -
  obtain l x where r: "run_boundary_policy demo_env [] [(''structured_status'', Report)] demo_done empty_run_log = (l, x)"
    by (cases "run_boundary_policy demo_env [] [(''structured_status'', Report)] demo_done empty_run_log")
  from boundary_blocks_exactly [OF r log_ok_empty] demo_done_reason r show ?thesis by (auto simp: demo_env_def demo_done_def)
qed






text \<open>C33: a request nobody answers is escalated, once for each time limit it passes, and no other. A pass
  writes at most fifty escalations; each is for a request from another lane that is still open, not
  judged since, past its limit and not escalated for it before; and if it writes fewer, every such
  request is escalated afterwards. No row and no claim changes.\<close>

theorem escalations_exact:
  assumes "evaluate_request_slas L t t2 d = (d', Inr (out, rc))" "wf_db d" "requests_ok d"
  shows "wf_db d' \<and> d_works d' = d_works d \<and> d_claims d' = d_claims d \<and> length out \<le> escalation_cap \<and>
    (\<forall>es \<in> set out. \<exists>x \<in> owed d. 0 < overdue t2 x \<and> es_multiple es = overdue t2 x \<and> es_lane es = q_lane (fst x) \<and>
       es_work es = e_work (snd x) \<and> event_by_key d (escalated t2 x) = None) \<and>
    (length out < escalation_cap \<longrightarrow> (\<forall>x \<in> owed d. 0 < overdue t2 x \<longrightarrow> event_by_key d' (escalated t2 x) \<noteq> None))"
proof -
  obtain d1 where s: "reclassify_self_directed_requests L t d = (d1, rc)" "escalate_rows t2 (unanswered d1) 0 d1 = Inr (d', out)"
    by (rule evaluate_slas_Inr [OF assms(1)])
  have l: "logged d d1" by (rule reclassify_effect(1) [OF s(1) assms(3)])
  have fresh: "event_by_key d1 k = None \<Longrightarrow> event_by_key d k = None" for k
    using logged_key [OF l, of k] by (cases "event_by_key d k") auto
  have "logged d d'" by (rule evaluate_slas_logged [OF assms(1)])
  then have "wf_db d' \<and> d_works d' = d_works d \<and> d_claims d' = d_claims d" using assms(2) by (simp add: logged_def)
  moreover note e = escalate_rows_effect [OF s(2), unfolded unanswered_owed [OF s(1) assms(3)]]
  have "length out \<le> escalation_cap" using e(3) by simp
  moreover have "\<forall>es \<in> set out. \<exists>x \<in> owed d. 0 < overdue t2 x \<and> es_multiple es = overdue t2 x \<and> es_lane es = q_lane (fst x) \<and>
       es_work es = e_work (snd x) \<and> event_by_key d (escalated t2 x) = None" using e(4) fresh by blast
  moreover have "length out < escalation_cap \<longrightarrow> (\<forall>x \<in> owed d. 0 < overdue t2 x \<longrightarrow> event_by_key d' (escalated t2 x) \<noteq> None)"
    using e(5) by simp
  ultimately show ?thesis by blast
qed

theorem escalations_exact_witness:
  "\<exists>d' out rc. evaluate_request_slas demo_lib 4000 4000 demo_request_db = (d', Inr (out, rc)) \<and> length out = 1 \<and> length out \<le> escalation_cap"
proof -
  have "case evaluate_request_slas demo_lib 4000 4000 demo_request_db of (d', r) \<Rightarrow> (case r of Inl _ \<Rightarrow> False | Inr (out, rc) \<Rightarrow> length out = 1)"
    by code_simp
  then obtain d' out rc where e: "evaluate_request_slas demo_lib 4000 4000 demo_request_db = (d', Inr (out, rc))" "length out = 1"
    by (auto split: prod.splits sum.splits)
  from escalations_exact [OF e(1) demo_request_wf] e show ?thesis by blast
qed

text \<open>C34: the background pass keeps the board sound. Whatever the process table, the files, the dark
  holds and the clock show, and whether it returns or ends with an exception half way, the
  constraints of the database hold afterwards and the history is as it was, with what the pass added.\<close>

theorem reaper_keeps_history:
  assumes "wf_db d"
  shows "wf_db (fst (run_reaper L lanes P W M S now clock d)) \<and> kept d (fst (run_reaper L lanes P W M S now clock d))"
  using run_reaper_ok assms by (simp add: step_ok_def)

theorem reaper_keeps_history_witness:
  "wf_db (fst (run_reaper demo_trigger_lib default_lanes demo_processes demo_files None demo_settings (\<lambda>_. 5000) (\<lambda>_. 5000) demo_blocked_db))"
  using reaper_keeps_history [OF demo_blocked_wf] by blast



text \<open>C36: every overlap of write sets is reported, and nothing else. On the tables as they can come about, a
  readable scan reports a pair of declarations, in one of the two orders, exactly if both were made
  under claims held now, of different sessions, for the same kind of thing, and they overlap: two
  tables or services if they are the same, two paths if both are absolute or both relative and the
  segments of one begin the segments of the other (so \<open>src/core\<close> overlaps \<open>src/core/db.py\<close> and
  not \<open>src/core2\<close>).\<close>

theorem overlaps_exact:
  assumes "contract_steps L lanes base (d, k)"
  shows "(let f = set (ov_findings (write_set_overlaps True expired t d k)) in (a, b) \<in> f \<or> (b, a) \<in> f) \<longleftrightarrow>
    declared_now expired t d k a \<and> declared_now expired t d k b \<and>
    dc_claim a \<noteq> dc_claim b \<and> dc_session a \<noteq> dc_session b \<and> dc_kind a = dc_kind b \<and>
    (if dc_kind a = ''path''
     then prefix ''/'' (dc_value a) = prefix ''/'' (dc_value b) \<and>
       (prefix (path_components (dc_value a)) (path_components (dc_value b)) \<or>
        prefix (path_components (dc_value b)) (path_components (dc_value a)))
     else dc_value a = dc_value b)"
  using overlap_findings_exact [of L base d k expired t a b] contract_steps_ok [OF assms]
  by (simp add: scopes_overlap_def segments_meet_def)

theorem overlaps_exact_witness:
  "let a = demo_declared_by ''c2'' ''W2'' ''codex:b'' ''src/core''; b = demo_declared_by ''c4'' ''W4'' ''claude:a'' ''src/core/db.py''
   in (let f = set (ov_findings (write_set_overlaps True False 10 demo_db demo_scopes)) in (a, b) \<in> f \<or> (b, a) \<in> f) \<and>
      declared_now False 10 demo_db demo_scopes a \<and> declared_now False 10 demo_db demo_scopes b"
proof -
  let ?a = "demo_declared_by ''c2'' ''W2'' ''codex:b'' ''src/core''" and ?b = "demo_declared_by ''c4'' ''W4'' ''claude:a'' ''src/core/db.py''"
  have "let f = set (ov_findings (write_set_overlaps True False 10 demo_db demo_scopes)) in (?a, ?b) \<in> f \<or> (?b, ?a) \<in> f"
    by code_simp
  with overlaps_exact [OF demo_scopes_reached, of False 10 ?a ?b] show ?thesis unfolding Let_def by blast
qed

text \<open>C37: contracts stay true of the claims they name. However the board and the contracts move on, every
  declared scope and every child attempt names a claim of the board, with the work and the session
  that claim has; no scope and no completion is filed twice; a child has a label and says who ran it;
  and no declared path below the repository, relative as claims write them, lies on a deploy pointer
  or the release tree, above it or in it.\<close>

theorem contracts_attributed:
  assumes "contract_steps L lanes base (d, k)"
  shows "(\<forall>r \<in> set (k_scopes k). (\<exists>c \<in> set (d_claims d). c_id c = sw_claim r \<and> c_work c = sw_work r \<and> c_session c = sw_session r) \<and>
      sw_kind r \<in> set scope_kinds \<and>
      (prefix ''/'' base \<and> sw_kind r = ''path'' \<and> \<not> prefix ''/'' (sw_value r) \<longrightarrow>
        (\<forall>x \<in> set ungrantable_paths. \<not> prefix (path_components (sw_value r)) (path_components x) \<and>
           \<not> prefix (path_components x) (path_components (sw_value r))))) \<and>
    (\<forall>x \<in> set (k_children k). (\<exists>c \<in> set (d_claims d). c_id c = kid_claim x \<and> c_work c = kid_work x \<and> c_session c = kid_parent x) \<and>
      kid_label x \<noteq> [] \<and> kid_by x \<noteq> []) \<and>
    distinct (map (\<lambda>r. (sw_claim r, sw_kind r, sw_value r)) (k_scopes k)) \<and>
    distinct (map (\<lambda>r. (cs_sha r, cs_work r)) (k_signals k)) \<and> distinct (map kid_id (k_children k))"
proof -
  have ok: "contracts_ok L base d k" using contract_steps_ok [OF assms] by simp
  have "sw_kind r \<in> set scope_kinds" if "scope_ok base d r" for r using that granted_kind by (auto simp: scope_ok_def)
  moreover have "\<not> segments_meet (path_components (sw_value r)) (path_components x)"
    if "scope_ok base d r" "prefix ''/'' base" "sw_kind r = ''path''" "\<not> prefix ''/'' (sw_value r)" "x \<in> set ungrantable_paths" for r x
    using that granted_apart unfolding scope_ok_def by metis
  ultimately show ?thesis using ok unfolding contracts_ok_def scope_ok_def child_ok_def of_claim_def segments_meet_def by blast
qed

theorem contracts_attributed_witness:
  "\<exists>r \<in> set (k_scopes demo_scopes). \<exists>c \<in> set (d_claims demo_db).
     c_id c = sw_claim r \<and> c_work c = sw_work r \<and> c_session c = sw_session r"
proof -
  have "k_scopes demo_scopes \<noteq> []" by code_simp
  then obtain r where "r \<in> set (k_scopes demo_scopes)" by (cases "k_scopes demo_scopes") auto
  with contracts_attributed [OF demo_scopes_reached] show ?thesis by blast
qed

section \<open>Reviews asked for and reviews dropped\<close>

text \<open>C38: a review is asked for once, from another lane. The claim is running and its completion needs a
  review and has no negative verdict; the request is addressed to a configured lane that is not the
  author's; the row waits for the review, one version on, and no other row, claim, run or session
  changes; and the request is then the only active head of the row: whatever hand-off or request was
  open on it is superseded (provided that no event used a key of these supersessions).\<close>

theorem review_requested:
  assumes "request_completion_review_if_needed L W lanes claim t d = Inr (d', Some r)" "\<not> rk_replayed r" "wf_db d"
    and "fresh_keys ''audit-request-supersede'' d"
  shows "\<exists>c w e rs. claimd d (strip claim) = Some c \<and> lower (strip (c_status c)) = ''running'' \<and> workd d (c_work c) = Some w \<and>
     completion_review_state L W lanes d (c_work c) (Some (ask_row d c w)) = Inr rs \<and> rs_needs_review rs \<and> \<not> rs_negative rs \<and>
     rk_work r = c_work c \<and> rk_lane r \<in> set lanes \<and> rk_lane r \<noteq> norm (Some (rk_author r)) \<and>
     eventd d (rk_event r) = None \<and> eventd d' (rk_event r) = Some e \<and> e_kind e = ''audit_request'' \<and> e_work e = Some (c_work c) \<and>
     e_actor e = Some (rk_author r) \<and> e_to e = Some (''actor:'' @ rk_lane r) \<and>
     workd d' (c_work c) = Some (await_review t w) \<and> (\<forall>j. j \<noteq> c_work c \<longrightarrow> workd d' j = workd d j) \<and>
     d_claims d' = d_claims d \<and> d_runs d' = d_runs d \<and> d_sessions d' = d_sessions d \<and>
     hs_active (typed_handoff_head_state L d' (c_work c)) = [rk_event r]"
proof -
  obtain c w rs author lane where q: "claimd d (strip claim) = Some c" "workd d (c_work c) = Some w"
    "completion_review_state L W lanes d (c_work c) (Some (ask_row d c w)) = Inr rs" "\<not> rs_negative rs" "rs_needs_review rs"
    "lower (strip (c_status c)) = ''running''" "lane \<in> set lanes" "lane \<noteq> norm (Some author)"
    "ask_writes L W c w author lane rs t d = Inr (d', r)"
    by (rule request_asked [OF assms(1,2)])
  note a = ask_effects [OF assms(3) q(9)]
  have "eventd d (rk_event r) = None" using assms(3)
    by (auto simp: a(6) eventd_def find_None_iff wf_db_def events_ok_def event_log_ok_def)
  with q a(1,3-5,9-11) a(2) [of "c_work c"] a(2) ask_heads [OF assms(3,4) q(9)] show ?thesis by auto
qed

theorem review_requested_witness:
  "\<exists>d' r. request_completion_review_if_needed demo_lib demo_open_proofs default_lanes ''c6'' 50 demo_ask_db = Inr (d', Some r) \<and>
     rk_superseded r = [1] \<and> rk_lane r = ''codex'' \<and> hs_active (typed_handoff_head_state demo_lib d' ''W6'') = [2]"
proof -
  let ?q = "request_completion_review_if_needed demo_lib demo_open_proofs default_lanes ''c6'' 50 demo_ask_db"
  have "map_sum (\<lambda>_. ()) (map_option (\<lambda>r. (rk_event r, rk_work r, rk_lane r, rk_superseded r, rk_replayed r)) \<circ> snd) ?q
      = Inr (Some (2, ''W6'', ''codex'', [1], False))" by code_simp
  then obtain d' r where r: "?q = Inr (d', Some r)" "rk_event r = 2" "rk_work r = ''W6''" "rk_lane r = ''codex''" "rk_superseded r = [1]" "\<not> rk_replayed r"
    by (cases ?q) auto
  from review_requested [OF r(1,6) demo_ask_wf demo_ask_fresh] r show ?thesis by auto
qed

text \<open>C39: who asked for a review gets no completion without one. From the request on, however the board
  moves on, a claim of the row that is completed while the row is of tier T0 has a verdict on the row
  (or a newer request for one) behind the request.\<close>

theorem asked_then_judged:
  assumes "request_completion_review_if_needed L W0 lanes claim t0 d0 = Inr (d1, Some r)" "\<not> rk_replayed r" "wf_db d0"
    and "protocol_steps L lanes d1 d"
    and "complete_claim L W lanes art i path kind enforce body source sid actor sys t d = Inr (d', stored)"
    and "claimd d i = Some c" "c_work c = rk_work r" "workd d (c_work c) = Some w"
    and "completion_review_state L W lanes d (c_work c) (Some (completion_row c w)) = Inr rs" "rs_tier rs = ''T0''"
  shows "\<exists>x \<in> set (d_events d). e_work x = Some (rk_work r) \<and> e_kind x \<in> {''audit_verdict'', ''audit_request''} \<and> rk_event r < e_id x"
proof (rule ccontr)
  assume none: "\<not> ?thesis"
  obtain c0 w0 rs0 author lane where q: "ask_writes L W0 c0 w0 author lane rs0 t0 d0 = Inr (d1, r)"
    by (rule request_asked [OF assms(1,2)])
  note a = ask_effects [OF assms(3) q]
  let ?e = "(ask_event L W0 d0 c0 w0 author lane rs0 t0)\<lparr>e_id := rk_event r\<rparr>"
  have wf: "wf_db d1" "kept d1 d" "wf_db d" using a(8) protocol_steps_keep [OF assms(4)] by blast+
  then have ok: "events_ok d" by (simp add: wf_db_def)
  have "?e \<in> set (d_events d1)" "0 < rk_event r"
    using find_SomeD [OF a(1) [unfolded eventd_def]] wf(1) by (auto simp: wf_db_def events_ok_def event_log_ok_def)
  then have e: "?e \<in> set (d_events d)" "0 < rk_event r" using kept_events [OF wf(2)] by auto
  have "latest_of_kind d (c_work c) ''audit_request'' = e_id ?e"
    by (rule latest_is [OF ok e(1)]) (use none assms(7) a(11) in auto)
  then have latest: "latest_of_kind d (c_work c) ''audit_request'' = rk_event r" by simp
  have "eventd d (rk_event r) = Some ?e"
    using find_distinct [of e_id "d_events d" ?e] e(1) ok by (simp add: eventd_def events_ok_def event_log_ok_def strict_sorted_iff)
  moreover have "jget (e_payload ?e) ''writer_contract'' = JNull" by (simp add: ask_payload_fields)
  moreover have "\<forall>x \<in> set (d_events d). e_work x = Some (c_work c) \<and> e_kind x = ''audit_verdict'' \<longrightarrow> e_id x \<le> rk_event r"
    using none assms(7) by auto
  ultimately show False using unjudged_refused [OF assms(5,6,8-10) latest e(2) _ _ ok] by blast
qed

theorem asked_then_judged_witness:
  "\<exists>x \<in> set (d_events demo_judged_db). e_work x = Some ''W6'' \<and> e_kind x \<in> {''audit_verdict'', ''audit_request''} \<and> 2 < e_id x"
proof -
  let ?q = "request_completion_review_if_needed demo_lib demo_open_proofs default_lanes ''c6'' 50 demo_ask_db"
  let ?v = "post_event demo_lib default_lanes demo_answer 60 demo_asked_db"
  let ?f = "complete_claim demo_lib demo_proofs default_lanes ''a1'' ''c6'' None None True None [] (Some ''claude:a'') None None 100 demo_judged_db"
  let ?c = "the (claimd demo_judged_db ''c6'')" and ?w = "the (workd demo_judged_db ''W6'')"
  let ?s = "completion_review_state demo_lib demo_proofs default_lanes demo_judged_db (c_work ?c) (Some (completion_row ?c ?w))"
  have "map_sum (\<lambda>_. ()) (map_option (\<lambda>r. (rk_event r, rk_work r, rk_replayed r)) \<circ> snd) ?q = Inr (Some (2, ''W6'', False))" by code_simp
  then obtain r where r: "?q = Inr (demo_asked_db, Some r)" "rk_event r = 2" "rk_work r = ''W6''" "\<not> rk_replayed r"
    by (cases ?q) (auto simp: demo_asked_db_def)
  have "map_sum (\<lambda>_. ()) (\<lambda>_. ()) ?v = Inr ()" by code_simp
  then obtain vr where v: "?v = Inr (demo_judged_db, vr)" by (cases ?v) (auto simp: demo_judged_db_def)
  have steps: "protocol_steps demo_lib default_lanes demo_asked_db demo_judged_db"
    by (rule protocol_steps.further [OF protocol_steps.stay protocol_step.event [OF v]])
  have "map_sum (\<lambda>_. ()) snd ?f = Inr ''a''" by code_simp
  from Inr_fst_snd [OF this] obtain d' where f: "?f = Inr (d', ''a'')" ..
  have "map_sum (\<lambda>_. ()) rs_tier ?s = Inr ''T0''" by code_simp
  then obtain rs where rs: "?s = Inr rs" "rs_tier rs = ''T0''" by (cases ?s) auto
  have "claimd demo_judged_db ''c6'' \<noteq> None" "workd demo_judged_db ''W6'' \<noteq> None" and w: "c_work ?c = ''W6''" by code_simp+
  then have "claimd demo_judged_db ''c6'' = Some ?c" "workd demo_judged_db (c_work ?c) = Some ?w" by auto
  from asked_then_judged [OF r(1,4) demo_ask_wf steps f this(1) _ this(2) rs] w r(2,3) show ?thesis by simp
qed



end
